(* ===== verification/Spe_Prelude.thy ===== *)
theory Spe_Prelude
  imports Main "HOL-Library.Word" "HOL-Library.Multiset" "HOL-Library.Monad_Syntax"
begin

unbundle bit_operations_syntax

text \<open>
  The prelude of the development: the types the components share (machine words, addresses,
  the byte memory of the process, the environment of a call), the interface to the code that
  is not part of the repository (kernel and C library calls), and generic lemmas on them.

  A C function is a HOL function that takes the state it reads and returns its result together
  with the state it leaves. Where the C code may have no result (an access to an unmapped
  address, a loop that never ends) the result type is an \<open>option\<close> and \<open>None\<close> is that outcome;
  errors the code reports (a return value and \<open>errno\<close>) are ordinary results.
\<close>

section \<open>Machine types\<close>

type_synonym u8 = "8 word"
type_synonym u32 = "32 word"
type_synonym u64 = "64 word"

text \<open>Addresses are natural numbers; \<open>NULL\<close> and \<open>MAP_FAILED\<close> are the two special ones.\<close>

type_synonym addr = nat

abbreviation (input) NULL :: addr where "NULL \<equiv> 0"

abbreviation (input) MAP_FAILED :: addr where "MAP_FAILED \<equiv> 18446744073709551615"

type_synonym memory = "addr \<rightharpoonup> u8"

named_theorems mem_simps \<open>reading back what a store wrote, and what it left alone\<close>
named_theorems sys_simps \<open>what a kernel call changes in the environment\<close>

section \<open>C integers\<close>

text \<open>Division of C rounds towards zero.\<close>

definition c_div :: "int \<Rightarrow> int \<Rightarrow> int" where
  "c_div a b = sgn a * sgn b * (\<bar>a\<bar> div \<bar>b\<bar>)"

lemma c_div_nonneg [simp]: "0 \<le> a \<Longrightarrow> 0 < b \<Longrightarrow> c_div a b = a div b"
  by (cases "a = 0") (auto simp: c_div_def)

lemma c_div_minus_one_4 [simp]: "c_div (-1) 4 = 0"
  by (simp add: c_div_def)

text \<open>\<open>flags & m\<close> used as a condition.\<close>

definition has_flag :: "u32 \<Rightarrow> u32 \<Rightarrow> bool" where
  "has_flag fl m \<longleftrightarrow> fl AND m \<noteq> 0"

lemma has_flag_0 [simp]: "\<not> has_flag 0 m"
  by (simp add: has_flag_def)

lemma has_flag_or: "has_flag (a OR b) m \<longleftrightarrow> has_flag a m \<or> has_flag b m"
  by (simp add: has_flag_def word_ao_dist bit_eq_iff bit_simps) blast

section \<open>Big-endian encoding of 32-bit words\<close>

definition bytes_of_word :: "u32 \<Rightarrow> u8 list" where
  "bytes_of_word w =
     [ucast (drop_bit 24 w), ucast (drop_bit 16 w), ucast (drop_bit 8 w), ucast w]"

definition word_of_bytes4 :: "u8 \<Rightarrow> u8 \<Rightarrow> u8 \<Rightarrow> u8 \<Rightarrow> u32" where
  "word_of_bytes4 a b c d =
     push_bit 24 (ucast a) OR push_bit 16 (ucast b) OR push_bit 8 (ucast c) OR ucast d"

fun word_of_bytes :: "u8 list \<Rightarrow> u32" where
  "word_of_bytes [a, b, c, d] = word_of_bytes4 a b c d"
| "word_of_bytes _ = 0"

lemma length_bytes_of_word [simp]: "length (bytes_of_word w) = 4"
  by (simp add: bytes_of_word_def)

lemma word_of_bytes_of_word [simp]: "word_of_bytes (bytes_of_word w) = w"
proof (rule bit_word_eqI)
  fix n
  assume "n < LENGTH(32)"
  then have "n < 32" by simp
  then consider "n < 8" | "8 \<le> n" "n < 16" | "16 \<le> n" "n < 24" | "24 \<le> n" "n < 32"
    by linarith
  then show "bit (word_of_bytes (bytes_of_word w)) n = bit w n"
    by cases (auto simp: bytes_of_word_def word_of_bytes4_def bit_simps)
qed

section \<open>The memory of the process\<close>

text \<open>
  A load or a store of an unmapped byte has no result. \<open>load_bytes m a n\<close> reads \<open>n\<close> bytes,
  \<open>store_bytes m a bs\<close> writes a block; \<open>memcpy\<close> and \<open>memset\<close> are built on them.
\<close>

fun load_bytes :: "memory \<Rightarrow> addr \<Rightarrow> nat \<Rightarrow> u8 list option" where
  "load_bytes m a 0 = Some []"
| "load_bytes m a (Suc n) = do { b \<leftarrow> m a; bs \<leftarrow> load_bytes m (Suc a) n; Some (b # bs) }"

fun store_bytes :: "memory \<Rightarrow> addr \<Rightarrow> u8 list \<Rightarrow> memory option" where
  "store_bytes m a [] = Some m"
| "store_bytes m a (b # bs) =
     (case m a of None \<Rightarrow> None | Some _ \<Rightarrow> store_bytes (m(a \<mapsto> b)) (Suc a) bs)"

definition mapped :: "memory \<Rightarrow> addr \<Rightarrow> nat \<Rightarrow> bool" where
  "mapped m a n \<longleftrightarrow> (\<forall>x. a \<le> x \<and> x < a + n \<longrightarrow> m x \<noteq> None)"

definition load32 :: "memory \<Rightarrow> addr \<Rightarrow> u32 option" where
  "load32 m a = map_option word_of_bytes (load_bytes m a 4)"

definition store32 :: "memory \<Rightarrow> addr \<Rightarrow> u32 \<Rightarrow> memory option" where
  "store32 m a w = store_bytes m a (bytes_of_word w)"

definition memcpy :: "memory \<Rightarrow> addr \<Rightarrow> addr \<Rightarrow> nat \<Rightarrow> memory option" where
  "memcpy m dst src n = do { bs \<leftarrow> load_bytes m src n; store_bytes m dst bs }"

definition memset :: "memory \<Rightarrow> addr \<Rightarrow> u8 \<Rightarrow> nat \<Rightarrow> memory option" where
  "memset m dst b n = store_bytes m dst (replicate n b)"

text \<open>\<open>same_outside m m' A\<close>: the two memories agree outside the addresses of \<open>A\<close>.\<close>

definition same_outside :: "memory \<Rightarrow> memory \<Rightarrow> addr set \<Rightarrow> bool" where
  "same_outside m m' A \<longleftrightarrow> (\<forall>x. x \<notin> A \<longrightarrow> m' x = m x)"

lemma mapped_0 [simp]: "mapped m a 0"
  unfolding mapped_def by auto

lemma mapped_Suc: "mapped m a (Suc n) \<longleftrightarrow> m a \<noteq> None \<and> mapped m (Suc a) n"
proof -
  have "(a \<le> x \<and> x < a + Suc n) \<longleftrightarrow> x = a \<or> (Suc a \<le> x \<and> x < Suc a + n)" for x by auto
  then show ?thesis by (auto simp: mapped_def)
qed

lemma mapped_sub: "mapped m a n \<Longrightarrow> a \<le> b \<Longrightarrow> b + k \<le> a + n \<Longrightarrow> mapped m b k"
  by (auto simp: mapped_def)

lemma mapped_dom: "dom m' = dom m \<Longrightarrow> mapped m' a n = mapped m a n"
  unfolding mapped_def by (metis domIff)

lemma load_bytes_length: "load_bytes m a n = Some bs \<Longrightarrow> length bs = n"
  by (induction n arbitrary: a bs) (auto split: Option.bind_splits)

lemma load_bytes_mapped: "(\<exists>bs. load_bytes m a n = Some bs) \<longleftrightarrow> mapped m a n"
proof (induction n arbitrary: a)
  case (Suc n)
  from Suc.IH [of "Suc a"] show ?case by (auto simp: mapped_Suc split: Option.bind_splits)
qed simp

lemma load_bytes_cong: "(\<And>x. a \<le> x \<Longrightarrow> x < a + n \<Longrightarrow> m' x = m x) \<Longrightarrow> load_bytes m' a n = load_bytes m a n"
  by (induction n arbitrary: a) (auto split: Option.bind_splits)

lemma load_bytes_same_outside:
  "same_outside m m' A \<Longrightarrow> {a..<a + n} \<inter> A = {} \<Longrightarrow> load_bytes m' a n = load_bytes m a n"
  by (rule load_bytes_cong) (auto simp: same_outside_def)

lemma load_bytes_add:
  "load_bytes m a (n + k) =
     do { xs \<leftarrow> load_bytes m a n; ys \<leftarrow> load_bytes m (a + n) k; Some (xs @ ys) }"
  by (induction n arbitrary: a) (auto split: Option.bind_splits)

lemma store_bytes_mapped: "(\<exists>m'. store_bytes m a bs = Some m') \<longleftrightarrow> mapped m a (length bs)"
proof (induction bs arbitrary: m a)
  case (Cons b bs)
  show ?case
  proof (cases "m a")
    case (Some c)
    then have "dom (m(a \<mapsto> b)) = dom m" by auto
    then have "mapped (m(a \<mapsto> b)) (Suc a) (length bs) = mapped m (Suc a) (length bs)"
      by (rule mapped_dom)
    moreover have "(\<exists>m'. store_bytes (m(a \<mapsto> b)) (Suc a) bs = Some m') \<longleftrightarrow>
        mapped (m(a \<mapsto> b)) (Suc a) (length bs)"
      by (rule Cons.IH)
    ultimately show ?thesis using Some mapped_Suc [of m a "length bs"] by simp
  qed (simp add: mapped_Suc)
qed simp

lemma store_bytes_dom: "store_bytes m a bs = Some m' \<Longrightarrow> dom m' = dom m"
proof (induction bs arbitrary: m a)
  case (Cons b bs)
  from Cons.prems obtain c where c: "m a = Some c"
    and "store_bytes (m(a \<mapsto> b)) (Suc a) bs = Some m'"
    by (auto split: option.splits)
  then have "dom m' = dom (m(a \<mapsto> b))" using Cons.IH by blast
  then show ?case using c by auto
qed simp

lemma store_bytes_outside:
  "store_bytes m a bs = Some m' \<Longrightarrow> x < a \<or> a + length bs \<le> x \<Longrightarrow> m' x = m x"
  by (induction bs arbitrary: m a) (auto split: option.splits)

lemma store_bytes_same_outside:
  "store_bytes m a bs = Some m' \<Longrightarrow> same_outside m m' {a..<a + length bs}"
  unfolding same_outside_def using store_bytes_outside [of m a bs m'] by force

lemma load_store_bytes:
  "store_bytes m a bs = Some m' \<Longrightarrow> load_bytes m' a (length bs) = Some bs"
proof (induction bs arbitrary: m a)
  case (Cons b bs)
  then have s: "store_bytes (m(a \<mapsto> b)) (Suc a) bs = Some m'" by (auto split: option.splits)
  then have "m' a = Some b" by (auto dest: store_bytes_outside [where x = a])
  with Cons.IH [OF s] show ?case by simp
qed simp

lemma load_store_bytes_other:
  "store_bytes m a bs = Some m' \<Longrightarrow> b + n \<le> a \<or> a + length bs \<le> b \<Longrightarrow>
   load_bytes m' b n = load_bytes m b n"
  using store_bytes_outside [of m a bs m'] by (intro load_bytes_cong) auto

lemma load32_store32 [mem_simps]: "store32 m a w = Some m' \<Longrightarrow> load32 m' a = Some w"
  using load_store_bytes [of m a "bytes_of_word w" m'] by (simp add: load32_def store32_def)

lemma load32_store32_other [mem_simps]:
  "store32 m a w = Some m' \<Longrightarrow> b + 4 \<le> a \<or> a + 4 \<le> b \<Longrightarrow> load32 m' b = load32 m b"
  using load_store_bytes_other [of m a "bytes_of_word w" m' b 4]
  by (simp add: load32_def store32_def)

lemma load32_mapped: "(\<exists>w. load32 m a = Some w) \<longleftrightarrow> mapped m a 4"
  using load_bytes_mapped [of m a 4] by (auto simp: load32_def)

lemma store32_mapped: "(\<exists>m'. store32 m a w = Some m') \<longleftrightarrow> mapped m a 4"
  using store_bytes_mapped [of m a "bytes_of_word w"] by (simp add: store32_def)

lemma store32_dom: "store32 m a w = Some m' \<Longrightarrow> dom m' = dom m"
  by (simp add: store32_def store_bytes_dom)

lemma store32_same_outside: "store32 m a w = Some m' \<Longrightarrow> same_outside m m' {a..<a + 4}"
  using store_bytes_same_outside [of m a "bytes_of_word w" m'] by (simp add: store32_def)

lemma same_outside_refl [simp]: "same_outside m m A"
  by (simp add: same_outside_def)

lemma same_outside_trans:
  "same_outside m m' A \<Longrightarrow> same_outside m' m'' B \<Longrightarrow> same_outside m m'' (A \<union> B)"
  by (auto simp: same_outside_def)

lemma same_outside_mono: "same_outside m m' A \<Longrightarrow> A \<subseteq> B \<Longrightarrow> same_outside m m' B"
  by (auto simp: same_outside_def)

lemma memset_ok:
  "mapped m a n \<Longrightarrow> \<exists>m'. memset m a b n = Some m' \<and> load_bytes m' a n = Some (replicate n b) \<and>
     same_outside m m' {a..<a + n} \<and> dom m' = dom m"
  using store_bytes_mapped [of m a "replicate n b"] load_store_bytes [of m a "replicate n b"]
    store_bytes_same_outside [of m a "replicate n b"] store_bytes_dom [of m a "replicate n b"]
  by (auto simp: memset_def)

lemma memcpy_ok:
  "mapped m dst n \<Longrightarrow> load_bytes m src n = Some bs \<Longrightarrow>
   \<exists>m'. memcpy m dst src n = Some m' \<and> load_bytes m' dst n = Some bs \<and>
     same_outside m m' {dst..<dst + n} \<and> dom m' = dom m"
  using store_bytes_mapped [of m dst bs] load_store_bytes [of m dst bs] load_bytes_length [of m src n bs]
    store_bytes_same_outside [of m dst bs] store_bytes_dom [of m dst bs]
  by (auto simp: memcpy_def)

lemma memcpy_0 [simp]: "memcpy m dst src 0 = Some m"
  by (simp add: memcpy_def)

lemma range_disjoint_sub:
  "{a..<a + n} \<inter> A = {} \<Longrightarrow> a \<le> c \<Longrightarrow> c + k \<le> a + n \<Longrightarrow> {c..<c + k} \<inter> A = {}" for a :: nat
  by (auto simp: disjoint_iff)

lemma load32_same_outside:
  "same_outside m m' A \<Longrightarrow> {a..<a + 4} \<inter> A = {} \<Longrightarrow> load32 m' a = load32 m a"
  by (simp add: load32_def load_bytes_same_outside)

end
