(* ===== verification/Spe_Env.thy ===== *)
theory Spe_Env
  imports Spe_Prelude
begin

text \<open>
  The environment of a call. Everything the library asks the kernel, the C library's resource
  functions or the memory-mapped hardware registers is one request of the type \<open>sysreq\<close>; the
  code that answers is not part of the repository, so it is a parameter \<open>K\<close> of every
  definition that makes a request. \<open>K\<close> sees the memory and an uninterpreted state \<open>world\<close>, and
  may change both. The environment also records the requests made, in order (\<open>trace\<close>): the
  observable behaviour of the program, on which resource and locking properties are stated.
\<close>

section \<open>errno values\<close>

abbreviation (input) EPERM :: int where "EPERM \<equiv> 1"
abbreviation (input) ENOENT :: int where "ENOENT \<equiv> 2"
abbreviation (input) ESRCH :: int where "ESRCH \<equiv> 3"
abbreviation (input) EINTR :: int where "EINTR \<equiv> 4"
abbreviation (input) EIO :: int where "EIO \<equiv> 5"
abbreviation (input) ENOEXEC :: int where "ENOEXEC \<equiv> 8"
abbreviation (input) EBADF :: int where "EBADF \<equiv> 9"
abbreviation (input) EAGAIN :: int where "EAGAIN \<equiv> 11"
abbreviation (input) ENOMEM :: int where "ENOMEM \<equiv> 12"
abbreviation (input) EACCES :: int where "EACCES \<equiv> 13"
abbreviation (input) EFAULT :: int where "EFAULT \<equiv> 14"
abbreviation (input) EBUSY :: int where "EBUSY \<equiv> 16"
abbreviation (input) EEXIST :: int where "EEXIST \<equiv> 17"
abbreviation (input) ENODEV :: int where "ENODEV \<equiv> 19"
abbreviation (input) EINVAL :: int where "EINVAL \<equiv> 22"
abbreviation (input) EMFILE :: int where "EMFILE \<equiv> 24"
abbreviation (input) ENOSYS :: int where "ENOSYS \<equiv> 38"
abbreviation (input) ENOTSUP :: int where "ENOTSUP \<equiv> 95"

section \<open>Requests\<close>

text \<open>
  Open modes, \<open>poll\<close> events and permission bits are the numbers of the Linux headers; strings
  are byte strings. \<open>Lock\<close> and \<open>Unlock\<close> are the pthread mutex calls, named by the mutex; the
  condition variable of an SPE thread is named by the thread, \<open>PollFds\<close> is \<open>poll\<close> on an array.
  \<open>LibCall f xs\<close> is the call of the C library function
  \<open>f\<close> that the program on the SPE asked for; pointers among its arguments are addresses.
\<close>

abbreviation (input) O_RDONLY :: int where "O_RDONLY \<equiv> 0"
abbreviation (input) O_WRONLY :: int where "O_WRONLY \<equiv> 1"
abbreviation (input) O_RDWR :: int where "O_RDWR \<equiv> 2"
abbreviation (input) O_NONBLOCK :: int where "O_NONBLOCK \<equiv> 2048"
abbreviation (input) POLLIN :: u32 where "POLLIN \<equiv> 1"
abbreviation (input) POLLOUT :: u32 where "POLLOUT \<equiv> 4"
abbreviation (input) EPOLLIN :: u32 where "EPOLLIN \<equiv> 1"
abbreviation (input) EPOLLOUT :: u32 where "EPOLLOUT \<equiv> 4"

datatype mutex = FdLock nat | EventLock | StopEventLock | FileTableLock | GroupLock | ThreadLock addr

datatype epoll_op = EPOLL_CTL_ADD | EPOLL_CTL_DEL

datatype sysreq =
  Openat int string int
| Open string int
| Close int
| Read int nat
| ReadMem int addr nat
| Write int "u8 list"
| Fsync int
| Poll int u32 int
| Mmap nat int
| MmapPrivate nat int
| Munmap addr nat
| Fstat int
| SpuCreate string u32 "int option"
| SpuRun int u32
| MmioRead addr
| MmioWrite addr u32
| Malloc nat
| Free addr
| Getpid
| Opendir string
| Readdir
| Closedir
| ReadPVR
| Pipe
| FcntlGetfl int
| FcntlSetfl int int
| EpollCreate nat
| EpollCtl int epoll_op int nat u32
| EpollWait int int int
| Lock mutex
| Unlock mutex
| LibCall string "int list"
| PollFds "(int \<times> u32) list" int
| PthreadCreate addr
| PthreadJoin int
| PthreadCancel int
| CondInit addr
| CondWait addr
| CondSignal addr
| SetCancelType
| Gettid
| SigWait
| Getenv string

text \<open>
  A reply holds the return value of the call, the value the call gave \<open>errno\<close> (if it set it)
  and the data the call handed back through pointers to local variables: bytes, words, a
  directory entry name, the pointers kept with epoll registrations or the numbers in the
  fields of local structures (as they are after the call, set by it or not).
\<close>

record reply =
  rv :: int
  rerr :: "int option"
  rbytes :: "u8 list"
  rwords :: "u32 list"
  rname :: string
  rptrs :: "addr list"
  rvals :: "int list"

type_synonym 'w kernel = "sysreq \<Rightarrow> memory \<times> 'w \<Rightarrow> reply \<times> memory \<times> 'w"

record 'w env =
  errno :: int
  mem :: memory
  world :: 'w
  trace :: "(sysreq \<times> int) list"

definition sys :: "'w kernel \<Rightarrow> sysreq \<Rightarrow> 'w env \<Rightarrow> reply \<times> 'w env" where
  "sys K q e =
     (case K q (mem e, world e) of (r, m, w) \<Rightarrow>
        (r, e\<lparr>errno := (case rerr r of None \<Rightarrow> errno e | Some x \<Rightarrow> x),
              mem := m, world := w, trace := trace e @ [(q, rv r)]\<rparr>))"

text \<open>A mutex call: no data, no errno, only its place in the trace.\<close>

definition emit :: "sysreq \<Rightarrow> 'w env \<Rightarrow> 'w env" where
  "emit q e = e\<lparr>trace := trace e @ [(q, 0)]\<rparr>"

definition set_errno :: "int \<Rightarrow> 'w env \<Rightarrow> 'w env" where
  "set_errno x e = e\<lparr>errno := x\<rparr>"

text \<open>A request of which only the return value is used, and one answered by a word.\<close>

definition sys_rv :: "'w kernel \<Rightarrow> sysreq \<Rightarrow> 'w env \<Rightarrow> int \<times> 'w env" where
  "sys_rv K q e = (case sys K q e of (r, e') \<Rightarrow> (rv r, e'))"

text \<open>The pointer a call that returns \<open>MAP_FAILED\<close> on failure hands back.\<close>

definition ptr_of :: "int \<Rightarrow> addr" where
  "ptr_of n = (if n < 0 then MAP_FAILED else nat n)"

definition first_word :: "reply \<Rightarrow> u32" where
  "first_word r = (case rwords r of [] \<Rightarrow> 0 | w # _ \<Rightarrow> w)"

text \<open>
  A volatile access to a register of a mapped problem-state area: the access faults when the
  area's base is \<open>MAP_FAILED\<close> or \<open>NULL\<close>.
\<close>

definition mmio_read :: "'w kernel \<Rightarrow> addr \<Rightarrow> nat \<Rightarrow> 'w env \<Rightarrow> (u32 \<times> 'w env) option" where
  "mmio_read K base off e =
     (if base = MAP_FAILED \<or> base = NULL then None
      else case sys K (MmioRead (base + off)) e of (r, e') \<Rightarrow> Some (first_word r, e'))"

definition mmio_write :: "'w kernel \<Rightarrow> addr \<Rightarrow> nat \<Rightarrow> u32 \<Rightarrow> 'w env \<Rightarrow> 'w env option" where
  "mmio_write K base off v e =
     (if base = MAP_FAILED \<or> base = NULL then None
      else Some (snd (sys K (MmioWrite (base + off) v) e)))"

section \<open>Facts on requests\<close>

lemma trace_sys [sys_simps]: "trace (snd (sys K q e)) = trace e @ [(q, rv (fst (sys K q e)))]"
  by (simp add: sys_def split: prod.splits)

lemma sys_trace: "sys K q e = (r, e') \<Longrightarrow> trace e' = trace e @ [(q, rv r)]"
  by (auto simp: sys_def split: prod.splits)

lemma sys_rv_trace: "sys_rv K q e = (n, e') \<Longrightarrow> trace e' = trace e @ [(q, n)]"
  by (auto simp: sys_rv_def dest: sys_trace split: prod.splits)

lemma emit_simps [simp]:
  "errno (emit q e) = errno e" "mem (emit q e) = mem e" "world (emit q e) = world e"
  "trace (emit q e) = trace e @ [(q, 0)]"
  by (simp_all add: emit_def)

lemma set_errno_simps [simp]:
  "errno (set_errno x e) = x" "mem (set_errno x e) = mem e" "world (set_errno x e) = world e"
  "trace (set_errno x e) = trace e"
  by (simp_all add: set_errno_def)

text \<open>The part of the trace an operation added.\<close>

definition added :: "'w env \<Rightarrow> 'w env \<Rightarrow> (sysreq \<times> int) list" where
  "added e e' = drop (length (trace e)) (trace e')"

lemma added_append: "trace e' = trace e @ xs \<Longrightarrow> added e e' = xs"
  by (simp add: added_def)

section \<open>The resources a trace holds\<close>

text \<open>
  What a trace leaves open: file descriptors that \<open>openat\<close>, \<open>open\<close>, \<open>spu_create\<close> or
  \<open>epoll_create\<close> returned and \<open>close\<close> has not taken back, mappings not unmapped (with their
  length), blocks not freed. As multisets, so that nothing is assumed on the values the
  kernel returns.
\<close>

fun step_fds :: "int multiset \<Rightarrow> sysreq \<times> int \<Rightarrow> int multiset" where
  "step_fds M (q, n) =
     (case q of
        Openat _ _ _ \<Rightarrow> if n < 0 then M else add_mset n M
      | Open _ _ \<Rightarrow> if n < 0 then M else add_mset n M
      | SpuCreate _ _ _ \<Rightarrow> if n < 0 then M else add_mset n M
      | EpollCreate _ \<Rightarrow> if n < 0 then M else add_mset n M
      | Close fd \<Rightarrow> M - {#fd#}
      | _ \<Rightarrow> M)"

fun step_maps :: "(addr \<times> nat) multiset \<Rightarrow> sysreq \<times> int \<Rightarrow> (addr \<times> nat) multiset" where
  "step_maps M (q, n) =
     (case q of
        Mmap k _ \<Rightarrow> if ptr_of n = MAP_FAILED then M else add_mset (ptr_of n, k) M
      | MmapPrivate k _ \<Rightarrow> if ptr_of n = MAP_FAILED then M else add_mset (ptr_of n, k) M
      | Munmap a k \<Rightarrow> M - {#(a, k)#}
      | _ \<Rightarrow> M)"

fun step_heap :: "addr multiset \<Rightarrow> sysreq \<times> int \<Rightarrow> addr multiset" where
  "step_heap M (q, n) =
     (case q of
        Malloc _ \<Rightarrow> if n \<le> 0 then M else add_mset (nat n) M
      | Free a \<Rightarrow> M - {#a#}
      | _ \<Rightarrow> M)"

definition open_fds :: "(sysreq \<times> int) list \<Rightarrow> int multiset" where
  "open_fds t = foldl step_fds {#} t"

definition live_maps :: "(sysreq \<times> int) list \<Rightarrow> (addr \<times> nat) multiset" where
  "live_maps t = foldl step_maps {#} t"

definition live_heap :: "(sysreq \<times> int) list \<Rightarrow> addr multiset" where
  "live_heap t = foldl step_heap {#} t"

lemma open_fds_append: "open_fds (t @ u) = foldl step_fds (open_fds t) u"
  by (simp add: open_fds_def)

lemma live_maps_append: "live_maps (t @ u) = foldl step_maps (live_maps t) u"
  by (simp add: live_maps_def)

lemma live_heap_append: "live_heap (t @ u) = foldl step_heap (live_heap t) u"
  by (simp add: live_heap_def)

lemmas resource_simps = open_fds_append live_maps_append live_heap_append

text \<open>What a stretch of the trace did to the descriptors, mappings and heap blocks held.\<close>

definition ledgers :: "'w env \<Rightarrow> int multiset \<times> (addr \<times> nat) multiset \<times> addr multiset" where
  "ledgers e = (open_fds (trace e), live_maps (trace e), live_heap (trace e))"

lemma ledgers_set_errno [simp]: "ledgers (set_errno x e) = ledgers e"
  by (simp add: ledgers_def)

lemma ledgers_mem [simp]: "ledgers (e\<lparr>mem := m\<rparr>) = ledgers e"
  by (simp add: ledgers_def)

lemma ledgers_sys: "sys K q e = (r, e') \<Longrightarrow> ledgers e = (F, M, H) \<Longrightarrow>
    ledgers e' = (step_fds F (q, rv r), step_maps M (q, rv r), step_heap H (q, rv r))"
  by (auto simp: ledgers_def sys_trace resource_simps)

lemma ledgers_sys_rv: "sys_rv K q e = (n, e') \<Longrightarrow> ledgers e = (F, M, H) \<Longrightarrow>
    ledgers e' = (step_fds F (q, n), step_maps M (q, n), step_heap H (q, n))"
  by (auto simp: ledgers_def sys_rv_trace resource_simps)

lemma ledgers_snd_sys_rv: "ledgers e = (F, M, H) \<Longrightarrow> q = Free a \<or> q = Close fd \<or> q = Munmap a k \<Longrightarrow>
    ledgers (snd (sys_rv K q e)) = (step_fds F (q, 0), step_maps M (q, 0), step_heap H (q, 0))"
  using ledgers_sys_rv [of K q e "fst (sys_rv K q e)" "snd (sys_rv K q e)"] by fastforce

section \<open>Concrete kernels\<close>

text \<open>
  Two kernels for the witnesses: one that answers every request the same way, and one that
  answers the requests from a list, in order.
\<close>

definition reply_ok :: "int \<Rightarrow> reply" where
  "reply_ok n = \<lparr>rv = n, rerr = None, rbytes = [], rwords = [], rname = [], rptrs = [], rvals = []\<rparr>"

definition reply_error :: "int \<Rightarrow> reply" where
  "reply_error x = \<lparr>rv = -1, rerr = Some x, rbytes = [], rwords = [], rname = [], rptrs = [], rvals = []\<rparr>"

definition reply_words :: "int \<Rightarrow> u32 list \<Rightarrow> reply" where
  "reply_words n ws = \<lparr>rv = n, rerr = None, rbytes = [], rwords = ws, rname = [], rptrs = [], rvals = []\<rparr>"

definition const_kernel :: "reply \<Rightarrow> 'w kernel" where
  "const_kernel r q x = (r, x)"

fun script_kernel :: "reply list kernel" where
  "script_kernel q (m, []) = (reply_error EIO, m, [])"
| "script_kernel q (m, r # rs) = (r, m, rs)"

definition start_env :: "memory \<Rightarrow> 'w \<Rightarrow> 'w env" where
  "start_env m w = \<lparr>errno = 0, mem = m, world = w, trace = []\<rparr>"

lemmas sample_simps = reply_ok_def reply_error_def reply_words_def const_kernel_def start_env_def

end
