(* ===== verification/Spe_Types.thy ===== *)
theory Spe_Types
  imports Spe_Env
begin

unbundle bit_operations_syntax

text \<open>
  The data of libspe2: the public constants of \<open>libspe2-types.h\<close>, the register offsets of
  \<open>spebase/cbea_map.h\<close> and the private data of a context, \<open>spebase/spebase.h\<close>.
\<close>

section \<open>Public constants (libspe2-types.h)\<close>

subsection \<open>Flags of spe_context_create\<close>

abbreviation (input) SPE_CFG_SIGNOTIFY1_OR :: u32 where "SPE_CFG_SIGNOTIFY1_OR \<equiv> 0x10"
abbreviation (input) SPE_CFG_SIGNOTIFY2_OR :: u32 where "SPE_CFG_SIGNOTIFY2_OR \<equiv> 0x20"
abbreviation (input) SPE_MAP_PS :: u32 where "SPE_MAP_PS \<equiv> 0x40"
abbreviation (input) SPE_ISOLATE :: u32 where "SPE_ISOLATE \<equiv> 0x80"
abbreviation (input) SPE_ISOLATE_EMULATE :: u32 where "SPE_ISOLATE_EMULATE \<equiv> 0x100"
abbreviation (input) SPE_EVENTS_ENABLE :: u32 where "SPE_EVENTS_ENABLE \<equiv> 0x1000"
abbreviation (input) SPE_AFFINITY_MEMORY :: u32 where "SPE_AFFINITY_MEMORY \<equiv> 0x2000"
abbreviation (input) SPE_NOSCHED :: u32 where "SPE_NOSCHED \<equiv> 0x4000"

subsection \<open>Stop reasons and stop status\<close>

datatype stop_reason =
  SPE_EXIT | SPE_STOP_AND_SIGNAL | SPE_RUNTIME_ERROR | SPE_RUNTIME_EXCEPTION
| SPE_RUNTIME_FATAL | SPE_CALLBACK_ERROR | SPE_ISOLATION_ERROR

abbreviation (input) SPE_SPU_STOPPED_BY_STOP :: u32 where "SPE_SPU_STOPPED_BY_STOP \<equiv> 0x02"
abbreviation (input) SPE_SPU_HALT :: u32 where "SPE_SPU_HALT \<equiv> 0x04"
abbreviation (input) SPE_SPU_WAITING_ON_CHANNEL :: u32 where "SPE_SPU_WAITING_ON_CHANNEL \<equiv> 0x08"
abbreviation (input) SPE_SPU_INVALID_INSTR :: u32 where "SPE_SPU_INVALID_INSTR \<equiv> 0x20"
abbreviation (input) SPE_SPU_INVALID_CHANNEL :: u32 where "SPE_SPU_INVALID_CHANNEL \<equiv> 0x40"

text \<open>
  \<open>spe_stop_info_t\<close>. The union \<open>result\<close> is one word read under different names; the field the
  code writes for each reason is the one named after that reason. \<open>stop_reason\<close> is \<open>None\<close> when
  no code has written it.
\<close>

record spe_stop_info =
  stop_reason :: "stop_reason option"
  stop_result :: int
  spu_status :: int

subsection \<open>Events, mailboxes, tags, runs, callbacks\<close>

abbreviation (input) SPE_EVENT_OUT_INTR_MBOX :: u32 where "SPE_EVENT_OUT_INTR_MBOX \<equiv> 1"
abbreviation (input) SPE_EVENT_IN_MBOX :: u32 where "SPE_EVENT_IN_MBOX \<equiv> 2"
abbreviation (input) SPE_EVENT_TAG_GROUP :: u32 where "SPE_EVENT_TAG_GROUP \<equiv> 4"
abbreviation (input) SPE_EVENT_SPE_STOPPED :: u32 where "SPE_EVENT_SPE_STOPPED \<equiv> 8"

abbreviation (input) SPE_MBOX_ALL_BLOCKING :: u32 where "SPE_MBOX_ALL_BLOCKING \<equiv> 1"
abbreviation (input) SPE_MBOX_ANY_BLOCKING :: u32 where "SPE_MBOX_ANY_BLOCKING \<equiv> 2"
abbreviation (input) SPE_MBOX_ANY_NONBLOCKING :: u32 where "SPE_MBOX_ANY_NONBLOCKING \<equiv> 3"

abbreviation (input) SPE_TAG_ALL :: u32 where "SPE_TAG_ALL \<equiv> 1"
abbreviation (input) SPE_TAG_ANY :: u32 where "SPE_TAG_ANY \<equiv> 2"
abbreviation (input) SPE_TAG_IMMEDIATE :: u32 where "SPE_TAG_IMMEDIATE \<equiv> 3"

abbreviation (input) SPE_DEFAULT_ENTRY :: u32 where "SPE_DEFAULT_ENTRY \<equiv> 0xFFFFFFFF"
abbreviation (input) SPE_RUN_USER_REGS :: u32 where "SPE_RUN_USER_REGS \<equiv> 1"
abbreviation (input) SPE_NO_CALLBACKS :: u32 where "SPE_NO_CALLBACKS \<equiv> 2"

abbreviation (input) SPE_CALLBACK_NEW :: u32 where "SPE_CALLBACK_NEW \<equiv> 1"
abbreviation (input) SPE_CALLBACK_UPDATE :: u32 where "SPE_CALLBACK_UPDATE \<equiv> 2"

abbreviation (input) SPE_COUNT_PHYSICAL_CPU_NODES :: int where "SPE_COUNT_PHYSICAL_CPU_NODES \<equiv> 1"
abbreviation (input) SPE_COUNT_PHYSICAL_SPES :: int where "SPE_COUNT_PHYSICAL_SPES \<equiv> 2"
abbreviation (input) SPE_COUNT_USABLE_SPES :: int where "SPE_COUNT_USABLE_SPES \<equiv> 3"
abbreviation (input) SPE_CPU_TYPE :: int where "SPE_CPU_TYPE \<equiv> 4"
abbreviation (input) SPE_CPU_IS_CELLBE :: int where "SPE_CPU_IS_CELLBE \<equiv> 1"
abbreviation (input) SPE_CPU_IS_CELLEDP :: int where "SPE_CPU_IS_CELLEDP \<equiv> 2"

abbreviation (input) SPE_SIG_NOTIFY_REG_1 :: u32 where "SPE_SIG_NOTIFY_REG_1 \<equiv> 1"
abbreviation (input) SPE_SIG_NOTIFY_REG_2 :: u32 where "SPE_SIG_NOTIFY_REG_2 \<equiv> 2"

datatype ps_area =
  SPE_MSSYNC_AREA | SPE_MFC_COMMAND_AREA | SPE_CONTROL_AREA
| SPE_SIG_NOTIFY_1_AREA | SPE_SIG_NOTIFY_2_AREA | Other_area nat

record spe_program_handle =
  handle_size :: nat
  elf_image :: addr
  toe_shadow :: addr

section \<open>Problem state registers (spebase/cbea_map.h)\<close>

abbreviation (input) MFC_MSSync_off :: nat where "MFC_MSSync_off \<equiv> 0"
abbreviation (input) MFC_LSA_off :: nat where "MFC_LSA_off \<equiv> 0x4"
abbreviation (input) MFC_EAH_off :: nat where "MFC_EAH_off \<equiv> 0x8"
abbreviation (input) MFC_EAL_off :: nat where "MFC_EAL_off \<equiv> 0xC"
abbreviation (input) MFC_Size_Tag_off :: nat where "MFC_Size_Tag_off \<equiv> 0x10"
abbreviation (input) MFC_ClassID_CMD_off :: nat where "MFC_ClassID_CMD_off \<equiv> 0x14"
abbreviation (input) MFC_QStatus_off :: nat where "MFC_QStatus_off \<equiv> 0x104"
abbreviation (input) Prxy_QueryMask_off :: nat where "Prxy_QueryMask_off \<equiv> 0x21C"
abbreviation (input) Prxy_TagStatus_off :: nat where "Prxy_TagStatus_off \<equiv> 0x22C"
abbreviation (input) SPU_Out_Mbox_off :: nat where "SPU_Out_Mbox_off \<equiv> 0x4"
abbreviation (input) SPU_In_Mbox_off :: nat where "SPU_In_Mbox_off \<equiv> 0xC"
abbreviation (input) SPU_Mbox_Stat_off :: nat where "SPU_Mbox_Stat_off \<equiv> 0x14"
abbreviation (input) SPU_RunCntl_off :: nat where "SPU_RunCntl_off \<equiv> 0x1C"
abbreviation (input) SPU_Sig_Notify_off :: nat where "SPU_Sig_Notify_off \<equiv> 0xC"

section \<open>A context (spebase/spebase.h)\<close>

datatype fd_name =
  FD_MBOX | FD_MBOX_STAT | FD_IBOX | FD_IBOX_NB | FD_IBOX_STAT | FD_WBOX | FD_WBOX_NB
| FD_WBOX_STAT | FD_SIG1 | FD_SIG2 | FD_MFC | FD_MSS

text \<open>The numbers of the enumeration, as the loops over \<open>NUM_MBOX_FDS\<close> visit it.\<close>

abbreviation all_fd_names :: "fd_name list" where
  "all_fd_names \<equiv> [FD_MBOX, FD_MBOX_STAT, FD_IBOX, FD_IBOX_NB, FD_IBOX_STAT, FD_WBOX, FD_WBOX_NB,
     FD_WBOX_STAT, FD_SIG1, FD_SIG2, FD_MFC, FD_MSS]"

fun fd_index :: "fd_name \<Rightarrow> nat" where
  "fd_index FD_MBOX = 0"
| "fd_index FD_MBOX_STAT = 1"
| "fd_index FD_IBOX = 2"
| "fd_index FD_IBOX_NB = 3"
| "fd_index FD_IBOX_STAT = 4"
| "fd_index FD_WBOX = 5"
| "fd_index FD_WBOX_NB = 6"
| "fd_index FD_WBOX_STAT = 7"
| "fd_index FD_SIG1 = 8"
| "fd_index FD_SIG2 = 9"
| "fd_index FD_MFC = 10"
| "fd_index FD_MSS = 11"

text \<open>The enumeration is ordered by its numbers, as C compares it.\<close>

lemma fd_index_inject [simp]: "fd_index f = fd_index g \<longleftrightarrow> f = g"
  by (cases f; cases g; simp)

instantiation fd_name :: linorder
begin

definition less_eq_fd_name :: "fd_name \<Rightarrow> fd_name \<Rightarrow> bool" where
  "less_eq_fd_name f g \<longleftrightarrow> fd_index f \<le> fd_index g"

definition less_fd_name :: "fd_name \<Rightarrow> fd_name \<Rightarrow> bool" where
  "less_fd_name f g \<longleftrightarrow> fd_index f < fd_index g"

instance
  by standard (auto simp: less_eq_fd_name_def less_fd_name_def)

end

lemma set_all_fd_names: "f \<in> set all_fd_names"
  by (cases f) auto

lemma sorted_all_fd_names: "sorted all_fd_names" "distinct all_fd_names"
  by (auto simp: less_eq_fd_name_def)

abbreviation (input) LS_SIZE :: nat where "LS_SIZE \<equiv> 0x40000"
abbreviation (input) PSMAP_SIZE :: nat where "PSMAP_SIZE \<equiv> 0x20000"
abbreviation (input) MFC_SIZE :: nat where "MFC_SIZE \<equiv> 0x1000"
abbreviation (input) MSS_SIZE :: nat where "MSS_SIZE \<equiv> 0x1000"
abbreviation (input) CNTL_SIZE :: nat where "CNTL_SIZE \<equiv> 0x1000"
abbreviation (input) SIGNAL_SIZE :: nat where "SIGNAL_SIZE \<equiv> 0x1000"
abbreviation (input) MSSYNC_OFFSET :: nat where "MSSYNC_OFFSET \<equiv> 0x00000"
abbreviation (input) MFC_OFFSET :: nat where "MFC_OFFSET \<equiv> 0x03000"
abbreviation (input) CNTL_OFFSET :: nat where "CNTL_OFFSET \<equiv> 0x04000"
abbreviation (input) SIGNAL1_OFFSET :: nat where "SIGNAL1_OFFSET \<equiv> 0x14000"
abbreviation (input) SIGNAL2_OFFSET :: nat where "SIGNAL2_OFFSET \<equiv> 0x1c000"
abbreviation (input) LS_ADDR_MASK :: u32 where "LS_ADDR_MASK \<equiv> 0x3FFFF"
abbreviation (input) SPE_EMULATE_PARAM_BUFFER :: u32 where "SPE_EMULATE_PARAM_BUFFER \<equiv> 0x3e000"
abbreviation (input) SPE_PROGRAM_NORMAL_END :: u32 where "SPE_PROGRAM_NORMAL_END \<equiv> 0x2000"
abbreviation (input) SPE_PROGRAM_LIBRARY_CALL :: u32 where "SPE_PROGRAM_LIBRARY_CALL \<equiv> 0x2100"
abbreviation (input) SPE_PROGRAM_ISOLATED_STOP :: u32 where "SPE_PROGRAM_ISOLATED_STOP \<equiv> 0x2200"
abbreviation (input) SPE_PROGRAM_ISO_LOAD_COMPLETE :: u32 where "SPE_PROGRAM_ISO_LOAD_COMPLETE \<equiv> 0x2206"

text \<open>
  \<open>struct spe_context_base_priv\<close>, with the address of the \<open>spe_context\<close> it belongs to
  (\<open>spe_ptr\<close>), which the code passes to the SPU as thread id. The mutexes are the requests
  \<open>Lock\<close> and \<open>Unlock\<close> of the environment.
\<close>

record spe_context =
  spe_ptr :: addr
  priv_ptr :: addr
  fd_spe_dir :: int
  flags :: u32
  spe_fds_array :: "fd_name \<Rightarrow> int"
  spe_fds_refcount :: "fd_name \<Rightarrow> int"
  ev_pipe :: "int \<times> int"
  psmap_mmap_base :: addr
  mem_mmap_base :: addr
  mfc_mmap_base :: addr
  mssync_mmap_base :: addr
  cntl_mmap_base :: addr
  signal1_mmap_base :: addr
  signal2_mmap_base :: addr
  entry :: u32
  loaded_program :: "spe_program_handle option"
  emulated_entry :: u32
  active_tagmask :: u32

text \<open>\<open>struct spe_gang_context_base_priv\<close>, with the addresses of its two blocks.\<close>

record spe_gang_context =
  gang_ptr :: addr
  gang_priv_ptr :: addr
  gang_flags :: u32
  fd_gang_dir :: int
  gangname :: string

text \<open>\<open>struct spe_reg128\<close> and \<open>struct spe_reg_state\<close> (spebase/regs.h).\<close>

type_synonym spe_reg128 = "u32 list"

record spe_reg_state =
  reg_r3 :: spe_reg128
  reg_r4 :: spe_reg128
  reg_r5 :: spe_reg128
  reg_r6 :: spe_reg128
  reg_entry :: spe_reg128

text \<open>A context with nothing open and nothing mapped, for the witnesses.\<close>

definition blank_context :: spe_context where
  "blank_context = \<lparr>spe_ptr = 0x1000, priv_ptr = 0x1100, fd_spe_dir = 3, flags = 0,
     spe_fds_array = (\<lambda>_. -1), spe_fds_refcount = (\<lambda>_. 0), ev_pipe = (0, 0),
     psmap_mmap_base = MAP_FAILED, mem_mmap_base = MAP_FAILED, mfc_mmap_base = MAP_FAILED,
     mssync_mmap_base = MAP_FAILED, cntl_mmap_base = MAP_FAILED, signal1_mmap_base = MAP_FAILED,
     signal2_mmap_base = MAP_FAILED, entry = 0, loaded_program = None, emulated_entry = 0,
     active_tagmask = 0\<rparr>"

end
