(* ===== verification/Elf_Loader.thy ===== *)
theory Elf_Loader
  imports Spe_Types
begin

unbundle bit_operations_syntax

text \<open>
  The SPE ELF loader (\<open>spebase/elf_loader.c\<close>): the checks on an image, the copy of its
  segments into the local store, the relocations against the image, and the toe segment (the
  table of effective addresses). Header fields are read from the memory of the process at the
  offsets of \<open>elf.h\<close>, big-endian; an entry of a header table is read as a whole. The string
  compares stop at the first difference, as \<open>strcmp\<close> does.
\<close>

section \<open>Reading ELF structures\<close>

definition load16 :: "memory \<Rightarrow> addr \<Rightarrow> nat option" where
  "load16 m a = do { x \<leftarrow> m a; y \<leftarrow> m (Suc a); Some (256 * unat x + unat y) }"

definition load64 :: "memory \<Rightarrow> addr \<Rightarrow> u64 option" where
  "load64 m a = do { h \<leftarrow> load32 m a; l \<leftarrow> load32 m (a + 4);
                     Some (push_bit 32 (ucast h) OR ucast l) }"

definition store64 :: "memory \<Rightarrow> addr \<Rightarrow> u64 \<Rightarrow> memory option" where
  "store64 m a w = do { m1 \<leftarrow> store32 m a (ucast (drop_bit 32 w)); store32 m1 (a + 4) (ucast w) }"

abbreviation (input) EI_PAD :: nat where "EI_PAD \<equiv> 9"
abbreviation (input) ET_EXEC :: nat where "ET_EXEC \<equiv> 2"
abbreviation (input) EM_SPU :: nat where "EM_SPU \<equiv> 0x17"
abbreviation (input) PT_LOAD :: u32 where "PT_LOAD \<equiv> 1"
abbreviation (input) PT_NOTE :: u32 where "PT_NOTE \<equiv> 4"
abbreviation (input) SHT_SYMTAB :: u32 where "SHT_SYMTAB \<equiv> 2"
abbreviation (input) SHT_RELA :: u32 where "SHT_RELA \<equiv> 4"
abbreviation (input) SHT_DYNSYM :: u32 where "SHT_DYNSYM \<equiv> 11"
abbreviation (input) R_SPU_PPU32 :: u32 where "R_SPU_PPU32 \<equiv> 15"
abbreviation (input) R_SPU_PPU64 :: u32 where "R_SPU_PPU64 \<equiv> 16"

text \<open>Fields of \<open>Elf32_Ehdr\<close>.\<close>

definition e_type :: "memory \<Rightarrow> addr \<Rightarrow> nat option" where "e_type m a = load16 m (a + 16)"
definition e_machine :: "memory \<Rightarrow> addr \<Rightarrow> nat option" where "e_machine m a = load16 m (a + 18)"
definition e_entry :: "memory \<Rightarrow> addr \<Rightarrow> u32 option" where "e_entry m a = load32 m (a + 24)"
definition e_phoff :: "memory \<Rightarrow> addr \<Rightarrow> u32 option" where "e_phoff m a = load32 m (a + 28)"
definition e_shoff :: "memory \<Rightarrow> addr \<Rightarrow> u32 option" where "e_shoff m a = load32 m (a + 32)"
definition e_phentsize :: "memory \<Rightarrow> addr \<Rightarrow> nat option" where "e_phentsize m a = load16 m (a + 42)"
definition e_phnum :: "memory \<Rightarrow> addr \<Rightarrow> nat option" where "e_phnum m a = load16 m (a + 44)"
definition e_shnum :: "memory \<Rightarrow> addr \<Rightarrow> nat option" where "e_shnum m a = load16 m (a + 48)"
definition e_shstrndx :: "memory \<Rightarrow> addr \<Rightarrow> nat option" where "e_shstrndx m a = load16 m (a + 50)"

record elf32_phdr =
  p_type :: u32
  p_offset :: u32
  p_vaddr :: u32
  p_filesz :: u32
  p_memsz :: u32

definition load_phdr :: "memory \<Rightarrow> addr \<Rightarrow> elf32_phdr option" where
  "load_phdr m a = do {
     t \<leftarrow> load32 m a; off \<leftarrow> load32 m (a + 4); va \<leftarrow> load32 m (a + 8);
     fs \<leftarrow> load32 m (a + 16); ms \<leftarrow> load32 m (a + 20);
     Some \<lparr>p_type = t, p_offset = off, p_vaddr = va, p_filesz = fs, p_memsz = ms\<rparr> }"

abbreviation (input) phdr_size :: nat where "phdr_size \<equiv> 32"

record elf32_shdr =
  sh_name :: u32
  sh_type :: u32
  sh_addr :: u32
  sh_offset :: u32
  sh_size :: u32
  sh_link :: u32
  sh_info :: u32

definition load_shdr :: "memory \<Rightarrow> addr \<Rightarrow> elf32_shdr option" where
  "load_shdr m a = do {
     n \<leftarrow> load32 m a; t \<leftarrow> load32 m (a + 4); ad \<leftarrow> load32 m (a + 12); off \<leftarrow> load32 m (a + 16);
     sz \<leftarrow> load32 m (a + 20); lk \<leftarrow> load32 m (a + 24); inf \<leftarrow> load32 m (a + 28);
     Some \<lparr>sh_name = n, sh_type = t, sh_addr = ad, sh_offset = off, sh_size = sz, sh_link = lk,
           sh_info = inf\<rparr> }"

abbreviation (input) shdr_size :: nat where "shdr_size \<equiv> 40"

text \<open>\<open>strcmp(s, a) == 0\<close> and \<open>strncmp(s, a, length s) == 0\<close> for a literal \<open>s\<close> without NUL.\<close>

fun c_streq :: "memory \<Rightarrow> addr \<Rightarrow> u8 list \<Rightarrow> bool option" where
  "c_streq m a [] = do { b \<leftarrow> m a; Some (b = 0) }"
| "c_streq m a (x # xs) =
     do { b \<leftarrow> m a; if b = x then c_streq m (Suc a) xs else Some False }"

fun c_prefix :: "memory \<Rightarrow> addr \<Rightarrow> u8 list \<Rightarrow> bool option" where
  "c_prefix m a [] = Some True"
| "c_prefix m a (x # xs) =
     do { b \<leftarrow> m a; if b = x then c_prefix m (Suc a) xs else Some False }"

definition str_toe :: "u8 list" where "str_toe = [0x2E, 0x74, 0x6F, 0x65]"
definition str_EAR :: "u8 list" where "str_EAR = [0x5F, 0x45, 0x41, 0x52, 0x5F]"

section \<open>Checks\<close>

definition elf_expected :: "u8 list" where
  "elf_expected = [0x7F, 0x45, 0x4C, 0x46, 1, 2, 1, 0, 0]"

definition check_spe_elf :: "addr \<Rightarrow> 'w env \<Rightarrow> (int \<times> 'w env) option" where
  "check_spe_elf ehdr e = do {
     ident \<leftarrow> load_bytes (mem e) ehdr EI_PAD;
     if ident \<noteq> elf_expected then Some (- EINVAL, set_errno EINVAL e)
     else do {
       mach \<leftarrow> e_machine (mem e) ehdr;
       if mach \<noteq> EM_SPU then Some (- EINVAL, set_errno EINVAL e)
       else do {
         t \<leftarrow> e_type (mem e) ehdr;
         if t \<noteq> ET_EXEC then Some (- EINVAL, set_errno EINVAL e)
         else Some (0, e) } } }"

definition base_spe_verify_spe_elf_image ::
  "spe_program_handle \<Rightarrow> 'w env \<Rightarrow> (int \<times> 'w env) option" where
  "base_spe_verify_spe_elf_image handle e = check_spe_elf (elf_image handle) e"

text \<open>The address and the size are stored through pointers that may be \<open>NULL\<close>.\<close>

definition base_spe_parse_isolated_elf ::
  "spe_program_handle \<Rightarrow> 'w env \<Rightarrow> (int \<times> (addr \<times> u32) option \<times> 'w env) option" where
  "base_spe_parse_isolated_elf handle e =
     (let ehdr = elf_image handle; bad = Some (- EINVAL, None, set_errno EINVAL e) in
      if ehdr = NULL then bad
      else do {
        es \<leftarrow> e_phentsize (mem e) ehdr;
        if es \<noteq> phdr_size then bad
        else do {
          n \<leftarrow> e_phnum (mem e) ehdr;
          if n \<noteq> 1 then bad
          else do {
            off \<leftarrow> e_phoff (mem e) ehdr;
            ph \<leftarrow> load_phdr (mem e) (ehdr + unat off);
            if p_type ph \<noteq> PT_LOAD \<or> p_memsz ph = 0 then bad
            else Some (0, Some (ehdr + unat (p_offset ph), p_memsz ph), e) } } })"

section \<open>Loading\<close>

definition overlay :: "elf32_phdr \<Rightarrow> elf32_phdr option \<Rightarrow> bool" where
  "overlay ph prev_ph = (case prev_ph of None \<Rightarrow> False
     | Some pp \<Rightarrow> p_vaddr pp \<le> p_vaddr ph \<and> p_vaddr ph < p_vaddr pp + p_memsz pp)"

definition copy_to_ld_buffer ::
  "spe_program_handle \<Rightarrow> addr \<Rightarrow> elf32_phdr \<Rightarrow> u32 \<Rightarrow> nat \<Rightarrow> memory \<Rightarrow> memory option" where
  "copy_to_ld_buffer handle buffer ph toe_addr toe_size m =
     (let start = elf_image handle; dst = buffer + unat (p_vaddr ph);
          src = start + unat (p_offset ph); fs = unat (p_filesz ph) in
      if p_vaddr ph = toe_addr then do {
        m1 \<leftarrow> (if toe_size \<noteq> fs \<and> fs \<noteq> 0 then memcpy m dst src fs else Some m);
        memcpy m1 dst (toe_shadow handle) toe_size }
      else if fs \<noteq> 0 then memcpy m dst src fs
      else Some m)"

text \<open>The loop over the relocations from \<open>r\<close> to \<open>r_end\<close>.\<close>

definition apply_one_relocation :: "addr \<Rightarrow> elf32_shdr \<Rightarrow> addr \<Rightarrow> memory \<Rightarrow> memory option" where
  "apply_one_relocation start sh r m = do {
     off \<leftarrow> load32 m r; info \<leftarrow> load32 m (r + 4); addend \<leftarrow> load32 m (r + 8);
     let loc = nat (int start + uint (sh_offset sh) - uint (sh_addr sh) + uint off);
     let v = (word_of_int (int start + sint addend) :: u64);
     if info = R_SPU_PPU32 then do {
       old \<leftarrow> load32 m loc;
       if old \<noteq> ucast v then store32 m loc (ucast v) else Some m }
     else if info = R_SPU_PPU64 then do {
       old \<leftarrow> load64 m loc;
       if old \<noteq> v then store64 m loc v else Some m }
     else Some m }"

function apply_reloc_loop :: "addr \<Rightarrow> elf32_shdr \<Rightarrow> addr \<Rightarrow> addr \<Rightarrow> memory \<Rightarrow> memory option" where
  "apply_reloc_loop start sh r r_end m =
     (if r < r_end then
        (case apply_one_relocation start sh r m of
           None \<Rightarrow> None
         | Some m1 \<Rightarrow> apply_reloc_loop start sh (r + 12) r_end m1)
      else Some m)"
  by pat_completeness auto
termination
  by (relation "measure (\<lambda>(start, sh, r, r_end, m). r_end - r)") auto

declare apply_reloc_loop.simps [simp del]

definition apply_relocations ::
  "spe_program_handle \<Rightarrow> elf32_shdr \<Rightarrow> elf32_shdr \<Rightarrow> memory \<Rightarrow> memory option" where
  "apply_relocations handle rh sh m =
     (let start = elf_image handle; r = start + unat (sh_offset rh)
      in apply_reloc_loop start sh r (r + unat (sh_size rh)) m)"

text \<open>
  The loop over the section headers: relocations are applied and the toe sections are measured.
  The number of sections is read from the header again in every round, as the loop condition
  of the C code does; it is a 16-bit number, so the loop ends.
\<close>

function load_sections ::
  "spe_program_handle \<Rightarrow> addr \<Rightarrow> addr \<Rightarrow> nat \<Rightarrow> u32 \<Rightarrow> nat \<Rightarrow> memory \<Rightarrow> (u32 \<times> nat \<times> memory) option"
where
  "load_sections handle shdr str_table i toe_addr toe_size m =
     (case e_shnum m (elf_image handle) of
        None \<Rightarrow> None
      | Some n \<Rightarrow>
        if i < n then
          (case load_shdr m (shdr + shdr_size * i) of
             None \<Rightarrow> None
           | Some sh \<Rightarrow>
             (case (if sh_type sh = SHT_RELA then do {
                      target \<leftarrow> load_shdr m (shdr + shdr_size * unat (sh_info sh));
                      apply_relocations handle sh target m }
                    else Some m) of
                None \<Rightarrow> None
              | Some m1 \<Rightarrow>
                (case c_streq m1 (str_table + unat (sh_name sh)) str_toe of
                   None \<Rightarrow> None
                 | Some is_toe \<Rightarrow>
                   load_sections handle shdr str_table (Suc i)
                     (if is_toe \<and> (toe_addr = 0 \<or> toe_addr > sh_addr sh) then sh_addr sh
                      else toe_addr)
                     (if is_toe then toe_size + unat (sh_size sh) else toe_size) m1)))
        else Some (toe_addr, toe_size, m))"
  by pat_completeness auto

lemma load16_bound: "load16 m a = Some n \<Longrightarrow> n < 65536"
proof -
  assume "load16 m a = Some n"
  then obtain x y where "n = 256 * unat (x :: u8) + unat (y :: u8)"
    by (auto simp: load16_def split: Option.bind_splits)
  moreover have "unat x < 256" "unat y < 256" using unsigned_less [of x] unsigned_less [of y] by simp_all
  ultimately show ?thesis by linarith
qed

termination load_sections
proof (relation "measure (\<lambda>(h, s, t, i, a, z, m). 65536 - i)", goal_cases)
  case (2 handle shdr str_table i toe_addr toe_size m n)
  then show ?case using load16_bound [of m "elf_image handle + 48" n] by (simp add: e_shnum_def)
qed simp

declare load_sections.simps [simp del]

text \<open>
  The loop over the program headers. As in the C code, \<open>prev_ph\<close> is \<open>NULL\<close> at the start and no
  statement of the loop changes it.
\<close>

definition load_segment ::
  "spe_program_handle \<Rightarrow> addr \<Rightarrow> u32 \<Rightarrow> nat \<Rightarrow> elf32_phdr \<Rightarrow> elf32_phdr option \<Rightarrow> memory \<Rightarrow> memory option"
where
  "load_segment handle ld_buffer toe_addr toe_size ph prev_ph m = do {
     m1 \<leftarrow> (if p_filesz ph < p_memsz ph then
              memset m (ld_buffer + unat (p_vaddr ph) + unat (p_filesz ph)) 0
                (unat (p_memsz ph - p_filesz ph))
            else Some m);
     copy_to_ld_buffer handle ld_buffer ph toe_addr toe_size m1 }"

function load_segments ::
  "spe_program_handle \<Rightarrow> addr \<Rightarrow> addr \<Rightarrow> u32 \<Rightarrow> nat \<Rightarrow> nat \<Rightarrow> elf32_phdr option \<Rightarrow> nat \<Rightarrow> memory \<Rightarrow>
   (nat \<times> memory) option"
where
  "load_segments handle ld_buffer phdr toe_addr toe_size i prev_ph num_load_seg m =
     (case e_phnum m (elf_image handle) of
        None \<Rightarrow> None
      | Some n \<Rightarrow>
        if i < n then
          (case load_phdr m (phdr + phdr_size * i) of
             None \<Rightarrow> None
           | Some ph \<Rightarrow>
             if p_type ph = PT_LOAD \<and> \<not> overlay ph prev_ph then
               (case load_segment handle ld_buffer toe_addr toe_size ph prev_ph m of
                  None \<Rightarrow> None
                | Some m1 \<Rightarrow> load_segments handle ld_buffer phdr toe_addr toe_size (Suc i) prev_ph
                    (Suc num_load_seg) m1)
             else load_segments handle ld_buffer phdr toe_addr toe_size (Suc i) prev_ph
                    num_load_seg m)
        else Some (num_load_seg, m))"
  by pat_completeness auto
termination
proof (relation "measure (\<lambda>(h, b, p, a, z, i, q, k, m). 65536 - i)", goal_cases)
  case (2 handle ld_buffer phdr toe_addr toe_size i prev_ph num_load_seg m n)
  then show ?case using load16_bound [of m "elf_image handle + 44" n] by (simp add: e_phnum_def)
next
  case (3 handle ld_buffer phdr toe_addr toe_size i prev_ph num_load_seg m n)
  then show ?case using load16_bound [of m "elf_image handle + 44" n] by (simp add: e_phnum_def)
qed simp

declare load_segments.simps [simp del]

text \<open>The third component of the result is \<open>ld_info->entry\<close>, when the code writes it.\<close>

definition base_spe_load_spe_elf ::
  "spe_program_handle \<Rightarrow> addr \<Rightarrow> 'w env \<Rightarrow> (int \<times> u32 option \<times> 'w env) option" where
  "base_spe_load_spe_elf handle ld_buffer e =
     (let ehdr = elf_image handle in do {
        (ret, e1) \<leftarrow> check_spe_elf ehdr e;
        if ret \<noteq> 0 then Some (ret, None, e1)
        else do {
          phoff \<leftarrow> e_phoff (mem e1) ehdr;
          shoff \<leftarrow> e_shoff (mem e1) ehdr;
          ndx \<leftarrow> e_shstrndx (mem e1) ehdr;
          let shdr = ehdr + unat shoff;
          strsh \<leftarrow> load_shdr (mem e1) (shdr + shdr_size * ndx);
          (toe_addr, toe_size, m1) \<leftarrow>
            load_sections handle shdr (ehdr + unat (sh_offset strsh)) 0 0 0 (mem e1);
          (num_load_seg, m2) \<leftarrow>
            load_segments handle ld_buffer (ehdr + unat phoff) toe_addr toe_size 0 None 0 m1;
          let e2 = e1\<lparr>mem := m2\<rparr>;
          if num_load_seg = 0 then Some (- EINVAL, None, set_errno EINVAL e2)
          else do {
            ent \<leftarrow> e_entry m2 ehdr;
            Some (0, Some ent, e2) } } })"

section \<open>The toe segment\<close>

text \<open>The symbols from \<open>sym\<close> to \<open>sym_end\<close>; \<open>True\<close> when one of them has an invalid name.\<close>

function toe_check_syms_loop :: "addr \<Rightarrow> addr \<Rightarrow> addr \<Rightarrow> int \<Rightarrow> 'w env \<Rightarrow> (int \<times> 'w env) option" where
  "toe_check_syms_loop str_table sm sym_end ret e =
     (if sm < sym_end then
        (case load32 (mem e) sm of
           None \<Rightarrow> None
         | Some nm \<Rightarrow>
           if nm = 0 then toe_check_syms_loop str_table (sm + 16) sym_end ret e
           else
             (case c_prefix (mem e) (str_table + unat nm) str_EAR of
                None \<Rightarrow> None
              | Some pre \<Rightarrow>
                (case (if pre then c_streq (mem e) (str_table + unat nm) str_EAR else Some True) of
                   None \<Rightarrow> None
                 | Some whole \<Rightarrow>
                   if pre \<and> \<not> whole
                   then toe_check_syms_loop str_table (sm + 16) sym_end 1 (set_errno EINVAL e)
                   else toe_check_syms_loop str_table (sm + 16) sym_end ret e)))
      else Some (ret, e))"
  by pat_completeness auto
termination
  by (relation "measure (\<lambda>(t, s, s_end, r, e). s_end - s)") auto

declare toe_check_syms_loop.simps [simp del]

definition toe_check_syms :: "addr \<Rightarrow> elf32_shdr \<Rightarrow> 'w env \<Rightarrow> (int \<times> 'w env) option" where
  "toe_check_syms ehdr sh e = do {
     shoff \<leftarrow> e_shoff (mem e) ehdr;
     strsh \<leftarrow> load_shdr (mem e) (ehdr + unat shoff + shdr_size * unat (sh_link sh));
     toe_check_syms_loop (ehdr + unat (sh_offset strsh)) (ehdr + unat (sh_offset sh))
       (ehdr + unat (sh_offset sh) + unat (sh_size sh)) 0 e }"

text \<open>The two loops of \<open>_base_spe_toe_ear\<close> over the \<open>n\<close> section headers; nothing is written.\<close>

fun toe_measure :: "memory \<Rightarrow> addr \<Rightarrow> addr \<Rightarrow> nat \<Rightarrow> nat \<Rightarrow> nat option" where
  "toe_measure m shdr str_table i 0 = Some 0"
| "toe_measure m shdr str_table i (Suc n) = do {
     sh \<leftarrow> load_shdr m (shdr + shdr_size * i);
     is_toe \<leftarrow> c_streq m (str_table + unat (sh_name sh)) str_toe;
     rest \<leftarrow> toe_measure m shdr str_table (Suc i) n;
     Some ((if is_toe then unat (sh_size sh) else 0) + rest) }"

fun toe_check_sections :: "addr \<Rightarrow> addr \<Rightarrow> nat \<Rightarrow> nat \<Rightarrow> int \<Rightarrow> 'w env \<Rightarrow> (int \<times> 'w env) option" where
  "toe_check_sections ehdr shdr i 0 ret e = Some (ret, e)"
| "toe_check_sections ehdr shdr i (Suc n) ret e = do {
     sh \<leftarrow> load_shdr (mem e) (shdr + shdr_size * i);
     if sh_type sh = SHT_SYMTAB \<or> sh_type sh = SHT_DYNSYM then do {
       (r, e1) \<leftarrow> toe_check_syms ehdr sh e;
       toe_check_sections ehdr shdr (Suc i) n r e1 }
     else toe_check_sections ehdr shdr (Suc i) n ret e }"

text \<open>
  \<open>ptr_bytes\<close> is \<open>sizeof(char *)\<close>, 8 or 4: the toe holds the address of the image as a 64-bit
  number in both builds. \<open>store_ptr\<close> stores one pointer.
\<close>

definition store_ptr :: "nat \<Rightarrow> memory \<Rightarrow> addr \<Rightarrow> addr \<Rightarrow> memory option" where
  "store_ptr ptr_bytes m a p =
     (if ptr_bytes = 8 then store64 m a (of_nat p) else store32 m a (of_nat p))"

definition base_spe_toe_ear ::
  "'w kernel \<Rightarrow> nat \<Rightarrow> spe_program_handle \<Rightarrow> 'w env \<Rightarrow> (int \<times> spe_program_handle \<times> 'w env) option"
where
  "base_spe_toe_ear K ptr_bytes speh e =
     (let ehdr = elf_image speh in do {
        shoff \<leftarrow> e_shoff (mem e) ehdr;
        ndx \<leftarrow> e_shstrndx (mem e) ehdr;
        n \<leftarrow> e_shnum (mem e) ehdr;
        let shdr = ehdr + unat shoff;
        strsh \<leftarrow> load_shdr (mem e) (shdr + shdr_size * ndx);
        toe_size \<leftarrow> toe_measure (mem e) shdr (ehdr + unat (sh_offset strsh)) 0 n;
        (ret, e1) \<leftarrow>
          (if toe_size > 0 then do {
             (r, e') \<leftarrow> toe_check_sections ehdr shdr 0 n 0 e;
             if r = 0 \<and> toe_size \<noteq> 16 then Some (1, set_errno EINVAL e') else Some (r, e') }
           else Some (0, e));
        if ret = 0 \<and> toe_size \<noteq> 0 then
          (let (r, e2) = sys_rv K (Malloc toe_size) e1 in
           if r > 0 then do {
             let a = nat r;
             m \<leftarrow> (if ptr_bytes = 8 then do {
                     m1 \<leftarrow> store_ptr ptr_bytes (mem e2) a ehdr;
                     store_ptr ptr_bytes m1 (a + 8) 0 }
                   else do {
                     m1 \<leftarrow> store_ptr ptr_bytes (mem e2) a 0;
                     m2 \<leftarrow> store_ptr ptr_bytes m1 (a + 4) ehdr;
                     m3 \<leftarrow> store_ptr ptr_bytes m2 (a + 8) 0;
                     store_ptr ptr_bytes m3 (a + 12) 0 });
             Some (0, speh\<lparr>toe_shadow := a\<rparr>, e2\<lparr>mem := m\<rparr>) }
           else Some (1, speh\<lparr>toe_shadow := NULL\<rparr>, set_errno ENOMEM e2))
        else Some (ret, speh, e1) })"

end
