(* ===== verification/Elf_Correct.thy ===== *)
theory Elf_Correct
  imports Elf_Loader
begin

unbundle bit_operations_syntax

text \<open>
  Correctness of the ELF loader: on an image whose loadable segments fit the local store and do
  not overlap, loading leaves in the local store, for every loadable segment, the bytes of the
  file followed by zeros, and changes nothing else.
\<close>

section \<open>One segment\<close>

definition seg_fits :: "elf32_phdr \<Rightarrow> bool" where
  "seg_fits ph \<longleftrightarrow> p_filesz ph \<le> p_memsz ph \<and> unat (p_vaddr ph) + unat (p_memsz ph) \<le> LS_SIZE"

definition segment_bytes :: "elf32_phdr \<Rightarrow> u8 list \<Rightarrow> u8 list" where
  "segment_bytes ph bs = bs @ replicate (unat (p_memsz ph) - unat (p_filesz ph)) 0"

lemma copy_no_toe:
  "copy_to_ld_buffer handle buffer ph ta 0 m =
     memcpy m (buffer + unat (p_vaddr ph)) (elf_image handle + unat (p_offset ph)) (unat (p_filesz ph))"
  by (auto simp: copy_to_ld_buffer_def Let_def split: Option.bind_splits)

lemma load_segment_ok:
  assumes fits: "seg_fits ph" and map: "mapped m b LS_SIZE"
    and src: "load_bytes m (elf_image h + unat (p_offset ph)) (unat (p_filesz ph)) = Some bs"
    and dis: "{elf_image h + unat (p_offset ph)..<elf_image h + unat (p_offset ph) + unat (p_filesz ph)}
        \<inter> {b..<b + LS_SIZE} = {}"
  shows "\<exists>m'. load_segment h b ta 0 ph pp m = Some m' \<and>
    load_bytes m' (b + unat (p_vaddr ph)) (unat (p_memsz ph)) = Some (segment_bytes ph bs) \<and>
    same_outside m m' {b + unat (p_vaddr ph)..<b + unat (p_vaddr ph) + unat (p_memsz ph)} \<and>
    dom m' = dom m"
proof -
  let ?v = "b + unat (p_vaddr ph)" and ?fs = "unat (p_filesz ph)" and ?ms = "unat (p_memsz ph)"
  have le: "?fs \<le> ?ms" and fit: "unat (p_vaddr ph) + ?ms \<le> LS_SIZE"
    using fits by (auto simp: seg_fits_def word_le_nat_alt)
  have pad: "unat (p_memsz ph - p_filesz ph) = ?ms - ?fs"
    using fits by (simp add: seg_fits_def unat_sub)
  have mp: "mapped m (?v + ?fs) (?ms - ?fs)"
    by (rule mapped_sub [OF map]) (use le fit in auto)
  obtain m1 where m1: "(if p_filesz ph < p_memsz ph
        then memset m (?v + ?fs) 0 (?ms - ?fs) else Some m) = Some m1"
    and z: "load_bytes m1 (?v + ?fs) (?ms - ?fs) = Some (replicate (?ms - ?fs) 0)"
    and o1: "same_outside m m1 {?v + ?fs..<?v + ?fs + (?ms - ?fs)}" and d1: "dom m1 = dom m"
  proof (cases "p_filesz ph < p_memsz ph")
    case True
    with memset_ok [OF mp, of 0] that show ?thesis by auto
  next
    case False
    then have "?ms - ?fs = 0" by (simp add: word_less_nat_alt)
    with that [of m] False show ?thesis by simp
  qed
  have src1: "load_bytes m1 (elf_image h + unat (p_offset ph)) ?fs = Some bs"
    using dis fit le by (subst load_bytes_same_outside [OF o1]) (auto simp: src)
  have "mapped m1 ?v ?fs"
    by (rule mapped_sub [of m1 b LS_SIZE]) (use mapped_dom [OF d1] map le fit in auto)
  from memcpy_ok [OF this src1] obtain m2 where
    m2: "memcpy m1 ?v (elf_image h + unat (p_offset ph)) ?fs = Some m2"
    and c: "load_bytes m2 ?v ?fs = Some bs" and o2: "same_outside m1 m2 {?v..<?v + ?fs}"
    and d2: "dom m2 = dom m1" by blast
  have "load_bytes m2 (?v + ?fs) (?ms - ?fs) = Some (replicate (?ms - ?fs) 0)"
    by (subst load_bytes_same_outside [OF o2]) (auto simp: z)
  then have "load_bytes m2 ?v (?fs + (?ms - ?fs)) = Some (segment_bytes ph bs)"
    by (subst load_bytes_add) (simp add: c segment_bytes_def)
  moreover have "same_outside m m2 {?v..<?v + ?ms}"
    by (rule same_outside_mono [OF same_outside_trans [OF o1 o2]]) (use le in auto)
  moreover have "load_segment h b ta 0 ph pp m = Some m2"
    using m1 m2 by (auto simp: load_segment_def copy_no_toe pad split: if_splits)
  ultimately show ?thesis using le d1 d2 by auto
qed

section \<open>The segment loop as a walk over the list of segments\<close>

fun load_list ::
  "spe_program_handle \<Rightarrow> addr \<Rightarrow> u32 \<Rightarrow> nat \<Rightarrow> elf32_phdr list \<Rightarrow> memory \<Rightarrow> memory option" where
  "load_list h b ta ts [] m = Some m"
| "load_list h b ta ts (ph # phs) m =
     (if p_type ph = PT_LOAD
      then (case load_segment h b ta ts ph None m of
              None \<Rightarrow> None | Some m1 \<Rightarrow> load_list h b ta ts phs m1)
      else load_list h b ta ts phs m)"

definition loadable :: "elf32_phdr list \<Rightarrow> elf32_phdr list" where
  "loadable phs = filter (\<lambda>ph. p_type ph = PT_LOAD) phs"

text \<open>The program header table of the image, in memory.\<close>

definition phdr_table :: "memory \<Rightarrow> addr \<Rightarrow> addr \<Rightarrow> elf32_phdr list \<Rightarrow> bool" where
  "phdr_table m img phdr phs \<longleftrightarrow> e_phnum m img = Some (length phs) \<and>
     (\<forall>j < length phs. load_phdr m (phdr + phdr_size * j) = Some (phs ! j))"

text \<open>The table does not lie in the local store.\<close>

definition phdr_table_outside :: "addr \<Rightarrow> addr \<Rightarrow> addr \<Rightarrow> nat \<Rightarrow> bool" where
  "phdr_table_outside b img phdr n \<longleftrightarrow>
     ({img..<img + 52} \<union> {phdr..<phdr + phdr_size * n}) \<inter> {b..<b + LS_SIZE} = {}"

lemma load16_same_outside:
  "same_outside m m' A \<Longrightarrow> {a..<a + 2} \<inter> A = {} \<Longrightarrow> load16 m' a = load16 m a"
  by (auto simp: load16_def same_outside_def disjoint_iff)

lemma load_phdr_same_outside:
  assumes "same_outside m m' A" "{a..<a + 32} \<inter> A = {}"
  shows "load_phdr m' a = load_phdr m a"
proof -
  have "load32 m' (a + k) = load32 m (a + k)" if "k \<le> 28" for k
    by (rule load32_same_outside [OF assms(1) range_disjoint_sub [OF assms(2)]]) (use that in auto)
  from this [of 0] this [of 4] this [of 8] this [of 16] this [of 20] show ?thesis
    by (simp add: load_phdr_def)
qed

lemma phdr_table_same_outside:
  assumes t: "phdr_table m img phdr phs" and s: "same_outside m m' {b..<b + LS_SIZE}"
    and d: "phdr_table_outside b img phdr (length phs)"
  shows "phdr_table m' img phdr phs"
proof -
  have dis1: "{img..<img + 52} \<inter> {b..<b + LS_SIZE} = {}"
    and dis2: "{phdr..<phdr + phdr_size * length phs} \<inter> {b..<b + LS_SIZE} = {}"
    using d unfolding phdr_table_outside_def by blast+
  have "e_phnum m' img = e_phnum m img"
    unfolding e_phnum_def
    by (rule load16_same_outside [OF s]) (use dis1 in fastforce)
  moreover have "load_phdr m' (phdr + 32 * j) = load_phdr m (phdr + 32 * j)"
    if "j < length phs" for j
  proof (rule load_phdr_same_outside [OF s])
    have "phdr + 32 * j + 32 \<le> phdr + 32 * length phs" using that by simp
    then show "{phdr + 32 * j..<phdr + 32 * j + 32} \<inter> {b..<b + LS_SIZE} = {}"
      using dis2 by fastforce
  qed
  ultimately show ?thesis using t by (simp add: phdr_table_def)
qed

text \<open>A segment that fits writes the local store only.\<close>

lemma store_bytes_within:
  assumes "store_bytes m a bs = Some m'" "A \<subseteq> B" "{a..<a + length bs} \<subseteq> A"
  shows "same_outside m m' B"
  using store_bytes_same_outside [OF assms(1)] assms(2,3) same_outside_mono by (meson order_trans)

lemma load_segment_within:
  assumes "seg_fits ph" "load_segment h b ta 0 ph pp m = Some m'"
  shows "same_outside m m' {b + unat (p_vaddr ph)..<b + unat (p_vaddr ph) + unat (p_memsz ph)}"
    (is "same_outside _ _ ?R")
proof -
  have le: "unat (p_filesz ph) \<le> unat (p_memsz ph)"
    and pad: "unat (p_memsz ph - p_filesz ph) = unat (p_memsz ph) - unat (p_filesz ph)"
    using assms(1) by (auto simp: seg_fits_def word_le_nat_alt unat_sub)
  from assms(2) obtain m1 where
    m1: "(if p_filesz ph < p_memsz ph then memset m (b + unat (p_vaddr ph) + unat (p_filesz ph)) 0
        (unat (p_memsz ph) - unat (p_filesz ph)) else Some m) = Some m1"
    and m2: "memcpy m1 (b + unat (p_vaddr ph)) (elf_image h + unat (p_offset ph))
        (unat (p_filesz ph)) = Some m'"
    by (auto simp: load_segment_def copy_no_toe pad split: if_splits Option.bind_splits)
  have "same_outside m m1 ?R"
    using m1 le by (auto simp: memset_def split: if_splits
        intro: store_bytes_within [where A = ?R])
  moreover have "same_outside m1 m' ?R"
    using m2 le by (auto simp: memcpy_def dest: load_bytes_length split: Option.bind_splits
        intro!: store_bytes_within [where A = ?R])
  ultimately show ?thesis using same_outside_trans by fastforce
qed

lemma seg_range_in_ls:
  "seg_fits ph \<Longrightarrow> {b + unat (p_vaddr ph)..<b + unat (p_vaddr ph) + unat (p_memsz ph)}
     \<subseteq> {b..<b + LS_SIZE}"
  by (auto simp: seg_fits_def)

lemma load_segments_list:
  assumes "phdr_table m img phdr phs" "phdr_table_outside b img phdr (length phs)"
    and "img = elf_image h" "i \<le> length phs"
    and "\<And>ph. ph \<in> set (loadable phs) \<Longrightarrow> seg_fits ph"
  shows "load_segments h b phdr ta 0 i None k m =
    map_option (\<lambda>m'. (k + length (loadable (drop i phs)), m')) (load_list h b ta 0 (drop i phs) m)"
  using assms(1,4)
proof (induction "length phs - i" arbitrary: i k m)
  case 0
  then show ?case
    using assms(3) by (subst load_segments.simps) (simp add: phdr_table_def loadable_def)
next
  case (Suc n)
  then have i: "i < length phs" by simp
  have num: "e_phnum m (elf_image h) = Some (length phs)"
    and ent: "load_phdr m (phdr + 32 * i) = Some (phs ! i)"
    using Suc.prems(1) i assms(3) by (auto simp: phdr_table_def)
  have dr: "drop i phs = phs ! i # drop (Suc i) phs" using i by (simp add: Cons_nth_drop_Suc)
  show ?case
  proof (cases "p_type (phs ! i) = PT_LOAD")
    case False
    then show ?thesis using i Suc(1) [of "Suc i" m k] Suc.prems Suc(2)
      by (subst load_segments.simps) (simp add: num ent dr loadable_def)
  next
    case True
    then have fit: "seg_fits (phs ! i)" using assms(5) i by (simp add: loadable_def)
    show ?thesis
    proof (cases "load_segment h b ta 0 (phs ! i) None m")
      case None
      then show ?thesis using True i
        by (subst load_segments.simps) (simp add: num ent dr overlay_def)
    next
      case (Some m1)
      have "same_outside m m1 {b..<b + LS_SIZE}"
        using load_segment_within [OF fit Some] seg_range_in_ls [OF fit] by (rule same_outside_mono)
      then have "phdr_table m1 img phdr phs"
        using Suc.prems(1) assms(2) phdr_table_same_outside by blast
      then show ?thesis using True Some i Suc(1) [of "Suc i" m1 "Suc k"] Suc(2)
        by (subst load_segments.simps) (simp add: num ent dr overlay_def loadable_def)
    qed
  qed
qed

section \<open>What loading a list of segments leaves in the local store\<close>

abbreviation seg_range :: "addr \<Rightarrow> elf32_phdr \<Rightarrow> addr set" where
  "seg_range b ph \<equiv> {b + unat (p_vaddr ph)..<b + unat (p_vaddr ph) + unat (p_memsz ph)}"

definition seg_apart :: "elf32_phdr \<Rightarrow> elf32_phdr \<Rightarrow> bool" where
  "seg_apart p q \<longleftrightarrow> unat (p_vaddr p) + unat (p_memsz p) \<le> unat (p_vaddr q) \<or>
     unat (p_vaddr q) + unat (p_memsz q) \<le> unat (p_vaddr p)"

text \<open>The file bytes of a segment, mapped and outside the local store.\<close>

definition seg_source :: "memory \<Rightarrow> addr \<Rightarrow> addr \<Rightarrow> elf32_phdr \<Rightarrow> u8 list \<Rightarrow> bool" where
  "seg_source m img b ph bs \<longleftrightarrow>
     load_bytes m (img + unat (p_offset ph)) (unat (p_filesz ph)) = Some bs \<and>
     {img + unat (p_offset ph)..<img + unat (p_offset ph) + unat (p_filesz ph)}
       \<inter> {b..<b + LS_SIZE} = {}"

lemma load_list_correct:
  assumes "\<And>ph. ph \<in> set (loadable phs) \<Longrightarrow> seg_fits ph \<and> seg_source m (elf_image h) b ph (src ph)"
    and "sorted_wrt seg_apart (loadable phs)" "mapped m b LS_SIZE"
  shows "\<exists>m'. load_list h b ta 0 phs m = Some m' \<and>
    (\<forall>ph \<in> set (loadable phs). load_bytes m' (b + unat (p_vaddr ph)) (unat (p_memsz ph)) =
       Some (segment_bytes ph (src ph))) \<and>
    same_outside m m' (\<Union>ph \<in> set (loadable phs). seg_range b ph) \<and> dom m' = dom m"
  using assms
proof (induction phs arbitrary: m)
  case Nil
  then show ?case by (simp add: loadable_def)
next
  case (Cons p phs)
  show ?case
  proof (cases "p_type p = PT_LOAD")
    case False
    with Cons show ?thesis by (simp add: loadable_def)
  next
    case True
    then have l: "loadable (p # phs) = p # loadable phs" by (simp add: loadable_def)
    have fit: "seg_fits p" and src: "seg_source m (elf_image h) b p (src p)"
      using Cons.prems(1) l by auto
    obtain m1 where m1: "load_segment h b ta 0 p None m = Some m1"
      and bs: "load_bytes m1 (b + unat (p_vaddr p)) (unat (p_memsz p)) = Some (segment_bytes p (src p))"
      and o1: "same_outside m m1 (seg_range b p)" and d1: "dom m1 = dom m"
      using load_segment_ok [OF fit Cons.prems(3)] src unfolding seg_source_def by metis
    have rest: "seg_fits ph \<and> seg_source m1 (elf_image h) b ph (src ph)"
      if "ph \<in> set (loadable phs)" for ph
    proof -
      have s: "seg_fits ph" "seg_source m (elf_image h) b ph (src ph)"
        using Cons.prems(1) l that by auto
      have "same_outside m m1 {b..<b + LS_SIZE}"
        using same_outside_mono [OF o1 seg_range_in_ls [OF fit]] .
      note same = load_bytes_same_outside [OF this]
      show ?thesis using s by (simp add: seg_source_def same)
    qed
    have srt: "sorted_wrt seg_apart (loadable phs)" and mp: "mapped m1 b LS_SIZE"
      using Cons.prems(2,3) l mapped_dom [OF d1] by simp_all
    obtain m2 where m2: "load_list h b ta 0 phs m1 = Some m2"
      and all: "\<forall>ph \<in> set (loadable phs). load_bytes m2 (b + unat (p_vaddr ph)) (unat (p_memsz ph)) =
        Some (segment_bytes ph (src ph))"
      and o2: "same_outside m1 m2 (\<Union>ph \<in> set (loadable phs). seg_range b ph)"
      and d2: "dom m2 = dom m1"
      using Cons.IH [OF rest srt mp] by auto
    have "seg_range b p \<inter> (\<Union>ph \<in> set (loadable phs). seg_range b ph) = {}"
      using Cons.prems(2) l by (fastforce simp: seg_apart_def)
    then have "load_bytes m2 (b + unat (p_vaddr p)) (unat (p_memsz p)) = Some (segment_bytes p (src p))"
      using bs load_bytes_same_outside [OF o2] by simp
    moreover have "same_outside m m2 (\<Union>ph \<in> set (loadable (p # phs)). seg_range b ph)"
      using same_outside_trans [OF o1 o2] by (simp add: l)
    ultimately show ?thesis using True m1 m2 all d1 d2 l by auto
  qed
qed

section \<open>The section loop on an image with nothing to relocate\<close>

definition shdr_table :: "memory \<Rightarrow> addr \<Rightarrow> addr \<Rightarrow> elf32_shdr list \<Rightarrow> bool" where
  "shdr_table m img shdr shs \<longleftrightarrow> e_shnum m img = Some (length shs) \<and>
     (\<forall>j < length shs. load_shdr m (shdr + shdr_size * j) = Some (shs ! j))"

text \<open>No relocation section, and no section named \<open>.toe\<close>.\<close>

definition plain_section :: "memory \<Rightarrow> addr \<Rightarrow> elf32_shdr \<Rightarrow> bool" where
  "plain_section m str_table sh \<longleftrightarrow> sh_type sh \<noteq> SHT_RELA \<and>
     c_streq m (str_table + unat (sh_name sh)) str_toe = Some False"

lemma load_sections_plain:
  assumes "shdr_table m (elf_image h) shdr shs" "\<And>sh. sh \<in> set shs \<Longrightarrow> plain_section m st sh"
    and "i \<le> length shs"
  shows "load_sections h shdr st i ta ts m = Some (ta, ts, m)"
  using assms(3)
proof (induction "length shs - i" arbitrary: i)
  case 0
  then show ?case using assms(1) by (subst load_sections.simps) (simp add: shdr_table_def)
next
  case (Suc n)
  then have i: "i < length shs" by simp
  moreover have "plain_section m st (shs ! i)" using i assms(2) by simp
  moreover have "load_sections h shdr st (Suc i) ta ts m = Some (ta, ts, m)"
    using Suc i by simp
  ultimately show ?case using assms(1)
    by (subst load_sections.simps) (simp add: shdr_table_def plain_section_def)
qed

section \<open>Loading an image\<close>

definition valid_header :: "memory \<Rightarrow> addr \<Rightarrow> bool" where
  "valid_header m img \<longleftrightarrow> load_bytes m img EI_PAD = Some elf_expected \<and>
     e_machine m img = Some EM_SPU \<and> e_type m img = Some ET_EXEC"

lemma check_valid_header: "valid_header (mem e) img \<Longrightarrow> check_spe_elf img e = Some (0, e)"
  by (simp add: valid_header_def check_spe_elf_def)

text \<open>
  An image the loader is meant for: a valid header, a section table without relocations and
  toe, a segment table, segments that fit the local store, do not overlap and whose file bytes
  are mapped. Nothing of the image lies in the local store.
\<close>

definition plain_image ::
  "memory \<Rightarrow> addr \<Rightarrow> addr \<Rightarrow> elf32_phdr list \<Rightarrow> (elf32_phdr \<Rightarrow> u8 list) \<Rightarrow> elf32_shdr list \<Rightarrow> bool"
where
  "plain_image m img b phs src shs \<longleftrightarrow> valid_header m img \<and>
     (\<exists>phoff shoff ndx.
        e_phoff m img = Some phoff \<and> e_shoff m img = Some shoff \<and> e_shstrndx m img = Some ndx \<and>
        ndx < length shs \<and> shdr_table m img (img + unat shoff) shs \<and>
        (\<forall>sh \<in> set shs. plain_section m (img + unat (sh_offset (shs ! ndx))) sh) \<and>
        phdr_table m img (img + unat phoff) phs \<and>
        phdr_table_outside b img (img + unat phoff) (length phs)) \<and>
     loadable phs \<noteq> [] \<and> sorted_wrt seg_apart (loadable phs) \<and>
     (\<forall>ph \<in> set (loadable phs). seg_fits ph \<and> seg_source m img b ph (src ph))"

lemma load_spe_elf_ok:
  assumes img: "plain_image (mem e) (elf_image h) b phs src shs"
    and map: "mapped (mem e) b LS_SIZE" and ent: "e_entry (mem e) (elf_image h) = Some ent"
  shows "\<exists>m'. base_spe_load_spe_elf h b e = Some (0, Some ent, e\<lparr>mem := m'\<rparr>) \<and>
    (\<forall>ph \<in> set (loadable phs). load_bytes m' (b + unat (p_vaddr ph)) (unat (p_memsz ph)) =
       Some (segment_bytes ph (src ph))) \<and>
    same_outside (mem e) m' (\<Union>ph \<in> set (loadable phs). seg_range b ph)"
proof -
  let ?m = "mem e" and ?img = "elf_image h"
  obtain phoff shoff ndx where
    hd: "e_phoff ?m ?img = Some phoff" "e_shoff ?m ?img = Some shoff" "e_shstrndx ?m ?img = Some ndx"
    and ndx: "ndx < length shs" and sht: "shdr_table ?m ?img (?img + unat shoff) shs"
    and pl: "\<And>sh. sh \<in> set shs \<Longrightarrow> plain_section ?m (?img + unat (sh_offset (shs ! ndx))) sh"
    and pht: "phdr_table ?m ?img (?img + unat phoff) phs"
    and out: "phdr_table_outside b ?img (?img + unat phoff) (length phs)"
    using img unfolding plain_image_def by blast
  have v: "valid_header ?m ?img" and ne: "loadable phs \<noteq> []"
    and sorted: "sorted_wrt seg_apart (loadable phs)"
    and segs: "\<And>ph. ph \<in> set (loadable phs) \<Longrightarrow> seg_fits ph \<and> seg_source ?m ?img b ph (src ph)"
    using img unfolding plain_image_def by auto
  have strsh: "load_shdr ?m (?img + unat shoff + 40 * ndx) = Some (shs ! ndx)"
    using sht ndx by (simp add: shdr_table_def)
  obtain m' where m': "load_list h b 0 0 phs ?m = Some m'"
    and bytes: "\<forall>ph \<in> set (loadable phs). load_bytes m' (b + unat (p_vaddr ph)) (unat (p_memsz ph)) =
        Some (segment_bytes ph (src ph))"
    and o: "same_outside ?m m' (\<Union>ph \<in> set (loadable phs). seg_range b ph)"
    using load_list_correct [OF segs sorted map, of 0] by blast
  have segs_run: "load_segments h b (?img + unat phoff) 0 0 0 None 0 ?m =
      Some (length (loadable phs), m')"
    using load_segments_list [OF pht out refl, of 0 0 0] segs m' by simp
  have "(\<Union>ph \<in> set (loadable phs). seg_range b ph) \<subseteq> {b..<b + LS_SIZE}"
    using segs seg_range_in_ls by blast
  then have ls: "same_outside ?m m' {b..<b + LS_SIZE}" by (rule same_outside_mono [OF o])
  have "{?img..<?img + 52} \<inter> {b..<b + LS_SIZE} = {}"
    using out unfolding phdr_table_outside_def by blast
  then have "e_entry m' ?img = Some ent"
    using ent load32_same_outside [OF ls range_disjoint_sub, of ?img 52 "?img + 24"]
    by (simp add: e_entry_def)
  moreover have "load_sections h (?img + unat shoff) (?img + unat (sh_offset (shs ! ndx))) 0 0 0 ?m =
      Some (0, 0, ?m)"
    using load_sections_plain [OF sht pl, of 0 0 0] by simp
  ultimately have "base_spe_load_spe_elf h b e = Some (0, Some ent, e\<lparr>mem := m'\<rparr>)"
    using check_valid_header [OF v] hd strsh segs_run ne
    by (simp add: base_spe_load_spe_elf_def)
  with bytes o show ?thesis by blast
qed

text \<open>
  C1: loading such an image succeeds, the program starts at the entry point of the header,
  each loadable segment's bytes are in the local store at its address, followed by zeros up to
  its size in memory, and no byte outside the segments changes.
\<close>

theorem load_spe_elf_correct:
  assumes img: "plain_image (mem e) (elf_image h) b phs src shs"
    and map: "mapped (mem e) b LS_SIZE" and ent: "e_entry (mem e) (elf_image h) = Some ent"
  shows "\<exists>m'. base_spe_load_spe_elf h b e = Some (0, Some ent, e\<lparr>mem := m'\<rparr>) \<and>
    (\<forall>ph \<in> set (loadable phs). load_bytes m' (b + unat (p_vaddr ph)) (unat (p_memsz ph)) =
       Some (segment_bytes ph (src ph))) \<and>
    same_outside (mem e) m' (\<Union>ph \<in> set (loadable phs). seg_range b ph)"
  by (rule load_spe_elf_ok [OF assms])

section \<open>A concrete image\<close>

text \<open>A small image: one loadable segment of four bytes, eight in memory, at address 0x80.\<close>

definition sample_elf :: "u8 list" where
  "sample_elf =
     [0x7F, 0x45, 0x4C, 0x46, 1, 2, 1, 0, 0, 0, 0, 0, 0, 0, 0, 0,
      0, 2, 0, 0x17, 0, 0, 0, 1, 0, 0, 0, 0x80, 0, 0, 0, 52,
      0, 0, 0, 84, 0, 0, 0, 0, 0, 52, 0, 32, 0, 1, 0, 40,
      0, 1, 0, 0,
      0, 0, 0, 1, 0, 0, 0, 124, 0, 0, 0, 0x80, 0, 0, 0, 0x80,
      0, 0, 0, 4, 0, 0, 0, 8, 0, 0, 0, 5, 0, 0, 0, 16,
      0, 0, 0, 0, 0, 0, 0, 0, 0, 0, 0, 0, 0, 0, 0, 0, 0, 0, 0, 0,
      0, 0, 0, 0, 0, 0, 0, 0, 0, 0, 0, 0, 0, 0, 0, 0, 0, 0, 0, 0,
      0xDE, 0xAD, 0xBE, 0xEF]"

definition sample_mem :: memory where
  "sample_mem a = (if 4096 \<le> a \<and> a < 4224 then Some (sample_elf ! (a - 4096))
     else if 0x100000 \<le> a \<and> a < 0x140000 then Some 0 else None)"

definition sample_phdr :: elf32_phdr where
  "sample_phdr = \<lparr>p_type = 1, p_offset = 124, p_vaddr = 0x80, p_filesz = 4, p_memsz = 8\<rparr>"

definition sample_shdr :: elf32_shdr where
  "sample_shdr = \<lparr>sh_name = 0, sh_type = 0, sh_addr = 0, sh_offset = 0, sh_size = 0, sh_link = 0,
     sh_info = 0\<rparr>"

definition sample_handle :: spe_program_handle where
  "sample_handle = \<lparr>handle_size = 24, elf_image = 4096, toe_shadow = NULL\<rparr>"

lemma sample_mem_image: "k < 128 \<Longrightarrow> sample_mem (4096 + k) = Some (sample_elf ! k)"
  by (simp add: sample_mem_def)

lemma sample_load32: "k + 4 \<le> 128 \<Longrightarrow> load32 sample_mem (4096 + k) =
  Some (word_of_bytes4 (sample_elf ! k) (sample_elf ! (k + 1)) (sample_elf ! (k + 2)) (sample_elf ! (k + 3)))"
proof -
  assume "k + 4 \<le> 128"
  then have "sample_mem (4096 + k) = Some (sample_elf ! k)"
     "sample_mem (Suc (4096 + k)) = Some (sample_elf ! (k + 1))"
     "sample_mem (Suc (Suc (4096 + k))) = Some (sample_elf ! (k + 2))"
     "sample_mem (Suc (Suc (Suc (4096 + k)))) = Some (sample_elf ! (k + 3))"
    by (simp_all add: sample_mem_def add.commute)
  then show ?thesis by (simp add: load32_def eval_nat_numeral)
qed


lemma sample_load16: "k + 2 \<le> 128 \<Longrightarrow> load16 sample_mem (4096 + k) =
  Some (256 * unat (sample_elf ! k) + unat (sample_elf ! (k + 1)))"
  by (simp add: load16_def sample_mem_def)

lemma sample_fields:
  "e_machine sample_mem 4096 = Some EM_SPU" "e_type sample_mem 4096 = Some ET_EXEC"
  "e_phoff sample_mem 4096 = Some 52" "e_shoff sample_mem 4096 = Some 84"
  "e_shstrndx sample_mem 4096 = Some 0" "e_shnum sample_mem 4096 = Some 1"
  "e_phnum sample_mem 4096 = Some 1" "e_entry sample_mem 4096 = Some 0x80"
  using sample_load16 [of 16] sample_load16 [of 18] sample_load16 [of 50] sample_load16 [of 48]
    sample_load16 [of 44] sample_load32 [of 24] sample_load32 [of 28] sample_load32 [of 32]
  by (simp_all add: e_machine_def e_type_def e_phoff_def e_shoff_def e_shstrndx_def e_shnum_def
      e_phnum_def e_entry_def sample_elf_def word_of_bytes4_def)

lemma sample_phdr_loaded: "load_phdr sample_mem 4148 = Some sample_phdr"
  using sample_load32 [of 52] sample_load32 [of 56] sample_load32 [of 60] sample_load32 [of 68]
    sample_load32 [of 72]
  by (simp add: load_phdr_def sample_phdr_def sample_elf_def word_of_bytes4_def)

lemma sample_shdr_loaded: "load_shdr sample_mem 4180 = Some sample_shdr"
  using sample_load32 [of 84] sample_load32 [of 88] sample_load32 [of 96] sample_load32 [of 100]
    sample_load32 [of 104] sample_load32 [of 108] sample_load32 [of 112]
  by (simp add: load_shdr_def sample_shdr_def sample_elf_def word_of_bytes4_def)

lemma sample_bytes: "a + n \<le> 128 \<Longrightarrow>
    load_bytes sample_mem (4096 + a) n = Some (map (\<lambda>k. sample_elf ! (a + k)) [0..<n])"
proof (induction n arbitrary: a)
  case (Suc n)
  then show ?case using Suc.IH [of "Suc a"]
    by (simp add: sample_mem_image upt_rec [of 0 "Suc n"] map_Suc_upt [symmetric] del: upt_Suc)
qed simp

lemma sample_valid: "valid_header sample_mem 4096"
  using sample_bytes [of 0 9]
  by (simp add: valid_header_def sample_fields elf_expected_def sample_elf_def upt_rec)

lemma sample_plain:
  "plain_image sample_mem 4096 0x100000 [sample_phdr] (\<lambda>_. [0xDE, 0xAD, 0xBE, 0xEF]) [sample_shdr]"
proof -
  have "sample_mem 4096 = Some 0x7F" using sample_mem_image [of 0] by (simp add: sample_elf_def)
  then have "plain_section sample_mem 4096 sample_shdr"
    by (simp add: plain_section_def sample_shdr_def str_toe_def)
  moreover have "loadable [sample_phdr] = [sample_phdr]"
    by (simp add: loadable_def sample_phdr_def)
  moreover have "seg_source sample_mem 4096 0x100000 sample_phdr [0xDE, 0xAD, 0xBE, 0xEF]"
    using sample_bytes [of 124 4] by (simp add: seg_source_def sample_phdr_def sample_elf_def upt_rec)
  ultimately show ?thesis
    by (simp add: plain_image_def sample_valid sample_fields shdr_table_def phdr_table_def
        sample_phdr_loaded sample_shdr_loaded phdr_table_outside_def seg_fits_def)
      (auto simp: sample_phdr_def sample_shdr_def)
qed

theorem load_spe_elf_correct_witness:
  "\<exists>m'. base_spe_load_spe_elf sample_handle 0x100000 (start_env sample_mem ()) =
      Some (0, Some 0x80, (start_env sample_mem ())\<lparr>mem := m'\<rparr>) \<and>
    load_bytes m' 0x100080 8 = Some [0xDE, 0xAD, 0xBE, 0xEF, 0, 0, 0, 0]"
proof -
  have "plain_image (mem (start_env sample_mem ())) (elf_image sample_handle) 0x100000 [sample_phdr]
      (\<lambda>_. [0xDE, 0xAD, 0xBE, 0xEF]) [sample_shdr]"
    using sample_plain by (simp add: start_env_def sample_handle_def)
  moreover have "mapped (mem (start_env sample_mem ())) 0x100000 LS_SIZE"
    by (simp add: mapped_def start_env_def sample_mem_def)
  moreover have "e_entry (mem (start_env sample_mem ())) (elf_image sample_handle) = Some 0x80"
    by (simp add: start_env_def sample_handle_def sample_fields)
  moreover have zeros: "replicate 4 (0 :: u8) = [0, 0, 0, 0]" by (simp add: eval_nat_numeral)
  ultimately obtain m' where "base_spe_load_spe_elf sample_handle 0x100000 (start_env sample_mem ()) =
      Some (0, Some 0x80, (start_env sample_mem ())\<lparr>mem := m'\<rparr>)"
    and b: "\<forall>ph \<in> set (loadable [sample_phdr]). load_bytes m' (0x100000 + unat (p_vaddr ph))
      (unat (p_memsz ph)) = Some (segment_bytes ph [0xDE, 0xAD, 0xBE, 0xEF])"
    using load_spe_elf_correct [of "start_env sample_mem ()" sample_handle "0x100000"] by blast
  moreover have "load_bytes m' 0x100080 8 = Some [0xDE, 0xAD, 0xBE, 0xEF, 0, 0, 0, 0]"
    using b zeros by (simp add: loadable_def segment_bytes_def sample_phdr_def)
  ultimately show ?thesis by blast
qed

end
