(* ===== verification/Spe_Image.thy ===== *)
theory Spe_Image
  imports Elf_Correct
begin

unbundle bit_operations_syntax

text \<open>
  SPE program images in files (\<open>spebase/image.c\<close>): a file is mapped, checked and given a toe
  shadow by \<open>base_spe_image_open\<close>, and \<open>base_spe_image_close\<close> gives everything back.
\<close>

section \<open>The code\<close>

text \<open>\<open>struct image_handle\<close>: the program handle and the size of the mapping.\<close>

record image_handle = spe_program_handle +
  map_size :: u32

abbreviation (input) SIZEOF_IMAGE_HANDLE :: nat where "SIZEOF_IMAGE_HANDLE \<equiv> 32"
abbreviation (input) SIZEOF_PROGRAM_HANDLE :: nat where "SIZEOF_PROGRAM_HANDLE \<equiv> 24"

text \<open>\<open>S_IXUSR | S_IXGRP | S_IXOTH\<close>.\<close>

abbreviation (input) S_IXALL :: u32 where "S_IXALL \<equiv> 0x49"

text \<open>\<open>fstat\<close> hands back the mode and the size (two words) of the file.\<close>

definition st_mode :: "reply \<Rightarrow> u32" where
  "st_mode r = first_word r"

definition st_size :: "reply \<Rightarrow> u64" where
  "st_size r = (case rwords r of [_, h, l] \<Rightarrow> push_bit 32 (ucast h) OR ucast l | _ \<Rightarrow> 0)"

text \<open>The size is rounded up to pages of \<open>ps\<close> bytes, and stored in an \<open>unsigned int\<close>.\<close>

definition page_round :: "u64 \<Rightarrow> u64 \<Rightarrow> u64" where
  "page_round ps n = (n + ps - 1) AND NOT (ps - 1)"

text \<open>The label \<open>ret_err\<close>.\<close>

definition image_ret_err :: "'w kernel \<Rightarrow> addr \<Rightarrow> addr \<Rightarrow> u32 \<Rightarrow> int \<Rightarrow> 'w env \<Rightarrow> 'w env" where
  "image_ret_err K p img msize binfd e =
     (let e1 = (if img \<noteq> MAP_FAILED then snd (sys_rv K (Munmap img (unat msize)) e) else e);
          e2 = (if binfd \<ge> 0 then snd (sys_rv K (Close binfd) e1) else e1)
      in snd (sys_rv K (Free p) e2))"

text \<open>
  From the successful \<open>mmap\<close> on: the image is verified and gets its toe shadow. The result is the
  address of the handle and its contents; \<open>None\<close> is \<open>NULL\<close>. \<open>ptr_bytes\<close> is the size of a
  pointer, \<open>ps\<close> the page size of the system.
\<close>

definition image_check ::
  "'w kernel \<Rightarrow> nat \<Rightarrow> addr \<Rightarrow> int \<Rightarrow> addr \<Rightarrow> u32 \<Rightarrow> 'w env \<Rightarrow>
   ((addr \<times> image_handle) option \<times> 'w env) option"
where
  "image_check K ptr_bytes p binfd img msize e =
     (let speh = \<lparr>handle_size = SIZEOF_PROGRAM_HANDLE, elf_image = img, toe_shadow = NULL\<rparr> in do {
        (bad, e1) \<leftarrow> base_spe_verify_spe_elf_image speh e;
        if bad \<noteq> 0 then Some (None, image_ret_err K p img msize binfd e1)
        else do {
          (rc, speh', e2) \<leftarrow> base_spe_toe_ear K ptr_bytes speh e1;
          if rc \<noteq> 0 then Some (None, image_ret_err K p img msize binfd e2)
          else
            let e3 = snd (sys_rv K (Close binfd) e2) in
            Some (Some (p, \<lparr>handle_size = handle_size speh', elf_image = elf_image speh',
              toe_shadow = toe_shadow speh', map_size = msize\<rparr>), e3) } })"

definition base_spe_image_open ::
  "'w kernel \<Rightarrow> nat \<Rightarrow> u64 \<Rightarrow> string \<Rightarrow> 'w env \<Rightarrow> ((addr \<times> image_handle) option \<times> 'w env) option"
where
  "base_spe_image_open K ptr_bytes ps filename e =
     (let (p, e1) = sys_rv K (Malloc SIZEOF_IMAGE_HANDLE) e in
      if p \<le> 0 then Some (None, e1)
      else
        let (binfd, e2) = sys_rv K (Open filename O_RDONLY) e1 in
        if binfd < 0 then Some (None, image_ret_err K (nat p) MAP_FAILED 0 binfd e2)
        else
          let (st, e3) = sys K (Fstat binfd) e2 in
          if rv st < 0 then Some (None, image_ret_err K (nat p) MAP_FAILED 0 binfd e3)
          else if st_mode st AND S_IXALL = 0
          then Some (None, image_ret_err K (nat p) MAP_FAILED 0 binfd (set_errno EACCES e3))
          else
            let msize = ucast (page_round ps (st_size st));
                (a, e4) = sys_rv K (MmapPrivate (unat msize) binfd) e3 in
            if ptr_of a = MAP_FAILED
            then Some (None, image_ret_err K (nat p) MAP_FAILED msize binfd e4)
            else image_check K ptr_bytes (nat p) binfd (ptr_of a) msize e4)"

definition base_spe_image_close ::
  "'w kernel \<Rightarrow> (addr \<times> image_handle) option \<Rightarrow> 'w env \<Rightarrow> int \<times> 'w env" where
  "base_spe_image_close K handle e =
     (case handle of
        None \<Rightarrow> (-1, set_errno EINVAL e)
      | Some (p, ih) \<Rightarrow>
        if elf_image ih = NULL \<or> map_size ih = 0 then (-1, set_errno EINVAL e)
        else
          let e1 = (if toe_shadow ih \<noteq> NULL then snd (sys_rv K (Free (toe_shadow ih)) e) else e);
              (ret, e2) = sys_rv K (Munmap (elf_image ih) (unat (map_size ih))) e1;
              e3 = snd (sys_rv K (Free p) e2)
          in (ret, e3))"

section \<open>Resources\<close>

lemma ledgers_check_spe_elf: "check_spe_elf a e = Some (r, e') \<Longrightarrow> ledgers e' = ledgers e"
  by (auto simp: check_spe_elf_def split: Option.bind_splits if_splits)

lemma ledgers_toe_loop: "toe_check_syms_loop t s s_end r e = Some (r', e') \<Longrightarrow> ledgers e' = ledgers e"
proof (induction t s s_end r e rule: toe_check_syms_loop.induct)
  case (1 t s s_end r e)
  show ?case
  proof (cases "s < s_end")
    case False
    with "1.prems" show ?thesis by (simp add: toe_check_syms_loop.simps [of t s])
  next
    case True
    with "1.prems" "1.IH" show ?thesis
      by (subst (asm) toe_check_syms_loop.simps) (auto split: option.splits if_splits)
  qed
qed

lemma ledgers_toe_syms: "toe_check_syms a sh e = Some (r', e') \<Longrightarrow> ledgers e' = ledgers e"
  by (auto simp: toe_check_syms_def dest: ledgers_toe_loop split: Option.bind_splits)

lemma ledgers_toe_sections: "toe_check_sections a b i n r e = Some (r', e') \<Longrightarrow> ledgers e' = ledgers e"
proof (induction n arbitrary: i r e)
  case (Suc n)
  then show ?case
    by (auto dest!: ledgers_toe_syms split: Option.bind_splits if_splits)
qed simp

definition shadow_block :: "addr \<Rightarrow> addr multiset" where
  "shadow_block a = (if a = NULL then {#} else {#a#})"

lemma ledgers_toe_ear:
  assumes "base_spe_toe_ear K pb h e = Some (rc, h', e')" "toe_shadow h = NULL"
    and "ledgers e = (F, M, H)"
  shows "ledgers e' = (F, M, H + shadow_block (toe_shadow h')) \<and>
    (rc \<noteq> 0 \<longrightarrow> toe_shadow h' = NULL) \<and> elf_image h' = elf_image h"
  using assms
  by (auto simp: base_spe_toe_ear_def Let_def shadow_block_def
      dest!: ledgers_toe_sections ledgers_sys_rv split: Option.bind_splits if_splits prod.splits)

lemma ledgers_ret_err:
  assumes "ledgers e = (F', M', add_mset p H)"
    and "F' = (if binfd \<ge> 0 then add_mset binfd F else F)"
    and "M' = (if img \<noteq> MAP_FAILED then add_mset (img, unat sz) M else M)"
  shows "ledgers (image_ret_err K p img sz binfd e) = (F, M, H)"
  using assms
  by (auto simp: image_ret_err_def Let_def ledgers_snd_sys_rv split: if_splits)

text \<open>A failed open holds nothing; a successful one holds the mapping, the handle and the shadow.\<close>

definition image_held ::
  "(addr \<times> image_handle) option \<Rightarrow> (addr \<times> nat) multiset \<times> addr multiset" where
  "image_held r = (case r of None \<Rightarrow> ({#}, {#})
     | Some (p, ih) \<Rightarrow> ({#(elf_image ih, unat (map_size ih))#}, add_mset p (shadow_block (toe_shadow ih))))"

lemma ledgers_image_check:
  assumes "image_check K pb p fd img sz e = Some (r, e')" "img \<noteq> MAP_FAILED" "0 \<le> fd"
    and "ledgers e = (add_mset fd F, add_mset (img, unat sz) M, add_mset p H)"
  shows "ledgers e' = (F, fst (image_held r) + M, snd (image_held r) + H)"
proof -
  let ?h = "\<lparr>handle_size = SIZEOF_PROGRAM_HANDLE, elf_image = img, toe_shadow = NULL\<rparr>"
  obtain bad e1 where v: "check_spe_elf img e = Some (bad, e1)"
    using assms(1) by (auto simp: image_check_def base_spe_verify_spe_elf_image_def split: Option.bind_splits)
  note L1 = ledgers_check_spe_elf [OF v, unfolded assms(4)]
  show ?thesis
  proof (cases "bad = 0")
    case False
    then show ?thesis using assms v ledgers_ret_err [OF L1, of fd F img sz M K]
      by (simp add: image_check_def base_spe_verify_spe_elf_image_def image_held_def)
  next
    case True
    then obtain rc h' e2 where t: "base_spe_toe_ear K pb ?h e1 = Some (rc, h', e2)"
      using assms v
      by (auto simp: image_check_def base_spe_verify_spe_elf_image_def split: Option.bind_splits)
    have L2: "ledgers e2 = (add_mset fd F, add_mset (img, unat sz) M,
        add_mset p H + shadow_block (toe_shadow h'))"
      and n: "rc \<noteq> 0 \<longrightarrow> toe_shadow h' = NULL" "elf_image h' = img"
      using ledgers_toe_ear [OF t _ L1] by auto
    show ?thesis
    proof (cases "rc = 0")
      case False
      then have "ledgers e2 = (add_mset fd F, add_mset (img, unat sz) M, add_mset p H)"
        using L2 n by (simp add: shadow_block_def)
      from ledgers_ret_err [OF this, of fd F img sz M K] show ?thesis using assms v t True False
        by (simp add: image_check_def base_spe_verify_spe_elf_image_def image_held_def)
    next
      case rc: True
      have "ledgers (snd (sys_rv K (Close fd) e2)) = (F, add_mset (img, unat sz) M,
          add_mset p H + shadow_block (toe_shadow h'))"
        using ledgers_snd_sys_rv [OF L2, where q = "Close fd"] by simp
      then show ?thesis using assms v t True rc n
        by (auto simp: image_check_def base_spe_verify_spe_elf_image_def image_held_def)
    qed
  qed
qed

lemma image_open_ledgers:
  assumes "base_spe_image_open K pb ps fn e = Some (r, e')" "ledgers e = (F, M, H)"
  shows "ledgers e' = (F, fst (image_held r) + M, snd (image_held r) + H)"
  using assms
  by (auto simp: base_spe_image_open_def Let_def image_held_def
      intro!: ledgers_ret_err dest!: ledgers_sys ledgers_sys_rv
      split: if_splits prod.splits) (auto dest!: ledgers_image_check simp: image_held_def)

section \<open>Properties\<close>

text \<open>
  C35: opening an image leaves nothing behind on any of its error paths (descriptor, mapping,
  handle); on success it holds the mapping, the handle and the toe shadow, and closing that
  image gives back exactly these.
\<close>

theorem image_open_close_balanced:
  assumes "base_spe_image_open K pb ps fn e = Some (r, e')"
  shows "case r of None \<Rightarrow> ledgers e' = ledgers e
    | Some (p, ih) \<Rightarrow> open_fds (trace e') = open_fds (trace e) \<and>
        (elf_image ih \<noteq> NULL \<and> map_size ih \<noteq> 0 \<longrightarrow>
          ledgers (snd (base_spe_image_close K r e')) = ledgers e)"
proof (cases r)
  case None
  then show ?thesis using image_open_ledgers [OF assms]
    by (cases "ledgers e") (auto simp: image_held_def)
next
  case (Some x)
  obtain p ih where x: "x = (p, ih)" by fastforce
  obtain F M H where L: "ledgers e = (F, M, H)" by (cases "ledgers e")
  then have F: "F = open_fds (trace e)" by (simp add: ledgers_def)
  note L1 = image_open_ledgers [OF assms L]
  then have "open_fds (trace e') = F" by (simp add: ledgers_def)
  moreover have "ledgers (snd (base_spe_image_close K r e')) = (F, M, H)"
    if ok: "elf_image ih \<noteq> NULL" "map_size ih \<noteq> 0"
  proof -
    define e1 where "e1 = (if toe_shadow ih \<noteq> NULL then snd (sys_rv K (Free (toe_shadow ih)) e') else e')"
    have "ledgers e1 = (F, add_mset (elf_image ih, unat (map_size ih)) M, add_mset p H)"
      using L1 ledgers_snd_sys_rv [OF L1, where q = "Free (toe_shadow ih)"]
      by (auto simp: e1_def Some x image_held_def shadow_block_def)
    from ledgers_snd_sys_rv [OF this, of "Munmap (elf_image ih) (unat (map_size ih))"]
    have "ledgers (snd (sys_rv K (Munmap (elf_image ih) (unat (map_size ih))) e1)) = (F, M, add_mset p H)"
      by simp
    from ledgers_snd_sys_rv [OF this, of "Free p" p]
    have "ledgers (snd (sys_rv K (Free p)
        (snd (sys_rv K (Munmap (elf_image ih) (unat (map_size ih))) e1)))) = (F, M, H)" by simp
    then show ?thesis using ok
      by (cases "sys_rv K (Munmap (elf_image ih) (unat (map_size ih))) e1")
        (simp add: base_spe_image_close_def Some x e1_def [symmetric] Let_def del: neq0_conv)
  qed
  ultimately show ?thesis using Some x L F by simp
qed

text \<open>The rounding of sizes.\<close>

lemma and_not_mask_word: "w AND NOT (mask k) = push_bit k (drop_bit k w)" for w :: u64
  by (rule bit_word_eqI) (auto simp: bit_simps)

lemma page_round_nat:
  assumes "k < 64" "unat n + 2 ^ k \<le> 2 ^ 64"
  shows "unat (page_round (2 ^ k) n) = (unat n + 2 ^ k - 1) div 2 ^ k * 2 ^ k"
proof -
  have "(2 ^ k :: u64) - 1 = mask k" by (simp add: mask_eq_decr_exp)
  moreover have "(of_nat (unat n + 2 ^ k - 1) :: u64) = n + 2 ^ k - 1"
    by (subst of_nat_diff) (simp_all add: Suc_leI)
  moreover have "unat (of_nat (unat n + 2 ^ k - 1) :: u64) = unat n + 2 ^ k - 1"
    using assms(2) by (simp add: unat_of_nat take_bit_nat_eq_self)
  ultimately have "unat (page_round (2 ^ k) n) = unat (push_bit k (drop_bit k (n + 2 ^ k - 1)))"
    "unat (n + 2 ^ k - 1) = unat n + 2 ^ k - 1"
    by (simp_all add: page_round_def and_not_mask_word)
  moreover have "unat (push_bit k (drop_bit k w)) = unat w div 2 ^ k * 2 ^ k" for w :: u64
  proof -
    have "unat w div 2 ^ k * 2 ^ k \<le> unat w" by simp
    also have "unat w < 2 ^ 64" using unsigned_less [of w] by simp
    finally have "take_bit 64 (unat w div 2 ^ k * 2 ^ k) = unat w div 2 ^ k * 2 ^ k"
      by (simp add: take_bit_nat_eq_self)
    then show ?thesis
      by (simp only: unsigned_push_bit_eq unat_drop_bit_eq len_num1 len_bit0)
        (simp add: push_bit_eq_mult drop_bit_eq_div)
  qed
  ultimately show ?thesis by simp
qed

text \<open>
  the size of the mapping, kept in an \<open>unsigned int\<close>, is the least number of whole pages
  that covers the file, for every file up to one page short of 4 GB and every page size that
  is a power of two below 4 GB.
\<close>

theorem image_map_size_covers:
  fixes n :: u64
  assumes "k < 32" "unat n + 2 ^ k \<le> 2 ^ 32"
  shows "unat n \<le> unat (ucast (page_round (2 ^ k) n) :: u32) \<and>
    unat (ucast (page_round (2 ^ k) n) :: u32) < unat n + 2 ^ k \<and>
    2 ^ k dvd unat (ucast (page_round (2 ^ k) n) :: u32)"
proof -
  let ?r = "(unat n + 2 ^ k - 1) div 2 ^ k * 2 ^ k"
  have p: "0 < (2 :: nat) ^ k" by simp
  have up: "?r \<le> unat n + 2 ^ k - 1" by simp
  then have lt: "?r < unat n + 2 ^ k" using p by linarith
  have lo: "unat n \<le> ?r"
  proof -
    have "unat n + 2 ^ k - 1 = ?r + (unat n + 2 ^ k - 1) mod 2 ^ k" by (simp only: div_mult_mod_eq)
    moreover have "(unat n + 2 ^ k - 1) mod 2 ^ k < 2 ^ k" using p by simp
    ultimately show ?thesis by linarith
  qed
  have "?r < 2 ^ 32" using up assms(2) p by linarith
  moreover have "unat (page_round (2 ^ k) n) = ?r"
    by (rule page_round_nat) (use assms in simp_all)
  ultimately have "unat (ucast (page_round (2 ^ k) n) :: u32) = ?r"
    by (simp add: unsigned_ucast_eq take_bit_nat_eq_self)
  then show ?thesis using lo lt by simp
qed

theorem image_map_size_covers_witness:
  "unat (12345 :: u64) \<le> unat (ucast (page_round 4096 12345) :: u32) \<and>
   unat (ucast (page_round 4096 12345) :: u32) < 12345 + 4096"
  using image_map_size_covers [of 12 12345] by simp

text \<open>A kernel that has the sample image in an executable file of 128 bytes.\<close>

definition image_kernel :: "unit kernel" where
  "image_kernel q x =
     (case q of
        Malloc _ \<Rightarrow> (reply_ok 0x5000, x)
      | Open _ _ \<Rightarrow> (reply_ok 3, x)
      | Fstat _ \<Rightarrow> (reply_words 0 [0x1ED, 0, 128], x)
      | MmapPrivate _ _ \<Rightarrow> (reply_ok 4096, sample_mem, snd x)
      | _ \<Rightarrow> (reply_ok 0, x))"

lemma sample_toe_ear:
  assumes "mem e = sample_mem" "elf_image h = 4096"
  shows "base_spe_toe_ear K pb h e = Some (0, h, e)"
proof -
  have "sample_mem 4096 = Some 0x7F" using sample_mem_image [of 0] by (simp add: sample_elf_def)
  then have "toe_measure sample_mem 4180 4096 0 (Suc 0) = Some 0"
    by (simp add: sample_shdr_loaded sample_shdr_def str_toe_def)
  then show ?thesis using assms
    by (simp add: base_spe_toe_ear_def sample_fields sample_shdr_loaded del: toe_measure.simps)
      (simp add: sample_shdr_def del: toe_measure.simps)
qed

lemma image_kernel_open:
  "\<exists>e'. base_spe_image_open image_kernel 8 4096 ''spu.elf'' (start_env Map.empty ()) =
    Some (Some (0x5000, \<lparr>handle_size = 24, elf_image = 4096, toe_shadow = NULL, map_size = 4096\<rparr>), e')"
proof -
  have v: "check_spe_elf 4096 e = Some (0, e)" if "mem e = sample_mem" for e :: "unit env"
    using check_valid_header [of e 4096] sample_valid that by simp
  show ?thesis
    by (simp add: base_spe_image_open_def image_check_def base_spe_verify_spe_elf_image_def sys_rv_def
        sys_def image_kernel_def sample_simps ptr_of_def st_mode_def st_size_def first_word_def
        page_round_def v sample_toe_ear)
qed

theorem image_open_close_balanced_witness:
  "\<exists>r e'. base_spe_image_open image_kernel 8 4096 ''spu.elf'' (start_env Map.empty ()) = Some (r, e') \<and>
    r \<noteq> None \<and> ledgers (snd (base_spe_image_close image_kernel r e')) = ({#}, {#}, {#})"
proof -
  obtain e' where o: "base_spe_image_open image_kernel 8 4096 ''spu.elf'' (start_env Map.empty ()) =
    Some (Some (0x5000, \<lparr>handle_size = 24, elf_image = 4096, toe_shadow = NULL, map_size = 4096\<rparr>), e')"
    using image_kernel_open by blast
  moreover have "ledgers (start_env Map.empty ()) = ({#}, {#}, {#})"
    by (simp add: ledgers_def start_env_def open_fds_def live_maps_def live_heap_def)
  ultimately show ?thesis using image_open_close_balanced [OF o] by auto
qed

end
