(* ===== verification/Spe_Fds.thy ===== *)
theory Spe_Fds
  imports Spe_Types
begin

unbundle bit_operations_syntax

text \<open>
  The file descriptors of a context (\<open>spebase/create.c\<close>, the functions from \<open>spe_fd_attr\<close> to
  \<open>_base_spe_close_if_open\<close>): each mailbox, signal or DMA file of the SPU's spufs directory is
  opened on its first use and reference counted, under a mutex of its own.

  The contract \<open>fd_source\<close> says what the mailbox, DMA and event code relies on; it is
  interpreted on the model of the code.
\<close>

section \<open>The code\<close>

fun spe_fd_attr :: "fd_name \<Rightarrow> string \<times> int" where
  "spe_fd_attr FD_MBOX = (''mbox'', O_RDONLY)"
| "spe_fd_attr FD_MBOX_STAT = (''mbox_stat'', O_RDONLY)"
| "spe_fd_attr FD_IBOX = (''ibox'', O_RDONLY)"
| "spe_fd_attr FD_IBOX_NB = (''ibox'', O_RDONLY + O_NONBLOCK)"
| "spe_fd_attr FD_IBOX_STAT = (''ibox_stat'', O_RDONLY)"
| "spe_fd_attr FD_WBOX = (''wbox'', O_WRONLY)"
| "spe_fd_attr FD_WBOX_NB = (''wbox'', O_WRONLY + O_NONBLOCK)"
| "spe_fd_attr FD_WBOX_STAT = (''wbox_stat'', O_RDONLY)"
| "spe_fd_attr FD_SIG1 = (''signal1'', O_WRONLY)"
| "spe_fd_attr FD_SIG2 = (''signal2'', O_WRONLY)"
| "spe_fd_attr FD_MFC = (''mfc'', O_RDWR)"
| "spe_fd_attr FD_MSS = (''mss'', O_RDWR)"

definition base_spe_context_lock :: "fd_name \<Rightarrow> 'w env \<Rightarrow> 'w env" where
  "base_spe_context_lock f e = emit (Lock (FdLock (fd_index f))) e"

definition base_spe_context_unlock :: "fd_name \<Rightarrow> 'w env \<Rightarrow> 'w env" where
  "base_spe_context_unlock f e = emit (Unlock (FdLock (fd_index f))) e"

definition bump_refcount :: "int \<Rightarrow> fd_name \<Rightarrow> spe_context \<Rightarrow> spe_context" where
  "bump_refcount d f c =
     c\<lparr>spe_fds_refcount := (spe_fds_refcount c)(f := spe_fds_refcount c f + d)\<rparr>"

definition set_fd :: "int \<Rightarrow> fd_name \<Rightarrow> spe_context \<Rightarrow> spe_context" where
  "set_fd n f c = c\<lparr>spe_fds_array := (spe_fds_array c)(f := n)\<rparr>"

definition base_spe_open_if_closed ::
  "'w kernel \<Rightarrow> spe_context \<Rightarrow> fd_name \<Rightarrow> bool \<Rightarrow> 'w env \<Rightarrow> int \<times> spe_context \<times> 'w env" where
  "base_spe_open_if_closed K c f locked e =
     (let e1 = (if locked then e else base_spe_context_lock f e);
          (c2, e2) =
            (if spe_fds_array c f \<noteq> -1 then (bump_refcount 1 f c, e1)
             else
               (let (n, e') = sys_rv K (Openat (fd_spe_dir c) (fst (spe_fd_attr f))
                                (snd (spe_fd_attr f))) e1;
                    c1 = set_fd n f c
                in (if n > 0 then bump_refcount 1 f c1 else c1, e')));
          e3 = (if locked then e2 else base_spe_context_unlock f e2)
      in (spe_fds_array c2 f, c2, e3))"

definition base_spe_close_if_open ::
  "'w kernel \<Rightarrow> spe_context \<Rightarrow> fd_name \<Rightarrow> 'w env \<Rightarrow> spe_context \<times> 'w env" where
  "base_spe_close_if_open K c f e =
     (let e1 = base_spe_context_lock f e;
          (c2, e2) =
            (if spe_fds_array c f \<noteq> -1 \<and> spe_fds_refcount c f = 1 then
               (let c1 = bump_refcount (-1) f c;
                    (_, e') = sys_rv K (Close (spe_fds_array c1 f)) e1
                in (set_fd (-1) f c1, e'))
             else if spe_fds_refcount c f > 0 then (bump_refcount (-1) f c, e1)
             else (c, e1))
      in (c2, base_spe_context_unlock f e2))"

text \<open>Any number of threads acquire and release files of one context; the mutexes order them.\<close>

datatype fd_op = Acquire fd_name | Release fd_name

fun fd_step :: "'w kernel \<Rightarrow> fd_op \<Rightarrow> spe_context \<times> 'w env \<Rightarrow> spe_context \<times> 'w env" where
  "fd_step K (Acquire f) (c, e) = snd (base_spe_open_if_closed K c f False e)"
| "fd_step K (Release f) (c, e) = base_spe_close_if_open K c f e"

definition fd_run :: "'w kernel \<Rightarrow> fd_op list \<Rightarrow> spe_context \<times> 'w env \<Rightarrow> spe_context \<times> 'w env" where
  "fd_run K ops s = fold (fd_step K) ops s"

section \<open>The invariant\<close>

text \<open>A file is closed with no user, or open with at least one.\<close>

definition fd_inv :: "spe_context \<Rightarrow> bool" where
  "fd_inv c \<longleftrightarrow> (\<forall>f. (spe_fds_array c f = -1 \<and> spe_fds_refcount c f = 0) \<or>
                    (spe_fds_array c f > 0 \<and> spe_fds_refcount c f > 0))"

lemma fd_invD:
  "fd_inv c \<Longrightarrow> (spe_fds_array c f = -1 \<and> spe_fds_refcount c f = 0) \<or>
     (spe_fds_array c f > 0 \<and> spe_fds_refcount c f > 0)"
  by (simp add: fd_inv_def)

text \<open>\<open>openat\<close> fails with -1 or returns a descriptor other than 0 (descriptor 0 is in use).\<close>

definition openat_positive :: "'w kernel \<Rightarrow> bool" where
  "openat_positive K \<longleftrightarrow>
     (\<forall>d s m x. rv (fst (K (Openat d s m) x)) = -1 \<or> rv (fst (K (Openat d s m) x)) > 0)"

text \<open>The descriptors the context holds open.\<close>

definition held_fds :: "spe_context \<Rightarrow> int multiset" where
  "held_fds c = mset (filter (\<lambda>n. 0 \<le> n) (map (spe_fds_array c) all_fd_names))"

lemma fd_context_simps [simp]:
  "spe_fds_array (bump_refcount d f c) = spe_fds_array c"
  "spe_fds_refcount (bump_refcount d f c) g = spe_fds_refcount c g + (if g = f then d else 0)"
  "spe_fds_array (set_fd n f c) = (spe_fds_array c)(f := n)"
  "spe_fds_refcount (set_fd n f c) = spe_fds_refcount c"
  "fd_spe_dir (bump_refcount d f c) = fd_spe_dir c" "fd_spe_dir (set_fd n f c) = fd_spe_dir c"
  "flags (bump_refcount d f c) = flags c" "flags (set_fd n f c) = flags c"
  by (auto simp: bump_refcount_def set_fd_def)

lemma sys_rv_openat:
  assumes "openat_positive K" "sys_rv K (Openat d s m) e = (n, e')"
  shows "n = -1 \<or> n > 0"
proof -
  from assms(2) have "n = rv (fst (K (Openat d s m) (mem e, world e)))"
    by (auto simp: sys_rv_def sys_def split: prod.splits)
  with assms(1) show ?thesis by (simp add: openat_positive_def)
qed

lemma held_set_fd:
  "held_fds (set_fd n f c) + (if 0 \<le> spe_fds_array c f then {#spe_fds_array c f#} else {#}) =
   held_fds c + (if 0 \<le> n then {#n#} else {#})"
  by (cases f) (simp_all add: held_fds_def)

lemma held_bump [simp]: "held_fds (bump_refcount d f c) = held_fds c"
  by (simp add: held_fds_def)

text \<open>\<open>ledger M c e\<close>: the trace leaves open what the context holds and the descriptors \<open>M\<close>.\<close>

definition ledger :: "int multiset \<Rightarrow> spe_context \<Rightarrow> 'w env \<Rightarrow> bool" where
  "ledger M c e \<longleftrightarrow> open_fds (trace e) = M + held_fds c"

lemma open_fds_emit [simp]: "open_fds (trace (emit (Lock m) e)) = open_fds (trace e)"
  "open_fds (trace (emit (Unlock m) e)) = open_fds (trace e)"
  by (simp_all add: resource_simps)

lemma open_if_closed_cases:
  assumes "base_spe_open_if_closed K c f False e = (n, c', e')"
  obtains (reuse) "spe_fds_array c f \<noteq> -1" "n = spe_fds_array c f" "c' = bump_refcount 1 f c"
      "trace e' = trace e @ [(Lock (FdLock (fd_index f)), 0), (Unlock (FdLock (fd_index f)), 0)]"
  | (opened) "spe_fds_array c f = -1"
      "c' = (if n > 0 then bump_refcount 1 f (set_fd n f c) else set_fd n f c)"
      "trace e' = trace e @ [(Lock (FdLock (fd_index f)), 0),
         (Openat (fd_spe_dir c) (fst (spe_fd_attr f)) (snd (spe_fd_attr f)), n),
         (Unlock (FdLock (fd_index f)), 0)]"
      "\<exists>e1 e2. sys_rv K (Openat (fd_spe_dir c) (fst (spe_fd_attr f)) (snd (spe_fd_attr f))) e1
          = (n, e2)"
proof (cases "spe_fds_array c f = -1")
  case False
  with assms show thesis
    by (intro reuse)
      (auto simp: base_spe_open_if_closed_def base_spe_context_lock_def
        base_spe_context_unlock_def)
next
  case True
  obtain n' e2 where r: "sys_rv K (Openat (fd_spe_dir c) (fst (spe_fd_attr f))
      (snd (spe_fd_attr f))) (base_spe_context_lock f e) = (n', e2)"
    by fastforce
  note t = sys_rv_trace [OF r]
  have "n = n'" and "c' = (if n > 0 then bump_refcount 1 f (set_fd n f c) else set_fd n f c)"
    and "e' = base_spe_context_unlock f e2"
    using assms True r by (auto simp: base_spe_open_if_closed_def Let_def)
  with True r t show thesis
    by (intro opened) (auto simp: base_spe_context_lock_def base_spe_context_unlock_def)
qed

lemma close_if_open_cases:
  assumes "base_spe_close_if_open K c f e = (c', e')"
  obtains (last) "spe_fds_array c f \<noteq> -1" "spe_fds_refcount c f = 1"
      "c' = set_fd (-1) f (bump_refcount (-1) f c)"
      "\<exists>r. trace e' = trace e @ [(Lock (FdLock (fd_index f)), 0), (Close (spe_fds_array c f), r),
         (Unlock (FdLock (fd_index f)), 0)]"
  | (drop) "\<not> (spe_fds_array c f \<noteq> -1 \<and> spe_fds_refcount c f = 1)"
      "c' = (if spe_fds_refcount c f > 0 then bump_refcount (-1) f c else c)"
      "trace e' = trace e @ [(Lock (FdLock (fd_index f)), 0), (Unlock (FdLock (fd_index f)), 0)]"
proof (cases "spe_fds_array c f \<noteq> -1 \<and> spe_fds_refcount c f = 1")
  case False
  with assms show thesis
    by (intro drop)
      (auto simp: base_spe_close_if_open_def base_spe_context_lock_def
        base_spe_context_unlock_def Let_def split: if_splits)
next
  case True
  obtain r e2 where r: "sys_rv K (Close (spe_fds_array c f)) (base_spe_context_lock f e) = (r, e2)"
    by fastforce
  with sys_rv_trace [OF r] True assms show thesis
    by (intro last)
      (auto simp: base_spe_close_if_open_def base_spe_context_lock_def
        base_spe_context_unlock_def Let_def)
qed

section \<open>Every operation keeps the invariant and the ledger\<close>

lemma open_if_closed_inv:
  assumes "openat_positive K" "fd_inv c" "base_spe_open_if_closed K c f False e = (n, c', e')"
  shows "fd_inv c'"
  using assms(3)
proof (cases rule: open_if_closed_cases)
  case reuse
  with assms(2) show ?thesis by (auto simp: fd_inv_def)
next
  case opened
  from opened(4) assms(1) have "n = -1 \<or> n > 0" by (auto dest: sys_rv_openat)
  moreover from fd_invD [OF assms(2), of f] opened(1) have "spe_fds_refcount c f = 0" by auto
  ultimately show ?thesis using assms(2) opened by (auto simp: fd_inv_def)
qed

lemma close_if_open_inv:
  assumes "fd_inv c" "base_spe_close_if_open K c f e = (c', e')"
  shows "fd_inv c'"
  using assms(2)
proof (cases rule: close_if_open_cases)
  case drop
  show ?thesis unfolding fd_inv_def
  proof
    fix g
    show "(spe_fds_array c' g = -1 \<and> spe_fds_refcount c' g = 0) \<or>
        (spe_fds_array c' g > 0 \<and> spe_fds_refcount c' g > 0)"
      using fd_invD [OF assms(1), of g] fd_invD [OF assms(1), of f] drop(1,2) by auto
  qed
qed (use assms(1) in \<open>auto simp: fd_inv_def\<close>)

lemma open_if_closed_ledger:
  assumes "ledger M c e" "base_spe_open_if_closed K c f False e = (n, c', e')"
  shows "ledger M c' e'"
  using assms(2)
proof (cases rule: open_if_closed_cases)
  case reuse
  with assms(1) show ?thesis by (simp add: ledger_def resource_simps)
next
  case opened
  with assms(1) held_set_fd [of n f c] show ?thesis
    by (auto simp: ledger_def resource_simps split: if_splits)
qed

text \<open>
  The descriptors alone need neither the counts nor a non-zero \<open>openat\<close>: whatever the counts are,
  each descriptor of the table is -1 or one the context holds open. \<open>openat\<close> fails with -1 or
  returns a descriptor, 0 included.
\<close>

definition openat_result :: "'w kernel \<Rightarrow> bool" where
  "openat_result K \<longleftrightarrow>
     (\<forall>d s m x. rv (fst (K (Openat d s m) x)) = -1 \<or> 0 \<le> rv (fst (K (Openat d s m) x)))"

definition fd_values :: "spe_context \<Rightarrow> bool" where
  "fd_values c \<longleftrightarrow> (\<forall>f. spe_fds_array c f = -1 \<or> 0 \<le> spe_fds_array c f)"

lemma sys_rv_openat_result:
  assumes "openat_result K" "sys_rv K (Openat d s m) e = (n, e')"
  shows "n = -1 \<or> 0 \<le> n"
proof -
  from assms(2) have "n = rv (fst (K (Openat d s m) (mem e, world e)))"
    by (auto simp: sys_rv_def sys_def split: prod.splits)
  with assms(1) show ?thesis by (simp add: openat_result_def)
qed

lemma open_if_closed_values:
  assumes "openat_result K" "fd_values c" "base_spe_open_if_closed K c f False e = (n, c', e')"
  shows "fd_values c'"
  using assms(3)
proof (cases rule: open_if_closed_cases)
  case opened
  from opened(4) assms(1) have "n = -1 \<or> 0 \<le> n" by (auto dest: sys_rv_openat_result)
  with assms(2) opened show ?thesis by (auto simp: fd_values_def)
qed (use assms(2) in \<open>simp add: fd_values_def\<close>)

lemma close_if_open_values:
  assumes "fd_values c" "base_spe_close_if_open K c f e = (c', e')"
  shows "fd_values c'"
  using assms(2) by (cases rule: close_if_open_cases) (use assms(1) in \<open>auto simp: fd_values_def\<close>)

lemma close_values_ledger:
  assumes "fd_values c" "ledger M c e" "base_spe_close_if_open K c f e = (c', e')"
  shows "ledger M c' e'"
  using assms(3)
proof (cases rule: close_if_open_cases)
  case last
  with assms(1) have "0 \<le> spe_fds_array c f" by (auto simp: fd_values_def)
  with held_set_fd [of "-1" f "bump_refcount (-1) f c"]
  have "held_fds c = add_mset (spe_fds_array c f) (held_fds c')" by (simp add: last(3))
  with last(4) assms(2) show ?thesis by (auto simp: ledger_def resource_simps)
next
  case drop
  with assms(2) show ?thesis by (auto simp: ledger_def resource_simps)
qed

lemma fd_inv_values: "fd_inv c \<Longrightarrow> fd_values c"
  by (auto simp: fd_inv_def fd_values_def)

lemma close_if_open_ledger:
  assumes "fd_inv c" "ledger M c e" "base_spe_close_if_open K c f e = (c', e')"
  shows "ledger M c' e'"
  using close_values_ledger [OF fd_inv_values [OF assms(1)] assms(2,3)] .

lemma fd_step_values:
  assumes "openat_result K" "fd_values c" "ledger M c e" "fd_step K x (c, e) = (c', e')"
  shows "fd_values c' \<and> ledger M c' e'"
proof (cases x)
  case (Acquire f)
  then obtain n where "base_spe_open_if_closed K c f False e = (n, c', e')"
    using assms(4) by (cases "base_spe_open_if_closed K c f False e") auto
  with assms show ?thesis using open_if_closed_values open_if_closed_ledger by blast
next
  case (Release f)
  with assms show ?thesis using close_if_open_values close_values_ledger by fastforce
qed

lemma fd_step_inv:
  assumes "openat_positive K" "fd_inv c" "ledger M c e" "fd_step K x (c, e) = (c', e')"
  shows "fd_inv c' \<and> ledger M c' e'"
proof (cases x)
  case (Acquire f)
  then obtain n where "base_spe_open_if_closed K c f False e = (n, c', e')"
    using assms(4) by (cases "base_spe_open_if_closed K c f False e") auto
  with assms show ?thesis using open_if_closed_inv open_if_closed_ledger by blast
next
  case (Release f)
  with assms show ?thesis using close_if_open_inv close_if_open_ledger by fastforce
qed

section \<open>The contract of a reference counted file table\<close>

text \<open>
  What the callers of the descriptor table rely on: acquiring adds a user and returns the file
  all users share, releasing takes one away, and the file is open exactly while it has users.
\<close>

locale fd_source =
  fixes acq :: "'f \<Rightarrow> 's \<Rightarrow> int \<times> 's"
    and rel :: "'f \<Rightarrow> 's \<Rightarrow> 's"
    and users :: "'s \<Rightarrow> 'f \<Rightarrow> int"
    and fd_of :: "'s \<Rightarrow> 'f \<Rightarrow> int"
    and ok :: "'s \<Rightarrow> bool"
  assumes users_nonneg: "ok s \<Longrightarrow> 0 \<le> users s f"
    and closed_iff: "ok s \<Longrightarrow> fd_of s f = -1 \<longleftrightarrow> users s f = 0"
    and acq_ok: "ok s \<Longrightarrow> ok (snd (acq f s))"
    and rel_ok: "ok s \<Longrightarrow> ok (rel f s)"
    and acq_file: "fst (acq f s) = fd_of (snd (acq f s)) f"
    and acq_same_file: "ok s \<Longrightarrow> 0 < users s g \<Longrightarrow> fd_of (snd (acq f s)) g = fd_of s g"
    and acq_users: "ok s \<Longrightarrow> users (snd (acq f s)) g =
        users s g + (if g = f \<and> fst (acq f s) \<noteq> -1 then 1 else 0)"
    and rel_users: "ok s \<Longrightarrow> users (rel f s) g =
        users s g - (if g = f \<and> 0 < users s f then 1 else 0)"
begin

lemma acq_rel_users: "ok s \<Longrightarrow> fst (acq f s) \<noteq> -1 \<Longrightarrow> users (rel f (snd (acq f s))) g = users s g"
  using users_nonneg [of s f] by (simp add: rel_users acq_ok acq_users)

lemma acq_shared: "ok s \<Longrightarrow> 0 < users s f \<Longrightarrow> fst (acq f s) = fd_of s f \<and> fd_of s f \<noteq> -1"
  using closed_iff [of s f] by (simp add: acq_file acq_same_file)

lemma acq_pow:
  assumes "ok s" "0 < users s f"
  shows "ok (((\<lambda>x. snd (acq f x)) ^^ n) s) \<and> users (((\<lambda>x. snd (acq f x)) ^^ n) s) f = users s f + int n \<and>
    fd_of (((\<lambda>x. snd (acq f x)) ^^ n) s) f = fd_of s f"
proof (induction n)
  case 0
  with assms(1) show ?case by simp
next
  case (Suc n)
  then have u: "0 < users (((\<lambda>x. snd (acq f x)) ^^ n) s) f" using assms(2) by simp
  with Suc acq_shared [of "((\<lambda>x. snd (acq f x)) ^^ n) s" f] show ?case
    by (simp add: acq_ok acq_users acq_same_file)
qed

lemma rel_pow:
  assumes "ok s" "int n \<le> users s f"
  shows "ok ((rel f ^^ n) s) \<and> users ((rel f ^^ n) s) f = users s f - int n"
  using assms(2)
proof (induction n)
  case (Suc n)
  then show ?case by (simp add: rel_ok rel_users)
qed (use assms(1) in simp)

text \<open>Nested use: a file opened by the first of \<open>n + 1\<close> users is closed by the last release.\<close>

lemma nested_use:
  assumes "ok s" "users s f = 0" "fst (acq f s) \<noteq> -1"
  shows "k \<le> n \<Longrightarrow> fd_of ((rel f ^^ k) (((\<lambda>x. snd (acq f x)) ^^ n) (snd (acq f s)))) f \<noteq> -1"
    and "fd_of ((rel f ^^ Suc n) (((\<lambda>x. snd (acq f x)) ^^ n) (snd (acq f s)))) f = -1"
proof -
  let ?t = "((\<lambda>x. snd (acq f x)) ^^ n) (snd (acq f s))"
  have u1: "users (snd (acq f s)) f = 1" and "ok (snd (acq f s))"
    using assms by (simp_all add: acq_users acq_ok)
  then have t: "ok ?t" "users ?t f = 1 + int n" using acq_pow [of "snd (acq f s)" f n] by auto
  show "fd_of ((rel f ^^ k) ?t) f \<noteq> -1" if "k \<le> n"
    using rel_pow [OF t(1), of k f] t(2) that closed_iff [of "(rel f ^^ k) ?t" f] by auto
  show "fd_of ((rel f ^^ Suc n) ?t) f = -1"
    using rel_pow [OF t(1), of "Suc n" f] t(2) closed_iff [of "(rel f ^^ Suc n) ?t" f] by auto
qed

end

text \<open>The contract on the code: the state is a context and an environment.\<close>

definition fd_acquire :: "'w kernel \<Rightarrow> fd_name \<Rightarrow> spe_context \<times> 'w env \<Rightarrow> int \<times> spe_context \<times> 'w env" where
  "fd_acquire K f s = base_spe_open_if_closed K (fst s) f False (snd s)"

definition fd_release :: "'w kernel \<Rightarrow> fd_name \<Rightarrow> spe_context \<times> 'w env \<Rightarrow> spe_context \<times> 'w env" where
  "fd_release K f s = base_spe_close_if_open K (fst s) f (snd s)"

definition fd_ok :: "'w kernel \<Rightarrow> spe_context \<times> 'w env \<Rightarrow> bool" where
  "fd_ok K s \<longleftrightarrow> openat_positive K \<and> fd_inv (fst s)"

interpretation fds: fd_source "fd_acquire K" "fd_release K" "\<lambda>s. spe_fds_refcount (fst s)"
    "\<lambda>s. spe_fds_array (fst s)" "fd_ok K" for K :: "'w kernel"
proof (unfold_locales, goal_cases)
  case (1 s f)
  with fd_invD [of "fst s" f] show ?case by (auto simp: fd_ok_def)
next
  case (2 s f)
  with fd_invD [of "fst s" f] show ?case by (auto simp: fd_ok_def)
next
  case (3 s f)
  then show ?case using open_if_closed_inv [of K "fst s" f "snd s"]
    by (cases "fd_acquire K f s") (auto simp: fd_ok_def fd_acquire_def)
next
  case (4 s f)
  then show ?case using close_if_open_inv [of "fst s" K f "snd s"]
    by (cases "fd_release K f s") (auto simp: fd_ok_def fd_release_def)
next
  case (5 f s)
  show ?case
    by (auto simp: fd_acquire_def base_spe_open_if_closed_def Let_def split: prod.splits)
next
  case (6 s g f)
  obtain n c e where a: "base_spe_open_if_closed K (fst s) f False (snd s) = (n, c, e)"
    by (cases "fd_acquire K f s") (auto simp: fd_acquire_def)
  from a 6 fd_invD [of "fst s" g] show ?case
    by (cases rule: open_if_closed_cases) (auto simp: a fd_acquire_def fd_ok_def)
next
  case (7 s f g)
  obtain n c e where a: "base_spe_open_if_closed K (fst s) f False (snd s) = (n, c, e)"
    by (cases "fd_acquire K f s") (auto simp: fd_acquire_def)
  from a 7 show ?case
    by (cases rule: open_if_closed_cases)
      (auto simp: a fd_acquire_def fd_ok_def dest: sys_rv_openat)
next
  case (8 s f g)
  obtain c e where a: "base_spe_close_if_open K (fst s) f (snd s) = (c, e)" by fastforce
  from a 8 fd_invD [of "fst s" f] show ?case
    by (cases rule: close_if_open_cases) (auto simp: a fd_release_def fd_ok_def)
qed

section \<open>Properties\<close>

lemma fd_run_Cons: "fd_run K (x # xs) s = fd_run K xs (fd_step K x s)"
  by (simp add: fd_run_def)

lemma fd_run_Nil: "fd_run K [] s = s"
  by (simp add: fd_run_def)

text \<open>
  C2: whatever sequence of acquisitions and releases the threads of a program perform on a
  context, a file is open exactly while it has users, and the descriptors left open by the
  calls made are exactly those the context holds (and the ones that were open before): nothing
  is leaked, nothing is closed twice. This needs \<open>openat\<close> never to return descriptor 0.
\<close>

theorem fd_run_no_leak:
  assumes "openat_positive K" "fd_inv c" "ledger M c e" "fd_run K ops (c, e) = (c', e')"
  shows "fd_inv c' \<and> ledger M c' e'"
  using assms(2-4)
proof (induction ops arbitrary: c e)
  case Nil
  then show ?case by (simp add: fd_run_Nil)
next
  case (Cons x ops)
  obtain c1 e1 where s: "fd_step K x (c, e) = (c1, e1)" by fastforce
  have "fd_run K ops (c1, e1) = (c', e')" using Cons.prems(3) s by (simp add: fd_run_Cons)
  with fd_step_inv [OF assms(1) Cons.prems(1,2) s] show ?case using Cons.IH by blast
qed

theorem fd_run_no_leak_witness:
  "case fd_run (const_kernel (reply_ok 5))
      [Acquire FD_MBOX, Acquire FD_WBOX, Acquire FD_MBOX, Release FD_MBOX, Release FD_WBOX]
      (blank_context, start_env Map.empty ()) of
    (c', e') \<Rightarrow> fd_inv c' \<and> ledger {#} c' e'"
proof -
  have "openat_positive (const_kernel (reply_ok 5))"
    by (simp add: openat_positive_def sample_simps)
  moreover have "fd_inv blank_context" by (simp add: fd_inv_def blank_context_def)
  moreover have "ledger {#} blank_context (start_env Map.empty ())"
    by (simp add: ledger_def held_fds_def blank_context_def sample_simps open_fds_def)
  ultimately show ?thesis
    using fd_run_no_leak [of "const_kernel (reply_ok 5)" blank_context "{#}"
        "start_env Map.empty ()"] by fast
qed

text \<open>
  a file that is not in use and can be opened stays open through \<open>n\<close> further uses and any
  \<open>n\<close> releases, and the release of the last user closes it.
\<close>

theorem fd_nested_use:
  assumes "openat_positive K" "fd_inv c" "spe_fds_array c f = -1"
    and "fst (fd_acquire K f (c, e)) \<noteq> -1" "k \<le> n"
  shows "spe_fds_array (fst ((fd_release K f ^^ Suc n)
      (((\<lambda>s. snd (fd_acquire K f s)) ^^ n) (snd (fd_acquire K f (c, e)))))) f = -1 \<and>
    spe_fds_array (fst ((fd_release K f ^^ k)
      (((\<lambda>s. snd (fd_acquire K f s)) ^^ n) (snd (fd_acquire K f (c, e)))))) f \<noteq> -1"
proof -
  have ok: "fd_ok K (c, e)" using assms(1,2) by (simp add: fd_ok_def)
  moreover have "spe_fds_refcount (fst (c, e)) f = 0"
    using fd_invD [OF assms(2), of f] assms(3) by auto
  ultimately show ?thesis
    using fds.nested_use [of K "(c, e)" f] assms(4,5) by blast
qed

theorem fd_nested_use_witness:
  "spe_fds_array (fst ((fd_release (const_kernel (reply_ok 7)) FD_IBOX ^^ Suc 1)
      (((\<lambda>s. snd (fd_acquire (const_kernel (reply_ok 7)) FD_IBOX s)) ^^ 1)
        (snd (fd_acquire (const_kernel (reply_ok 7)) FD_IBOX
          (blank_context, start_env Map.empty ())))))) FD_IBOX = -1"
proof (rule fd_nested_use [where k = 0, THEN conjunct1])
  show "openat_positive (const_kernel (reply_ok 7))"
    by (simp add: openat_positive_def sample_simps)
  show "fd_inv blank_context" by (simp add: fd_inv_def blank_context_def)
  show "spe_fds_array blank_context FD_IBOX = -1" by (simp add: blank_context_def)
  show "fst (fd_acquire (const_kernel (reply_ok 7)) FD_IBOX
      (blank_context, start_env Map.empty ())) \<noteq> -1"
    by (simp add: fd_acquire_def base_spe_open_if_closed_def sys_rv_def sys_def sample_simps
        blank_context_def base_spe_context_lock_def base_spe_context_unlock_def)
qed simp

text \<open>
  the test \<open>> 0\<close> on the descriptor \<open>openat\<close> returned takes descriptor 0 for a failure: the
  file stays open with no user counted, and releasing it makes no \<open>close\<close> request.
\<close>

theorem fd_zero_leaks:
  assumes "spe_fds_array c f = -1" "spe_fds_refcount c f = 0"
    and "base_spe_open_if_closed K c f False e = (0, c', e')"
    and "base_spe_close_if_open K c' f e' = (c'', e'')"
  shows "spe_fds_array c'' f = 0 \<and> spe_fds_refcount c'' f = 0 \<and>
    open_fds (trace e'') = open_fds (trace e) + {#0#}"
proof -
  from assms(3,1,2) have c': "c' = set_fd 0 f c"
    and t: "open_fds (trace e') = open_fds (trace e) + {#0#}"
    by (cases rule: open_if_closed_cases; simp add: resource_simps)+
  from assms(4) c' assms(2) have "c'' = c'" "open_fds (trace e'') = open_fds (trace e')"
    by (cases rule: close_if_open_cases; simp add: resource_simps)+
  then show ?thesis using c' t assms(2) by simp
qed

theorem fd_zero_leaks_witness:
  "case base_spe_open_if_closed (const_kernel (reply_ok 0)) blank_context FD_SIG1 False
      (start_env Map.empty ()) of
    (n, c', e') \<Rightarrow> n = 0 \<and>
      spe_fds_array (fst (base_spe_close_if_open (const_kernel (reply_ok 0)) c' FD_SIG1 e')) FD_SIG1
        = 0"
proof -
  obtain n c' e' where a: "base_spe_open_if_closed (const_kernel (reply_ok 0)) blank_context FD_SIG1
      False (start_env Map.empty ()) = (n, c', e')" by (metis prod_cases3)
  moreover have "n = 0" using a
    by (auto simp: base_spe_open_if_closed_def sys_rv_def sys_def sample_simps blank_context_def
        base_spe_context_lock_def base_spe_context_unlock_def set_fd_def Let_def)
  moreover obtain c'' e'' where b: "base_spe_close_if_open (const_kernel (reply_ok 0)) c' FD_SIG1 e'
      = (c'', e'')" by fastforce
  moreover have "spe_fds_array blank_context FD_SIG1 = -1"
    "spe_fds_refcount blank_context FD_SIG1 = 0" by (simp_all add: blank_context_def)
  ultimately show ?thesis using fd_zero_leaks [of blank_context FD_SIG1] by fastforce
qed

end
