(* ===== verification/Spe_Strings.thy ===== *)
theory Spe_Strings
  imports Spe_Prelude
begin

text \<open>
  The conversions of \<open>sprintf\<close> the library uses to build file names and identifiers: \<open>%i\<close>,
  \<open>%lu\<close> and \<open>%p\<close>, with the bounds on their length and the fact that they can be read back.
\<close>

section \<open>Digits\<close>

function digits :: "nat \<Rightarrow> nat \<Rightarrow> nat list" where
  "digits b n = (if b < 2 \<or> n < b then [n] else digits b (n div b) @ [n mod b])"
  by pat_completeness auto
termination
  by (relation "measure snd") auto

declare digits.simps [simp del]

definition digits_value :: "nat \<Rightarrow> nat list \<Rightarrow> nat" where
  "digits_value b ds = foldl (\<lambda>v d. v * b + d) 0 ds"

lemma digits_value_digits: "2 \<le> b \<Longrightarrow> digits_value b (digits b n) = n"
proof (induction b n rule: digits.induct)
  case (1 b n)
  then show ?case
    by (subst digits.simps) (simp add: digits_value_def)
qed

lemma digits_length: "2 \<le> b \<Longrightarrow> n < b ^ Suc k \<Longrightarrow> length (digits b n) \<le> Suc k"
proof (induction k arbitrary: n)
  case 0
  then show ?case by (subst digits.simps) simp
next
  case (Suc k)
  then have "n div b < b ^ Suc k" by (simp add: less_mult_imp_div_less mult.commute)
  then show ?case using Suc by (subst digits.simps) simp
qed

lemma digits_below: "2 \<le> b \<Longrightarrow> d \<in> set (digits b n) \<Longrightarrow> d < b"
proof (induction b n rule: digits.induct)
  case (1 b n)
  then show ?case by (subst (asm) digits.simps) (auto split: if_splits)
qed

section \<open>Conversions\<close>

definition digit_char :: "nat \<Rightarrow> char" where
  "digit_char d = ''0123456789abcdef'' ! d"

definition dec :: "nat \<Rightarrow> string" where
  "dec n = map digit_char (digits 10 n)"

definition dec_int :: "int \<Rightarrow> string" where
  "dec_int i = (if i < 0 then ''-'' @ dec (nat (- i)) else dec (nat i))"

text \<open>\<open>%p\<close> of a pointer that is not \<open>NULL\<close>.\<close>

definition ptr_string :: "addr \<Rightarrow> string" where
  "ptr_string a = ''0x'' @ map digit_char (digits 16 a)"

text \<open>The bytes of a C string, with its terminating NUL.\<close>

definition c_bytes :: "string \<Rightarrow> u8 list" where
  "c_bytes s = map of_char s @ [0]"

lemma digit_char_inj: "d < 16 \<Longrightarrow> d' < 16 \<Longrightarrow> digit_char d = digit_char d' \<longleftrightarrow> d = d'"
proof -
  have "distinct ''0123456789abcdef''" by simp
  then show "d < 16 \<Longrightarrow> d' < 16 \<Longrightarrow> digit_char d = digit_char d' \<longleftrightarrow> d = d'"
    unfolding digit_char_def by (subst nth_eq_iff_index_eq) simp_all
qed

lemma map_digit_char_inj:
  assumes "set xs \<subseteq> {..<16}" "set ys \<subseteq> {..<16}" "map digit_char xs = map digit_char ys"
  shows "xs = ys"
proof (rule map_inj_on [OF assms(3)])
  have "set xs \<union> set ys \<subseteq> {..<16}" using assms(1,2) by blast
  then show "inj_on digit_char (set xs \<union> set ys)"
    unfolding inj_on_def using digit_char_inj by blast
qed

lemma dec_inj: "dec m = dec n \<longleftrightarrow> m = n"
proof
  assume "dec m = dec n"
  then have "digits 10 m = digits 10 n"
    unfolding dec_def by (rule map_digit_char_inj [rotated 2]) (auto dest!: digits_below [rotated])
  then show "m = n" by (metis digits_value_digits one_le_numeral numeral_le_iff semiring_norm(68) semiring_norm(71))
qed simp

lemma dec_length: "n < 10 ^ Suc k \<Longrightarrow> length (dec n) \<le> Suc k"
  by (simp add: dec_def digits_length)

lemma dec_not_dash: "CHR ''-'' \<notin> set (dec n)"
proof -
  have "digit_char d \<noteq> CHR ''-''" if "d < 10" for d
  proof -
    have "digit_char d \<in> set ''0123456789abcdef''"
      using that unfolding digit_char_def by (intro nth_mem) simp
    then show ?thesis by auto
  qed
  then show ?thesis using digits_below [of 10] by (force simp: dec_def)
qed

lemma dec_int_length: "\<bar>i\<bar> < 10 ^ Suc k \<Longrightarrow> length (dec_int i) \<le> Suc (Suc k)"
proof -
  assume a: "\<bar>i\<bar> < 10 ^ Suc k"
  have "nat \<bar>i\<bar> < 10 ^ Suc k" using a by (simp add: nat_less_iff)
  from dec_length [OF this] show ?thesis by (auto simp: dec_int_def)
qed

lemma ptr_string_length: "a < 16 ^ Suc k \<Longrightarrow> length (ptr_string a) \<le> Suc k + 2"
  using digits_length [of 16 a k] by (simp add: ptr_string_def)

lemma c_bytes_length [simp]: "length (c_bytes s) = Suc (length s)"
  by (simp add: c_bytes_def)

end
