(* ===== verification/Spe_Load.thy ===== *)
theory Spe_Load
  imports Spe_Image Spe_Fds Spe_Strings
begin

unbundle bit_operations_syntax

text \<open>
  Loading a program into a context (\<open>spebase/load.c\<close>): directly into the local store, or, for
  an isolated context, by sending the address of the image to the loader kernel on the SPU
  through the mailbox; in the emulated mode the loader kernel itself is a program read once from
  a file (\<open>emulated_loader_program\<close>, whose static variable is the state \<open>loader_cache\<close>).
\<close>

section \<open>The code\<close>

definition SPE_EMULATED_LOADER_FILE :: string where
  "SPE_EMULATED_LOADER_FILE = ''/usr/lib/spe/emulated-loader.bin''"

type_synonym loader_cache = "(addr \<times> image_handle) option"

text \<open>The hook for the debugger does nothing (\<open>accessors.c\<close>).\<close>

definition spe_context_update_event :: "'w env \<Rightarrow> 'w env" where
  "spe_context_update_event e = e"

definition base_spe_program_load_complete :: "'w kernel \<Rightarrow> spe_context \<Rightarrow> 'w env \<Rightarrow> 'w env" where
  "base_spe_program_load_complete K c e =
     (case loaded_program c of
        None \<Rightarrow> e
      | Some program \<Rightarrow>
        if elf_image program = NULL then e
        else
          let (objfd, e1) = sys_rv K (Openat (fd_spe_dir c) ''object-id'' O_RDWR) e in
          if objfd < 0 then e1
          else
            let (_, e2) = sys_rv K (Write objfd (c_bytes (ptr_string (elf_image program)))) e1;
                (_, e3) = sys_rv K (Close objfd) e2
            in spe_context_update_event e3)"

text \<open>Three words are written, one after the other, until one write is not complete.\<close>

fun write_words :: "'w kernel \<Rightarrow> int \<Rightarrow> u32 list \<Rightarrow> 'w env \<Rightarrow> bool \<times> 'w env" where
  "write_words K fd [] e = (True, e)"
| "write_words K fd (w # ws) e =
     (let (n, e1) = sys_rv K (Write fd (bytes_of_word w)) e in
      if n \<noteq> 4 then (False, e1) else write_words K fd ws e1)"

definition write_isolated_load_params ::
  "'w kernel \<Rightarrow> spe_context \<Rightarrow> u32 \<Rightarrow> u32 \<Rightarrow> u32 \<Rightarrow> 'w env \<Rightarrow> int \<times> spe_context \<times> 'w env" where
  "write_isolated_load_params K c addr_h addr_l sz e =
     (let (fd, c1, e1) = base_spe_open_if_closed K c FD_WBOX False e in
      if fd < 0 then (-1, c1, e1)
      else
        let (ok, e2) = write_words K fd [addr_h, addr_l, sz] e1 in
        (if ok then 0 else -1, c1, e2))"

definition spe_start_isolated_app ::
  "'w kernel \<Rightarrow> spe_context \<Rightarrow> spe_program_handle \<Rightarrow> 'w env \<Rightarrow> (int \<times> spe_context \<times> 'w env) option"
where
  "spe_start_isolated_app K c handle e = do {
     (r, out, e1) \<leftarrow> base_spe_parse_isolated_elf handle e;
     (case out of
        None \<Rightarrow> Some (- ENOEXEC, c, set_errno ENOEXEC e1)
      | Some (a, sz) \<Rightarrow>
        if a mod 16 \<noteq> 0 then Some (- EINVAL, c, set_errno EINVAL e1)
        else
          let (bad, c1, e2) = write_isolated_load_params K c (of_nat (a div 2 ^ 32)) (of_nat a) sz e1
          in if bad \<noteq> 0 then Some (- EIO, c1, set_errno EIO e2) else Some (0, c1, e2)) }"

text \<open>\<open>loader_handle\<close> reads the program handle inside an image handle.\<close>

definition loader_handle :: "image_handle \<Rightarrow> spe_program_handle" where
  "loader_handle ih = \<lparr>handle_size = handle_size ih, elf_image = elf_image ih, toe_shadow = toe_shadow ih\<rparr>"

definition emulated_loader_program ::
  "'w kernel \<Rightarrow> nat \<Rightarrow> u64 \<Rightarrow> loader_cache \<Rightarrow> 'w env \<Rightarrow> (loader_cache \<times> 'w env) option" where
  "emulated_loader_program K ptr_bytes ps cache e =
     (case cache of
        Some x \<Rightarrow> Some (Some x, e)
      | None \<Rightarrow> base_spe_image_open K ptr_bytes ps SPE_EMULATED_LOADER_FILE e)"

definition base_spe_emulated_loader_present ::
  "'w kernel \<Rightarrow> nat \<Rightarrow> u64 \<Rightarrow> loader_cache \<Rightarrow> 'w env \<Rightarrow> (bool \<times> loader_cache \<times> 'w env) option" where
  "base_spe_emulated_loader_present K ptr_bytes ps cache e = do {
     (cache1, e1) \<leftarrow> emulated_loader_program K ptr_bytes ps cache e;
     (case cache1 of
        None \<Rightarrow> Some (False, cache1, e1)
      | Some (_, ih) \<Rightarrow> do {
          (bad, e2) \<leftarrow> base_spe_verify_spe_elf_image (loader_handle ih) e1;
          Some (bad = 0, cache1, e2) }) }"

text \<open>The third component of the result is \<open>ld_info->entry\<close>, when it is written.\<close>

definition spe_start_emulated_isolated_app ::
  "'w kernel \<Rightarrow> nat \<Rightarrow> u64 \<Rightarrow> spe_context \<Rightarrow> spe_program_handle \<Rightarrow> loader_cache \<Rightarrow> 'w env \<Rightarrow>
   (int \<times> u32 option \<times> spe_context \<times> loader_cache \<times> 'w env) option"
where
  "spe_start_emulated_isolated_app K ptr_bytes ps c handle cache e = do {
     (cache1, e1) \<leftarrow> emulated_loader_program K ptr_bytes ps cache e;
     (case cache1 of
        None \<Rightarrow> Some (-1, None, c, cache1, e1)
      | Some (_, ih) \<Rightarrow> do {
          (rc, ent, e2) \<leftarrow> base_spe_load_spe_elf (loader_handle ih) (mem_mmap_base c) e1;
          if rc \<noteq> 0 then Some (rc, ent, c, cache1, e2)
          else do {
            (rc2, c1, e3) \<leftarrow> spe_start_isolated_app K c handle e2;
            Some (rc2, ent, c1, cache1, e3) } }) }"

text \<open>
  \<open>ld_info\<close> is a local variable of \<open>base_spe_program_load\<close>: \<open>junk\<close> is the value of its field
  \<open>entry\<close> when no call writes it.
\<close>

definition set_entries :: "u32 \<Rightarrow> spe_context \<Rightarrow> spe_context" where
  "set_entries w c = c\<lparr>entry := w, emulated_entry := w\<rparr>"

definition base_spe_program_load ::
  "'w kernel \<Rightarrow> nat \<Rightarrow> u64 \<Rightarrow> u32 \<Rightarrow> spe_context \<Rightarrow> spe_program_handle \<Rightarrow> loader_cache \<Rightarrow> 'w env \<Rightarrow>
   (int \<times> spe_context \<times> loader_cache \<times> 'w env) option"
where
  "base_spe_program_load K ptr_bytes ps junk c program cache e =
     (let c1 = c\<lparr>loaded_program := Some program\<rparr> in do {
        (rc, ent, c2, cache1, e1) \<leftarrow>
          (if has_flag (flags c1) SPE_ISOLATE then do {
             (rc, c2, e1) \<leftarrow> spe_start_isolated_app K c1 program e;
             Some (rc, None, c2, cache, e1) }
           else if has_flag (flags c1) SPE_ISOLATE_EMULATE then
             spe_start_emulated_isolated_app K ptr_bytes ps c1 program cache e
           else do {
             (rc, ent, e1) \<leftarrow> base_spe_load_spe_elf program (mem_mmap_base c1) e;
             Some (rc, ent, c1, cache,
               if rc = 0 then base_spe_program_load_complete K c1 e1 else e1) });
        if rc \<noteq> 0 then Some (-1, c2, cache1, e1)
        else Some (0, set_entries (case ent of None \<Rightarrow> junk | Some w \<Rightarrow> w) c2, cache1, e1) })"

section \<open>Facts\<close>

definition keeps_memory :: "'w kernel \<Rightarrow> sysreq \<Rightarrow> bool" where
  "keeps_memory K q \<longleftrightarrow> (\<forall>m w. fst (snd (K q (m, w))) = m)"

text \<open>Opening, writing and closing a file does not write the memory of the process.\<close>

definition file_calls_keep_memory :: "'w kernel \<Rightarrow> bool" where
  "file_calls_keep_memory K \<longleftrightarrow> (\<forall>d s m fd bs. keeps_memory K (Openat d s m) \<and>
     keeps_memory K (Write fd bs) \<and> keeps_memory K (Close fd))"

lemma sys_rv_mem: "keeps_memory K q \<Longrightarrow> sys_rv K q e = (n, e') \<Longrightarrow> mem e' = mem e"
  by (auto simp: sys_rv_def sys_def keeps_memory_def split: prod.splits) (metis fst_conv snd_conv)

lemma load_complete_mem:
  "file_calls_keep_memory K \<Longrightarrow> mem (base_spe_program_load_complete K c e) = mem e"
  by (auto simp: base_spe_program_load_complete_def file_calls_keep_memory_def Let_def
      spe_context_update_event_def dest!: sys_rv_mem [rotated] split: option.splits prod.splits)

lemma write_words_ok:
  "write_words K fd ws e = (True, e') \<Longrightarrow>
   trace e' = trace e @ map (\<lambda>w. (Write fd (bytes_of_word w), 4)) ws"
  by (induction ws arbitrary: e) (auto simp: Let_def split: prod.splits if_splits dest!: sys_rv_trace)

section \<open>Properties\<close>

text \<open>
  C17: loading a well formed image into a context that is not isolated succeeds, records the
  program and its entry point in the context, and leaves every segment, zero padded, in the
  local store at its address; nothing outside the segments is written.
\<close>

theorem program_load_correct:
  assumes plain: "plain_image (mem e) (elf_image p) (mem_mmap_base c) phs src shs"
    and map: "mapped (mem e) (mem_mmap_base c) LS_SIZE"
    and ent: "e_entry (mem e) (elf_image p) = Some ent"
    and mode: "\<not> has_flag (flags c) SPE_ISOLATE" "\<not> has_flag (flags c) SPE_ISOLATE_EMULATE"
    and K: "file_calls_keep_memory K"
  shows "\<exists>e'. base_spe_program_load K ptr_bytes ps junk c p cache e =
      Some (0, c\<lparr>loaded_program := Some p, entry := ent, emulated_entry := ent\<rparr>, cache, e') \<and>
    (\<forall>ph \<in> set (loadable phs).
       load_bytes (mem e') (mem_mmap_base c + unat (p_vaddr ph)) (unat (p_memsz ph)) =
       Some (segment_bytes ph (src ph))) \<and>
    same_outside (mem e) (mem e') (\<Union>ph \<in> set (loadable phs). seg_range (mem_mmap_base c) ph)"
proof -
  obtain m' where l: "base_spe_load_spe_elf p (mem_mmap_base c) e = Some (0, Some ent, e\<lparr>mem := m'\<rparr>)"
    and post: "\<forall>ph \<in> set (loadable phs). load_bytes m' (mem_mmap_base c + unat (p_vaddr ph))
        (unat (p_memsz ph)) = Some (segment_bytes ph (src ph))"
      "same_outside (mem e) m' (\<Union>ph \<in> set (loadable phs). seg_range (mem_mmap_base c) ph)"
    using load_spe_elf_ok [OF plain map ent] by blast
  let ?c1 = "c\<lparr>loaded_program := Some p\<rparr>"
  let ?e' = "base_spe_program_load_complete K ?c1 (e\<lparr>mem := m'\<rparr>)"
  have "base_spe_program_load K ptr_bytes ps junk c p cache e =
      Some (0, c\<lparr>loaded_program := Some p, entry := ent, emulated_entry := ent\<rparr>, cache, ?e')"
    using l mode by (simp add: base_spe_program_load_def set_entries_def Let_def)
  moreover have "mem ?e' = m'" using load_complete_mem [OF K] by simp
  ultimately show ?thesis using post by auto
qed

text \<open>The sample image four bytes further, so that its segment is aligned to 16 bytes.\<close>

definition iso_mem :: memory where
  "iso_mem a = (if a < 4 then None else sample_mem (a - 4))"

lemma iso_load: "load_bytes iso_mem (x + 4) n = load_bytes sample_mem x n"
proof (induction n arbitrary: x)
  case (Suc n)
  from Suc.IH [of "Suc x"] show ?case by (simp add: iso_mem_def)
qed simp

definition iso_handle :: spe_program_handle where
  "iso_handle = \<lparr>handle_size = 24, elf_image = 4100, toe_shadow = NULL\<rparr>"

lemma iso_parse:
  "base_spe_parse_isolated_elf iso_handle (start_env iso_mem ()) =
     Some (0, Some (4224, 8), start_env iso_mem ())"
proof -
  have l: "load32 iso_mem (x + 4) = load32 sample_mem x" for x by (simp add: load32_def iso_load)
  have h: "load16 iso_mem (x + 4) = load16 sample_mem x" for x by (simp add: load16_def iso_mem_def)
  have ph: "load_phdr iso_mem 4152 = Some sample_phdr"
    using sample_phdr_loaded l [of 4148] l [of 4152] l [of 4156] l [of 4164] l [of 4168]
    by (simp add: load_phdr_def)
  have "load16 iso_mem 4142 = Some 32" "load16 iso_mem 4144 = Some 1" "load32 iso_mem 4128 = Some 52"
    using h [of 4138] h [of 4140] l [of 4124] sample_load16 [of 42] sample_fields
    by (simp_all add: sample_elf_def e_phnum_def e_phoff_def)
  then show ?thesis using ph
    by (simp add: base_spe_parse_isolated_elf_def start_env_def iso_handle_def e_phentsize_def
        e_phnum_def e_phoff_def)
      (simp add: sample_phdr_def)
qed

text \<open>
  the address and size of an isolated image reach the loader kernel on the SPU as three
  mailbox words in the order high word, low word, size, from which the 64-bit address is read
  back, and the address is a multiple of 16.
\<close>

theorem isolated_params_sent:
  assumes "spe_start_isolated_app K c h e = Some (0, c', e')" "elf_image h < 2 ^ 63"
  shows "\<exists>a sz fd e1. base_spe_parse_isolated_elf h e = Some (0, Some (a, sz), e) \<and>
    16 dvd a \<and>
    base_spe_open_if_closed K c FD_WBOX False e = (fd, c', e1) \<and>
    trace e' = trace e1 @ [(Write fd (bytes_of_word (of_nat (a div 2 ^ 32))), 4),
      (Write fd (bytes_of_word (of_nat a)), 4), (Write fd (bytes_of_word sz), 4)] \<and>
    a = 2 ^ 32 * unat (of_nat (a div 2 ^ 32) :: u32) + unat (of_nat a :: u32)"
proof -
  obtain r out e0 where p: "base_spe_parse_isolated_elf h e = Some (r, out, e0)"
    using assms(1) by (auto simp: spe_start_isolated_app_def split: Option.bind_splits)
  then obtain a sz where out: "out = Some (a, sz)"
    using assms(1) by (auto simp: spe_start_isolated_app_def set_errno_def split: option.splits)
  have r: "r = 0" "e0 = e" "\<exists>off. a = elf_image h + unat (off :: u32)"
    using p out
    by (auto simp: base_spe_parse_isolated_elf_def Let_def split: if_splits Option.bind_splits)
  then obtain off :: u32 where "a = elf_image h + unat off" by blast
  moreover have "unat off < 2 ^ 32" using unsigned_less [of off] by simp
  ultimately have small: "a < 2 ^ 64" using assms(2) by simp
  obtain fd c1 e1 where o: "base_spe_open_if_closed K c FD_WBOX False e = (fd, c1, e1)"
    by (metis prod_cases3)
  have al: "16 dvd a" and c: "c1 = c'"
    and w: "write_words K fd [of_nat (a div 2 ^ 32), of_nat a, sz] e1 = (True, e')"
    using assms(1) p out r o
    by (auto simp: spe_start_isolated_app_def write_isolated_load_params_def Let_def
        split: if_splits prod.splits)
  have "a = 2 ^ 32 * (a div 2 ^ 32) + a mod 2 ^ 32" by simp
  moreover have "unat (of_nat (a div 2 ^ 32) :: u32) = a div 2 ^ 32"
    using small by (simp add: unat_of_nat take_bit_nat_eq_self less_mult_imp_div_less)
  moreover have "unat (of_nat a :: u32) = a mod 2 ^ 32"
    by (simp add: unat_of_nat take_bit_eq_mod)
  ultimately have "a = 2 ^ 32 * unat (of_nat (a div 2 ^ 32) :: u32) + unat (of_nat a :: u32)"
    by (simp only:)
  then show ?thesis using p out r al c o write_words_ok [OF w] by auto
qed

theorem program_load_correct_witness:
  "\<exists>c' e'. base_spe_program_load (const_kernel (reply_ok 5)) 8 4096 7
      (blank_context\<lparr>mem_mmap_base := 0x100000\<rparr>) sample_handle None (start_env sample_mem ()) =
      Some (0, c', None, e') \<and> entry c' = 0x80 \<and>
    load_bytes (mem e') 0x100080 8 = Some [0xDE, 0xAD, 0xBE, 0xEF, 0, 0, 0, 0]"
proof -
  let ?c = "blank_context\<lparr>mem_mmap_base := 0x100000\<rparr>"
  have "plain_image (mem (start_env sample_mem ())) (elf_image sample_handle) (mem_mmap_base ?c)
      [sample_phdr] (\<lambda>_. [0xDE, 0xAD, 0xBE, 0xEF]) [sample_shdr]"
    using sample_plain by (simp add: start_env_def sample_handle_def)
  moreover have "mapped (mem (start_env sample_mem ())) (mem_mmap_base ?c) LS_SIZE"
    by (simp add: mapped_def start_env_def sample_mem_def)
  moreover have "e_entry (mem (start_env sample_mem ())) (elf_image sample_handle) = Some 0x80"
    by (simp add: start_env_def sample_handle_def sample_fields)
  moreover have "\<not> has_flag (flags ?c) SPE_ISOLATE" "\<not> has_flag (flags ?c) SPE_ISOLATE_EMULATE"
    by (simp_all add: blank_context_def)
  moreover have "file_calls_keep_memory (const_kernel (reply_ok 5) :: unit kernel)"
    by (simp add: file_calls_keep_memory_def keeps_memory_def const_kernel_def)
  ultimately obtain e' where l: "base_spe_program_load (const_kernel (reply_ok 5)) 8 4096 7 ?c
      sample_handle None (start_env sample_mem ()) =
      Some (0, ?c\<lparr>loaded_program := Some sample_handle, entry := 0x80, emulated_entry := 0x80\<rparr>, None, e')"
    and b: "\<forall>ph \<in> set (loadable [sample_phdr]).
       load_bytes (mem e') (mem_mmap_base ?c + unat (p_vaddr ph)) (unat (p_memsz ph)) =
       Some (segment_bytes ph [0xDE, 0xAD, 0xBE, 0xEF])"
    using program_load_correct [of "start_env sample_mem ()" sample_handle ?c] by blast
  have "replicate 4 (0 :: u8) = [0, 0, 0, 0]" by (simp add: eval_nat_numeral)
  then have "load_bytes (mem e') 0x100080 8 = Some [0xDE, 0xAD, 0xBE, 0xEF, 0, 0, 0, 0]"
    using b by (simp add: loadable_def segment_bytes_def sample_phdr_def)
  then show ?thesis using l by simp
qed

lemma sample_start_isolated:
  "\<exists>c' e'. spe_start_isolated_app (const_kernel (reply_ok 4))
     (blank_context\<lparr>flags := fl, loaded_program := p\<rparr>) iso_handle (start_env iso_mem ()) = Some (0, c', e')"
  by (simp add: write_isolated_load_params_def base_spe_open_if_closed_def blank_context_def sys_rv_def
      sys_def const_kernel_def reply_ok_def Let_def set_fd_def bump_refcount_def
      spe_start_isolated_app_def iso_parse)

theorem isolated_params_sent_witness:
  "\<exists>c' e' (e1 :: unit env) fd. spe_start_isolated_app (const_kernel (reply_ok 4)) blank_context iso_handle
      (start_env iso_mem ()) = Some (0, c', e') \<and>
    trace e' = trace e1 @ [(Write fd (bytes_of_word 0), 4), (Write fd (bytes_of_word 4224), 4),
      (Write fd (bytes_of_word 8), 4)]"
proof -
  obtain c' e' where s: "spe_start_isolated_app (const_kernel (reply_ok 4)) blank_context iso_handle
      (start_env iso_mem ()) = Some (0, c', e')"
    using sample_start_isolated [of None 0] by (auto simp: blank_context_def)
  moreover have "elf_image iso_handle < 2 ^ 63" by (simp add: iso_handle_def)
  ultimately obtain a sz fd and e1 :: "unit env" where
    "base_spe_parse_isolated_elf iso_handle (start_env iso_mem ()) = Some (0, Some (a, sz), start_env iso_mem ())"
    and tr: "trace e' = trace e1 @ [(Write fd (bytes_of_word (of_nat (a div 2 ^ 32))), 4),
      (Write fd (bytes_of_word (of_nat a)), 4), (Write fd (bytes_of_word sz), 4)]"
    using isolated_params_sent by blast
  then have "a = 4224" "sz = 8" by (simp_all add: iso_parse)
  with s tr show ?thesis by auto
qed

text \<open>
  the text written to the file \<open>object-id\<close>, with its NUL, fits the buffer of 20 characters,
  whatever the address of the image.
\<close>

theorem object_id_fits:
  assumes "program < 2 ^ 64"
  shows "length (c_bytes (ptr_string program)) \<le> 20"
proof -
  have "program < 16 ^ Suc 15" using assms by simp
  from ptr_string_length [OF this] show ?thesis by simp
qed

theorem object_id_fits_witness:
  "length (c_bytes (ptr_string 0xFFFFFFFFFFFFFFFF)) \<le> 20"
  using object_id_fits [of "0xFFFFFFFFFFFFFFFF"] by simp

text \<open>
  loading an isolated image writes no entry point: the context is given whatever the local
  variable happened to hold.
\<close>

theorem isolated_load_entry_unset:
  assumes "base_spe_program_load K ptr_bytes ps junk c p cache e = Some (0, c', cache', e')"
    and "has_flag (flags c) SPE_ISOLATE"
  shows "entry c' = junk \<and> emulated_entry c' = junk"
  using assms
  by (auto simp: base_spe_program_load_def set_entries_def split: Option.bind_splits if_splits)

theorem isolated_load_entry_unset_witness:
  "\<exists>c' e'. base_spe_program_load (const_kernel (reply_ok 4)) 8 4096 0xABCD
      (blank_context\<lparr>flags := SPE_ISOLATE\<rparr>) iso_handle None (start_env iso_mem ()) =
      Some (0, c', None, e') \<and> entry c' = 0xABCD"
proof -
  let ?c = "blank_context\<lparr>flags := SPE_ISOLATE\<rparr>"
  have f: "has_flag (flags ?c) SPE_ISOLATE" by (simp add: has_flag_def)
  then obtain c' e' where "base_spe_program_load (const_kernel (reply_ok 4)) 8 4096 0xABCD
      ?c iso_handle None (start_env iso_mem ()) = Some (0, c', None, e')"
    using sample_start_isolated [of "Some iso_handle" SPE_ISOLATE]
    by (auto simp: base_spe_program_load_def)
  then show ?thesis
    using isolated_load_entry_unset [of "const_kernel (reply_ok 4)" 8 4096 "0xABCD" ?c iso_handle None
        "start_env iso_mem ()"] f by blast
qed

end
