(* ===== verification/Spe_Create.thy ===== *)
theory Spe_Create
  imports Spe_Load
begin

unbundle bit_operations_syntax

text \<open>
  Creation and destruction of contexts and gangs (\<open>spebase/create.c\<close>): the spufs directory, the
  mappings of the local store and of the problem state areas, the signal modes, and the release
  of everything on an error or at the end.
\<close>

section \<open>Helpers\<close>

definition mapfileat :: "'w kernel \<Rightarrow> int \<Rightarrow> string \<Rightarrow> nat \<Rightarrow> 'w env \<Rightarrow> addr \<times> 'w env" where
  "mapfileat K dir filename len e =
     (let (fd_temp, e1) = sys_rv K (Openat dir filename O_RDWR) e in
      if fd_temp < 0 then (MAP_FAILED, set_errno EFAULT e1)
      else
        let (a, e2) = sys_rv K (Mmap len fd_temp) e1;
            (_, e3) = sys_rv K (Close fd_temp) e2
        in (ptr_of a, e3))"

text \<open>The result of the write is computed (\<open>rc\<close>) and not returned.\<close>

definition setsignotify :: "'w kernel \<Rightarrow> int \<Rightarrow> string \<Rightarrow> 'w env \<Rightarrow> int \<times> 'w env" where
  "setsignotify K dir filename e =
     (let (fd_sig, e1) = sys_rv K (Openat dir filename O_RDWR) e in
      if fd_sig < 0 then (-1, e1)
      else
        let (n, e2) = sys_rv K (Write fd_sig [0x31]) e1;
            rc = (if n \<noteq> 1 then -1 else 0 :: int);
            (_, e3) = sys_rv K (Close fd_sig) e2
        in (0, e3))"

section \<open>Releasing a context\<close>

definition unmap_area :: "'w kernel \<Rightarrow> addr \<Rightarrow> nat \<Rightarrow> 'w env \<Rightarrow> 'w env" where
  "unmap_area K base len e =
     (if base \<noteq> MAP_FAILED then snd (sys_rv K (Munmap base len) e) else e)"

definition close_if_valid :: "'w kernel \<Rightarrow> int \<Rightarrow> 'w env \<Rightarrow> 'w env" where
  "close_if_valid K fd e = (if fd \<ge> 0 then snd (sys_rv K (Close fd) e) else e)"

definition unmap_ps_areas :: "'w kernel \<Rightarrow> spe_context \<Rightarrow> 'w env \<Rightarrow> 'w env" where
  "unmap_ps_areas K c e =
     (if psmap_mmap_base c \<noteq> MAP_FAILED
      then snd (sys_rv K (Munmap (psmap_mmap_base c) PSMAP_SIZE) e)
      else
        let e1 = unmap_area K (mfc_mmap_base c) MFC_SIZE e;
            e2 = unmap_area K (mssync_mmap_base c) MSS_SIZE e1;
            e3 = unmap_area K (cntl_mmap_base c) CNTL_SIZE e2;
            e4 = unmap_area K (signal1_mmap_base c) SIGNAL_SIZE e3
        in unmap_area K (signal2_mmap_base c) SIGNAL_SIZE e4)"

fun close_files :: "'w kernel \<Rightarrow> spe_context \<Rightarrow> fd_name list \<Rightarrow> 'w env \<Rightarrow> 'w env" where
  "close_files K c [] e = e"
| "close_files K c (f # fs) e = close_files K c fs (close_if_valid K (spe_fds_array c f) e)"

definition free_spe_context :: "'w kernel \<Rightarrow> spe_context \<Rightarrow> 'w env \<Rightarrow> int \<times> 'w env" where
  "free_spe_context K c e =
     (let e1 = unmap_ps_areas K c e;
          e2 = unmap_area K (mem_mmap_base c) LS_SIZE e1;
          e3 = close_files K c all_fd_names e2;
          e4 = close_if_valid K (fd_spe_dir c) e3;
          e5 = snd (sys_rv K (Free (priv_ptr c)) e4);
          e6 = snd (sys_rv K (Free (spe_ptr c)) e5)
      in (0, e6))"

section \<open>Creating a context\<close>

abbreviation (input) SPU_CREATE_EVENTS_ENABLED :: u32 where "SPU_CREATE_EVENTS_ENABLED \<equiv> 1"
abbreviation (input) SPU_CREATE_GANG :: u32 where "SPU_CREATE_GANG \<equiv> 2"
abbreviation (input) SPU_CREATE_NOSCHED :: u32 where "SPU_CREATE_NOSCHED \<equiv> 4"
abbreviation (input) SPU_CREATE_ISOLATE :: u32 where "SPU_CREATE_ISOLATE \<equiv> 8"
abbreviation (input) SPU_CREATE_AFFINITY_SPU :: u32 where "SPU_CREATE_AFFINITY_SPU \<equiv> 0x10"
abbreviation (input) SPU_CREATE_AFFINITY_MEM :: u32 where "SPU_CREATE_AFFINITY_MEM \<equiv> 0x20"

abbreviation (input) SIZEOF_SPE_CONTEXT :: nat where "SIZEOF_SPE_CONTEXT \<equiv> 40"
abbreviation (input) SIZEOF_CONTEXT_PRIV :: nat where "SIZEOF_CONTEXT_PRIV \<equiv> 680"
abbreviation (input) SIZEOF_GANG_CONTEXT :: nat where "SIZEOF_GANG_CONTEXT \<equiv> 16"
abbreviation (input) SIZEOF_GANG_PRIV :: nat where "SIZEOF_GANG_PRIV \<equiv> 264"

text \<open>The wrapper of the system call passes the neighbour only with its flag (\<open>include/sys/spu.h\<close>).\<close>

definition spu_create :: "'w kernel \<Rightarrow> string \<Rightarrow> u32 \<Rightarrow> int \<Rightarrow> 'w env \<Rightarrow> int \<times> 'w env" where
  "spu_create K path fl fd e =
     sys_rv K (SpuCreate path fl (if has_flag fl SPU_CREATE_AFFINITY_SPU then Some fd else None)) e"

definition context_flags :: "u32 \<Rightarrow> u32" where
  "context_flags fl = (if has_flag fl SPE_ISOLATE then fl OR SPE_MAP_PS else fl)"

definition spu_createflags :: "u32 \<Rightarrow> bool \<Rightarrow> u32" where
  "spu_createflags fl aff_spe =
     (if has_flag fl SPE_NOSCHED then SPU_CREATE_NOSCHED else 0) OR
     (if has_flag fl SPE_ISOLATE then SPU_CREATE_ISOLATE OR SPU_CREATE_NOSCHED else 0) OR
     (if has_flag fl SPE_EVENTS_ENABLE then SPU_CREATE_EVENTS_ENABLED else 0) OR
     (if aff_spe then SPU_CREATE_AFFINITY_SPU else 0) OR
     (if has_flag fl SPE_AFFINITY_MEMORY then SPU_CREATE_AFFINITY_MEM else 0)"

definition context_pathname :: "spe_gang_context option \<Rightarrow> int \<Rightarrow> addr \<Rightarrow> string" where
  "context_pathname gctx pid spe =
     (case gctx of
        None \<Rightarrow> ''/spu/spethread-'' @ dec_int pid @ ''-'' @ dec spe
      | Some g \<Rightarrow> ''/spu/'' @ gangname g @ ''/spethread-'' @ dec_int pid @ ''-'' @ dec spe)"

text \<open>The errno reported when the directory cannot be created.\<close>

definition create_errno :: "u32 \<Rightarrow> int \<Rightarrow> int" where
  "create_errno fl saved =
     (if saved \<in> {ENOTSUP, EEXIST, EINVAL, EBUSY, ENODEV} then saved
      else if saved = EPERM then (if has_flag fl SPE_ISOLATE then ENODEV else saved)
      else EFAULT)"

text \<open>The context as it is before the directory is made; \<open>junk\<close> is what \<open>malloc\<close> handed out.\<close>

definition fresh_context :: "spe_context \<Rightarrow> addr \<Rightarrow> addr \<Rightarrow> spe_context" where
  "fresh_context junk spe priv = junk\<lparr>spe_ptr := spe, priv_ptr := priv, fd_spe_dir := -1,
     mem_mmap_base := MAP_FAILED, psmap_mmap_base := MAP_FAILED, mssync_mmap_base := MAP_FAILED,
     mfc_mmap_base := MAP_FAILED, cntl_mmap_base := MAP_FAILED, signal1_mmap_base := MAP_FAILED,
     signal2_mmap_base := MAP_FAILED, loaded_program := None, spe_fds_array := (\<lambda>_. -1)\<rparr>"

definition map_ps_areas :: "'w kernel \<Rightarrow> spe_context \<Rightarrow> 'w env \<Rightarrow> bool \<times> spe_context \<times> 'w env" where
  "map_ps_areas K c e =
     (let (ps, e1) = mapfileat K (fd_spe_dir c) ''psmap'' PSMAP_SIZE e in
      if ps \<noteq> MAP_FAILED then
        (True, c\<lparr>psmap_mmap_base := ps, mssync_mmap_base := ps + MSSYNC_OFFSET,
           mfc_mmap_base := ps + MFC_OFFSET, cntl_mmap_base := ps + CNTL_OFFSET,
           signal1_mmap_base := ps + SIGNAL1_OFFSET, signal2_mmap_base := ps + SIGNAL2_OFFSET\<rparr>, e1)
      else
        let (mfc, e2) = mapfileat K (fd_spe_dir c) ''mfc'' MFC_SIZE e1;
            (mss, e3) = mapfileat K (fd_spe_dir c) ''mss'' MSS_SIZE e2;
            (cntl, e4) = mapfileat K (fd_spe_dir c) ''cntl'' CNTL_SIZE e3;
            (sig1, e5) = mapfileat K (fd_spe_dir c) ''signal1'' SIGNAL_SIZE e4;
            (sig2, e6) = mapfileat K (fd_spe_dir c) ''signal2'' SIGNAL_SIZE e5
        in (\<not> (mfc = MAP_FAILED \<or> cntl = MAP_FAILED \<or> sig1 = MAP_FAILED \<or> sig2 = MAP_FAILED),
            c\<lparr>mfc_mmap_base := mfc, mssync_mmap_base := mss, cntl_mmap_base := cntl,
              signal1_mmap_base := sig1, signal2_mmap_base := sig2\<rparr>, e6))"

text \<open>An error after the context exists: it is released and \<open>errno\<close> is set.\<close>

definition create_fail ::
  "'w kernel \<Rightarrow> spe_context \<Rightarrow> int \<Rightarrow> 'w env \<Rightarrow> spe_context option \<times> 'w env" where
  "create_fail K c err e = (None, set_errno err (snd (free_spe_context K c e)))"

definition create_signals ::
  "'w kernel \<Rightarrow> u32 \<Rightarrow> spe_context \<Rightarrow> 'w env \<Rightarrow> spe_context option \<times> 'w env" where
  "create_signals K fl c e =
     (let (r1, e1) = (if has_flag fl SPE_CFG_SIGNOTIFY1_OR
                      then setsignotify K (fd_spe_dir c) ''signal1_type'' e else (0, e)) in
      if r1 \<noteq> 0 then create_fail K c EFAULT e1
      else
        let (r2, e2) = (if has_flag fl SPE_CFG_SIGNOTIFY2_OR
                        then setsignotify K (fd_spe_dir c) ''signal2_type'' e1 else (0, e1)) in
        if r2 \<noteq> 0 then create_fail K c EFAULT e2 else (Some c, e2))"

text \<open>From the successful \<open>spu_create\<close> on: the mappings and the signal modes.\<close>

definition create_areas ::
  "'w kernel \<Rightarrow> u32 \<Rightarrow> spe_context \<Rightarrow> 'w env \<Rightarrow> spe_context option \<times> 'w env" where
  "create_areas K fl c e =
     (let (ls, e1) = mapfileat K (fd_spe_dir c) ''mem'' LS_SIZE e;
          c1 = c\<lparr>flags := fl, mem_mmap_base := ls\<rparr> in
      if ls = MAP_FAILED then create_fail K c1 ENOMEM e1
      else
        let (ok, c2, e2) = (if has_flag fl SPE_MAP_PS then map_ps_areas K c1 e1
                            else (True, c1, e1)) in
        if \<not> ok then create_fail K c2 ENOMEM e2 else create_signals K fl c2 e2)"

definition create_dir ::
  "'w kernel \<Rightarrow> u32 \<Rightarrow> spe_gang_context option \<Rightarrow> spe_context option \<Rightarrow> spe_context \<Rightarrow> 'w env \<Rightarrow>
   spe_context option \<times> 'w env" where
  "create_dir K fl gctx aff_spe c e =
     (let cfl = spu_createflags fl (aff_spe \<noteq> None);
          fl1 = context_flags fl;
          (pid, e1) = sys_rv K Getpid e;
          aff_fd = (case aff_spe of None \<Rightarrow> 0 | Some a \<Rightarrow> fd_spe_dir a);
          (dir, e2) = spu_create K (context_pathname gctx pid (spe_ptr c)) cfl aff_fd e1;
          c1 = c\<lparr>fd_spe_dir := dir\<rparr> in
      if dir < 0 then create_fail K c1 (create_errno fl1 (errno e2)) e2
      else create_areas K fl1 c1 e2)"

text \<open>The result \<open>None\<close> inside is the null pointer; the cache is the static loader of \<open>load.c\<close>.\<close>

definition base_spe_context_create ::
  "'w kernel \<Rightarrow> nat \<Rightarrow> u64 \<Rightarrow> spe_context \<Rightarrow> u32 \<Rightarrow> spe_gang_context option \<Rightarrow> spe_context option \<Rightarrow>
   loader_cache \<Rightarrow> 'w env \<Rightarrow> (spe_context option \<times> loader_cache \<times> 'w env) option"
where
  "base_spe_context_create K ptr_bytes ps junk fl gctx aff_spe cache e = do {
     (present, cache1, e1) \<leftarrow>
       (if has_flag fl SPE_ISOLATE_EMULATE
        then base_spe_emulated_loader_present K ptr_bytes ps cache e else Some (True, cache, e));
     if \<not> present then Some (None, cache1, set_errno EINVAL e1)
     else
       let (spe, e2) = sys_rv K (Malloc SIZEOF_SPE_CONTEXT) e1 in
       if spe \<le> 0 then Some (None, cache1, e2)
       else
         let (priv, e3) = sys_rv K (Malloc SIZEOF_CONTEXT_PRIV) e2 in
         if priv \<le> 0 then Some (None, cache1, snd (sys_rv K (Free (nat spe)) e3))
         else
           let (r, e4) = create_dir K fl gctx aff_spe (fresh_context junk (nat spe) (nat priv)) e3
           in Some (r, cache1, e4) }"

definition base_spe_context_destroy :: "'w kernel \<Rightarrow> spe_context \<Rightarrow> 'w env \<Rightarrow> int \<times> 'w env" where
  "base_spe_context_destroy K c e =
     (let (ret, e1) = free_spe_context K c e in (ret, spe_context_update_event e1))"

section \<open>Gangs\<close>

definition free_spe_gang_context :: "'w kernel \<Rightarrow> spe_gang_context \<Rightarrow> 'w env \<Rightarrow> int \<times> 'w env" where
  "free_spe_gang_context K g e =
     (let e1 = close_if_valid K (fd_gang_dir g) e;
          e2 = snd (sys_rv K (Free (gang_priv_ptr g)) e1);
          e3 = snd (sys_rv K (Free (gang_ptr g)) e2)
      in (0, e3))"

definition gang_name :: "int \<Rightarrow> addr \<Rightarrow> string" where
  "gang_name pid gctx = ''gang-'' @ dec_int pid @ ''-'' @ dec gctx"

definition base_spe_gang_context_create ::
  "'w kernel \<Rightarrow> u32 \<Rightarrow> 'w env \<Rightarrow> spe_gang_context option \<times> 'w env" where
  "base_spe_gang_context_create K fl e =
     (let (gctx, e1) = sys_rv K (Malloc SIZEOF_GANG_CONTEXT) e in
      if gctx \<le> 0 then (None, e1)
      else
        let (pgctx, e2) = sys_rv K (Malloc SIZEOF_GANG_PRIV) e1 in
        if pgctx \<le> 0 then (None, snd (sys_rv K (Free (nat gctx)) e2))
        else
          let (pid, e3) = sys_rv K Getpid e2;
              nm = gang_name pid (nat gctx);
              (dir, e4) = spu_create K (''/spu/'' @ nm) SPU_CREATE_GANG 0 e3;
              g = \<lparr>gang_ptr = nat gctx, gang_priv_ptr = nat pgctx, gang_flags = 0,
                   fd_gang_dir = dir, gangname = nm\<rparr> in
          if dir < 0 then (None, set_errno EFAULT (snd (free_spe_gang_context K g e4)))
          else (Some (g\<lparr>gang_flags := fl\<rparr>), e4))"

definition base_spe_gang_context_destroy :: "'w kernel \<Rightarrow> spe_gang_context \<Rightarrow> 'w env \<Rightarrow> int \<times> 'w env" where
  "base_spe_gang_context_destroy K g e = free_spe_gang_context K g e"

section \<open>What a context holds\<close>

definition opt_map :: "addr \<Rightarrow> nat \<Rightarrow> (addr \<times> nat) multiset" where
  "opt_map base len = (if base \<noteq> MAP_FAILED then {#(base, len)#} else {#})"

definition opt_fd :: "int \<Rightarrow> int multiset" where
  "opt_fd fd = (if fd \<ge> 0 then {#fd#} else {#})"

definition context_fds :: "spe_context \<Rightarrow> int multiset" where
  "context_fds c = held_fds c + opt_fd (fd_spe_dir c)"

definition context_maps :: "spe_context \<Rightarrow> (addr \<times> nat) multiset" where
  "context_maps c = opt_map (mem_mmap_base c) LS_SIZE +
     (if psmap_mmap_base c \<noteq> MAP_FAILED then {#(psmap_mmap_base c, PSMAP_SIZE)#}
      else opt_map (mfc_mmap_base c) MFC_SIZE + opt_map (mssync_mmap_base c) MSS_SIZE +
        opt_map (cntl_mmap_base c) CNTL_SIZE + opt_map (signal1_mmap_base c) SIGNAL_SIZE +
        opt_map (signal2_mmap_base c) SIGNAL_SIZE)"

definition context_heap :: "spe_context \<Rightarrow> addr multiset" where
  "context_heap c = {#priv_ptr c, spe_ptr c#}"

lemma ledgers_unmap_area:
  "ledgers e = (F, M + opt_map base len, H) \<Longrightarrow> ledgers (unmap_area K base len e) = (F, M, H)"
  using ledgers_snd_sys_rv [of e F "M + opt_map base len" H "Munmap base len"]
  by (auto simp: unmap_area_def opt_map_def)

lemma ledgers_close_if_valid:
  "ledgers e = (F + opt_fd fd, M, H) \<Longrightarrow> ledgers (close_if_valid K fd e) = (F, M, H)"
  using ledgers_snd_sys_rv [of e "F + opt_fd fd" M H "Close fd"]
  by (auto simp: close_if_valid_def opt_fd_def)

lemma ledgers_close_files:
  "ledgers e = (F + mset (filter (\<lambda>n. 0 \<le> n) (map (spe_fds_array c) fs)), M, H) \<Longrightarrow>
   ledgers (close_files K c fs e) = (F, M, H)"
proof (induction fs arbitrary: e)
  case (Cons f fs)
  have "ledgers (close_if_valid K (spe_fds_array c f) e) =
      (F + mset (filter (\<lambda>n. 0 \<le> n) (map (spe_fds_array c) fs)), M, H)"
    by (rule ledgers_close_if_valid) (use Cons.prems in \<open>auto simp: opt_fd_def\<close>)
  from Cons.IH [OF this] show ?case by simp
qed simp

lemma ledgers_unmap_ps:
  assumes "ledgers e = (F, M + opt_map (mem_mmap_base c) LS_SIZE +
     (if psmap_mmap_base c \<noteq> MAP_FAILED then {#(psmap_mmap_base c, PSMAP_SIZE)#}
      else opt_map (mfc_mmap_base c) MFC_SIZE + opt_map (mssync_mmap_base c) MSS_SIZE +
        opt_map (cntl_mmap_base c) CNTL_SIZE + opt_map (signal1_mmap_base c) SIGNAL_SIZE +
        opt_map (signal2_mmap_base c) SIGNAL_SIZE), H)"
  shows "ledgers (unmap_ps_areas K c e) = (F, M + opt_map (mem_mmap_base c) LS_SIZE, H)"
proof (cases "psmap_mmap_base c = MAP_FAILED")
  case False
  then show ?thesis using assms ledgers_snd_sys_rv [OF assms, of "Munmap (psmap_mmap_base c) PSMAP_SIZE"]
    by (simp add: unmap_ps_areas_def)
next
  case True
  then show ?thesis unfolding unmap_ps_areas_def Let_def
    by (simp, intro ledgers_unmap_area) (use assms in \<open>simp add: ac_simps\<close>)
qed

lemma free_spe_context_ledgers:
  assumes "ledgers e = (F + context_fds c, M + context_maps c, H + context_heap c)"
  shows "ledgers (snd (free_spe_context K c e)) = (F, M, H)"
proof -
  let ?e1 = "unmap_ps_areas K c e" and ?e2 = "unmap_area K (mem_mmap_base c) LS_SIZE (unmap_ps_areas K c e)"
  have "ledgers ?e1 = (F + context_fds c, M + opt_map (mem_mmap_base c) LS_SIZE, H + context_heap c)"
    by (rule ledgers_unmap_ps) (use assms in \<open>simp add: context_maps_def ac_simps\<close>)
  then have "ledgers ?e2 = (F + context_fds c, M, H + context_heap c)"
    by (rule ledgers_unmap_area)
  then have "ledgers (close_files K c all_fd_names ?e2) = (F + opt_fd (fd_spe_dir c), M, H + context_heap c)"
    by (intro ledgers_close_files) (simp add: context_fds_def held_fds_def ac_simps)
  then have *: "ledgers (close_if_valid K (fd_spe_dir c) (close_files K c all_fd_names ?e2)) =
      (F, M, H + context_heap c)"
    by (rule ledgers_close_if_valid)
  from ledgers_snd_sys_rv [OF *, of "Free (priv_ptr c)" "priv_ptr c"]
  have "ledgers (snd (sys_rv K (Free (priv_ptr c))
      (close_if_valid K (fd_spe_dir c) (close_files K c all_fd_names ?e2)))) = (F, M, add_mset (spe_ptr c) H)"
    by (simp add: context_heap_def)
  from ledgers_snd_sys_rv [OF this, of "Free (spe_ptr c)" "spe_ptr c"] show ?thesis
    by (simp add: free_spe_context_def Let_def)
qed

lemma ledgers_mapfileat:
  "mapfileat K d s len e = (a, e') \<Longrightarrow> ledgers e = (F, M, H) \<Longrightarrow> ledgers e' = (F, M + opt_map a len, H)"
  by (auto simp: mapfileat_def opt_map_def Let_def dest!: ledgers_sys_rv split: prod.splits if_splits)

lemma ledgers_setsignotify:
  "setsignotify K d s e = (r, e') \<Longrightarrow> ledgers e' = ledgers e"
  by (cases "ledgers e")
    (auto simp: setsignotify_def Let_def dest!: ledgers_sys_rv split: prod.splits if_splits)

lemma create_fail_ledgers:
  "ledgers e = (F + context_fds c, M + context_maps c, H + context_heap c) \<Longrightarrow>
   create_fail K c err e = (r, e') \<Longrightarrow> r = None \<and> ledgers e' = (F, M, H)"
  using free_spe_context_ledgers [of e F c M H K] by (auto simp: create_fail_def)

text \<open>A context whose areas are not mapped yet.\<close>

definition unmapped_context :: "spe_context \<Rightarrow> bool" where
  "unmapped_context c \<longleftrightarrow> mem_mmap_base c = MAP_FAILED \<and> psmap_mmap_base c = MAP_FAILED \<and>
     mfc_mmap_base c = MAP_FAILED \<and> mssync_mmap_base c = MAP_FAILED \<and>
     cntl_mmap_base c = MAP_FAILED \<and> signal1_mmap_base c = MAP_FAILED \<and>
     signal2_mmap_base c = MAP_FAILED"

lemma map_ps_areas_ledgers:
  assumes "map_ps_areas K c e = (ok, c', e')" "psmap_mmap_base c = MAP_FAILED"
    and "ledgers e = (F + context_fds c, M + opt_map (mem_mmap_base c) LS_SIZE, H + context_heap c)"
  shows "ledgers e' = (F + context_fds c', M + context_maps c', H + context_heap c')"
proof -
  obtain ps e1 where ps: "mapfileat K (fd_spe_dir c) ''psmap'' PSMAP_SIZE e = (ps, e1)" by fastforce
  note L1 = ledgers_mapfileat [OF ps assms(3)]
  show ?thesis
  proof (cases "ps = MAP_FAILED")
    case False
    have "c' = c\<lparr>psmap_mmap_base := ps, mssync_mmap_base := ps + MSSYNC_OFFSET,
           mfc_mmap_base := ps + MFC_OFFSET, cntl_mmap_base := ps + CNTL_OFFSET,
           signal1_mmap_base := ps + SIGNAL1_OFFSET, signal2_mmap_base := ps + SIGNAL2_OFFSET\<rparr>"
      and "e' = e1"
      using assms(1) ps False by (simp_all add: map_ps_areas_def)
    moreover have "opt_map ps PSMAP_SIZE = {#(ps, PSMAP_SIZE)#}" using False by (simp add: opt_map_def)
    ultimately show ?thesis using L1 False
      by (simp add: context_maps_def context_fds_def context_heap_def held_fds_def)
  next
    case True
    obtain mfc e2 where a2: "mapfileat K (fd_spe_dir c) ''mfc'' MFC_SIZE e1 = (mfc, e2)" by fastforce
    obtain mss e3 where a3: "mapfileat K (fd_spe_dir c) ''mss'' MSS_SIZE e2 = (mss, e3)" by fastforce
    obtain cntl e4 where a4: "mapfileat K (fd_spe_dir c) ''cntl'' CNTL_SIZE e3 = (cntl, e4)" by fastforce
    obtain s1 e5 where a5: "mapfileat K (fd_spe_dir c) ''signal1'' SIGNAL_SIZE e4 = (s1, e5)" by fastforce
    obtain s2 e6 where a6: "mapfileat K (fd_spe_dir c) ''signal2'' SIGNAL_SIZE e5 = (s2, e6)" by fastforce
    note L6 = ledgers_mapfileat [OF a6 ledgers_mapfileat [OF a5 ledgers_mapfileat [OF a4
      ledgers_mapfileat [OF a3 ledgers_mapfileat [OF a2 L1]]]]]
    have "c' = c\<lparr>mfc_mmap_base := mfc, mssync_mmap_base := mss, cntl_mmap_base := cntl,
        signal1_mmap_base := s1, signal2_mmap_base := s2\<rparr>" "e' = e6"
      using assms(1) ps True a2 a3 a4 a5 a6 by (auto simp: map_ps_areas_def)
    moreover have "opt_map ps PSMAP_SIZE = {#}" using True by (simp add: opt_map_def)
    ultimately show ?thesis using L6 assms(2)
      by (simp add: context_maps_def context_fds_def context_heap_def held_fds_def ac_simps)
  qed
qed

definition create_result :: "int multiset \<times> (addr \<times> nat) multiset \<times> addr multiset \<Rightarrow>
    spe_context option \<Rightarrow> 'w env \<Rightarrow> bool" where
  "create_result L r e' \<longleftrightarrow> (case L of (F, M, H) \<Rightarrow> case r of
       None \<Rightarrow> ledgers e' = (F, M, H)
     | Some c \<Rightarrow> ledgers e' = (F + context_fds c, M + context_maps c, H + context_heap c))"

lemma create_signals_ledgers:
  assumes "create_signals K fl c e = (r, e')"
    and "ledgers e = (F + context_fds c, M + context_maps c, H + context_heap c)"
  shows "create_result (F, M, H) r e'"
  using assms unfolding create_result_def create_signals_def Let_def
  by (auto split: prod.splits if_splits dest!: ledgers_setsignotify create_fail_ledgers [rotated])

lemma create_areas_ledgers:
  assumes "create_areas K fl c e = (r, e')" "unmapped_context c"
    and L: "ledgers e = (F + context_fds c, M, H + context_heap c)"
  shows "create_result (F, M, H) r e'"
proof -
  obtain ls e1 where ls: "mapfileat K (fd_spe_dir c) ''mem'' LS_SIZE e = (ls, e1)" by fastforce
  let ?c1 = "c\<lparr>flags := fl, mem_mmap_base := ls\<rparr>"
  have same: "context_fds ?c1 = context_fds c" "context_heap ?c1 = context_heap c"
    by (simp_all add: context_fds_def context_heap_def held_fds_def)
  have L1: "ledgers e1 = (F + context_fds ?c1, M + opt_map (mem_mmap_base ?c1) LS_SIZE, H + context_heap ?c1)"
    using ledgers_mapfileat [OF ls L] by (simp only: same) simp
  have maps: "context_maps ?c1 = opt_map ls LS_SIZE"
    using assms(2) by (simp add: context_maps_def unmapped_context_def opt_map_def)
  obtain ok c2 e2 where ps: "(if has_flag fl SPE_MAP_PS then map_ps_areas K ?c1 e1
      else (True, ?c1, e1)) = (ok, c2, e2)" by (metis prod_cases3)
  have L2: "ledgers e2 = (F + context_fds c2, M + context_maps c2, H + context_heap c2)"
  proof (cases "has_flag fl SPE_MAP_PS")
    case True
    then show ?thesis using map_ps_areas_ledgers [of K ?c1 e1 ok c2 e2 F M H] ps L1 assms(2)
      by (simp add: unmapped_context_def)
  next
    case False
    then show ?thesis using ps L1 maps by auto
  qed
  consider "ls = MAP_FAILED" "create_fail K ?c1 ENOMEM e1 = (r, e')"
    | "\<not> ok" "create_fail K c2 ENOMEM e2 = (r, e')" | "create_signals K fl c2 e2 = (r, e')"
    using assms(1) ls ps by (auto simp: create_areas_def Let_def split: if_splits)
  then show ?thesis
  proof cases
    case 1
    then show ?thesis using create_fail_ledgers [of e1 F ?c1 M H K ENOMEM r e'] L1 maps
      by (simp add: create_result_def)
  next
    case 2
    then show ?thesis using create_fail_ledgers [OF L2 2(2)] by (simp add: create_result_def)
  next
    case 3
    then show ?thesis using create_signals_ledgers L2 by blast
  qed
qed

lemma create_dir_ledgers:
  assumes "create_dir K fl gctx aff c e = (r, e')" "unmapped_context c" "fd_spe_dir c = -1"
    and L: "ledgers e = (F + context_fds c, M, H + context_heap c)"
  shows "create_result (F, M, H) r e'"
proof -
  obtain pid e1 where p: "sys_rv K Getpid e = (pid, e1)" by fastforce
  obtain dir e2 where d: "spu_create K (context_pathname gctx pid (spe_ptr c))
      (spu_createflags fl (aff \<noteq> None)) (case aff of None \<Rightarrow> 0 | Some a \<Rightarrow> fd_spe_dir a) e1 = (dir, e2)"
    by fastforce
  let ?c1 = "c\<lparr>fd_spe_dir := dir\<rparr>"
  have "ledgers e1 = (F + context_fds c, M, H + context_heap c)" using ledgers_sys_rv [OF p L] by simp
  from ledgers_sys_rv [OF d [unfolded spu_create_def] this]
  have L1: "ledgers e2 = (F + context_fds ?c1, M, H + context_heap ?c1)" and U: "unmapped_context ?c1"
    using assms(2,3)
    by (auto simp: context_fds_def context_heap_def held_fds_def opt_fd_def unmapped_context_def)
  then have maps: "context_maps ?c1 = {#}"
    by (simp add: context_maps_def unmapped_context_def opt_map_def)
  have "(if dir < 0 then create_fail K ?c1 (create_errno (context_flags fl) (errno e2)) e2
      else create_areas K (context_flags fl) ?c1 e2) = (r, e')"
    using assms(1) p d by (simp add: create_dir_def Let_def)
  moreover have "create_result (F, M, H) r e'" if "create_fail K ?c1 x e2 = (r, e')" for x
    using create_fail_ledgers [OF _ that, of F M H] L1 maps by (simp add: create_result_def)
  ultimately show ?thesis using create_areas_ledgers [OF _ U L1] by (metis (full_types))
qed

lemma create_keeps_files:
  assumes "create_dir K fl gctx aff c e = (Some c', e')"
  shows "spe_fds_array c' = spe_fds_array c \<and> spe_fds_refcount c' = spe_fds_refcount c"
proof -
  have sig: "create_signals K x d e1 = (Some c', e2) \<Longrightarrow> c' = d" for x d and e1 e2 :: "'a env"
    by (auto simp: create_signals_def create_fail_def Let_def split: if_splits prod.splits)
  have ps: "map_ps_areas K d e1 = (ok, d', e2) \<Longrightarrow>
      spe_fds_array d' = spe_fds_array d \<and> spe_fds_refcount d' = spe_fds_refcount d"
    for d d' ok and e1 e2 :: "'a env"
    by (auto simp: map_ps_areas_def Let_def split: if_splits prod.splits)
  show ?thesis using assms
    by (auto simp: create_dir_def create_areas_def create_fail_def Let_def dest!: sig ps
        split: if_splits prod.splits)
qed

text \<open>Using the files of a context changes nothing else it holds.\<close>

lemma fd_step_context:
  assumes "fd_step K x (c, e) = (c', e')"
  shows "context_maps c' = context_maps c \<and> context_heap c' = context_heap c \<and>
    fd_spe_dir c' = fd_spe_dir c \<and>
    live_maps (trace e') = live_maps (trace e) \<and> live_heap (trace e') = live_heap (trace e)"
proof -
  have same: "context_maps (bump_refcount d f c) = context_maps c"
    "context_maps (set_fd n f c) = context_maps c"
    "context_heap (bump_refcount d f c) = context_heap c" "context_heap (set_fd n f c) = context_heap c"
    for d n f c by (simp_all add: context_maps_def context_heap_def bump_refcount_def set_fd_def)
  show ?thesis
  proof (cases x)
    case (Acquire f)
    then obtain n where "base_spe_open_if_closed K c f False e = (n, c', e')"
      using assms by (cases "base_spe_open_if_closed K c f False e") auto
    then show ?thesis
      by (cases rule: open_if_closed_cases) (auto simp: same resource_simps)
  next
    case (Release f)
    then have "base_spe_close_if_open K c f e = (c', e')" using assms by simp
    then show ?thesis
      by (cases rule: close_if_open_cases) (auto simp: same resource_simps)
  qed
qed

lemma fd_run_ledgers:
  assumes "openat_result K" "fd_values c" "fd_run K ops (c, e) = (c', e')"
    and "ledgers e = (F + context_fds c, M + context_maps c, H + context_heap c)"
  shows "ledgers e' = (F + context_fds c', M + context_maps c', H + context_heap c')"
  using assms(2-4)
proof (induction ops arbitrary: c e)
  case Nil
  then show ?case by (simp add: fd_run_Nil)
next
  case (Cons x ops)
  obtain c1 e1 where s: "fd_step K x (c, e) = (c1, e1)" by fastforce
  have l: "ledger (F + opt_fd (fd_spe_dir c)) c e"
    using Cons.prems(3) by (simp add: ledger_def ledgers_def context_fds_def ac_simps)
  note i = fd_step_values [OF assms(1) Cons.prems(1) l s]
  have "ledgers e1 = (F + context_fds c1, M + context_maps c1, H + context_heap c1)"
    using fd_step_context [OF s] i Cons.prems(3)
    by (simp add: ledger_def ledgers_def context_fds_def ac_simps)
  moreover have "fd_run K ops (c1, e1) = (c', e')" using Cons.prems(2) s by (simp add: fd_run_Cons)
  ultimately show ?case using i Cons.IH by blast
qed

lemma fresh_context_facts:
  "unmapped_context (fresh_context junk p q)" "fd_spe_dir (fresh_context junk p q) = -1"
  "context_fds (fresh_context junk p q) = {#}" "context_heap (fresh_context junk p q) = {#q, p#}"
  "spe_fds_array (fresh_context junk p q) = (\<lambda>_. -1)"
  "spe_fds_refcount (fresh_context junk p q) = spe_fds_refcount junk"
  by (simp_all add: fresh_context_def unmapped_context_def context_fds_def held_fds_def opt_fd_def
      context_heap_def)

lemma context_create_ledgers:
  assumes "base_spe_context_create K pb ps junk fl gctx aff cache e = Some (r, cache', e')"
    and "\<not> has_flag fl SPE_ISOLATE_EMULATE \<or> cache \<noteq> None" and "ledgers e = (F, M, H)"
  shows "create_result (F, M, H) r e'"
proof -
  obtain present cache1 e1 where pr: "(if has_flag fl SPE_ISOLATE_EMULATE
      then base_spe_emulated_loader_present K pb ps cache e else Some (True, cache, e)) =
      Some (present, cache1, e1)"
    using assms(1) by (auto simp: base_spe_context_create_def split: Option.bind_splits if_splits)
  have L1: "ledgers e1 = (F, M, H)"
    using pr assms(2,3)
    by (auto simp: base_spe_emulated_loader_present_def emulated_loader_program_def
        base_spe_verify_spe_elf_image_def dest!: ledgers_check_spe_elf
        split: if_splits Option.bind_splits option.splits)
  show ?thesis
  proof (cases present)
    case False
    then show ?thesis using assms(1) pr L1 by (auto simp: base_spe_context_create_def create_result_def)
  next
    case True
    obtain spe e2 where s: "sys_rv K (Malloc SIZEOF_SPE_CONTEXT) e1 = (spe, e2)" by fastforce
    obtain priv e3 where p: "sys_rv K (Malloc SIZEOF_CONTEXT_PRIV) e2 = (priv, e3)" by fastforce
    note L2 = ledgers_sys_rv [OF s L1]
    consider "spe \<le> 0" "r = None" "e' = e2"
      | "\<not> spe \<le> 0" "priv \<le> 0" "r = None" "e' = snd (sys_rv K (Free (nat spe)) e3)"
      | "\<not> spe \<le> 0" "\<not> priv \<le> 0"
        "create_dir K fl gctx aff (fresh_context junk (nat spe) (nat priv)) e3 = (r, e')"
      using assms(1) pr s p True by (auto simp: base_spe_context_create_def split: if_splits prod.splits)
    then show ?thesis
    proof cases
      case 1
      then show ?thesis using L2 by (simp add: create_result_def)
    next
      case 2
      have "ledgers e3 = (F, M, add_mset (nat spe) H)" using ledgers_sys_rv [OF p] L2 2 by simp
      from ledgers_snd_sys_rv [OF this, of "Free (nat spe)"] show ?thesis
        using 2 by (simp add: create_result_def)
    next
      case 3
      have "ledgers e3 = (F + context_fds (fresh_context junk (nat spe) (nat priv)), M,
          H + context_heap (fresh_context junk (nat spe) (nat priv)))"
        using ledgers_sys_rv [OF p] L2 3 by (simp add: fresh_context_facts)
      from create_dir_ledgers [OF 3(3) _ _ this] show ?thesis by (simp add: fresh_context_facts)
    qed
  qed
qed

section \<open>Properties\<close>

lemma context_created:
  assumes "base_spe_context_create K pb ps junk fl gctx aff cache e = Some (Some c, cache', e1)"
    and "\<not> has_flag fl SPE_ISOLATE_EMULATE \<or> cache \<noteq> None"
    and "ledgers e = (F, M, H)"
  shows "fd_values c" "ledgers e1 = (F + context_fds c, M + context_maps c, H + context_heap c)"
proof -
  obtain spe priv e3 where
    "create_dir K fl gctx aff (fresh_context junk spe priv) e3 = (Some c, e1)"
    using assms(1)
    by (auto simp: base_spe_context_create_def Let_def split: Option.bind_splits if_splits prod.splits)
  from create_keeps_files [OF this] show "fd_values c"
    by (simp add: fd_values_def fresh_context_facts)
  show "ledgers e1 = (F + context_fds c, M + context_maps c, H + context_heap c)"
    using context_create_ledgers [OF assms(1,2,3)] by (simp add: create_result_def)
qed

text \<open>Whatever files a context with its ledger used, destroying it gives everything back.\<close>

lemma used_context_destroyed:
  assumes "openat_result K" "fd_values c" "fd_run K ops (c, e1) = (c2, e2)"
    and "ledgers e1 = (F + context_fds c, M + context_maps c, H + context_heap c)"
  shows "ledgers (snd (base_spe_context_destroy K c2 e2)) = (F, M, H)"
  using free_spe_context_ledgers [OF fd_run_ledgers [OF assms]]
  by (simp add: base_spe_context_destroy_def spe_context_update_event_def split: prod.splits)

text \<open>
  a context that cannot be created leaves nothing behind, on whatever step the creation
  fails; a context that is created gives back, when it is destroyed after any use of its files,
  every descriptor, mapping and heap block it took, and nothing else. It holds whatever the
  allocated memory contained, the reference counts the code leaves unset included.
\<close>

theorem context_lifecycle_balanced:
  assumes "base_spe_context_create K pb ps junk fl gctx aff cache e = Some (r, cache', e1)"
    and "\<not> has_flag fl SPE_ISOLATE_EMULATE \<or> cache \<noteq> None"
    and "openat_result K"
  shows "case r of None \<Rightarrow> ledgers e1 = ledgers e
    | Some c \<Rightarrow> (\<forall>ops. case fd_run K ops (c, e1) of
        (c2, e2) \<Rightarrow> ledgers (snd (base_spe_context_destroy K c2 e2)) = ledgers e)"
proof -
  obtain F M H where L: "ledgers e = (F, M, H)" by (cases "ledgers e")
  show ?thesis
  proof (cases r)
    case None
    then show ?thesis using context_create_ledgers [OF assms(1,2) L] L by (simp add: create_result_def)
  next
    case (Some c)
    note C = context_created [OF assms(1) [unfolded Some] assms(2) L]
    show ?thesis using Some L used_context_destroyed [OF assms(3) C(1) _ C(2)] by fastforce
  qed
qed

theorem context_lifecycle_balanced_witness:
  "\<exists>c e1. base_spe_context_create (const_kernel (reply_ok 5)) 8 4096 blank_context SPE_MAP_PS None
      None None (start_env Map.empty ()) = Some (Some c, None, e1) \<and>
    (case fd_run (const_kernel (reply_ok 5)) [Acquire FD_MBOX, Acquire FD_SIG1] (c, e1) of
      (c2, e2) \<Rightarrow> ledgers (snd (base_spe_context_destroy (const_kernel (reply_ok 5)) c2 e2)) =
        ({#}, {#}, {#}))"
proof -
  let ?K = "const_kernel (reply_ok 5) :: unit kernel"
  obtain c e1 where c: "base_spe_context_create ?K 8 4096 blank_context SPE_MAP_PS None
      None None (start_env Map.empty ()) = Some (Some c, None, e1)"
    by (simp add: base_spe_context_create_def create_dir_def create_areas_def create_signals_def
        map_ps_areas_def mapfileat_def sys_rv_def sys_def sample_simps spu_create_def ptr_of_def
        context_flags_def has_flag_def Let_def)
  have "openat_result ?K" by (simp add: openat_result_def sample_simps)
  moreover have "\<not> has_flag SPE_MAP_PS SPE_ISOLATE_EMULATE" by (simp add: has_flag_def)
  moreover have "ledgers (start_env Map.empty ()) = ({#}, {#}, {#})"
    by (simp add: ledgers_def start_env_def open_fds_def live_maps_def live_heap_def)
  ultimately show ?thesis using c context_lifecycle_balanced [OF c] by auto
qed

text \<open>The areas of a context that maps its problem state.\<close>

definition areas :: "spe_context \<Rightarrow> (addr \<times> nat) list" where
  "areas c = [(mfc_mmap_base c, MFC_SIZE), (cntl_mmap_base c, CNTL_SIZE),
     (signal1_mmap_base c, SIGNAL_SIZE), (signal2_mmap_base c, SIGNAL_SIZE)]"

definition apart :: "addr \<times> nat \<Rightarrow> addr \<times> nat \<Rightarrow> bool" where
  "apart x y \<longleftrightarrow> fst x + snd x \<le> fst y \<or> fst y + snd y \<le> fst x"

lemma map_ps_areas_areas:
  assumes "map_ps_areas K c e = (True, c', e')" "psmap_mmap_base c = MAP_FAILED"
  shows "mem_mmap_base c' = mem_mmap_base c \<and> flags c' = flags c \<and>
    (if psmap_mmap_base c' \<noteq> MAP_FAILED then
       (\<forall>x \<in> set ((mssync_mmap_base c', MSS_SIZE) # areas c').
          psmap_mmap_base c' \<le> fst x \<and> fst x + snd x \<le> psmap_mmap_base c' + PSMAP_SIZE) \<and>
       sorted_wrt apart ((mssync_mmap_base c', MSS_SIZE) # areas c')
     else MAP_FAILED \<notin> fst ` set (areas c'))"
proof -
  obtain ps e1 where ps: "mapfileat K (fd_spe_dir c) ''psmap'' PSMAP_SIZE e = (ps, e1)" by fastforce
  show ?thesis
  proof (cases "ps = MAP_FAILED")
    case False
    then have "c' = c\<lparr>psmap_mmap_base := ps, mssync_mmap_base := ps + MSSYNC_OFFSET,
           mfc_mmap_base := ps + MFC_OFFSET, cntl_mmap_base := ps + CNTL_OFFSET,
           signal1_mmap_base := ps + SIGNAL1_OFFSET, signal2_mmap_base := ps + SIGNAL2_OFFSET\<rparr>"
      using assms(1) ps by (simp add: map_ps_areas_def)
    then show ?thesis using False by (simp add: areas_def apart_def)
  next
    case True
    then obtain mfc mss cntl s1 s2 where "c' = c\<lparr>mfc_mmap_base := mfc, mssync_mmap_base := mss,
        cntl_mmap_base := cntl, signal1_mmap_base := s1, signal2_mmap_base := s2\<rparr>"
      and "MAP_FAILED \<notin> {mfc, cntl, s1, s2}"
      using assms(1) ps by (auto simp: map_ps_areas_def Let_def split: prod.splits)
    then show ?thesis using assms(2) by (simp add: areas_def)
  qed
qed

text \<open>
  a context created with \<open>SPE_MAP_PS\<close> (or isolated) has its local store and the command,
  control and signal areas mapped; when one mapping of the whole problem state was possible the
  areas, the multisource synchronisation area among them, lie in it and do not overlap. A
  context created otherwise has no problem state area.
\<close>

theorem context_areas_mapped:
  assumes "create_dir K fl gctx aff (fresh_context junk spe priv) e = (Some c, e')"
  shows "mem_mmap_base c \<noteq> MAP_FAILED \<and> flags c = context_flags fl \<and>
    (if has_flag (flags c) SPE_MAP_PS then
       if psmap_mmap_base c \<noteq> MAP_FAILED then
         (\<forall>x \<in> set ((mssync_mmap_base c, MSS_SIZE) # areas c).
            psmap_mmap_base c \<le> fst x \<and> fst x + snd x \<le> psmap_mmap_base c + PSMAP_SIZE) \<and>
         sorted_wrt apart ((mssync_mmap_base c, MSS_SIZE) # areas c)
       else MAP_FAILED \<notin> fst ` set (areas c)
     else fst ` set (areas c) = {MAP_FAILED} \<and> mssync_mmap_base c = MAP_FAILED)"
proof -
  let ?f = "fresh_context junk spe priv"
  obtain dir e0 where d: "create_areas K (context_flags fl) (?f\<lparr>fd_spe_dir := dir\<rparr>) e0 = (Some c, e')"
    using assms by (auto simp: create_dir_def create_fail_def Let_def split: prod.splits if_splits)
  obtain ls e1 where m: "mapfileat K dir ''mem'' LS_SIZE e0 = (ls, e1)" by fastforce
  let ?c1 = "?f\<lparr>fd_spe_dir := dir, flags := context_flags fl, mem_mmap_base := ls\<rparr>"
  obtain ok c2 e2 where ps: "(if has_flag (context_flags fl) SPE_MAP_PS then map_ps_areas K ?c1 e1
      else (True, ?c1, e1)) = (ok, c2, e2)" by (metis prod_cases3)
  have ls: "ls \<noteq> MAP_FAILED" and ok and s: "create_signals K (context_flags fl) c2 e2 = (Some c, e')"
    using d m ps by (auto simp: create_areas_def create_fail_def Let_def split: if_splits)
  have c: "c = c2"
    using s by (auto simp: create_signals_def create_fail_def Let_def split: if_splits prod.splits)
  have "psmap_mmap_base ?c1 = MAP_FAILED" "mssync_mmap_base ?c1 = MAP_FAILED"
    "fst ` set (areas ?c1) = {MAP_FAILED}"
    using fresh_context_facts(1) [of junk spe priv]
    by (simp_all add: unmapped_context_def areas_def)
  then show ?thesis using ps ls \<open>ok\<close> map_ps_areas_areas [of K ?c1 e1 c2 e2] unfolding c
    by (cases "has_flag (context_flags fl) SPE_MAP_PS") auto
qed

lemma sample_create_dir:
  "\<exists>c' e'. create_dir (const_kernel (reply_ok 5)) (SPE_MAP_PS OR SPE_CFG_SIGNOTIFY1_OR) None None
      (fresh_context blank_context 5 5) (start_env Map.empty ()) = (Some c', e') \<and>
    has_flag (flags c') SPE_MAP_PS"
  by (simp add: create_dir_def create_areas_def create_signals_def map_ps_areas_def mapfileat_def
      setsignotify_def sys_rv_def sys_def sample_simps spu_create_def ptr_of_def context_flags_def
      has_flag_def Let_def)

theorem context_areas_mapped_witness:
  "\<exists>c e'. create_dir (const_kernel (reply_ok 5)) (SPE_MAP_PS OR SPE_CFG_SIGNOTIFY1_OR) None None
      (fresh_context blank_context 5 5) (start_env Map.empty ()) = (Some c, e') \<and>
    mem_mmap_base c \<noteq> MAP_FAILED \<and> flags c = context_flags (SPE_MAP_PS OR SPE_CFG_SIGNOTIFY1_OR)"
  using sample_create_dir context_areas_mapped by blast

text \<open>
  the path of a context's directory fits its buffer of 256 characters, for any process id
  and address, also in a gang (whose own name is built the same way), and two contexts of one
  process at different addresses never get the same path.
\<close>

theorem context_pathname_fits:
  assumes "\<bar>pid\<bar> \<le> 2 ^ 31" "spe < 2 ^ 64"
    and "\<And>g. gctx = Some g \<Longrightarrow> \<exists>a < 2 ^ 64. gangname g = gang_name pid a"
  shows "length (c_bytes (context_pathname gctx pid spe)) \<le> 256 \<and>
    (context_pathname gctx pid spe = context_pathname gctx pid spe' \<longrightarrow> spe = spe')"
proof -
  have p: "length (dec_int pid) \<le> 11" using dec_int_length [of pid 9] assms(1) by simp
  have s: "length (dec a) \<le> 20" if "a < 2 ^ 64" for a using dec_length [of a 19] that by simp
  have "length (c_bytes (context_pathname gctx pid spe)) \<le> 256"
  proof (cases gctx)
    case None
    then show ?thesis using p s [OF assms(2)] by (simp add: context_pathname_def)
  next
    case (Some g)
    then obtain a where "a < 2 ^ 64" "gangname g = gang_name pid a" using assms(3) by blast
    then show ?thesis using Some p s [OF assms(2)] s [of a]
      by (simp add: context_pathname_def gang_name_def)
  qed
  then show ?thesis by (auto simp: context_pathname_def dec_inj split: option.splits)
qed

theorem context_pathname_fits_witness:
  "length (c_bytes (context_pathname (Some \<lparr>gang_ptr = 0, gang_priv_ptr = 0, gang_flags = 0,
      fd_gang_dir = 3, gangname = gang_name 4711 0x1000\<rparr>) 4711 0x2000)) \<le> 256"
proof -
  have "\<exists>a < 2 ^ 64. gang_name 4711 0x1000 = gang_name 4711 a" by (rule exI [of _ "0x1000"]) simp
  then show ?thesis by (intro context_pathname_fits [THEN conjunct1]) auto
qed

text \<open>
  creating a gang and destroying it leaves nothing behind, and a gang that cannot be created
  leaves nothing behind either.
\<close>

theorem gang_lifecycle_balanced:
  assumes "base_spe_gang_context_create K fl e = (r, e1)"
  shows "case r of None \<Rightarrow> ledgers e1 = ledgers e
    | Some g \<Rightarrow> gang_flags g = fl \<and> ledgers (snd (base_spe_gang_context_destroy K g e1)) = ledgers e"
proof -
  obtain F M H where L: "ledgers e = (F, M, H)" by (cases "ledgers e")
  obtain p e2 where p: "sys_rv K (Malloc SIZEOF_GANG_CONTEXT) e = (p, e2)" by fastforce
  obtain q e3 where q: "sys_rv K (Malloc SIZEOF_GANG_PRIV) e2 = (q, e3)" by fastforce
  obtain pid e4 where pid: "sys_rv K Getpid e3 = (pid, e4)" by fastforce
  obtain dir e5 where d: "spu_create K (''/spu/'' @ gang_name pid (nat p)) SPU_CREATE_GANG 0 e4 = (dir, e5)"
    by fastforce
  let ?g = "\<lparr>gang_ptr = nat p, gang_priv_ptr = nat q, gang_flags = 0, fd_gang_dir = dir,
    gangname = gang_name pid (nat p)\<rparr>"
  note L5 = ledgers_sys_rv [OF d [unfolded spu_create_def] ledgers_sys_rv [OF pid
    ledgers_sys_rv [OF q ledgers_sys_rv [OF p L]]]]
  have free: "ledgers (snd (free_spe_gang_context K g e5)) = (F, M, H)"
    if "p > 0" "q > 0" "gang_ptr g = nat p" "gang_priv_ptr g = nat q" "fd_gang_dir g = dir" for g
  proof -
    have "ledgers e5 = (F + opt_fd dir, M, H + {#nat q, nat p#})" using L5 that by (simp add: opt_fd_def)
    from ledgers_close_if_valid [OF this]
    have "ledgers (close_if_valid K dir e5) = (F, M, H + {#nat q, nat p#})" .
    from ledgers_snd_sys_rv [OF this, of "Free (nat q)" "nat q"]
    have "ledgers (snd (sys_rv K (Free (nat q)) (close_if_valid K dir e5))) = (F, M, add_mset (nat p) H)"
      by simp
    from ledgers_snd_sys_rv [OF this, of "Free (nat p)" "nat p"]
    show ?thesis using that by (simp add: free_spe_gang_context_def Let_def)
  qed
  consider "p \<le> 0" "r = None" "e1 = e2"
    | "p > 0" "q \<le> 0" "r = None" "e1 = snd (sys_rv K (Free (nat p)) e3)"
    | "p > 0" "q > 0" "r = None" "e1 = set_errno EFAULT (snd (free_spe_gang_context K ?g e5))"
    | "p > 0" "q > 0" "r = Some (?g\<lparr>gang_flags := fl\<rparr>)" "e1 = e5"
    using assms p q pid d by (auto simp: base_spe_gang_context_create_def Let_def split: if_splits)
  then show ?thesis
  proof cases
    case 1
    then show ?thesis using ledgers_sys_rv [OF p L] L by simp
  next
    case 2
    have "ledgers e3 = (F, M, add_mset (nat p) H)"
      using ledgers_sys_rv [OF q ledgers_sys_rv [OF p L]] 2 by simp
    from ledgers_snd_sys_rv [OF this, of "Free (nat p)"] show ?thesis using 2 L by simp
  next
    case 3
    then show ?thesis using free [of ?g] L by simp
  next
    case 4
    then show ?thesis using free [of "?g\<lparr>gang_flags := fl\<rparr>"] L
      by (simp add: base_spe_gang_context_destroy_def)
  qed
qed

theorem gang_lifecycle_balanced_witness:
  "\<exists>g e1. base_spe_gang_context_create (const_kernel (reply_ok 5)) 0 (start_env Map.empty ()) =
      (Some g, e1) \<and>
    ledgers (snd (base_spe_gang_context_destroy (const_kernel (reply_ok 5)) g e1)) = ({#}, {#}, {#})"
proof -
  obtain g e1 where g: "base_spe_gang_context_create (const_kernel (reply_ok 5)) 0
      (start_env Map.empty ()) = (Some g, e1)"
    by (simp add: base_spe_gang_context_create_def sys_rv_def sys_def sample_simps spu_create_def Let_def)
  moreover have "ledgers (start_env Map.empty ()) = ({#}, {#}, {#})"
    by (simp add: ledgers_def start_env_def open_fds_def live_maps_def live_heap_def)
  ultimately show ?thesis using gang_lifecycle_balanced [OF g] by auto
qed

text \<open>
  the write that switches a signal notification register to OR mode may fail without any
  effect on the result: the context is created all the same.
\<close>

theorem signal_mode_unchecked:
  assumes "fst (sys_rv K (Openat dir name O_RDWR) e) \<ge> 0"
  shows "fst (setsignotify K dir name e) = 0"
  using assms by (auto simp: setsignotify_def Let_def split: prod.splits)

theorem signal_mode_unchecked_witness:
  "fst (setsignotify (const_kernel (reply_ok 5)) 3 ''signal1_type'' (start_env Map.empty ())) = 0"
  by (rule signal_mode_unchecked) (simp add: sys_rv_def sys_def sample_simps)

end
