(* ===== verification/Spe_Access.thy ===== *)
theory Spe_Access
  imports Spe_Create
begin

unbundle bit_operations_syntax

text \<open>
  The accessors of a context (\<open>spebase/accessors.c\<close>) and the start-up code that loads the first
  registers of a program from the parameters of a run (\<open>spebase/regs.c\<close>).
\<close>

section \<open>Accessors\<close>

definition base_spe_ps_area_get :: "spe_context \<Rightarrow> ps_area \<Rightarrow> 'w env \<Rightarrow> addr \<times> 'w env" where
  "base_spe_ps_area_get c area e =
     (case (case area of
              SPE_MSSYNC_AREA \<Rightarrow> Some (mssync_mmap_base c)
            | SPE_MFC_COMMAND_AREA \<Rightarrow> Some (mfc_mmap_base c)
            | SPE_CONTROL_AREA \<Rightarrow> Some (cntl_mmap_base c)
            | SPE_SIG_NOTIFY_1_AREA \<Rightarrow> Some (signal1_mmap_base c)
            | SPE_SIG_NOTIFY_2_AREA \<Rightarrow> Some (signal2_mmap_base c)
            | Other_area _ \<Rightarrow> None) of
        None \<Rightarrow> (NULL, set_errno EINVAL e)
      | Some ptr \<Rightarrow> if ptr = MAP_FAILED then (NULL, set_errno EACCES e) else (ptr, e))"

definition base_spe_ls_area_get :: "spe_context \<Rightarrow> addr" where
  "base_spe_ls_area_get c = mem_mmap_base c"

definition base_spe_ls_size_get :: "spe_context \<Rightarrow> int" where
  "base_spe_ls_size_get c = int LS_SIZE"

definition base_spe_event_source_acquire ::
  "'w kernel \<Rightarrow> spe_context \<Rightarrow> fd_name \<Rightarrow> 'w env \<Rightarrow> int \<times> spe_context \<times> 'w env" where
  "base_spe_event_source_acquire K c f e = base_spe_open_if_closed K c f False e"

definition base_spe_event_source_release ::
  "'w kernel \<Rightarrow> spe_context \<Rightarrow> fd_name \<Rightarrow> 'w env \<Rightarrow> spe_context \<times> 'w env" where
  "base_spe_event_source_release K c f e = base_spe_close_if_open K c f e"

definition base_spe_spe_dir_get :: "spe_context \<Rightarrow> int" where
  "base_spe_spe_dir_get c = fd_spe_dir c"

definition base_spe_stop_event_source_get :: "spe_context \<Rightarrow> int" where
  "base_spe_stop_event_source_get c = snd (ev_pipe c)"

definition base_spe_stop_event_target_get :: "spe_context \<Rightarrow> int" where
  "base_spe_stop_event_target_get c = fst (ev_pipe c)"

section \<open>The register trampoline\<close>

text \<open>\<open>reg_setup_trampoline\<close>: the space of a \<open>struct spe_reg_state\<close>, then twelve words.\<close>

abbreviation (input) SIZEOF_REG_STATE :: nat where "SIZEOF_REG_STATE \<equiv> 80"

definition trampoline_code :: "u32 list" where
  "trampoline_code =
     [0x33fff603, 0x33fff784, 0x33fff905, 0x00200000, 0x33fffa06, 0x33fffb81, 0x40800002, 0x35200081,
      0, 0, 0, 0]"

definition words_bytes :: "u32 list \<Rightarrow> u8 list" where
  "words_bytes ws = concat (map bytes_of_word ws)"

definition reg_setup_trampoline :: "u8 list" where
  "reg_setup_trampoline = words_bytes (replicate 20 0 @ trampoline_code)"

definition reg_state_bytes :: "spe_reg_state \<Rightarrow> u8 list" where
  "reg_state_bytes r =
     words_bytes (reg_r3 r @ reg_r4 r @ reg_r5 r @ reg_r6 r @ reg_entry r)"

abbreviation (input) TRAMPOLINE_BASE :: nat where "TRAMPOLINE_BASE \<equiv> 0x3FF80"

text \<open>The result, the new value of \<open>*entry\<close> and the environment.\<close>

definition base_spe_setup_registers ::
  "spe_context \<Rightarrow> spe_reg_state \<Rightarrow> 'w env \<Rightarrow> (int \<times> u32 \<times> 'w env) option" where
  "base_spe_setup_registers c regs e =
     (let base_addr = LS_SIZE - length reg_setup_trampoline in do {
        m1 \<leftarrow> store_bytes (mem e) (mem_mmap_base c + base_addr) reg_setup_trampoline;
        m2 \<leftarrow> store_bytes m1 (mem_mmap_base c + base_addr) (reg_state_bytes regs);
        Some (0, of_nat (base_addr + SIZEOF_REG_STATE), e\<lparr>mem := m2\<rparr>) })"

section \<open>The first instructions of a program\<close>

text \<open>
  The meaning of the five instructions of the trampoline, as its comments give it: load a
  quadword relative to the instruction, no operation, load an immediate, branch and set link.
\<close>

record spu_state =
  spu_pc :: nat
  spu_reg :: "nat \<Rightarrow> u32 list"

definition ri16 :: "u32 \<Rightarrow> int" where
  "ri16 insn = sint (ucast (drop_bit 7 insn) :: 16 word)"

definition load_quad :: "memory \<Rightarrow> addr \<Rightarrow> u32 list option" where
  "load_quad m a = do {
     w0 \<leftarrow> load32 m a; w1 \<leftarrow> load32 m (a + 4); w2 \<leftarrow> load32 m (a + 8); w3 \<leftarrow> load32 m (a + 12);
     Some [w0, w1, w2, w3] }"

definition spu_step :: "memory \<Rightarrow> addr \<Rightarrow> spu_state \<Rightarrow> spu_state option" where
  "spu_step m ls s = do {
     insn \<leftarrow> load32 m (ls + spu_pc s);
     let rt = unat (insn AND 0x7F);
     let next_pc = spu_pc s + 4;
     if drop_bit 23 insn = 0x67 then do {
       q \<leftarrow> load_quad m (ls + nat ((int (spu_pc s) + 4 * ri16 insn) div 16 * 16));
       Some (s\<lparr>spu_pc := next_pc, spu_reg := (spu_reg s)(rt := q)\<rparr>) }
     else if drop_bit 21 insn = 1 then Some (s\<lparr>spu_pc := next_pc\<rparr>)
     else if drop_bit 23 insn = 0x81 then
       Some (s\<lparr>spu_pc := next_pc, spu_reg := (spu_reg s)(rt := replicate 4 (word_of_int (ri16 insn)))\<rparr>)
     else if drop_bit 21 insn = 0x1A9 then
       (let ra = unat (drop_bit 7 insn AND 0x7F) in
        Some (s\<lparr>spu_pc := unat (hd (spu_reg s ra) AND 0x3FFFC),
                spu_reg := (spu_reg s)(rt := [of_nat next_pc, 0, 0, 0])\<rparr>))
     else None }"

fun spu_steps :: "memory \<Rightarrow> addr \<Rightarrow> nat \<Rightarrow> spu_state \<Rightarrow> spu_state option" where
  "spu_steps m ls 0 s = Some s"
| "spu_steps m ls (Suc n) s = do { s1 \<leftarrow> spu_step m ls s; spu_steps m ls n s1 }"

section \<open>Facts\<close>

lemma words_bytes_simps [simp]: "words_bytes [] = []" "words_bytes (w # ws) = bytes_of_word w @ words_bytes ws"
  "words_bytes (ws @ vs) = words_bytes ws @ words_bytes vs"
  by (simp_all add: words_bytes_def)

lemma length_words_bytes [simp]: "length (words_bytes ws) = 4 * length ws"
  by (induction ws) simp_all

lemma load32_word_list:
  "load_bytes m a (4 * length ws) = Some (words_bytes ws) \<Longrightarrow> i < length ws \<Longrightarrow>
   load32 m (a + 4 * i) = Some (ws ! i)"
proof (induction ws arbitrary: a i)
  case (Cons w ws)
  have n: "4 * length (w # ws) = 4 + 4 * length ws" by simp
  obtain xs ys where x: "load_bytes m a 4 = Some xs" "load_bytes m (a + 4) (4 * length ws) = Some ys"
    and eq: "xs @ ys = bytes_of_word w @ words_bytes ws"
    using Cons.prems(1) unfolding n by (auto simp: load_bytes_add split: Option.bind_splits)
  moreover have "length xs = 4" using load_bytes_length [OF x(1)] .
  ultimately have "xs = bytes_of_word w" "ys = words_bytes ws" by auto
  with x Cons.IH [of "a + 4" "i - 1"] Cons.prems(2) show ?case
    by (cases i) (simp_all add: load32_def ac_simps)
qed simp

lemma trampoline_code_length [simp]: "length trampoline_code = 12"
  by (simp add: trampoline_code_def)

lemma reg_setup_trampoline_length [simp]: "length reg_setup_trampoline = 128"
  by (simp add: reg_setup_trampoline_def trampoline_code_def)

definition quads :: "spe_reg_state \<Rightarrow> bool" where
  "quads r \<longleftrightarrow> length (reg_r3 r) = 4 \<and> length (reg_r4 r) = 4 \<and> length (reg_r5 r) = 4 \<and>
     length (reg_r6 r) = 4 \<and> length (reg_entry r) = 4"

definition reg_words :: "spe_reg_state \<Rightarrow> u32 list" where
  "reg_words r = reg_r3 r @ reg_r4 r @ reg_r5 r @ reg_r6 r @ reg_entry r"

text \<open>What the end of the local store holds after the set-up.\<close>

lemma setup_registers_memory:
  assumes "mapped (mem e) (mem_mmap_base c) LS_SIZE" "quads regs"
  shows "\<exists>m2. base_spe_setup_registers c regs e = Some (0, 0x3FFD0, e\<lparr>mem := m2\<rparr>) \<and>
    same_outside (mem e) m2 {mem_mmap_base c + TRAMPOLINE_BASE..<mem_mmap_base c + LS_SIZE} \<and>
    (\<forall>i < 32. load32 m2 (mem_mmap_base c + TRAMPOLINE_BASE + 4 * i) =
      Some ((reg_words regs @ trampoline_code) ! i))"
proof -
  let ?b = "mem_mmap_base c + TRAMPOLINE_BASE" and ?rb = "reg_state_bytes regs"
  have lr: "length ?rb = 80" using assms(2) by (simp add: reg_state_bytes_def quads_def)
  have mp: "mapped (mem e) ?b 128" by (rule mapped_sub [OF assms(1)]) simp_all
  then obtain m1 where m1: "store_bytes (mem e) ?b reg_setup_trampoline = Some m1"
    using store_bytes_mapped [of "mem e" ?b reg_setup_trampoline] by auto
  have "mapped m1 ?b 80"
    by (rule mapped_sub [of _ ?b 128]) (use mp mapped_dom [OF store_bytes_dom [OF m1]] in simp_all)
  then obtain m2 where m2: "store_bytes m1 ?b ?rb = Some m2"
    using store_bytes_mapped [of m1 ?b ?rb] lr by auto
  have o1: "same_outside (mem e) m1 {?b..<?b + 128}"
    using store_bytes_same_outside [OF m1] by simp
  have o2: "same_outside m1 m2 {?b..<?b + 128}"
    using store_bytes_same_outside [OF m2] lr by (auto intro: same_outside_mono)
  have o: "same_outside (mem e) m2 {?b..<mem_mmap_base c + LS_SIZE}"
    using same_outside_trans [OF o1 o2] by (simp add: ac_simps)
  have "load_bytes m2 ?b 80 = Some ?rb" using load_store_bytes [OF m2] lr by simp
  moreover have "load_bytes m2 (?b + 80) 48 = Some (words_bytes trampoline_code)"
  proof -
    have "load_bytes m1 ?b (80 + 48) = Some (words_bytes (replicate 20 0) @ words_bytes trampoline_code)"
      using load_store_bytes [OF m1] by (simp add: reg_setup_trampoline_def)
    then obtain xs ys where x: "load_bytes m1 ?b 80 = Some xs" "load_bytes m1 (?b + 80) 48 = Some ys"
      and eq: "xs @ ys = words_bytes (replicate 20 0) @ words_bytes trampoline_code"
      unfolding load_bytes_add by (auto split: Option.bind_splits)
    have "length xs = 80" using load_bytes_length [OF x(1)] .
    then have "ys = words_bytes trampoline_code" using eq by (simp add: append_eq_append_conv)
    moreover have "load_bytes m2 (?b + 80) 48 = load_bytes m1 (?b + 80) 48"
      by (rule load_store_bytes_other [OF m2]) (simp add: lr)
    ultimately show ?thesis using x by simp
  qed
  ultimately have "load_bytes m2 ?b (80 + 48) = Some (?rb @ words_bytes trampoline_code)"
    unfolding load_bytes_add by simp
  moreover have "?rb @ words_bytes trampoline_code = words_bytes (reg_words regs @ trampoline_code)"
    by (simp add: reg_state_bytes_def reg_words_def)
  moreover have "length (reg_words regs @ trampoline_code) = 32"
    using assms(2) by (simp add: reg_words_def quads_def trampoline_code_def)
  ultimately have "\<forall>i < 32. load32 m2 (?b + 4 * i) = Some ((reg_words regs @ trampoline_code) ! i)"
    using load32_word_list [of m2 ?b "reg_words regs @ trampoline_code"] by simp
  with m1 m2 o show ?thesis by (auto simp: base_spe_setup_registers_def)
qed

lemma sint_16 [simp]: "ri16 0x33fff603 = -20" "ri16 0x33fff784 = -17" "ri16 0x33fff905 = -14"
  "ri16 0x33fffa06 = -12" "ri16 0x33fffb81 = -9" "ri16 0x40800002 = 0"
  by (simp_all add: ri16_def)

section \<open>Properties\<close>

lemma setup_registers_ok:
  assumes "mapped (mem e) (mem_mmap_base c) LS_SIZE" "quads regs"
  shows "\<exists>e' entry. base_spe_setup_registers c regs e = Some (0, entry, e') \<and>
    same_outside (mem e) (mem e') {mem_mmap_base c + TRAMPOLINE_BASE..<mem_mmap_base c + LS_SIZE} \<and>
    load_quad (mem e') (mem_mmap_base c + 0x3FFF0) = Some [0, 0, 0, 0] \<and>
    (\<forall>s. spu_pc s = unat entry \<longrightarrow>
      (\<exists>s'. spu_steps (mem e') (mem_mmap_base c) 8 s = Some s' \<and>
        spu_reg s' 3 = reg_r3 regs \<and> spu_reg s' 4 = reg_r4 regs \<and> spu_reg s' 5 = reg_r5 regs \<and>
        spu_reg s' 6 = reg_r6 regs \<and> spu_reg s' 2 = [0, 0, 0, 0] \<and>
        spu_reg s' 1 = [0x3FFF0, 0, 0, 0] \<and> spu_pc s' = unat (hd (reg_entry regs) AND 0x3FFFC)))"
proof -
  let ?ls = "mem_mmap_base c"
  obtain m2 where m2: "base_spe_setup_registers c regs e = Some (0, 0x3FFD0, e\<lparr>mem := m2\<rparr>)"
    "same_outside (mem e) m2 {?ls + TRAMPOLINE_BASE..<?ls + LS_SIZE}"
    and "\<forall>i < 32. load32 m2 (?ls + TRAMPOLINE_BASE + 4 * i) =
      Some ((reg_words regs @ trampoline_code) ! i)"
    using setup_registers_memory [OF assms] by blast
  then have w: "load32 m2 (?ls + (TRAMPOLINE_BASE + 4 * i)) = Some ((reg_words regs @ trampoline_code) ! i)"
    if "i < 32" for i using that by (simp only: add.assoc)
  obtain a0 a1 a2 a3 b0 b1 b2 b3 c0 c1 c2 c3 d0 d1 d2 d3 f0 f1 f2 f3 where r:
    "reg_r3 regs = [a0, a1, a2, a3]" "reg_r4 regs = [b0, b1, b2, b3]" "reg_r5 regs = [c0, c1, c2, c3]"
    "reg_r6 regs = [d0, d1, d2, d3]" "reg_entry regs = [f0, f1, f2, f3]"
    using assms(2) by (auto simp: quads_def length_Suc_conv eval_nat_numeral)
  note ws = w [of 0] w [of 1] w [of 2] w [of 3] w [of 4] w [of 5] w [of 6] w [of 7] w [of 8] w [of 9]
    w [of 10] w [of 11] w [of 12] w [of 13] w [of 14] w [of 15] w [of 16] w [of 17] w [of 18] w [of 19]
    w [of 20] w [of 21] w [of 22] w [of 23] w [of 24] w [of 25] w [of 26] w [of 27] w [of 28] w [of 29]
    w [of 30] w [of 31]
  note l = ws [simplified, unfolded reg_words_def r trampoline_code_def, simplified]
  note l2 = l [unfolded add.commute [of ?ls]]
  have q: "load_quad m2 (?ls + 0x3FF80) = Some [a0, a1, a2, a3]"
    "load_quad m2 (?ls + 0x3FF90) = Some [b0, b1, b2, b3]"
    "load_quad m2 (?ls + 0x3FFA0) = Some [c0, c1, c2, c3]"
    "load_quad m2 (?ls + 0x3FFB0) = Some [d0, d1, d2, d3]"
    "load_quad m2 (?ls + 0x3FFC0) = Some [f0, f1, f2, f3]"
    "load_quad m2 (?ls + 0x3FFF0) = Some [0, 0, 0, 0]"
    by (simp_all add: load_quad_def l l2)
  have steps:
    "spu_pc t = 0x3FFD0 \<Longrightarrow> spu_step m2 ?ls t = Some (t\<lparr>spu_pc := 0x3FFD4, spu_reg := (spu_reg t)(3 := reg_r3 regs)\<rparr>)"
    "spu_pc t = 0x3FFD4 \<Longrightarrow> spu_step m2 ?ls t = Some (t\<lparr>spu_pc := 0x3FFD8, spu_reg := (spu_reg t)(4 := reg_r4 regs)\<rparr>)"
    "spu_pc t = 0x3FFD8 \<Longrightarrow> spu_step m2 ?ls t = Some (t\<lparr>spu_pc := 0x3FFDC, spu_reg := (spu_reg t)(5 := reg_r5 regs)\<rparr>)"
    "spu_pc t = 0x3FFDC \<Longrightarrow> spu_step m2 ?ls t = Some (t\<lparr>spu_pc := 0x3FFE0\<rparr>)"
    "spu_pc t = 0x3FFE0 \<Longrightarrow> spu_step m2 ?ls t = Some (t\<lparr>spu_pc := 0x3FFE4, spu_reg := (spu_reg t)(6 := reg_r6 regs)\<rparr>)"
    "spu_pc t = 0x3FFE4 \<Longrightarrow> spu_step m2 ?ls t = Some (t\<lparr>spu_pc := 0x3FFE8, spu_reg := (spu_reg t)(1 := reg_entry regs)\<rparr>)"
    "spu_pc t = 0x3FFE8 \<Longrightarrow> spu_step m2 ?ls t = Some (t\<lparr>spu_pc := 0x3FFEC, spu_reg := (spu_reg t)(2 := replicate 4 0)\<rparr>)"
    "spu_pc t = 0x3FFEC \<Longrightarrow> spu_step m2 ?ls t = Some (t\<lparr>spu_pc := unat (hd (spu_reg t 1) AND 0x3FFFC),
        spu_reg := (spu_reg t)(1 := [0x3FFF0, 0, 0, 0])\<rparr>)" for t
    by (simp_all add: spu_step_def l l2 q r)
  have eight: "(8 :: nat) = Suc (Suc (Suc (Suc (Suc (Suc (Suc (Suc 0)))))))" by simp
  have four: "replicate 4 (0 :: u32) = [0, 0, 0, 0]" by (simp add: eval_nat_numeral)
  have "\<exists>s'. spu_steps m2 ?ls 8 s = Some s' \<and>
        spu_reg s' 3 = reg_r3 regs \<and> spu_reg s' 4 = reg_r4 regs \<and> spu_reg s' 5 = reg_r5 regs \<and>
        spu_reg s' 6 = reg_r6 regs \<and> spu_reg s' 2 = [0, 0, 0, 0] \<and>
        spu_reg s' 1 = [0x3FFF0, 0, 0, 0] \<and> spu_pc s' = unat (hd (reg_entry regs) AND 0x3FFFC)"
    if "spu_pc s = 0x3FFD0" for s
    unfolding eight using that by (simp add: steps four)
  then show ?thesis using m2 q(6) by auto
qed

text \<open>
  setting up the registers writes the last 128 bytes of the local store only, and the eight
  instructions at the returned entry point leave the caller's quadwords in registers 3 to 6,
  zero in register 2, the address of a null back chain in register 1 (the stack pointer) and
  continue at the program's entry point.
\<close>

theorem setup_registers_starts_program:
  assumes "mapped (mem e) (mem_mmap_base c) LS_SIZE" "quads regs"
  shows "\<exists>e' entry. base_spe_setup_registers c regs e = Some (0, entry, e') \<and>
    same_outside (mem e) (mem e') {mem_mmap_base c + TRAMPOLINE_BASE..<mem_mmap_base c + LS_SIZE} \<and>
    load_quad (mem e') (mem_mmap_base c + 0x3FFF0) = Some [0, 0, 0, 0] \<and>
    (\<forall>s. spu_pc s = unat entry \<longrightarrow>
      (\<exists>s'. spu_steps (mem e') (mem_mmap_base c) 8 s = Some s' \<and>
        spu_reg s' 3 = reg_r3 regs \<and> spu_reg s' 4 = reg_r4 regs \<and> spu_reg s' 5 = reg_r5 regs \<and>
        spu_reg s' 6 = reg_r6 regs \<and> spu_reg s' 2 = [0, 0, 0, 0] \<and>
        spu_reg s' 1 = [0x3FFF0, 0, 0, 0] \<and> spu_pc s' = unat (hd (reg_entry regs) AND 0x3FFFC)))"
  by (rule setup_registers_ok [OF assms])

theorem setup_registers_starts_program_witness:
  "\<exists>e' entry. base_spe_setup_registers (blank_context\<lparr>mem_mmap_base := 0x100000\<rparr>)
      \<lparr>reg_r3 = [1, 2, 3, 4], reg_r4 = [5, 6, 7, 8], reg_r5 = [9, 10, 11, 12], reg_r6 = [0, 0, 0, 0],
       reg_entry = [0x80, 0, 0, 0]\<rparr> (start_env (\<lambda>_. Some 0) ()) = Some (0, entry, e') \<and>
    load_quad (mem e') (0x100000 + 0x3FFF0) = Some [0, 0, 0, 0]"
proof -
  let ?c = "blank_context\<lparr>mem_mmap_base := 0x100000\<rparr>"
  let ?r = "\<lparr>reg_r3 = [1, 2, 3, 4], reg_r4 = [5, 6, 7, 8], reg_r5 = [9, 10, 11, 12],
    reg_r6 = [0, 0, 0, 0], reg_entry = [0x80, 0, 0, 0]\<rparr>"
  have "mapped (mem (start_env (\<lambda>_. Some 0) ())) (mem_mmap_base ?c) LS_SIZE"
    by (simp add: mapped_def start_env_def)
  moreover have "quads ?r" by (simp add: quads_def)
  ultimately show ?thesis
    using setup_registers_starts_program [of "start_env (\<lambda>_. Some 0) ()" ?c ?r] by fastforce
qed

end
