(* ===== verification/Spe_Callbacks.thy ===== *)
theory Spe_Callbacks
  imports Spe_Types
begin

unbundle bit_operations_syntax

text \<open>
  The table of library call handlers (\<open>spebase/lib_builtin.c\<close>): the default handlers and those
  the application registers, and the dispatch of a call the SPU program makes. The code of a
  handler is a parameter \<open>H\<close>: the default handlers are modelled in theories of their own, the
  others are the application's.
\<close>

section \<open>The code\<close>

datatype handler = Default_c99 | Default_posix1 | Default_libea | User addr

type_synonym handlers = "nat \<Rightarrow> handler option"

abbreviation (input) MAX_CALLNUM :: u32 where "MAX_CALLNUM \<equiv> 255"
abbreviation (input) RESERVED :: u32 where "RESERVED \<equiv> 4"
abbreviation (input) SPE_C99_CLASS :: nat where "SPE_C99_CLASS \<equiv> 0x2100"
abbreviation (input) SPE_POSIX1_CLASS :: nat where "SPE_POSIX1_CLASS \<equiv> 0x2101"
abbreviation (input) SPE_LIBEA_CLASS :: nat where "SPE_LIBEA_CLASS \<equiv> 0x2105"

definition handler_idx :: "nat \<Rightarrow> nat" where
  "handler_idx x = x mod 256"

definition initial_handlers :: handlers where
  "initial_handlers = Map.empty(handler_idx SPE_C99_CLASS \<mapsto> Default_c99,
     handler_idx SPE_POSIX1_CLASS \<mapsto> Default_posix1, handler_idx SPE_LIBEA_CLASS \<mapsto> Default_libea)"

definition base_spe_callback_handler_register ::
  "handler option \<Rightarrow> u32 \<Rightarrow> u32 \<Rightarrow> handlers \<Rightarrow> 'w env \<Rightarrow> int \<times> handlers \<times> 'w env" where
  "base_spe_callback_handler_register handler callnum mode hs e0 =
     (let e = set_errno 0 e0; fail = (\<lambda>x. (-1, hs, set_errno x e)) in
      if callnum > MAX_CALLNUM then fail EINVAL
      else if mode = SPE_CALLBACK_NEW then
        (if callnum < RESERVED then fail EACCES
         else if hs (unat callnum) \<noteq> None then fail EACCES
         else if handler = None then fail EINVAL
         else (0, hs(unat callnum := handler), e))
      else if mode = SPE_CALLBACK_UPDATE then
        (if hs (unat callnum) = None then fail ESRCH
         else if handler = None then fail EINVAL
         else (0, hs(unat callnum := handler), e))
      else fail EINVAL)"

definition base_spe_callback_handler_deregister ::
  "u32 \<Rightarrow> handlers \<Rightarrow> 'w env \<Rightarrow> int \<times> handlers \<times> 'w env" where
  "base_spe_callback_handler_deregister callnum hs e0 =
     (let e = set_errno 0 e0; fail = (\<lambda>x. (-1, hs, set_errno x e)) in
      if callnum > MAX_CALLNUM then fail EINVAL
      else if callnum < RESERVED then fail EACCES
      else if hs (unat callnum) = None then fail ESRCH
      else (0, hs(unat callnum := None), e))"

definition base_spe_callback_handler_query ::
  "u32 \<Rightarrow> handlers \<Rightarrow> 'w env \<Rightarrow> handler option \<times> 'w env" where
  "base_spe_callback_handler_query callnum hs e0 =
     (let e = set_errno 0 e0 in
      if callnum > MAX_CALLNUM then (None, set_errno EINVAL e)
      else if hs (unat callnum) = None then (None, set_errno ESRCH e)
      else (hs (unat callnum), e))"

type_synonym 'w handler_code = "handler \<Rightarrow> addr \<Rightarrow> u32 \<Rightarrow> 'w env \<Rightarrow> (int \<times> 'w env) option"

definition base_spe_handle_library_callback ::
  "'w handler_code \<Rightarrow> handlers \<Rightarrow> spe_context \<Rightarrow> nat \<Rightarrow> u32 \<Rightarrow> 'w env \<Rightarrow> (int \<times> 'w env) option" where
  "base_spe_handle_library_callback H hs c callnum npc e0 =
     (let e = set_errno 0 e0 in
      case hs callnum of
        None \<Rightarrow> Some (-1, set_errno ENOSYS e)
      | Some handler \<Rightarrow>
        let npc1 = (if has_flag (flags c) SPE_ISOLATE_EMULATE then SPE_EMULATE_PARAM_BUFFER else npc) in
        do { (rc, e1) \<leftarrow> H handler (mem_mmap_base c) npc1 e;
             if rc \<noteq> 0 then Some (rc, set_errno ENOSYS e1) else Some (0, e1) })"

section \<open>The contract of the table\<close>

text \<open>
  A registry: entries are added where there is none, replaced where there is one, and removed,
  except that some keys are protected; a refused operation changes nothing.
\<close>

datatype 'h reg_op = Register "'h option" u32 u32 | Deregister u32

locale registry =
  fixes perform :: "'h reg_op \<Rightarrow> 's \<Rightarrow> 's"
    and found :: "'s \<Rightarrow> u32 \<Rightarrow> 'h option"
    and protected :: "u32 \<Rightarrow> bool"
    and valid :: "u32 \<Rightarrow> bool"
  assumes other: "x \<noteq> k \<Longrightarrow>
      (\<exists>h m. p = Register h k m) \<or> p = Deregister k \<Longrightarrow> found (perform p s) x = found s x"
    and added: "valid k \<Longrightarrow> \<not> protected k \<Longrightarrow> found s k = None \<Longrightarrow>
      found (perform (Register h k SPE_CALLBACK_NEW) s) k = h"
    and replaced: "valid k \<Longrightarrow> found s k \<noteq> None \<Longrightarrow> h \<noteq> None \<Longrightarrow>
      found (perform (Register h k SPE_CALLBACK_UPDATE) s) k = h"
    and not_removed: "found s k \<noteq> None \<Longrightarrow> found (perform (Register h k m) s) k \<noteq> None"
    and removed: "valid k \<Longrightarrow> \<not> protected k \<Longrightarrow> found (perform (Deregister k) s) k = None"
    and kept: "protected k \<Longrightarrow> found (perform (Deregister k) s) k = found s k"
    and not_added: "protected k \<Longrightarrow> found s k = None \<Longrightarrow> found (perform (Register h k m) s) k = None"
begin

definition run :: "'h reg_op list \<Rightarrow> 's \<Rightarrow> 's" where
  "run ps s = fold perform ps s"

lemma step_protected:
  assumes "protected k"
  shows "(found (perform p s) k = None) = (found s k = None)"
proof (cases p)
  case (Register h k' m)
  then show ?thesis using other [of k k' p s] not_removed [of s k h m] not_added [OF assms, of s h m]
    by (cases "k = k'") metis+
next
  case (Deregister k')
  then show ?thesis using other [of k k' p s] kept [OF assms, of s] by (cases "k = k'") metis+
qed

text \<open>No sequence of operations frees or fills a protected key.\<close>

lemma run_protected: "protected k \<Longrightarrow> (found (run ps s) k = None) = (found s k = None)"
  by (induction ps arbitrary: s) (simp_all add: run_def step_protected)

lemma run_removes: "valid k \<Longrightarrow> \<not> protected k \<Longrightarrow> found (run (ps @ [Deregister k]) s) k = None"
  by (simp add: run_def removed)

lemma add_remove: "valid k \<Longrightarrow> \<not> protected k \<Longrightarrow> found s k = None \<Longrightarrow>
    found (perform (Deregister k) (perform (Register h k SPE_CALLBACK_NEW) s)) x = found s x"
  using other [of x k] removed [of k] by (cases "x = k") auto

end

text \<open>The contract on the code: the state is the table and the environment.\<close>

fun perform_op :: "handler reg_op \<Rightarrow> handlers \<times> 'w env \<Rightarrow> handlers \<times> 'w env" where
  "perform_op (Register h k m) (hs, e) = snd (base_spe_callback_handler_register h k m hs e)"
| "perform_op (Deregister k) (hs, e) = snd (base_spe_callback_handler_deregister k hs e)"

definition entry_of :: "handlers \<times> 'w env \<Rightarrow> u32 \<Rightarrow> handler option" where
  "entry_of s k = fst (base_spe_callback_handler_query k (fst s) (snd s))"

lemma unat_inject_upd: "(hs(unat k := h)) (unat x) = (if x = k then h else hs (unat x))"
  for k x :: u32
  by (simp add: word_unat_eq_iff)

lemma entry_of_simps: "entry_of (hs, e) k = (if k > MAX_CALLNUM then None else hs (unat k))"
  by (auto simp: entry_of_def base_spe_callback_handler_query_def Let_def)

lemma perform_register: "entry_of (perform_op (Register h k m) (hs, e)) x =
    (if x = k \<and> \<not> k > MAX_CALLNUM \<and> h \<noteq> None \<and>
        (m = SPE_CALLBACK_NEW \<and> \<not> k < RESERVED \<and> hs (unat k) = None \<or>
         m = SPE_CALLBACK_UPDATE \<and> hs (unat k) \<noteq> None)
     then h else entry_of (hs, e) x)"
  by (auto simp: base_spe_callback_handler_register_def entry_of_simps Let_def unat_inject_upd
      simp del: fun_upd_apply)

lemma perform_deregister: "entry_of (perform_op (Deregister k) (hs, e)) x =
    (if x = k \<and> \<not> k < RESERVED then None else entry_of (hs, e) x)"
  by (auto simp: base_spe_callback_handler_deregister_def entry_of_simps Let_def unat_inject_upd
      simp del: fun_upd_apply)

declare perform_op.simps [simp del]

interpretation callbacks: registry perform_op "entry_of :: handlers \<times> 'w env \<Rightarrow> u32 \<Rightarrow> handler option"
  "\<lambda>k. k < RESERVED" "\<lambda>k. \<not> k > MAX_CALLNUM"
proof (unfold_locales, goal_cases)
  case (1 x k p s)
  then show ?case by (cases s) (auto simp: perform_register perform_deregister)
next
  case (2 k s h)
  then show ?case by (cases s) (auto simp: perform_register entry_of_simps)
next
  case (3 k s h)
  then show ?case by (cases s) (auto simp: perform_register entry_of_simps)
next
  case (4 s k h m)
  then show ?case by (cases s) (auto simp: perform_register)
next
  case (5 k s)
  then show ?case by (cases s) (auto simp: perform_deregister)
next
  case (6 k s)
  then show ?case by (cases s) (auto simp: perform_deregister)
next
  case (7 k s h m)
  then show ?case by (cases s) (auto simp: perform_register entry_of_simps)
qed

section \<open>Properties\<close>

definition callback_run :: "handler reg_op list \<Rightarrow> handlers \<times> 'w env \<Rightarrow> handlers \<times> 'w env" where
  "callback_run ps s = fold perform_op ps s"

text \<open>
  whatever the application registers and deregisters, the C99 and POSIX.1 handlers can be
  replaced and never removed, and the numbers 2 and 3 stay empty.
\<close>

theorem reserved_handlers_stay:
  assumes "entry_of s 0 = Some Default_c99" "entry_of s 1 = Some Default_posix1"
    and "entry_of s 2 = None" "entry_of s 3 = None"
  shows "entry_of (callback_run ps s) 0 \<noteq> None \<and> entry_of (callback_run ps s) 1 \<noteq> None \<and>
    entry_of (callback_run ps s) 2 = None \<and> entry_of (callback_run ps s) 3 = None"
  using callbacks.run_protected [of 0 ps s] callbacks.run_protected [of 1 ps s]
    callbacks.run_protected [of 2 ps s] callbacks.run_protected [of 3 ps s] assms
  by (simp add: callback_run_def callbacks.run_def)

theorem reserved_handlers_stay_witness:
  "entry_of (callback_run [Deregister 0, Register (Some (User 9)) 2 SPE_CALLBACK_NEW, Deregister 1]
     (initial_handlers, start_env Map.empty ())) 1 \<noteq> None"
proof -
  let ?s = "(initial_handlers, start_env Map.empty ())"
  have "entry_of ?s 0 = Some Default_c99" "entry_of ?s 1 = Some Default_posix1"
    "entry_of ?s 2 = None" "entry_of ?s 3 = None"
    by (simp_all add: entry_of_simps initial_handlers_def handler_idx_def)
  then show ?thesis using reserved_handlers_stay [of ?s] by blast
qed

text \<open>
  the reserved numbers do not cover the default handler of the class LIBEA: one call removes
  it, and the next library call of that class fails with ENOSYS.
\<close>

theorem libea_handler_removable:
  "entry_of (callback_run [Deregister (of_nat (handler_idx SPE_LIBEA_CLASS))] (initial_handlers, e))
     (of_nat (handler_idx SPE_LIBEA_CLASS)) = None \<and>
   base_spe_handle_library_callback H
     (fst (callback_run [Deregister (of_nat (handler_idx SPE_LIBEA_CLASS))] (initial_handlers, e)))
     c (handler_idx SPE_LIBEA_CLASS) npc e' = Some (-1, set_errno ENOSYS (set_errno 0 e'))"
  by (simp add: callback_run_def perform_op.simps base_spe_callback_handler_deregister_def handler_idx_def
      initial_handlers_def entry_of_simps base_spe_handle_library_callback_def)

end
