(* ===== verification/Spe_Run.thy ===== *)
theory Spe_Run
  imports Spe_Access Spe_Callbacks
begin

unbundle bit_operations_syntax

text \<open>
  Running a context (\<open>spebase/run.c\<close>): the first registers, the loop around the system call
  \<open>spu_run\<close> that performs the library calls of the SPU program and restarts it, and the
  classification of the way it stopped. A program that never stops has no result (\<open>None\<close>).
\<close>

section \<open>State\<close>

text \<open>
  \<open>struct spe_context_info\<close>; the chain the debugger follows is the list of the contexts the
  thread is running, the innermost first.
\<close>

record spe_context_info =
  spe_id :: int
  info_npc :: u32
  info_status :: u32

record 'w run_state =
  run_c :: spe_context
  run_entry :: u32
  run_tmp :: u32
  run_status :: u32
  run_info :: spe_stop_info
  run_chain :: "spe_context_info list"
  run_env :: "'w env"

definition report :: "stop_reason \<Rightarrow> int \<Rightarrow> 'w run_state \<Rightarrow> 'w run_state" where
  "report r n s = s\<lparr>run_info := (run_info s)\<lparr>stop_reason := Some r, stop_result := n\<rparr>\<rparr>"

definition with_status :: "int \<Rightarrow> 'w run_state \<Rightarrow> 'w run_state" where
  "with_status n s = s\<lparr>run_info := (run_info s)\<lparr>spu_status := n\<rparr>\<rparr>"

definition with_errno :: "int \<Rightarrow> 'w run_state \<Rightarrow> 'w run_state" where
  "with_errno x s = s\<lparr>run_env := set_errno x (run_env s)\<rparr>"

definition map_hd :: "('a \<Rightarrow> 'a) \<Rightarrow> 'a list \<Rightarrow> 'a list" where
  "map_hd f xs = (case xs of [] \<Rightarrow> [] | x # xs' \<Rightarrow> f x # xs')"

section \<open>The loop\<close>

text \<open>The system call returns a status and hands back the next instruction and the events.\<close>

definition spu_run :: "'w kernel \<Rightarrow> 'w run_state \<Rightarrow> int \<times> 'w run_state" where
  "spu_run K s =
     (let (r, e1) = sys K (SpuRun (fd_spe_dir (run_c s)) (run_tmp s)) (run_env s);
          (npc, st) = (case rwords r of [n, x] \<Rightarrow> (n, x) | _ \<Rightarrow> (run_tmp s, run_status s))
      in (rv r, s\<lparr>run_tmp := npc, run_status := st, run_env := e1\<rparr>))"

definition issue_isolated_exit :: "'w kernel \<Rightarrow> spe_context \<Rightarrow> 'w env \<Rightarrow> (int \<times> 'w env) option" where
  "issue_isolated_exit K c e =
     (if cntl_mmap_base c = MAP_FAILED then Some (-1, e)
      else do { e1 \<leftarrow> mmio_write K (cntl_mmap_base c) SPU_RunCntl_off 2 e; Some (0, e1) })"

text \<open>
  The result of one round: a return value, or \<open>None\<close> for \<open>goto do_run\<close>.
\<close>

definition stopped_by_stop ::
  "'w kernel \<Rightarrow> 'w handler_code \<Rightarrow> handlers \<Rightarrow> u32 \<Rightarrow> u32 \<Rightarrow> 'w run_state \<Rightarrow>
   (int option \<times> 'w run_state) option"
where
  "stopped_by_stop K H hs runflags rc s =
     (let stopcode = drop_bit 16 rc AND 0x3fff; c = run_c s in
      if stopcode AND 0xff00 = SPE_PROGRAM_LIBRARY_CALL \<and> \<not> has_flag runflags SPE_NO_CALLBACKS then do {
        (cb, e1) \<leftarrow> base_spe_handle_library_callback H hs c (unat (stopcode AND 0xff)) (run_entry s)
                     (run_env s);
        let s1 = s\<lparr>run_env := e1\<rparr>;
        if cb \<noteq> 0 then Some (Some (-1), with_errno EFAULT (report SPE_CALLBACK_ERROR cb s1))
        else Some (None, s1\<lparr>run_tmp := run_tmp s1 + 4\<rparr>) }
      else if stopcode AND 0xff00 = SPE_PROGRAM_NORMAL_END then
        (let s1 = report SPE_EXIT (uint (stopcode AND 0xff)) s in
         if has_flag (flags c) SPE_ISOLATE then do {
           (bad, e1) \<leftarrow> issue_isolated_exit K c (run_env s1);
           let s2 = s1\<lparr>run_env := e1\<rparr>;
           if bad = 0 then Some (None, s2) else Some (Some (-1), s2) }
         else Some (Some 0, s1))
      else if stopcode AND 0xfff0 = SPE_PROGRAM_ISOLATED_STOP then
        (if stopcode = SPE_PROGRAM_ISO_LOAD_COMPLETE
         then Some (None, s\<lparr>run_env := base_spe_program_load_complete K c (run_env s)\<rparr>)
         else Some (Some (-1),
           with_errno EFAULT (report SPE_ISOLATION_ERROR (uint (stopcode AND 0xf)) s)))
      else if has_flag (flags c) SPE_ISOLATE \<and> \<not> has_flag rc 0x80 then Some (Some 0, s)
      else Some (Some (uint stopcode), report SPE_STOP_AND_SIGNAL (uint stopcode) s))"

text \<open>What the run loop does with the value \<open>run_rc\<close> of the system call.\<close>

definition classify ::
  "'w kernel \<Rightarrow> 'w handler_code \<Rightarrow> handlers \<Rightarrow> u32 \<Rightarrow> int \<Rightarrow> 'w run_state \<Rightarrow>
   (int option \<times> 'w run_state) option"
where
  "classify K H hs runflags run_rc s =
     (let rc = (word_of_int run_rc :: u32); c = run_c s; err = errno (run_env s) in
      if run_rc = -1 then
        (let s1 = report SPE_RUNTIME_FATAL err s in
         Some (Some (-1),
           if has_flag (flags c) SPE_ISOLATE \<and> err = EPERM then s1 else with_errno EFAULT s1))
      else if has_flag rc SPE_SPU_INVALID_INSTR then
        Some (Some (-1), with_errno EFAULT (report SPE_RUNTIME_ERROR (uint SPE_SPU_INVALID_INSTR) s))
      else if has_flag (flags c) SPE_EVENTS_ENABLE \<and> run_status s \<noteq> 0 then
        Some (Some (-1), with_errno EIO (with_status (-1)
          (report SPE_RUNTIME_EXCEPTION (sint (run_status s)) s)))
      else if has_flag rc SPE_SPU_STOPPED_BY_STOP then stopped_by_stop K H hs runflags rc s
      else if has_flag rc SPE_SPU_HALT then
        Some (Some (-1), with_errno EFAULT (report SPE_RUNTIME_ERROR (uint SPE_SPU_HALT) s))
      else if has_flag rc SPE_SPU_WAITING_ON_CHANNEL then
        Some (Some (-1), with_errno EIO (with_status (-1)
          (report SPE_RUNTIME_EXCEPTION (sint (run_status s)) s)))
      else if has_flag rc SPE_SPU_INVALID_CHANNEL then
        Some (Some (-1), with_errno EFAULT (report SPE_RUNTIME_ERROR (uint SPE_SPU_INVALID_CHANNEL) s))
      else Some (Some (-1), with_errno EFAULT (with_status (-1) (report SPE_RUNTIME_FATAL (-1) s))))"

definition do_run_step ::
  "'w kernel \<Rightarrow> 'w handler_code \<Rightarrow> handlers \<Rightarrow> u32 \<Rightarrow> 'w run_state \<Rightarrow>
   (int option \<times> 'w run_state) option"
where
  "do_run_step K H hs runflags s =
     (let s1 = s\<lparr>run_chain := map_hd (\<lambda>i. i\<lparr>info_npc := run_tmp s\<rparr>) (run_chain s)\<rparr>;
          (run_rc, s2) = spu_run K s1;
          s3 = with_status run_rc (s2\<lparr>run_chain :=
                 map_hd (\<lambda>i. i\<lparr>info_npc := run_tmp s2, info_status := run_status s2\<rparr>) (run_chain s2)\<rparr>);
          s4 = (if has_flag (flags (run_c s3)) SPE_ISOLATE_EMULATE
                then s3\<lparr>run_c := (run_c s3)\<lparr>emulated_entry := run_tmp s3\<rparr>, run_entry := 0\<rparr>
                else s3\<lparr>run_entry := run_tmp s3\<rparr>)
      in classify K H hs runflags run_rc s4)"

partial_function (option) do_run ::
  "'w kernel \<Rightarrow> 'w handler_code \<Rightarrow> handlers \<Rightarrow> u32 \<Rightarrow> 'w run_state \<Rightarrow> (int \<times> 'w run_state) option"
where
  [code]: "do_run K H hs runflags s =
     (case do_run_step K H hs runflags s of
        None \<Rightarrow> None
      | Some (Some retval, s1) \<Rightarrow> Some (retval, s1)
      | Some (None, s1) \<Rightarrow> do_run K H hs runflags s1)"

section \<open>The start of a run\<close>

definition word_hi :: "addr \<Rightarrow> u32" where "word_hi a = of_nat (a div 2 ^ 32)"
definition word_lo :: "addr \<Rightarrow> u32" where "word_lo a = of_nat a"

definition start_registers ::
  "spe_context \<Rightarrow> u32 \<Rightarrow> addr \<Rightarrow> addr \<Rightarrow> u32 \<Rightarrow> memory \<Rightarrow> spe_reg_state option" where
  "start_registers c runflags argp envp tmp_entry m = do {
     (r3, r4, r5) \<leftarrow>
       (if has_flag runflags SPE_RUN_USER_REGS then do {
          q3 \<leftarrow> load_quad m argp; q4 \<leftarrow> load_quad m (argp + 16); q5 \<leftarrow> load_quad m (argp + 32);
          Some (q3, q4, q5) }
        else Some ([word_hi (spe_ptr c), word_lo (spe_ptr c), 0, 0],
                   [word_hi argp, word_lo argp, 0, 0], [word_hi envp, word_lo envp, 0, 0]));
     Some \<lparr>reg_r3 = r3, reg_r4 = r4, reg_r5 = r5,
           reg_r6 = [word_hi (mem_mmap_base c), word_lo (mem_mmap_base c), 0, 0],
           reg_entry = [tmp_entry, 0, 0, 0]\<rparr> }"

text \<open>A program started from its own entry point gets its arguments through the trampoline.\<close>

definition start_program ::
  "spe_context \<Rightarrow> u32 \<Rightarrow> addr \<Rightarrow> addr \<Rightarrow> u32 \<Rightarrow> 'w env \<Rightarrow> (int \<times> u32 \<times> 'w env) option" where
  "start_program c runflags argp envp tmp_entry e =
     (if tmp_entry = entry c \<and> \<not> has_flag (flags c) (SPE_ISOLATE OR SPE_ISOLATE_EMULATE) then do {
        regs \<leftarrow> start_registers c runflags argp envp tmp_entry (mem e);
        base_spe_setup_registers c regs e }
      else Some (0, tmp_entry, e))"

text \<open>\<open>freespeinfo\<close> and the cleanup attribute of \<open>this_context_info\<close>.\<close>

definition freespeinfo :: "'w run_state \<Rightarrow> 'w run_state" where
  "freespeinfo s = s\<lparr>run_chain := tl (run_chain s)\<rparr>"

definition cleanupspeinfo :: "spe_context_info list \<Rightarrow> 'w run_state \<Rightarrow> 'w run_state" where
  "cleanupspeinfo prev s = s\<lparr>run_chain := prev\<rparr>"

text \<open>
  \<open>info\<close> is the stop information of the caller before the call, \<open>junk\<close> the uninitialised
  \<open>run_status\<close>, \<open>chain\<close> the contexts the thread is running already.
\<close>

definition base_spe_context_run ::
  "'w kernel \<Rightarrow> 'w handler_code \<Rightarrow> handlers \<Rightarrow> spe_context \<Rightarrow> u32 \<Rightarrow> u32 \<Rightarrow> addr \<Rightarrow> addr \<Rightarrow>
   spe_stop_info \<Rightarrow> u32 \<Rightarrow> spe_context_info list \<Rightarrow> 'w env \<Rightarrow> (int \<times> 'w run_state) option"
where
  "base_spe_context_run K H hs c ent runflags argp envp info junk chain e =
     (let tmp_entry = (if has_flag (flags c) SPE_ISOLATE_EMULATE then emulated_entry c
                       else if ent = SPE_DEFAULT_ENTRY then entry c else ent) in do {
        (bad, tmp_entry1, e1) \<leftarrow> start_program c runflags argp envp tmp_entry e;
        let s = \<lparr>run_c = c, run_entry = ent, run_tmp = tmp_entry1, run_status = junk, run_info = info,
                 run_chain = chain, run_env = e1\<rparr>;
        if bad \<noteq> 0 then Some (-1, s)
        else do {
          let this_info = \<lparr>spe_id = fd_spe_dir c, info_npc = 0, info_status = 0\<rparr>;
          (retval, s1) \<leftarrow> do_run K H hs runflags (s\<lparr>run_chain := this_info # chain\<rparr>);
          Some (retval, cleanupspeinfo chain (freespeinfo s1)) } })"

section \<open>Facts on the loop\<close>

lemma run_simps [simp]:
  "run_c (report r n s) = run_c s" "run_c (with_errno x s) = run_c s" "run_c (with_status n s) = run_c s"
  "run_env (report r n s) = run_env s" "run_env (with_status n s) = run_env s"
  "run_env (with_errno x s) = set_errno x (run_env s)"
  "run_info (with_errno x s) = run_info s" "run_entry (report r n s) = run_entry s"
  "run_entry (with_errno x s) = run_entry s" "run_entry (with_status n s) = run_entry s"
  "run_chain (report r n s) = run_chain s" "run_chain (with_errno x s) = run_chain s"
  "run_chain (with_status n s) = run_chain s"
  "run_tmp (report r n s) = run_tmp s" "run_tmp (with_errno x s) = run_tmp s"
  "run_tmp (with_status n s) = run_tmp s"
  "stop_reason (run_info (report r n s)) = Some r" "stop_result (run_info (report r n s)) = n"
  "spu_status (run_info (with_status n s)) = n"
  "stop_reason (run_info (with_status n s)) = stop_reason (run_info s)"
  "stop_result (run_info (with_status n s)) = stop_result (run_info s)"
  by (simp_all add: report_def with_errno_def with_status_def)

lemma spu_run_context: "spu_run K s = (r, s') \<Longrightarrow> run_c s' = run_c s \<and> run_chain s' = run_chain s"
  by (auto simp: spu_run_def Let_def split: prod.splits)

text \<open>A round keeps the context, except its private entry point in the emulated mode.\<close>

lemma classify_context:
  "classify K H hs rf rc s = Some (r, s') \<Longrightarrow> run_c s' = run_c s"
  by (auto simp: classify_def stopped_by_stop_def Let_def split: if_splits Option.bind_splits)

lemma do_run_step_context:
  assumes "do_run_step K H hs rf s = Some (r, s')"
  shows "\<exists>x. run_c s' = (run_c s)\<lparr>emulated_entry := x\<rparr>"
proof -
  have "run_c s' = run_c s \<or> (\<exists>x. run_c s' = (run_c s)\<lparr>emulated_entry := x\<rparr>)"
    using assms by (auto simp: do_run_step_def Let_def split: prod.splits if_splits
      dest!: classify_context spu_run_context)
  moreover have "run_c s = (run_c s)\<lparr>emulated_entry := emulated_entry (run_c s)\<rparr>" by simp
  ultimately show ?thesis by metis
qed

text \<open>Induction on the rounds of a run that returns.\<close>

lemma do_run_induct [consumes 1, case_names stop again]:
  assumes "do_run K H hs rf s = Some (r, s')"
    and "\<And>s s'. do_run_step K H hs rf s = Some (Some r, s') \<Longrightarrow> P s s'"
    and "\<And>s s1 s'. do_run_step K H hs rf s = Some (None, s1) \<Longrightarrow> P s1 s' \<Longrightarrow> P s s'"
  shows "P s s'"
proof -
  let ?Q = "\<lambda>K H hs rf s y.
    (\<forall>s s'. do_run_step K H hs rf s = Some (Some (fst y), s') \<longrightarrow> P s s') \<longrightarrow>
    (\<forall>s s1 s'. do_run_step K H hs rf s = Some (None, s1) \<longrightarrow> P s1 s' \<longrightarrow> P s s') \<longrightarrow> P s (snd y)"
  have "?Q K H hs rf s (r, s')"
  proof (rule do_run.raw_induct [OF _ assms(1), of ?Q], goal_cases)
    case (1 f K H hs rf s y)
    show ?case
    proof (intro impI, cases "do_run_step K H hs rf s")
      case None
      then show "P s (snd y)" using 1(2) by simp
    next
      case (Some a)
      assume a: "\<forall>s s'. do_run_step K H hs rf s = Some (Some (fst y), s') \<longrightarrow> P s s'"
        "\<forall>s s1 s'. do_run_step K H hs rf s = Some (None, s1) \<longrightarrow> P s1 s' \<longrightarrow> P s s'"
      obtain o1 s1 where o: "a = (o1, s1)" by fastforce
      show "P s (snd y)"
      proof (cases o1)
        case None
        then have "f K H hs rf s1 = Some y" using 1(2) Some o by simp
        from 1(1) [OF this] a have "P s1 (snd y)" by blast
        then show ?thesis using a(2) Some o None by blast
      next
        case (Some q)
        then have "do_run_step K H hs rf s = Some (Some (fst y), snd y)"
          using 1(2) o \<open>do_run_step K H hs rf s = Some a\<close> by auto
        then show ?thesis using a(1) by blast
      qed
    qed
  qed
  then show ?thesis using assms(2,3) by simp
qed

text \<open>A run that returns ends with one round that returns.\<close>

lemma do_run_final:
  assumes "do_run K H hs rf s = Some (r, s')"
  shows "\<exists>t. do_run_step K H hs rf t = Some (Some r, s') \<and> (\<exists>x. run_c t = (run_c s)\<lparr>emulated_entry := x\<rparr>)"
  using assms
proof (induction rule: do_run_induct)
  case (stop s s')
  moreover have "run_c s = (run_c s)\<lparr>emulated_entry := emulated_entry (run_c s)\<rparr>" by simp
  ultimately show ?case by blast
next
  case (again s s1 s')
  then obtain t x where "do_run_step K H hs rf t = Some (Some r, s')"
    "run_c t = (run_c s1)\<lparr>emulated_entry := x\<rparr>" by blast
  moreover obtain y where "run_c s1 = (run_c s)\<lparr>emulated_entry := y\<rparr>"
    using do_run_step_context again by blast
  ultimately show ?case by auto
qed

text \<open>Two runs whose rounds agree agree.\<close>

lemma do_run_mono:
  assumes "\<And>s. do_run_step K H hs rf s = do_run_step K' H' hs' rf' s" "do_run K H hs rf s = Some (r, s')"
  shows "do_run K' H' hs' rf' s = Some (r, s')"
  using assms(2)
proof (induction rule: do_run_induct)
  case (stop s s')
  then show ?case by (subst do_run.simps) (simp add: assms(1))
next
  case (again s s1 s')
  then show ?case by (subst do_run.simps) (simp add: assms(1))
qed

lemma do_run_cong:
  assumes "\<And>s. do_run_step K H hs rf s = do_run_step K' H' hs' rf' s"
  shows "do_run K H hs rf s = do_run K' H' hs' rf' s"
  using do_run_mono [of K H hs rf K' H' hs' rf' s] do_run_mono [of K' H' hs' rf' K H hs rf s] assms
  by (cases "do_run K H hs rf s"; cases "do_run K' H' hs' rf' s") fastforce+

lemma start_program_ok: "start_program c rf argp envp te e = Some (bad, te1, e1) \<Longrightarrow> bad = 0"
  by (auto simp: start_program_def base_spe_setup_registers_def Let_def
      split: if_splits Option.bind_splits)

definition first_entry :: "spe_context \<Rightarrow> u32 \<Rightarrow> u32" where
  "first_entry c ent = (if has_flag (flags c) SPE_ISOLATE_EMULATE then emulated_entry c
     else if ent = SPE_DEFAULT_ENTRY then entry c else ent)"

lemma context_run_unfold:
  "base_spe_context_run K H hs c ent rf argp envp info junk chain e = do {
     (bad, te, e1) \<leftarrow> start_program c rf argp envp (first_entry c ent) e;
     (retval, s1) \<leftarrow> do_run K H hs rf \<lparr>run_c = c, run_entry = ent, run_tmp = te, run_status = junk,
        run_info = info,
        run_chain = \<lparr>spe_id = fd_spe_dir c, info_npc = 0, info_status = 0\<rparr> # chain, run_env = e1\<rparr>;
     Some (retval, cleanupspeinfo chain (freespeinfo s1)) }"
proof (cases "start_program c rf argp envp (first_entry c ent) e")
  case None
  then show ?thesis by (simp add: base_spe_context_run_def first_entry_def [symmetric] Let_def)
next
  case (Some x)
  obtain bad te e1 where x: "x = (bad, te, e1)" by (metis prod_cases3)
  with Some start_program_ok have "bad = 0" by blast
  with Some x show ?thesis
    by (simp add: base_spe_context_run_def first_entry_def [symmetric] Let_def)
qed

lemma context_run_do_run:
  assumes "base_spe_context_run K H hs c ent rf argp envp info junk chain e = Some (r, s)"
  shows "\<exists>s0 s1. do_run K H hs rf s0 = Some (r, s1) \<and> run_c s0 = c \<and> s = cleanupspeinfo chain (freespeinfo s1)"
proof -
  obtain te e1 bad where p: "start_program c rf argp envp (first_entry c ent) e = Some (bad, te, e1)"
    using assms by (auto simp: context_run_unfold split: Option.bind_splits)
  let ?s0 = "\<lparr>run_c = c, run_entry = ent, run_tmp = te, run_status = junk, run_info = info,
    run_chain = \<lparr>spe_id = fd_spe_dir c, info_npc = 0, info_status = 0\<rparr> # chain, run_env = e1\<rparr>"
  obtain s1 where "do_run K H hs rf ?s0 = Some (r, s1)" "s = cleanupspeinfo chain (freespeinfo s1)"
    using assms p by (auto simp: context_run_unfold split: Option.bind_splits)
  moreover have "run_c ?s0 = c" by simp
  ultimately show ?thesis by blast
qed

section \<open>Properties\<close>

text \<open>What the caller of a run is told: the return value, the reason, its detail and \<open>errno\<close>.\<close>

definition consistent_stop :: "u32 \<Rightarrow> int \<Rightarrow> spe_stop_info \<Rightarrow> int \<Rightarrow> bool" where
  "consistent_stop rf r info err \<longleftrightarrow>
     (case stop_reason info of
        None \<Rightarrow> False
      | Some SPE_EXIT \<Rightarrow> r = 0 \<and> 0 \<le> stop_result info \<and> stop_result info \<le> 255
      | Some SPE_STOP_AND_SIGNAL \<Rightarrow> r = stop_result info \<and> 0 \<le> r \<and> r \<le> 0x3fff
      | Some SPE_RUNTIME_ERROR \<Rightarrow> r = -1 \<and> err = EFAULT \<and> stop_result info \<in> {0x20, 0x04, 0x40}
      | Some SPE_RUNTIME_EXCEPTION \<Rightarrow> r = -1 \<and> err = EIO \<and> spu_status info = -1
      | Some SPE_RUNTIME_FATAL \<Rightarrow> r = -1 \<and> err = EFAULT
      | Some SPE_CALLBACK_ERROR \<Rightarrow> r = -1 \<and> err = EFAULT \<and> stop_result info \<noteq> 0 \<and>
          \<not> has_flag rf SPE_NO_CALLBACKS
      | Some SPE_ISOLATION_ERROR \<Rightarrow> r = -1 \<and> err = EFAULT \<and> 0 \<le> stop_result info \<and>
          stop_result info \<le> 15)"

lemma uint_and_bounds: "0 \<le> uint (w AND m)" "uint (w AND m) \<le> uint m" for w :: u32
  by (simp_all add: unsigned_and_eq)

lemma classify_consistent:
  assumes "classify K H hs rf rc s = Some (Some r, s')" "\<not> has_flag (flags (run_c s)) SPE_ISOLATE"
  shows "consistent_stop rf r (run_info s') (errno (run_env s'))"
  using assms uint_and_bounds [of "drop_bit 16 (word_of_int rc)" "0x3fff"]
    uint_and_bounds [of "drop_bit 16 (word_of_int rc) AND 0x3fff" "0xff"]
    uint_and_bounds [of "drop_bit 16 (word_of_int rc) AND 0x3fff" "0xf"]
  by (auto simp: classify_def stopped_by_stop_def consistent_stop_def Let_def
      split: if_splits Option.bind_splits)

text \<open>
  C13: when a run of a context that is not isolated returns, return value, reason, detail and
  \<open>errno\<close> agree: an exit returns 0 with an exit code of 8 bits, a user signal returns its code of
  14 bits, and everything else returns -1 with the \<open>errno\<close> of its class.
\<close>

theorem run_result_consistent:
  assumes "base_spe_context_run K H hs c ent rf argp envp info junk chain e = Some (r, s)"
    and "\<not> has_flag (flags c) SPE_ISOLATE"
  shows "consistent_stop rf r (run_info s) (errno (run_env s))"
proof -
  obtain s0 s1 where d: "do_run K H hs rf s0 = Some (r, s1)" and c: "run_c s0 = c"
    and s: "s = cleanupspeinfo chain (freespeinfo s1)"
    using context_run_do_run [OF assms(1)] by blast
  obtain t x where t: "do_run_step K H hs rf t = Some (Some r, s1)"
    and tc: "run_c t = c\<lparr>emulated_entry := x\<rparr>"
    using do_run_final [OF d] c by blast
  then obtain rc t' where "classify K H hs rf rc t' = Some (Some r, s1)" "flags (run_c t') = flags c"
    by (auto simp: do_run_step_def Let_def dest!: spu_run_context split: prod.splits if_splits)
  then have "consistent_stop rf r (run_info s1) (errno (run_env s1))"
    using classify_consistent assms(2) by metis
  then show ?thesis using s by (simp add: cleanupspeinfo_def freespeinfo_def)
qed

text \<open>A run that the kernel refuses, for the witnesses.\<close>

abbreviation (input) refused_run :: "u32 \<Rightarrow> u32 \<Rightarrow> (int \<times> unit run_state) option" where
  "refused_run fl rf \<equiv> base_spe_context_run (const_kernel (reply_error EIO)) (\<lambda>_ _ _ _. None)
     initial_handlers (blank_context\<lparr>flags := fl\<rparr>) 0x100 rf 0 0
     \<lparr>stop_reason = None, stop_result = 0, spu_status = 0\<rparr> 0 [] (start_env Map.empty ())"

lemma refused_run_result: "\<exists>s. refused_run 0 0 = Some (-1, s)"
  by (simp add: context_run_unfold first_entry_def blank_context_def start_program_def)
    (subst do_run.simps, simp add: do_run_step_def spu_run_def sys_def sample_simps classify_def Let_def)

theorem run_result_consistent_witness:
  "\<exists>s. refused_run 0 0 = Some (-1, s) \<and> consistent_stop 0 (-1) (run_info s) (errno (run_env s))"
proof -
  obtain s where "refused_run 0 0 = Some (-1, s)" using refused_run_result by blast
  moreover have "\<not> has_flag (flags (blank_context\<lparr>flags := 0\<rparr>)) SPE_ISOLATE" by simp
  ultimately show ?thesis using run_result_consistent by blast
qed

text \<open>
  with \<open>SPE_NO_CALLBACKS\<close> no handler runs: neither the table nor the code of the handlers
  has any influence on the run.
\<close>

theorem no_callbacks_run:
  assumes "has_flag rf SPE_NO_CALLBACKS"
  shows "base_spe_context_run K H hs c ent rf argp envp info junk chain e =
    base_spe_context_run K H' hs' c ent rf argp envp info junk chain e"
proof -
  have "stopped_by_stop K H hs rf = stopped_by_stop K H' hs' rf"
    using assms by (intro ext) (simp add: stopped_by_stop_def)
  then have "classify K H hs rf = classify K H' hs' rf"
    by (intro ext) (simp only: classify_def)
  then have "do_run_step K H hs rf s = do_run_step K H' hs' rf s" for s
    by (simp only: do_run_step_def)
  then have "do_run K H hs rf = do_run K H' hs' rf" by (intro ext do_run_cong)
  then show ?thesis by (simp add: context_run_unfold)
qed

theorem no_callbacks_run_witness:
  "refused_run 0 SPE_NO_CALLBACKS = base_spe_context_run (const_kernel (reply_error EIO))
     (\<lambda>_ _ _ e. Some (0, e)) Map.empty (blank_context\<lparr>flags := 0\<rparr>) 0x100 SPE_NO_CALLBACKS 0 0
     \<lparr>stop_reason = None, stop_result = 0, spu_status = 0\<rparr> 0 [] (start_env Map.empty ())"
  by (rule no_callbacks_run) (simp add: has_flag_def)

lemma do_run_step_entry:
  "do_run_step K H hs rf (s\<lparr>run_entry := x\<rparr>) = do_run_step K H hs rf s"
proof -
  obtain rc s2 where "spu_run K (s\<lparr>run_chain := map_hd (\<lambda>i. i\<lparr>info_npc := run_tmp s\<rparr>) (run_chain s)\<rparr>)
      = (rc, s2)" by fastforce
  moreover from this have "spu_run K (s\<lparr>run_entry := x,
      run_chain := map_hd (\<lambda>i. i\<lparr>info_npc := run_tmp s\<rparr>) (run_chain s)\<rparr>) = (rc, s2\<lparr>run_entry := x\<rparr>)"
    by (auto simp: spu_run_def Let_def split: prod.splits list.splits)
  ultimately show ?thesis by (simp add: do_run_step_def Let_def with_status_def)
qed

lemma do_run_entry: "do_run K H hs rf (s\<lparr>run_entry := x\<rparr>) = do_run K H hs rf s"
  by (subst (1 2) do_run.simps) (simp add: do_run_step_entry)

lemma stopped_by_stop_entry:
  "stopped_by_stop K H hs rf rc s = Some (r, s') \<Longrightarrow> run_entry s' = run_entry s"
  by (auto simp: stopped_by_stop_def Let_def split: if_splits Option.bind_splits)

lemma do_run_step_emulated:
  assumes "do_run_step K H hs rf s = Some (r, s')" "has_flag (flags (run_c s)) SPE_ISOLATE_EMULATE"
  shows "run_entry s' = 0"
  using assms
  by (auto simp: do_run_step_def classify_def Let_def dest!: spu_run_context stopped_by_stop_entry
      split: prod.splits if_splits)

text \<open>
  in the emulated isolated mode the entry point given by the caller has no influence on the
  run, and the one handed back is always 0: the place where the program stopped is kept in the
  context and is where the next run continues.
\<close>

theorem emulated_entry_hidden:
  fixes K :: "'w kernel"
  assumes "has_flag (flags c) SPE_ISOLATE_EMULATE"
  shows "base_spe_context_run K H hs c ent rf argp envp info junk chain e =
      base_spe_context_run K H hs c ent' rf argp envp info junk chain e \<and>
    (case base_spe_context_run K H hs c ent rf argp envp info junk chain e of
       None \<Rightarrow> True | Some (r, s) \<Rightarrow> run_entry s = 0)"
proof -
  define s0 where "s0 x te e1 = \<lparr>run_c = c, run_entry = x, run_tmp = te, run_status = junk, run_info = info,
    run_chain = \<lparr>spe_id = fd_spe_dir c, info_npc = 0, info_status = 0\<rparr> # chain, run_env = e1\<rparr>"
    for x te and e1 :: "'w env"
  have f: "first_entry c x = emulated_entry c" for x using assms by (simp add: first_entry_def)
  have "do_run K H hs rf (s0 ent te e1) = do_run K H hs rf (s0 ent' te e1)" for te e1
    using do_run_entry [of K H hs rf ent' "s0 ent te e1"] by (simp add: s0_def)
  then have same: "base_spe_context_run K H hs c ent rf argp envp info junk chain e =
      base_spe_context_run K H hs c ent' rf argp envp info junk chain e"
    by (simp only: context_run_unfold f s0_def [symmetric])
  have "run_entry s = 0"
    if run: "base_spe_context_run K H hs c ent rf argp envp info junk chain e = Some (r, s)" for r s
  proof -
    obtain s1 s2 where d: "do_run K H hs rf s1 = Some (r, s2)" "run_c s1 = c"
      and s: "s = cleanupspeinfo chain (freespeinfo s2)"
      using context_run_do_run [OF run] by blast
    obtain t x where "do_run_step K H hs rf t = Some (Some r, s2)" "run_c t = c\<lparr>emulated_entry := x\<rparr>"
      using do_run_final [OF d(1)] d(2) by blast
    then have "run_entry s2 = 0" using do_run_step_emulated assms by fastforce
    then show ?thesis using s by (simp add: cleanupspeinfo_def freespeinfo_def)
  qed
  with same show ?thesis by (auto split: option.splits)
qed

theorem emulated_entry_hidden_witness:
  "case refused_run SPE_ISOLATE_EMULATE 0 of None \<Rightarrow> True | Some (r, s) \<Rightarrow> run_entry s = 0"
  by (rule emulated_entry_hidden [THEN conjunct2]) (simp add: has_flag_def)

lemma word_hi_lo: "a < 2 ^ 64 \<Longrightarrow> 2 ^ 32 * unat (word_hi a) + unat (word_lo a) = a"
proof -
  assume a: "a < 2 ^ 64"
  have "2 ^ 32 * (a div 2 ^ 32) + a mod 2 ^ 32 = a" by simp
  moreover have "unat (word_hi a) = a div 2 ^ 32"
    using a by (simp add: word_hi_def unat_of_nat take_bit_nat_eq_self less_mult_imp_div_less)
  moreover have "unat (word_lo a) = a mod 2 ^ 32"
    by (simp add: word_lo_def unat_of_nat take_bit_eq_mod)
  ultimately show ?thesis by (simp only:)
qed

definition quad_addr :: "u32 list \<Rightarrow> addr" where
  "quad_addr q = 2 ^ 32 * unat (q ! 0) + unat (q ! 1)"

text \<open>
  C25: a program run from its own entry point starts at the trampoline, and the instructions there
  bring it to that entry point with the thread id, the two arguments of the caller and the
  address of the local store, 64 bits each, in registers 3 to 6.
\<close>

theorem run_starts_program:
  fixes K :: "'w kernel"
  assumes "mapped (mem e) (mem_mmap_base c) LS_SIZE"
    and "\<not> has_flag (flags c) (SPE_ISOLATE OR SPE_ISOLATE_EMULATE)"
    and "\<not> has_flag rf SPE_RUN_USER_REGS" "ent = SPE_DEFAULT_ENTRY \<or> ent = entry c"
    and "spe_ptr c < 2 ^ 64" "argp < 2 ^ 64" "envp < 2 ^ 64" "mem_mmap_base c < 2 ^ 64"
  shows "\<exists>s0. run_c s0 = c \<and>
    base_spe_context_run K H hs c ent rf argp envp info junk chain e =
      map_option (\<lambda>(r, s). (r, cleanupspeinfo chain (freespeinfo s))) (do_run K H hs rf s0) \<and>
    (\<forall>s. spu_pc s = unat (run_tmp s0) \<longrightarrow>
      (\<exists>s'. spu_steps (mem (run_env s0)) (mem_mmap_base c) 8 s = Some s' \<and>
        spu_pc s' = unat (entry c AND 0x3FFFC) \<and>
        quad_addr (spu_reg s' 3) = spe_ptr c \<and> quad_addr (spu_reg s' 4) = argp \<and>
        quad_addr (spu_reg s' 5) = envp \<and> quad_addr (spu_reg s' 6) = mem_mmap_base c))"
proof -
  define regs where "regs = \<lparr>reg_r3 = [word_hi (spe_ptr c), word_lo (spe_ptr c), 0, 0],
    reg_r4 = [word_hi argp, word_lo argp, 0, 0], reg_r5 = [word_hi envp, word_lo envp, 0, 0],
    reg_r6 = [word_hi (mem_mmap_base c), word_lo (mem_mmap_base c), 0, 0],
    reg_entry = [entry c, 0, 0, 0]\<rparr>"
  have "has_flag (flags c) (SPE_ISOLATE OR SPE_ISOLATE_EMULATE) \<longleftrightarrow>
      has_flag (flags c) SPE_ISOLATE \<or> has_flag (flags c) SPE_ISOLATE_EMULATE"
    using has_flag_or [of SPE_ISOLATE SPE_ISOLATE_EMULATE "flags c"]
    by (simp add: has_flag_def and.commute)
  then have fe: "first_entry c ent = entry c" using assms(2,4) by (auto simp: first_entry_def)
  have sr: "start_registers c rf argp envp (entry c) (mem e) = Some regs"
    using assms(3) by (simp add: start_registers_def regs_def)
  have "quads regs" by (simp add: quads_def regs_def)
  from setup_registers_ok [OF assms(1) this] obtain e' te where
    b: "base_spe_setup_registers c regs e = Some (0, te, e')" and
    steps: "\<forall>s. spu_pc s = unat te \<longrightarrow>
      (\<exists>s'. spu_steps (mem e') (mem_mmap_base c) 8 s = Some s' \<and>
        spu_reg s' 3 = reg_r3 regs \<and> spu_reg s' 4 = reg_r4 regs \<and> spu_reg s' 5 = reg_r5 regs \<and>
        spu_reg s' 6 = reg_r6 regs \<and> spu_reg s' 2 = [0, 0, 0, 0] \<and>
        spu_reg s' 1 = [0x3FFF0, 0, 0, 0] \<and> spu_pc s' = unat (hd (reg_entry regs) AND 0x3FFFC))"
    by blast
  let ?s0 = "\<lparr>run_c = c, run_entry = ent, run_tmp = te, run_status = junk, run_info = info,
    run_chain = \<lparr>spe_id = fd_spe_dir c, info_npc = 0, info_status = 0\<rparr> # chain, run_env = e'\<rparr>"
  have "start_program c rf argp envp (first_entry c ent) e = Some (0, te, e')"
    using assms(2) sr b by (simp add: start_program_def fe)
  then have run: "base_spe_context_run K H hs c ent rf argp envp info junk chain e =
      map_option (\<lambda>(r, s). (r, cleanupspeinfo chain (freespeinfo s))) (do_run K H hs rf ?s0)"
    by (cases "do_run K H hs rf ?s0") (auto simp: context_run_unfold)
  have "\<exists>s'. spu_steps (mem (run_env ?s0)) (mem_mmap_base c) 8 s = Some s' \<and>
        spu_pc s' = unat (entry c AND 0x3FFFC) \<and>
        quad_addr (spu_reg s' 3) = spe_ptr c \<and> quad_addr (spu_reg s' 4) = argp \<and>
        quad_addr (spu_reg s' 5) = envp \<and> quad_addr (spu_reg s' 6) = mem_mmap_base c"
    if "spu_pc s = unat (run_tmp ?s0)" for s
  proof -
    have qa: "quad_addr [word_hi a, word_lo a, 0, 0] = a" if "a < 2 ^ 64" for a
      using word_hi_lo [OF that] by (simp add: quad_addr_def)
    have "spu_pc s = unat te" using that by simp
    with steps obtain s' where "spu_steps (mem e') (mem_mmap_base c) 8 s = Some s'"
      "spu_reg s' 3 = reg_r3 regs" "spu_reg s' 4 = reg_r4 regs" "spu_reg s' 5 = reg_r5 regs"
      "spu_reg s' 6 = reg_r6 regs" "spu_pc s' = unat (hd (reg_entry regs) AND 0x3FFFC)" by blast
    then show ?thesis using assms(5-8) by (simp add: regs_def qa)
  qed
  then show ?thesis using run by (intro exI [of _ ?s0]) simp
qed

theorem run_starts_program_witness:
  "\<exists>s0 :: unit run_state. \<forall>s. spu_pc s = unat (run_tmp s0) \<longrightarrow>
      (\<exists>s'. spu_steps (mem (run_env s0)) 0x100000 8 s = Some s' \<and>
        quad_addr (spu_reg s' 4) = 0x123456789A \<and> quad_addr (spu_reg s' 6) = 0x100000)"
proof -
  let ?c = "blank_context\<lparr>mem_mmap_base := 0x100000\<rparr>"
  have "mapped (mem (start_env (\<lambda>_. Some 0) ())) (mem_mmap_base ?c) LS_SIZE"
    by (simp add: mapped_def start_env_def)
  moreover have "\<not> has_flag (flags ?c) (SPE_ISOLATE OR SPE_ISOLATE_EMULATE)" "\<not> has_flag 0 SPE_RUN_USER_REGS"
    "SPE_DEFAULT_ENTRY = SPE_DEFAULT_ENTRY \<or> SPE_DEFAULT_ENTRY = entry ?c" "spe_ptr ?c < 2 ^ 64"
    "(0x123456789A :: nat) < 2 ^ 64" "(0 :: nat) < 2 ^ 64" "mem_mmap_base ?c < 2 ^ 64"
    by (simp_all add: blank_context_def)
  ultimately obtain s0 :: "unit run_state" where s0: "\<forall>s. spu_pc s = unat (run_tmp s0) \<longrightarrow>
      (\<exists>s'. spu_steps (mem (run_env s0)) (mem_mmap_base ?c) 8 s = Some s' \<and>
        spu_pc s' = unat (entry ?c AND 0x3FFFC) \<and>
        quad_addr (spu_reg s' 3) = spe_ptr ?c \<and> quad_addr (spu_reg s' 4) = 0x123456789A \<and>
        quad_addr (spu_reg s' 5) = 0 \<and> quad_addr (spu_reg s' 6) = mem_mmap_base ?c)"
    using run_starts_program [of "start_env (\<lambda>_. Some 0) ()" ?c 0 SPE_DEFAULT_ENTRY "0x123456789A" 0
        "const_kernel (reply_error EIO)" "\<lambda>_ _ _ _. None" initial_handlers
        "\<lparr>stop_reason = None, stop_result = 0, spu_status = 0\<rparr>" 0 "[]"] by blast
  show ?thesis
  proof (intro exI [of _ s0] allI impI)
    fix s :: spu_state
    assume "spu_pc s = unat (run_tmp s0)"
    with s0 show "\<exists>s'. spu_steps (mem (run_env s0)) 0x100000 8 s = Some s' \<and>
        quad_addr (spu_reg s' 4) = 0x123456789A \<and> quad_addr (spu_reg s' 6) = 0x100000" by fastforce
  qed
qed

section \<open>Library calls are served\<close>

definition stop_rc :: "u32 \<Rightarrow> u32" where
  "stop_rc stopcode = push_bit 16 stopcode OR SPE_SPU_STOPPED_BY_STOP"

definition stop_reply :: "u32 \<Rightarrow> u32 \<Rightarrow> reply" where
  "stop_reply stopcode npc = reply_words (uint (stop_rc stopcode)) [npc, 0]"

lemma mask_numerals: "(0xff00 :: u32) = push_bit 8 (mask 8)" "(0xff :: u32) = mask 8"
  "(0x3fff :: u32) = mask 14" "(0xffff :: u32) = mask 16"
  by (simp_all add: mask_eq_decr_exp)

lemma ucast8_masks:
  fixes n :: "8 word"
  shows "(ucast n :: u32) AND 0xff00 = 0" "(ucast n :: u32) AND 0xff = ucast n"
    "(ucast n :: u32) AND 0x3fff = ucast n" "(ucast n :: u32) AND 0xffff = ucast n"
  unfolding mask_numerals
  by (auto intro!: bit_word_eqI dest!: bit_imp_le_length [of n] simp: bit_simps)

lemma drop_stop: "drop_bit 16 (push_bit 16 x OR 2) = x AND 0xffff" for x :: u32
proof (rule bit_word_eqI)
  fix n
  assume "n < LENGTH(32)"
  have "\<not> bit (2 :: u32) (n + 16)"
    by (simp add: bit_2_iff)
  then show "bit (drop_bit 16 (push_bit 16 x OR 2)) n = bit (x AND 0xffff) n"
    unfolding mask_numerals by (auto simp: bit_simps dest: bit_imp_le_length)
qed

lemma stop_code:
  fixes x :: u32 and n :: "8 word"
  assumes "x AND 0xffff = x"
  shows "drop_bit 16 (stop_rc (x OR ucast n)) = x OR ucast n"
  using drop_stop [of "x OR ucast n"] assms by (simp add: stop_rc_def word_ao_dist ucast8_masks)

lemma stop_flags: "has_flag (stop_rc x) SPE_SPU_STOPPED_BY_STOP"
  "\<not> has_flag (stop_rc x) SPE_SPU_INVALID_INSTR" "uint (stop_rc x) \<noteq> -1"
proof -
  have low: "stop_rc x AND 0xffff = 2"
    unfolding stop_rc_def mask_numerals by (intro bit_word_eqI) (auto simp: bit_simps)
  have "(stop_rc x AND 0xffff) AND m = 2 AND m" for m by (simp only: low)
  from this [of 2] this [of 32] show "has_flag (stop_rc x) SPE_SPU_STOPPED_BY_STOP"
    "\<not> has_flag (stop_rc x) SPE_SPU_INVALID_INSTR"
    by (simp_all add: has_flag_def and.assoc)
  show "uint (stop_rc x) \<noteq> -1" using uint_ge_0 [of "stop_rc x"] by linarith
qed

lemma uint_ucast8: "uint (ucast n :: u32) = uint n" and unat_ucast8: "unat (ucast n :: u32) = unat n"
  for n :: "8 word"
proof -
  have "uint n < 2 ^ 8" "unat n < 2 ^ 8" using unsigned_less [of n] by simp_all
  then show "uint (ucast n :: u32) = uint n" "unat (ucast n :: u32) = unat n"
    by (simp_all add: unsigned_ucast_eq take_bit_int_eq_self take_bit_nat_eq_self)
qed

definition after_spu_run :: "u32 \<Rightarrow> int \<Rightarrow> 'w env \<Rightarrow> 'w run_state \<Rightarrow> 'w run_state" where
  "after_spu_run npc rc e s = (with_status rc (s\<lparr>run_tmp := npc, run_status := 0, run_env := e,
     run_chain := map_hd (\<lambda>i. i\<lparr>info_npc := npc, info_status := 0\<rparr>)
       (map_hd (\<lambda>i. i\<lparr>info_npc := run_tmp s\<rparr>) (run_chain s))\<rparr>))\<lparr>run_entry := npc\<rparr>"

lemma after_spu_run_simps [simp]:
  "run_c (after_spu_run npc rc e s) = run_c s" "run_env (after_spu_run npc rc e s) = e"
  "run_tmp (after_spu_run npc rc e s) = npc" "run_entry (after_spu_run npc rc e s) = npc"
  "run_status (after_spu_run npc rc e s) = 0"
  by (simp_all add: after_spu_run_def with_status_def)

text \<open>One round of the run loop in which the program stops for a library call of the class \<open>n\<close>.\<close>

lemma library_call_round:
  fixes n :: "8 word"
  assumes "sys K (SpuRun (fd_spe_dir (run_c s)) (run_tmp s)) (run_env s) =
      (stop_reply (SPE_PROGRAM_LIBRARY_CALL OR ucast n) npc, e1)"
    and "\<not> has_flag (flags (run_c s)) SPE_ISOLATE_EMULATE" "\<not> has_flag rf SPE_NO_CALLBACKS"
    and "base_spe_handle_library_callback H hs (run_c s) (unat n) npc e1 = Some (0, e2)"
  obtains s' where "do_run_step K H hs rf s = Some (None, s')" "run_tmp s' = npc + 4" "run_c s' = run_c s"
    "run_env s' = e2" "run_info s' = (run_info s)\<lparr>spu_status := uint (stop_rc (SPE_PROGRAM_LIBRARY_CALL OR ucast n))\<rparr>"
proof -
  let ?rc = "uint (stop_rc (SPE_PROGRAM_LIBRARY_CALL OR ucast n))"
  let ?t = "after_spu_run npc ?rc e1 s"
  have st: "do_run_step K H hs rf s = classify K H hs rf ?rc ?t"
    using assms(1,2) by (simp add: do_run_step_def spu_run_def stop_reply_def reply_words_def Let_def
        after_spu_run_def with_status_def)
  have "classify K H hs rf ?rc ?t = Some (None, ?t\<lparr>run_env := e2, run_tmp := npc + 4\<rparr>)"
    using assms(3,4) stop_code [of SPE_PROGRAM_LIBRARY_CALL n]
    by (simp add: classify_def stopped_by_stop_def stop_flags word_ao_dist ucast8_masks unat_ucast8)
  with st have "do_run_step K H hs rf s = Some (None, ?t\<lparr>run_env := e2, run_tmp := npc + 4\<rparr>)" by simp
  then show thesis by (rule that) (simp_all add: after_spu_run_def with_status_def)
qed

text \<open>The round in which the program ends with an exit code.\<close>

lemma normal_end_round:
  fixes code :: "8 word"
  assumes "sys K (SpuRun (fd_spe_dir (run_c s)) (run_tmp s)) (run_env s) =
      (stop_reply (SPE_PROGRAM_NORMAL_END OR ucast code) npc, e1)"
    and "\<not> has_flag (flags (run_c s)) SPE_ISOLATE_EMULATE" "\<not> has_flag (flags (run_c s)) SPE_ISOLATE"
  obtains s' where "do_run_step K H hs rf s = Some (Some 0, s')" "stop_reason (run_info s') = Some SPE_EXIT"
    "stop_result (run_info s') = uint code" "run_entry s' = npc" "run_c s' = run_c s" "run_env s' = e1"
proof -
  let ?rc = "uint (stop_rc (SPE_PROGRAM_NORMAL_END OR ucast code))"
  let ?t = "after_spu_run npc ?rc e1 s"
  have st: "do_run_step K H hs rf s = classify K H hs rf ?rc ?t"
    using assms(1,2) by (simp add: do_run_step_def spu_run_def stop_reply_def reply_words_def Let_def
        after_spu_run_def with_status_def)
  have "classify K H hs rf ?rc ?t = Some (Some 0, report SPE_EXIT (uint code) ?t)"
    using assms(2,3) stop_code [of SPE_PROGRAM_NORMAL_END code]
    by (simp add: stop_flags classify_def stopped_by_stop_def word_ao_dist ucast8_masks uint_ucast8)
  with st have "do_run_step K H hs rf s = Some (Some 0, report SPE_EXIT (uint code) ?t)" by simp
  then show thesis by (rule that) (simp_all add: after_spu_run_def with_status_def report_def)
qed

text \<open>
  What a program does, seen from the kernel: \<open>program_run K H hs c pc e cs code npc e'\<close> says that the SPU, started
  at \<open>pc\<close> in the environment \<open>e\<close>, stops for the library calls \<open>cs\<close> (the class of each and the place of its
  stop instruction), that each call is served by the handler of its class in the environment the
  stop left, the SPU being started again four bytes further in the environment the handler left,
  and that it then stops at \<open>npc\<close> with the exit code \<open>code\<close>, leaving \<open>e'\<close>.
\<close>

inductive program_run ::
  "'w kernel \<Rightarrow> 'w handler_code \<Rightarrow> handlers \<Rightarrow> spe_context \<Rightarrow> u32 \<Rightarrow> 'w env \<Rightarrow>
   (8 word \<times> u32) list \<Rightarrow> 8 word \<Rightarrow> u32 \<Rightarrow> 'w env \<Rightarrow> bool"
  for K H hs c where
  program_ends: "sys K (SpuRun (fd_spe_dir c) pc) e = (stop_reply (SPE_PROGRAM_NORMAL_END OR ucast code) npc, e') \<Longrightarrow>
     program_run K H hs c pc e [] code npc e'"
| program_calls: "sys K (SpuRun (fd_spe_dir c) pc) e = (stop_reply (SPE_PROGRAM_LIBRARY_CALL OR ucast n) at, e1) \<Longrightarrow>
     base_spe_handle_library_callback H hs c (unat n) at e1 = Some (0, e2) \<Longrightarrow>
     program_run K H hs c (at + 4) e2 cs code npc e' \<Longrightarrow>
     program_run K H hs c pc e ((n, at) # cs) code npc e'"

text \<open>The loop runs such a program to its end.\<close>

lemma program_run_ends:
  assumes "program_run K H hs c pc e cs code npc e'" "run_c s = c" "run_tmp s = pc" "run_env s = e"
    and "\<not> has_flag (flags c) SPE_ISOLATE" "\<not> has_flag (flags c) SPE_ISOLATE_EMULATE"
    and "\<not> has_flag rf SPE_NO_CALLBACKS"
  shows "\<exists>s'. do_run K H hs rf s = Some (0, s') \<and>
    stop_reason (run_info s') = Some SPE_EXIT \<and> stop_result (run_info s') = uint code \<and>
    run_entry s' = npc \<and> run_c s' = c \<and> run_env s' = e'"
  using assms(1-4)
proof (induction arbitrary: s rule: program_run.induct)
  case (program_ends pc e code npc e')
  obtain s' where "do_run_step K H hs rf s = Some (Some 0, s')" "stop_reason (run_info s') = Some SPE_EXIT"
    "stop_result (run_info s') = uint code" "run_entry s' = npc" "run_c s' = run_c s" "run_env s' = e'"
    by (rule normal_end_round [of K s code npc e' H hs rf]) (use program_ends assms(5,6) in simp_all)
  with program_ends(2) show ?case by (subst do_run.simps) simp
next
  case (program_calls pc e n at e1 e2 cs code npc e')
  note st = program_calls(5-7)
  obtain s1 where s1: "do_run_step K H hs rf s = Some (None, s1)" "run_tmp s1 = at + 4" "run_c s1 = c" "run_env s1 = e2"
    by (rule library_call_round [of K s n at e1 rf H hs e2]) (use program_calls(1,2) st assms(6,7) in simp_all)
  have "do_run K H hs rf s = do_run K H hs rf s1" by (subst do_run.simps) (simp add: s1(1))
  with program_calls.IH [OF s1(3,2,4)] show ?case by simp
qed

end
