(* ===== verification/Spe_Dma.thy ===== *)
theory Spe_Dma
  imports Spe_Fds
begin

unbundle bit_operations_syntax

text \<open>
  Proxy DMA and multisource synchronisation (\<open>spebase/dma.c\<close>): a command goes to the MFC through
  its registers when the problem state is mapped, through the file \<open>mfc\<close> otherwise, and by a
  plain copy when the kernel has no such file. The loops that poll a register have no result
  when the hardware never answers.
\<close>

section \<open>Commands\<close>

abbreviation (input) MFC_CMD_PUT :: u32 where "MFC_CMD_PUT \<equiv> 0x20"
abbreviation (input) MFC_CMD_PUTB :: u32 where "MFC_CMD_PUTB \<equiv> 0x21"
abbreviation (input) MFC_CMD_PUTF :: u32 where "MFC_CMD_PUTF \<equiv> 0x22"
abbreviation (input) MFC_CMD_GET :: u32 where "MFC_CMD_GET \<equiv> 0x40"
abbreviation (input) MFC_CMD_GETB :: u32 where "MFC_CMD_GETB \<equiv> 0x41"
abbreviation (input) MFC_CMD_GETF :: u32 where "MFC_CMD_GETF \<equiv> 0x42"

record mfc_command =
  mfc_lsa :: u32
  mfc_ea :: addr
  mfc_size :: u32
  mfc_tag :: u32
  mfc_tid :: u32
  mfc_rid :: u32
  mfc_cmd :: u32

definition bytes16 :: "u32 \<Rightarrow> u8 list" where
  "bytes16 w = [ucast (drop_bit 8 w), ucast w]"

text \<open>\<open>struct mfc_command_parameter_area\<close>, as it lies in memory.\<close>

definition mfc_parm :: "mfc_command \<Rightarrow> u8 list" where
  "mfc_parm k = bytes_of_word 0 @ bytes_of_word (mfc_lsa k) @
     bytes_of_word (of_nat (mfc_ea k div 2 ^ 32)) @ bytes_of_word (of_nat (mfc_ea k)) @
     bytes16 (mfc_size k) @ bytes16 (mfc_tag k) @
     bytes16 (push_bit 8 (mfc_tid k) OR mfc_rid k) @ bytes16 (mfc_cmd k)"

partial_function (option) wait_queue :: "'w kernel \<Rightarrow> addr \<Rightarrow> 'w env \<Rightarrow> 'w env option" where
  [code]: "wait_queue K base e =
     (case mmio_read K base MFC_QStatus_off e of
        None \<Rightarrow> None
      | Some (w, e1) \<Rightarrow> if w AND 0x0000FFFF = 0 then wait_queue K base e1 else Some e1)"

definition mfc_registers :: "mfc_command \<Rightarrow> (nat \<times> u32) list" where
  "mfc_registers k =
     [(MFC_LSA_off, mfc_lsa k), (MFC_EAH_off, of_nat (mfc_ea k div 2 ^ 32)),
      (MFC_EAL_off, of_nat (mfc_ea k)), (MFC_Size_Tag_off, push_bit 16 (mfc_size k) OR mfc_tag k),
      (MFC_ClassID_CMD_off, push_bit 24 (mfc_tid k) OR push_bit 16 (mfc_rid k) OR mfc_cmd k)]"

fun write_registers :: "'w kernel \<Rightarrow> addr \<Rightarrow> (nat \<times> u32) list \<Rightarrow> 'w env \<Rightarrow> 'w env option" where
  "write_registers K base [] e = Some e"
| "write_registers K base ((off, w) # rs) e = do {
     e1 \<leftarrow> mmio_write K base off w e; write_registers K base rs e1 }"

text \<open>\<open>MFC_CMDStatus\<close> is read at the offset of \<open>MFC_ClassID_CMD\<close>.\<close>

partial_function (option) enqueue :: "'w kernel \<Rightarrow> addr \<Rightarrow> mfc_command \<Rightarrow> 'w env \<Rightarrow> 'w env option" where
  [code]: "enqueue K base k e =
     (case write_registers K base (mfc_registers k) e of
        None \<Rightarrow> None
      | Some e1 \<Rightarrow>
        (case mmio_read K base MFC_ClassID_CMD_off e1 of
           None \<Rightarrow> None
         | Some (w, e2) \<Rightarrow> if w AND 0x00000003 \<noteq> 0 then enqueue K base k e2 else Some e2))"

definition issue_mfc_command ::
  "'w kernel \<Rightarrow> spe_context \<Rightarrow> mfc_command \<Rightarrow> 'w env \<Rightarrow> (int \<times> spe_context \<times> 'w env) option" where
  "issue_mfc_command K c k e =
     (if mfc_tag k > 0x0f \<or> mfc_tid k > 0xff \<or> mfc_rid k > 0xff
      then Some (-1, c, set_errno EINVAL e)
      else if has_flag (flags c) SPE_MAP_PS then
        (let e1 = base_spe_context_lock FD_MFC e;
             c1 = c\<lparr>active_tagmask := active_tagmask c OR push_bit (unat (mfc_tag k)) 1\<rparr> in do {
           e2 \<leftarrow> wait_queue K (mfc_mmap_base c1) e1;
           e3 \<leftarrow> enqueue K (mfc_mmap_base c1) k e2;
           Some (0, c1, base_spe_context_unlock FD_MFC e3) })
      else
        (let (fd, c1, e1) = base_spe_open_if_closed K c FD_MFC False e in
         if fd \<noteq> -1 then
           (let (ret, e2) = sys_rv K (Write fd (mfc_parm k)) e1
            in Some (if ret < 0 then -1 else 0, c1, e2))
         else Some (1, c1, e1)))"

definition spe_do_mfc_put ::
  "'w kernel \<Rightarrow> spe_context \<Rightarrow> mfc_command \<Rightarrow> 'w env \<Rightarrow> (int \<times> spe_context \<times> 'w env) option" where
  "spe_do_mfc_put K c k e = do {
     (ret, c1, e1) \<leftarrow> issue_mfc_command K c k e;
     if ret \<le> 0 then Some (ret, c1, e1)
     else if mem_mmap_base c1 = MAP_FAILED then Some (-1, c1, set_errno EINVAL e1)
     else do {
       m \<leftarrow> memcpy (mem e1) (mfc_ea k) (mem_mmap_base c1 + unat (mfc_lsa k)) (unat (mfc_size k));
       Some (0, c1, e1\<lparr>mem := m\<rparr>) } }"

definition spe_do_mfc_get ::
  "'w kernel \<Rightarrow> spe_context \<Rightarrow> mfc_command \<Rightarrow> 'w env \<Rightarrow> (int \<times> spe_context \<times> 'w env) option" where
  "spe_do_mfc_get K c k e = do {
     (ret, c1, e1) \<leftarrow> issue_mfc_command K c k e;
     if ret \<le> 0 then Some (ret, c1, e1)
     else if mem_mmap_base c1 = MAP_FAILED then Some (-1, c1, set_errno EINVAL e1)
     else do {
       m \<leftarrow> memcpy (mem e1) (mem_mmap_base c1 + unat (mfc_lsa k)) (mfc_ea k) (unat (mfc_size k));
       Some (0, c1, e1\<lparr>mem := m\<rparr>) } }"

definition command :: "u32 \<Rightarrow> addr \<Rightarrow> u32 \<Rightarrow> u32 \<Rightarrow> u32 \<Rightarrow> u32 \<Rightarrow> u32 \<Rightarrow> mfc_command" where
  "command ls ea sz tag tid rid cmd = \<lparr>mfc_lsa = ls, mfc_ea = ea, mfc_size = sz, mfc_tag = tag,
     mfc_tid = tid, mfc_rid = rid, mfc_cmd = cmd\<rparr>"

definition base_spe_mfcio_put where
  "base_spe_mfcio_put K c ls ea sz tag tid rid e =
     spe_do_mfc_put K c (command ls ea sz tag tid rid MFC_CMD_PUT) e"

definition base_spe_mfcio_putb where
  "base_spe_mfcio_putb K c ls ea sz tag tid rid e =
     spe_do_mfc_put K c (command ls ea sz tag tid rid MFC_CMD_PUTB) e"

definition base_spe_mfcio_putf where
  "base_spe_mfcio_putf K c ls ea sz tag tid rid e =
     spe_do_mfc_put K c (command ls ea sz tag tid rid MFC_CMD_PUTF) e"

definition base_spe_mfcio_get where
  "base_spe_mfcio_get K c ls ea sz tag tid rid e =
     spe_do_mfc_get K c (command ls ea sz tag tid rid MFC_CMD_GET) e"

text \<open>The code passes \<open>rid\<close> in the place of \<open>tid\<close>.\<close>

definition base_spe_mfcio_getb where
  "base_spe_mfcio_getb K c ls ea sz tag (tid :: u32) rid e =
     spe_do_mfc_get K c (command ls ea sz tag rid rid MFC_CMD_GETB) e"

definition base_spe_mfcio_getf where
  "base_spe_mfcio_getf K c ls ea sz tag tid rid e =
     spe_do_mfc_get K c (command ls ea sz tag tid rid MFC_CMD_GETF) e"

section \<open>Tag status\<close>

text \<open>The polling loop toggles the bits of every value it reads in the mask of active tags.\<close>

definition toggle_tags :: "u32 \<Rightarrow> spe_context \<Rightarrow> spe_context" where
  "toggle_tags w c = c\<lparr>active_tagmask := active_tagmask c XOR w\<rparr>"

partial_function (option) poll_tags ::
  "'w kernel \<Rightarrow> u32 \<Rightarrow> spe_context \<times> 'w env \<Rightarrow> (u32 \<times> spe_context \<times> 'w env) option" where
  [code]: "poll_tags K msk s =
     (case mmio_read K (mfc_mmap_base (fst s)) Prxy_TagStatus_off (snd s) of
        None \<Rightarrow> None
      | Some (w, e1) \<Rightarrow>
        if w XOR msk \<noteq> 0 then poll_tags K msk (toggle_tags w (fst s), e1)
        else Some (w, toggle_tags w (fst s), e1))"

text \<open>
  The status is stored through the pointer of the caller: \<open>Some w\<close> when it is written. A read of
  four bytes from the file is their word.
\<close>

type_synonym 'w tag_result = "(int \<times> u32 option \<times> spe_context \<times> 'w env) option"

definition read_status :: "'w kernel \<Rightarrow> int \<Rightarrow> spe_context \<Rightarrow> 'w env \<Rightarrow> 'w tag_result" where
  "read_status K fd c e =
     (let (r, e1) = sys K (Read fd 4) e in
      if rv r = 4 then Some (0, Some (word_of_bytes (rbytes r)), c, e1) else Some (-1, None, c, e1))"

definition spe_read_tag_status_block :: "'w kernel \<Rightarrow> spe_context \<Rightarrow> u32 \<Rightarrow> 'w env \<Rightarrow> 'w tag_result" where
  "spe_read_tag_status_block K c msk e =
     (if has_flag (flags c) SPE_MAP_PS then do {
        let e1 = base_spe_context_lock FD_MFC e;
        e2 \<leftarrow> mmio_write K (mfc_mmap_base c) Prxy_QueryMask_off msk e1;
        (w, c1, e3) \<leftarrow> poll_tags K msk (c, e2);
        Some (0, Some w, c1, base_spe_context_unlock FD_MFC e3) }
      else
        (let (fd, c1, e1) = base_spe_open_if_closed K c FD_MFC False e in
         if fd = -1 then Some (-1, None, c1, e1) else read_status K fd c1 e1))"

text \<open>The result of \<open>poll\<close> is kept in an unsigned variable: the test \<open>ret < 0\<close> is never true.\<close>

definition spe_read_tag_status_noblock :: "'w kernel \<Rightarrow> spe_context \<Rightarrow> u32 \<Rightarrow> 'w env \<Rightarrow> 'w tag_result" where
  "spe_read_tag_status_noblock K c msk e =
     (if has_flag (flags c) SPE_MAP_PS then do {
        let e1 = base_spe_context_lock FD_MFC e;
        e2 \<leftarrow> mmio_write K (mfc_mmap_base c) Prxy_QueryMask_off msk e1;
        (w, e3) \<leftarrow> mmio_read K (mfc_mmap_base c) Prxy_TagStatus_off e2;
        Some (0, Some w, toggle_tags w c, base_spe_context_unlock FD_MFC e3) }
      else
        (let (fd, c1, e1) = base_spe_open_if_closed K c FD_MFC False e in
         if fd = -1 then Some (-1, None, c1, e1)
         else
           let (r, e2) = sys K (Poll fd POLLIN 0) e1; ret = (word_of_int (rv r) :: u32) in
           if ret < 0 then Some (-1, None, c1, e2)
           else if ret = 0 \<or> \<not> has_flag (first_word r) POLLIN then Some (0, Some 0, c1, e2)
           else read_status K fd c1 e2))"

definition spe_mfcio_tag_status_read_all :: "'w kernel \<Rightarrow> spe_context \<Rightarrow> u32 \<Rightarrow> 'w env \<Rightarrow> 'w tag_result" where
  "spe_mfcio_tag_status_read_all K c msk e =
     (if has_flag (flags c) SPE_MAP_PS then spe_read_tag_status_block K c msk e
      else
        (let (fd, c1, e1) = base_spe_open_if_closed K c FD_MFC False e in
         if fd = -1 then Some (-1, None, c1, e1)
         else
           let (r, e2) = sys_rv K (Fsync fd) e1 in
           if r \<noteq> 0 then Some (-1, None, c1, e2) else spe_read_tag_status_block K c1 msk e2))"

definition spe_mfcio_tag_status_read_any :: "'w kernel \<Rightarrow> spe_context \<Rightarrow> u32 \<Rightarrow> 'w env \<Rightarrow> 'w tag_result" where
  "spe_mfcio_tag_status_read_any K c msk e = spe_read_tag_status_block K c msk e"

definition spe_mfcio_tag_status_read_immediate ::
  "'w kernel \<Rightarrow> spe_context \<Rightarrow> u32 \<Rightarrow> 'w env \<Rightarrow> 'w tag_result" where
  "spe_mfcio_tag_status_read_immediate K c msk e = spe_read_tag_status_noblock K c msk e"

text \<open>\<open>ptr\<close>: the pointer for the status is not \<open>NULL\<close>.\<close>

definition base_spe_mfcio_tag_status_read ::
  "'w kernel \<Rightarrow> spe_context \<Rightarrow> u32 \<Rightarrow> u32 \<Rightarrow> bool \<Rightarrow> 'w env \<Rightarrow> 'w tag_result" where
  "base_spe_mfcio_tag_status_read K c msk0 behavior ptr e =
     (let ps = has_flag (flags c) SPE_MAP_PS;
          msk = (if msk0 \<noteq> 0 then (if \<not> ps then 0 else msk0)
                  else if ps then active_tagmask c else msk0) in
      if \<not> ptr then Some (-1, None, c, set_errno EINVAL e)
      else if behavior = SPE_TAG_ALL then spe_mfcio_tag_status_read_all K c msk e
      else if behavior = SPE_TAG_ANY then spe_mfcio_tag_status_read_any K c msk e
      else if behavior = SPE_TAG_IMMEDIATE then spe_mfcio_tag_status_read_immediate K c msk e
      else Some (-1, None, c, set_errno EINVAL e))"

section \<open>Multisource synchronisation\<close>

definition base_spe_mssync_start ::
  "'w kernel \<Rightarrow> spe_context \<Rightarrow> 'w env \<Rightarrow> (int \<times> spe_context \<times> 'w env) option" where
  "base_spe_mssync_start K c e =
     (if has_flag (flags c) SPE_MAP_PS then do {
        e1 \<leftarrow> mmio_write K (mssync_mmap_base c) MFC_MSSync_off 1 e;
        Some (0, c, e1) }
      else
        (let (fd, c1, e1) = base_spe_open_if_closed K c FD_MSS False e in
         if fd \<noteq> -1 then
           (let (ret, e2) = sys_rv K (Write fd (bytes_of_word 1)) e1
            in Some (if ret < 0 then -1 else 0, c1, e2))
         else Some (-1, c1, e1)))"

text \<open>A short read leaves the local variable \<open>data\<close> as it was (\<open>junk\<close>).\<close>

definition base_spe_mssync_status ::
  "'w kernel \<Rightarrow> u32 \<Rightarrow> spe_context \<Rightarrow> 'w env \<Rightarrow> (int \<times> spe_context \<times> 'w env) option" where
  "base_spe_mssync_status K junk c e =
     (if has_flag (flags c) SPE_MAP_PS then do {
        (w, e1) \<leftarrow> mmio_read K (mssync_mmap_base c) MFC_MSSync_off e;
        Some (sint w, c, e1) }
      else
        (let (fd, c1, e1) = base_spe_open_if_closed K c FD_MSS False e in
         if fd \<noteq> -1 then
           (let (r, e2) = sys K (Read fd 4) e1;
                data = (if rv r = 4 then word_of_bytes (rbytes r) else junk)
            in Some (if rv r < 0 then -1 else sint data, c1, e2))
         else Some (-1, c1, e1)))"

section \<open>What the MFC receives\<close>

text \<open>
  A command as the MFC reads it from its registers, and as the kernel reads it from the file:
  size, tag and opcode are 16-bit fields, the class identifiers 8-bit fields.
\<close>

definition low16 :: "u32 \<Rightarrow> u32" where "low16 w = w AND 0xFFFF"

definition decode_registers :: "(nat \<times> u32) list \<Rightarrow> mfc_command option" where
  "decode_registers rs =
     (case rs of
        [(a, lsa), (b, eah), (c, eal), (d, size_tag), (f, class_cmd)] \<Rightarrow>
          if [a, b, c, d, f] = [MFC_LSA_off, MFC_EAH_off, MFC_EAL_off, MFC_Size_Tag_off, MFC_ClassID_CMD_off]
          then Some \<lparr>mfc_lsa = lsa, mfc_ea = 2 ^ 32 * unat eah + unat eal,
            mfc_size = drop_bit 16 size_tag, mfc_tag = low16 size_tag,
            mfc_tid = drop_bit 24 class_cmd, mfc_rid = drop_bit 16 class_cmd AND 0xFF,
            mfc_cmd = low16 class_cmd\<rparr>
          else None
      | _ \<Rightarrow> None)"

definition word16 :: "u8 \<Rightarrow> u8 \<Rightarrow> u32" where
  "word16 a b = push_bit 8 (ucast a) OR ucast b"

definition decode_parm :: "u8 list \<Rightarrow> mfc_command" where
  "decode_parm bs =
     (let cl = word16 (bs ! 20) (bs ! 21) in
      \<lparr>mfc_lsa = word_of_bytes (take 4 (drop 4 bs)),
       mfc_ea = 2 ^ 32 * unat (word_of_bytes (take 4 (drop 8 bs))) + unat (word_of_bytes (take 4 (drop 12 bs))),
       mfc_size = word16 (bs ! 16) (bs ! 17), mfc_tag = word16 (bs ! 18) (bs ! 19),
       mfc_tid = drop_bit 8 cl, mfc_rid = cl AND 0xFF, mfc_cmd = word16 (bs ! 22) (bs ! 23)\<rparr>)"

definition below :: "nat \<Rightarrow> u32 \<Rightarrow> bool" where
  "below n w \<longleftrightarrow> (\<forall>i. bit w i \<longrightarrow> i < n)"

lemma below_less: "unat w < 2 ^ n \<Longrightarrow> below n w"
proof -
  assume "unat w < 2 ^ n"
  then have "take_bit n (unat w) = unat w" by (rule take_bit_nat_eq_self)
  then have "bit (unat w) i \<Longrightarrow> i < n" for i by (metis bit_take_bit_iff)
  then show ?thesis by (auto simp: below_def bit_unsigned_iff dest: bit_imp_le_length)
qed

lemma field_numerals: "(0xFF :: u32) = mask 8" "(0xFFFF :: u32) = mask 16"
  by (simp_all add: mask_eq_decr_exp)

lemma belowD: "below n w \<Longrightarrow> bit w i \<Longrightarrow> i < n"
  by (simp add: below_def)

lemma belowN: "below n w \<Longrightarrow> n \<le> i \<Longrightarrow> \<not> bit w i"
  by (auto simp: below_def)

lemma size_tag_fields:
  assumes "below 16 s" "below 16 t"
  shows "drop_bit 16 (push_bit 16 s OR t) = s" "low16 (push_bit 16 s OR t) = t"
  unfolding low16_def field_numerals
  by (auto intro!: bit_word_eqI simp: bit_simps dest: assms [THEN belowD])

lemma class_cmd_fields:
  assumes "below 8 t" "below 8 r" "below 16 c"
  shows "drop_bit 24 (push_bit 24 t OR push_bit 16 r OR c) = t"
    "drop_bit 16 (push_bit 24 t OR push_bit 16 r OR c) AND 0xFF = r"
    "low16 (push_bit 24 t OR push_bit 16 r OR c) = c"
  unfolding low16_def field_numerals
  by (auto intro!: bit_word_eqI simp: bit_simps assms [THEN belowN])
    (use assms [THEN belowD] in fastforce)+

lemma word16_bytes16:
  assumes "below 16 w"
  shows "word16 (ucast (drop_bit 8 w)) (ucast w) = w"
  unfolding word16_def
  by (rule bit_word_eqI) (use assms [THEN belowD] in \<open>fastforce simp: bit_simps\<close>)

lemma class_fields:
  assumes "below 8 t" "below 8 r"
  shows "below 16 (push_bit 8 t OR r)" "drop_bit 8 (push_bit 8 t OR r) = t" "(push_bit 8 t OR r) AND 0xFF = r"
  unfolding field_numerals
  by (auto intro!: bit_word_eqI simp: bit_simps below_def assms [THEN belowN])
    (use assms [THEN belowD] in fastforce)+

definition valid_command :: "mfc_command \<Rightarrow> bool" where
  "valid_command k \<longleftrightarrow> mfc_tag k \<le> 0x0f \<and> mfc_tid k \<le> 0xff \<and> mfc_rid k \<le> 0xff \<and>
     unat (mfc_size k) < 2 ^ 16 \<and> unat (mfc_cmd k) < 2 ^ 16 \<and> mfc_ea k < 2 ^ 64"

lemma valid_command_below:
  assumes "valid_command k"
  shows "below 16 (mfc_size k)" "below 16 (mfc_tag k)" "below 8 (mfc_tid k)" "below 8 (mfc_rid k)"
    "below 16 (mfc_cmd k)"
proof -
  have "unat w < 2 ^ 8" if "w \<le> 0xff" for w :: u32 using that by (simp add: word_le_nat_alt)
  moreover have "unat w < 2 ^ 16" if "w \<le> 0x0f" for w :: u32 using that by (simp add: word_le_nat_alt)
  ultimately show "below 16 (mfc_size k)" "below 16 (mfc_tag k)" "below 8 (mfc_tid k)"
    "below 8 (mfc_rid k)" "below 16 (mfc_cmd k)"
    using assms by (auto simp: valid_command_def intro: below_less)
qed

lemma halves: "a < 2 ^ 64 \<Longrightarrow>
    4294967296 * unat (of_nat (a div 4294967296) :: u32) + unat (of_nat a :: u32) = a"
proof -
  assume a: "a < 2 ^ 64"
  have "unat (of_nat (a div 4294967296) :: u32) = a div 4294967296"
    using a by (simp add: unat_of_nat take_bit_nat_eq_self less_mult_imp_div_less)
  moreover have "unat (of_nat a :: u32) = a mod 4294967296"
    by (simp add: unat_of_nat take_bit_eq_mod)
  moreover have "4294967296 * (a div 4294967296) + a mod 4294967296 = a" by simp
  ultimately show ?thesis by (simp only:)
qed

section \<open>Properties\<close>

text \<open>
  C29: the two ways a command takes to the MFC carry the same command: its registers and the
  bytes written to the file \<open>mfc\<close> both decode to the local store address, 64-bit effective
  address, size, tag, class identifiers and opcode the caller gave.
\<close>

theorem mfc_encodings_agree:
  assumes "valid_command k"
  shows "decode_registers (mfc_registers k) = Some k \<and> decode_parm (mfc_parm k) = k \<and>
    length (mfc_parm k) = 24"
proof -
  note b = valid_command_below [OF assms]
  have "mfc_ea k < 2 ^ 64" using assms by (simp add: valid_command_def)
  note ea = halves [OF this]
  have "decode_registers (mfc_registers k) = Some k"
    by (simp add: decode_registers_def mfc_registers_def size_tag_fields b class_cmd_fields ea
        del: drop_bit_or)
  moreover have "decode_parm (mfc_parm k) = k"
  proof -
    have len: "length (bytes_of_word w) = 4" for w by simp
    have t: "take 4 (bytes_of_word w @ xs) = bytes_of_word w" "drop 4 (bytes_of_word w @ xs) = xs"
      for w xs by simp_all
    define xs where "xs = bytes16 (mfc_size k) @ bytes16 (mfc_tag k) @
      bytes16 (push_bit 8 (mfc_tid k) OR mfc_rid k) @ bytes16 (mfc_cmd k)"
    define ea1 ea0 :: u32 where "ea1 = of_nat (mfc_ea k div 2 ^ 32)" and "ea0 = of_nat (mfc_ea k)"
    have p: "mfc_parm k = bytes_of_word 0 @ bytes_of_word (mfc_lsa k) @ bytes_of_word ea1 @
        bytes_of_word ea0 @ xs" by (simp add: mfc_parm_def xs_def ea1_def ea0_def)
    have d: "take 4 (drop 4 (mfc_parm k)) = bytes_of_word (mfc_lsa k)"
      "take 4 (drop 8 (mfc_parm k)) = bytes_of_word ea1"
      "take 4 (drop 12 (mfc_parm k)) = bytes_of_word ea0" by (simp_all add: p)
    have n: "mfc_parm k ! (16 + i) = xs ! i" for i by (simp add: p nth_append)
    have w: "word_of_bytes4 (ucast (drop_bit 24 w)) (ucast (drop_bit 16 w)) (ucast (drop_bit 8 w)) (ucast w) = w"
      for w using word_of_bytes_of_word [of w] by (simp add: bytes_of_word_def)
    have cl: "word16 (ucast (mfc_tid k)) (ucast (push_bit 8 (mfc_tid k) OR mfc_rid k)) =
        push_bit 8 (mfc_tid k) OR mfc_rid k"
      using word16_bytes16 [OF class_fields(1), of "mfc_tid k" "mfc_rid k"] b by (simp only: class_fields)
    show ?thesis
      using n [of 0] n [of 1] n [of 2] n [of 3] n [of 4] n [of 5] n [of 6] n [of 7] ea
      by (simp add: decode_parm_def d xs_def bytes16_def word16_bytes16 b class_fields ea1_def ea0_def
          cl Let_def del: drop_bit_or)
  qed
  moreover have "length (mfc_parm k) = 24" by (simp add: mfc_parm_def bytes16_def)
  ultimately show ?thesis by blast
qed

theorem mfc_encodings_agree_witness:
  "decode_parm (mfc_parm (command 0x1000 0x123456789A 0x80 5 1 2 MFC_CMD_GETF)) =
     command 0x1000 0x123456789A 0x80 5 1 2 MFC_CMD_GETF"
  using mfc_encodings_agree [of "command 0x1000 0x123456789A 0x80 5 1 2 MFC_CMD_GETF"]
  by (simp add: valid_command_def command_def)

section \<open>Delivery through the registers\<close>

abbreviation reqs :: "'w env \<Rightarrow> sysreq list" where
  "reqs e \<equiv> map fst (trace e)"

lemma script_read:
  assumes "world e = reply_words 0 [w] # rest" "base \<noteq> MAP_FAILED" "base \<noteq> NULL"
  shows "\<exists>e1. mmio_read script_kernel base off e = Some (w, e1) \<and> world e1 = rest \<and>
    reqs e1 = reqs e @ [MmioRead (base + off)]"
  using assms by (simp add: mmio_read_def sys_def reply_words_def first_word_def)

lemma wait_queue_script:
  assumes "base \<noteq> MAP_FAILED" "base \<noteq> NULL" "q AND 0xFFFF \<noteq> 0"
  shows "world e = replicate n (reply_words 0 [0]) @ reply_words 0 [q] # rest \<Longrightarrow>
    \<exists>e1. wait_queue script_kernel base e = Some e1 \<and> world e1 = rest \<and>
      reqs e1 = reqs e @ replicate (Suc n) (MmioRead (base + MFC_QStatus_off))"
proof (induction n arbitrary: e)
  case 0
  then obtain e1 where "mmio_read script_kernel base MFC_QStatus_off e = Some (q, e1)" "world e1 = rest"
    "reqs e1 = reqs e @ [MmioRead (base + MFC_QStatus_off)]"
    using script_read [of e q rest base MFC_QStatus_off] assms by auto
  then show ?case using assms(3) by (subst wait_queue.simps) simp
next
  case (Suc n)
  then obtain e1 where r: "mmio_read script_kernel base MFC_QStatus_off e = Some (0, e1)"
    "world e1 = replicate n (reply_words 0 [0]) @ reply_words 0 [q] # rest"
    "reqs e1 = reqs e @ [MmioRead (base + MFC_QStatus_off)]"
    using script_read [of e 0 _ base MFC_QStatus_off] assms by auto
  then show ?case using Suc.IH [OF r(2)] by (subst wait_queue.simps) auto
qed

definition try_round :: "u32 \<Rightarrow> reply list" where
  "try_round w = replicate 5 (reply_ok 0) @ [reply_words 0 [w]]"

definition try_requests :: "addr \<Rightarrow> mfc_command \<Rightarrow> sysreq list" where
  "try_requests base k = map (\<lambda>(off, w). MmioWrite (base + off) w) (mfc_registers k) @
     [MmioRead (base + MFC_ClassID_CMD_off)]"

lemma mfc_registers_length [simp]: "length (mfc_registers k) = 5"
  by (simp add: mfc_registers_def)

lemma write_registers_script:
  assumes "base \<noteq> MAP_FAILED" "base \<noteq> NULL"
  shows "world e = replicate (length rs) (reply_ok 0) @ rest \<Longrightarrow>
    \<exists>e1. write_registers script_kernel base rs e = Some e1 \<and> world e1 = rest \<and>
      reqs e1 = reqs e @ map (\<lambda>(off, w). MmioWrite (base + off) w) rs"
proof (induction rs arbitrary: e)
  case (Cons r rs)
  obtain off w where r: "r = (off, w)" by fastforce
  obtain e1 where e1: "mmio_write script_kernel base off w e = Some e1"
    "world e1 = replicate (length rs) (reply_ok 0) @ rest" "reqs e1 = reqs e @ [MmioWrite (base + off) w]"
    using Cons.prems assms by (auto simp: mmio_write_def sys_def)
  then show ?case using Cons.IH [OF e1(2)] r by auto
qed simp

lemma enqueue_script:
  assumes "base \<noteq> MAP_FAILED" "base \<noteq> NULL" "\<And>w. w \<in> set ws \<Longrightarrow> w AND 3 \<noteq> 0"
  shows "world e = concat (map try_round (ws @ [0])) @ rest \<Longrightarrow>
    \<exists>e1. enqueue script_kernel base k e = Some e1 \<and> world e1 = rest \<and>
      reqs e1 = reqs e @ concat (replicate (Suc (length ws)) (try_requests base k))"
  using assms(3)
proof (induction ws arbitrary: e)
  case Nil
  have "world e = replicate (length (mfc_registers k)) (reply_ok 0) @ reply_words 0 [0] # rest"
    using Nil.prems by (simp add: try_round_def)
  from write_registers_script [OF assms(1,2) this] obtain e1 where
    e1: "write_registers script_kernel base (mfc_registers k) e = Some e1"
      "world e1 = reply_words 0 [0] # rest"
      "reqs e1 = reqs e @ map (\<lambda>(off, w). MmioWrite (base + off) w) (mfc_registers k)" by blast
  obtain e2 where "mmio_read script_kernel base MFC_ClassID_CMD_off e1 = Some (0, e2)" "world e2 = rest"
    "reqs e2 = reqs e1 @ [MmioRead (base + MFC_ClassID_CMD_off)]"
    using script_read [OF e1(2) assms(1,2)] by blast
  then show ?case using e1 by (subst enqueue.simps) (simp add: try_requests_def)
next
  case (Cons w ws)
  have "world e = replicate (length (mfc_registers k)) (reply_ok 0) @
      reply_words 0 [w] # concat (map try_round (ws @ [0])) @ rest"
    using Cons.prems(1) by (simp add: try_round_def [of w])
  from write_registers_script [OF assms(1,2) this] obtain e1 where
    e1: "write_registers script_kernel base (mfc_registers k) e = Some e1"
      "world e1 = reply_words 0 [w] # concat (map try_round (ws @ [0])) @ rest"
      "reqs e1 = reqs e @ map (\<lambda>(off, w). MmioWrite (base + off) w) (mfc_registers k)" by blast
  obtain e2 where e2: "mmio_read script_kernel base MFC_ClassID_CMD_off e1 = Some (w, e2)"
    "world e2 = concat (map try_round (ws @ [0])) @ rest"
    "reqs e2 = reqs e1 @ [MmioRead (base + MFC_ClassID_CMD_off)]"
    using script_read [OF e1(2) assms(1,2)] by blast
  have "w AND 3 \<noteq> 0" using Cons.prems(2) by simp
  then have "enqueue script_kernel base k e = enqueue script_kernel base k e2"
    using e1 e2 by (subst enqueue.simps) simp
  then show ?case using Cons.IH [OF e2(2)] Cons.prems(2) e1 e2 by (auto simp: try_requests_def)
qed

text \<open>
  C26: when the queue has no free slot for \<open>n\<close> reads of its status and the MFC refuses the command
  any number of times before it accepts it, the command is issued and 0 returned: under the lock,
  all five registers are written again for every try, and the tag becomes active.
\<close>

theorem mfc_command_delivered:
  assumes "has_flag (flags c) SPE_MAP_PS" "mfc_mmap_base c \<noteq> MAP_FAILED" "mfc_mmap_base c \<noteq> NULL"
    and "valid_command k" "q AND 0xFFFF \<noteq> 0" "\<And>w. w \<in> set ws \<Longrightarrow> w AND 3 \<noteq> 0"
    and "world e = replicate n (reply_words 0 [0]) @ reply_words 0 [q] #
      concat (map try_round (ws @ [0])) @ rest"
  shows "\<exists>e'. issue_mfc_command script_kernel c k e =
      Some (0, c\<lparr>active_tagmask := active_tagmask c OR push_bit (unat (mfc_tag k)) 1\<rparr>, e') \<and>
    world e' = rest \<and>
    reqs e' = reqs e @ [Lock (FdLock (fd_index FD_MFC))] @
      replicate (Suc n) (MmioRead (mfc_mmap_base c + MFC_QStatus_off)) @
      concat (replicate (Suc (length ws)) (try_requests (mfc_mmap_base c) k)) @
      [Unlock (FdLock (fd_index FD_MFC))]"
proof -
  let ?b = "mfc_mmap_base c"
  have ids: "\<not> (mfc_tag k > 0x0f \<or> mfc_tid k > 0xff \<or> mfc_rid k > 0xff)"
    using assms(4) by (auto simp: valid_command_def)
  have "world (base_spe_context_lock FD_MFC e) = replicate n (reply_words 0 [0]) @ reply_words 0 [q] #
      concat (map try_round (ws @ [0])) @ rest"
    using assms(7) by (simp add: base_spe_context_lock_def)
  from wait_queue_script [OF assms(2,3,5) this] obtain e1 where
    e1: "wait_queue script_kernel ?b (base_spe_context_lock FD_MFC e) = Some e1"
      "world e1 = concat (map try_round (ws @ [0])) @ rest"
      "reqs e1 = reqs (base_spe_context_lock FD_MFC e) @
        replicate (Suc n) (MmioRead (?b + MFC_QStatus_off))" by blast
  from enqueue_script [OF assms(2,3,6) e1(2)] obtain e2 where
    "enqueue script_kernel ?b k e1 = Some e2" "world e2 = rest"
    "reqs e2 = reqs e1 @ concat (replicate (Suc (length ws)) (try_requests ?b k))" by blast
  then show ?thesis using assms(1) ids e1
    by (simp add: issue_mfc_command_def base_spe_context_lock_def base_spe_context_unlock_def
        del: replicate_Suc)
qed

lemma mfc_command_delivered_sample:
  "valid_command (command 0x1000 0x20000 0x80 5 0 0 MFC_CMD_PUT)"
  by (simp add: valid_command_def command_def)

theorem mfc_command_delivered_witness:
  "\<exists>c' e'. issue_mfc_command script_kernel
      (blank_context\<lparr>flags := SPE_MAP_PS, mfc_mmap_base := 0x30000\<rparr>)
      (command 0x1000 0x20000 0x80 5 0 0 MFC_CMD_PUT)
      (start_env Map.empty (replicate 2 (reply_words 0 [0]) @ reply_words 0 [16] #
        concat (map try_round ([2] @ [0])) @ [])) = Some (0, c', e') \<and>
    active_tagmask c' = 0x20 \<and> world e' = []"
proof -
  let ?c = "blank_context\<lparr>flags := SPE_MAP_PS, mfc_mmap_base := 0x30000\<rparr>"
  let ?e = "start_env Map.empty (replicate 2 (reply_words 0 [0]) @ reply_words 0 [16] #
        concat (map try_round ([2] @ [0])) @ [])"
  have "has_flag (flags ?c) SPE_MAP_PS" "mfc_mmap_base ?c \<noteq> MAP_FAILED" "mfc_mmap_base ?c \<noteq> NULL"
    "(16 :: u32) AND 0xFFFF \<noteq> 0" by (simp_all add: has_flag_def)
  moreover have "w AND 3 \<noteq> 0" if "w \<in> set [2]" for w :: u32 using that by simp
  moreover have "world ?e = replicate 2 (reply_words 0 [0]) @ reply_words 0 [16] #
      concat (map try_round ([2] @ [0])) @ []" by (simp only: start_env_def env.simps)
  ultimately obtain e' where "issue_mfc_command script_kernel ?c
      (command 0x1000 0x20000 0x80 5 0 0 MFC_CMD_PUT) ?e =
      Some (0, ?c\<lparr>active_tagmask := active_tagmask ?c OR
        push_bit (unat (mfc_tag (command 0x1000 0x20000 0x80 5 0 0 MFC_CMD_PUT))) 1\<rparr>, e')" "world e' = []"
    using mfc_command_delivered [OF _ _ _ mfc_command_delivered_sample, of ?c 16 "[2]" ?e 2 "[]"] by blast
  then show ?thesis by (simp add: command_def blank_context_def)
qed

lemma xor_eq_0 [simp]: "a XOR b = 0 \<longleftrightarrow> a = b" for a b :: u32
proof
  assume "a XOR b = 0"
  then have "(a XOR b) XOR b = 0 XOR b" by simp
  then show "a = b" by (simp add: xor.assoc)
qed simp

lemma poll_tags_result:
  assumes "poll_tags K msk s = Some y"
  shows "fst y = msk"
  by (rule poll_tags.raw_induct [OF _ assms, of "\<lambda>K msk s y. fst y = msk"])
    (auto split: option.splits if_splits)

text \<open>
  with the problem state mapped, waiting for any tag of a mask is waiting for all of them:
  the two behaviours are the same function, and it returns only when the status of every tag of
  the mask is complete.
\<close>

theorem tag_any_waits_for_all:
  assumes "has_flag (flags c) SPE_MAP_PS" "m \<noteq> 0"
  shows "base_spe_mfcio_tag_status_read K c m SPE_TAG_ANY True e =
      base_spe_mfcio_tag_status_read K c m SPE_TAG_ALL True e \<and>
    (case base_spe_mfcio_tag_status_read K c m SPE_TAG_ANY True e of
       None \<Rightarrow> True | Some (r, status, c', e') \<Rightarrow> r = 0 \<and> status = Some m)"
  using assms
  by (auto simp: base_spe_mfcio_tag_status_read_def spe_mfcio_tag_status_read_any_def
      spe_mfcio_tag_status_read_all_def spe_read_tag_status_block_def Let_def dest: poll_tags_result
      split: option.splits Option.bind_splits)

theorem tag_any_waits_for_all_witness:
  "\<exists>c' e'. base_spe_mfcio_tag_status_read script_kernel
      (blank_context\<lparr>flags := SPE_MAP_PS, mfc_mmap_base := 0x30000\<rparr>) 3 SPE_TAG_ANY True
      (start_env Map.empty [reply_ok 0, reply_words 0 [1], reply_words 0 [3]]) = Some (0, Some 3, c', e')"
proof -
  let ?c = "blank_context\<lparr>flags := SPE_MAP_PS, mfc_mmap_base := 0x30000\<rparr>"
  let ?e = "start_env Map.empty [reply_ok 0, reply_words 0 [1], reply_words 0 [3]]"
  have f: "has_flag (flags ?c) SPE_MAP_PS" by (simp add: has_flag_def)
  have "base_spe_mfcio_tag_status_read script_kernel ?c 3 SPE_TAG_ANY True ?e \<noteq> None"
    by (simp add: base_spe_mfcio_tag_status_read_def spe_mfcio_tag_status_read_any_def has_flag_def Let_def
        spe_read_tag_status_block_def mmio_write_def mmio_read_def sys_def sample_simps first_word_def
        base_spe_context_lock_def poll_tags.simps toggle_tags_def)
  then show ?thesis using tag_any_waits_for_all [of ?c 3 script_kernel ?e] f by force
qed

text \<open>
  a wait for two tags of which one completes first ends with both complete, and leaves the
  first one in the mask of active tags: the loop toggles the bits of every status it reads.
\<close>

theorem tags_stay_active:
  assumes "has_flag (flags c) SPE_MAP_PS" "mfc_mmap_base c \<noteq> MAP_FAILED" "mfc_mmap_base c \<noteq> NULL"
    and "active_tagmask c = m" "a \<noteq> m" "m \<noteq> 0"
    and "world e = [reply_ok 0, reply_words 0 [a], reply_words 0 [m]]"
  shows "\<exists>c' e'. base_spe_mfcio_tag_status_read script_kernel c 0 SPE_TAG_ALL True e =
      Some (0, Some m, c', e') \<and> active_tagmask c' = a"
proof -
  have s: "m XOR (a XOR m) = a" by (simp add: xor.left_commute)
  show ?thesis using assms
    by (simp add: base_spe_mfcio_tag_status_read_def spe_mfcio_tag_status_read_all_def Let_def
        spe_read_tag_status_block_def mmio_write_def mmio_read_def sys_def first_word_def reply_words_def
        base_spe_context_lock_def poll_tags.simps toggle_tags_def xor.assoc s)
qed

theorem tags_stay_active_witness:
  "\<exists>c' e'. base_spe_mfcio_tag_status_read script_kernel
      (blank_context\<lparr>flags := SPE_MAP_PS, mfc_mmap_base := 0x30000, active_tagmask := 3\<rparr>) 0 SPE_TAG_ALL
      True (start_env Map.empty [reply_ok 0, reply_words 0 [1], reply_words 0 [3]]) =
      Some (0, Some 3, c', e') \<and> active_tagmask c' = 1"
  by (rule tags_stay_active) (simp_all add: has_flag_def start_env_def)

end
