(* ===== verification/Spe_Mbox.thy ===== *)
theory Spe_Mbox
  imports Spe_Fds
begin

unbundle bit_operations_syntax

text \<open>
  Mailboxes and signals (\<open>spebase/mbox.c\<close>): through the control area when the problem state is
  mapped, through the spufs files otherwise. A buffer of \<open>count\<close> words is a list (of the words
  to write) or, for reads, the bytes the call stored in it, in order; \<open>None\<close> is a null pointer.
\<close>

section \<open>Reading the outbound mailbox\<close>

fun read_mbox :: "'w kernel \<Rightarrow> addr \<Rightarrow> nat \<Rightarrow> 'w env \<Rightarrow> (u32 list \<times> 'w env) option" where
  "read_mbox K base 0 e = Some ([], e)"
| "read_mbox K base (Suc n) e = do {
     (w, e1) \<leftarrow> mmio_read K base SPU_Out_Mbox_off e;
     (ws, e2) \<leftarrow> read_mbox K base n e1;
     Some (w # ws, e2) }"

text \<open>The loop of \<open>_base_spe_out_mbox_read_ps\<close>, with \<open>n = count - total\<close> words to go.\<close>

function out_mbox_loop :: "'w kernel \<Rightarrow> addr \<Rightarrow> nat \<Rightarrow> 'w env \<Rightarrow> (u32 list \<times> 'w env) option" where
  "out_mbox_loop K base n e =
     (if n = 0 then Some ([], e)
      else
        (case mmio_read K base SPU_Mbox_Stat_off e of
           None \<Rightarrow> None
         | Some (w, e1) \<Rightarrow>
           if unat (w AND 0xFF) = 0 then Some ([], e1)
           else
             (case read_mbox K base (min (unat (w AND 0xFF)) n) e1 of
                None \<Rightarrow> None
              | Some (ws, e2) \<Rightarrow>
                (case out_mbox_loop K base (n - min (unat (w AND 0xFF)) n) e2 of
                   None \<Rightarrow> None
                 | Some (vs, e3) \<Rightarrow> Some (ws @ vs, e3)))))"
  by pat_completeness auto
termination
  by (relation "measure (\<lambda>(K, base, n, e). n)") auto

declare out_mbox_loop.simps [simp del]

definition base_spe_out_mbox_read_ps ::
  "'w kernel \<Rightarrow> spe_context \<Rightarrow> nat \<Rightarrow> 'w env \<Rightarrow> (int \<times> u8 list \<times> 'w env) option" where
  "base_spe_out_mbox_read_ps K c cnt e = do {
     (ws, e1) \<leftarrow> out_mbox_loop K (cntl_mmap_base c) cnt (base_spe_context_lock FD_MBOX e);
     Some (int (length ws), concat (map bytes_of_word ws), base_spe_context_unlock FD_MBOX e1) }"

text \<open>A \<open>read\<close> on a file of the context: its result and the bytes it stored.\<close>

definition read_file ::
  "'w kernel \<Rightarrow> spe_context \<Rightarrow> fd_name \<Rightarrow> nat \<Rightarrow> 'w env \<Rightarrow> int \<times> u8 list \<times> spe_context \<times> 'w env" where
  "read_file K c f n e =
     (let (fd, c1, e1) = base_spe_open_if_closed K c f False e;
          (r, e2) = sys K (Read fd n) e1
      in (rv r, take (nat (rv r)) (rbytes r), c1, e2))"

definition write_file ::
  "'w kernel \<Rightarrow> spe_context \<Rightarrow> fd_name \<Rightarrow> u8 list \<Rightarrow> 'w env \<Rightarrow> int \<times> spe_context \<times> 'w env" where
  "write_file K c f bs e =
     (let (fd, c1, e1) = base_spe_open_if_closed K c f False e;
          (r, e2) = sys_rv K (Write fd bs) e1
      in (r, c1, e2))"

type_synonym 'w mbox_result = "(int \<times> u8 list \<times> spe_context \<times> 'w env) option"

text \<open>\<open>buf\<close>: the pointer to the buffer is not \<open>NULL\<close>.\<close>

definition base_spe_out_mbox_read ::
  "'w kernel \<Rightarrow> spe_context \<Rightarrow> bool \<Rightarrow> int \<Rightarrow> 'w env \<Rightarrow> 'w mbox_result" where
  "base_spe_out_mbox_read K c buf cnt e =
     (if \<not> buf \<or> cnt < 1 then Some (-1, [], c, set_errno EINVAL e)
      else if has_flag (flags c) SPE_MAP_PS then do {
        (rc, bs, e1) \<leftarrow> base_spe_out_mbox_read_ps K c (nat cnt) e;
        Some (rc, bs, c, e1) }
      else
        (let (rc, bs, c1, e1) = read_file K c FD_MBOX (nat (cnt * 4)) e in
         if rc \<noteq> -1 then Some (c_div rc 4, bs, c1, e1)
         else if errno e1 = EAGAIN then Some (0, bs, c1, set_errno 0 e1)
         else Some (rc, bs, c1, e1)))"

section \<open>Writing the inbound mailbox\<close>

fun write_mbox :: "'w kernel \<Rightarrow> addr \<Rightarrow> u32 list \<Rightarrow> 'w env \<Rightarrow> 'w env option" where
  "write_mbox K base [] e = Some e"
| "write_mbox K base (w # ws) e = do {
     e1 \<leftarrow> mmio_write K base SPU_In_Mbox_off w e; write_mbox K base ws e1 }"

definition mbox_space :: "u32 \<Rightarrow> nat" where
  "mbox_space w = unat (drop_bit 8 w AND 0xFF)"

text \<open>The loop of \<open>_base_spe_in_mbox_write_ps\<close> over the words to go; the number written.\<close>

function in_mbox_loop :: "'w kernel \<Rightarrow> addr \<Rightarrow> u32 list \<Rightarrow> 'w env \<Rightarrow> (nat \<times> 'w env) option" where
  "in_mbox_loop K base ws e =
     (if ws = [] then Some (0, e)
      else
        (case mmio_read K base SPU_Mbox_Stat_off e of
           None \<Rightarrow> None
         | Some (w, e1) \<Rightarrow>
           if mbox_space w = 0 then Some (0, e1)
           else
             (case write_mbox K base (take (min (mbox_space w) (length ws)) ws) e1 of
                None \<Rightarrow> None
              | Some e2 \<Rightarrow>
                (case in_mbox_loop K base (drop (min (mbox_space w) (length ws)) ws) e2 of
                   None \<Rightarrow> None
                 | Some (n, e3) \<Rightarrow> Some (min (mbox_space w) (length ws) + n, e3)))))"
  by pat_completeness auto
termination
  by (relation "measure (\<lambda>(K, base, ws, e). length ws)") auto

declare in_mbox_loop.simps [simp del]

definition base_spe_in_mbox_write_ps ::
  "'w kernel \<Rightarrow> spe_context \<Rightarrow> u32 list \<Rightarrow> 'w env \<Rightarrow> (nat \<times> 'w env) option" where
  "base_spe_in_mbox_write_ps K c ws e = do {
     (n, e1) \<leftarrow> in_mbox_loop K (cntl_mmap_base c) ws (base_spe_context_lock FD_WBOX e);
     Some (n, base_spe_context_unlock FD_WBOX e1) }"

definition poll_wbox :: "'w kernel \<Rightarrow> spe_context \<Rightarrow> 'w env \<Rightarrow> int \<times> spe_context \<times> 'w env" where
  "poll_wbox K c e =
     (let (fd, c1, e1) = base_spe_open_if_closed K c FD_WBOX False e;
          (rc, e2) = sys_rv K (Poll fd POLLOUT (-1)) e1
      in (rc, c1, e2))"

text \<open>
  The loops of the blocking behaviours. \<open>None\<close> as first component is the early \<open>return -1\<close> after
  \<open>poll\<close>; else it is \<open>total\<close>.
\<close>

partial_function (option) write_all_ps ::
  "'w kernel \<Rightarrow> spe_context \<Rightarrow> u32 list \<Rightarrow> nat \<Rightarrow> 'w env \<Rightarrow> (nat option \<times> spe_context \<times> 'w env) option" where
  [code]: "write_all_ps K c ws tot e =
     (case base_spe_in_mbox_write_ps K c (drop tot ws) e of
        None \<Rightarrow> None
      | Some (n, e1) \<Rightarrow>
        if tot + n < length ws then
          (case poll_wbox K c e1 of
             (rc, c1, e2) \<Rightarrow>
               if rc = -1 then Some (None, c1, e2) else write_all_ps K c1 ws (tot + n) e2)
        else Some (Some (tot + n), c, e1))"

partial_function (option) write_any_ps ::
  "'w kernel \<Rightarrow> spe_context \<Rightarrow> u32 list \<Rightarrow> 'w env \<Rightarrow> (nat option \<times> spe_context \<times> 'w env) option" where
  [code]: "write_any_ps K c ws e =
     (case base_spe_in_mbox_write_ps K c ws e of
        None \<Rightarrow> None
      | Some (n, e1) \<Rightarrow>
        if n = 0 then
          (case poll_wbox K c e1 of
             (rc, c1, e2) \<Rightarrow> if rc = -1 then Some (None, c1, e2) else write_any_ps K c1 ws e2)
        else Some (Some n, c, e1))"

text \<open>The loop over \<open>write\<close>: the last result and the number of bytes written.\<close>

partial_function (option) write_all_file ::
  "'w kernel \<Rightarrow> spe_context \<Rightarrow> u8 list \<Rightarrow> int \<Rightarrow> int \<Rightarrow> 'w env \<Rightarrow> (int \<times> int \<times> spe_context \<times> 'w env) option"
where
  [code]: "write_all_file K c bs tot rc e =
     (if tot < int (length bs) then
        (case write_file K c FD_WBOX (drop (nat tot) bs) e of
           (r, c1, e1) \<Rightarrow>
             if r = -1 then Some (r, tot, c1, e1) else write_all_file K c1 bs (tot + r) r e1)
      else Some (rc, tot, c, e))"

definition mbox_rc :: "int \<Rightarrow> int \<Rightarrow> spe_context \<Rightarrow> 'w env \<Rightarrow> int \<times> spe_context \<times> 'w env" where
  "mbox_rc rc tot c e = (if rc = -1 then (-1, c, set_errno EIO e) else (tot, c, e))"

definition base_spe_in_mbox_write ::
  "'w kernel \<Rightarrow> spe_context \<Rightarrow> u32 list option \<Rightarrow> u32 \<Rightarrow> 'w env \<Rightarrow> (int \<times> spe_context \<times> 'w env) option" where
  "base_spe_in_mbox_write K c mbox_data behavior_flag e =
     (case mbox_data of
        None \<Rightarrow> Some (-1, c, set_errno EINVAL e)
      | Some ws \<Rightarrow>
        let ps = has_flag (flags c) SPE_MAP_PS; bs = concat (map bytes_of_word ws);
            finish_ps = (\<lambda>(t, c1, e1). case t of None \<Rightarrow> (-1, c1, e1) | Some n \<Rightarrow> (int n, c1, e1)) in
        if ws = [] then Some (-1, c, set_errno EINVAL e)
        else if behavior_flag = SPE_MBOX_ALL_BLOCKING then
          (if ps then map_option finish_ps (write_all_ps K c ws 0 e)
           else do { (rc, tot, c1, e1) \<leftarrow> write_all_file K c bs 0 0 e;
                     Some (mbox_rc rc (c_div tot 4) c1 e1) })
        else if behavior_flag = SPE_MBOX_ANY_BLOCKING then
          (if ps then map_option finish_ps (write_any_ps K c ws e)
           else (let (rc, c1, e1) = write_file K c FD_WBOX bs e in Some (mbox_rc rc (c_div rc 4) c1 e1)))
        else if behavior_flag = SPE_MBOX_ANY_NONBLOCKING then
          (if ps then do { (n, e1) \<leftarrow> base_spe_in_mbox_write_ps K c ws e; Some (int n, c, e1) }
           else
             (let (r, c1, e1) = write_file K c FD_WBOX_NB bs e;
                  (rc, e2) = (if r = -1 \<and> errno e1 = EAGAIN then (0, set_errno 0 e1) else (r, e1))
              in Some (mbox_rc rc (c_div rc 4) c1 e2)))
        else Some (-1, c, set_errno EINVAL e))"

section \<open>Status\<close>

definition status_file ::
  "'w kernel \<Rightarrow> spe_context \<Rightarrow> fd_name \<Rightarrow> 'w env \<Rightarrow> int \<times> spe_context \<times> 'w env" where
  "status_file K c f e =
     (let (rc, bs, c1, e1) = read_file K c f 4 e in
      (if rc \<noteq> 4 then -1 else sint (word_of_bytes bs), c1, e1))"

definition mbox_stat ::
  "'w kernel \<Rightarrow> spe_context \<Rightarrow> nat \<Rightarrow> fd_name \<Rightarrow> 'w env \<Rightarrow> (int \<times> spe_context \<times> 'w env) option" where
  "mbox_stat K c sh f e =
     (if has_flag (flags c) SPE_MAP_PS then do {
        (w, e1) \<leftarrow> mmio_read K (cntl_mmap_base c) SPU_Mbox_Stat_off e;
        Some (uint (drop_bit sh w AND 0xFF), c, e1) }
      else Some (status_file K c f e))"

definition base_spe_in_mbox_status where
  "base_spe_in_mbox_status K c e = mbox_stat K c 8 FD_WBOX_STAT e"

definition base_spe_out_mbox_status where
  "base_spe_out_mbox_status K c e = mbox_stat K c 0 FD_MBOX_STAT e"

definition base_spe_out_intr_mbox_status where
  "base_spe_out_intr_mbox_status K c e = mbox_stat K c 16 FD_IBOX_STAT e"

section \<open>Reading the interrupting mailbox\<close>

partial_function (option) read_all_file ::
  "'w kernel \<Rightarrow> spe_context \<Rightarrow> nat \<Rightarrow> u8 list \<Rightarrow> int \<Rightarrow> int \<Rightarrow> 'w env \<Rightarrow>
   (int \<times> int \<times> u8 list \<times> spe_context \<times> 'w env) option"
where
  [code]: "read_all_file K c len bs tot rc e =
     (if tot < int len then
        (case read_file K c FD_IBOX (len - nat tot) e of
           (r, xs, c1, e1) \<Rightarrow>
             if r = -1 then Some (r, tot, bs, c1, e1)
             else read_all_file K c1 len (bs @ xs) (tot + r) r e1)
      else Some (rc, tot, bs, c, e))"

definition intr_result ::
  "int \<Rightarrow> int \<Rightarrow> u8 list \<Rightarrow> spe_context \<Rightarrow> 'w env \<Rightarrow> int \<times> u8 list \<times> spe_context \<times> 'w env" where
  "intr_result rc tot bs c e =
     (if rc = -1 then (-1, bs, c, set_errno EIO e) else (c_div tot 4, bs, c, e))"

definition base_spe_out_intr_mbox_read ::
  "'w kernel \<Rightarrow> spe_context \<Rightarrow> bool \<Rightarrow> int \<Rightarrow> u32 \<Rightarrow> 'w env \<Rightarrow> 'w mbox_result" where
  "base_spe_out_intr_mbox_read K c buf cnt behavior_flag e =
     (if \<not> buf \<or> cnt < 1 then Some (-1, [], c, set_errno EINVAL e)
      else if behavior_flag = SPE_MBOX_ALL_BLOCKING then do {
        (rc, tot, bs, c1, e1) \<leftarrow> read_all_file K c (nat (4 * cnt)) [] 0 0 e;
        Some (intr_result rc tot bs c1 e1) }
      else if behavior_flag = SPE_MBOX_ANY_BLOCKING then
        (let (rc, bs, c1, e1) = read_file K c FD_IBOX (nat (4 * cnt)) e
         in Some (intr_result rc rc bs c1 e1))
      else if behavior_flag = SPE_MBOX_ANY_NONBLOCKING then
        (let (r, bs, c1, e1) = read_file K c FD_IBOX_NB (nat (4 * cnt)) e;
             (rc, e2) = (if r = -1 \<and> errno e1 = EAGAIN then (0, set_errno 0 e1) else (r, e1))
         in Some (intr_result rc rc bs c1 e2))
      else Some (-1, [], c, set_errno EINVAL e))"

section \<open>Signals\<close>

definition signal_file ::
  "'w kernel \<Rightarrow> spe_context \<Rightarrow> fd_name \<Rightarrow> u32 \<Rightarrow> 'w env \<Rightarrow> int \<times> spe_context \<times> 'w env" where
  "signal_file K c f data e =
     (let (r, c1, e1) = write_file K c f (bytes_of_word data) e;
          rc = (if r = 4 then 0 else r);
          (c2, e2) = base_spe_close_if_open K c1 f e1
      in (rc, c2, e2))"

definition base_spe_signal_write ::
  "'w kernel \<Rightarrow> spe_context \<Rightarrow> u32 \<Rightarrow> u32 \<Rightarrow> 'w env \<Rightarrow> (int \<times> spe_context \<times> 'w env) option" where
  "base_spe_signal_write K c signal_reg data e =
     (if has_flag (flags c) SPE_MAP_PS then
        (if signal_reg = SPE_SIG_NOTIFY_REG_1 then do {
           e1 \<leftarrow> mmio_write K (signal1_mmap_base c) SPU_Sig_Notify_off data e; Some (0, c, e1) }
         else if signal_reg = SPE_SIG_NOTIFY_REG_2 then do {
           e1 \<leftarrow> mmio_write K (signal2_mmap_base c) SPU_Sig_Notify_off data e; Some (0, c, e1) }
         else Some (-1, c, set_errno EINVAL e))
      else if signal_reg = SPE_SIG_NOTIFY_REG_1 then Some (signal_file K c FD_SIG1 data e)
      else if signal_reg = SPE_SIG_NOTIFY_REG_2 then Some (signal_file K c FD_SIG2 data e)
      else Some (-1, c, set_errno EINVAL e))"

section \<open>A mailbox as the hardware keeps it\<close>

text \<open>
  The state of the hardware holds the words the program has sent and those it has not read yet;
  the status register counts the words waiting and the free entries (of \<open>cap\<close>), a read of the
  outbound register takes the first word, a write of the inbound register adds one.
\<close>

definition mbox_device ::
  "'w kernel \<Rightarrow> addr \<Rightarrow> ('w \<Rightarrow> u32 list) \<Rightarrow> ('w \<Rightarrow> u32 list) \<Rightarrow> nat \<Rightarrow> bool" where
  "mbox_device K base outq inq cap \<longleftrightarrow>
     (\<forall>m x. case K (MmioRead (base + SPU_Mbox_Stat_off)) (m, x) of (r, m', x') \<Rightarrow>
        unat (first_word r AND 0xFF) = length (outq x) \<and>
        mbox_space (first_word r) = cap - length (inq x) \<and> outq x' = outq x \<and> inq x' = inq x) \<and>
     (\<forall>m x v vs. outq x = v # vs \<longrightarrow>
        (case K (MmioRead (base + SPU_Out_Mbox_off)) (m, x) of (r, m', x') \<Rightarrow>
          first_word r = v \<and> outq x' = vs \<and> inq x' = inq x)) \<and>
     (\<forall>m x w. length (inq x) < cap \<longrightarrow>
        (case K (MmioWrite (base + SPU_In_Mbox_off) w) (m, x) of (r, m', x') \<Rightarrow>
          inq x' = inq x @ [w] \<and> outq x' = outq x))"

lemma device_stat:
  assumes "mbox_device K base outq inq cap" "base \<noteq> MAP_FAILED" "base \<noteq> NULL"
  shows "\<exists>w e1. mmio_read K base SPU_Mbox_Stat_off e = Some (w, e1) \<and>
    unat (w AND 0xFF) = length (outq (world e)) \<and> mbox_space w = cap - length (inq (world e)) \<and>
    outq (world e1) = outq (world e) \<and> inq (world e1) = inq (world e)"
proof -
  obtain r m' x' where k: "K (MmioRead (base + SPU_Mbox_Stat_off)) (mem e, world e) = (r, m', x')"
    by (metis prod_cases3)
  moreover from assms(1) k have "unat (first_word r AND 0xFF) = length (outq (world e)) \<and>
      mbox_space (first_word r) = cap - length (inq (world e)) \<and>
      outq x' = outq (world e) \<and> inq x' = inq (world e)"
    unfolding mbox_device_def by (metis (mono_tags, lifting) case_prod_conv)
  ultimately show ?thesis using assms(2,3) by (simp add: mmio_read_def sys_def)
qed

lemma device_read:
  assumes "mbox_device K base outq inq cap" "base \<noteq> MAP_FAILED" "base \<noteq> NULL"
    and "outq (world e) = v # vs"
  shows "\<exists>e1. mmio_read K base SPU_Out_Mbox_off e = Some (v, e1) \<and> outq (world e1) = vs \<and>
    inq (world e1) = inq (world e)"
proof -
  obtain r m' x' where k: "K (MmioRead (base + SPU_Out_Mbox_off)) (mem e, world e) = (r, m', x')"
    by (metis prod_cases3)
  moreover from assms(1,4) k have "first_word r = v \<and> outq x' = vs \<and> inq x' = inq (world e)"
    unfolding mbox_device_def by (metis (mono_tags, lifting) case_prod_conv)
  ultimately show ?thesis using assms(2,3) by (simp add: mmio_read_def sys_def)
qed

lemma device_write:
  assumes "mbox_device K base outq inq cap" "base \<noteq> MAP_FAILED" "base \<noteq> NULL"
    and "length (inq (world e)) < cap"
  shows "\<exists>e1. mmio_write K base SPU_In_Mbox_off v e = Some e1 \<and>
    inq (world e1) = inq (world e) @ [v] \<and> outq (world e1) = outq (world e)"
proof -
  obtain r m' x' where k: "K (MmioWrite (base + SPU_In_Mbox_off) v) (mem e, world e) = (r, m', x')"
    by (metis prod_cases3)
  moreover from assms(1,4) k have "inq x' = inq (world e) @ [v] \<and> outq x' = outq (world e)"
    unfolding mbox_device_def by (metis (mono_tags, lifting) case_prod_conv)
  ultimately show ?thesis using assms(2,3) by (simp add: mmio_write_def sys_def)
qed

lemma read_mbox_device:
  assumes dev: "mbox_device K base outq inq cap" "base \<noteq> MAP_FAILED" "base \<noteq> NULL"
  shows "n \<le> length (outq (world e)) \<Longrightarrow>
    \<exists>e1. read_mbox K base n e = Some (take n (outq (world e)), e1) \<and>
      outq (world e1) = drop n (outq (world e)) \<and> inq (world e1) = inq (world e)"
proof (induction n arbitrary: e)
  case (Suc n)
  then obtain v vs where q: "outq (world e) = v # vs" by (cases "outq (world e)") auto
  obtain e1 where "mmio_read K base SPU_Out_Mbox_off e = Some (v, e1)" "outq (world e1) = vs"
    "inq (world e1) = inq (world e)" using device_read [OF dev q] by blast
  then show ?case using Suc.IH [of e1] Suc.prems q by auto
qed simp

lemma out_mbox_loop_device:
  assumes dev: "mbox_device K base outq inq cap" "base \<noteq> MAP_FAILED" "base \<noteq> NULL"
  shows "\<exists>e1. out_mbox_loop K base n e = Some (take n (outq (world e)), e1) \<and>
    outq (world e1) = drop n (outq (world e)) \<and> inq (world e1) = inq (world e)"
proof (induction n arbitrary: e rule: less_induct)
  case (less n)
  let ?q = "outq (world e)"
  obtain w e1 where s: "mmio_read K base SPU_Mbox_Stat_off e = Some (w, e1)"
    "unat (w AND 0xFF) = length ?q" "outq (world e1) = ?q" "inq (world e1) = inq (world e)"
    using device_stat [OF dev, of e] by blast
  show ?case
  proof (cases "n = 0 \<or> ?q = []")
    case True
    then show ?thesis using s by (subst out_mbox_loop.simps) auto
  next
    case False
    let ?k = "min (length ?q) n"
    obtain e2 where r: "read_mbox K base ?k e1 = Some (take ?k ?q, e2)"
      "outq (world e2) = drop ?k ?q" "inq (world e2) = inq (world e)"
      using read_mbox_device [OF dev, of ?k e1] s by auto
    have "n - ?k < n" using False by (cases n) auto
    from less [OF this, of e2] obtain e3 where
      l: "out_mbox_loop K base (n - ?k) e2 = Some (take (n - ?k) (drop ?k ?q), e3)"
      "outq (world e3) = drop (n - ?k) (drop ?k ?q)" "inq (world e3) = inq (world e)"
      using r by auto
    have "take ?k ?q @ take (n - ?k) (drop ?k ?q) = take n ?q"
      "drop (n - ?k) (drop ?k ?q) = drop n ?q"
      by (simp_all add: take_add [symmetric] min_def)
    moreover have "out_mbox_loop K base n e = Some (take ?k ?q @ take (n - ?k) (drop ?k ?q), e3)"
      using False s r l by (subst out_mbox_loop.simps) simp
    ultimately show ?thesis using l by simp
  qed
qed

lemma write_mbox_device:
  assumes dev: "mbox_device K base outq inq cap" "base \<noteq> MAP_FAILED" "base \<noteq> NULL"
  shows "length (inq (world e)) + length ws \<le> cap \<Longrightarrow>
    \<exists>e1. write_mbox K base ws e = Some e1 \<and> inq (world e1) = inq (world e) @ ws \<and>
      outq (world e1) = outq (world e)"
proof (induction ws arbitrary: e)
  case (Cons w ws)
  then obtain e1 where "mmio_write K base SPU_In_Mbox_off w e = Some e1"
    "inq (world e1) = inq (world e) @ [w]" "outq (world e1) = outq (world e)"
    using device_write [OF dev, of e w] by auto
  then show ?case using Cons.IH [of e1] Cons.prems by auto
qed simp

lemma in_mbox_loop_device:
  assumes dev: "mbox_device K base outq inq cap" "base \<noteq> MAP_FAILED" "base \<noteq> NULL"
    and "length (inq (world e)) \<le> cap"
  shows "\<exists>e1. in_mbox_loop K base ws e = Some (min (cap - length (inq (world e))) (length ws), e1) \<and>
    inq (world e1) = inq (world e) @ take (cap - length (inq (world e))) ws \<and>
    outq (world e1) = outq (world e)"
  using assms(4)
proof (induction "length ws" arbitrary: ws e rule: less_induct)
  case less
  let ?f = "cap - length (inq (world e))"
  obtain w e1 where s: "mmio_read K base SPU_Mbox_Stat_off e = Some (w, e1)"
    "mbox_space w = ?f" "outq (world e1) = outq (world e)" "inq (world e1) = inq (world e)"
    using device_stat [OF dev, of e] by blast
  show ?case
  proof (cases "ws = [] \<or> ?f = 0")
    case True
    then show ?thesis using s by (subst in_mbox_loop.simps) auto
  next
    case False
    let ?k = "min ?f (length ws)"
    obtain e2 where r: "write_mbox K base (take ?k ws) e1 = Some e2"
      "inq (world e2) = inq (world e) @ take ?k ws" "outq (world e2) = outq (world e)"
    proof -
      have "length (inq (world e1)) + length (take ?k ws) \<le> cap" using s less.prems by simp
      from write_mbox_device [OF dev this] show ?thesis using that s by auto
    qed
    have lt: "length (drop ?k ws) < length ws" using False by (cases ws) auto
    have "length (inq (world e2)) \<le> cap" using r less.prems by auto
    from less(1) [OF lt this] obtain e3 where
      l: "in_mbox_loop K base (drop ?k ws) e2 =
          Some (min (cap - length (inq (world e2))) (length (drop ?k ws)), e3)"
        "inq (world e3) = inq (world e2) @ take (cap - length (inq (world e2))) (drop ?k ws)"
        "outq (world e3) = outq (world e2)" by blast
    have z: "min (cap - length (inq (world e2))) (length (drop ?k ws)) = 0"
      "take (cap - length (inq (world e2))) (drop ?k ws) = []" "take ?k ws = take ?f ws"
      using r(2) less.prems by (auto simp: min_def)
    have "in_mbox_loop K base (drop ?k ws) e2 = Some (0, e3)" using l(1) z(1) by (simp only:)
    then have "in_mbox_loop K base ws e = Some (?k + 0, e3)"
      using False s(1,2) r(1) by (subst in_mbox_loop.simps) simp
    moreover have "inq (world e3) = inq (world e) @ take ?f ws"
      using l(2) r(2) z(2,3) by (simp only: append_Nil2)
    ultimately show ?thesis using l(3) r(3) by simp
  qed
qed

section \<open>Properties\<close>

definition mbox_mapped :: "spe_context \<Rightarrow> bool" where
  "mbox_mapped c \<longleftrightarrow> has_flag (flags c) SPE_MAP_PS \<and> cntl_mmap_base c \<noteq> MAP_FAILED \<and> cntl_mmap_base c \<noteq> NULL"

text \<open>
  with the problem state mapped, reading the outbound mailbox takes the words waiting there,
  up to the size of the buffer, in order, stores exactly these and returns their number; the
  register is never read while the mailbox is empty.
\<close>

theorem out_mbox_read_takes:
  assumes "mbox_mapped c" "mbox_device K (cntl_mmap_base c) outq inq cap" "1 \<le> n"
  shows "\<exists>e'. base_spe_out_mbox_read K c True n e =
      Some (min n (int (length (outq (world e)))),
        concat (map bytes_of_word (take (nat n) (outq (world e)))), c, e') \<and>
    outq (world e') = drop (nat n) (outq (world e)) \<and> inq (world e') = inq (world e)"
proof -
  have base: "cntl_mmap_base c \<noteq> MAP_FAILED" "cntl_mmap_base c \<noteq> NULL"
    using assms(1) by (simp_all add: mbox_mapped_def)
  obtain e1 where l: "out_mbox_loop K (cntl_mmap_base c) (nat n) (base_spe_context_lock FD_MBOX e) =
      Some (take (nat n) (outq (world e)), e1)"
    "outq (world e1) = drop (nat n) (outq (world e))" "inq (world e1) = inq (world e)"
    using out_mbox_loop_device [OF assms(2) base, of "nat n" "base_spe_context_lock FD_MBOX e"]
    by (auto simp: base_spe_context_lock_def)
  have "int (min (nat n) (length (outq (world e)))) = min n (int (length (outq (world e))))"
    using assms(3) by (simp add: of_nat_min)
  then show ?thesis using assms(1,3) l
    by (simp add: base_spe_out_mbox_read_def base_spe_out_mbox_read_ps_def mbox_mapped_def
        base_spe_context_unlock_def min.commute)
qed

text \<open>
  with the problem state mapped, a write that must not block puts as many of the words into
  the inbound mailbox as it has free entries, in order, and returns their number: it never
  writes a full mailbox.
\<close>

theorem in_mbox_write_fills:
  assumes "mbox_mapped c" "mbox_device K (cntl_mmap_base c) outq inq cap" "ws \<noteq> []"
    and "length (inq (world e)) \<le> cap"
  shows "\<exists>e'. base_spe_in_mbox_write K c (Some ws) SPE_MBOX_ANY_NONBLOCKING e =
      Some (int (min (cap - length (inq (world e))) (length ws)), c, e') \<and>
    inq (world e') = inq (world e) @ take (cap - length (inq (world e))) ws \<and>
    length (inq (world e')) \<le> cap \<and> outq (world e') = outq (world e)"
proof -
  have base: "cntl_mmap_base c \<noteq> MAP_FAILED" "cntl_mmap_base c \<noteq> NULL"
    using assms(1) by (simp_all add: mbox_mapped_def)
  obtain e1 where "in_mbox_loop K (cntl_mmap_base c) ws (base_spe_context_lock FD_WBOX e) =
      Some (min (cap - length (inq (world e))) (length ws), e1)"
    "inq (world e1) = inq (world e) @ take (cap - length (inq (world e))) ws"
    "outq (world e1) = outq (world e)"
    using in_mbox_loop_device [OF assms(2) base, of "base_spe_context_lock FD_WBOX e" ws] assms(4)
    by (auto simp: base_spe_context_lock_def)
  then show ?thesis using assms(1,3,4)
    by (simp add: base_spe_in_mbox_write_def base_spe_in_mbox_write_ps_def mbox_mapped_def
        base_spe_context_unlock_def)
qed

text \<open>A file that takes at least one byte of every write, and keeps them in order.\<close>

definition byte_stream :: "'w kernel \<Rightarrow> ('w \<Rightarrow> u8 list) \<Rightarrow> bool" where
  "byte_stream K st \<longleftrightarrow>
     (\<forall>fd bs m x. case K (Write fd bs) (m, x) of (r, m', x') \<Rightarrow>
        \<exists>k. rv r = int k \<and> k \<le> length bs \<and> (bs \<noteq> [] \<longrightarrow> 0 < k) \<and> st x' = st x @ take k bs) \<and>
     (\<forall>d s md m x. case K (Openat d s md) (m, x) of (r, m', x') \<Rightarrow> st x' = st x)"

lemma byte_stream_write:
  assumes "byte_stream K st" "write_file K c f bs e = (r, c1, e1)"
  shows "\<exists>k. r = int k \<and> k \<le> length bs \<and> (bs \<noteq> [] \<longrightarrow> 0 < k) \<and> st (world e1) = st (world e) @ take k bs"
proof -
  obtain fd c' e' where o: "base_spe_open_if_closed K c f False e = (fd, c', e')" by (metis prod_cases3)
  have "st (world e') = st (world e)"
  proof (cases "spe_fds_array c f = -1")
    case False
    then show ?thesis using o
      by (auto simp: base_spe_open_if_closed_def base_spe_context_lock_def base_spe_context_unlock_def)
  next
    case True
    let ?q = "Openat (fd_spe_dir c) (fst (spe_fd_attr f)) (snd (spe_fd_attr f))"
    obtain r m' x' where "K ?q (mem e, world e) = (r, m', x')" by (metis prod_cases3)
    moreover from this assms(1) have "st x' = st (world e)"
      unfolding byte_stream_def by (metis (mono_tags, lifting) case_prod_conv)
    ultimately show ?thesis using o True
      by (auto simp: base_spe_open_if_closed_def base_spe_context_lock_def base_spe_context_unlock_def
          sys_rv_def sys_def Let_def)
  qed
  moreover obtain rp m' x' where k: "K (Write fd bs) (mem e', world e') = (rp, m', x')" by (metis prod_cases3)
  moreover have "\<exists>k. rv rp = int k \<and> k \<le> length bs \<and> (bs \<noteq> [] \<longrightarrow> 0 < k) \<and> st x' = st (world e') @ take k bs"
  proof -
    have "case K (Write fd bs) (mem e', world e') of (r, m', x') \<Rightarrow>
        \<exists>k. rv r = int k \<and> k \<le> length bs \<and> (bs \<noteq> [] \<longrightarrow> 0 < k) \<and> st x' = st (world e') @ take k bs"
      by (rule assms(1) [unfolded byte_stream_def, THEN conjunct1, THEN spec, THEN spec, THEN spec, THEN spec])
    then show ?thesis using k by simp
  qed
  ultimately show ?thesis using assms(2) o
    by (auto simp: write_file_def sys_rv_def sys_def)
qed

lemma write_all_file_stream:
  assumes "byte_stream K st"
  shows "n \<le> length bs \<Longrightarrow> rc \<noteq> -1 \<Longrightarrow> \<exists>rc' c' e'. rc' \<noteq> -1 \<and>
    write_all_file K c bs (int n) rc e = Some (rc', int (length bs), c', e') \<and>
    st (world e') = st (world e) @ drop n bs"
proof (induction "length bs - n" arbitrary: n rc c e rule: less_induct)
  case less
  show ?case
  proof (cases "n < length bs")
    case False
    then show ?thesis using less.prems by (subst write_all_file.simps) auto
  next
    case True
    obtain r c1 e1 where w: "write_file K c FD_WBOX (drop n bs) e = (r, c1, e1)" by (metis prod_cases3)
    obtain k where k: "r = int k" "k \<le> length (drop n bs)" "0 < k"
      "st (world e1) = st (world e) @ take k (drop n bs)"
      using byte_stream_write [OF assms w] True by auto
    have "length bs - (n + k) < length bs - n" "n + k \<le> length bs" "int k \<noteq> -1"
      using k True by auto
    from less(1) [OF this, of c1 e1] obtain rc' c' e' where
      "rc' \<noteq> -1" "write_all_file K c1 bs (int (n + k)) (int k) e1 = Some (rc', int (length bs), c', e')"
      "st (world e') = st (world e1) @ drop (n + k) bs" by blast
    moreover have "take k (drop n bs) @ drop (n + k) bs = drop n bs"
      by (metis append_take_drop_id drop_drop add.commute)
    moreover have "write_all_file K c bs (int n) rc e = write_all_file K c1 bs (int (n + k)) (int k) e1"
      using w k(1,3) True by (subst write_all_file.simps) (simp add: of_nat_add)
    ultimately show ?thesis using k(4) by (metis append.assoc)
  qed
qed

text \<open>
  C30: through the file, a write that must deliver everything delivers every word, in order and
  big-endian, whatever part of a request the file takes at a time, and returns their number.
\<close>

theorem in_mbox_write_all_delivers:
  assumes "\<not> has_flag (flags c) SPE_MAP_PS" "byte_stream K st" "ws \<noteq> []"
  shows "\<exists>c' e'. base_spe_in_mbox_write K c (Some ws) SPE_MBOX_ALL_BLOCKING e =
      Some (int (length ws), c', e') \<and>
    st (world e') = st (world e) @ concat (map bytes_of_word ws)"
proof -
  let ?bs = "concat (map bytes_of_word ws)"
  have len: "length ?bs = 4 * length ws" by (induction ws) simp_all
  obtain rc' c' e' where w: "rc' \<noteq> -1" "write_all_file K c ?bs 0 0 e = Some (rc', int (length ?bs), c', e')"
    "st (world e') = st (world e) @ ?bs"
    using write_all_file_stream [OF assms(2), of 0 ?bs 0 c e] by auto
  have "c_div (int (length ?bs)) 4 = int (length ws)" by (simp add: len)
  then show ?thesis using assms(1,3) w
    by (simp add: base_spe_in_mbox_write_def mbox_rc_def)
qed

section \<open>Concrete devices\<close>

text \<open>A mailbox of four entries each way, with its control area at address 0x40000.\<close>

definition sample_mbox :: "(u32 list \<times> u32 list) kernel" where
  "sample_mbox q s =
     (case s of (m, (os, is)) \<Rightarrow>
       case q of
         MmioRead a \<Rightarrow>
           if a = 0x40014 then
             (reply_words 0 [of_nat (length (take 4 os) + 256 * (4 - length (take 4 is)))], m, (os, is))
           else (reply_words 0 [hd os], m, (tl (take 4 os), is))
       | MmioWrite a w \<Rightarrow> (reply_ok 0, m, (os, take 4 is @ [w]))
       | _ \<Rightarrow> (reply_ok 0, m, (os, is)))"

lemma sample_status:
  assumes "n \<le> 4" "f \<le> 4"
  shows "unat ((of_nat (n + 256 * f) :: u32) AND 0xFF) = n" "mbox_space (of_nat (n + 256 * f)) = f"
proof -
  have "n \<in> {0, 1, 2, 3, 4}" "f \<in> {0, 1, 2, 3, 4}" using assms by auto
  then show "unat ((of_nat (n + 256 * f) :: u32) AND 0xFF) = n" "mbox_space (of_nat (n + 256 * f)) = f"
    by (auto simp: mbox_space_def)
qed

lemma length_take_le: "length (take n xs) \<le> n" by simp

lemma take_Cons_front:
  fixes os :: "u32 list"
  assumes "take 4 os = v # vs"
  shows "hd os = v" "take 4 (tl (take 4 os)) = vs"
proof -
  have "length vs \<le> 4" using assms by (metis length_Cons length_take min.cobounded2 Suc_leD)
  then show "take 4 (tl (take 4 os)) = vs" by (simp add: assms)
  show "hd os = v" using assms by (cases os) (auto simp: take_Cons')
qed

lemma sample_mbox_device:
  "mbox_device sample_mbox 0x40000 (\<lambda>x. take 4 (fst x)) (\<lambda>x. take 4 (snd x)) 4"
proof -
  have st: "unat (first_word (reply_words 0 [of_nat (length (take 4 os) + 256 * (4 - length (take 4 is)))]) AND 0xFF)
      = length (take 4 os)"
    "mbox_space (first_word (reply_words 0 [of_nat (length (take 4 os) + 256 * (4 - length (take 4 is)))]))
      = 4 - length (take 4 is)" for os "is" :: "u32 list"
    using sample_status [OF length_take_le [of 4 os] diff_le_self [of 4 "length (take 4 is)"]]
    by (simp_all add: first_word_def reply_words_def del: length_take)
  have "take 4 (take 4 is @ [w]) = take 4 is @ [w]" if "length (take 4 is) < 4" for "is" and w :: u32
    using that by simp
  then have 1: "\<forall>m x w. length (take 4 (snd x)) < 4 \<longrightarrow>
      (case sample_mbox (MmioWrite (0x40000 + SPU_In_Mbox_off) w) (m, x) of (r, m', x') \<Rightarrow>
        take 4 (snd x') = take 4 (snd x) @ [w] \<and> take 4 (fst x') = take 4 (fst x))"
    by (auto simp: sample_mbox_def split: prod.splits)
  have 2: "\<forall>m x. case sample_mbox (MmioRead (0x40000 + SPU_Mbox_Stat_off)) (m, x) of (r, m', x') \<Rightarrow>
      unat (first_word r AND 0xFF) = length (take 4 (fst x)) \<and>
      mbox_space (first_word r) = 4 - length (take 4 (snd x)) \<and>
      take 4 (fst x') = take 4 (fst x) \<and> take 4 (snd x') = take 4 (snd x)"
    by (simp add: sample_mbox_def split_beta st del: length_take of_nat_add of_nat_mult)
  have 3: "\<forall>m x v vs. take 4 (fst x) = v # vs \<longrightarrow>
      (case sample_mbox (MmioRead (0x40000 + SPU_Out_Mbox_off)) (m, x) of (r, m', x') \<Rightarrow>
        first_word r = v \<and> take 4 (fst x') = vs \<and> take 4 (snd x') = take 4 (snd x))"
    using take_Cons_front
    by (simp add: sample_mbox_def split_beta first_word_def reply_words_def del: take_tl)
  show ?thesis unfolding mbox_device_def using 1 2 3 by blast
qed

abbreviation (input) mbox_context :: spe_context where
  "mbox_context \<equiv> blank_context\<lparr>flags := SPE_MAP_PS, cntl_mmap_base := 0x40000\<rparr>"

theorem out_mbox_read_takes_witness:
  "\<exists>e'. base_spe_out_mbox_read sample_mbox mbox_context True 2 (start_env Map.empty ([7, 8, 9], [])) =
    Some (2, [0, 0, 0, 7, 0, 0, 0, 8], mbox_context, e')"
proof -
  let ?e = "start_env Map.empty ([7 :: u32, 8, 9], [] :: u32 list)"
  have "mbox_mapped mbox_context" by (simp add: mbox_mapped_def has_flag_def)
  moreover have "mbox_device sample_mbox (cntl_mmap_base mbox_context) (\<lambda>x. take 4 (fst x))
      (\<lambda>x. take 4 (snd x)) 4" using sample_mbox_device by simp
  ultimately obtain e' where "base_spe_out_mbox_read sample_mbox mbox_context True 2 ?e =
      Some (min 2 (int (length (take 4 (fst (world ?e))))),
        concat (map bytes_of_word (take (nat 2) (take 4 (fst (world ?e))))), mbox_context, e')"
    using out_mbox_read_takes [of mbox_context sample_mbox "\<lambda>x. take 4 (fst x)" "\<lambda>x. take 4 (snd x)" 4 2
        ?e] by fastforce
  then show ?thesis by (simp add: start_env_def bytes_of_word_def)
qed

theorem in_mbox_write_fills_witness:
  "\<exists>e'. base_spe_in_mbox_write sample_mbox mbox_context (Some [1, 2, 3]) SPE_MBOX_ANY_NONBLOCKING
      (start_env Map.empty ([], [7, 8])) = Some (2, mbox_context, e')"
proof -
  let ?e = "start_env Map.empty ([] :: u32 list, [7 :: u32, 8])"
  have "mbox_mapped mbox_context" by (simp add: mbox_mapped_def has_flag_def)
  moreover have "mbox_device sample_mbox (cntl_mmap_base mbox_context) (\<lambda>x. take 4 (fst x))
      (\<lambda>x. take 4 (snd x)) 4" using sample_mbox_device by simp
  moreover have "length (take 4 (snd (world ?e))) \<le> 4" by simp
  ultimately obtain e' where "base_spe_in_mbox_write sample_mbox mbox_context (Some [1, 2, 3])
      SPE_MBOX_ANY_NONBLOCKING ?e =
      Some (int (min (4 - length (take 4 (snd (world ?e)))) (length [1, 2, 3 :: u32])), mbox_context, e')"
    using in_mbox_write_fills [of mbox_context sample_mbox "\<lambda>x. take 4 (fst x)" "\<lambda>x. take 4 (snd x)" 4
        "[1, 2, 3]" ?e] by blast
  then show ?thesis by (simp add: start_env_def)
qed

text \<open>A file that takes three bytes at a time.\<close>

definition sample_stream :: "u8 list kernel" where
  "sample_stream q s =
     (case s of (m, bs) \<Rightarrow>
       case q of
         Write fd xs \<Rightarrow> (reply_ok (int (min 3 (length xs))), m, bs @ take 3 xs)
       | _ \<Rightarrow> (reply_ok 7, m, bs))"

theorem in_mbox_write_all_delivers_witness:
  "\<exists>c' e'. base_spe_in_mbox_write sample_stream blank_context (Some [1, 2]) SPE_MBOX_ALL_BLOCKING
      (start_env Map.empty []) = Some (2, c', e') \<and> world e' = [0, 0, 0, 1, 0, 0, 0, 2]"
proof -
  have "\<exists>k. int (min 3 (length bs)) = int k \<and> k \<le> length bs \<and> (bs \<noteq> [] \<longrightarrow> 0 < k) \<and> take 3 bs = take k bs"
    for bs :: "u8 list" by (rule exI [of _ "min 3 (length bs)"]) (auto simp: min_def)
  then have "byte_stream sample_stream (\<lambda>x. x)"
    by (auto simp: byte_stream_def sample_stream_def reply_ok_def)
  moreover have "\<not> has_flag (flags blank_context) SPE_MAP_PS" by (simp add: blank_context_def)
  ultimately obtain c' e' where "base_spe_in_mbox_write sample_stream blank_context (Some [1, 2])
      SPE_MBOX_ALL_BLOCKING (start_env Map.empty []) = Some (int (length [1, 2 :: u32]), c', e')"
    "world e' = world (start_env Map.empty []) @ concat (map bytes_of_word [1, 2])"
    using in_mbox_write_all_delivers [of blank_context sample_stream "\<lambda>x. x" "[1, 2]"] by blast
  then show ?thesis by (simp add: start_env_def bytes_of_word_def)
qed

end
