(* ===== verification/Spe_Info.thy ===== *)
theory Spe_Info
  imports Spe_Types
begin

unbundle bit_operations_syntax

text \<open>
  The machine's resources (\<open>spebase/info.c\<close>): physical CPU nodes and SPEs are counted by listing
  directories of sysfs, the CPU type is looked up by the processor version register.
\<close>

section \<open>The code\<close>

abbreviation (input) THREADS_PER_BE :: int where "THREADS_PER_BE \<equiv> 2"

text \<open>The loop over \<open>readdir\<close>: \<open>counts\<close> is the test on an entry's name, \<open>NULL\<close> ends it.\<close>

partial_function (option) count_entries ::
  "'w kernel \<Rightarrow> (string \<Rightarrow> bool) \<Rightarrow> int \<Rightarrow> 'w env \<Rightarrow> (int \<times> 'w env) option"
where
  [code]: "count_entries K counts ret e =
     (case sys K Readdir e of (r, e1) \<Rightarrow>
        if rv r = 0 then Some (ret, e1)
        else count_entries K counts (if counts (rname r) then ret + 1 else ret) e1)"

definition cpu_entry :: "string \<Rightarrow> bool" where
  "cpu_entry s \<longleftrightarrow> take 3 s = ''cpu''"

definition base_spe_count_physical_cpus ::
  "'w kernel \<Rightarrow> int \<Rightarrow> 'w env \<Rightarrow> (int \<times> 'w env) option" where
  "base_spe_count_physical_cpus K cpu_node e =
     (if cpu_node \<noteq> -1 then Some (-1, set_errno EINVAL e)
      else case sys_rv K (Opendir ''/sys/devices/system/cpu'') e of (dirp, e1) \<Rightarrow>
        if dirp = 0 then Some (-1, set_errno EINVAL e1)
        else do {
          (ret, e2) \<leftarrow> count_entries K cpu_entry 0 e1;
          Some (c_div ret THREADS_PER_BE, snd (sys_rv K Closedir e2))
        })"

text \<open>The result starts at -2, for the entries \<open>.\<close> and \<open>..\<close> of the directory.\<close>

definition base_spe_count_physical_spes ::
  "'w kernel \<Rightarrow> int \<Rightarrow> 'w env \<Rightarrow> (int \<times> 'w env) option" where
  "base_spe_count_physical_spes K cpu_node e = do {
     (no_of_bes, e1) \<leftarrow> base_spe_count_physical_cpus K (-1) e;
     if cpu_node < -1 \<or> no_of_bes \<le> cpu_node then Some (-1, set_errno EINVAL e1)
     else case sys_rv K (Opendir ''/sys/devices/system/spu'') e1 of (dirp, e2) \<Rightarrow>
       if dirp = 0 then Some (-1, set_errno EINVAL e2)
       else do {
         (ret, e3) \<leftarrow> count_entries K (\<lambda>_. True) (-2) e2;
         let e4 = snd (sys_rv K Closedir e3);
         if cpu_node \<noteq> -1 then (if no_of_bes = 0 then None else Some (c_div ret no_of_bes, e4))
         else Some (ret, e4)
       }
   }"

definition base_spe_count_usable_spes ::
  "'w kernel \<Rightarrow> int \<Rightarrow> 'w env \<Rightarrow> (int \<times> 'w env) option" where
  "base_spe_count_usable_spes K cpu_node e = base_spe_count_physical_spes K cpu_node e"

text \<open>The list of \<open>info.h\<close>, ended by 0.\<close>

definition pvr_list_edp :: "int list" where
  "pvr_list_edp = [0x00703000, 0]"

fun search_pvr :: "int list \<Rightarrow> int \<Rightarrow> int" where
  "search_pvr [] pvr = SPE_CPU_IS_CELLBE"
| "search_pvr (p # ps) pvr =
     (if p = 0 then SPE_CPU_IS_CELLBE
      else if p = pvr then SPE_CPU_IS_CELLEDP
      else search_pvr ps pvr)"

definition base_spe_read_cpu_type :: "'w kernel \<Rightarrow> int \<Rightarrow> 'w env \<Rightarrow> int \<times> 'w env" where
  "base_spe_read_cpu_type K cpu_node e =
     (let (pvr, e1) = sys_rv K ReadPVR e in (search_pvr pvr_list_edp pvr, e1))"

definition base_spe_cpu_info_get ::
  "'w kernel \<Rightarrow> int \<Rightarrow> int \<Rightarrow> 'w env \<Rightarrow> (int \<times> 'w env) option" where
  "base_spe_cpu_info_get K info_requested cpu_node e0 =
     (let e = set_errno 0 e0 in
      if info_requested = SPE_COUNT_PHYSICAL_CPU_NODES then base_spe_count_physical_cpus K cpu_node e
      else if info_requested = SPE_COUNT_PHYSICAL_SPES then base_spe_count_physical_spes K cpu_node e
      else if info_requested = SPE_COUNT_USABLE_SPES then base_spe_count_usable_spes K cpu_node e
      else if info_requested = SPE_CPU_TYPE then Some (base_spe_read_cpu_type K cpu_node e)
      else Some (-1, set_errno EINVAL e))"

section \<open>Directories\<close>

text \<open>
  What \<open>opendir\<close> and \<open>readdir\<close> do on a system with the two directories: \<open>opendir\<close> succeeds and
  starts a listing, each \<open>readdir\<close> hands out the next name, and the end is \<open>NULL\<close>. \<open>left x\<close> is
  what remains of the listing in progress.
\<close>

definition sysfs :: "'w kernel \<Rightarrow> ('w \<Rightarrow> string list) \<Rightarrow> string list \<Rightarrow> string list \<Rightarrow> bool" where
  "sysfs K left cpus spus \<longleftrightarrow>
     (\<forall>m x. case K (Opendir ''/sys/devices/system/cpu'') (m, x) of (r, m', x') \<Rightarrow>
        rv r \<noteq> 0 \<and> left x' = cpus) \<and>
     (\<forall>m x. case K (Opendir ''/sys/devices/system/spu'') (m, x) of (r, m', x') \<Rightarrow>
        rv r \<noteq> 0 \<and> left x' = spus) \<and>
     (\<forall>m x. case K Readdir (m, x) of (r, m', x') \<Rightarrow>
        case left x of [] \<Rightarrow> rv r = 0 | s # ss \<Rightarrow> rv r \<noteq> 0 \<and> rname r = s \<and> left x' = ss)"

lemma readdir_sysfs:
  assumes "sysfs K left cpus spus" "K Readdir (m, x) = (r, m', x')"
  shows "left x = [] \<Longrightarrow> rv r = 0"
    and "left x = s # ss \<Longrightarrow> rv r \<noteq> 0 \<and> rname r = s \<and> left x' = ss"
proof -
  have "\<forall>m x. case K Readdir (m, x) of (r, m', x') \<Rightarrow>
      case left x of [] \<Rightarrow> rv r = 0 | s # ss \<Rightarrow> rv r \<noteq> 0 \<and> rname r = s \<and> left x' = ss"
    using assms(1) by (simp add: sysfs_def)
  from this [THEN spec [where x = m], THEN spec [where x = x]] assms(2)
  show "left x = [] \<Longrightarrow> rv r = 0"
    and "left x = s # ss \<Longrightarrow> rv r \<noteq> 0 \<and> rname r = s \<and> left x' = ss"
    by simp_all
qed

lemma count_entries_sysfs:
  assumes "sysfs K left cpus spus"
  shows "\<exists>e'. count_entries K counts n e =
    Some (n + int (length (filter counts (left (world e)))), e')"
proof (induction "left (world e)" arbitrary: n e)
  case Nil
  obtain r m' x' where k: "K Readdir (mem e, world e) = (r, m', x')" by (metis prod_cases3)
  with readdir_sysfs(1) [OF assms k] Nil show ?case
    by (subst count_entries.simps) (auto simp: sys_def)
next
  case (Cons s ss)
  obtain r m' x' where k: "K Readdir (mem e, world e) = (r, m', x')" by (metis prod_cases3)
  obtain r1 e1 where s: "sys K Readdir e = (r1, e1)" by fastforce
  have "rv r1 \<noteq> 0" "rname r1 = s" "left (world e1) = ss"
    using readdir_sysfs(2) [OF assms k Cons(2) [symmetric]] s k by (auto simp: sys_def)
  with s Cons(1) [of e1 "if counts s then n + 1 else n"] Cons(2) [symmetric]
  show ?case by (subst count_entries.simps) auto
qed

lemma opendir_sysfs:
  assumes "sysfs K left cpus spus"
  shows "sys_rv K (Opendir ''/sys/devices/system/cpu'') e = (n, e') \<Longrightarrow> n \<noteq> 0 \<and> left (world e') = cpus"
    and "sys_rv K (Opendir ''/sys/devices/system/spu'') e = (n, e') \<Longrightarrow> n \<noteq> 0 \<and> left (world e') = spus"
proof -
  from assms have
    "\<forall>m x. case K (Opendir ''/sys/devices/system/cpu'') (m, x) of (r, m', x') \<Rightarrow> rv r \<noteq> 0 \<and> left x' = cpus"
    "\<forall>m x. case K (Opendir ''/sys/devices/system/spu'') (m, x) of (r, m', x') \<Rightarrow> rv r \<noteq> 0 \<and> left x' = spus"
    by (simp_all add: sysfs_def)
  note o = this [THEN spec, THEN spec, of "mem e" "world e"]
  from o(1) show "sys_rv K (Opendir ''/sys/devices/system/cpu'') e = (n, e') \<Longrightarrow>
      n \<noteq> 0 \<and> left (world e') = cpus"
    by (auto simp: sys_rv_def sys_def split: prod.splits)
  from o(2) show "sys_rv K (Opendir ''/sys/devices/system/spu'') e = (n, e') \<Longrightarrow>
      n \<noteq> 0 \<and> left (world e') = spus"
    by (auto simp: sys_rv_def sys_def split: prod.splits)
qed

lemma count_cpus_sysfs:
  assumes "sysfs K left cpus spus"
  shows "\<exists>e'. base_spe_count_physical_cpus K (-1) e =
    Some (int (length (filter cpu_entry cpus)) div 2, e')"
proof -
  obtain n e1 where o: "sys_rv K (Opendir ''/sys/devices/system/cpu'') e = (n, e1)" by fastforce
  obtain e2 where "count_entries K cpu_entry 0 e1 = Some (0 + int (length (filter cpu_entry (left (world e1)))), e2)"
    using count_entries_sysfs [OF assms] by blast
  with o opendir_sysfs(1) [OF assms, of e n e1] show ?thesis
    by (simp add: base_spe_count_physical_cpus_def)
qed

text \<open>
  the SPE count of a node is the number of entries of the spu directory (without \<open>.\<close> and
  \<open>..\<close>) divided by the number of nodes, that of the whole machine (node -1) their number; a
  node that does not exist is reported as \<open>EINVAL\<close>, and the division is never by zero: the
  call always returns.
\<close>

theorem count_spes_correct:
  assumes "sysfs K left cpus spus" "2 \<le> length spus"
  shows "\<exists>n e'. base_spe_cpu_info_get K SPE_COUNT_PHYSICAL_SPES node e = Some (n, e') \<and>
    (let nodes = int (length (filter cpu_entry cpus)) div 2 in
      if node < -1 \<or> nodes \<le> node then n = -1 \<and> errno e' = EINVAL
      else if node = -1 then n = int (length spus) - 2
      else n = (int (length spus) - 2) div nodes)"
proof -
  let ?nodes = "int (length (filter cpu_entry cpus)) div 2"
  obtain e1 where c: "base_spe_count_physical_cpus K (-1) (set_errno 0 e) = Some (?nodes, e1)"
    using count_cpus_sysfs [OF assms(1)] by blast
  obtain n e2 where o: "sys_rv K (Opendir ''/sys/devices/system/spu'') e1 = (n, e2)" by fastforce
  obtain e3 where "count_entries K (\<lambda>_. True) (-2) e2 = Some (-2 + int (length (filter (\<lambda>_. True) (left (world e2)))), e3)"
    using count_entries_sysfs [OF assms(1)] by blast
  with c o opendir_sysfs(2) [OF assms(1), of e1 n e2] assms(2) show ?thesis
    by (auto simp: base_spe_cpu_info_get_def base_spe_count_physical_spes_def Let_def)
qed

text \<open>A machine with two nodes of two threads, and sixteen SPEs.\<close>

definition sample_sysfs :: "string list kernel" where
  "sample_sysfs q s =
     (case s of (m, names) \<Rightarrow>
       case q of
         Opendir d \<Rightarrow>
           (reply_ok 7, m,
            if d = ''/sys/devices/system/cpu'' then [''.'', ''..'', ''cpu0'', ''cpu1'', ''cpu2'', ''cpu3'']
            else [''.'', ''..''] @ replicate 16 ''spu'')
       | Readdir \<Rightarrow>
           (case names of [] \<Rightarrow> (reply_ok 0, m, []) | n # ns \<Rightarrow> ((reply_ok 9)\<lparr>rname := n\<rparr>, m, ns))
       | _ \<Rightarrow> (reply_ok 0, m, names))"

theorem count_spes_correct_witness:
  "\<exists>n e'. base_spe_cpu_info_get sample_sysfs SPE_COUNT_PHYSICAL_SPES 1 (start_env Map.empty []) =
    Some (n, e') \<and> n = 8"
proof -
  have "sysfs sample_sysfs (\<lambda>x. x) [''.'', ''..'', ''cpu0'', ''cpu1'', ''cpu2'', ''cpu3'']
      ([''.'', ''..''] @ replicate 16 ''spu'')"
    by (auto simp: sysfs_def sample_sysfs_def reply_ok_def split: list.splits)
  from count_spes_correct [OF this, of 1 "start_env Map.empty []"] show ?thesis
    by (auto simp: cpu_entry_def Let_def)
qed

text \<open>
  every name that starts with \<open>cpu\<close> counts as a processor, also the directories \<open>cpufreq\<close>
  and \<open>cpuidle\<close> that Linux keeps beside them: two of those are one more CPU node.
\<close>

theorem cpu_directories_counted:
  assumes "sysfs K left (cpus @ [''cpufreq'', ''cpuidle'']) spus"
  shows "\<exists>e'. base_spe_cpu_info_get K SPE_COUNT_PHYSICAL_CPU_NODES (-1) e =
    Some (int (length (filter cpu_entry cpus)) div 2 + 1, e')"
  using count_cpus_sysfs [OF assms, of "set_errno 0 e"]
  by (auto simp: base_spe_cpu_info_get_def cpu_entry_def)

theorem cpu_directories_counted_witness:
  "\<exists>e'. base_spe_cpu_info_get
      (\<lambda>q s. case q of
         Opendir d \<Rightarrow> (reply_ok 7, fst s, [''.'', ''..'', ''cpu0'', ''cpu1'', ''cpufreq'', ''cpuidle''])
       | _ \<Rightarrow> sample_sysfs q s)
      SPE_COUNT_PHYSICAL_CPU_NODES (-1) (start_env Map.empty []) = Some (2, e')"
proof -
  have "sysfs (\<lambda>q s. case q of
         Opendir d \<Rightarrow> (reply_ok 7, fst s, [''.'', ''..'', ''cpu0'', ''cpu1'', ''cpufreq'', ''cpuidle''])
       | _ \<Rightarrow> sample_sysfs q s) (\<lambda>x. x) ([''.'', ''..'', ''cpu0'', ''cpu1''] @ [''cpufreq'', ''cpuidle''])
      [''.'', ''..'', ''cpu0'', ''cpu1'', ''cpufreq'', ''cpuidle'']"
    by (auto simp: sysfs_def sample_sysfs_def reply_ok_def split: list.splits)
  from cpu_directories_counted [OF this, of "start_env Map.empty []"] show ?thesis
    by (simp add: cpu_entry_def)
qed

end
