(* ===== verification/Spe_Event.thy ===== *)
theory Spe_Event
  imports Spe_Access Spe_Run
begin

unbundle bit_operations_syntax

text \<open>
  Events (\<open>speevent/spe_event.c\<close>): a handler is an epoll descriptor, an SPE's event sources are
  its mailbox and DMA files and, for stops, a pipe into which \<open>_event_spe_context_run\<close> writes the
  stop information of every run. The mutexes of the event data are \<open>EventLock\<close> (the buffers
  handed to epoll) and \<open>StopEventLock\<close> (the pipe).
\<close>

section \<open>Data (speevent.h, libspe2-types.h)\<close>

datatype event_type = EV_OUT_INTR_MBOX | EV_IN_MBOX | EV_TAG_GROUP | EV_SPE_STOPPED

fun event_index :: "event_type \<Rightarrow> nat" where
  "event_index EV_OUT_INTR_MBOX = 0"
| "event_index EV_IN_MBOX = 1"
| "event_index EV_TAG_GROUP = 2"
| "event_index EV_SPE_STOPPED = 3"

fun event_bit :: "event_type \<Rightarrow> u32" where
  "event_bit EV_OUT_INTR_MBOX = SPE_EVENT_OUT_INTR_MBOX"
| "event_bit EV_IN_MBOX = SPE_EVENT_IN_MBOX"
| "event_bit EV_TAG_GROUP = SPE_EVENT_TAG_GROUP"
| "event_bit EV_SPE_STOPPED = SPE_EVENT_SPE_STOPPED"

abbreviation (input) SPE_EVENT_ALL :: u32 where
  "SPE_EVENT_ALL \<equiv> SPE_EVENT_OUT_INTR_MBOX OR SPE_EVENT_IN_MBOX OR SPE_EVENT_TAG_GROUP OR
     SPE_EVENT_SPE_STOPPED"

record spe_event_unit =
  ev_events :: u32
  ev_spe :: addr
  ev_data :: u64

record event_priv =
  evctx_ptr :: addr
  stop_event_pipe :: "int \<times> int"
  stop_event_handler_count :: int
  stop_event_buffer_count :: int
  stop_event_buffer :: spe_stop_info
  ev_units :: "event_type \<Rightarrow> spe_event_unit"

text \<open>\<open>struct spe_context\<close>: the base data and, with \<open>SPE_EVENTS_ENABLE\<close>, the event data.\<close>

record spe_object =
  base :: spe_context
  event_private :: "event_priv option"

text \<open>The block of an event handler holds its epoll descriptor.\<close>

record event_handler =
  evh_ptr :: addr
  evh_epfd :: int

text \<open>The address of \<open>evctx->events[k]\<close>: two mutexes, the pipe, two counts and the buffer precede it.\<close>

definition ev_buf_ptr :: "event_priv \<Rightarrow> event_type \<Rightarrow> addr" where
  "ev_buf_ptr ev k = evctx_ptr ev + (40 + 40 + 8 + 4 + 4 + 24) + 24 * event_index k"

abbreviation (input) SIZEOF_EVENT_PRIV :: nat where "SIZEOF_EVENT_PRIV \<equiv> 216"

subsection \<open>The bytes of a stop information\<close>

text \<open>
  Three words at offsets 0, 8 and 16 of the 24 bytes: the reason, the result and the status.
  Unused bytes are 0, and so is the word of a reason that was never written.
\<close>

abbreviation (input) SIZEOF_STOP_INFO :: nat where "SIZEOF_STOP_INFO \<equiv> 24"

fun stop_reason_code :: "stop_reason option \<Rightarrow> u32" where
  "stop_reason_code None = 0"
| "stop_reason_code (Some SPE_EXIT) = 1"
| "stop_reason_code (Some SPE_STOP_AND_SIGNAL) = 2"
| "stop_reason_code (Some SPE_RUNTIME_ERROR) = 3"
| "stop_reason_code (Some SPE_RUNTIME_EXCEPTION) = 4"
| "stop_reason_code (Some SPE_RUNTIME_FATAL) = 5"
| "stop_reason_code (Some SPE_CALLBACK_ERROR) = 6"
| "stop_reason_code (Some SPE_ISOLATION_ERROR) = 7"

definition stop_reason_of_code :: "u32 \<Rightarrow> stop_reason option" where
  "stop_reason_of_code w =
     (if w = 1 then Some SPE_EXIT else if w = 2 then Some SPE_STOP_AND_SIGNAL
      else if w = 3 then Some SPE_RUNTIME_ERROR else if w = 4 then Some SPE_RUNTIME_EXCEPTION
      else if w = 5 then Some SPE_RUNTIME_FATAL else if w = 6 then Some SPE_CALLBACK_ERROR
      else if w = 7 then Some SPE_ISOLATION_ERROR else None)"

definition stop_info_bytes :: "spe_stop_info \<Rightarrow> u8 list" where
  "stop_info_bytes i =
     bytes_of_word (stop_reason_code (stop_reason i)) @ replicate 4 0 @
     bytes_of_word (of_int (stop_result i)) @ replicate 4 0 @
     bytes_of_word (of_int (spu_status i)) @ replicate 4 0"

definition word_at :: "u8 list \<Rightarrow> nat \<Rightarrow> u32" where
  "word_at bs n = word_of_bytes (take 4 (drop n bs))"

definition stop_info_of_bytes :: "u8 list \<Rightarrow> spe_stop_info" where
  "stop_info_of_bytes bs =
     \<lparr>stop_reason = stop_reason_of_code (word_at bs 0), stop_result = sint (word_at bs 8),
      spu_status = sint (word_at bs 16)\<rparr>"

section \<open>The pipe of stop events\<close>

definition stop_event_lock :: "'w env \<Rightarrow> 'w env" where
  "stop_event_lock e = emit (Lock StopEventLock) e"

definition stop_event_unlock :: "'w env \<Rightarrow> 'w env" where
  "stop_event_unlock e = emit (Unlock StopEventLock) e"

definition event_spe_context_lock :: "'w env \<Rightarrow> 'w env" where
  "event_spe_context_lock e = emit (Lock EventLock) e"

definition event_spe_context_unlock :: "'w env \<Rightarrow> 'w env" where
  "event_spe_context_unlock e = emit (Unlock EventLock) e"

definition stop_event_pipe_close :: "'w kernel \<Rightarrow> event_priv \<Rightarrow> 'w env \<Rightarrow> event_priv \<times> 'w env" where
  "stop_event_pipe_close K ev e =
     (let (r, w) = stop_event_pipe ev;
          e1 = (if r \<noteq> -1 then snd (sys_rv K (Close r) e) else e);
          e2 = (if w \<noteq> -1 then snd (sys_rv K (Close w) e1) else e1)
      in (ev\<lparr>stop_event_pipe := (-1, -1)\<rparr>, e2))"

text \<open>A \<open>pipe\<close> that fails leaves the two entries as they are.\<close>

definition pipe_fds :: "reply \<Rightarrow> int \<times> int" where
  "pipe_fds r = (case rwords r of a # b # _ \<Rightarrow> (sint a, sint b) | _ \<Rightarrow> (0, 0))"

definition stop_event_pipe_open ::
  "'w kernel \<Rightarrow> event_priv \<Rightarrow> 'w env \<Rightarrow> int \<times> event_priv \<times> 'w env" where
  "stop_event_pipe_open K ev e =
     (let (r, e1) = sys K Pipe e in
      if rv r = -1 then (-1, ev, e1)
      else
        let ev1 = ev\<lparr>stop_event_pipe := pipe_fds r\<rparr>;
            fd = fst (stop_event_pipe ev1);
            (rc, e2) = sys_rv K (FcntlGetfl fd) e1;
            (rc, e3) = (if rc \<noteq> -1 then sys_rv K (FcntlSetfl fd (rc OR O_NONBLOCK)) e2 else (rc, e2))
        in if rc = -1 then (-1, stop_event_pipe_close K ev1 e3) else (0, ev1, e3))"

definition stop_event_pipe_acquire ::
  "'w kernel \<Rightarrow> event_priv \<Rightarrow> 'w env \<Rightarrow> int \<times> event_priv \<times> 'w env" where
  "stop_event_pipe_acquire K ev e =
     (let (rc, ev1, e1) =
        (if stop_event_handler_count ev = 0 then
           (let (rc, ev1, e1) = stop_event_pipe_open K ev e
            in if rc = -1 then (-1 :: int, ev1, e1) else (0, ev1\<lparr>stop_event_buffer_count := 0\<rparr>, e1))
         else (0, ev, e))
      in if rc = -1 then (-1, ev1, e1)
         else (0, ev1\<lparr>stop_event_handler_count := stop_event_handler_count ev1 + 1\<rparr>, e1))"

definition stop_event_pipe_release :: "'w kernel \<Rightarrow> event_priv \<Rightarrow> 'w env \<Rightarrow> event_priv \<times> 'w env" where
  "stop_event_pipe_release K ev e =
     (let ev1 = ev\<lparr>stop_event_handler_count := stop_event_handler_count ev - 1\<rparr>
      in if stop_event_handler_count ev1 = 0 then stop_event_pipe_close K ev1 e else (ev1, e))"

section \<open>Reading the stop information\<close>

text \<open>
  \<open>buf\<close> is the caller's \<open>*stopinfo\<close>; the loop reads on after a short read until the whole
  structure is there, waiting with \<open>poll\<close>.
\<close>

definition put_bytes :: "u8 list \<Rightarrow> nat \<Rightarrow> u8 list \<Rightarrow> u8 list" where
  "put_bytes buf n bs = take n buf @ bs @ drop (n + length bs) buf"

partial_function (option) read_rest ::
  "'w kernel \<Rightarrow> int \<Rightarrow> nat \<Rightarrow> int \<Rightarrow> u8 list \<Rightarrow> 'w env \<Rightarrow> (int \<times> u8 list \<times> 'w env) option"
where
  [code]: "read_rest K fd got rc buf e =
     (if SIZEOF_STOP_INFO \<le> got then Some (rc, buf, e)
      else case sys_rv K (Poll fd POLLIN (-1)) e of (rc1, e1) \<Rightarrow>
        if rc1 = -1 then (if errno e1 \<noteq> EINTR then Some (-1, buf, e1) else read_rest K fd got rc1 buf e1)
        else if rc1 = 1 then
          case sys K (Read fd (SIZEOF_STOP_INFO - got)) e1 of (r, e2) \<Rightarrow>
            if rv r = -1 then
              (if errno e2 \<noteq> EAGAIN then Some (-1, buf, e2) else read_rest K fd got (-1) buf e2)
            else read_rest K fd (got + nat (rv r)) (rv r)
              (put_bytes buf got (take (nat (rv r)) (rbytes r))) e2
        else read_rest K fd got rc1 buf e1)"

definition event_spe_stop_info_read ::
  "'w kernel \<Rightarrow> event_priv \<Rightarrow> u8 list \<Rightarrow> 'w env \<Rightarrow> (int \<times> u8 list \<times> event_priv \<times> 'w env) option"
where
  "event_spe_stop_info_read K ev buf e =
     (let e1 = stop_event_lock e; fd = fst (stop_event_pipe ev) in
      if fd = -1 then
        (if stop_event_buffer_count ev \<noteq> 0 then
           Some (0, stop_info_bytes (stop_event_buffer ev),
             ev\<lparr>stop_event_buffer_count := stop_event_buffer_count ev - 1\<rparr>, stop_event_unlock e1)
         else Some (-1, buf, ev, stop_event_unlock (set_errno EAGAIN e1)))
      else case sys K (Read fd SIZEOF_STOP_INFO) e1 of (r, e2) \<Rightarrow>
        if rv r = -1 then Some (-1, buf, ev, stop_event_unlock e2)
        else do {
          (rc, buf1, e3) \<leftarrow> read_rest K fd (nat (rv r)) (rv r)
            (put_bytes buf 0 (take (nat (rv r)) (rbytes r))) e2;
          Some (if rc = -1 then -1 else 0, buf1, ev, stop_event_unlock e3)
        })"

section \<open>Handlers\<close>

definition event_spe_event_handler_create ::
  "'w kernel \<Rightarrow> 'w env \<Rightarrow> event_handler option \<times> 'w env" where
  "event_spe_event_handler_create K e =
     (let (p, e1) = sys_rv K (Malloc 4) e in
      if p \<le> 0 then (None, e1)
      else
        let (epfd, e2) = sys_rv K (EpollCreate 10) e1 in
        if epfd = -1 then (None, snd (sys_rv K (Free (nat p)) e2))
        else (Some \<lparr>evh_ptr = nat p, evh_epfd = epfd\<rparr>, e2))"

definition event_spe_event_handler_destroy ::
  "'w kernel \<Rightarrow> event_handler option \<Rightarrow> 'w env \<Rightarrow> int \<times> 'w env" where
  "event_spe_event_handler_destroy K evhandler e =
     (case evhandler of
        None \<Rightarrow> (-1, set_errno ESRCH e)
      | Some h \<Rightarrow>
          let e1 = snd (sys_rv K (Close (evh_epfd h)) e);
              e2 = snd (sys_rv K (Free (evh_ptr h)) e1)
          in (0, e2))"

section \<open>Registration\<close>

text \<open>
  The parts of a registration run in order on the context, its event data and the environment;
  the first that fails ends it.
\<close>

type_synonym 'w event_state = "spe_context \<times> event_priv \<times> 'w env"

definition step_if :: "bool \<Rightarrow> ('w event_state \<Rightarrow> bool \<times> 'w event_state) \<Rightarrow>
    bool \<times> 'w event_state \<Rightarrow> bool \<times> 'w event_state" where
  "step_if b f x = (if fst x \<and> b then f (snd x) else x)"

definition set_unit :: "event_type \<Rightarrow> u64 \<Rightarrow> event_priv \<Rightarrow> event_priv" where
  "set_unit k data ev =
     ev\<lparr>ev_units := (ev_units ev)(k := (ev_units ev k)\<lparr>ev_events := event_bit k, ev_data := data\<rparr>)\<rparr>"

definition clear_unit :: "event_type \<Rightarrow> event_priv \<Rightarrow> event_priv" where
  "clear_unit k ev = ev\<lparr>ev_units := (ev_units ev)(k := (ev_units ev k)\<lparr>ev_events := 0\<rparr>)\<rparr>"

definition register_source ::
  "'w kernel \<Rightarrow> int \<Rightarrow> fd_name \<Rightarrow> event_type \<Rightarrow> u32 \<Rightarrow> u64 \<Rightarrow> 'w event_state \<Rightarrow> bool \<times> 'w event_state"
where
  "register_source K epfd f k epev data s =
     (let (c, ev, e) = s; (fd, c1, e1) = base_spe_event_source_acquire K c f e in
      if fd = -1 then (False, c1, ev, e1)
      else if k = EV_TAG_GROUP \<and> has_flag (flags c1) SPE_MAP_PS then (False, c1, ev, set_errno ENOTSUP e1)
      else
        let ev1 = set_unit k data ev;
            (rc, e2) = sys_rv K (EpollCtl epfd EPOLL_CTL_ADD fd (ev_buf_ptr ev1 k) epev) e1
        in (rc \<noteq> -1, c1, ev1, e2))"

definition register_stopped ::
  "'w kernel \<Rightarrow> int \<Rightarrow> u64 \<Rightarrow> 'w event_state \<Rightarrow> bool \<times> 'w event_state" where
  "register_stopped K epfd data s =
     (let (c, ev, e) = s; (rc, ev1, e1) = stop_event_pipe_acquire K ev (stop_event_lock e) in
      if rc = -1 then (False, c, ev1, stop_event_unlock e1)
      else
        let fd = fst (stop_event_pipe ev1);
            ev2 = set_unit EV_SPE_STOPPED data ev1;
            (rc, e2) = sys_rv K (EpollCtl epfd EPOLL_CTL_ADD fd (ev_buf_ptr ev2 EV_SPE_STOPPED) EPOLLIN) e1
        in if rc = -1 then
             let (ev3, e3) = stop_event_pipe_release K ev2 e2 in (False, c, ev3, stop_event_unlock e3)
           else (True, c, ev2, stop_event_unlock e2))"

definition deregister_source ::
  "'w kernel \<Rightarrow> int \<Rightarrow> fd_name \<Rightarrow> event_type \<Rightarrow> 'w event_state \<Rightarrow> bool \<times> 'w event_state" where
  "deregister_source K epfd f k s =
     (let (c, ev, e) = s; (fd, c1, e1) = base_spe_event_source_acquire K c f e in
      if fd = -1 then (False, c1, ev, e1)
      else
        let (rc, e2) = sys_rv K (EpollCtl epfd EPOLL_CTL_DEL fd NULL 0) e1
        in if rc = -1 then (False, c1, ev, e2) else (True, c1, clear_unit k ev, e2))"

definition deregister_stopped ::
  "'w kernel \<Rightarrow> int \<Rightarrow> 'w event_state \<Rightarrow> bool \<times> 'w event_state" where
  "deregister_stopped K epfd s =
     (let (c, ev, e) = s; e1 = stop_event_lock e;
          (rc, e2) = sys_rv K (EpollCtl epfd EPOLL_CTL_DEL (fst (stop_event_pipe ev)) NULL 0) e1
      in if rc = -1 then (False, c, ev, stop_event_unlock e2)
         else
           let (ev1, e3) = stop_event_pipe_release K (clear_unit EV_SPE_STOPPED ev) e2
           in (True, c, ev1, stop_event_unlock e3))"

definition register_events ::
  "'w kernel \<Rightarrow> int \<Rightarrow> u32 \<Rightarrow> u64 \<Rightarrow> 'w event_state \<Rightarrow> bool \<times> 'w event_state" where
  "register_events K epfd evs data s =
     step_if (has_flag evs SPE_EVENT_SPE_STOPPED) (register_stopped K epfd data)
      (step_if (has_flag evs SPE_EVENT_TAG_GROUP) (register_source K epfd FD_MFC EV_TAG_GROUP EPOLLIN data)
        (step_if (has_flag evs SPE_EVENT_IN_MBOX) (register_source K epfd FD_WBOX EV_IN_MBOX EPOLLOUT data)
          (step_if (has_flag evs SPE_EVENT_OUT_INTR_MBOX)
            (register_source K epfd FD_IBOX EV_OUT_INTR_MBOX EPOLLIN data) (True, s))))"

definition deregister_events ::
  "'w kernel \<Rightarrow> int \<Rightarrow> u32 \<Rightarrow> 'w event_state \<Rightarrow> bool \<times> 'w event_state" where
  "deregister_events K epfd evs s =
     step_if (has_flag evs SPE_EVENT_SPE_STOPPED) (deregister_stopped K epfd)
      (step_if (has_flag evs SPE_EVENT_TAG_GROUP) (deregister_source K epfd FD_MFC EV_TAG_GROUP)
        (step_if (has_flag evs SPE_EVENT_IN_MBOX) (deregister_source K epfd FD_WBOX EV_IN_MBOX)
          (step_if (has_flag evs SPE_EVENT_OUT_INTR_MBOX)
            (deregister_source K epfd FD_IBOX EV_OUT_INTR_MBOX) (True, s))))"

text \<open>The checks the two calls share, then \<open>op\<close> under the event lock.\<close>

definition event_request ::
  "event_handler option \<Rightarrow> spe_event_unit option \<Rightarrow> spe_object \<Rightarrow> 'w env \<Rightarrow>
   (int \<Rightarrow> spe_event_unit \<Rightarrow> 'w event_state \<Rightarrow> bool \<times> 'w event_state) \<Rightarrow> (int \<times> spe_object \<times> 'w env) option"
where
  "event_request evhandler event s e op =
     (case evhandler of
        None \<Rightarrow> Some (-1, s, set_errno ESRCH e)
      | Some h \<Rightarrow>
          case event of
            None \<Rightarrow> Some (-1, s, set_errno EINVAL e)
          | Some u \<Rightarrow>
              if ev_spe u = NULL then Some (-1, s, set_errno EINVAL e)
              else if \<not> has_flag (flags (base s)) SPE_EVENTS_ENABLE then Some (-1, s, set_errno ENOTSUP e)
              else if has_flag (ev_events u) (NOT SPE_EVENT_ALL) then Some (-1, s, set_errno ENOTSUP e)
              else case event_private s of
                None \<Rightarrow> None
              | Some ev \<Rightarrow>
                  let (ok, c1, ev1, e1) = op (evh_epfd h) u (base s, ev, event_spe_context_lock e)
                  in Some (if ok then 0 else -1, \<lparr>base = c1, event_private = Some ev1\<rparr>,
                       event_spe_context_unlock e1))"

definition event_spe_event_handler_register ::
  "'w kernel \<Rightarrow> event_handler option \<Rightarrow> spe_event_unit option \<Rightarrow> spe_object \<Rightarrow> 'w env \<Rightarrow>
   (int \<times> spe_object \<times> 'w env) option" where
  "event_spe_event_handler_register K evhandler event s e =
     event_request evhandler event s e (\<lambda>epfd u. register_events K epfd (ev_events u) (ev_data u))"

definition event_spe_event_handler_deregister ::
  "'w kernel \<Rightarrow> event_handler option \<Rightarrow> spe_event_unit option \<Rightarrow> spe_object \<Rightarrow> 'w env \<Rightarrow>
   (int \<times> spe_object \<times> 'w env) option" where
  "event_spe_event_handler_deregister K evhandler event s e =
     event_request evhandler event s e (\<lambda>epfd u. deregister_events K epfd (ev_events u))"

section \<open>Waiting\<close>

text \<open>
  The result of \<open>epoll_wait\<close> is its count and the pointers of the events. With no time limit
  an interrupted wait is repeated; with one it counts as a timeout.
\<close>

partial_function (option) epoll_wait_loop ::
  "'w kernel \<Rightarrow> int \<Rightarrow> int \<Rightarrow> int \<Rightarrow> 'w env \<Rightarrow> (int \<times> addr list \<times> 'w env) option"
where
  [code]: "epoll_wait_loop K epfd max_events timeout e =
     (case sys K (EpollWait epfd max_events timeout) e of (r, e1) \<Rightarrow>
        if rv r = -1 then
          (if errno e1 = EINTR then
             (if timeout \<ge> 0 then Some (0, [], e1) else epoll_wait_loop K epfd max_events timeout e1)
           else Some (-1, [], e1))
        else Some (rv r, take (nat (rv r)) (rptrs r), e1))"

text \<open>\<open>units p\<close> is the event unit at address \<open>p\<close>; it is copied under its context's lock.\<close>

fun copy_units ::
  "(addr \<rightharpoonup> spe_event_unit) \<Rightarrow> addr list \<Rightarrow> 'w env \<Rightarrow> (spe_event_unit list \<times> 'w env) option" where
  "copy_units units [] e = Some ([], e)"
| "copy_units units (p # ps) e =
     (case units p of
        None \<Rightarrow> None
      | Some u \<Rightarrow> do {
          (us, e1) \<leftarrow> copy_units units ps (event_spe_context_unlock (event_spe_context_lock e));
          Some (u # us, e1)
        })"

definition event_spe_event_wait ::
  "'w kernel \<Rightarrow> (addr \<rightharpoonup> spe_event_unit) \<Rightarrow> event_handler option \<Rightarrow> bool \<Rightarrow> int \<Rightarrow> int \<Rightarrow> 'w env \<Rightarrow>
   (int \<times> spe_event_unit list \<times> 'w env) option" where
  "event_spe_event_wait K units evhandler events max_events timeout e =
     (case evhandler of
        None \<Rightarrow> Some (-1, [], set_errno ESRCH e)
      | Some h \<Rightarrow>
          if \<not> events \<or> max_events \<le> 0 then Some (-1, [], set_errno EINVAL e)
          else
            let (p, e1) = sys_rv K (Malloc (16 * nat max_events)) e in
            if p \<le> 0 then Some (-1, [], e1)
            else do {
              (rc, ptrs, e2) \<leftarrow> epoll_wait_loop K (evh_epfd h) max_events timeout e1;
              (us, e3) \<leftarrow> copy_units units ptrs e2;
              Some (rc, us, snd (sys_rv K (Free (nat p)) e3))
            })"

section \<open>The event data of a context\<close>

definition zero_stop_info :: spe_stop_info where
  "zero_stop_info = \<lparr>stop_reason = None, stop_result = 0, spu_status = 0\<rparr>"

definition event_spe_context_initialize ::
  "'w kernel \<Rightarrow> spe_context \<Rightarrow> 'w env \<Rightarrow> event_priv option \<times> 'w env" where
  "event_spe_context_initialize K c e =
     (let (p, e1) = sys_rv K (Malloc SIZEOF_EVENT_PRIV) e in
      if p \<le> 0 then (None, e1)
      else (Some \<lparr>evctx_ptr = nat p, stop_event_pipe = (-1, -1), stop_event_handler_count = 0,
              stop_event_buffer_count = 0, stop_event_buffer = zero_stop_info,
              ev_units = (\<lambda>_. \<lparr>ev_events = 0, ev_spe = spe_ptr c, ev_data = 0\<rparr>)\<rparr>, e1))"

definition event_spe_context_finalize ::
  "'w kernel \<Rightarrow> spe_object option \<Rightarrow> 'w env \<Rightarrow> (int \<times> spe_object option \<times> 'w env) option" where
  "event_spe_context_finalize K spe e =
     (case spe of
        None \<Rightarrow> Some (-1, None, set_errno ESRCH e)
      | Some s \<Rightarrow> do {
          ev \<leftarrow> event_private s;
          let (ev1, e1) = stop_event_pipe_close K ev e;
          let e2 = snd (sys_rv K (Free (evctx_ptr ev1)) e1);
          Some (0, Some (s\<lparr>event_private := None\<rparr>), e2)
        })"

text \<open>
  A run of a context with events; \<open>info\<close> is the stop information that is passed on (of the caller,
  or the local buffer when the caller passed \<open>NULL\<close>), read back from the state the run leaves.
\<close>

definition event_spe_context_run ::
  "'w kernel \<Rightarrow> 'w handler_code \<Rightarrow> handlers \<Rightarrow> spe_object \<Rightarrow> u32 \<Rightarrow> u32 \<Rightarrow> addr \<Rightarrow> addr \<Rightarrow>
   spe_stop_info \<Rightarrow> u32 \<Rightarrow> spe_context_info list \<Rightarrow> 'w env \<Rightarrow> (int \<times> event_priv \<times> 'w run_state) option"
where
  "event_spe_context_run K H hs s ent runflags argp envp info junk chain e = do {
     (rc, st) \<leftarrow> base_spe_context_run K H hs (base s) ent runflags argp envp info junk chain e;
     let errno_saved = errno (run_env st);
     ev \<leftarrow> event_private s;
     let e1 = stop_event_lock (run_env st);
     let fd = snd (stop_event_pipe ev);
     if fd = -1 then
       Some (rc, ev\<lparr>stop_event_buffer := run_info st, stop_event_buffer_count := 1\<rparr>,
         st\<lparr>run_env := stop_event_unlock e1\<rparr>)
     else
       let (_, ev1, e2) = stop_event_pipe_acquire K ev e1;
           (_, e3) = sys_rv K (Write fd (stop_info_bytes (run_info st))) (stop_event_unlock e2);
           (ev2, e4) = stop_event_pipe_release K ev1 (stop_event_lock e3)
       in Some (rc, ev2, st\<lparr>run_env := set_errno errno_saved (stop_event_unlock e4)\<rparr>)
   }"

section \<open>The pipe is open while it has users\<close>

definition pipe_inv :: "event_priv \<Rightarrow> bool" where
  "pipe_inv ev \<longleftrightarrow>
     (stop_event_handler_count ev = 0 \<and> stop_event_pipe ev = (-1, -1)) \<or>
     (0 < stop_event_handler_count ev \<and> 0 \<le> fst (stop_event_pipe ev) \<and> 0 \<le> snd (stop_event_pipe ev))"

text \<open>
  \<open>pipe\<close> fails or hands back two descriptors, and \<open>epoll_ctl\<close> refuses the descriptor -1.
\<close>

definition pipe_kernel :: "'w kernel \<Rightarrow> bool" where
  "pipe_kernel K \<longleftrightarrow>
     (\<forall>x. rv (fst (K Pipe x)) = -1 \<or>
        (0 \<le> fst (pipe_fds (fst (K Pipe x))) \<and> 0 \<le> snd (pipe_fds (fst (K Pipe x))))) \<and>
     (\<forall>epfd op p evs x. rv (fst (K (EpollCtl epfd op (-1) p evs) x)) = -1)"

lemma unit_simps [simp]:
  "stop_event_pipe (set_unit k d ev) = stop_event_pipe ev"
  "stop_event_handler_count (set_unit k d ev) = stop_event_handler_count ev"
  "stop_event_buffer_count (set_unit k d ev) = stop_event_buffer_count ev"
  "stop_event_buffer (set_unit k d ev) = stop_event_buffer ev"
  "evctx_ptr (set_unit k d ev) = evctx_ptr ev"
  "stop_event_pipe (clear_unit k ev) = stop_event_pipe ev"
  "stop_event_handler_count (clear_unit k ev) = stop_event_handler_count ev"
  "stop_event_buffer_count (clear_unit k ev) = stop_event_buffer_count ev"
  "stop_event_buffer (clear_unit k ev) = stop_event_buffer ev"
  "evctx_ptr (clear_unit k ev) = evctx_ptr ev"
  by (simp_all add: set_unit_def clear_unit_def)

lemma pipe_close_simps [simp]:
  "fst (stop_event_pipe_close K ev e) = ev\<lparr>stop_event_pipe := (-1, -1)\<rparr>"
  by (simp add: stop_event_pipe_close_def Let_def split: prod.splits)

lemma pipe_open_cases:
  assumes "pipe_kernel K" "stop_event_pipe_open K ev e = (rc, ev', e')" "stop_event_pipe ev = (-1, -1)"
  shows "(rc = -1 \<and> ev' = ev) \<or>
    (rc = 0 \<and> (\<exists>p. 0 \<le> fst p \<and> 0 \<le> snd p \<and> ev' = ev\<lparr>stop_event_pipe := p\<rparr>))"
proof -
  obtain r e1 where s: "sys K Pipe e = (r, e1)" by fastforce
  then have "r = fst (K Pipe (mem e, world e))" by (auto simp: sys_def split: prod.splits)
  then have r: "rv r = -1 \<or> 0 \<le> fst (pipe_fds r) \<and> 0 \<le> snd (pipe_fds r)"
    using assms(1) by (simp add: pipe_kernel_def)
  have undo: "(ev\<lparr>stop_event_pipe := p\<rparr>)\<lparr>stop_event_pipe := (-1, -1)\<rparr> = ev" for p using assms(3) by simp
  have c: "ev' = ev" if "stop_event_pipe_close K (ev\<lparr>stop_event_pipe := pipe_fds r\<rparr>) e3 = (ev', e')" for e3
    using pipe_close_simps [of K "ev\<lparr>stop_event_pipe := pipe_fds r\<rparr>" e3] undo by (simp add: that)
  obtain a b where ab: "pipe_fds r = (a, b)" by fastforce
  show ?thesis
  proof (cases "rv r = -1")
    case True
    with assms(2) s show ?thesis by (simp add: stop_event_pipe_open_def)
  next
    case False
    with r ab have "0 \<le> a" "0 \<le> b" by simp_all
    with assms(2) s False c show ?thesis
      by (auto simp: stop_event_pipe_open_def Let_def ab split: prod.splits if_splits)
  qed
qed

lemma pipe_acquire_inv:
  assumes "pipe_kernel K" "stop_event_pipe_acquire K ev e = (rc, ev', e')" "pipe_inv ev"
  shows "pipe_inv ev'" "rc = -1 \<and> ev' = ev \<or> rc = 0 \<and> 0 < stop_event_handler_count ev' \<and>
    stop_event_handler_count ev' = stop_event_handler_count ev + 1"
proof -
  obtain rc1 ev1 e1 where o: "stop_event_pipe_open K ev e = (rc1, ev1, e1)" by (metis prod_cases3)
  show "pipe_inv ev'" "rc = -1 \<and> ev' = ev \<or> rc = 0 \<and> 0 < stop_event_handler_count ev' \<and>
      stop_event_handler_count ev' = stop_event_handler_count ev + 1"
    using assms o pipe_open_cases [OF assms(1) o]
    by (auto simp: pipe_inv_def stop_event_pipe_acquire_def Let_def split: if_splits)
qed

lemma pipe_release_inv:
  assumes "stop_event_pipe_release K ev e = (ev', e')" "pipe_inv ev" "0 < stop_event_handler_count ev"
  shows "pipe_inv ev'" "stop_event_handler_count ev' = stop_event_handler_count ev - 1"
    "1 < stop_event_handler_count ev \<Longrightarrow> stop_event_pipe ev' = stop_event_pipe ev"
proof -
  have "stop_event_pipe_close K (ev\<lparr>stop_event_handler_count := 0\<rparr>) e = (ev', e') \<Longrightarrow>
      ev' = ev\<lparr>stop_event_handler_count := 0, stop_event_pipe := (-1, -1)\<rparr>"
    using pipe_close_simps [of K "ev\<lparr>stop_event_handler_count := 0\<rparr>" e] by simp
  with assms show "pipe_inv ev'" "stop_event_handler_count ev' = stop_event_handler_count ev - 1"
    "1 < stop_event_handler_count ev \<Longrightarrow> stop_event_pipe ev' = stop_event_pipe ev"
    by (auto simp: pipe_inv_def stop_event_pipe_release_def Let_def split: if_splits)
qed

definition event_inv :: "event_priv \<Rightarrow> bool" where
  "event_inv ev \<longleftrightarrow> pipe_inv ev \<and> stop_event_buffer_count ev \<in> {0, 1} \<and>
     (0 < stop_event_handler_count ev \<longrightarrow> stop_event_buffer_count ev = 0) \<and>
     (\<forall>k. ev_events (ev_units ev k) \<in> {0, event_bit k})"

lemma event_inv_units [simp]:
  "event_inv ev \<Longrightarrow> event_inv (set_unit k d ev)"
  "event_inv ev \<Longrightarrow> event_inv (clear_unit k ev)"
  by (auto simp: event_inv_def pipe_inv_def) (auto simp: set_unit_def clear_unit_def)

lemma pipe_acquire_event_inv:
  assumes "pipe_kernel K" "stop_event_pipe_acquire K ev e = (rc, ev', e')" "event_inv ev"
  shows "event_inv ev'" "rc = 0 \<longrightarrow> 0 < stop_event_handler_count ev'"
proof -
  have p: "pipe_inv ev" using assms(3) by (simp add: event_inv_def)
  note inv = pipe_acquire_inv [OF assms(1,2) p]
  show "rc = 0 \<longrightarrow> 0 < stop_event_handler_count ev'" using inv by auto
  have "ev_units ev' = ev_units ev" "stop_event_buffer_count ev' = stop_event_buffer_count ev \<or>
      stop_event_buffer_count ev' = 0"
    using assms(2) pipe_open_cases [OF assms(1)] p
    by (fastforce simp: stop_event_pipe_acquire_def pipe_inv_def Let_def split: prod.splits if_splits)+
  moreover have "stop_event_buffer_count ev' = 0" if "rc = 0"
    using assms(2,3) that pipe_open_cases [OF assms(1)] p
    by (auto simp: stop_event_pipe_acquire_def event_inv_def pipe_inv_def Let_def split: prod.splits if_splits)
  ultimately show "event_inv ev'" using assms(3) inv by (auto simp: event_inv_def)
qed

lemma pipe_release_event_inv:
  assumes "stop_event_pipe_release K ev e = (ev', e')" "event_inv ev" "0 < stop_event_handler_count ev"
  shows "event_inv ev'"
proof -
  have p: "pipe_inv ev" using assms(2) by (simp add: event_inv_def)
  have "stop_event_pipe_close K (ev\<lparr>stop_event_handler_count := 0\<rparr>) e = (ev', e') \<Longrightarrow>
      ev' = ev\<lparr>stop_event_handler_count := 0, stop_event_pipe := (-1, -1)\<rparr>"
    using pipe_close_simps [of K "ev\<lparr>stop_event_handler_count := 0\<rparr>" e] by simp
  then have "ev_units ev' = ev_units ev" "stop_event_buffer_count ev' = stop_event_buffer_count ev"
    using assms(1) by (auto simp: stop_event_pipe_release_def Let_def split: if_splits)
  with assms pipe_release_inv(1) [OF assms(1) p assms(3)] show ?thesis by (auto simp: event_inv_def)
qed

lemma register_source_inv:
  assumes "event_inv ev" "register_source K epfd f k evs d (c, ev, e) = (ok, c', ev', e')"
  shows "event_inv ev'"
  using assms by (auto simp: register_source_def Let_def split: prod.splits if_splits)

lemma deregister_source_inv:
  assumes "event_inv ev" "deregister_source K epfd f k (c, ev, e) = (ok, c', ev', e')"
  shows "event_inv ev'"
  using assms by (auto simp: deregister_source_def Let_def split: prod.splits if_splits)

lemma register_stopped_inv:
  assumes "pipe_kernel K" "event_inv ev" "register_stopped K epfd d (c, ev, e) = (ok, c', ev', e')"
  shows "event_inv ev'"
proof -
  obtain rc ev1 e1 where a: "stop_event_pipe_acquire K ev (stop_event_lock e) = (rc, ev1, e1)"
    by (metis prod_cases3)
  note inv = pipe_acquire_event_inv [OF assms(1) a assms(2)]
  show ?thesis
    using assms(3) a inv pipe_release_event_inv
      pipe_acquire_inv(2) [OF assms(1) a] assms(2)
    by (fastforce simp: register_stopped_def Let_def event_inv_def [of ev] split: prod.splits if_splits)
qed

lemma epoll_refuses:
  assumes "pipe_kernel K" "sys_rv K (EpollCtl epfd op (-1) p evs) e = (rc, e')"
  shows "rc = -1"
proof -
  have "rc = rv (fst (K (EpollCtl epfd op (-1) p evs) (mem e, world e)))"
    using assms(2) by (auto simp: sys_rv_def sys_def split: prod.splits)
  then show ?thesis using assms(1) by (simp add: pipe_kernel_def)
qed

lemma deregister_stopped_inv:
  assumes "pipe_kernel K" "event_inv ev" "deregister_stopped K epfd (c, ev, e) = (ok, c', ev', e')"
  shows "event_inv ev'"
proof (cases "0 < stop_event_handler_count ev")
  case True
  with assms(2) have "event_inv (clear_unit EV_SPE_STOPPED ev)"
    "0 < stop_event_handler_count (clear_unit EV_SPE_STOPPED ev)" by simp_all
  then show ?thesis using assms(2,3) pipe_release_event_inv
    by (fastforce simp: deregister_stopped_def Let_def split: prod.splits if_splits)
next
  case False
  then have "stop_event_pipe ev = (-1, -1)" using assms(2) by (auto simp: event_inv_def pipe_inv_def)
  then show ?thesis using assms(2,3) epoll_refuses [OF assms(1)]
    by (fastforce simp: deregister_stopped_def Let_def split: prod.splits if_splits)
qed

lemma step_if_inv:
  assumes "step_if b f (ok, c, ev, e) = (ok', c', ev', e')" "event_inv ev"
    and "\<And>x y z w. f (c, ev, e) = (x, y, z, w) \<Longrightarrow> event_inv z"
  shows "event_inv ev'"
proof -
  obtain x y z w where "f (c, ev, e) = (x, y, z, w)" by (metis prod_cases4)
  with assms(1,2) assms(3) [OF this] show ?thesis by (auto simp: step_if_def split: if_splits)
qed

lemma register_events_inv:
  assumes "pipe_kernel K" "event_inv ev" "register_events K epfd evs d (c, ev, e) = (ok, c', ev', e')"
  shows "event_inv ev'"
proof -
  note R = register_source_inv [of _ K epfd] register_stopped_inv [OF assms(1)]
  obtain o1 c1 ev1 e1 where 1: "step_if (has_flag evs SPE_EVENT_OUT_INTR_MBOX)
      (register_source K epfd FD_IBOX EV_OUT_INTR_MBOX EPOLLIN d) (True, c, ev, e) = (o1, c1, ev1, e1)"
    by (metis prod_cases4)
  obtain o2 c2 ev2 e2 where 2: "step_if (has_flag evs SPE_EVENT_IN_MBOX)
      (register_source K epfd FD_WBOX EV_IN_MBOX EPOLLOUT d) (o1, c1, ev1, e1) = (o2, c2, ev2, e2)"
    by (metis prod_cases4)
  obtain o3 c3 ev3 e3 where 3: "step_if (has_flag evs SPE_EVENT_TAG_GROUP)
      (register_source K epfd FD_MFC EV_TAG_GROUP EPOLLIN d) (o2, c2, ev2, e2) = (o3, c3, ev3, e3)"
    by (metis prod_cases4)
  have "event_inv ev1" by (rule step_if_inv [OF 1 assms(2)]) (rule R(1) [OF assms(2)])
  then have "event_inv ev2" by (rule step_if_inv [OF 2]) (rule R(1) [OF \<open>event_inv ev1\<close>])
  then have "event_inv ev3" by (rule step_if_inv [OF 3]) (rule R(1) [OF \<open>event_inv ev2\<close>])
  moreover have "step_if (has_flag evs SPE_EVENT_SPE_STOPPED) (register_stopped K epfd d)
      (o3, c3, ev3, e3) = (ok, c', ev', e')" using assms(3) 1 2 3 by (simp add: register_events_def)
  ultimately show ?thesis using step_if_inv R(2) by blast
qed

lemma deregister_events_inv:
  assumes "pipe_kernel K" "event_inv ev" "deregister_events K epfd evs (c, ev, e) = (ok, c', ev', e')"
  shows "event_inv ev'"
proof -
  note R = deregister_source_inv [of _ K epfd] deregister_stopped_inv [OF assms(1)]
  obtain o1 c1 ev1 e1 where 1: "step_if (has_flag evs SPE_EVENT_OUT_INTR_MBOX)
      (deregister_source K epfd FD_IBOX EV_OUT_INTR_MBOX) (True, c, ev, e) = (o1, c1, ev1, e1)"
    by (metis prod_cases4)
  obtain o2 c2 ev2 e2 where 2: "step_if (has_flag evs SPE_EVENT_IN_MBOX)
      (deregister_source K epfd FD_WBOX EV_IN_MBOX) (o1, c1, ev1, e1) = (o2, c2, ev2, e2)"
    by (metis prod_cases4)
  obtain o3 c3 ev3 e3 where 3: "step_if (has_flag evs SPE_EVENT_TAG_GROUP)
      (deregister_source K epfd FD_MFC EV_TAG_GROUP) (o2, c2, ev2, e2) = (o3, c3, ev3, e3)"
    by (metis prod_cases4)
  have "event_inv ev1" by (rule step_if_inv [OF 1 assms(2)]) (rule R(1) [OF assms(2)])
  then have "event_inv ev2" by (rule step_if_inv [OF 2]) (rule R(1) [OF \<open>event_inv ev1\<close>])
  then have "event_inv ev3" by (rule step_if_inv [OF 3]) (rule R(1) [OF \<open>event_inv ev2\<close>])
  moreover have "step_if (has_flag evs SPE_EVENT_SPE_STOPPED) (deregister_stopped K epfd)
      (o3, c3, ev3, e3) = (ok, c', ev', e')" using assms(3) 1 2 3 by (simp add: deregister_events_def)
  ultimately show ?thesis using step_if_inv R(2) by blast
qed

section \<open>Every history of a context with events\<close>

text \<open>
  A context goes through registrations, deregistrations, runs and reads of the stop information,
  in any order and in any environment. The one hypothesis is on the kernel, which is fixed.
\<close>

inductive event_reachable :: "'w kernel \<Rightarrow> spe_object \<Rightarrow> bool" for K where
  created: "event_spe_context_initialize K c e = (Some ev, e') \<Longrightarrow>
    event_reachable K \<lparr>base = c, event_private = Some ev\<rparr>"
| registered: "event_reachable K s \<Longrightarrow> event_spe_event_handler_register K h u s e = Some (rc, s', e') \<Longrightarrow>
    event_reachable K s'"
| deregistered: "event_reachable K s \<Longrightarrow> event_spe_event_handler_deregister K h u s e = Some (rc, s', e') \<Longrightarrow>
    event_reachable K s'"
| ran: "event_reachable K s \<Longrightarrow>
    event_spe_context_run K H hs s ent rf argp envp info junk chain e = Some (rc, ev', st) \<Longrightarrow>
    event_reachable K \<lparr>base = run_c st, event_private = Some ev'\<rparr>"
| read: "event_reachable K s \<Longrightarrow> event_private s = Some ev \<Longrightarrow>
    event_spe_stop_info_read K ev buf e = Some (rc, buf', ev', e') \<Longrightarrow>
    event_reachable K (s\<lparr>event_private := Some ev'\<rparr>)"

lemma event_request_inv:
  assumes "event_request h u s e op = Some (rc, s', e')" "event_private s = Some ev" "event_inv ev"
    and "\<And>epfd un c e ok c' ev' e'. op epfd un (c, ev, e) = (ok, c', ev', e') \<Longrightarrow> event_inv ev'"
  shows "\<exists>ev'. event_private s' = Some ev' \<and> event_inv ev'"
proof (cases "s' = s")
  case False
  then obtain hd un where h: "h = Some hd" "u = Some un"
    using assms(1) by (auto simp: event_request_def split: option.splits)
  obtain ok c1 ev1 e1 where o: "op (evh_epfd hd) un (base s, ev, event_spe_context_lock e) = (ok, c1, ev1, e1)"
    by (metis prod_cases4)
  from assms(4) [OF this] show ?thesis
    using assms(1,2) False h o by (auto simp: event_request_def Let_def split: if_splits)
qed (use assms in simp)

lemma event_run_inv:
  assumes "pipe_kernel K" "event_private s = Some ev" "event_inv ev"
    "event_spe_context_run K H hs s ent rf argp envp info junk chain e = Some (rc, ev', st)"
  shows "event_inv ev'"
proof -
  obtain rc1 st1 where run:
    "base_spe_context_run K H hs (base s) ent rf argp envp info junk chain e = Some (rc1, st1)"
    using assms(4) by (auto simp: event_spe_context_run_def split: Option.bind_splits)
  show ?thesis
  proof (cases "snd (stop_event_pipe ev) = -1")
    case True
    then have "stop_event_handler_count ev = 0" "stop_event_pipe ev = (-1, -1)"
      using assms(3) by (auto simp: event_inv_def pipe_inv_def)
    then show ?thesis using assms(2,3,4) run True
      by (auto simp: event_spe_context_run_def event_inv_def pipe_inv_def Let_def)
  next
    case False
    obtain rc2 ev1 e2 where a: "stop_event_pipe_acquire K ev (stop_event_lock (run_env st1)) = (rc2, ev1, e2)"
      by (metis prod_cases3)
    obtain n e3 where w: "sys_rv K (Write (snd (stop_event_pipe ev)) (stop_info_bytes (run_info st1)))
        (stop_event_unlock e2) = (n, e3)" by fastforce
    obtain ev2 e4 where r: "stop_event_pipe_release K ev1 (stop_event_lock e3) = (ev2, e4)" by fastforce
    have p: "0 < stop_event_handler_count ev" using False assms(3) by (auto simp: event_inv_def pipe_inv_def)
    then have "0 < stop_event_handler_count ev1" "event_inv ev1"
      using a pipe_acquire_event_inv [OF assms(1) a assms(3)]
      by (auto simp: stop_event_pipe_acquire_def)
    then have "event_inv ev2" using pipe_release_event_inv [OF r] by simp
    then show ?thesis using assms(2,4) run False a w r
      by (auto simp: event_spe_context_run_def Let_def)
  qed
qed

lemma event_reachable_inv:
  assumes "pipe_kernel K" "event_reachable K s"
  shows "\<exists>ev. event_private s = Some ev \<and> event_inv ev"
  using assms(2)
proof induction
  case (created c e ev e')
  then show ?case
    by (auto simp: event_spe_context_initialize_def event_inv_def pipe_inv_def split: prod.splits if_splits)
next
  case (registered s h u e rc s' e')
  then obtain ev where "event_private s = Some ev" "event_inv ev" by blast
  then show ?case using registered(2) register_events_inv [OF assms(1)]
    unfolding event_spe_event_handler_register_def by (elim event_request_inv) blast+
next
  case (deregistered s h u e rc s' e')
  then obtain ev where "event_private s = Some ev" "event_inv ev" by blast
  then show ?case using deregistered(2) deregister_events_inv [OF assms(1)]
    unfolding event_spe_event_handler_deregister_def by (elim event_request_inv) blast+
next
  case ran
  then show ?case using event_run_inv [OF assms(1)] by fastforce
next
  case (read s ev buf e rc buf' ev' e')
  then have "ev' = ev \<or> stop_event_buffer_count ev \<noteq> 0 \<and>
      ev' = ev\<lparr>stop_event_buffer_count := stop_event_buffer_count ev - 1\<rparr>"
    by (auto simp: event_spe_stop_info_read_def Let_def split: if_splits prod.splits Option.bind_splits)
  then show ?case using read by (auto simp: event_inv_def pipe_inv_def)
qed

text \<open>
  C4: whatever the history of registrations, deregistrations, runs and reads, in whatever
  environment, the stop pipe is open exactly while it has users, the one-place buffer is empty
  while a handler is registered, and an event unit carries its own event bit or none.
\<close>

theorem event_history_invariant:
  assumes "pipe_kernel K" "event_reachable K s"
  shows "\<exists>ev. event_private s = Some ev \<and>
    (stop_event_pipe ev = (-1, -1) \<longleftrightarrow> stop_event_handler_count ev = 0) \<and>
    0 \<le> stop_event_handler_count ev \<and>
    (stop_event_handler_count ev \<noteq> 0 \<longrightarrow> 0 \<le> fst (stop_event_pipe ev) \<and> 0 \<le> snd (stop_event_pipe ev) \<and>
      stop_event_buffer_count ev = 0) \<and>
    stop_event_buffer_count ev \<in> {0, 1} \<and>
    (\<forall>k. ev_events (ev_units ev k) = 0 \<or> ev_events (ev_units ev k) = event_bit k)"
  using event_reachable_inv [OF assms] by (fastforce simp: event_inv_def pipe_inv_def)

text \<open>A kernel whose pipes are the descriptors 5 and 6.\<close>

definition sample_event_kernel :: "unit kernel" where
  "sample_event_kernel q s =
     (case q of
        Pipe \<Rightarrow> (reply_words 0 [5, 6], s)
      | EpollCtl epfd op fd p evs \<Rightarrow> (if fd = -1 then (reply_error EBADF, s) else (reply_ok 0, s))
      | _ \<Rightarrow> (reply_ok 7, s))"

abbreviation (input) event_context :: spe_context where
  "event_context \<equiv> blank_context\<lparr>flags := SPE_EVENTS_ENABLE\<rparr>"

definition stop_request :: spe_event_unit where
  "stop_request = \<lparr>ev_events = SPE_EVENT_SPE_STOPPED, ev_spe = 0x1000, ev_data = 42\<rparr>"

lemma sample_pipe_kernel: "pipe_kernel sample_event_kernel"
  by (simp add: pipe_kernel_def sample_event_kernel_def reply_error_def reply_words_def pipe_fds_def)

lemma sample_event_sys:
  "\<exists>e'. sys sample_event_kernel Pipe e = (reply_words 0 [5, 6], e')"
  "\<exists>e'. sys_rv sample_event_kernel (FcntlGetfl fd) e = (7, e')"
  "\<exists>e'. sys_rv sample_event_kernel (FcntlSetfl fd n) e = (7, e')"
  "\<exists>e'. sys_rv sample_event_kernel (Malloc k) e = (7, e')"
  "\<exists>e'. fd \<noteq> -1 \<longrightarrow> sys_rv sample_event_kernel (EpollCtl epfd op fd p evs) e = (0, e')"
  by (auto simp: sys_rv_def sys_def sample_event_kernel_def reply_words_def reply_ok_def)

lemma sample_acquire:
  assumes "stop_event_handler_count ev = 0"
  shows "\<exists>e'. stop_event_pipe_acquire sample_event_kernel ev e =
    (0, ev\<lparr>stop_event_pipe := (5, 6), stop_event_buffer_count := 0, stop_event_handler_count := 1\<rparr>, e')"
proof -
  obtain e1 where 1: "sys sample_event_kernel Pipe e = (reply_words 0 [5, 6], e1)"
    using sample_event_sys(1) by blast
  obtain e2 where 2: "sys_rv sample_event_kernel (FcntlGetfl 5) e1 = (7, e2)"
    using sample_event_sys(2) by blast
  obtain e3 where 3: "sys_rv sample_event_kernel (FcntlSetfl 5 (7 OR O_NONBLOCK)) e2 = (7, e3)"
    using sample_event_sys(3) by blast
  show ?thesis using assms 1 2 3
    by (simp add: stop_event_pipe_acquire_def stop_event_pipe_open_def reply_words_def pipe_fds_def)
qed

lemma sample_register_stopped:
  assumes "stop_event_handler_count ev = 0"
  shows "\<exists>ev' e'. register_stopped sample_event_kernel epfd d (c, ev, e) = (True, c, ev', e') \<and>
    stop_event_handler_count ev' = 1 \<and> stop_event_pipe ev' = (5, 6)"
proof -
  obtain e1 where a: "stop_event_pipe_acquire sample_event_kernel ev (stop_event_lock e) =
      (0, ev\<lparr>stop_event_pipe := (5, 6), stop_event_buffer_count := 0, stop_event_handler_count := 1\<rparr>, e1)"
    (is "_ = (0, ?ev, e1)")
    using sample_acquire [OF assms] by blast
  obtain e2 where "sys_rv sample_event_kernel (EpollCtl epfd EPOLL_CTL_ADD 5
      (ev_buf_ptr (set_unit EV_SPE_STOPPED d ?ev) EV_SPE_STOPPED) EPOLLIN) e1 = (0, e2)"
    using sample_event_sys(5) [of 5] by fastforce
  with a show ?thesis by (simp add: register_stopped_def Let_def)
qed

lemma event_sample_registered:
  "\<exists>s ev. event_reachable sample_event_kernel s \<and> event_private s = Some ev \<and>
    stop_event_handler_count ev = 1 \<and> stop_event_pipe ev = (5, 6)"
proof -
  let ?K = sample_event_kernel
  let ?e = "start_env Map.empty ()"
  obtain e1 where "sys_rv ?K (Malloc SIZEOF_EVENT_PRIV) ?e = (7, e1)" using sample_event_sys(4) by blast
  then obtain ev where i: "event_spe_context_initialize ?K event_context ?e = (Some ev, e1)"
    and ev: "stop_event_handler_count ev = 0"
    by (simp add: event_spe_context_initialize_def)
  obtain ev1 e2 where st: "register_stopped ?K 9 42 (event_context, ev, event_spe_context_lock ?e) =
      (True, event_context, ev1, e2)"
    and ev1: "stop_event_handler_count ev1 = 1" "stop_event_pipe ev1 = (5, 6)"
    using sample_register_stopped [OF ev] by blast
  have "event_spe_event_handler_register ?K (Some \<lparr>evh_ptr = 1, evh_epfd = 9\<rparr>)
      (Some stop_request) \<lparr>base = event_context, event_private = Some ev\<rparr> ?e =
      Some (0, \<lparr>base = event_context, event_private = Some ev1\<rparr>, event_spe_context_unlock e2)"
    using st by (simp add: event_spe_event_handler_register_def event_request_def register_events_def
        step_if_def stop_request_def has_flag_def)
  from event_reachable.registered [OF event_reachable.created [OF i] this] ev1 show ?thesis by fastforce
qed

theorem event_history_invariant_witness:
  "\<exists>s ev. event_reachable sample_event_kernel s \<and> event_private s = Some ev \<and>
    stop_event_handler_count ev = 1 \<and> stop_event_buffer_count ev = 0"
proof -
  obtain s ev where "event_reachable sample_event_kernel s" "event_private s = Some ev"
    "stop_event_handler_count ev = 1" using event_sample_registered by blast
  with event_history_invariant [OF sample_pipe_kernel, of s] show ?thesis by auto
qed

section \<open>Stop information as a queue\<close>

text \<open>
  The pipe as the reader and the writer see it: what is written is appended, a read takes some of
  what is there (perhaps less than asked for), \<open>EAGAIN\<close> if nothing is, and \<open>poll\<close> says when
  something is. \<open>st\<close> is the content of the pipe.
\<close>

definition stop_stream :: "'w kernel \<Rightarrow> int \<times> int \<Rightarrow> ('w \<Rightarrow> u8 list) \<Rightarrow> bool" where
  "stop_stream K p st \<longleftrightarrow>
     (\<forall>bs m x. st (snd (snd (K (Write (snd p) bs) (m, x)))) = st x @ bs) \<and>
     (\<forall>n m x. 0 < n \<longrightarrow> st x = [] \<longrightarrow>
        (case K (Read (fst p) n) (m, x) of (r, m', x') \<Rightarrow>
          rv r = -1 \<and> rerr r = Some EAGAIN \<and> st x' = [])) \<and>
     (\<forall>n m x. 0 < n \<longrightarrow> st x \<noteq> [] \<longrightarrow>
        (case K (Read (fst p) n) (m, x) of (r, m', x') \<Rightarrow>
          \<exists>k. 0 < k \<and> k \<le> n \<and> k \<le> length (st x) \<and> rv r = int k \<and>
            rbytes r = take k (st x) \<and> st x' = drop k (st x))) \<and>
     (\<forall>m x. st x \<noteq> [] \<longrightarrow>
        (case K (Poll (fst p) POLLIN (-1)) (m, x) of (r, m', x') \<Rightarrow> rv r = 1 \<and> st x' = st x))"

definition stop_queue ::
  "('w \<Rightarrow> u8 list) \<Rightarrow> event_priv \<Rightarrow> 'w env \<Rightarrow> spe_stop_info list \<Rightarrow> bool" where
  "stop_queue st ev e is \<longleftrightarrow>
     (if stop_event_pipe ev = (-1, -1)
      then is = (if stop_event_buffer_count ev = 0 then [] else [stop_event_buffer ev])
      else st (world e) = concat (map stop_info_bytes is))"

lemma length_stop_info_bytes [simp]: "length (stop_info_bytes i) = SIZEOF_STOP_INFO"
  by (simp add: stop_info_bytes_def)

lemma stop_streamD:
  assumes "stop_stream K p st"
  shows "st (snd (snd (K (Write (snd p) bs) (m, x)))) = st x @ bs"
    and "0 < n \<longrightarrow> st x = [] \<longrightarrow>
        (case K (Read (fst p) n) (m, x) of (r, m', x') \<Rightarrow>
          rv r = -1 \<and> rerr r = Some EAGAIN \<and> st x' = [])"
    and "0 < n \<longrightarrow> st x \<noteq> [] \<longrightarrow>
        (case K (Read (fst p) n) (m, x) of (r, m', x') \<Rightarrow>
          \<exists>k. 0 < k \<and> k \<le> n \<and> k \<le> length (st x) \<and> rv r = int k \<and>
            rbytes r = take k (st x) \<and> st x' = drop k (st x))"
    and "st x \<noteq> [] \<longrightarrow>
        (case K (Poll (fst p) POLLIN (-1)) (m, x) of (r, m', x') \<Rightarrow> rv r = 1 \<and> st x' = st x)"
proof -
  note d = assms [unfolded stop_stream_def]
  show "st (snd (snd (K (Write (snd p) bs) (m, x)))) = st x @ bs"
    by (rule d [THEN conjunct1, THEN spec, THEN spec, THEN spec])
  show "0 < n \<longrightarrow> st x = [] \<longrightarrow>
        (case K (Read (fst p) n) (m, x) of (r, m', x') \<Rightarrow>
          rv r = -1 \<and> rerr r = Some EAGAIN \<and> st x' = [])"
    by (rule d [THEN conjunct2, THEN conjunct1, THEN spec, THEN spec, THEN spec])
  show "0 < n \<longrightarrow> st x \<noteq> [] \<longrightarrow>
        (case K (Read (fst p) n) (m, x) of (r, m', x') \<Rightarrow>
          \<exists>k. 0 < k \<and> k \<le> n \<and> k \<le> length (st x) \<and> rv r = int k \<and>
            rbytes r = take k (st x) \<and> st x' = drop k (st x))"
    by (rule d [THEN conjunct2, THEN conjunct2, THEN conjunct1, THEN spec, THEN spec, THEN spec])
  show "st x \<noteq> [] \<longrightarrow>
        (case K (Poll (fst p) POLLIN (-1)) (m, x) of (r, m', x') \<Rightarrow> rv r = 1 \<and> st x' = st x)"
    by (rule d [THEN conjunct2, THEN conjunct2, THEN conjunct2, THEN spec, THEN spec])
qed

lemma read_stream:
  assumes "stop_stream K p st" "sys K (Read (fst p) n) e = (r, e')" "0 < n"
  shows "st (world e) = [] \<Longrightarrow> rv r = -1 \<and> errno e' = EAGAIN \<and> st (world e') = []"
    and "st (world e) \<noteq> [] \<Longrightarrow> \<exists>k. 0 < k \<and> k \<le> n \<and> k \<le> length (st (world e)) \<and> rv r = int k \<and>
      rbytes r = take k (st (world e)) \<and> st (world e') = drop k (st (world e))"
proof -
  obtain m' x' where k: "K (Read (fst p) n) (mem e, world e) = (r, m', x')"
    and e': "errno e' = (case rerr r of None \<Rightarrow> errno e | Some x \<Rightarrow> x)" "world e' = x'"
    using assms(2) by (auto simp: sys_def split: prod.splits)
  from stop_streamD(2) [OF assms(1), of n "world e" "mem e"] assms(3) k e'
  show "st (world e) = [] \<Longrightarrow> rv r = -1 \<and> errno e' = EAGAIN \<and> st (world e') = []"
    by simp
  from stop_streamD(3) [OF assms(1), of n "world e" "mem e"] assms(3) k e'
  show "st (world e) \<noteq> [] \<Longrightarrow> \<exists>k. 0 < k \<and> k \<le> n \<and> k \<le> length (st (world e)) \<and>
      rv r = int k \<and> rbytes r = take k (st (world e)) \<and> st (world e') = drop k (st (world e))"
    by simp
qed

lemma poll_stream:
  assumes "stop_stream K p st" "st (world e) \<noteq> []"
  shows "\<exists>e'. sys_rv K (Poll (fst p) POLLIN (-1)) e = (1, e') \<and> st (world e') = st (world e)"
  using stop_streamD(4) [OF assms(1), of "world e" "mem e"] assms(2)
  by (auto simp: sys_rv_def sys_def split: prod.splits)

lemma write_stream:
  assumes "stop_stream K p st" "sys_rv K (Write (snd p) bs) e = (n, e')"
  shows "st (world e') = st (world e) @ bs"
  using stop_streamD(1) [OF assms(1), of bs "mem e" "world e"] assms(2)
  by (auto simp: sys_rv_def sys_def split: prod.splits)

text \<open>The bytes a reader gets decode to the stop information that was written.\<close>

definition info_fits :: "spe_stop_info \<Rightarrow> bool" where
  "info_fits i \<longleftrightarrow> stop_result i \<in> {- (2 ^ 31)..<2 ^ 31} \<and> spu_status i \<in> {- (2 ^ 31)..<2 ^ 31}"

lemma stop_reason_roundtrip [simp]: "stop_reason_of_code (stop_reason_code r) = r"
  by (cases r rule: stop_reason_code.cases) (simp_all add: stop_reason_of_code_def)

lemma word_at_stop_info:
  "word_at (stop_info_bytes i) 0 = stop_reason_code (stop_reason i)"
  "word_at (stop_info_bytes i) 8 = of_int (stop_result i)"
  "word_at (stop_info_bytes i) 16 = of_int (spu_status i)"
  by (simp_all add: word_at_def stop_info_bytes_def)

lemma sint_of_int32: "n \<in> {- (2 ^ 31)..<2 ^ 31} \<Longrightarrow> sint (of_int n :: u32) = n"
  by (simp add: sint_sbintrunc' signed_take_bit_int_eq_self)

lemma stop_info_roundtrip: "info_fits i \<Longrightarrow> stop_info_of_bytes (stop_info_bytes i) = i"
  by (simp add: stop_info_of_bytes_def word_at_stop_info info_fits_def sint_of_int32)

lemma take_put_bytes:
  assumes "n + length bs \<le> length buf"
  shows "take (n + length bs) (put_bytes buf n bs) = take n buf @ bs"
    and "length (put_bytes buf n bs) = length buf"
  using assms by (simp_all add: put_bytes_def)

lemma read_rest_stream:
  assumes "stop_stream K p st" "length buf = SIZEOF_STOP_INFO" "length bs = SIZEOF_STOP_INFO"
    and "got \<le> SIZEOF_STOP_INFO" "take got buf = take got bs" "st (world e) = drop got bs @ rest" "rc \<noteq> -1"
  shows "\<exists>rc' e'. read_rest K (fst p) got rc buf e = Some (rc', bs, e') \<and> rc' \<noteq> -1 \<and>
    st (world e') = rest"
  using assms(2,4-)
proof (induction "SIZEOF_STOP_INFO - got" arbitrary: got rc buf e rule: less_induct)
  case less
  show ?case
  proof (cases "got = SIZEOF_STOP_INFO")
    case True
    with less.prems assms(3) show ?thesis by (subst read_rest.simps) simp
  next
    case False
    then have lt: "got < SIZEOF_STOP_INFO" using less.prems(2) by simp
    with less.prems(4) assms(3) have ne: "st (world e) \<noteq> []" by simp
    obtain e1 where pl: "sys_rv K (Poll (fst p) POLLIN (-1)) e = (1, e1)" "st (world e1) = st (world e)"
      using poll_stream [OF assms(1) ne] by blast
    obtain r e2 where rd: "sys K (Read (fst p) (SIZEOF_STOP_INFO - got)) e1 = (r, e2)" by fastforce
    obtain k where k: "0 < k" "k \<le> SIZEOF_STOP_INFO - got" "rv r = int k"
        "rbytes r = take k (st (world e))" "st (world e2) = drop k (st (world e))"
      using read_stream(2) [OF assms(1) rd] lt ne pl(2) by auto
    have new: "take k (rbytes r) = take k (drop got bs)"
      using k(2,4) less.prems(4) assms(3) by simp
    let ?buf = "put_bytes buf got (take k (rbytes r))"
    have lk: "length (take k (rbytes r)) = k" using new k(2) assms(3) by simp
    have b: "take (got + k) ?buf = take got buf @ take k (rbytes r)" "length ?buf = SIZEOF_STOP_INFO"
      using take_put_bytes [of got "take k (rbytes r)" buf] lk less.prems(1) k(2) lt by auto
    have "take (got + k) ?buf = take (got + k) bs"
      using b(1) new less.prems(3) by (simp add: take_add)
    moreover have "st (world e2) = drop (got + k) bs @ rest"
      using k(2,5) less.prems(4) assms(3) by (simp add: add.commute)
    moreover have "SIZEOF_STOP_INFO - (got + k) < SIZEOF_STOP_INFO - got" "got + k \<le> SIZEOF_STOP_INFO"
      "int k \<noteq> -1" using k lt by auto
    ultimately obtain rc' e' where "read_rest K (fst p) (got + k) (int k) ?buf e2 = Some (rc', bs, e')"
      "rc' \<noteq> -1" "st (world e') = rest" using less.hyps [of "got + k" ?buf e2 "int k"] b(2) by blast
    moreover have "read_rest K (fst p) got rc buf e = read_rest K (fst p) (got + k) (int k) ?buf e2"
      using lt pl rd k(3) by (subst read_rest.simps) simp
    ultimately show ?thesis by simp
  qed
qed

lemma stop_read_queue:
  assumes "stop_stream K (stop_event_pipe ev) st" "pipe_inv ev" "stop_event_buffer_count ev \<in> {0, 1}"
    and "stop_queue st ev e is" "length buf = SIZEOF_STOP_INFO"
  shows "case is of
      [] \<Rightarrow> \<exists>e'. event_spe_stop_info_read K ev buf e = Some (-1, buf, ev, e') \<and> errno e' = EAGAIN \<and>
        stop_queue st ev e' []
    | i # is' \<Rightarrow> \<exists>ev' e'. event_spe_stop_info_read K ev buf e = Some (0, stop_info_bytes i, ev', e') \<and>
        stop_queue st ev' e' is' \<and> stop_event_pipe ev' = stop_event_pipe ev \<and> pipe_inv ev' \<and>
        stop_event_buffer_count ev' \<in> {0, 1}"
proof (cases "stop_event_pipe ev = (-1, -1)")
  case True
  then show ?thesis using assms(2-4)
    by (auto simp: pipe_inv_def stop_queue_def event_spe_stop_info_read_def Let_def stop_event_lock_def
        stop_event_unlock_def)
next
  case False
  then have fd: "fst (stop_event_pipe ev) \<noteq> -1" using assms(2) by (auto simp: pipe_inv_def)
  have q: "st (world e) = concat (map stop_info_bytes is)" using False assms(4) by (simp add: stop_queue_def)
  obtain r e2 where rd: "sys K (Read (fst (stop_event_pipe ev)) SIZEOF_STOP_INFO) (stop_event_lock e) = (r, e2)"
    by fastforce
  note S = read_stream [OF assms(1) rd]
  show ?thesis
  proof (cases "is")
    case Nil
    with S(1) q fd rd False show ?thesis
      by (simp add: event_spe_stop_info_read_def Let_def stop_event_lock_def stop_event_unlock_def
          stop_queue_def)
  next
    case (Cons i is')
    let ?b = "stop_info_bytes i"
    have w: "st (world (stop_event_lock e)) = ?b @ concat (map stop_info_bytes is')"
      using q Cons by (simp add: stop_event_lock_def)
    then have "st (world (stop_event_lock e)) \<noteq> []" by (metis append_is_Nil_conv length_stop_info_bytes list.size(3) zero_neq_numeral)
    with S(2) obtain k where k: "0 < k" "k \<le> SIZEOF_STOP_INFO" "rv r = int k"
      "rbytes r = take k (st (world (stop_event_lock e)))"
      "st (world e2) = drop k (st (world (stop_event_lock e)))" by auto
    have new: "take k (rbytes r) = take k ?b" using k w by simp
    let ?buf = "put_bytes buf 0 (take k (rbytes r))"
    have "take k ?buf = take k ?b" "length ?buf = SIZEOF_STOP_INFO"
      using new take_put_bytes [of 0 "take k (rbytes r)" buf] assms(5) k(2) by auto
    moreover have "st (world e2) = drop k ?b @ concat (map stop_info_bytes is')" using k w by simp
    ultimately obtain rc' e' where "read_rest K (fst (stop_event_pipe ev)) k (int k) ?buf e2 = Some (rc', ?b, e')"
      "rc' \<noteq> -1" "st (world e') = concat (map stop_info_bytes is')"
      using read_rest_stream [OF assms(1), of ?buf ?b k e2 "concat (map stop_info_bytes is')" "int k"] k(2)
      by auto
    with fd rd k(3) False Cons assms(2,3) show ?thesis
      by (auto simp: event_spe_stop_info_read_def Let_def stop_queue_def stop_event_unlock_def)
  qed
qed

text \<open>
  reading the stop information takes the oldest one queued: all 24 bytes of it, however the
  pipe delivers them, which decode to what was written, and leaves the others; with none queued it is \<open>EAGAIN\<close> at once. The call
  always returns.
\<close>

theorem stop_info_read_dequeues:
  assumes "stop_stream K (stop_event_pipe ev) st" "pipe_inv ev" "stop_event_buffer_count ev \<in> {0, 1}"
    and "stop_queue st ev e is" "length buf = SIZEOF_STOP_INFO"
  shows "case is of
      [] \<Rightarrow> \<exists>e'. event_spe_stop_info_read K ev buf e = Some (-1, buf, ev, e') \<and> errno e' = EAGAIN \<and>
        stop_queue st ev e' []
    | i # is' \<Rightarrow> \<exists>ev' e'. event_spe_stop_info_read K ev buf e = Some (0, stop_info_bytes i, ev', e') \<and>
        stop_queue st ev' e' is' \<and> (info_fits i \<longrightarrow> stop_info_of_bytes (stop_info_bytes i) = i)"
  using stop_read_queue [OF assms] stop_info_roundtrip by (auto split: list.splits)

lemma event_run_queue:
  assumes "stop_stream K (stop_event_pipe ev) st" "pipe_inv ev" "event_private s = Some ev"
    and "base_spe_context_run K H hs (base s) ent rf argp envp info junk chain e = Some (rc, s1)"
    and "stop_queue st ev (run_env s1) is"
  shows "\<exists>ev' s'. event_spe_context_run K H hs s ent rf argp envp info junk chain e = Some (rc, ev', s') \<and>
    run_info s' = run_info s1 \<and> errno (run_env s') = errno (run_env s1) \<and> pipe_inv ev' \<and>
    stop_event_pipe ev' = stop_event_pipe ev \<and> stop_event_buffer_count ev' \<in> {stop_event_buffer_count ev, 1} \<and> run_c s' = run_c s1 \<and>
    stop_queue st ev' (run_env s')
      (if stop_event_pipe ev = (-1, -1) then [run_info s1] else is @ [run_info s1])"
proof (cases "stop_event_pipe ev = (-1, -1)")
  case True
  then show ?thesis using assms(2-5)
    by (auto simp: event_spe_context_run_def stop_queue_def stop_event_lock_def stop_event_unlock_def
        pipe_inv_def Let_def)
next
  case False
  then have p: "snd (stop_event_pipe ev) \<noteq> -1" "0 < stop_event_handler_count ev"
    using assms(2) by (auto simp: pipe_inv_def)
  then have a: "stop_event_pipe_acquire K ev e1 =
      (0, ev\<lparr>stop_event_handler_count := stop_event_handler_count ev + 1\<rparr>, e1)" for e1 :: "'a env"
    by (simp add: stop_event_pipe_acquire_def)
  have r: "stop_event_pipe_release K (ev\<lparr>stop_event_handler_count := stop_event_handler_count ev + 1\<rparr>) e1 =
      (ev, e1)" for e1 :: "'a env"
    using p by (simp add: stop_event_pipe_release_def)
  obtain n e3 where w: "sys_rv K (Write (snd (stop_event_pipe ev)) (stop_info_bytes (run_info s1)))
      (stop_event_unlock (stop_event_lock (run_env s1))) = (n, e3)" by fastforce
  have "st (world e3) = st (world (run_env s1)) @ stop_info_bytes (run_info s1)"
    using write_stream [OF assms(1) w] by (simp add: stop_event_lock_def stop_event_unlock_def)
  then show ?thesis using assms(2-5) p a r w False
    by (simp add: event_spe_context_run_def stop_queue_def stop_event_lock_def stop_event_unlock_def
        Let_def)
qed

text \<open>
  a run of a context with events returns what the run without events returns, with the same
  \<open>errno\<close>, and its stop information is queued: behind the earlier ones while a handler is
  registered, in place of the last one otherwise.
\<close>

theorem event_run_enqueues:
  assumes "stop_stream K (stop_event_pipe ev) st" "pipe_inv ev" "event_private s = Some ev"
    and "base_spe_context_run K H hs (base s) ent rf argp envp info junk chain e = Some (rc, s1)"
    and "stop_queue st ev (run_env s1) is"
  shows "\<exists>ev' s'. event_spe_context_run K H hs s ent rf argp envp info junk chain e = Some (rc, ev', s') \<and>
    run_info s' = run_info s1 \<and> errno (run_env s') = errno (run_env s1) \<and> pipe_inv ev' \<and>
    stop_event_pipe ev' = stop_event_pipe ev \<and>
    stop_queue st ev' (run_env s')
      (if stop_event_pipe ev = (-1, -1) then [run_info s1] else is @ [run_info s1])"
  using event_run_queue [OF assms] by blast

section \<open>Waiting\<close>

lemma copy_units_ok:
  assumes "\<forall>p\<in>set ps. \<exists>u. units p = Some u"
  shows "\<exists>e'. copy_units units ps e = Some (map (\<lambda>p. the (units p)) ps, e') \<and> ledgers e' = ledgers e"
  using assms
proof (induction ps arbitrary: e)
  case (Cons p ps)
  from Cons.prems obtain u where u: "units p = Some u" by auto
  obtain e' where "copy_units units ps (event_spe_context_unlock (event_spe_context_lock e)) =
      Some (map (\<lambda>p. the (units p)) ps, e')"
    "ledgers e' = ledgers (event_spe_context_unlock (event_spe_context_lock e))"
    using Cons.IH [of "event_spe_context_unlock (event_spe_context_lock e)"] Cons.prems by auto
  with u show ?case
    by (simp add: event_spe_context_unlock_def event_spe_context_lock_def ledgers_def resource_simps)
qed simp

text \<open>\<open>epoll_wait\<close> reports at most what it was asked for, and pointers that were registered.\<close>

definition epoll_answers :: "'w kernel \<Rightarrow> (addr \<rightharpoonup> spe_event_unit) \<Rightarrow> bool" where
  "epoll_answers K units \<longleftrightarrow>
     (\<forall>epfd n t x. 0 < n \<longrightarrow> (let r = fst (K (EpollWait epfd n t) x) in
        -1 \<le> rv r \<and> rv r \<le> n \<and> nat (rv r) \<le> length (rptrs r) \<and>
        (\<forall>p\<in>set (rptrs r). \<exists>u. units p = Some u)))"

text \<open>
  C34: a wait with a time limit makes one \<open>epoll_wait\<close> (none when its buffer cannot be allocated: then it returns
  -1). It returns -1 on an error of \<open>epoll_wait\<close>, 0 when time ran out or a signal came, otherwise the
  number of events, not above the caller's limit. The caller's array then holds the current contents of
  the event units whose addresses \<open>epoll_wait\<close> returned, one for each event and in its order, and the buffer of the
  call is freed.
\<close>

theorem event_wait_reports:
  assumes "epoll_answers K units" "0 < max_events" "0 \<le> timeout"
    and "sys_rv K (Malloc (16 * nat max_events)) e = (p, e1)"
    and "sys K (EpollWait (evh_epfd h) max_events timeout) e1 = (r, e2)"
  shows "\<exists>rc us e'. event_spe_event_wait K units (Some h) True max_events timeout e = Some (rc, us, e') \<and>
    ledgers e' = ledgers e \<and> -1 \<le> rc \<and> rc \<le> max_events \<and> length us = nat rc \<and>
    (if p \<le> 0 then rc = -1 \<and> e' = e1
     else rc = (if rv r = -1 then if errno e2 = EINTR then 0 else -1 else rv r) \<and>
       us = map (\<lambda>p. the (units p)) (take (nat (rv r)) (rptrs r)) \<and>
       (\<forall>p \<in> set (take (nat (rv r)) (rptrs r)). units p \<noteq> None))"
proof -
  obtain F M H where L: "ledgers e = (F, M, H)" by (cases "ledgers e")
  note L1 = ledgers_sys_rv [OF assms(4) L]
  show ?thesis
  proof (cases "p \<le> 0")
    case True
    with assms(2,4) L L1 show ?thesis
      by (intro exI [of _ "-1"] exI [of _ "[]"] exI [of _ e1])
        (auto simp: event_spe_event_wait_def)
  next
    case False
    let ?ps = "take (nat (rv r)) (rptrs r)"
    let ?rc = "if rv r = -1 then if errno e2 = EINTR then 0 else -1 else rv r"
    have "r = fst (K (EpollWait (evh_epfd h) max_events timeout) (mem e1, world e1))"
      using assms(5) by (auto simp: sys_def split: prod.splits)
    with assms(1) have r: "-1 \<le> rv r" "rv r \<le> max_events" "nat (rv r) \<le> length (rptrs r)"
      "\<forall>p\<in>set (rptrs r). \<exists>u. units p = Some u" using assms(2) by (auto simp: epoll_answers_def Let_def)
    then have ps: "\<forall>p\<in>set ?ps. \<exists>u. units p = Some u" "length ?ps = nat ?rc" by (auto dest: in_set_takeD)
    have w: "epoll_wait_loop K (evh_epfd h) max_events timeout e1 = Some (?rc, ?ps, e2)"
      using assms(3,5) by (subst epoll_wait_loop.simps) auto
    obtain e3 where c: "copy_units units ?ps e2 = Some (map (\<lambda>p. the (units p)) ?ps, e3)"
      "ledgers e3 = ledgers e2" using copy_units_ok [OF ps(1)] by blast
    have L3: "ledgers e3 = (F, M, add_mset (nat p) H)"
      using c(2) ledgers_sys [OF assms(5) L1] False by simp
    have f: "ledgers (snd (sys_rv K (Free (nat p)) e3)) = ledgers e"
      using ledgers_snd_sys_rv [OF L3, of "Free (nat p)"] L by simp
    have "event_spe_event_wait K units (Some h) True max_events timeout e =
        Some (?rc, map (\<lambda>p. the (units p)) ?ps, snd (sys_rv K (Free (nat p)) e3))"
      using assms(2,4) False w c(1) by (simp add: event_spe_event_wait_def)
    moreover have "-1 \<le> ?rc" "?rc \<le> max_events" "length (map (\<lambda>p. the (units p)) ?ps) = nat ?rc"
      using r(1,2) assms(2) ps(2) by auto
    moreover have "\<forall>p\<in>set ?ps. units p \<noteq> None" using ps(1) by auto
    ultimately show ?thesis using False f
      by (intro exI [of _ ?rc] exI [of _ "map (\<lambda>p. the (units p)) ?ps"] exI [of _ "snd (sys_rv K (Free (nat p)) e3)"] conjI)
        simp_all
  qed
qed

section \<open>What a registration does\<close>

abbreviation source_fd :: "event_type \<Rightarrow> fd_name" where
  "source_fd k \<equiv> (case k of EV_OUT_INTR_MBOX \<Rightarrow> FD_IBOX | EV_IN_MBOX \<Rightarrow> FD_WBOX | _ \<Rightarrow> FD_MFC)"

definition grows :: "'w env \<Rightarrow> 'w env \<Rightarrow> bool" where
  "grows e e' \<longleftrightarrow> set (trace e) \<subseteq> set (trace e')"

lemma grows_trans: "grows a b \<Longrightarrow> grows b c \<Longrightarrow> grows a c"
  by (auto simp: grows_def)

lemma sys_rv_grows: "sys_rv K q e = (n, e') \<Longrightarrow> grows e e' \<and> (q, n) \<in> set (trace e')"
  by (auto simp: grows_def dest: sys_rv_trace)

lemma acquire_source:
  assumes "base_spe_event_source_acquire K c f e = (fd, c', e')" "fd \<noteq> -1" "openat_positive K"
  shows "spe_fds_array c' f = fd" "g \<noteq> f \<Longrightarrow> spe_fds_array c' g = spe_fds_array c g"
    "spe_fds_refcount c' g = spe_fds_refcount c g + (if g = f then 1 else 0)" "grows e e'" "flags c' = flags c"
proof -
  from assms(1) have o: "base_spe_open_if_closed K c f False e = (fd, c', e')"
    by (simp add: base_spe_event_source_acquire_def)
  have "spe_fds_array c' f = fd \<and> (g \<noteq> f \<longrightarrow> spe_fds_array c' g = spe_fds_array c g) \<and>
    spe_fds_refcount c' g = spe_fds_refcount c g + (if g = f then 1 else 0) \<and> grows e e' \<and> flags c' = flags c"
    using o
  proof (cases rule: open_if_closed_cases)
    case opened
    from opened(4) assms(2,3) have "fd > 0" by (auto dest: sys_rv_openat)
    with opened show ?thesis by (auto simp: grows_def)
  qed (auto simp: grows_def)
  then show "spe_fds_array c' f = fd" "g \<noteq> f \<Longrightarrow> spe_fds_array c' g = spe_fds_array c g"
    "spe_fds_refcount c' g = spe_fds_refcount c g + (if g = f then 1 else 0)" "grows e e'" "flags c' = flags c"
    by blast+
qed

lemma step_if_ok:
  "step_if b f x = (True, s) \<Longrightarrow> \<exists>s0. x = (True, s0) \<and> (if b then f s0 = (True, s) else s = s0)"
  by (cases x) (auto simp: step_if_def split: if_splits)

text \<open>\<open>watched k epfd d c ev e\<close>: epoll watches source \<open>k\<close>, and reports it with data \<open>d\<close>.\<close>

definition watched :: "event_type \<Rightarrow> int \<Rightarrow> u64 \<Rightarrow> 'w event_state \<Rightarrow> bool" where
  "watched k epfd d s =
     (case s of (c, ev, e) \<Rightarrow>
        ev_events (ev_units ev k) = event_bit k \<and> ev_data (ev_units ev k) = d \<and>
        (\<exists>n. n \<noteq> -1 \<and> (EpollCtl epfd EPOLL_CTL_ADD
           (if k = EV_SPE_STOPPED then fst (stop_event_pipe ev) else spe_fds_array c (source_fd k))
           (ev_buf_ptr ev k) (if k = EV_IN_MBOX then EPOLLOUT else EPOLLIN), n) \<in> set (trace e)))"

lemma set_unit_same [simp]:
  "ev_events (ev_units (set_unit k d ev) j) = (if j = k then event_bit k else ev_events (ev_units ev j))"
  "ev_data (ev_units (set_unit k d ev) j) = (if j = k then d else ev_data (ev_units ev j))"
  "ev_buf_ptr (set_unit k d ev) j = ev_buf_ptr ev j"
  by (simp_all add: set_unit_def ev_buf_ptr_def)

lemma register_source_ok:
  assumes "register_source K epfd (source_fd k) k (if k = EV_IN_MBOX then EPOLLOUT else EPOLLIN) d (c, ev, e) =
      (True, c', ev', e')"
    and "k \<noteq> EV_SPE_STOPPED" "openat_positive K"
  shows "watched k epfd d (c', ev', e')"
    and "j \<noteq> k \<Longrightarrow> j \<noteq> EV_SPE_STOPPED \<Longrightarrow> watched j epfd d (c, ev, e) \<Longrightarrow> watched j epfd d (c', ev', e')"
    and "spe_fds_refcount c' g = spe_fds_refcount c g + (if g = source_fd k then 1 else 0)"
proof -
  obtain fd c1 e1 where a: "base_spe_event_source_acquire K c (source_fd k) e = (fd, c1, e1)"
    by (metis prod_cases3)
  have fd: "fd \<noteq> -1" using assms(1) a by (auto simp: register_source_def)
  note A = acquire_source [OF a fd assms(3)]
  obtain n e2 where s: "sys_rv K (EpollCtl epfd EPOLL_CTL_ADD fd (ev_buf_ptr ev k)
      (if k = EV_IN_MBOX then EPOLLOUT else EPOLLIN)) e1 = (n, e2)" by fastforce
  note S = sys_rv_grows [OF s]
  have r: "n \<noteq> -1" "c' = c1" "ev' = set_unit k d ev" "e' = e2"
    using assms(1) a fd s by (auto simp: register_source_def Let_def split: if_splits)
  show "watched k epfd d (c', ev', e')" using r S A(1) assms(2) by (auto simp: watched_def)
  show "spe_fds_refcount c' g = spe_fds_refcount c g + (if g = source_fd k then 1 else 0)"
    using r A(3) by simp
  show "watched j epfd d (c', ev', e')"
    if "j \<noteq> k" "j \<noteq> EV_SPE_STOPPED" "watched j epfd d (c, ev, e)"
  proof -
    have "source_fd j \<noteq> source_fd k" using that(1,2) assms(2) by (cases j; cases k) auto
    then have "spe_fds_array c' (source_fd j) = spe_fds_array c (source_fd j)" using A(2) r by simp
    moreover have "grows e e'" using A(4) S r grows_trans by blast
    ultimately show ?thesis using that r by (auto simp: watched_def grows_def)
  qed
qed

lemma watched_grows:
  assumes "watched j epfd d (c, ev, e)" "grows e e'" "evctx_ptr ev' = evctx_ptr ev" "j \<noteq> EV_SPE_STOPPED"
    and "ev_units ev' j = ev_units ev j" "spe_fds_array c' (source_fd j) = spe_fds_array c (source_fd j)"
  shows "watched j epfd d (c', ev', e')"
proof -
  obtain n where "n \<noteq> -1" "(EpollCtl epfd EPOLL_CTL_ADD (spe_fds_array c (source_fd j)) (ev_buf_ptr ev j)
      (if j = EV_IN_MBOX then EPOLLOUT else EPOLLIN), n) \<in> set (trace e)"
    using assms(1,4) by (auto simp: watched_def)
  then have "(EpollCtl epfd EPOLL_CTL_ADD (spe_fds_array c (source_fd j)) (ev_buf_ptr ev j)
      (if j = EV_IN_MBOX then EPOLLOUT else EPOLLIN), n) \<in> set (trace e')" "n \<noteq> -1"
    using assms(2) unfolding grows_def by blast+
  with assms(1,3-6) show ?thesis unfolding watched_def ev_buf_ptr_def by auto
qed

lemma pipe_close_same:
  assumes "stop_event_pipe_close K ev e = (ev', e')"
  shows "ev_units ev' = ev_units ev" "evctx_ptr ev' = evctx_ptr ev" "grows e e'"
proof -
  have t: "trace (snd (sys_rv K q e0)) = trace e0 @ [(q, fst (sys_rv K q e0))]" for q e0
    by (rule sys_rv_trace) simp
  show "ev_units ev' = ev_units ev" "evctx_ptr ev' = evctx_ptr ev" "grows e e'"
    using assms by (auto simp: stop_event_pipe_close_def grows_def Let_def t split: prod.splits if_splits)
qed

lemma pipe_open_same:
  assumes "stop_event_pipe_open K ev e = (rc, ev', e')"
  shows "ev_units ev' = ev_units ev" "evctx_ptr ev' = evctx_ptr ev" "grows e e'"
proof -
  obtain r e1 where 1: "sys K Pipe e = (r, e1)" by fastforce
  obtain n e2 where 2: "sys_rv K (FcntlGetfl (fst (pipe_fds r))) e1 = (n, e2)" by fastforce
  obtain k e3 where 3: "sys_rv K (FcntlSetfl (fst (pipe_fds r)) (n OR O_NONBLOCK)) e2 = (k, e3)" by fastforce
  have g: "grows e e1" using sys_trace [OF 1] by (auto simp: grows_def)
  note g2 = grows_trans [OF g conjunct1 [OF sys_rv_grows [OF 2]]]
  note g3 = grows_trans [OF g2 conjunct1 [OF sys_rv_grows [OF 3]]]
  have c: "ev_units ev'' = ev_units ev \<and> evctx_ptr ev'' = evctx_ptr ev \<and> grows e e''"
    if "stop_event_pipe_close K (ev\<lparr>stop_event_pipe := pipe_fds r\<rparr>) e0 = (ev'', e'')" "grows e e0"
    for ev'' e0 e''
    using pipe_close_same [OF that(1)] that(2) grows_trans by auto
  have "ev_units ev' = ev_units ev \<and> evctx_ptr ev' = evctx_ptr ev \<and> grows e e'"
    using assms 1 2 3 g g2 g3 c
    by (auto simp: stop_event_pipe_open_def Let_def split: if_splits prod.splits)
  then show "ev_units ev' = ev_units ev" "evctx_ptr ev' = evctx_ptr ev" "grows e e'" by blast+
qed

lemma pipe_acquire_same:
  assumes "stop_event_pipe_acquire K ev e = (rc, ev', e')"
  shows "ev_units ev' = ev_units ev" "evctx_ptr ev' = evctx_ptr ev" "grows e e'"
  using assms pipe_open_same
  by (fastforce simp: stop_event_pipe_acquire_def grows_def Let_def split: prod.splits if_splits)+

lemma register_stopped_ok:
  assumes "register_stopped K epfd d (c, ev, e) = (True, c', ev', e')"
  shows "watched EV_SPE_STOPPED epfd d (c', ev', e')" "c' = c"
    and "j \<noteq> EV_SPE_STOPPED \<Longrightarrow> watched j epfd d (c, ev, e) \<Longrightarrow> watched j epfd d (c', ev', e')"
proof -
  obtain rc ev1 e1 where a: "stop_event_pipe_acquire K ev (stop_event_lock e) = (rc, ev1, e1)"
    by (metis prod_cases3)
  obtain n e2 where s: "sys_rv K (EpollCtl epfd EPOLL_CTL_ADD (fst (stop_event_pipe ev1))
      (ev_buf_ptr ev1 EV_SPE_STOPPED) EPOLLIN) e1 = (n, e2)" by fastforce
  note S = sys_rv_grows [OF s]
  have r: "n \<noteq> -1" "rc \<noteq> -1" "c' = c" "ev' = set_unit EV_SPE_STOPPED d ev1" "e' = stop_event_unlock e2"
    using assms a s by (auto simp: register_stopped_def Let_def split: if_splits prod.splits)
  show "c' = c" by (rule r(3))
  show "watched EV_SPE_STOPPED epfd d (c', ev', e')"
    using r S by (auto simp: watched_def stop_event_unlock_def)
  have same: "ev_units ev1 = ev_units ev" "evctx_ptr ev1 = evctx_ptr ev" "grows e e1"
    using pipe_acquire_same [OF a] by (simp_all add: grows_def stop_event_lock_def)
  show "watched j epfd d (c', ev', e')" if "j \<noteq> EV_SPE_STOPPED" "watched j epfd d (c, ev, e)"
  proof (rule watched_grows [OF that(2) _ _ that(1)])
    have "grows e e2" using same(3) S grows_trans by blast
    then show "grows e e'" using r by (simp add: grows_def stop_event_unlock_def subset_insertI2)
  qed (use r same that(1) in \<open>simp_all add: set_unit_def\<close>)
qed

lemma deregister_source_ok:
  assumes "deregister_source K epfd f k (c, ev, e) = (True, c', ev', e')" "openat_positive K"
  shows "spe_fds_refcount c' g = spe_fds_refcount c g + (if g = f then 1 else 0)"
proof -
  obtain fd c1 e1 where a: "base_spe_event_source_acquire K c f e = (fd, c1, e1)" by (metis prod_cases3)
  then have "fd \<noteq> -1" "c' = c1"
    using assms(1) by (auto simp: deregister_source_def Let_def split: if_splits prod.splits)
  with acquire_source(3) [OF a _ assms(2)] show ?thesis by simp
qed

text \<open>The four parts of a successful call.\<close>

lemma register_events_parts:
  assumes "register_events K epfd evs d s = (True, s4)"
  obtains s1 s2 s3 where
    "if has_flag evs SPE_EVENT_OUT_INTR_MBOX
     then register_source K epfd FD_IBOX EV_OUT_INTR_MBOX EPOLLIN d s = (True, s1) else s1 = s"
    "if has_flag evs SPE_EVENT_IN_MBOX
     then register_source K epfd FD_WBOX EV_IN_MBOX EPOLLOUT d s1 = (True, s2) else s2 = s1"
    "if has_flag evs SPE_EVENT_TAG_GROUP
     then register_source K epfd FD_MFC EV_TAG_GROUP EPOLLIN d s2 = (True, s3) else s3 = s2"
    "if has_flag evs SPE_EVENT_SPE_STOPPED then register_stopped K epfd d s3 = (True, s4) else s4 = s3"
  using assms unfolding register_events_def by (fastforce dest!: step_if_ok)

lemma deregister_events_parts:
  assumes "deregister_events K epfd evs s = (True, s4)"
  obtains s1 s2 s3 where
    "if has_flag evs SPE_EVENT_OUT_INTR_MBOX
     then deregister_source K epfd FD_IBOX EV_OUT_INTR_MBOX s = (True, s1) else s1 = s"
    "if has_flag evs SPE_EVENT_IN_MBOX
     then deregister_source K epfd FD_WBOX EV_IN_MBOX s1 = (True, s2) else s2 = s1"
    "if has_flag evs SPE_EVENT_TAG_GROUP
     then deregister_source K epfd FD_MFC EV_TAG_GROUP s2 = (True, s3) else s3 = s2"
    "if has_flag evs SPE_EVENT_SPE_STOPPED then deregister_stopped K epfd s3 = (True, s4) else s4 = s3"
  using assms unfolding deregister_events_def by (fastforce dest!: step_if_ok)

lemma event_request_ok:
  assumes "event_request (Some h) (Some u) s e op = Some (0, s', e')"
  obtains ev c' ev' e1 where "event_private s = Some ev"
    "op (evh_epfd h) u (base s, ev, event_spe_context_lock e) = (True, c', ev', e1)"
    "s' = \<lparr>base = c', event_private = Some ev'\<rparr>" "e' = event_spe_context_unlock e1"
    "ev_events u AND NOT SPE_EVENT_ALL = 0"
proof -
  obtain ev where ev: "event_private s = Some ev"
    using assms by (auto simp: event_request_def split: if_splits option.splits)
  obtain ok c' ev' e1 where o: "op (evh_epfd h) u (base s, ev, event_spe_context_lock e) = (ok, c', ev', e1)"
    by (metis prod_cases4)
  show thesis
    using assms ev o
    by (intro that [of ev c' ev' e1])
      (simp_all add: event_request_def has_flag_def Let_def split: if_splits)
qed

text \<open>
  a registration that returns 0 has every source of the request watched: the descriptor of
  the source (the file of the context, or the read end of the stop pipe) is added to the
  handler's epoll set for the right direction, with the address of an event unit that carries the
  source's event bit and the caller's data.
\<close>

theorem event_register_watches:
  assumes "openat_positive K" "event_spe_event_handler_register K (Some h) (Some u) s e = Some (0, s', e')"
    and "has_flag (ev_events u) (event_bit k)"
  shows "\<exists>ev'. event_private s' = Some ev' \<and> watched k (evh_epfd h) (ev_data u) (base s', ev', e')"
proof -
  obtain ev c4 ev4 e4 where s: "event_private s = Some ev"
    "register_events K (evh_epfd h) (ev_events u) (ev_data u) (base s, ev, event_spe_context_lock e) =
      (True, c4, ev4, e4)"
    "s' = \<lparr>base = c4, event_private = Some ev4\<rparr>" "e' = event_spe_context_unlock e4"
    using assms(2) unfolding event_spe_event_handler_register_def by (rule event_request_ok)
  let ?w = "\<lambda>j. watched j (evh_epfd h) (ev_data u)" and ?b = "\<lambda>j. has_flag (ev_events u) (event_bit j)"
  obtain s1 s2 s3 where p:
    "if ?b EV_OUT_INTR_MBOX then register_source K (evh_epfd h) FD_IBOX EV_OUT_INTR_MBOX EPOLLIN (ev_data u)
        (base s, ev, event_spe_context_lock e) = (True, s1) else s1 = (base s, ev, event_spe_context_lock e)"
    "if ?b EV_IN_MBOX then register_source K (evh_epfd h) FD_WBOX EV_IN_MBOX EPOLLOUT (ev_data u) s1 = (True, s2)
      else s2 = s1"
    "if ?b EV_TAG_GROUP then register_source K (evh_epfd h) FD_MFC EV_TAG_GROUP EPOLLIN (ev_data u) s2 = (True, s3)
      else s3 = s2"
    "if ?b EV_SPE_STOPPED then register_stopped K (evh_epfd h) (ev_data u) s3 = (True, c4, ev4, e4)
      else (c4, ev4, e4) = s3"
    by (rule register_events_parts [OF s(2)]) auto
  obtain c1 ev1 e1 c2 ev2 e2 c3 ev3 e3 where t: "s1 = (c1, ev1, e1)" "s2 = (c2, ev2, e2)" "s3 = (c3, ev3, e3)"
    by (metis prod_cases3)
  note R1 = register_source_ok [where k = EV_OUT_INTR_MBOX, OF _ _ assms(1), simplified]
  note R2 = register_source_ok [where k = EV_IN_MBOX, OF _ _ assms(1), simplified]
  note R3 = register_source_ok [where k = EV_TAG_GROUP, OF _ _ assms(1), simplified]
  have 1: "?b EV_OUT_INTR_MBOX \<longrightarrow> ?w EV_OUT_INTR_MBOX s1" using p(1) t R1(1) by auto
  have 2: "?b EV_IN_MBOX \<longrightarrow> ?w EV_IN_MBOX s2" "?w EV_OUT_INTR_MBOX s1 \<longrightarrow> ?w EV_OUT_INTR_MBOX s2"
    using p(2) t R2(1) R2(2) [of _ _ _ _ _ _ _ _ EV_OUT_INTR_MBOX] by (auto split: if_splits)
  have 3: "?b EV_TAG_GROUP \<longrightarrow> ?w EV_TAG_GROUP s3"
    "j = EV_OUT_INTR_MBOX \<or> j = EV_IN_MBOX \<Longrightarrow> ?w j s2 \<longrightarrow> ?w j s3" for j
    using p(3) t R3(1) R3(2) [of _ _ _ _ _ _ _ _ j] by (auto split: if_splits)
  have 4: "?b EV_SPE_STOPPED \<longrightarrow> ?w EV_SPE_STOPPED (c4, ev4, e4)"
    "j \<noteq> EV_SPE_STOPPED \<Longrightarrow> ?w j s3 \<longrightarrow> ?w j (c4, ev4, e4)" for j
    using p(4) t register_stopped_ok by (auto split: if_splits)
  have "?w k (c4, ev4, e4)"
    using assms(3) 1 2 3(1) 3(2) [of EV_OUT_INTR_MBOX] 3(2) [of EV_IN_MBOX] 4(1) 4(2) [of EV_OUT_INTR_MBOX]
      4(2) [of EV_IN_MBOX] 4(2) [of EV_TAG_GROUP] by (cases k) auto
  with s(3,4) show ?thesis by (auto simp: watched_def event_spe_context_unlock_def)
qed

lemma register_users:
  assumes "openat_positive K" "register_events K epfd evs d (c, ev, e) = (True, c', ev', e')"
    and "k \<noteq> EV_SPE_STOPPED" "has_flag evs (event_bit k)"
  shows "spe_fds_refcount c' (source_fd k) = spe_fds_refcount c (source_fd k) + 1"
proof -
  note R = register_source_ok(3) [where k = EV_OUT_INTR_MBOX, OF _ _ assms(1), simplified]
    register_source_ok(3) [where k = EV_IN_MBOX, OF _ _ assms(1), simplified]
    register_source_ok(3) [where k = EV_TAG_GROUP, OF _ _ assms(1), simplified]
  obtain s1 s2 s3 where p:
    "if has_flag evs SPE_EVENT_OUT_INTR_MBOX
     then register_source K epfd FD_IBOX EV_OUT_INTR_MBOX EPOLLIN d (c, ev, e) = (True, s1) else s1 = (c, ev, e)"
    "if has_flag evs SPE_EVENT_IN_MBOX
     then register_source K epfd FD_WBOX EV_IN_MBOX EPOLLOUT d s1 = (True, s2) else s2 = s1"
    "if has_flag evs SPE_EVENT_TAG_GROUP
     then register_source K epfd FD_MFC EV_TAG_GROUP EPOLLIN d s2 = (True, s3) else s3 = s2"
    "if has_flag evs SPE_EVENT_SPE_STOPPED then register_stopped K epfd d s3 = (True, c', ev', e')
     else (c', ev', e') = s3"
    by (rule register_events_parts [OF assms(2)]) auto
  obtain c1 ev1 e1 c2 ev2 e2 c3 ev3 e3 where t: "s1 = (c1, ev1, e1)" "s2 = (c2, ev2, e2)" "s3 = (c3, ev3, e3)"
    by (metis prod_cases3)
  let ?one = "\<lambda>b. if b then 1 else 0 :: int"
  have "spe_fds_refcount c1 g = spe_fds_refcount c g + ?one (has_flag evs SPE_EVENT_OUT_INTR_MBOX \<and> g = FD_IBOX)"
    "spe_fds_refcount c2 g = spe_fds_refcount c1 g + ?one (has_flag evs SPE_EVENT_IN_MBOX \<and> g = FD_WBOX)"
    "spe_fds_refcount c3 g = spe_fds_refcount c2 g + ?one (has_flag evs SPE_EVENT_TAG_GROUP \<and> g = FD_MFC)"
    "c' = c3" for g
    using p(1) R(1) [of epfd d c ev e c1 ev1 e1 g] p(2) R(2) [of epfd d c1 ev1 e1 c2 ev2 e2 g]
      p(3) R(3) [of epfd d c2 ev2 e2 c3 ev3 e3 g] p(4) register_stopped_ok(2) t
    by (auto split: if_splits)
  with assms(3,4) show ?thesis by (cases k) auto
qed

lemma deregister_users:
  assumes "openat_positive K" "deregister_events K epfd evs (c, ev, e) = (True, c', ev', e')"
    and "k \<noteq> EV_SPE_STOPPED" "has_flag evs (event_bit k)"
  shows "spe_fds_refcount c' (source_fd k) = spe_fds_refcount c (source_fd k) + 1"
proof -
  note R = deregister_source_ok [OF _ assms(1)]
  obtain s1 s2 s3 where p:
    "if has_flag evs SPE_EVENT_OUT_INTR_MBOX
     then deregister_source K epfd FD_IBOX EV_OUT_INTR_MBOX (c, ev, e) = (True, s1) else s1 = (c, ev, e)"
    "if has_flag evs SPE_EVENT_IN_MBOX
     then deregister_source K epfd FD_WBOX EV_IN_MBOX s1 = (True, s2) else s2 = s1"
    "if has_flag evs SPE_EVENT_TAG_GROUP
     then deregister_source K epfd FD_MFC EV_TAG_GROUP s2 = (True, s3) else s3 = s2"
    "if has_flag evs SPE_EVENT_SPE_STOPPED then deregister_stopped K epfd s3 = (True, c', ev', e')
     else (c', ev', e') = s3"
    by (rule deregister_events_parts [OF assms(2)]) auto
  obtain c1 ev1 e1 c2 ev2 e2 c3 ev3 e3 where t: "s1 = (c1, ev1, e1)" "s2 = (c2, ev2, e2)" "s3 = (c3, ev3, e3)"
    by (metis prod_cases3)
  let ?one = "\<lambda>b. if b then 1 else 0 :: int"
  have "spe_fds_refcount c1 g = spe_fds_refcount c g + ?one (has_flag evs SPE_EVENT_OUT_INTR_MBOX \<and> g = FD_IBOX)"
    "spe_fds_refcount c2 g = spe_fds_refcount c1 g + ?one (has_flag evs SPE_EVENT_IN_MBOX \<and> g = FD_WBOX)"
    "spe_fds_refcount c3 g = spe_fds_refcount c2 g + ?one (has_flag evs SPE_EVENT_TAG_GROUP \<and> g = FD_MFC)"
    "c' = c3" for g
    using p R [of epfd FD_IBOX EV_OUT_INTR_MBOX c ev e c1 ev1 e1 g]
      R [of epfd FD_WBOX EV_IN_MBOX c1 ev1 e1 c2 ev2 e2 g] R [of epfd FD_MFC EV_TAG_GROUP c2 ev2 e2 c3 ev3 e3 g] t
    by (auto simp: deregister_stopped_def Let_def split: if_splits prod.splits)
  with assms(3,4) show ?thesis by (cases k) auto
qed

text \<open>
  C36: deregistering an event acquires its file once more and releases it never: a registration
  and its deregistration leave the file two users that do not exist, so it stays open until the
  context is destroyed. \<open>_base_spe_event_source_release\<close> is called nowhere.
\<close>

theorem event_sources_never_released:
  assumes "openat_positive K" "k \<noteq> EV_SPE_STOPPED" "has_flag (ev_events u) (event_bit k)"
    and "event_spe_event_handler_register K (Some h) (Some u) s e = Some (0, s1, e1)"
    and "event_spe_event_handler_deregister K (Some h) (Some u) s1 e2 = Some (0, s2, e3)"
  shows "spe_fds_refcount (base s2) (source_fd k) = spe_fds_refcount (base s) (source_fd k) + 2"
proof -
  from assms(4) have "spe_fds_refcount (base s1) (source_fd k) = spe_fds_refcount (base s) (source_fd k) + 1"
    unfolding event_spe_event_handler_register_def
    by (rule event_request_ok) (use register_users [OF assms(1) _ assms(2,3)] in auto)
  moreover from assms(5) have
    "spe_fds_refcount (base s2) (source_fd k) = spe_fds_refcount (base s1) (source_fd k) + 1"
    unfolding event_spe_event_handler_deregister_def
    by (rule event_request_ok) (use deregister_users [OF assms(1) _ assms(2,3)] in auto)
  ultimately show ?thesis by simp
qed

section \<open>Handlers\<close>

text \<open>
  an event handler is its heap block and its epoll descriptor: a create that fails leaves
  neither, and destroying a handler gives back both.
\<close>

theorem event_handler_balanced:
  assumes "\<forall>n x. -1 \<le> rv (fst (K (EpollCreate n) x))"
  shows "case event_spe_event_handler_create K e of (h, e1) \<Rightarrow>
    (case h of
       None \<Rightarrow> ledgers e1 = ledgers e
     | Some _ \<Rightarrow> fst (event_spe_event_handler_destroy K h e1) = 0 \<and>
         ledgers (snd (event_spe_event_handler_destroy K h e1)) = ledgers e)"
proof -
  obtain F M H where L: "ledgers e = (F, M, H)" by (cases "ledgers e")
  obtain p e1 where m: "sys_rv K (Malloc 4) e = (p, e1)" by fastforce
  note L1 = ledgers_sys_rv [OF m L]
  show ?thesis
  proof (cases "p \<le> 0")
    case True
    with m L L1 show ?thesis by (simp add: event_spe_event_handler_create_def)
  next
    case False
    obtain n e2 where c: "sys_rv K (EpollCreate 10) e1 = (n, e2)" by fastforce
    have "n = rv (fst (K (EpollCreate 10) (mem e1, world e1)))"
      using c by (auto simp: sys_rv_def sys_def split: prod.splits)
    with assms have n: "-1 \<le> n" by simp
    note L2 = ledgers_sys_rv [OF c L1]
    show ?thesis
    proof (cases "n = -1")
      case True
      with False m c ledgers_snd_sys_rv [OF L2, of "Free (nat p)"] L show ?thesis
        by (simp add: event_spe_event_handler_create_def)
    next
      case ok: False
      with n False L2 have "ledgers e2 = (add_mset n F, M, add_mset (nat p) H)" by simp
      from ledgers_snd_sys_rv [OF this, of "Close n"]
      have "ledgers (snd (sys_rv K (Close n) e2)) = (F, M, add_mset (nat p) H)" by simp
      from ledgers_snd_sys_rv [OF this, of "Free (nat p)"]
      have "ledgers (snd (sys_rv K (Free (nat p)) (snd (sys_rv K (Close n) e2)))) = (F, M, H)" by simp
      with False ok m c L show ?thesis
        by (simp add: event_spe_event_handler_create_def event_spe_event_handler_destroy_def Let_def)
    qed
  qed
qed

theorem event_handler_balanced_witness:
  "fst (event_spe_event_handler_destroy (const_kernel (reply_ok 5))
      (fst (event_spe_event_handler_create (const_kernel (reply_ok 5)) (start_env Map.empty ())))
      (snd (event_spe_event_handler_create (const_kernel (reply_ok 5)) (start_env Map.empty ())))) = 0"
  using event_handler_balanced [of "const_kernel (reply_ok 5) :: unit kernel" "start_env Map.empty ()"]
  by (simp add: event_spe_event_handler_create_def sys_rv_def sys_def sample_simps)

section \<open>Examples\<close>

definition mbox_request :: spe_event_unit where
  "mbox_request = \<lparr>ev_events = SPE_EVENT_OUT_INTR_MBOX, ev_spe = 0x1000, ev_data = 42\<rparr>"

definition sample_event_priv :: event_priv where
  "sample_event_priv = \<lparr>evctx_ptr = 0x2000, stop_event_pipe = (-1, -1), stop_event_handler_count = 0,
     stop_event_buffer_count = 0, stop_event_buffer = zero_stop_info,
     ev_units = (\<lambda>_. \<lparr>ev_events = 0, ev_spe = 0x1000, ev_data = 0\<rparr>)\<rparr>"

abbreviation (input) event_object :: spe_object where
  "event_object \<equiv> \<lparr>base = event_context, event_private = Some sample_event_priv\<rparr>"

abbreviation (input) sample_handler :: event_handler where
  "sample_handler \<equiv> \<lparr>evh_ptr = 1, evh_epfd = 9\<rparr>"

lemma sample_openat: "openat_positive sample_event_kernel"
  by (simp add: openat_positive_def sample_event_kernel_def reply_ok_def)

lemma sample_acquire_source:
  "\<exists>fd c' e'. base_spe_event_source_acquire sample_event_kernel c f e = (fd, c', e') \<and> fd \<noteq> -1 \<and>
    flags c' = flags c"
proof -
  obtain fd c' e' where o: "base_spe_open_if_closed sample_event_kernel c f False e = (fd, c', e')"
    by (metis prod_cases3)
  then have "fd \<noteq> -1 \<and> flags c' = flags c"
  proof (cases rule: open_if_closed_cases)
    case opened
    then have "fd = 7" by (auto simp: sys_rv_def sys_def sample_event_kernel_def reply_ok_def)
    with opened show ?thesis by simp
  qed simp
  with o show ?thesis by (simp add: base_spe_event_source_acquire_def)
qed

lemma sample_source:
  assumes "\<not> has_flag (flags c) SPE_MAP_PS"
  shows "\<exists>c' ev' e'. register_source sample_event_kernel epfd f k evs d (c, ev, e) = (True, c', ev', e') \<and>
      flags c' = flags c"
    and "\<exists>c' ev' e'. deregister_source sample_event_kernel epfd f k (c, ev, e) = (True, c', ev', e')"
proof -
  obtain fd c' e' where a: "base_spe_event_source_acquire sample_event_kernel c f e = (fd, c', e')"
    "fd \<noteq> -1" "flags c' = flags c" using sample_acquire_source by blast
  note S = sample_event_sys(5) [of fd epfd]
  from a S [of EPOLL_CTL_ADD "ev_buf_ptr (set_unit k d ev) k" evs e'] assms
  show "\<exists>c' ev' e'. register_source sample_event_kernel epfd f k evs d (c, ev, e) = (True, c', ev', e') \<and>
      flags c' = flags c"
    by (auto simp: register_source_def)
  from a S [of EPOLL_CTL_DEL NULL 0 e']
  show "\<exists>c' ev' e'. deregister_source sample_event_kernel epfd f k (c, ev, e) = (True, c', ev', e')"
    by (auto simp: deregister_source_def)
qed

lemma sample_register:
  "\<exists>s1 e1. event_spe_event_handler_register sample_event_kernel (Some sample_handler) (Some mbox_request)
      event_object e = Some (0, s1, e1) \<and> event_private s1 \<noteq> None \<and> flags (base s1) = SPE_EVENTS_ENABLE"
proof -
  have "\<not> has_flag (flags event_context) SPE_MAP_PS" by (simp add: has_flag_def)
  from sample_source(1) [OF this, of 9 FD_IBOX EV_OUT_INTR_MBOX EPOLLIN 42 sample_event_priv
      "event_spe_context_lock e"]
  show ?thesis
    by (auto simp: event_spe_event_handler_register_def event_request_def register_events_def step_if_def
        mbox_request_def has_flag_def)
qed

lemma sample_deregister:
  assumes "event_private s \<noteq> None" "flags (base s) = SPE_EVENTS_ENABLE"
  shows "\<exists>s1 e1. event_spe_event_handler_deregister sample_event_kernel (Some sample_handler)
      (Some mbox_request) s e = Some (0, s1, e1)"
proof -
  obtain ev where ev: "event_private s = Some ev" using assms(1) by blast
  have "\<not> has_flag (flags (base s)) SPE_MAP_PS" by (simp add: assms(2) has_flag_def)
  from sample_source(2) [OF this, of 9 FD_IBOX EV_OUT_INTR_MBOX ev "event_spe_context_lock e"] ev assms(2)
  show ?thesis
    by (auto simp: event_spe_event_handler_deregister_def event_request_def deregister_events_def step_if_def
        mbox_request_def has_flag_def)
qed

theorem event_register_watches_witness:
  "\<exists>s1 ev1 e1. event_spe_event_handler_register sample_event_kernel (Some sample_handler) (Some mbox_request)
      event_object (start_env Map.empty ()) = Some (0, s1, e1) \<and> event_private s1 = Some ev1 \<and>
    watched EV_OUT_INTR_MBOX 9 42 (base s1, ev1, e1)"
proof -
  obtain s1 and e1 :: "unit env" where r: "event_spe_event_handler_register sample_event_kernel
      (Some sample_handler) (Some mbox_request) event_object (start_env Map.empty ()) = Some (0, s1, e1)"
    using sample_register by blast
  moreover have "has_flag (ev_events mbox_request) (event_bit EV_OUT_INTR_MBOX)"
    by (simp add: mbox_request_def has_flag_def)
  ultimately show ?thesis using event_register_watches [OF sample_openat r]
    by (fastforce simp: mbox_request_def)
qed

theorem event_sources_never_released_witness:
  "\<exists>s1 s2 e1 e3. event_spe_event_handler_register sample_event_kernel (Some sample_handler)
      (Some mbox_request) event_object (start_env Map.empty ()) = Some (0, s1, e1) \<and>
    event_spe_event_handler_deregister sample_event_kernel (Some sample_handler) (Some mbox_request) s1 e1 =
      Some (0, s2, e3) \<and>
    spe_fds_refcount (base s2) FD_IBOX = 2"
proof -
  obtain s1 and e1 :: "unit env" where r: "event_spe_event_handler_register sample_event_kernel
      (Some sample_handler) (Some mbox_request) event_object (start_env Map.empty ()) = Some (0, s1, e1)"
    "event_private s1 \<noteq> None" "flags (base s1) = SPE_EVENTS_ENABLE"
    using sample_register by blast
  obtain s2 and e3 :: "unit env" where d: "event_spe_event_handler_deregister sample_event_kernel
      (Some sample_handler) (Some mbox_request) s1 e1 = Some (0, s2, e3)"
    using sample_deregister [OF r(2,3)] by blast
  have "has_flag (ev_events mbox_request) (event_bit EV_OUT_INTR_MBOX)"
    by (simp add: mbox_request_def has_flag_def)
  from event_sources_never_released [OF sample_openat _ this r(1) d] r(1) d show ?thesis
    by (fastforce simp: blank_context_def)
qed

text \<open>A pipe that hands out seven bytes at a time, and an epoll set with one event ready.\<close>

definition sample_pipe :: "u8 list kernel" where
  "sample_pipe q s =
     (case s of (m, bs) \<Rightarrow>
       case q of
         Write fd xs \<Rightarrow> (reply_ok (int (length xs)), m, bs @ xs)
       | Read fd n \<Rightarrow>
           (if bs = [] then (reply_error EAGAIN, m, [])
            else ((reply_ok (int (min (min 7 n) (length bs))))\<lparr>rbytes := take (min (min 7 n) (length bs)) bs\<rparr>,
              m, drop (min (min 7 n) (length bs)) bs))
       | Poll fd evs t \<Rightarrow> (reply_ok 1, m, bs)
       | _ \<Rightarrow> (reply_error EINVAL, m, bs))"

lemma sample_pipe_stream: "stop_stream sample_pipe p (\<lambda>x. x)"
proof -
  have "\<exists>k. 0 < k \<and> k \<le> n \<and> k \<le> length bs \<and> int (min (min 7 n) (length bs)) = int k \<and>
      take (min (min 7 n) (length bs)) bs = take k bs \<and> drop (min (min 7 n) (length bs)) bs = drop k bs"
    if "0 < n" "bs \<noteq> []" for n and bs :: "u8 list"
    using that by (intro exI [of _ "min (min 7 n) (length bs)"]) simp
  then show ?thesis
    by (simp add: stop_stream_def sample_pipe_def reply_error_def reply_ok_def)
qed

definition sample_info :: spe_stop_info where
  "sample_info = \<lparr>stop_reason = Some SPE_EXIT, stop_result = 3, spu_status = 0x20030002\<rparr>"

theorem stop_info_read_dequeues_witness:
  "\<exists>ev' e'. event_spe_stop_info_read sample_pipe (sample_event_priv\<lparr>stop_event_pipe := (5, 6),
      stop_event_handler_count := 1\<rparr>) (replicate 24 0) (start_env Map.empty (stop_info_bytes sample_info)) =
      Some (0, stop_info_bytes sample_info, ev', e') \<and>
    stop_info_of_bytes (stop_info_bytes sample_info) = sample_info"
proof -
  let ?ev = "sample_event_priv\<lparr>stop_event_pipe := (5, 6), stop_event_handler_count := 1\<rparr>"
  let ?e = "start_env Map.empty (stop_info_bytes sample_info)"
  have q: "stop_queue (\<lambda>x. x) ?ev ?e [sample_info]" by (simp add: stop_queue_def start_env_def)
  have "pipe_inv ?ev" "stop_event_buffer_count ?ev \<in> {0, 1}" "info_fits sample_info"
    by (simp_all add: pipe_inv_def sample_event_priv_def info_fits_def sample_info_def)
  with stop_info_read_dequeues [OF sample_pipe_stream _ _ q, of "replicate 24 0"] show ?thesis by auto
qed

definition sample_epoll :: "unit kernel" where
  "sample_epoll q s =
     (case q of
        EpollWait epfd n t \<Rightarrow> (if 0 < n then (reply_ok 1)\<lparr>rptrs := [0x2078]\<rparr> else reply_ok 0, s)
      | _ \<Rightarrow> (reply_ok 0x3000, s))"

theorem event_wait_reports_witness:
  "\<exists>e'. event_spe_event_wait sample_epoll [0x2078 \<mapsto> mbox_request] (Some sample_handler) True 4 100
      (start_env Map.empty ()) = Some (1, [mbox_request], e') \<and> ledgers e' = ({#}, {#}, {#})"
proof -
  let ?e = "start_env Map.empty () :: unit env"
  have a: "epoll_answers sample_epoll [0x2078 \<mapsto> mbox_request]"
    by (auto simp: epoll_answers_def sample_epoll_def reply_ok_def Let_def)
  obtain p e1 where p: "sys_rv sample_epoll (Malloc (16 * nat 4)) ?e = (p, e1)" by fastforce
  then have "0 < p" by (auto simp: sys_rv_def sys_def sample_epoll_def reply_ok_def)
  moreover obtain r e2 where r: "sys sample_epoll (EpollWait (evh_epfd sample_handler) 4 100) e1 = (r, e2)" by fastforce
  then have "rv r = 1" "rptrs r = [0x2078]" by (auto simp: sys_def sample_epoll_def reply_ok_def)
  ultimately show ?thesis using event_wait_reports [OF a _ _ p r]
    by (auto simp: ledgers_def start_env_def open_fds_def live_maps_def live_heap_def)
qed

lemma sample_pipe_run:
  "\<exists>s1. base_spe_context_run sample_pipe (\<lambda>_ _ _ _. None) initial_handlers (base event_object) 0x100 0 0 0
      sample_info 0 [] (start_env Map.empty []) = Some (-1, s1) \<and> world (run_env s1) = []"
  by (simp add: context_run_unfold first_entry_def blank_context_def start_program_def has_flag_def)
    (subst do_run.simps, simp add: do_run_step_def spu_run_def sys_def sample_pipe_def sample_simps
      classify_def Let_def has_flag_def freespeinfo_def cleanupspeinfo_def with_errno_def report_def
      with_status_def)

theorem event_run_enqueues_witness:
  "\<exists>ev' (s1 :: u8 list run_state) s'. event_spe_context_run sample_pipe (\<lambda>_ _ _ _. None) initial_handlers
      \<lparr>base = event_context, event_private = Some (sample_event_priv\<lparr>stop_event_pipe := (5, 6),
        stop_event_handler_count := 1\<rparr>)\<rparr> 0x100 0 0 0 sample_info 0 [] (start_env Map.empty []) =
      Some (-1, ev', s') \<and>
    run_info s' = run_info s1 \<and> stop_queue (\<lambda>x. x) ev' (run_env s') [run_info s1]"
proof -
  let ?ev = "sample_event_priv\<lparr>stop_event_pipe := (5, 6), stop_event_handler_count := 1\<rparr>"
  obtain s1 where r: "base_spe_context_run sample_pipe (\<lambda>_ _ _ _. None) initial_handlers
      (base \<lparr>base = event_context, event_private = Some ?ev\<rparr>) 0x100 0 0 0
      sample_info 0 [] (start_env Map.empty []) = Some (-1, s1)" "world (run_env s1) = []"
    using sample_pipe_run by auto
  have inv: "pipe_inv ?ev" by (simp add: pipe_inv_def)
  have "stop_queue (\<lambda>x. x) ?ev (run_env s1) []" using r(2) by (simp add: stop_queue_def)
  note E = event_run_enqueues [OF sample_pipe_stream inv _ r(1) this, simplified]
  from E obtain ev' s' where "event_spe_context_run sample_pipe (\<lambda>_ _ _ _. None) initial_handlers
      \<lparr>base = event_context, event_private = Some ?ev\<rparr> 0x100 0 0 0 sample_info 0 [] (start_env Map.empty []) =
      Some (-1, ev', s')" "run_info s' = run_info s1" "stop_queue (\<lambda>x. x) ev' (run_env s') [run_info s1]"
    by blast
  then show ?thesis by blast
qed

end
