(* ===== verification/Libspe2.thy ===== *)
theory Libspe2
  imports Spe_Event Spe_Dma Spe_Mbox Spe_Info
begin

unbundle bit_operations_syntax

text \<open>
  The public interface (\<open>libspe2.c\<close>): the calls check the context pointer, choose between the
  plain and the event version of an operation, and pass on to the code of \<open>spebase\<close> and
  \<open>speevent\<close>. A \<open>NULL\<close> pointer is \<open>None\<close>; a call on a context returns the context it leaves.
\<close>

section \<open>Contexts, gangs and programs\<close>

text \<open>The part the two creating calls share, from the new base context on.\<close>

definition attach_events ::
  "'w kernel \<Rightarrow> u32 \<Rightarrow> spe_context option \<Rightarrow> 'w env \<Rightarrow> spe_object option \<times> 'w env" where
  "attach_events K fl spe e =
     (case spe of
        None \<Rightarrow> (None, e)
      | Some c \<Rightarrow>
          if has_flag fl SPE_EVENTS_ENABLE then
            (case event_spe_context_initialize K c e of
               (None, e1) \<Rightarrow> (None, snd (base_spe_context_destroy K c e1))
             | (Some ev, e1) \<Rightarrow> (Some \<lparr>base = c, event_private = Some ev\<rparr>, e1))
          else (Some \<lparr>base = c, event_private = None\<rparr>, e))"

definition spe_context_create ::
  "'w kernel \<Rightarrow> nat \<Rightarrow> u64 \<Rightarrow> spe_context \<Rightarrow> u32 \<Rightarrow> spe_gang_context option \<Rightarrow> loader_cache \<Rightarrow> 'w env \<Rightarrow>
   (spe_object option \<times> loader_cache \<times> 'w env) option" where
  "spe_context_create K ptr_bytes ps junk fl gang cache e = do {
     (spe, cache1, e1) \<leftarrow> base_spe_context_create K ptr_bytes ps junk fl gang None cache e;
     let (s, e2) = attach_events K fl spe e1;
     Some (s, cache1, e2) }"

definition spe_context_create_affinity ::
  "'w kernel \<Rightarrow> nat \<Rightarrow> u64 \<Rightarrow> spe_context \<Rightarrow> u32 \<Rightarrow> spe_context option \<Rightarrow> spe_gang_context option \<Rightarrow>
   loader_cache \<Rightarrow> 'w env \<Rightarrow> (spe_object option \<times> loader_cache \<times> 'w env) option" where
  "spe_context_create_affinity K ptr_bytes ps junk fl affinity_neighbor gang cache e =
     (if gang = None then Some (None, cache, set_errno ESRCH e)
      else do {
        (spe, cache1, e1) \<leftarrow> base_spe_context_create K ptr_bytes ps junk fl gang affinity_neighbor cache e;
        let (s, e2) = attach_events K fl spe e1;
        Some (s, cache1, e2) })"

definition spe_context_destroy ::
  "'w kernel \<Rightarrow> spe_object option \<Rightarrow> 'w env \<Rightarrow> (int \<times> 'w env) option" where
  "spe_context_destroy K spe e =
     (case spe of
        None \<Rightarrow> Some (-1, set_errno ESRCH e)
      | Some s \<Rightarrow>
          if event_private s \<noteq> None then do {
            (ret, s1, e1) \<leftarrow> event_spe_context_finalize K (Some s) e;
            if ret \<noteq> 0 then Some (ret, e1) else Some (base_spe_context_destroy K (base s) e1)
          } else Some (base_spe_context_destroy K (base s) e))"

definition spe_gang_context_create :: "'w kernel \<Rightarrow> u32 \<Rightarrow> 'w env \<Rightarrow> spe_gang_context option \<times> 'w env" where
  "spe_gang_context_create K fl e = base_spe_gang_context_create K fl e"

definition spe_gang_context_destroy :: "'w kernel \<Rightarrow> spe_gang_context option \<Rightarrow> 'w env \<Rightarrow> int \<times> 'w env" where
  "spe_gang_context_destroy K gang e =
     (case gang of
        None \<Rightarrow> (-1, set_errno ESRCH e)
      | Some g \<Rightarrow> base_spe_gang_context_destroy K g e)"

definition spe_image_open where
  "spe_image_open K ptr_bytes ps filename e = base_spe_image_open K ptr_bytes ps filename e"

definition spe_image_close where
  "spe_image_close K program e = base_spe_image_close K program e"

definition spe_program_load ::
  "'w kernel \<Rightarrow> nat \<Rightarrow> u64 \<Rightarrow> u32 \<Rightarrow> spe_object option \<Rightarrow> spe_program_handle option \<Rightarrow> loader_cache \<Rightarrow>
   'w env \<Rightarrow> (int \<times> spe_object option \<times> loader_cache \<times> 'w env) option" where
  "spe_program_load K ptr_bytes ps junk spe program cache e =
     (case spe of
        None \<Rightarrow> Some (-1, spe, cache, set_errno ESRCH e)
      | Some s \<Rightarrow>
          (case program of
             None \<Rightarrow> Some (-1, spe, cache, set_errno EINVAL e)
           | Some p \<Rightarrow> do {
               (rc, c, cache1, e1) \<leftarrow> base_spe_program_load K ptr_bytes ps junk (base s) p cache e;
               Some (rc, Some (s\<lparr>base := c\<rparr>), cache1, e1) }))"

text \<open>A run without a context has no run state; otherwise the context and the state it leaves.\<close>

definition spe_context_run ::
  "'w kernel \<Rightarrow> 'w handler_code \<Rightarrow> handlers \<Rightarrow> spe_object option \<Rightarrow> u32 \<Rightarrow> u32 \<Rightarrow> addr \<Rightarrow> addr \<Rightarrow>
   spe_stop_info \<Rightarrow> u32 \<Rightarrow> spe_context_info list \<Rightarrow> 'w env \<Rightarrow>
   (int \<times> ('w env + spe_object \<times> 'w run_state)) option" where
  "spe_context_run K H hs spe ent runflags argp envp info junk chain e =
     (case spe of
        None \<Rightarrow> Some (-1, Inl (set_errno ESRCH e))
      | Some s \<Rightarrow>
          if event_private s \<noteq> None then do {
            (rc, ev, st) \<leftarrow> event_spe_context_run K H hs s ent runflags argp envp info junk chain e;
            Some (rc, Inr (\<lparr>base = run_c st, event_private = Some ev\<rparr>, st))
          } else do {
            (rc, st) \<leftarrow> base_spe_context_run K H hs (base s) ent runflags argp envp info junk chain e;
            Some (rc, Inr (s\<lparr>base := run_c st\<rparr>, st)) })"

definition spe_stop_info_read ::
  "'w kernel \<Rightarrow> spe_object option \<Rightarrow> u8 list \<Rightarrow> 'w env \<Rightarrow> (int \<times> u8 list \<times> spe_object option \<times> 'w env) option"
where
  "spe_stop_info_read K spe buf e =
     (case spe of
        None \<Rightarrow> Some (-1, buf, spe, set_errno ESRCH e)
      | Some s \<Rightarrow>
          (case event_private s of
             None \<Rightarrow> Some (-1, buf, spe, set_errno ENOTSUP e)
           | Some ev \<Rightarrow> do {
               (rc, buf1, ev1, e1) \<leftarrow> event_spe_stop_info_read K ev buf e;
               Some (rc, buf1, Some (s\<lparr>event_private := Some ev1\<rparr>), e1) }))"

section \<open>Events\<close>

definition spe_event_handler_create where
  "spe_event_handler_create K e = event_spe_event_handler_create K e"

definition spe_event_handler_destroy where
  "spe_event_handler_destroy K evhandler e = event_spe_event_handler_destroy K evhandler e"

definition spe_event_handler_register where
  "spe_event_handler_register K evhandler event s e = event_spe_event_handler_register K evhandler event s e"

definition spe_event_handler_deregister where
  "spe_event_handler_deregister K evhandler event s e = event_spe_event_handler_deregister K evhandler event s e"

definition spe_event_wait where
  "spe_event_wait K units evhandler events max_events timeout e =
     event_spe_event_wait K units evhandler events max_events timeout e"

section \<open>Operations on a context\<close>

text \<open>
  \<open>on_context\<close>: the check for \<open>NULL\<close>, then \<open>f\<close> on the base data. \<open>fail\<close> is what the call returns
  besides -1 and \<open>ESRCH\<close> when it has other results.
\<close>

definition on_context ::
  "spe_object option \<Rightarrow> 'w env \<Rightarrow> (spe_context \<Rightarrow> (int \<times> spe_context \<times> 'w env) option) \<Rightarrow>
   (int \<times> spe_object option \<times> 'w env) option" where
  "on_context spe e f =
     (case spe of
        None \<Rightarrow> Some (-1, None, set_errno ESRCH e)
      | Some s \<Rightarrow> do { (rc, c, e1) \<leftarrow> f (base s); Some (rc, Some (s\<lparr>base := c\<rparr>), e1) })"

definition on_context_data ::
  "'d \<Rightarrow> spe_object option \<Rightarrow> 'w env \<Rightarrow> (spe_context \<Rightarrow> (int \<times> 'd \<times> spe_context \<times> 'w env) option) \<Rightarrow>
   (int \<times> 'd \<times> spe_object option \<times> 'w env) option" where
  "on_context_data fail spe e f =
     (case spe of
        None \<Rightarrow> Some (-1, fail, None, set_errno ESRCH e)
      | Some s \<Rightarrow> do { (rc, d, c, e1) \<leftarrow> f (base s); Some (rc, d, Some (s\<lparr>base := c\<rparr>), e1) })"

definition spe_mfcio_put where
  "spe_mfcio_put K spe ls ea sz tag tid rid e =
     on_context spe e (\<lambda>c. base_spe_mfcio_put K c ls ea sz tag tid rid e)"

definition spe_mfcio_putb where
  "spe_mfcio_putb K spe ls ea sz tag tid rid e =
     on_context spe e (\<lambda>c. base_spe_mfcio_putb K c ls ea sz tag tid rid e)"

definition spe_mfcio_putf where
  "spe_mfcio_putf K spe ls ea sz tag tid rid e =
     on_context spe e (\<lambda>c. base_spe_mfcio_putf K c ls ea sz tag tid rid e)"

definition spe_mfcio_get where
  "spe_mfcio_get K spe ls ea sz tag tid rid e =
     on_context spe e (\<lambda>c. base_spe_mfcio_get K c ls ea sz tag tid rid e)"

definition spe_mfcio_getb where
  "spe_mfcio_getb K spe ls ea sz tag tid rid e =
     on_context spe e (\<lambda>c. base_spe_mfcio_getb K c ls ea sz tag tid rid e)"

definition spe_mfcio_getf where
  "spe_mfcio_getf K spe ls ea sz tag tid rid e =
     on_context spe e (\<lambda>c. base_spe_mfcio_getf K c ls ea sz tag tid rid e)"

definition spe_mfcio_tag_status_read where
  "spe_mfcio_tag_status_read K spe msk behavior ptr e =
     on_context_data None spe e (\<lambda>c. base_spe_mfcio_tag_status_read K c msk behavior ptr e)"

definition spe_out_mbox_read where
  "spe_out_mbox_read K spe buf cnt e =
     on_context_data [] spe e (\<lambda>c. base_spe_out_mbox_read K c buf cnt e)"

definition spe_out_mbox_status where
  "spe_out_mbox_status K spe e = on_context spe e (\<lambda>c. base_spe_out_mbox_status K c e)"

definition spe_in_mbox_write where
  "spe_in_mbox_write K spe mbox_data behavior e =
     on_context spe e (\<lambda>c. base_spe_in_mbox_write K c mbox_data behavior e)"

definition spe_in_mbox_status where
  "spe_in_mbox_status K spe e = on_context spe e (\<lambda>c. base_spe_in_mbox_status K c e)"

definition spe_out_intr_mbox_read where
  "spe_out_intr_mbox_read K spe buf cnt behavior e =
     on_context_data [] spe e (\<lambda>c. base_spe_out_intr_mbox_read K c buf cnt behavior e)"

definition spe_out_intr_mbox_status where
  "spe_out_intr_mbox_status K spe e = on_context spe e (\<lambda>c. base_spe_out_intr_mbox_status K c e)"

definition spe_mssync_start where
  "spe_mssync_start K spe e = on_context spe e (\<lambda>c. base_spe_mssync_start K c e)"

definition spe_mssync_status where
  "spe_mssync_status K junk spe e = on_context spe e (\<lambda>c. base_spe_mssync_status K junk c e)"

definition spe_signal_write where
  "spe_signal_write K spe signal_reg data e =
     on_context spe e (\<lambda>c. base_spe_signal_write K c signal_reg data e)"

definition spe_ls_area_get :: "spe_object option \<Rightarrow> 'w env \<Rightarrow> addr \<times> 'w env" where
  "spe_ls_area_get spe e =
     (case spe of None \<Rightarrow> (NULL, set_errno ESRCH e) | Some s \<Rightarrow> (base_spe_ls_area_get (base s), e))"

definition spe_ls_size_get :: "spe_object option \<Rightarrow> 'w env \<Rightarrow> int \<times> 'w env" where
  "spe_ls_size_get spe e =
     (case spe of None \<Rightarrow> (-1, set_errno ESRCH e) | Some s \<Rightarrow> (base_spe_ls_size_get (base s), e))"

definition spe_ps_area_get :: "spe_object option \<Rightarrow> ps_area \<Rightarrow> 'w env \<Rightarrow> addr \<times> 'w env" where
  "spe_ps_area_get spe area e =
     (case spe of None \<Rightarrow> (NULL, set_errno ESRCH e) | Some s \<Rightarrow> base_spe_ps_area_get (base s) area e)"

section \<open>Calls without a context\<close>

definition spe_callback_handler_register where
  "spe_callback_handler_register handler callnum mode hs e =
     base_spe_callback_handler_register handler callnum mode hs e"

definition spe_callback_handler_deregister where
  "spe_callback_handler_deregister callnum hs e = base_spe_callback_handler_deregister callnum hs e"

definition spe_callback_handler_query where
  "spe_callback_handler_query callnum hs e = base_spe_callback_handler_query callnum hs e"

definition spe_cpu_info_get where
  "spe_cpu_info_get K info_requested cpu_node e = base_spe_cpu_info_get K info_requested cpu_node e"

section \<open>The life of a context\<close>

lemma initialize_ledgers:
  assumes "event_spe_context_initialize K c e = (r, e1)" "ledgers e = (F, M, H)"
  shows "case r of None \<Rightarrow> ledgers e1 = (F, M, H)
    | Some ev \<Rightarrow> ledgers e1 = (F, M, add_mset (evctx_ptr ev) H) \<and> stop_event_pipe ev = (-1, -1)"
proof -
  obtain p e2 where m: "sys_rv K (Malloc SIZEOF_EVENT_PRIV) e = (p, e2)" by fastforce
  with assms(1) ledgers_sys_rv [OF m assms(2)] show ?thesis
    by (auto simp: event_spe_context_initialize_def split: if_splits)
qed

lemma finalize_ledgers:
  assumes "event_private s = Some ev" "stop_event_pipe ev = (-1, -1)"
    and "ledgers e = (F, M, add_mset (evctx_ptr ev) H)"
  shows "\<exists>e1. event_spe_context_finalize K (Some s) e = Some (0, Some (s\<lparr>event_private := None\<rparr>), e1) \<and>
    ledgers e1 = (F, M, H)"
  using assms ledgers_snd_sys_rv [OF assms(3), of "Free (evctx_ptr ev)"]
  by (simp add: event_spe_context_finalize_def stop_event_pipe_close_def)

text \<open>
  C3: \<open>spe_context_create\<close> that fails, in whatever step (the event data included), leaves no
  descriptor, mapping or heap block behind. After one that succeeds, and any sequence of
  acquisitions and releases of the context's files, \<open>spe_context_destroy\<close> gives back everything
  the creation and the files took, whatever the allocated memory contained. It is about a context
  for which no stop handler was registered (no stop pipe), and a creation that does not have to
  load the loader of emulated isolation (not asked for, or loaded before: the library keeps that
  image for the rest of the process); \<open>openat\<close> fails with -1 or returns a descriptor.
\<close>

theorem api_lifecycle_balanced:
  assumes "spe_context_create K pb ps junk fl gang cache e = Some (r, cache', e1)"
    and "\<not> has_flag fl SPE_ISOLATE_EMULATE \<or> cache \<noteq> None"
    and "openat_result K"
  shows "case r of None \<Rightarrow> ledgers e1 = ledgers e
    | Some s \<Rightarrow> (\<forall>ops. case fd_run K ops (base s, e1) of (c2, e2) \<Rightarrow>
        \<exists>rc e3. spe_context_destroy K (Some (s\<lparr>base := c2\<rparr>)) e2 = Some (rc, e3) \<and> ledgers e3 = ledgers e)"
proof -
  obtain F M H where L: "ledgers e = (F, M, H)" by (cases "ledgers e")
  obtain spe e0 where b: "base_spe_context_create K pb ps junk fl gang None cache e = Some (spe, cache', e0)"
    and a: "attach_events K fl spe e0 = (r, e1)"
    using assms(1) by (auto simp: spe_context_create_def split: Option.bind_splits prod.splits)
  show ?thesis
  proof (cases spe)
    case None
    with a have "r = None" "e1 = e0" by (simp_all add: attach_events_def)
    with None context_create_ledgers [OF b assms(2) L] L show ?thesis by (simp add: create_result_def)
  next
    case (Some c)
    note C = context_created [OF b [unfolded Some] assms(2) L]
    show ?thesis
    proof (cases "has_flag fl SPE_EVENTS_ENABLE")
      case False
      with a Some have r: "r = Some \<lparr>base = c, event_private = None\<rparr>" "e1 = e0"
        by (auto simp: attach_events_def)
      have "ledgers (snd (base_spe_context_destroy K c2 e2)) = ledgers e"
        if "fd_run K ops (c, e0) = (c2, e2)" for ops c2 e2
        using used_context_destroyed [OF assms(3) C(1) that C(2)] L by simp
      with r show ?thesis by (auto simp: spe_context_destroy_def split: prod.splits) (metis prod.collapse)
    next
      case True
      obtain evo e2 where i: "event_spe_context_initialize K c e0 = (evo, e2)" by fastforce
      note I = initialize_ledgers [OF i C(2)]
      show ?thesis
      proof (cases evo)
        case None
        with I have "ledgers e2 = (F + context_fds c, M + context_maps c, H + context_heap c)" by simp
        from free_spe_context_ledgers [OF this] a Some True i None L show ?thesis
          by (auto simp: attach_events_def base_spe_context_destroy_def spe_context_update_event_def
              split: prod.splits)
      next
        case ev: (Some ev)
        with a Some True i have r: "r = Some \<lparr>base = c, event_private = Some ev\<rparr>" "e1 = e2"
          by (auto simp: attach_events_def)
        have I1: "ledgers e2 = (F + context_fds c, M + context_maps c, add_mset (evctx_ptr ev) H + context_heap c)"
          and p: "stop_event_pipe ev = (-1, -1)" using I ev by simp_all
        have "\<exists>rc e4. spe_context_destroy K (Some \<lparr>base = c2, event_private = Some ev\<rparr>) e3 = Some (rc, e4) \<and>
            ledgers e4 = ledgers e" if f: "fd_run K ops (c, e2) = (c2, e3)" for ops c2 e3
        proof -
          note U = fd_run_ledgers [OF assms(3) C(1) f I1]
          obtain e4 where z: "event_spe_context_finalize K (Some \<lparr>base = c2, event_private = Some ev\<rparr>) e3 =
              Some (0, Some \<lparr>base = c2, event_private = None\<rparr>, e4)"
            "ledgers e4 = (F + context_fds c2, M + context_maps c2, H + context_heap c2)"
            using finalize_ledgers [of "\<lparr>base = c2, event_private = Some ev\<rparr>" ev e3, OF _ p] U by fastforce
          obtain rc e5 where "free_spe_context K c2 e4 = (rc, e5)" by fastforce
          with free_spe_context_ledgers [OF z(2), of K] z(1) L show ?thesis
            by (simp add: spe_context_destroy_def base_spe_context_destroy_def spe_context_update_event_def)
        qed
        with r show ?thesis by (auto split: prod.splits)
      qed
    qed
  qed
qed

theorem api_lifecycle_balanced_witness:
  "\<exists>s e1. spe_context_create (const_kernel (reply_ok 5)) 8 4096 blank_context SPE_EVENTS_ENABLE None None
      (start_env Map.empty ()) = Some (Some s, None, e1) \<and>
    (case fd_run (const_kernel (reply_ok 5)) [Acquire FD_MBOX, Acquire FD_IBOX] (base s, e1) of
      (c2, e2) \<Rightarrow> \<exists>rc e3. spe_context_destroy (const_kernel (reply_ok 5)) (Some (s\<lparr>base := c2\<rparr>)) e2 =
        Some (rc, e3) \<and> ledgers e3 = ({#}, {#}, {#}))"
proof -
  let ?K = "const_kernel (reply_ok 5) :: unit kernel"
  obtain s e1 where c: "spe_context_create ?K 8 4096 blank_context SPE_EVENTS_ENABLE None None
      (start_env Map.empty ()) = Some (Some s, None, e1)"
    by (simp add: spe_context_create_def attach_events_def event_spe_context_initialize_def
        base_spe_context_create_def create_dir_def create_areas_def create_signals_def
        map_ps_areas_def mapfileat_def sys_rv_def sys_def sample_simps spu_create_def ptr_of_def
        context_flags_def has_flag_def Let_def)
  have "openat_result ?K" by (simp add: openat_result_def sample_simps)
  moreover have "\<not> has_flag SPE_EVENTS_ENABLE SPE_ISOLATE_EMULATE" by (simp add: has_flag_def)
  moreover have "ledgers (start_env Map.empty ()) = ({#}, {#}, {#})"
    by (simp add: ledgers_def start_env_def open_fds_def live_maps_def live_heap_def)
  ultimately show ?thesis using c api_lifecycle_balanced [OF c] by auto
qed

end
