(* ===== verification/Handler_Utils.thy ===== *)
theory Handler_Utils
  imports Spe_Callbacks
begin

unbundle bit_operations_syntax

text \<open>
  What the three default handlers of PPE assisted library calls share
  (\<open>spebase/handler_utils.h\<close>, and the dispatch function each of them ends with). A call of the
  SPE program leaves a word after the stop instruction: the operation in its upper byte and
  the local store address of the call's frame in the lower 24 bits. The frame holds one
  quadword per argument; the result quadword replaces the first argument.

  A handler takes the address \<open>ls\<close> where the local store is mapped and that word, makes at most
  one call of the C library and writes the result. The process is a 64-bit PowerPC process:
  the first slot of a quadword is the high half of a 64-bit value.
\<close>

section \<open>Arguments and results\<close>

abbreviation (input) LS_ADDR_MASK :: u32 where "LS_ADDR_MASK \<equiv> 0x3ffff"

abbreviation (input) sizeof_size_t :: nat where "sizeof_size_t \<equiv> 8"

definition LS_ARG_ADDR :: "addr \<Rightarrow> u32 \<Rightarrow> nat \<Rightarrow> addr" where
  "LS_ARG_ADDR ls opdata i = ls + unat (opdata AND 0xffffff) + 16 * i"

text \<open>\<open>arg\<close>\<^emph>\<open>i\<close>\<open>->slot[k]\<close>, read from the memory as it is at that point.\<close>

definition slot :: "addr \<Rightarrow> u32 \<Rightarrow> nat \<Rightarrow> nat \<Rightarrow> 'w env \<Rightarrow> u32 option" where
  "slot ls opdata i k e = load32 (mem e) (LS_ARG_ADDR ls opdata i + 4 * k)"

definition GET_LS_PTR :: "addr \<Rightarrow> u32 \<Rightarrow> addr" where
  "GET_LS_PTR ls off = ls + unat (off AND LS_ADDR_MASK)"

definition GET_LS_PTR_NULL :: "addr \<Rightarrow> u32 \<Rightarrow> addr" where
  "GET_LS_PTR_NULL ls off = (if off \<noteq> 0 then GET_LS_PTR ls off else NULL)"

fun store_words :: "memory \<Rightarrow> addr \<Rightarrow> int list \<Rightarrow> memory option" where
  "store_words m a [] = Some m"
| "store_words m a (x # xs) = do { m1 \<leftarrow> store32 m a (of_int x); store_words m1 (a + 4) xs }"

definition PUT_LS_RC ::
  "addr \<Rightarrow> u32 \<Rightarrow> int \<Rightarrow> int \<Rightarrow> int \<Rightarrow> int \<Rightarrow> 'w env \<Rightarrow> 'w env option" where
  "PUT_LS_RC ls opdata a b c d e =
     do { m \<leftarrow> store_words (mem e) (LS_ARG_ADDR ls opdata 0) [a, b, c, d]; Some (e\<lparr>mem := m\<rparr>) }"

text \<open>
  A value of 64 bits in two slots: the union \<open>addr64\<close>, and its halves.
\<close>

definition all64 :: "u32 \<Rightarrow> u32 \<Rightarrow> u64" where
  "all64 a b = push_bit 32 (ucast a) OR ucast b"

definition by32_0 :: "u64 \<Rightarrow> u32" where
  "by32_0 x = ucast (drop_bit 32 x)"

definition by32_1 :: "u64 \<Rightarrow> u32" where
  "by32_1 x = ucast x"

lemma by32_all64 [simp]: "by32_0 (all64 a b) = a" "by32_1 (all64 a b) = b"
proof -
  show "by32_0 (all64 a b) = a"
    by (rule bit_word_eqI) (auto simp: by32_0_def all64_def bit_simps dest: bit_imp_le_length)
  show "by32_1 (all64 a b) = b"
    by (rule bit_word_eqI) (auto simp: by32_1_def all64_def bit_simps)
qed

lemma all64_by32 [simp]: "all64 (by32_0 x) (by32_1 x) = x"
proof (rule bit_eqI)
  fix n
  assume "possible_bit TYPE(u64) n"
  then show "bit (all64 (by32_0 x) (by32_1 x)) n = bit x n"
    by (cases "n < 32") (auto simp: by32_0_def by32_1_def all64_def bit_simps possible_bit_def)
qed

lemma uint_all64: "uint (all64 0 b) = uint b"
proof -
  have "uint b < 2 ^ 32" using unsigned_less [where w = b and 'a = int] by simp
  then show ?thesis by (simp add: all64_def unsigned_ucast_eq take_bit_int_eq_self)
qed

definition slot64 :: "addr \<Rightarrow> u32 \<Rightarrow> nat \<Rightarrow> 'w env \<Rightarrow> u64 option" where
  "slot64 ls opdata i e =
     do { a \<leftarrow> slot ls opdata i 0 e; b \<leftarrow> slot ls opdata i 1 e; Some (all64 a b) }"

text \<open>
  The call of a library function, and the way most handlers end: the result in the first slot,
  \<open>errno\<close> in the last one. \<open>nth_val\<close> is a field of a local structure after the call.
\<close>

definition libcall :: "'w kernel \<Rightarrow> string \<Rightarrow> int list \<Rightarrow> 'w env \<Rightarrow> int \<times> 'w env" where
  "libcall K f xs e = sys_rv K (LibCall f xs) e"

definition put_rc :: "addr \<Rightarrow> u32 \<Rightarrow> int \<times> 'w env \<Rightarrow> (int \<times> 'w env) option" where
  "put_rc ls opdata p =
     (case p of (rc, e) \<Rightarrow> do { e1 \<leftarrow> PUT_LS_RC ls opdata rc 0 0 (errno e) e; Some (0, e1) })"

definition put_rc64 :: "addr \<Rightarrow> u32 \<Rightarrow> u64 \<times> 'w env \<Rightarrow> (int \<times> 'w env) option" where
  "put_rc64 ls opdata p =
     (case p of (x, e) \<Rightarrow>
        do { e1 \<leftarrow> PUT_LS_RC ls opdata (uint (by32_0 x)) (uint (by32_1 x)) 0 (errno e) e; Some (0, e1) })"

definition nth_val :: "reply \<Rightarrow> nat \<Rightarrow> int" where
  "nth_val r i = (if i < length (rvals r) then rvals r ! i else 0)"

text \<open>The type of a handler's code: a C function that returns an \<open>int\<close>.\<close>

type_synonym 's lib_handler = "addr \<Rightarrow> u32 \<Rightarrow> 's \<Rightarrow> (int \<times> 's) option"

definition vals :: "reply \<Rightarrow> nat \<Rightarrow> int list" where
  "vals r n = map (nth_val r) [0..<n]"

lemma length_vals [simp]: "length (vals r n) = n"
  by (simp add: vals_def)

lemma nth_vals [simp]: "i < n \<Longrightarrow> vals r n ! i = nth_val r i"
  by (simp add: vals_def)

section \<open>Dispatch\<close>

text \<open>
  The dispatch function of a handler class with the table \<open>funcs\<close> of its operations, as all three
  classes have it. The state \<open>s\<close> is the environment, with the open files for C99; \<open>m\<close> is its
  memory. An entry without a function is a call through a null pointer: no result.
\<close>

definition opcode :: "u32 \<Rightarrow> nat" where
  "opcode opdata = unat (drop_bit 24 opdata AND 0xff)"

definition dispatch ::
  "'s lib_handler option list \<Rightarrow> memory \<Rightarrow> addr \<Rightarrow> u32 \<Rightarrow> 's \<Rightarrow> (int \<times> 's) option" where
  "dispatch funcs m base offset s =
     (if base = NULL then Some (1, s)
      else do {
        opdata \<leftarrow> load32 m (base + unat ((offset AND LS_ADDR_MASK) AND NOT 1));
        let op = opcode opdata in
        if op = 0 \<or> length funcs \<le> op then Some (1, s)
        else do { f \<leftarrow> funcs ! op; (_, s1) \<leftarrow> f base opdata s; Some (0, s1) } })"

section \<open>Facts\<close>

lemma GET_LS_PTR_bounds: "ls \<le> GET_LS_PTR ls off" "GET_LS_PTR ls off < ls + LS_SIZE"
proof -
  have "off AND LS_ADDR_MASK \<le> LS_ADDR_MASK" by (rule word_and_le1)
  then have "unat (off AND LS_ADDR_MASK) \<le> unat LS_ADDR_MASK" by (simp add: word_le_nat_alt)
  then show "GET_LS_PTR ls off < ls + LS_SIZE" by (simp add: GET_LS_PTR_def)
qed (simp add: GET_LS_PTR_def)

lemma opcode_less: "opcode w < 256"
proof -
  have "drop_bit 24 w AND (0xff :: u32) \<le> 0xff" by (rule word_and_le1)
  then have "unat (drop_bit 24 w AND 0xff) \<le> unat (0xff :: u32)" by (simp add: word_le_nat_alt)
  then show ?thesis by (simp add: opcode_def)
qed

lemma store_words_outside:
  "store_words m a xs = Some m' \<Longrightarrow> same_outside m m' {a..<a + 4 * length xs} \<and> dom m' = dom m"
proof (induction xs arbitrary: m a)
  case (Cons x xs)
  from Cons.prems obtain m1 where 1: "store32 m a (of_int x) = Some m1"
    and 2: "store_words m1 (a + 4) xs = Some m'" by (auto split: Option.bind_splits)
  have "same_outside m m' ({a..<a + 4} \<union> {a + 4..<a + 4 + 4 * length xs})"
    by (rule same_outside_trans [OF store32_same_outside [OF 1]]) (use Cons.IH [OF 2] in auto)
  moreover have "{a..<a + 4} \<union> {a + 4..<a + 4 + 4 * length xs} = {a..<a + 4 * length (x # xs)}" by auto
  ultimately show ?case using Cons.IH [OF 2] store32_dom [OF 1] by simp
qed simp

lemma store_words_ok: "mapped m a (4 * length xs) \<Longrightarrow> \<exists>m'. store_words m a xs = Some m'"
proof (induction xs arbitrary: m a)
  case (Cons x xs)
  have "mapped m a 4" by (rule mapped_sub [OF Cons.prems]) auto
  then obtain m1 where 1: "store32 m a (of_int x) = Some m1" using store32_mapped by blast
  have "mapped m (a + 4) (4 * length xs)" by (rule mapped_sub [OF Cons.prems]) auto
  then have "mapped m1 (a + 4) (4 * length xs)" using mapped_dom [OF store32_dom [OF 1]] by simp
  then show ?case using Cons.IH 1 by simp
qed simp

lemma load_store_words:
  "store_words m a xs = Some m' \<Longrightarrow> i < length xs \<Longrightarrow> load32 m' (a + 4 * i) = Some (of_int (xs ! i))"
proof (induction xs arbitrary: m a i)
  case (Cons x xs)
  from Cons.prems(1) obtain m1 where 1: "store32 m a (of_int x) = Some m1"
    and 2: "store_words m1 (a + 4) xs = Some m'" by (auto split: Option.bind_splits)
  show ?case
  proof (cases i)
    case 0
    have "load_bytes m' a 4 = load_bytes m1 a 4"
      by (rule load_bytes_same_outside [OF store_words_outside [OF 2, THEN conjunct1]]) auto
    then have "load32 m' a = load32 m1 a" by (simp add: load32_def)
    then show ?thesis using 0 load32_store32 [OF 1] by simp
  next
    case (Suc j)
    have l: "load32 m' ((a + 4) + 4 * j) = Some (of_int (xs ! j))"
      by (rule Cons.IH [OF 2]) (use Suc Cons.prems in auto)
    have "a + 4 * i = (a + 4) + 4 * j" using Suc by simp
    then show ?thesis using l Suc by (simp only: nth_Cons_Suc)
  qed
qed simp

text \<open>The result quadword.\<close>

definition result_quad :: "memory \<Rightarrow> addr \<Rightarrow> int list \<Rightarrow> bool" where
  "result_quad m a xs \<longleftrightarrow> (\<forall>i < length xs. load32 m (a + 4 * i) = Some (of_int (xs ! i)))"

lemma PUT_LS_RC_ok:
  assumes "mapped (mem e) (LS_ARG_ADDR ls opdata 0) 16"
  shows "\<exists>m. PUT_LS_RC ls opdata a b c d e = Some (e\<lparr>mem := m\<rparr>) \<and>
     result_quad m (LS_ARG_ADDR ls opdata 0) [a, b, c, d] \<and>
     same_outside (mem e) m {LS_ARG_ADDR ls opdata 0..<LS_ARG_ADDR ls opdata 0 + 16} \<and> dom m = dom (mem e)"
proof -
  obtain m where m: "store_words (mem e) (LS_ARG_ADDR ls opdata 0) [a, b, c, d] = Some m"
    using store_words_ok [of "mem e" "LS_ARG_ADDR ls opdata 0" "[a, b, c, d]"] assms by auto
  have "result_quad m (LS_ARG_ADDR ls opdata 0) [a, b, c, d]"
    unfolding result_quad_def using load_store_words [OF m] by blast
  moreover have "PUT_LS_RC ls opdata a b c d e = Some (e\<lparr>mem := m\<rparr>)"
    using m by (simp add: PUT_LS_RC_def del: store_words.simps)
  ultimately show ?thesis using store_words_outside [OF m] by auto
qed

lemma PUT_LS_RC_outside:
  "PUT_LS_RC ls opdata a b c d e = Some e' \<Longrightarrow>
   same_outside (mem e) (mem e') {LS_ARG_ADDR ls opdata 0..<LS_ARG_ADDR ls opdata 0 + 16} \<and>
   trace e' = trace e"
  using store_words_outside [of "mem e" "LS_ARG_ADDR ls opdata 0" "[a, b, c, d]"]
  by (auto simp: PUT_LS_RC_def simp del: store_words.simps split: Option.bind_splits)

section \<open>Calls that only pass their arguments on\<close>

text \<open>
  The reference for most handlers: the arguments are read from the frame according to the
  function's signature, passed to the library, and the result and \<open>errno\<close> are written back.
\<close>

datatype arg_kind = LsPtr | Signed | Unsigned | Addr64

fun marshal_arg :: "addr \<Rightarrow> u32 \<Rightarrow> nat \<Rightarrow> 'w env \<Rightarrow> arg_kind \<Rightarrow> int option" where
  "marshal_arg ls opdata i e LsPtr = map_option (\<lambda>w. int (GET_LS_PTR ls w)) (slot ls opdata i 0 e)"
| "marshal_arg ls opdata i e Signed = map_option sint (slot ls opdata i 0 e)"
| "marshal_arg ls opdata i e Unsigned = map_option uint (slot ls opdata i 0 e)"
| "marshal_arg ls opdata i e Addr64 = map_option uint (slot64 ls opdata i e)"

fun marshal :: "addr \<Rightarrow> u32 \<Rightarrow> nat \<Rightarrow> 'w env \<Rightarrow> arg_kind list \<Rightarrow> int list option" where
  "marshal ls opdata i e [] = Some []"
| "marshal ls opdata i e (k # ks) =
     do { x \<leftarrow> marshal_arg ls opdata i e k; xs \<leftarrow> marshal ls opdata (Suc i) e ks; Some (x # xs) }"

definition plain_call :: "'w kernel \<Rightarrow> string \<Rightarrow> arg_kind list \<Rightarrow> 'w env lib_handler" where
  "plain_call K f ks ls opdata e =
     do { xs \<leftarrow> marshal ls opdata 0 e ks; put_rc ls opdata (libcall K f xs e) }"

text \<open>What an argument of a kind can be: a pointer of the program points into the local store.\<close>

fun arg_ok :: "addr \<Rightarrow> arg_kind \<Rightarrow> int \<Rightarrow> bool" where
  "arg_ok ls LsPtr x \<longleftrightarrow> int ls \<le> x \<and> x < int (ls + LS_SIZE)"
| "arg_ok ls Signed x \<longleftrightarrow> - (2 ^ 31) \<le> x \<and> x < 2 ^ 31"
| "arg_ok ls Unsigned x \<longleftrightarrow> 0 \<le> x \<and> x < 2 ^ 32"
| "arg_ok ls Addr64 x \<longleftrightarrow> 0 \<le> x \<and> x < 2 ^ 64"

lemma marshal_arg_ok: "marshal_arg ls opdata i e k = Some x \<Longrightarrow> arg_ok ls k x"
proof (cases k)
  case LsPtr
  moreover have "int ls \<le> int (GET_LS_PTR ls w) \<and> int (GET_LS_PTR ls w) < int (ls + LS_SIZE)" for w
    using GET_LS_PTR_bounds [of ls w] GET_LS_PTR_bounds(2) [of ls w] by linarith
  ultimately show "marshal_arg ls opdata i e k = Some x \<Longrightarrow> arg_ok ls k x" by force
next
  case Signed
  have "- (2 ^ 31) \<le> sint w \<and> sint w < 2 ^ 31" for w :: u32
    using sint_greater_eq [of w] sint_less [of w] by simp
  with Signed show "marshal_arg ls opdata i e k = Some x \<Longrightarrow> arg_ok ls k x" by force
next
  case Unsigned
  have "0 \<le> uint w \<and> uint w < 2 ^ 32" for w :: u32
    using unsigned_less [where w = w and 'a = int] by simp
  with Unsigned show "marshal_arg ls opdata i e k = Some x \<Longrightarrow> arg_ok ls k x" by force
next
  case Addr64
  have "0 \<le> uint w \<and> uint w < 2 ^ 64" for w :: u64
    using unsigned_less [where w = w and 'a = int] by simp
  with Addr64 show "marshal_arg ls opdata i e k = Some x \<Longrightarrow> arg_ok ls k x" by force
qed

lemma marshal_ok: "marshal ls opdata i e ks = Some xs \<Longrightarrow> list_all2 (arg_ok ls) ks xs"
  by (induction ks arbitrary: i xs) (auto split: Option.bind_splits dest: marshal_arg_ok)

lemma put_rc_ok:
  assumes "mapped (mem e) (LS_ARG_ADDR ls opdata 0) 16"
  shows "\<exists>e'. put_rc ls opdata (rc, e) = Some (0, e') \<and> trace e' = trace e \<and> errno e' = errno e \<and>
     result_quad (mem e') (LS_ARG_ADDR ls opdata 0) [rc, 0, 0, errno e] \<and>
     same_outside (mem e) (mem e') {LS_ARG_ADDR ls opdata 0..<LS_ARG_ADDR ls opdata 0 + 16}"
  using PUT_LS_RC_ok [OF assms, of rc 0 0 "errno e"] by (auto simp: put_rc_def)

lemma plain_call_ok:
  assumes "marshal ls opdata 0 e ks = Some xs" and "libcall K f xs e = (rc, e1)"
    and "mapped (mem e1) (LS_ARG_ADDR ls opdata 0) 16"
  shows "\<exists>e'. plain_call K f ks ls opdata e = Some (0, e') \<and> trace e' = trace e @ [(LibCall f xs, rc)] \<and>
     errno e' = errno e1 \<and> result_quad (mem e') (LS_ARG_ADDR ls opdata 0) [rc, 0, 0, errno e1] \<and>
     same_outside (mem e1) (mem e') {LS_ARG_ADDR ls opdata 0..<LS_ARG_ADDR ls opdata 0 + 16}"
  using put_rc_ok [OF assms(3), of rc] assms(1,2) sys_rv_trace [of K "LibCall f xs" e rc e1]
  by (auto simp: plain_call_def libcall_def)

section \<open>The contract of a handler class\<close>

text \<open>
  A class has the operations 1 to \<open>ops\<close>, and a handler for each: the dispatch function never
  calls through a null pointer, and refuses exactly the operations there are not.
\<close>

lemma dispatch_calls:
  "base \<noteq> NULL \<Longrightarrow> load32 m (base + unat ((off AND LS_ADDR_MASK) AND NOT 1)) = Some w \<Longrightarrow>
   0 < opcode w \<Longrightarrow> opcode w < length funcs \<Longrightarrow> funcs ! opcode w = Some h \<Longrightarrow>
   h base w s = Some (n, s') \<Longrightarrow> dispatch funcs m base off s = Some (0, s')"
  by (simp add: dispatch_def)

locale handler_class =
  fixes funcs :: "'s lib_handler option list" and ops :: nat
  assumes size_of: "length funcs = Suc ops"
    and entries: "0 < op \<Longrightarrow> op \<le> ops \<Longrightarrow> funcs ! op \<noteq> None"
begin

lemma refused:
  "load32 m (base + unat ((off AND LS_ADDR_MASK) AND NOT 1)) = Some w \<Longrightarrow>
   base = NULL \<or> opcode w = 0 \<or> ops < opcode w \<Longrightarrow> dispatch funcs m base off s = Some (1, s)"
  by (auto simp: dispatch_def size_of)

lemma served:
  assumes "base \<noteq> NULL" "load32 m (base + unat ((off AND LS_ADDR_MASK) AND NOT 1)) = Some w"
    and "0 < opcode w" "opcode w \<le> ops"
  shows "\<exists>h. funcs ! opcode w = Some h \<and> Some h \<in> set funcs \<and>
    (\<forall>s. dispatch funcs m base off s = map_option (\<lambda>(_, s'). (0, s')) (h base w s))"
proof -
  obtain h where h: "funcs ! opcode w = Some h" using entries [OF assms(3,4)] by blast
  have "opcode w < length funcs" using assms(4) size_of by simp
  then have "funcs ! opcode w \<in> set funcs" by (rule nth_mem)
  then have "Some h \<in> set funcs" using h by simp
  moreover have "dispatch funcs m base off s = map_option (\<lambda>(_, s'). (0, s')) (h base w s)" for s
    using assms h size_of by (cases "h base w s") (auto simp: dispatch_def)
  ultimately show ?thesis using h by blast
qed

lemma ran:
  assumes "dispatch funcs m base off s = Some (n, s')" and "base \<noteq> NULL"
    and "load32 m (base + unat ((off AND LS_ADDR_MASK) AND NOT 1)) = Some w"
    and "0 < opcode w" "opcode w \<le> ops"
  shows "n = 0 \<and> (\<exists>h k. funcs ! opcode w = Some h \<and> Some h \<in> set funcs \<and> h base w s = Some (k, s'))"
proof -
  from served [OF assms(2-5)] obtain h :: "'s lib_handler" where h: "funcs ! opcode w = Some h" "Some h \<in> set funcs"
    "dispatch funcs m base off s = map_option (\<lambda>(_, s'). (0, s')) (h base w s)" by blast
  then show ?thesis using assms(1) by (cases "h base w s") auto
qed

lemma outcome:
  assumes "dispatch funcs m base off s = Some (n, s')" and "base \<noteq> NULL"
    and "load32 m (base + unat ((off AND LS_ADDR_MASK) AND NOT 1)) = Some w"
  shows "(n = 0 \<and> 0 < opcode w \<and> opcode w \<le> ops) \<or> (n = 1 \<and> s' = s \<and> (opcode w = 0 \<or> ops < opcode w))"
  using refused [OF assms(3), of s] ran [OF assms] assms(1) by (cases "opcode w = 0 \<or> ops < opcode w") auto

end

section \<open>A local store for the witnesses\<close>

text \<open>
  A mapped local store given by its words. The samples have it at \<open>0x100000\<close>, the call word at
  offset \<open>0x80\<close> and the frame at \<open>0x100\<close>.
\<close>

definition word_memory :: "addr \<Rightarrow> nat \<Rightarrow> (nat \<Rightarrow> u32) \<Rightarrow> memory" where
  "word_memory a n W x =
     (if a \<le> x \<and> x < a + 4 * n then Some (bytes_of_word (W ((x - a) div 4)) ! ((x - a) mod 4)) else None)"

lemma load_bytes_4: "load_bytes m a 4 =
    do { b0 \<leftarrow> m a; b1 \<leftarrow> m (a + 1); b2 \<leftarrow> m (a + 2); b3 \<leftarrow> m (a + 3); Some [b0, b1, b2, b3] }"
  by (simp add: numeral_eq_Suc)

lemma load32_word_memory:
  assumes "a \<le> x" "x < a + 4 * n" "(x - a) mod 4 = 0"
  shows "load32 (word_memory a n W) x = Some (W ((x - a) div 4))"
proof -
  define q where "q = (x - a) div 4"
  have x: "x = a + 4 * q" using assms mod_mult_div_eq [of "x - a" 4] by (simp add: q_def)
  have w: "word_memory a n W (x + j) = Some (bytes_of_word (W q) ! j)" if "j < 4" for j
  proof -
    have "(x + j - a) div 4 = q" "(x + j - a) mod 4 = j" using that x by simp_all
    moreover have "x + j < a + 4 * n" using that x assms(2) by simp
    ultimately show ?thesis using x by (simp add: word_memory_def)
  qed
  have "load_bytes (word_memory a n W) x 4 = Some (bytes_of_word (W q))"
    using w [of 0] w [of 1] w [of 2] w [of 3] by (simp add: load_bytes_4 bytes_of_word_def)
  then show ?thesis by (simp add: load32_def q_def)
qed

lemma mapped_word_memory: "a \<le> x \<Longrightarrow> x + k \<le> a + 4 * n \<Longrightarrow> mapped (word_memory a n W) x k"
  by (auto simp: mapped_def word_memory_def)

definition sample_ls :: "(nat \<Rightarrow> u32) \<Rightarrow> memory" where
  "sample_ls W = word_memory 0x100000 0x10000 W"

definition sample_call :: "(nat \<Rightarrow> u32) \<Rightarrow> unit env" where
  "sample_call W = start_env (sample_ls W) ()"

lemma load32_sample: "0x100000 \<le> x \<Longrightarrow> x < 0x140000 \<Longrightarrow> (x - 0x100000) mod 4 = 0 \<Longrightarrow>
    load32 (sample_ls W) x = Some (W ((x - 0x100000) div 4))"
  by (simp add: sample_ls_def load32_word_memory)

lemma mapped_sample: "0x100000 \<le> x \<Longrightarrow> x + k \<le> 0x140000 \<Longrightarrow> mapped (sample_ls W) x k"
  by (simp add: sample_ls_def mapped_word_memory)

lemma sample_call_simps [simp]: "mem (sample_call W) = sample_ls W" "errno (sample_call W) = 0"
  "trace (sample_call W) = []"
  by (simp_all add: sample_call_def start_env_def)

lemma LS_ARG_ADDR_sample: "w AND 0xffffff = 0x100 \<Longrightarrow> LS_ARG_ADDR ls w i = ls + 0x100 + 16 * i"
  by (simp add: LS_ARG_ADDR_def)

lemmas sample_call_eval = slot_def slot64_def LS_ARG_ADDR_def load32_sample GET_LS_PTR_def opcode_def

section \<open>What a handler may write\<close>

text \<open>
  \<open>quiet A K\<close>: whatever library call is made, memory outside \<open>A\<close> stays as it is. A handler is
  \<open>confined\<close> to \<open>S\<close>, pairs of an argument and a length, if it adds to that only its result
  quadword and, for each pair, that many bytes at the place in the local store to which the
  argument points. \<open>D\<close> names the arguments it reads after the call, which the library function
  must have left alone.
\<close>

definition quiet :: "addr set \<Rightarrow> 'w kernel \<Rightarrow> bool" where
  "quiet A K \<longleftrightarrow> (\<forall>f xs m w. same_outside m (fst (snd (K (LibCall f xs) (m, w)))) A)"

abbreviation (input) result_area :: "addr \<Rightarrow> u32 \<Rightarrow> addr set" where
  "result_area ls w \<equiv> {LS_ARG_ADDR ls w 0..<LS_ARG_ADDR ls w 0 + 16}"

definition struct_area :: "addr \<Rightarrow> u32 \<Rightarrow> memory \<Rightarrow> nat \<times> nat \<Rightarrow> addr set" where
  "struct_area ls w m p = (case load32 m (LS_ARG_ADDR ls w (fst p)) of
     None \<Rightarrow> {}
   | Some a \<Rightarrow> {GET_LS_PTR ls a..<GET_LS_PTR ls a + snd p})"

definition confined :: "addr set \<Rightarrow> nat set \<Rightarrow> (nat \<times> nat) list \<Rightarrow> 'w env lib_handler \<Rightarrow> bool" where
  "confined A D S h \<longleftrightarrow> (\<forall>ls w e n e'.
     (\<forall>i \<in> D. {LS_ARG_ADDR ls w i..<LS_ARG_ADDR ls w i + 4} \<inter> A = {}) \<longrightarrow> h ls w e = Some (n, e') \<longrightarrow>
     same_outside (mem e) (mem e') (A \<union> result_area ls w \<union> (\<Union>p \<in> set S. struct_area ls w (mem e) p)))"

lemma confinedI:
  assumes "\<And>ls w e n e' R. h ls w e = Some (n, e') \<Longrightarrow> A \<subseteq> R \<Longrightarrow> result_area ls w \<subseteq> R \<Longrightarrow>
      (\<And>i k a. (i, k) \<in> set S \<Longrightarrow> slot ls w i 0 e = Some a \<Longrightarrow> {GET_LS_PTR ls a..<GET_LS_PTR ls a + k} \<subseteq> R) \<Longrightarrow>
      (\<And>i. i \<in> D \<Longrightarrow> {LS_ARG_ADDR ls w i..<LS_ARG_ADDR ls w i + 4} \<inter> A = {}) \<Longrightarrow>
      same_outside (mem e) (mem e') R"
  shows "confined A D S h"
  unfolding confined_def
proof (intro allI impI)
  fix ls w and e :: "'a env" and n e'
  assume d: "\<forall>i \<in> D. {LS_ARG_ADDR ls w i..<LS_ARG_ADDR ls w i + 4} \<inter> A = {}" and h: "h ls w e = Some (n, e')"
  have "{GET_LS_PTR ls a..<GET_LS_PTR ls a + k} \<subseteq> (\<Union>p \<in> set S. struct_area ls w (mem e) p)"
    if "(i, k) \<in> set S" "slot ls w i 0 e = Some a" for i k a
    using that by (auto simp: struct_area_def slot_def intro!: bexI [of _ "(i, k)"])
  then show "same_outside (mem e) (mem e') (A \<union> result_area ls w \<union> (\<Union>p \<in> set S. struct_area ls w (mem e) p))"
    by (intro assms [OF h]) (use d in blast)+
qed

text \<open>
  One rule per step, backwards: the memory after the step differs from the first one in the
  same places at most.
\<close>

named_theorems confine_intros \<open>what one step of a handler keeps of the memory\<close>

declare same_outside_refl [confine_intros]

lemma same_outside_join:
  "same_outside m m' R \<Longrightarrow> same_outside m' m'' R \<Longrightarrow> same_outside m m'' R"
  by (auto simp: same_outside_def)

lemma quiet_sys_mem:
  assumes "sys K (LibCall f xs) e = (r, e1)" "quiet A K"
  shows "same_outside (mem e) (mem e1) A"
proof -
  obtain r' m' w' where k: "K (LibCall f xs) (mem e, world e) = (r', m', w')" by (metis prod_cases3)
  then have "same_outside (mem e) m' A" using assms(2) unfolding quiet_def by (metis fst_conv snd_conv)
  moreover have "mem e1 = m'" using assms(1) k by (auto simp: sys_def)
  ultimately show ?thesis by simp
qed

lemma quiet_sys [confine_intros]:
  "sys K (LibCall f xs) e = (r, e1) \<Longrightarrow> quiet A K \<Longrightarrow> A \<subseteq> R \<Longrightarrow> same_outside m (mem e) R \<Longrightarrow>
   same_outside m (mem e1) R"
  by (meson quiet_sys_mem same_outside_join same_outside_mono)

lemma quiet_slot:
  assumes "sys K (LibCall f xs) e = (r, e1)" "quiet A K"
    and "{LS_ARG_ADDR ls w i..<LS_ARG_ADDR ls w i + 4} \<inter> A = {}"
  shows "slot ls w i 0 e1 = slot ls w i 0 e"
  using load_bytes_same_outside [OF quiet_sys_mem [OF assms(1,2)], of "LS_ARG_ADDR ls w i" 4] assms(3)
  by (simp add: slot_def load32_def)

lemma quiet_libcall [confine_intros]:
  "libcall K f xs e = (n, e1) \<Longrightarrow> quiet A K \<Longrightarrow> A \<subseteq> R \<Longrightarrow> same_outside m (mem e) R \<Longrightarrow>
   same_outside m (mem e1) R"
  by (auto simp: libcall_def sys_rv_def split: prod.splits dest: quiet_sys)

lemma quiet_snd [confine_intros]:
  "quiet A K \<Longrightarrow> A \<subseteq> R \<Longrightarrow> same_outside m (mem e) R \<Longrightarrow>
   same_outside m (mem (snd (libcall K f xs e))) R"
  by (rule quiet_libcall [of K f xs e "fst (libcall K f xs e)"]) simp_all

lemma PUT_LS_RC_confined [confine_intros]:
  "PUT_LS_RC ls w a b c d e = Some e' \<Longrightarrow> result_area ls w \<subseteq> R \<Longrightarrow> same_outside m (mem e) R \<Longrightarrow>
   same_outside m (mem e') R"
  by (meson PUT_LS_RC_outside same_outside_join same_outside_mono)

lemma put_rc_confined [confine_intros]:
  "put_rc ls w (rc, e) = Some (n, e') \<Longrightarrow> result_area ls w \<subseteq> R \<Longrightarrow> same_outside m (mem e) R \<Longrightarrow>
   same_outside m (mem e') R"
  by (auto simp: put_rc_def split: Option.bind_splits dest: PUT_LS_RC_confined)

lemma put_rc64_confined [confine_intros]:
  "put_rc64 ls w (x, e) = Some (n, e') \<Longrightarrow> result_area ls w \<subseteq> R \<Longrightarrow> same_outside m (mem e) R \<Longrightarrow>
   same_outside m (mem e') R"
  by (auto simp: put_rc64_def split: Option.bind_splits dest: PUT_LS_RC_confined)

lemma same_outside_upd [confine_intros]:
  "same_outside m m1 R \<Longrightarrow> same_outside m (mem (e\<lparr>mem := m1\<rparr>)) R"
  by simp

lemma store_words_confined:
  "store_words m1 p xs = Some m' \<Longrightarrow> {p..<p + 4 * length xs} \<subseteq> R \<Longrightarrow> same_outside m m1 R \<Longrightarrow>
   same_outside m m' R"
  by (meson store_words_outside same_outside_join same_outside_mono)

lemma put_libcall_confined [confine_intros]:
  "put_rc ls w (libcall K f xs e) = Some (n, e') \<Longrightarrow> quiet A K \<Longrightarrow> A \<subseteq> R \<Longrightarrow> result_area ls w \<subseteq> R \<Longrightarrow>
   same_outside m (mem e) R \<Longrightarrow> same_outside m (mem e') R"
  by (cases "libcall K f xs e") (metis put_rc_confined quiet_libcall)

lemma plain_call_confined [simp]:
  assumes "quiet A K"
  shows "confined A D [] (plain_call K f ks)"
  by (rule confinedI)
    (clarsimp simp: plain_call_def split: Option.bind_splits,
      (assumption | rule assms same_outside_refl | erule confine_intros)+)

end
