(* ===== verification/Handler_Posix1.thy ===== *)
theory Handler_Posix1
  imports Handler_Utils
begin

unbundle bit_operations_syntax

text \<open>
  The default handler of the POSIX.1 library calls (\<open>spebase/default_posix1_handler.c\<close>): one
  definition per handler, in the order of the file, the table of the handlers and the
  dispatch function. A call of the C library is the request \<open>LibCall\<close> with the function's name
  and its arguments; a structure passed by address appears as the numbers in its fields, before
  the call among the arguments and after it in the reply (\<open>nth_val\<close>).

  The shared memory calls are disabled in the source (\<open>SPE_POSIX1_SHM_CALLS\<close> is not defined).
\<close>

section \<open>Conversions\<close>

text \<open>The 256 bytes of \<open>d_name\<close>, and \<open>spe_copy_dirent\<close>.\<close>

definition d_name :: "reply \<Rightarrow> u8 list" where
  "d_name r = take 256 (rbytes r @ replicate 256 0)"

definition spe_copy_dirent :: "memory \<Rightarrow> addr \<Rightarrow> reply \<Rightarrow> memory option" where
  "spe_copy_dirent m spe_ent ent =
     do { m1 \<leftarrow> store32 m spe_ent (of_int (nth_val ent 0)); store_bytes m1 (spe_ent + 4) (d_name ent) }"

text \<open>The thirteen fields of \<open>struct stat\<close>, each cut to 32 bits, copied to the second argument.\<close>

definition copy_stat :: "addr \<Rightarrow> u32 \<Rightarrow> reply \<Rightarrow> 'w env \<Rightarrow> 'w env option" where
  "copy_stat ls opdata r e =
     (if rv r = 0 then do {
        a1 \<leftarrow> slot ls opdata 1 0 e;
        m \<leftarrow> store_words (mem e) (GET_LS_PTR ls a1) (vals r 13);
        Some (e\<lparr>mem := m\<rparr>) }
      else Some e)"

text \<open>
  The twenty named fields of \<open>struct spe_compat_timex\<close>; the first one is unsigned.
\<close>

fun load_words :: "memory \<Rightarrow> addr \<Rightarrow> nat \<Rightarrow> u32 list option" where
  "load_words m a 0 = Some []"
| "load_words m a (Suc n) = do { w \<leftarrow> load32 m a; ws \<leftarrow> load_words m (a + 4) n; Some (w # ws) }"

definition load_timex :: "memory \<Rightarrow> addr \<Rightarrow> int list option" where
  "load_timex m buf =
     do { modes \<leftarrow> load32 m buf; ws \<leftarrow> load_words m (buf + 4) 19; Some (uint modes # map sint ws) }"

text \<open>
  The vectors of \<open>readv\<close> and \<open>writev\<close>: \<open>count\<close> pairs of address and length, converted to
  addresses of the process. The sum of the lengths must fit a signed 32-bit result.
\<close>

abbreviation (input) IOV_MAX :: int where "IOV_MAX \<equiv> 1024"
abbreviation (input) SPU_SSIZE_MAX :: int where "SPU_SSIZE_MAX \<equiv> 0x7fffffff"

fun conv_loop ::
  "addr \<Rightarrow> memory \<Rightarrow> addr \<Rightarrow> nat \<Rightarrow> int \<Rightarrow> (addr \<times> int) list \<Rightarrow> ((addr \<times> int) list option) option" where
  "conv_loop ls m lsvec 0 acc vec = Some (Some vec)"
| "conv_loop ls m lsvec (Suc n) acc vec =
     do { iov_base \<leftarrow> load32 m lsvec; iov_len \<leftarrow> load32 m (lsvec + 4);
          if acc + uint iov_len > SPU_SSIZE_MAX then Some None
          else conv_loop ls m (lsvec + 8) n (acc + uint iov_len)
                 (vec @ [(GET_LS_PTR ls iov_base, uint iov_len)]) }"

definition check_conv_spuvec ::
  "addr \<Rightarrow> addr \<Rightarrow> int \<Rightarrow> 'w env \<Rightarrow> (int \<times> (addr \<times> int) list \<times> 'w env) option" where
  "check_conv_spuvec ls lsvec n e =
     (if n > IOV_MAX then Some (-1, [], set_errno EINVAL e)
      else do {
        c \<leftarrow> conv_loop ls (mem e) lsvec (nat n) 0 [];
        case c of None \<Rightarrow> Some (-1, [], set_errno EINVAL e)
        | Some vec \<Rightarrow> Some (0, vec, e) })"

definition iovec_args :: "(addr \<times> int) list \<Rightarrow> int list" where
  "iovec_args vec = concat (map (\<lambda>(b, n). [int b, n]) vec)"

section \<open>The handlers\<close>

definition default_posix1_handler_stat :: "'w kernel \<Rightarrow> 'w env lib_handler" where
  "default_posix1_handler_stat K ls opdata e =
     do { file_name \<leftarrow> slot ls opdata 0 0 e;
          let (r, e1) = sys K (LibCall ''stat'' [int (GET_LS_PTR ls file_name)]) e;
          e2 \<leftarrow> copy_stat ls opdata r e1;
          put_rc ls opdata (rv r, e2) }"

definition default_posix1_handler_fstat :: "'w kernel \<Rightarrow> 'w env lib_handler" where
  "default_posix1_handler_fstat K ls opdata e =
     do { filedes \<leftarrow> slot ls opdata 0 0 e;
          let (r, e1) = sys K (LibCall ''fstat'' [sint filedes]) e;
          e2 \<leftarrow> copy_stat ls opdata r e1;
          put_rc ls opdata (rv r, e2) }"

definition default_posix1_handler_lstat :: "'w kernel \<Rightarrow> 'w env lib_handler" where
  "default_posix1_handler_lstat K ls opdata e =
     do { file_name \<leftarrow> slot ls opdata 0 0 e;
          let (r, e1) = sys K (LibCall ''lstat'' [int (GET_LS_PTR ls file_name)]) e;
          e2 \<leftarrow> copy_stat ls opdata r e1;
          put_rc ls opdata (rv r, e2) }"

definition default_posix1_handler_open :: "'w kernel \<Rightarrow> 'w env lib_handler" where
  "default_posix1_handler_open K ls opdata e =
     do { pathname \<leftarrow> slot ls opdata 0 0 e; flags \<leftarrow> slot ls opdata 1 0 e;
          mode \<leftarrow> slot ls opdata 2 0 e;
          put_rc ls opdata (libcall K ''open'' [int (GET_LS_PTR ls pathname), sint flags, uint mode] e) }"

definition default_posix1_handler_access :: "'w kernel \<Rightarrow> 'w env lib_handler" where
  "default_posix1_handler_access K ls opdata e =
     do { pathname \<leftarrow> slot ls opdata 0 0 e; mode \<leftarrow> slot ls opdata 1 0 e;
          put_rc ls opdata (libcall K ''access'' [int (GET_LS_PTR ls pathname), sint mode] e) }"

definition default_posix1_handler_creat :: "'w kernel \<Rightarrow> 'w env lib_handler" where
  "default_posix1_handler_creat K ls opdata e =
     do { pathname \<leftarrow> slot ls opdata 0 0 e; mode \<leftarrow> slot ls opdata 1 0 e;
          put_rc ls opdata (libcall K ''creat'' [int (GET_LS_PTR ls pathname), uint mode] e) }"

definition default_posix1_handler_close :: "'w kernel \<Rightarrow> 'w env lib_handler" where
  "default_posix1_handler_close K ls opdata e =
     do { fd \<leftarrow> slot ls opdata 0 0 e;
          put_rc ls opdata (libcall K ''close'' [sint fd] e) }"

definition default_posix1_handler_dup :: "'w kernel \<Rightarrow> 'w env lib_handler" where
  "default_posix1_handler_dup K ls opdata e =
     do { oldfd \<leftarrow> slot ls opdata 0 0 e;
          put_rc ls opdata (libcall K ''dup'' [sint oldfd] e) }"

definition default_posix1_handler_time :: "'w kernel \<Rightarrow> 'w env lib_handler" where
  "default_posix1_handler_time K ls opdata e =
     do { t \<leftarrow> slot ls opdata 0 0 e;
          put_rc ls opdata (libcall K ''time'' [int (GET_LS_PTR ls t)] e) }"

definition default_posix1_handler_read :: "'w kernel \<Rightarrow> 'w env lib_handler" where
  "default_posix1_handler_read K ls opdata e =
     do { fd \<leftarrow> slot ls opdata 0 0 e; buf \<leftarrow> slot ls opdata 1 0 e;
          count \<leftarrow> slot ls opdata 2 0 e;
          put_rc ls opdata (libcall K ''read'' [sint fd, int (GET_LS_PTR ls buf), uint count] e) }"

definition default_posix1_handler_write :: "'w kernel \<Rightarrow> 'w env lib_handler" where
  "default_posix1_handler_write K ls opdata e =
     do { fd \<leftarrow> slot ls opdata 0 0 e; buf \<leftarrow> slot ls opdata 1 0 e;
          count \<leftarrow> slot ls opdata 2 0 e;
          put_rc ls opdata (libcall K ''write'' [sint fd, int (GET_LS_PTR ls buf), uint count] e) }"

definition default_posix1_handler_lseek :: "'w kernel \<Rightarrow> 'w env lib_handler" where
  "default_posix1_handler_lseek K ls opdata e =
     do { fildes \<leftarrow> slot ls opdata 0 0 e; offset \<leftarrow> slot ls opdata 1 0 e;
          whence \<leftarrow> slot ls opdata 2 0 e;
          put_rc ls opdata (libcall K ''lseek'' [sint fildes, sint offset, sint whence] e) }"

definition default_posix1_handler_ftruncate :: "'w kernel \<Rightarrow> 'w env lib_handler" where
  "default_posix1_handler_ftruncate K ls opdata e =
     do { fd \<leftarrow> slot ls opdata 0 0 e; length \<leftarrow> slot ls opdata 1 0 e;
          put_rc ls opdata (libcall K ''ftruncate'' [sint fd, sint length] e) }"

definition default_posix1_handler_unlink :: "'w kernel \<Rightarrow> 'w env lib_handler" where
  "default_posix1_handler_unlink K ls opdata e =
     do { pathname \<leftarrow> slot ls opdata 0 0 e;
          put_rc ls opdata (libcall K ''unlink'' [int (GET_LS_PTR ls pathname)] e) }"

definition default_posix1_handler_mmap :: "'w kernel \<Rightarrow> 'w env lib_handler" where
  "default_posix1_handler_mmap K ls opdata e =
     do { start \<leftarrow> slot64 ls opdata 0 e; length \<leftarrow> slot ls opdata 1 0 e;
          prot \<leftarrow> slot ls opdata 2 0 e; flags \<leftarrow> slot ls opdata 3 0 e;
          fd \<leftarrow> slot ls opdata 4 0 e; offset \<leftarrow> slot ls opdata 5 0 e;
          let (mmap_addr, e1) = libcall K ''mmap''
            [uint start, uint length, sint prot, sint flags, sint fd, sint offset] e;
          put_rc64 ls opdata (if mmap_addr = -1 then -1 else of_int mmap_addr, e1) }"

definition default_posix1_handler_munmap :: "'w kernel \<Rightarrow> 'w env lib_handler" where
  "default_posix1_handler_munmap K ls opdata e =
     do { start \<leftarrow> slot64 ls opdata 0 e; length \<leftarrow> slot ls opdata 1 0 e;
          put_rc ls opdata (libcall K ''munmap'' [uint start, uint length] e) }"

definition default_posix1_handler_mremap :: "'w kernel \<Rightarrow> 'w env lib_handler" where
  "default_posix1_handler_mremap K ls opdata e =
     do { old_address \<leftarrow> slot64 ls opdata 0 e; old_size \<leftarrow> slot ls opdata 1 0 e;
          new_size \<leftarrow> slot ls opdata 2 0 e; flags \<leftarrow> slot ls opdata 3 0 e;
          let (addr, e1) = libcall K ''mremap''
            [uint old_address, uint old_size, uint new_size, uint flags] e;
          put_rc64 ls opdata (of_int addr, e1) }"

definition default_posix1_handler_msync :: "'w kernel \<Rightarrow> 'w env lib_handler" where
  "default_posix1_handler_msync K ls opdata e =
     do { start \<leftarrow> slot64 ls opdata 0 e; length \<leftarrow> slot ls opdata 1 0 e;
          flags \<leftarrow> slot ls opdata 2 0 e;
          put_rc ls opdata (libcall K ''msync'' [uint start, uint length, sint flags] e) }"

definition default_posix1_handler_shm_open :: "'w kernel \<Rightarrow> 'w env lib_handler" where
  "default_posix1_handler_shm_open K ls opdata e =
     do { e1 \<leftarrow> PUT_LS_RC ls opdata (-1) 0 0 ENOSYS e; Some (0, e1) }"

definition default_posix1_handler_shm_unlink :: "'w kernel \<Rightarrow> 'w env lib_handler" where
  "default_posix1_handler_shm_unlink K ls opdata e =
     do { e1 \<leftarrow> PUT_LS_RC ls opdata (-1) 0 0 ENOSYS e; Some (0, e1) }"

definition default_posix1_handler_shmat :: "'w kernel \<Rightarrow> 'w env lib_handler" where
  "default_posix1_handler_shmat K ls opdata e =
     do { e1 \<leftarrow> PUT_LS_RC ls opdata (-1) 0 0 ENOSYS e; Some (0, e1) }"

definition default_posix1_handler_shmdt :: "'w kernel \<Rightarrow> 'w env lib_handler" where
  "default_posix1_handler_shmdt K ls opdata e =
     do { e1 \<leftarrow> PUT_LS_RC ls opdata (-1) 0 0 ENOSYS e; Some (0, e1) }"

definition default_posix1_handler_shmctl :: "'w kernel \<Rightarrow> 'w env lib_handler" where
  "default_posix1_handler_shmctl K ls opdata e =
     do { e1 \<leftarrow> PUT_LS_RC ls opdata (-1) 0 0 ENOSYS e; Some (0, e1) }"

definition default_posix1_handler_shmget :: "'w kernel \<Rightarrow> 'w env lib_handler" where
  "default_posix1_handler_shmget K ls opdata e =
     do { e1 \<leftarrow> PUT_LS_RC ls opdata (-1) 0 0 ENOSYS e; Some (0, e1) }"

definition default_posix1_handler_ftok :: "'w kernel \<Rightarrow> 'w env lib_handler" where
  "default_posix1_handler_ftok K ls opdata e =
     do { pathname \<leftarrow> slot ls opdata 0 0 e; proj_id \<leftarrow> slot ls opdata 1 0 e;
          put_rc ls opdata (libcall K ''ftok'' [int (GET_LS_PTR ls pathname), sint proj_id] e) }"

definition default_posix1_handler_getpagesize :: "'w kernel \<Rightarrow> 'w env lib_handler" where
  "default_posix1_handler_getpagesize K ls opdata e =
     do { let (sz, e1) = libcall K ''getpagesize'' [] e;
          e2 \<leftarrow> PUT_LS_RC ls opdata sz 0 0 0 e1; Some (0, e2) }"

definition default_posix1_handler_wait :: "'w kernel \<Rightarrow> 'w env lib_handler" where
  "default_posix1_handler_wait K ls opdata e =
     do { status \<leftarrow> slot ls opdata 0 0 e;
          put_rc ls opdata (libcall K ''wait'' [int (GET_LS_PTR ls status)] e) }"

definition default_posix1_handler_waitpid :: "'w kernel \<Rightarrow> 'w env lib_handler" where
  "default_posix1_handler_waitpid K ls opdata e =
     do { pid \<leftarrow> slot ls opdata 0 0 e; status \<leftarrow> slot ls opdata 1 0 e;
          options \<leftarrow> slot ls opdata 2 0 e;
          put_rc ls opdata (libcall K ''waitpid'' [sint pid, int (GET_LS_PTR ls status), sint options] e) }"

definition default_posix1_handler_kill :: "'w kernel \<Rightarrow> 'w env lib_handler" where
  "default_posix1_handler_kill K ls opdata e =
     do { pid \<leftarrow> slot ls opdata 0 0 e; sig \<leftarrow> slot ls opdata 1 0 e;
          put_rc ls opdata (libcall K ''kill'' [sint pid, sint sig] e) }"

definition default_posix1_handler_adjtimex :: "'w kernel \<Rightarrow> 'w env lib_handler" where
  "default_posix1_handler_adjtimex K ls opdata e =
     do { a0 \<leftarrow> slot ls opdata 0 0 e;
          let buf = GET_LS_PTR ls a0;
          local \<leftarrow> load_timex (mem e) buf;
          let (r, e1) = sys K (LibCall ''adjtimex'' local) e;
          m \<leftarrow> (if rv r = 0 then store_words (mem e1) buf (vals r 20) else Some (mem e1));
          put_rc ls opdata (rv r, e1\<lparr>mem := m\<rparr>) }"

definition default_posix1_handler_gettimeofday :: "'w kernel \<Rightarrow> 'w env lib_handler" where
  "default_posix1_handler_gettimeofday K ls opdata e =
     do { a0 \<leftarrow> slot ls opdata 0 0 e; a1 \<leftarrow> slot ls opdata 1 0 e;
          let tv = GET_LS_PTR ls a0; let tz = GET_LS_PTR ls a1;
          let (r, e1) = sys K (LibCall ''gettimeofday'' []) e;
          e2 \<leftarrow> (if rv r = 0 then do {
                  b0 \<leftarrow> slot ls opdata 0 0 e1;
                  m \<leftarrow> (if b0 \<noteq> 0 then store_words (mem e1) tv [nth_val r 0, nth_val r 1] else Some (mem e1));
                  b1 \<leftarrow> slot ls opdata 1 0 (e1\<lparr>mem := m\<rparr>);
                  m1 \<leftarrow> (if b1 \<noteq> 0 then store_words m tz [nth_val r 2] else Some m);
                  Some (e1\<lparr>mem := m1\<rparr>) }
                else Some e1);
          put_rc ls opdata (rv r, e2) }"

definition default_posix1_handler_nanosleep :: "'w kernel \<Rightarrow> 'w env lib_handler" where
  "default_posix1_handler_nanosleep K ls opdata e =
     do { a0 \<leftarrow> slot ls opdata 0 0 e;
          let spereq = GET_LS_PTR ls a0;
          tv_sec \<leftarrow> load32 (mem e) spereq; tv_nsec \<leftarrow> load32 (mem e) (spereq + 4);
          a1 \<leftarrow> slot ls opdata 1 0 e;
          let remp = (a1 \<noteq> 0); let sperem = GET_LS_PTR ls a1;
          let (r, e1) = sys K (LibCall ''nanosleep'' [sint tv_sec, sint tv_nsec, of_bool remp]) e;
          m \<leftarrow> (if remp then store_words (mem e1) sperem [nth_val r 0, nth_val r 1] else Some (mem e1));
          put_rc ls opdata (rv r, e1\<lparr>mem := m\<rparr>) }"

definition default_posix1_handler_chdir :: "'w kernel \<Rightarrow> 'w env lib_handler" where
  "default_posix1_handler_chdir K ls opdata e =
     do { path \<leftarrow> slot ls opdata 0 0 e;
          put_rc ls opdata (libcall K ''chdir'' [int (GET_LS_PTR ls path)] e) }"

definition default_posix1_handler_fchdir :: "'w kernel \<Rightarrow> 'w env lib_handler" where
  "default_posix1_handler_fchdir K ls opdata e =
     do { fd \<leftarrow> slot ls opdata 0 0 e;
          put_rc ls opdata (libcall K ''fchdir'' [sint fd] e) }"

definition default_posix1_handler_mkdir :: "'w kernel \<Rightarrow> 'w env lib_handler" where
  "default_posix1_handler_mkdir K ls opdata e =
     do { pathname \<leftarrow> slot ls opdata 0 0 e; mode \<leftarrow> slot ls opdata 1 0 e;
          put_rc ls opdata (libcall K ''mkdir'' [int (GET_LS_PTR ls pathname), uint mode] e) }"

definition default_posix1_handler_mknod :: "'w kernel \<Rightarrow> 'w env lib_handler" where
  "default_posix1_handler_mknod K ls opdata e =
     do { pathname \<leftarrow> slot ls opdata 0 0 e; mode \<leftarrow> slot ls opdata 1 0 e;
          dev \<leftarrow> slot ls opdata 2 0 e;
          put_rc ls opdata (libcall K ''mknod'' [int (GET_LS_PTR ls pathname), uint mode, uint dev] e) }"

definition default_posix1_handler_rmdir :: "'w kernel \<Rightarrow> 'w env lib_handler" where
  "default_posix1_handler_rmdir K ls opdata e =
     do { pathname \<leftarrow> slot ls opdata 0 0 e;
          put_rc ls opdata (libcall K ''rmdir'' [int (GET_LS_PTR ls pathname)] e) }"

definition default_posix1_handler_chmod :: "'w kernel \<Rightarrow> 'w env lib_handler" where
  "default_posix1_handler_chmod K ls opdata e =
     do { path \<leftarrow> slot ls opdata 0 0 e; mode \<leftarrow> slot ls opdata 1 0 e;
          put_rc ls opdata (libcall K ''chmod'' [int (GET_LS_PTR ls path), uint mode] e) }"

definition default_posix1_handler_fchmod :: "'w kernel \<Rightarrow> 'w env lib_handler" where
  "default_posix1_handler_fchmod K ls opdata e =
     do { filedes \<leftarrow> slot ls opdata 0 0 e; mode \<leftarrow> slot ls opdata 1 0 e;
          put_rc ls opdata (libcall K ''fchmod'' [sint filedes, uint mode] e) }"

definition default_posix1_handler_chown :: "'w kernel \<Rightarrow> 'w env lib_handler" where
  "default_posix1_handler_chown K ls opdata e =
     do { path \<leftarrow> slot ls opdata 0 0 e; owner \<leftarrow> slot ls opdata 1 0 e;
          group \<leftarrow> slot ls opdata 2 0 e;
          put_rc ls opdata (libcall K ''chown'' [int (GET_LS_PTR ls path), uint owner, uint group] e) }"

definition default_posix1_handler_fchown :: "'w kernel \<Rightarrow> 'w env lib_handler" where
  "default_posix1_handler_fchown K ls opdata e =
     do { fd \<leftarrow> slot ls opdata 0 0 e; owner \<leftarrow> slot ls opdata 1 0 e;
          group \<leftarrow> slot ls opdata 2 0 e;
          put_rc ls opdata (libcall K ''fchown'' [sint fd, uint owner, uint group] e) }"

definition default_posix1_handler_lchown :: "'w kernel \<Rightarrow> 'w env lib_handler" where
  "default_posix1_handler_lchown K ls opdata e =
     do { path \<leftarrow> slot ls opdata 0 0 e; owner \<leftarrow> slot ls opdata 1 0 e;
          group \<leftarrow> slot ls opdata 2 0 e;
          put_rc ls opdata (libcall K ''lchown'' [int (GET_LS_PTR ls path), uint owner, uint group] e) }"

definition default_posix1_handler_getcwd :: "'w kernel \<Rightarrow> 'w env lib_handler" where
  "default_posix1_handler_getcwd K ls opdata e =
     do { a1 \<leftarrow> slot ls opdata 1 0 e;
          if a1 = 0 then do { e1 \<leftarrow> PUT_LS_RC ls opdata 0 0 0 EINVAL e; Some (0, e1) }
          else do {
            a0 \<leftarrow> slot ls opdata 0 0 e;
            let buf = GET_LS_PTR ls a0; let (res, e1) = libcall K ''getcwd'' [int buf, uint a1] e;
            rc \<leftarrow> (if res = int buf then map_option sint (slot ls opdata 0 0 e1) else Some 0);
            put_rc ls opdata (rc, e1) } }"

definition default_posix1_handler_link :: "'w kernel \<Rightarrow> 'w env lib_handler" where
  "default_posix1_handler_link K ls opdata e =
     do { oldpath \<leftarrow> slot ls opdata 0 0 e; newpath \<leftarrow> slot ls opdata 1 0 e;
          put_rc ls opdata (libcall K ''link'' [int (GET_LS_PTR ls oldpath), int (GET_LS_PTR ls newpath)] e) }"

definition default_posix1_handler_symlink :: "'w kernel \<Rightarrow> 'w env lib_handler" where
  "default_posix1_handler_symlink K ls opdata e =
     do { oldpath \<leftarrow> slot ls opdata 0 0 e; newpath \<leftarrow> slot ls opdata 1 0 e;
          put_rc ls opdata (libcall K ''symlink'' [int (GET_LS_PTR ls oldpath), int (GET_LS_PTR ls newpath)] e) }"

definition default_posix1_handler_readlink :: "'w kernel \<Rightarrow> 'w env lib_handler" where
  "default_posix1_handler_readlink K ls opdata e =
     do { path \<leftarrow> slot ls opdata 0 0 e; buf \<leftarrow> slot ls opdata 1 0 e;
          bufsiz \<leftarrow> slot ls opdata 2 0 e;
          put_rc ls opdata (libcall K ''readlink'' [int (GET_LS_PTR ls path), int (GET_LS_PTR ls buf), uint bufsiz] e) }"

definition default_posix1_handler_sync :: "'w kernel \<Rightarrow> 'w env lib_handler" where
  "default_posix1_handler_sync K ls opdata e =
     Some (0, snd (libcall K ''sync'' [] e))"

definition default_posix1_handler_fsync :: "'w kernel \<Rightarrow> 'w env lib_handler" where
  "default_posix1_handler_fsync K ls opdata e =
     do { fd \<leftarrow> slot ls opdata 0 0 e;
          put_rc ls opdata (libcall K ''fsync'' [sint fd] e) }"

definition default_posix1_handler_fdatasync :: "'w kernel \<Rightarrow> 'w env lib_handler" where
  "default_posix1_handler_fdatasync K ls opdata e =
     do { fd \<leftarrow> slot ls opdata 0 0 e;
          put_rc ls opdata (libcall K ''fdatasync'' [sint fd] e) }"

definition default_posix1_handler_dup2 :: "'w kernel \<Rightarrow> 'w env lib_handler" where
  "default_posix1_handler_dup2 K ls opdata e =
     do { oldfd \<leftarrow> slot ls opdata 0 0 e; newfd \<leftarrow> slot ls opdata 1 0 e;
          put_rc ls opdata (libcall K ''dup2'' [sint oldfd, sint newfd] e) }"

definition default_posix1_handler_lockf :: "'w kernel \<Rightarrow> 'w env lib_handler" where
  "default_posix1_handler_lockf K ls opdata e =
     do { fd \<leftarrow> slot ls opdata 0 0 e; cmd \<leftarrow> slot ls opdata 1 0 e;
          len \<leftarrow> slot ls opdata 2 0 e;
          put_rc ls opdata (libcall K ''lockf'' [sint fd, sint cmd, sint len] e) }"

definition default_posix1_handler_truncate :: "'w kernel \<Rightarrow> 'w env lib_handler" where
  "default_posix1_handler_truncate K ls opdata e =
     do { path \<leftarrow> slot ls opdata 0 0 e; length \<leftarrow> slot ls opdata 1 0 e;
          put_rc ls opdata (libcall K ''truncate'' [int (GET_LS_PTR ls path), sint length] e) }"

definition default_posix1_handler_mkstemp :: "'w kernel \<Rightarrow> 'w env lib_handler" where
  "default_posix1_handler_mkstemp K ls opdata e =
     do { template \<leftarrow> slot ls opdata 0 0 e;
          put_rc ls opdata (libcall K ''mkstemp'' [int (GET_LS_PTR ls template)] e) }"

definition default_posix1_handler_mktemp :: "'w kernel \<Rightarrow> 'w env lib_handler" where
  "default_posix1_handler_mktemp K ls opdata e =
     do { a0 \<leftarrow> slot ls opdata 0 0 e;
          let (_, e1) = libcall K ''mktemp'' [int (GET_LS_PTR ls a0)] e;
          rc \<leftarrow> slot ls opdata 0 0 e1;
          put_rc ls opdata (sint rc, e1) }"

definition default_posix1_handler_opendir :: "'w kernel \<Rightarrow> 'w env lib_handler" where
  "default_posix1_handler_opendir K ls opdata e =
     do { name \<leftarrow> slot ls opdata 0 0 e;
          let (dir, e1) = libcall K ''opendir'' [int (GET_LS_PTR ls name)] e;
          put_rc64 ls opdata (of_int dir, e1) }"

definition default_posix1_handler_closedir :: "'w kernel \<Rightarrow> 'w env lib_handler" where
  "default_posix1_handler_closedir K ls opdata e =
     do { dir \<leftarrow> slot64 ls opdata 0 e;
          put_rc ls opdata (libcall K ''closedir'' [uint dir] e) }"

definition default_posix1_handler_readdir :: "'w kernel \<Rightarrow> 'w env lib_handler" where
  "default_posix1_handler_readdir K ls opdata e =
     do { dir \<leftarrow> slot64 ls opdata 0 e; a1 \<leftarrow> slot ls opdata 1 0 e;
          let spe_ent = GET_LS_PTR ls a1; let (r, e1) = sys K (LibCall ''readdir'' [uint dir]) e;
          if rv r \<noteq> 0 then do {
            m \<leftarrow> spe_copy_dirent (mem e1) spe_ent r;
            let e2 = e1\<lparr>mem := m\<rparr>;
            rc \<leftarrow> slot ls opdata 1 0 e2;
            put_rc ls opdata (sint rc, e2) }
          else put_rc ls opdata (0, e1) }"

definition default_posix1_handler_rewinddir :: "'w kernel \<Rightarrow> 'w env lib_handler" where
  "default_posix1_handler_rewinddir K ls opdata e =
     do { dir \<leftarrow> slot64 ls opdata 0 e;
          let (_, e1) = libcall K ''rewinddir'' [uint dir] e;
          e2 \<leftarrow> PUT_LS_RC ls opdata 0 0 0 0 e1; Some (0, e2) }"

definition default_posix1_handler_seekdir :: "'w kernel \<Rightarrow> 'w env lib_handler" where
  "default_posix1_handler_seekdir K ls opdata e =
     do { dir \<leftarrow> slot64 ls opdata 0 e; offset \<leftarrow> slot ls opdata 1 0 e;
          let (_, e1) = libcall K ''seekdir'' [uint dir, sint offset] e;
          e2 \<leftarrow> PUT_LS_RC ls opdata 0 0 0 0 e1; Some (0, e2) }"

definition default_posix1_handler_telldir :: "'w kernel \<Rightarrow> 'w env lib_handler" where
  "default_posix1_handler_telldir K ls opdata e =
     do { dir \<leftarrow> slot64 ls opdata 0 e;
          put_rc ls opdata (libcall K ''telldir'' [uint dir] e) }"

definition default_posix1_handler_sched_yield :: "'w kernel \<Rightarrow> 'w env lib_handler" where
  "default_posix1_handler_sched_yield K ls opdata e =
     do { e1 \<leftarrow> PUT_LS_RC ls opdata 0 0 0 0 e; Some (0, e1) }"

definition default_posix1_handler_umask :: "'w kernel \<Rightarrow> 'w env lib_handler" where
  "default_posix1_handler_umask K ls opdata e =
     do { mask \<leftarrow> slot ls opdata 0 0 e;
          put_rc ls opdata (libcall K ''umask'' [uint mask] e) }"

definition default_posix1_handler_utime :: "'w kernel \<Rightarrow> 'w env lib_handler" where
  "default_posix1_handler_utime K ls opdata e =
     do { filename \<leftarrow> slot ls opdata 0 0 e; a1 \<leftarrow> slot ls opdata 1 0 e;
          let spebuf = GET_LS_PTR ls a1;
          actime \<leftarrow> load32 (mem e) spebuf; modtime \<leftarrow> load32 (mem e) (spebuf + 4);
          put_rc ls opdata (libcall K ''utime''
            [int (GET_LS_PTR ls filename), sint actime, sint modtime] e) }"

definition default_posix1_handler_utimes :: "'w kernel \<Rightarrow> 'w env lib_handler" where
  "default_posix1_handler_utimes K ls opdata e =
     do { filename \<leftarrow> slot ls opdata 0 0 e; a1 \<leftarrow> slot ls opdata 1 0 e;
          let spetimes = GET_LS_PTR ls a1;
          s0 \<leftarrow> load32 (mem e) spetimes; u0 \<leftarrow> load32 (mem e) (spetimes + 4);
          s1 \<leftarrow> load32 (mem e) (spetimes + 8); u1 \<leftarrow> load32 (mem e) (spetimes + 12);
          put_rc ls opdata (libcall K ''utimes''
            [int (GET_LS_PTR ls filename), sint s0, sint u0, sint s1, sint u1] e) }"

definition default_posix1_handler_pread :: "'w kernel \<Rightarrow> 'w env lib_handler" where
  "default_posix1_handler_pread K ls opdata e =
     do { fd \<leftarrow> slot ls opdata 0 0 e; buf \<leftarrow> slot ls opdata 1 0 e;
          count \<leftarrow> slot ls opdata 2 0 e; offset \<leftarrow> slot ls opdata 3 0 e;
          put_rc ls opdata (libcall K ''pread'' [sint fd, int (GET_LS_PTR ls buf), uint count, sint offset] e) }"

definition default_posix1_handler_pwrite :: "'w kernel \<Rightarrow> 'w env lib_handler" where
  "default_posix1_handler_pwrite K ls opdata e =
     do { fd \<leftarrow> slot ls opdata 0 0 e; buf \<leftarrow> slot ls opdata 1 0 e;
          count \<leftarrow> slot ls opdata 2 0 e; offset \<leftarrow> slot ls opdata 3 0 e;
          put_rc ls opdata (libcall K ''pwrite'' [sint fd, int (GET_LS_PTR ls buf), uint count, sint offset] e) }"

definition default_posix1_handler_readv :: "'w kernel \<Rightarrow> 'w env lib_handler" where
  "default_posix1_handler_readv K ls opdata e =
     do { fd \<leftarrow> slot ls opdata 0 0 e; a1 \<leftarrow> slot ls opdata 1 0 e; count \<leftarrow> slot ls opdata 2 0 e;
          let lsvec = GET_LS_PTR ls a1;
          (rc, vec, e1) \<leftarrow> check_conv_spuvec ls lsvec (sint count) e;
          if rc = 0 then put_rc ls opdata (libcall K ''readv'' (sint fd # sint count # iovec_args vec) e1)
          else put_rc ls opdata (rc, e1) }"

definition default_posix1_handler_writev :: "'w kernel \<Rightarrow> 'w env lib_handler" where
  "default_posix1_handler_writev K ls opdata e =
     do { fd \<leftarrow> slot ls opdata 0 0 e; a1 \<leftarrow> slot ls opdata 1 0 e; count \<leftarrow> slot ls opdata 2 0 e;
          let lsvec = GET_LS_PTR ls a1;
          (rc, vec, e1) \<leftarrow> check_conv_spuvec ls lsvec (sint count) e;
          if rc = 0 then put_rc ls opdata (libcall K ''writev'' (sint fd # sint count # iovec_args vec) e1)
          else put_rc ls opdata (rc, e1) }"

section \<open>Dispatch\<close>

definition default_posix1_funcs :: "'w kernel \<Rightarrow> 'w env lib_handler option list" where
  "default_posix1_funcs K =
     [None,
      Some (default_posix1_handler_adjtimex K),
      Some (default_posix1_handler_close K),
      Some (default_posix1_handler_creat K),
      Some (default_posix1_handler_fstat K),
      Some (default_posix1_handler_ftok K),
      Some (default_posix1_handler_getpagesize K),
      Some (default_posix1_handler_gettimeofday K),
      Some (default_posix1_handler_kill K),
      Some (default_posix1_handler_lseek K),
      Some (default_posix1_handler_lstat K),
      Some (default_posix1_handler_mmap K),
      Some (default_posix1_handler_mremap K),
      Some (default_posix1_handler_msync K),
      Some (default_posix1_handler_munmap K),
      Some (default_posix1_handler_open K),
      Some (default_posix1_handler_read K),
      Some (default_posix1_handler_shmat K),
      Some (default_posix1_handler_shmctl K),
      Some (default_posix1_handler_shmdt K),
      Some (default_posix1_handler_shmget K),
      Some (default_posix1_handler_shm_open K),
      Some (default_posix1_handler_shm_unlink K),
      Some (default_posix1_handler_stat K),
      Some (default_posix1_handler_unlink K),
      Some (default_posix1_handler_wait K),
      Some (default_posix1_handler_waitpid K),
      Some (default_posix1_handler_write K),
      Some (default_posix1_handler_ftruncate K),
      Some (default_posix1_handler_access K),
      Some (default_posix1_handler_dup K),
      Some (default_posix1_handler_time K),
      Some (default_posix1_handler_nanosleep K),
      Some (default_posix1_handler_chdir K),
      Some (default_posix1_handler_fchdir K),
      Some (default_posix1_handler_mkdir K),
      Some (default_posix1_handler_mknod K),
      Some (default_posix1_handler_rmdir K),
      Some (default_posix1_handler_chmod K),
      Some (default_posix1_handler_fchmod K),
      Some (default_posix1_handler_chown K),
      Some (default_posix1_handler_fchown K),
      Some (default_posix1_handler_lchown K),
      Some (default_posix1_handler_getcwd K),
      Some (default_posix1_handler_link K),
      Some (default_posix1_handler_symlink K),
      Some (default_posix1_handler_readlink K),
      Some (default_posix1_handler_sync K),
      Some (default_posix1_handler_fsync K),
      Some (default_posix1_handler_fdatasync K),
      Some (default_posix1_handler_dup2 K),
      Some (default_posix1_handler_lockf K),
      Some (default_posix1_handler_truncate K),
      Some (default_posix1_handler_mkstemp K),
      Some (default_posix1_handler_mktemp K),
      Some (default_posix1_handler_opendir K),
      Some (default_posix1_handler_closedir K),
      Some (default_posix1_handler_readdir K),
      Some (default_posix1_handler_rewinddir K),
      Some (default_posix1_handler_seekdir K),
      Some (default_posix1_handler_telldir K),
      Some (default_posix1_handler_sched_yield K),
      Some (default_posix1_handler_umask K),
      Some (default_posix1_handler_utime K),
      Some (default_posix1_handler_utimes K),
      Some (default_posix1_handler_pread K),
      Some (default_posix1_handler_pwrite K),
      Some (default_posix1_handler_readv K),
      Some (default_posix1_handler_writev K)]"

definition base_spe_default_posix1_handler :: "'w kernel \<Rightarrow> addr \<Rightarrow> u32 \<Rightarrow> 'w env \<Rightarrow> (int \<times> 'w env) option" where
  "base_spe_default_posix1_handler K base offset e =
     dispatch (default_posix1_funcs K) (mem e) base offset e"

section \<open>The handlers and their signatures\<close>

lemma posix1_plain:
  "default_posix1_handler_open K = plain_call K ''open'' [LsPtr, Signed, Unsigned]"
  "default_posix1_handler_access K = plain_call K ''access'' [LsPtr, Signed]"
  "default_posix1_handler_creat K = plain_call K ''creat'' [LsPtr, Unsigned]"
  "default_posix1_handler_close K = plain_call K ''close'' [Signed]"
  "default_posix1_handler_dup K = plain_call K ''dup'' [Signed]"
  "default_posix1_handler_time K = plain_call K ''time'' [LsPtr]"
  "default_posix1_handler_read K = plain_call K ''read'' [Signed, LsPtr, Unsigned]"
  "default_posix1_handler_write K = plain_call K ''write'' [Signed, LsPtr, Unsigned]"
  "default_posix1_handler_lseek K = plain_call K ''lseek'' [Signed, Signed, Signed]"
  "default_posix1_handler_ftruncate K = plain_call K ''ftruncate'' [Signed, Signed]"
  "default_posix1_handler_unlink K = plain_call K ''unlink'' [LsPtr]"
  "default_posix1_handler_munmap K = plain_call K ''munmap'' [Addr64, Unsigned]"
  "default_posix1_handler_msync K = plain_call K ''msync'' [Addr64, Unsigned, Signed]"
  "default_posix1_handler_ftok K = plain_call K ''ftok'' [LsPtr, Signed]"
  "default_posix1_handler_wait K = plain_call K ''wait'' [LsPtr]"
  "default_posix1_handler_waitpid K = plain_call K ''waitpid'' [Signed, LsPtr, Signed]"
  "default_posix1_handler_kill K = plain_call K ''kill'' [Signed, Signed]"
  "default_posix1_handler_chdir K = plain_call K ''chdir'' [LsPtr]"
  "default_posix1_handler_fchdir K = plain_call K ''fchdir'' [Signed]"
  "default_posix1_handler_mkdir K = plain_call K ''mkdir'' [LsPtr, Unsigned]"
  "default_posix1_handler_mknod K = plain_call K ''mknod'' [LsPtr, Unsigned, Unsigned]"
  "default_posix1_handler_rmdir K = plain_call K ''rmdir'' [LsPtr]"
  "default_posix1_handler_chmod K = plain_call K ''chmod'' [LsPtr, Unsigned]"
  "default_posix1_handler_fchmod K = plain_call K ''fchmod'' [Signed, Unsigned]"
  "default_posix1_handler_chown K = plain_call K ''chown'' [LsPtr, Unsigned, Unsigned]"
  "default_posix1_handler_fchown K = plain_call K ''fchown'' [Signed, Unsigned, Unsigned]"
  "default_posix1_handler_lchown K = plain_call K ''lchown'' [LsPtr, Unsigned, Unsigned]"
  "default_posix1_handler_link K = plain_call K ''link'' [LsPtr, LsPtr]"
  "default_posix1_handler_symlink K = plain_call K ''symlink'' [LsPtr, LsPtr]"
  "default_posix1_handler_readlink K = plain_call K ''readlink'' [LsPtr, LsPtr, Unsigned]"
  "default_posix1_handler_fsync K = plain_call K ''fsync'' [Signed]"
  "default_posix1_handler_fdatasync K = plain_call K ''fdatasync'' [Signed]"
  "default_posix1_handler_dup2 K = plain_call K ''dup2'' [Signed, Signed]"
  "default_posix1_handler_lockf K = plain_call K ''lockf'' [Signed, Signed, Signed]"
  "default_posix1_handler_truncate K = plain_call K ''truncate'' [LsPtr, Signed]"
  "default_posix1_handler_mkstemp K = plain_call K ''mkstemp'' [LsPtr]"
  "default_posix1_handler_closedir K = plain_call K ''closedir'' [Addr64]"
  "default_posix1_handler_telldir K = plain_call K ''telldir'' [Addr64]"
  "default_posix1_handler_umask K = plain_call K ''umask'' [Unsigned]"
  "default_posix1_handler_pread K = plain_call K ''pread'' [Signed, LsPtr, Unsigned, Signed]"
  "default_posix1_handler_pwrite K = plain_call K ''pwrite'' [Signed, LsPtr, Unsigned, Signed]"
  by (rule ext, rule ext, rule ext, simp add: plain_call_def bind_map_option comp_def numeral_2_eq_2 numeral_3_eq_3
      default_posix1_handler_open_def
      default_posix1_handler_access_def
      default_posix1_handler_creat_def
      default_posix1_handler_close_def
      default_posix1_handler_dup_def
      default_posix1_handler_time_def
      default_posix1_handler_read_def
      default_posix1_handler_write_def
      default_posix1_handler_lseek_def
      default_posix1_handler_ftruncate_def
      default_posix1_handler_unlink_def
      default_posix1_handler_munmap_def
      default_posix1_handler_msync_def
      default_posix1_handler_ftok_def
      default_posix1_handler_wait_def
      default_posix1_handler_waitpid_def
      default_posix1_handler_kill_def
      default_posix1_handler_chdir_def
      default_posix1_handler_fchdir_def
      default_posix1_handler_mkdir_def
      default_posix1_handler_mknod_def
      default_posix1_handler_rmdir_def
      default_posix1_handler_chmod_def
      default_posix1_handler_fchmod_def
      default_posix1_handler_chown_def
      default_posix1_handler_fchown_def
      default_posix1_handler_lchown_def
      default_posix1_handler_link_def
      default_posix1_handler_symlink_def
      default_posix1_handler_readlink_def
      default_posix1_handler_fsync_def
      default_posix1_handler_fdatasync_def
      default_posix1_handler_dup2_def
      default_posix1_handler_lockf_def
      default_posix1_handler_truncate_def
      default_posix1_handler_mkstemp_def
      default_posix1_handler_closedir_def
      default_posix1_handler_telldir_def
      default_posix1_handler_umask_def
      default_posix1_handler_pread_def
      default_posix1_handler_pwrite_def)+

text \<open>The handlers that only pass their arguments on, by operation code.\<close>

definition posix1_calls :: "(nat \<times> string \<times> arg_kind list) list" where
  "posix1_calls =
     [(2, ''close'', [Signed]),
      (3, ''creat'', [LsPtr, Unsigned]),
      (5, ''ftok'', [LsPtr, Signed]),
      (8, ''kill'', [Signed, Signed]),
      (9, ''lseek'', [Signed, Signed, Signed]),
      (13, ''msync'', [Addr64, Unsigned, Signed]),
      (14, ''munmap'', [Addr64, Unsigned]),
      (15, ''open'', [LsPtr, Signed, Unsigned]),
      (16, ''read'', [Signed, LsPtr, Unsigned]),
      (24, ''unlink'', [LsPtr]),
      (25, ''wait'', [LsPtr]),
      (26, ''waitpid'', [Signed, LsPtr, Signed]),
      (27, ''write'', [Signed, LsPtr, Unsigned]),
      (28, ''ftruncate'', [Signed, Signed]),
      (29, ''access'', [LsPtr, Signed]),
      (30, ''dup'', [Signed]),
      (31, ''time'', [LsPtr]),
      (33, ''chdir'', [LsPtr]),
      (34, ''fchdir'', [Signed]),
      (35, ''mkdir'', [LsPtr, Unsigned]),
      (36, ''mknod'', [LsPtr, Unsigned, Unsigned]),
      (37, ''rmdir'', [LsPtr]),
      (38, ''chmod'', [LsPtr, Unsigned]),
      (39, ''fchmod'', [Signed, Unsigned]),
      (40, ''chown'', [LsPtr, Unsigned, Unsigned]),
      (41, ''fchown'', [Signed, Unsigned, Unsigned]),
      (42, ''lchown'', [LsPtr, Unsigned, Unsigned]),
      (44, ''link'', [LsPtr, LsPtr]),
      (45, ''symlink'', [LsPtr, LsPtr]),
      (46, ''readlink'', [LsPtr, LsPtr, Unsigned]),
      (48, ''fsync'', [Signed]),
      (49, ''fdatasync'', [Signed]),
      (50, ''dup2'', [Signed, Signed]),
      (51, ''lockf'', [Signed, Signed, Signed]),
      (52, ''truncate'', [LsPtr, Signed]),
      (53, ''mkstemp'', [LsPtr]),
      (56, ''closedir'', [Addr64]),
      (60, ''telldir'', [Addr64]),
      (62, ''umask'', [Unsigned]),
      (65, ''pread'', [Signed, LsPtr, Unsigned, Signed]),
      (66, ''pwrite'', [Signed, LsPtr, Unsigned, Signed])]"

lemma posix1_funcs_length [simp]: "length (default_posix1_funcs K) = 69"
  by (simp add: default_posix1_funcs_def)

lemma posix1_funcs_total:
  assumes "0 < op" "op < 69"
  shows "default_posix1_funcs K ! op \<noteq> None"
proof -
  obtain j where j: "op = Suc j" using assms(1) by (cases op) auto
  have "None \<notin> set (tl (default_posix1_funcs K))" by (simp add: default_posix1_funcs_def)
  moreover have "j < length (tl (default_posix1_funcs K))" using assms(2) j by simp
  ultimately have "tl (default_posix1_funcs K) ! j \<noteq> None" by (metis nth_mem)
  then show ?thesis using assms(2) j by (simp add: nth_tl)
qed

interpretation posix1: handler_class "default_posix1_funcs K" 68 for K
  by unfold_locales (simp_all add: posix1_funcs_total)

lemma posix1_table:
  "(op, f, ks) \<in> set posix1_calls \<Longrightarrow>
   0 < op \<and> op < 69 \<and> default_posix1_funcs K ! op = Some (plain_call K f ks)"
proof -
  have "list_all (\<lambda>(op, f, ks). 0 < op \<and> op < 69 \<and> default_posix1_funcs K ! op = Some (plain_call K f ks))
          posix1_calls"
    by (simp add: posix1_calls_def default_posix1_funcs_def posix1_plain)
  then show "(op, f, ks) \<in> set posix1_calls \<Longrightarrow> ?thesis" by (auto simp: list_all_iff)
qed

section \<open>Calls are served\<close>

lemma posix1_serve:
  assumes "base \<noteq> NULL"
    and "load32 (mem e) (base + unat ((off AND LS_ADDR_MASK) AND NOT 1)) = Some w"
    and "(opcode w, f, ks) \<in> set posix1_calls"
    and "marshal base w 0 e ks = Some xs"
    and "libcall K f xs e = (rc, e1)"
    and "mapped (mem e1) (LS_ARG_ADDR base w 0) 16"
  obtains e' where "base_spe_default_posix1_handler K base off e = Some (0, e')"
    "trace e' = trace e @ [(LibCall f xs, rc)]" "errno e' = errno e1"
    "result_quad (mem e') (LS_ARG_ADDR base w 0) [rc, 0, 0, errno e1]"
    "same_outside (mem e1) (mem e') {LS_ARG_ADDR base w 0..<LS_ARG_ADDR base w 0 + 16}"
proof -
  obtain e' where e': "plain_call K f ks base w e = Some (0, e')" "trace e' = trace e @ [(LibCall f xs, rc)]"
    "errno e' = errno e1" "result_quad (mem e') (LS_ARG_ADDR base w 0) [rc, 0, 0, errno e1]"
    "same_outside (mem e1) (mem e') {LS_ARG_ADDR base w 0..<LS_ARG_ADDR base w 0 + 16}"
    using plain_call_ok [OF assms(4,5,6)] by blast
  have "base_spe_default_posix1_handler K base off e = Some (0, e')"
    unfolding base_spe_default_posix1_handler_def
    by (rule dispatch_calls [OF assms(1,2), where h = "plain_call K f ks"])
      (use posix1_table [OF assms(3), of K] e'(1) in auto)
  then show thesis using e' that by blast
qed

text \<open>
  C9: A POSIX.1 call of one of the 41 operations that only pass their arguments on is served
  exactly as its signature says: the library function is called once, with the arguments of
  the frame (a pointer of the SPE program always points into the local store, numbers keep
  their sign), its result and \<open>errno\<close> are left in the first and the last slot of the frame, and
  nothing else is written after the call.
\<close>

theorem posix1_call_served:
  assumes "base \<noteq> NULL"
    and "load32 (mem e) (base + unat ((off AND LS_ADDR_MASK) AND NOT 1)) = Some w"
    and "(opcode w, f, ks) \<in> set posix1_calls"
    and "marshal base w 0 e ks = Some xs"
    and "libcall K f xs e = (rc, e1)"
    and "mapped (mem e1) (LS_ARG_ADDR base w 0) 16"
  shows "list_all2 (arg_ok base) ks xs \<and>
    (\<exists>e'. base_spe_default_posix1_handler K base off e = Some (0, e') \<and>
       trace e' = trace e @ [(LibCall f xs, rc)] \<and> errno e' = errno e1 \<and>
       result_quad (mem e') (LS_ARG_ADDR base w 0) [rc, 0, 0, errno e1] \<and>
       same_outside (mem e1) (mem e') {LS_ARG_ADDR base w 0..<LS_ARG_ADDR base w 0 + 16})"
  using posix1_serve [OF assms] marshal_ok [OF assms(4)] by metis

text \<open>A \<open>read\<close> of 16 bytes from descriptor 5 to the local store address \<open>0x40200\<close>, which wraps to \<open>0x200\<close>.\<close>

definition sample_read :: "nat \<Rightarrow> u32" where
  "sample_read = (\<lambda>i. 0)(0x20 := 0x10000100, 0x40 := 5, 0x44 := 0x40200, 0x48 := 16)"

lemma sample_read_facts:
  "LS_ARG_ADDR 0x100000 0x10000100 i = 0x100100 + 16 * i"
  "(opcode 0x10000100, ''read'', [Signed, LsPtr, Unsigned]) \<in> set posix1_calls"
  "marshal 0x100000 0x10000100 0 (sample_call sample_read) [Signed, LsPtr, Unsigned] = Some [5, 0x100200, 16]"
  "load32 (mem (sample_call sample_read)) (0x100000 + unat ((0x80 AND LS_ADDR_MASK) AND NOT (1 :: u32))) = Some 0x10000100"
  "libcall (const_kernel (reply_ok 16)) ''read'' [5, 0x100200, 16] (sample_call sample_read) =
     (16, (sample_call sample_read)\<lparr>trace := [(LibCall ''read'' [5, 0x100200, 16], 16)]\<rparr>)"
  "mapped (sample_ls sample_read) 0x100100 16"
proof -
  show L: "LS_ARG_ADDR 0x100000 0x10000100 i = 0x100100 + 16 * i" for i
    by (simp add: LS_ARG_ADDR_def)
  have "opcode 0x10000100 = 16" by (simp add: opcode_def)
  then show "(opcode 0x10000100, ''read'', [Signed, LsPtr, Unsigned]) \<in> set posix1_calls"
    by (simp add: posix1_calls_def)
  show "marshal 0x100000 0x10000100 0 (sample_call sample_read) [Signed, LsPtr, Unsigned] = Some [5, 0x100200, 16]"
    by (simp add: slot_def L load32_sample GET_LS_PTR_def sample_read_def)
  show "load32 (mem (sample_call sample_read)) (0x100000 + unat ((0x80 AND LS_ADDR_MASK) AND NOT (1 :: u32))) = Some 0x10000100"
    by (simp add: load32_sample sample_read_def)
  show "libcall (const_kernel (reply_ok 16)) ''read'' [5, 0x100200, 16] (sample_call sample_read) =
     (16, (sample_call sample_read)\<lparr>trace := [(LibCall ''read'' [5, 0x100200, 16], 16)]\<rparr>)"
    by (simp add: libcall_def sys_rv_def sys_def const_kernel_def reply_ok_def sample_call_def start_env_def)
qed (simp add: mapped_sample)

lemma posix1_call_served_witness:
  "list_all2 (arg_ok 0x100000) [Signed, LsPtr, Unsigned] [5, 0x100200, 16] \<and>
    (\<exists>e'. base_spe_default_posix1_handler (const_kernel (reply_ok 16)) 0x100000 0x80 (sample_call sample_read) = Some (0, e') \<and>
       trace e' = [(LibCall ''read'' [5, 0x100200, 16], 16)] \<and> errno e' = 0 \<and>
       result_quad (mem e') 0x100100 [16, 0, 0, 0])"
  using posix1_call_served [OF _ sample_read_facts(4,2,3,5)] sample_read_facts(1) [of 0] sample_read_facts(6)
  by auto

section \<open>Where the handlers write\<close>

text \<open>The structures the operations return, by operation: the argument that points to each and its length.\<close>

definition struct_results :: "nat \<Rightarrow> (nat \<times> nat) list" where
  "struct_results op =
     (if op = 1 then [(0, 80)]                       \<comment> \<open>\<open>adjtimex\<close>\<close>
      else if op \<in> {4, 10, 23} then [(1, 52)]        \<comment> \<open>\<open>fstat\<close>, \<open>lstat\<close>, \<open>stat\<close>\<close>
      else if op = 7 then [(0, 8), (1, 4)]           \<comment> \<open>\<open>gettimeofday\<close>\<close>
      else if op = 32 then [(1, 8)]                  \<comment> \<open>\<open>nanosleep\<close>\<close>
      else if op = 57 then [(1, 260)]                \<comment> \<open>\<open>readdir\<close>\<close>
      else [])"

definition late_slots :: "nat \<Rightarrow> nat set" where
  "late_slots op = (if op \<in> {4, 10, 23} then {1} else {})"

lemma copy_stat_confined:
  assumes "copy_stat ls w r e = Some e'" "same_outside m (mem e) R"
    and "\<And>a. slot ls w 1 0 e = Some a \<Longrightarrow> {GET_LS_PTR ls a..<GET_LS_PTR ls a + 52} \<subseteq> R"
  shows "same_outside m (mem e') R"
proof (cases "rv r = 0")
  case True
  with assms(1) obtain a m1 where a: "slot ls w 1 0 e = Some a" "store_words (mem e) (GET_LS_PTR ls a) (vals r 13) = Some m1"
    "e' = e\<lparr>mem := m1\<rparr>" by (auto simp: copy_stat_def split: Option.bind_splits)
  have "{GET_LS_PTR ls a..<GET_LS_PTR ls a + 4 * length (vals r 13)} \<subseteq> R" using assms(3) [OF a(1)] by simp
  with store_words_confined [OF a(2) _ assms(2)] a(3) show ?thesis by simp
qed (use assms in \<open>simp add: copy_stat_def\<close>)

lemma spe_copy_dirent_confined:
  assumes "spe_copy_dirent m1 p r = Some m'" "same_outside m m1 R" "{p..<p + 260} \<subseteq> R"
  shows "same_outside m m' R"
proof (rule same_outside_join [OF assms(2)])
  obtain m2 where "store32 m1 p (of_int (nth_val r 0)) = Some m2" and 2: "store_bytes m2 (p + 4) (d_name r) = Some m'"
    using assms by (auto simp: spe_copy_dirent_def split: Option.bind_splits)
  then have s: "same_outside m1 m' ({p..<p + 4} \<union> {p + 4..<p + 4 + length (d_name r)})"
    by (intro same_outside_trans [OF store32_same_outside store_bytes_same_outside])
  have "length (d_name r) = 256" by (simp add: d_name_def)
  then show "same_outside m1 m' R"
    by (intro same_outside_mono [OF s]) (use assms(3) in auto)
qed

lemma check_conv_spuvec_mem [confine_intros]:
  "check_conv_spuvec ls v n e = Some (rc, vec, e') \<Longrightarrow> same_outside m (mem e) R \<Longrightarrow> same_outside m (mem e') R"
  by (auto simp: check_conv_spuvec_def split: if_splits Option.bind_splits option.splits)

lemma stat_handler_confined:
  assumes "quiet A K" and h: "\<And>ls w e. h ls w e = do {
      a \<leftarrow> slot ls w 0 0 e; let (r, e1) = sys K (LibCall f (g ls a)) e; e2 \<leftarrow> copy_stat ls w r e1; put_rc ls w (rv r, e2) }"
  shows "confined A {1} [(1, 52)] h"
proof (rule confinedI)
  fix ls w e n e' R
  assume "h ls w e = Some (n, e')" and A: "A \<subseteq> R" "result_area ls w \<subseteq> R"
    and S: "\<And>i k a. (i, k) \<in> set [(1, 52)] \<Longrightarrow> slot ls w i 0 e = Some a \<Longrightarrow> {GET_LS_PTR ls a..<GET_LS_PTR ls a + k} \<subseteq> R"
    and D: "\<And>i. i \<in> {1} \<Longrightarrow> {LS_ARG_ADDR ls w i..<LS_ARG_ADDR ls w i + 4} \<inter> A = {}"
  then obtain xs r e1 e2 where r: "sys K (LibCall f xs) e = (r, e1)" and c: "copy_stat ls w r e1 = Some e2"
    and p: "put_rc ls w (rv r, e2) = Some (n, e')" by (auto simp: h split: prod.splits Option.bind_splits)
  show "same_outside (mem e) (mem e') R"
  proof (rule put_rc_confined [OF p A(2)], rule copy_stat_confined [OF c])
    show "same_outside (mem e) (mem e1) R" by (rule quiet_sys [OF r assms(1) A(1) same_outside_refl])
    show "{GET_LS_PTR ls a..<GET_LS_PTR ls a + 52} \<subseteq> R" if "slot ls w 1 0 e1 = Some a" for a
      using S [of 1 52 a] quiet_slot [OF r assms(1) D] that by simp
  qed
qed

lemma posix1_stat_confined:
  assumes "quiet A K"
  shows "confined A {1} [(1, 52)] (default_posix1_handler_stat K)" "confined A {1} [(1, 52)] (default_posix1_handler_lstat K)"
    "confined A {1} [(1, 52)] (default_posix1_handler_fstat K)"
  by (rule stat_handler_confined [OF assms], rule default_posix1_handler_stat_def default_posix1_handler_lstat_def
      default_posix1_handler_fstat_def)+

lemma posix1_mmap_confined:
  assumes "quiet A K"
  shows "confined A {} [] (default_posix1_handler_mmap K)" "confined A {} [] (default_posix1_handler_mremap K)"
    "confined A {} [] (default_posix1_handler_opendir K)"
  by (rule confinedI, auto simp: default_posix1_handler_mmap_def default_posix1_handler_mremap_def
      default_posix1_handler_opendir_def split: prod.splits Option.bind_splits if_splits, (meson assms confine_intros)+)+

lemma posix1_const_confined:
  shows "confined A {} [] (default_posix1_handler_shm_open K)" "confined A {} [] (default_posix1_handler_shm_unlink K)"
    "confined A {} [] (default_posix1_handler_shmat K)" "confined A {} [] (default_posix1_handler_shmdt K)"
    "confined A {} [] (default_posix1_handler_shmctl K)" "confined A {} [] (default_posix1_handler_shmget K)"
    "confined A {} [] (default_posix1_handler_sched_yield K)"
  by (rule confinedI, auto simp: default_posix1_handler_shm_open_def default_posix1_handler_shm_unlink_def
      default_posix1_handler_shmat_def default_posix1_handler_shmdt_def default_posix1_handler_shmctl_def
      default_posix1_handler_shmget_def default_posix1_handler_sched_yield_def
      split: Option.bind_splits, meson confine_intros)+

lemma posix1_local_confined:
  assumes "quiet A K"
  shows "confined A {} [] (default_posix1_handler_getpagesize K)" 
    "confined A {} [] (default_posix1_handler_mktemp K)" "confined A {} [] (default_posix1_handler_rewinddir K)"
    "confined A {} [] (default_posix1_handler_seekdir K)" "confined A {} [] (default_posix1_handler_utime K)"
    "confined A {} [] (default_posix1_handler_utimes K)" "confined A {} [] (default_posix1_handler_getcwd K)"
  by (rule confinedI, auto simp: default_posix1_handler_getpagesize_def
      default_posix1_handler_mktemp_def default_posix1_handler_rewinddir_def
      default_posix1_handler_seekdir_def default_posix1_handler_utime_def default_posix1_handler_getcwd_def
      default_posix1_handler_utimes_def Let_def split: prod.splits Option.bind_splits if_splits
     , (meson assms confine_intros)+)+

lemma posix1_sync_confined: "quiet A K \<Longrightarrow> confined A {} [] (default_posix1_handler_sync K)"
  by (rule confinedI) (auto simp: default_posix1_handler_sync_def quiet_snd)

lemma posix1_vector_confined:
  assumes "quiet A K"
  shows "confined A {} [] (default_posix1_handler_readv K)" "confined A {} [] (default_posix1_handler_writev K)"
  by (rule confinedI, auto simp: default_posix1_handler_readv_def default_posix1_handler_writev_def
      split: prod.splits Option.bind_splits if_splits, (meson assms confine_intros)+)+

lemma posix1_struct_confined:
  assumes "quiet A K"
  shows "confined A {} [(1, 260)] (default_posix1_handler_readdir K)"
    "confined A {} [(1, 8)] (default_posix1_handler_nanosleep K)"
    "confined A {} [(0, 8), (1, 4)] (default_posix1_handler_gettimeofday K)"
    "confined A {} [(0, 80)] (default_posix1_handler_adjtimex K)"
  by (rule confinedI, auto simp: default_posix1_handler_readdir_def
      default_posix1_handler_nanosleep_def default_posix1_handler_gettimeofday_def
      default_posix1_handler_adjtimex_def Let_def
      split: prod.splits Option.bind_splits if_splits
      simp del: store_words.simps,
      (assumption | rule assms same_outside_refl same_outside_upd |
       erule confine_intros spe_copy_dirent_confined store_words_confined | simp)+)+

lemma posix1_funcs_confined:
  assumes "quiet A K" and "default_posix1_funcs K ! op = Some h" "op \<le> 68"
  shows "confined A (late_slots op) (struct_results op) h"
proof -
  note all = posix1_stat_confined [OF assms(1), simplified] posix1_mmap_confined [OF assms(1)] posix1_const_confined [of A K]
    posix1_local_confined [OF assms(1)] posix1_sync_confined [OF assms(1)]
    posix1_vector_confined [OF assms(1)] posix1_struct_confined [OF assms(1), simplified]
  have "list_all (\<lambda>(op, f). case f of None \<Rightarrow> True | Some h \<Rightarrow> confined A (late_slots op) (struct_results op) h)
      (enumerate 0 (default_posix1_funcs K))"
    unfolding default_posix1_funcs_def posix1_plain
    by (simp add: late_slots_def struct_results_def all assms(1))
  moreover have "(op, default_posix1_funcs K ! op) \<in> set (enumerate 0 (default_posix1_funcs K))"
    using assms(3) by (simp add: in_set_enumerate_eq)
  ultimately show ?thesis using assms(2) by (fastforce simp: list_all_iff)
qed

text \<open>
  C10: whatever word the program left, a POSIX.1 call is either refused, with nothing changed,
  or served; a served call writes, apart from what the library function itself writes (\<open>A\<close>), only
  the result quadword and the structures its operation returns, each at the place in the local store its
  argument points to and in the length it has for the SPE program (\<open>struct_results\<close>: \<open>adjtimex\<close>, \<open>fstat\<close>,
  \<open>lstat\<close>, \<open>stat\<close>, \<open>gettimeofday\<close>, \<open>nanosleep\<close> and \<open>readdir\<close>; the other 61 operations return none). The three
  \<open>stat\<close> calls read that argument after the library call, which must have left it alone.
\<close>

theorem posix1_writes_confined:
  assumes "quiet A K" and "base_spe_default_posix1_handler K base off e = Some (n, e')"
    and "load32 (mem e) (base + unat ((off AND LS_ADDR_MASK) AND NOT 1)) = Some w"
    and "opcode w \<in> {4, 10, 23} \<Longrightarrow> {LS_ARG_ADDR base w 1..<LS_ARG_ADDR base w 1 + 4} \<inter> A = {}"
  shows "(n = 1 \<and> e' = e \<and> (base = NULL \<or> opcode w = 0 \<or> 68 < opcode w)) \<or>
    (n = 0 \<and> base \<noteq> NULL \<and> 0 < opcode w \<and> opcode w \<le> 68 \<and>
     same_outside (mem e) (mem e')
       (A \<union> {LS_ARG_ADDR base w 0..<LS_ARG_ADDR base w 0 + 16} \<union>
        (\<Union>p \<in> set (struct_results (opcode w)). struct_area base w (mem e) p)))"
proof -
  have d: "dispatch (default_posix1_funcs K) (mem e) base off e = Some (n, e')"
    using assms(2) by (simp add: base_spe_default_posix1_handler_def)
  show ?thesis
  proof (cases "base = NULL \<or> opcode w = 0 \<or> 68 < opcode w")
    case True
    then have "dispatch (default_posix1_funcs K) (mem e) base off e = Some (1, e)"
      by (rule posix1.refused [OF assms(3)])
    then show ?thesis using d True by simp
  next
    case False
    then have f: "base \<noteq> NULL" "0 < opcode w" "opcode w \<le> 68" by auto
    from posix1.served [OF f(1) assms(3) f(2,3), of K] d obtain h k where
      h: "default_posix1_funcs K ! opcode w = Some h" "n = 0" "h base w e = Some (k, e')" by auto
    have "confined A (late_slots (opcode w)) (struct_results (opcode w)) h"
      by (rule posix1_funcs_confined [OF assms(1) h(1) f(3)])
    moreover have "{LS_ARG_ADDR base w i..<LS_ARG_ADDR base w i + 4} \<inter> A = {}" if "i \<in> late_slots (opcode w)" for i
      using that assms(4) by (auto simp: late_slots_def split: if_splits)
    ultimately show ?thesis using f h(2,3) by (auto simp: confined_def)
  qed
qed

text \<open>An \<open>fstat\<close> of descriptor 5 into the local store at \<open>0x200\<close>.\<close>

definition sample_fstat :: "nat \<Rightarrow> u32" where
  "sample_fstat = (\<lambda>i. 0)(0x20 := 0x04000100, 0x40 := 5, 0x44 := 0x200)"

lemma posix1_writes_confined_witness:
  "\<exists>e'. base_spe_default_posix1_handler (const_kernel (reply_ok 0)) 0x100000 0x80 (sample_call sample_fstat) = Some (0, e') \<and>
     same_outside (sample_ls sample_fstat) (mem e') ({0x100100..<0x100110} \<union> {0x100200..<0x100234})"
proof -
  let ?K = "const_kernel (reply_ok 0) :: unit kernel" and ?e = "sample_call sample_fstat"
  have q: "quiet {} ?K" by (simp add: quiet_def const_kernel_def)
  have L: "LS_ARG_ADDR 0x100000 0x04000100 i = 0x100100 + 16 * i" for i by (simp add: LS_ARG_ADDR_def)
  have w: "load32 (mem ?e) (0x100000 + unat ((0x80 AND LS_ADDR_MASK) AND NOT (1 :: u32))) = Some 0x04000100"
    by (simp add: load32_sample sample_fstat_def)
  have o4: "opcode 0x04000100 = 4" by (simp add: opcode_def)
  let ?e1 = "?e\<lparr>trace := [(LibCall ''fstat'' [5], 0)]\<rparr>"
  have r: "sys ?K (LibCall ''fstat'' [5]) ?e = (reply_ok 0, ?e1)"
    by (simp add: sys_def const_kernel_def reply_ok_def sample_call_def start_env_def)
  have sl: "slot 0x100000 0x04000100 0 0 ?e = Some 5" "slot 0x100000 0x04000100 1 0 ?e1 = Some 0x200"
    by (simp_all add: slot_def L load32_sample sample_fstat_def)
  have "mapped (sample_ls sample_fstat) 0x100200 (4 * length (vals (reply_ok 0) 13))" by (simp add: mapped_sample)
  then obtain m where m: "store_words (sample_ls sample_fstat) 0x100200 (vals (reply_ok 0) 13) = Some m"
    using store_words_ok by blast
  have c: "copy_stat 0x100000 0x04000100 (reply_ok 0) ?e1 = Some (?e1\<lparr>mem := m\<rparr>)"
    using m sl(2) by (simp add: copy_stat_def GET_LS_PTR_def reply_ok_def)
  have "dom m = dom (sample_ls sample_fstat)" using store_words_outside [OF m] by blast
  then have "mapped m 0x100100 16" by (simp add: mapped_dom [of m "sample_ls sample_fstat"] mapped_sample)
  then obtain e2 where "put_rc 0x100000 0x04000100 (0, ?e1\<lparr>mem := m\<rparr>) = Some (0, e2)"
    using put_rc_ok [of "?e1\<lparr>mem := m\<rparr>" "0x100000" "0x04000100" 0] L [of 0] by fastforce
  with r sl(1) c have "\<exists>e'. default_posix1_handler_fstat ?K 0x100000 0x04000100 ?e = Some (0, e')"
    by (simp add: default_posix1_handler_fstat_def reply_ok_def)
  then obtain e' where "default_posix1_handler_fstat ?K 0x100000 0x04000100 ?e = Some (0, e')" by blast
  then have e': "base_spe_default_posix1_handler ?K 0x100000 0x80 ?e = Some (0, e')"
    unfolding base_spe_default_posix1_handler_def
    by (intro dispatch_calls [OF _ w, where h = "default_posix1_handler_fstat ?K"]) (simp_all add: o4 default_posix1_funcs_def)
  have "same_outside (mem ?e) (mem e') ({} \<union> {0x100100..<0x100110} \<union> {0x100200..<0x100234})"
    using posix1_writes_confined [OF q e' w] L [of 0] L [of 1]
    by (simp add: o4 struct_results_def struct_area_def load32_sample sample_fstat_def GET_LS_PTR_def)
  then show ?thesis using e' by auto
qed

section \<open>Vectors\<close>

fun load_pairs :: "memory \<Rightarrow> addr \<Rightarrow> nat \<Rightarrow> (u32 \<times> u32) list option" where
  "load_pairs m a 0 = Some []"
| "load_pairs m a (Suc n) =
     do { b \<leftarrow> load32 m a; l \<leftarrow> load32 m (a + 4); ps \<leftarrow> load_pairs m (a + 8) n; Some ((b, l) # ps) }"

definition total_len :: "(u32 \<times> u32) list \<Rightarrow> int" where
  "total_len ps = (\<Sum>(b, l) \<leftarrow> ps. uint l)"

lemma total_len_simps [simp]: "total_len [] = 0" "total_len ((b, l) # ps) = uint l + total_len ps"
  by (simp_all add: total_len_def)

lemma total_len_nonneg: "0 \<le> total_len ps"
  by (induction ps) auto

lemma conv_loop_eq:
  "load_pairs m lsvec n = Some ps \<Longrightarrow> conv_loop ls m lsvec n acc vec =
     Some (if acc + total_len ps \<le> SPU_SSIZE_MAX \<or> ps = []
           then Some (vec @ map (\<lambda>(b, l). (GET_LS_PTR ls b, uint l)) ps) else None)"
proof (induction n arbitrary: lsvec ps acc vec)
  case (Suc n)
  from Suc.prems obtain b l qs where p: "load32 m lsvec = Some b" "load32 m (lsvec + 4) = Some l"
    "load_pairs m (lsvec + 8) n = Some qs" "ps = (b, l) # qs"
    by (auto split: Option.bind_splits)
  show ?case using p Suc.IH [OF p(3), of "acc + uint l"] total_len_nonneg [of qs] by auto
qed simp

text \<open>
  The vectors of \<open>readv\<close> and \<open>writev\<close> are accepted exactly if there are at most 1024 of them
  and their lengths sum up to a result that fits a signed 32-bit word; every accepted vector
  starts inside the local store and keeps its length, in order. Otherwise the handler fails with
  \<open>EINVAL\<close> and calls nothing. Each prefix is checked, which comes to the same as checking the sum.
\<close>

theorem iovec_checked:
  assumes "load_pairs (mem e) lsvec (nat n) = Some ps"
  shows "check_conv_spuvec ls lsvec n e =
       (if n \<le> 1024 \<and> total_len ps \<le> 0x7fffffff
        then Some (0, map (\<lambda>(b, l). (GET_LS_PTR ls b, uint l)) ps, e)
        else Some (-1, [], set_errno EINVAL e)) \<and>
     (\<forall>(a, l) \<in> set (map (\<lambda>(b, l). (GET_LS_PTR ls b, uint l)) ps). ls \<le> a \<and> a < ls + LS_SIZE)"
  using conv_loop_eq [OF assms, of ls 0 "[]"] GET_LS_PTR_bounds [of ls]
  by (auto simp: check_conv_spuvec_def)

lemma iovec_checked_witness:
  "check_conv_spuvec 0x100000 0x100200 2 (sample_call ((\<lambda>i. 0)(0x80 := 0x300, 0x81 := 8, 0x82 := 0x40400, 0x83 := 16))) =
     Some (0, [(0x100300, 8), (0x100400, 16)],
       sample_call ((\<lambda>i. 0)(0x80 := 0x300, 0x81 := 8, 0x82 := 0x40400, 0x83 := 16)))"
proof -
  let ?e = "sample_call ((\<lambda>i. 0)(0x80 := 0x300, 0x81 := 8, 0x82 := 0x40400, 0x83 := 16))"
  have "load_pairs (mem ?e) 0x100200 (nat 2) = Some [(0x300, 8), (0x40400, 16)]"
    by (simp add: numeral_2_eq_2 load32_sample)
  from iovec_checked [OF this, of "0x100000"] show ?thesis by (simp add: GET_LS_PTR_def)
qed

section \<open>Structures and results\<close>

text \<open>
  A successful \<open>stat\<close> leaves the thirteen fields of the file's status, each cut to 32 bits, in
  the structure of the SPE program, and zero and \<open>errno\<close> in the frame.
\<close>

theorem stat_result_copied:
  assumes "slot ls w 0 0 e = Some a0"
    and "sys K (LibCall ''stat'' [int (GET_LS_PTR ls a0)]) e = (r, e1)" and "rv r = 0"
    and "slot ls w 1 0 e1 = Some a1"
    and "mapped (mem e1) (GET_LS_PTR ls a1) 52" and "mapped (mem e1) (LS_ARG_ADDR ls w 0) 16"
    and "GET_LS_PTR ls a1 + 52 \<le> LS_ARG_ADDR ls w 0 \<or> LS_ARG_ADDR ls w 0 + 16 \<le> GET_LS_PTR ls a1"
  shows "\<exists>e'. default_posix1_handler_stat K ls w e = Some (0, e') \<and>
    (\<forall>i < 13. load32 (mem e') (GET_LS_PTR ls a1 + 4 * i) = Some (of_int (nth_val r i))) \<and>
    result_quad (mem e') (LS_ARG_ADDR ls w 0) [0, 0, 0, errno e1]"
proof -
  let ?p = "GET_LS_PTR ls a1" and ?q = "LS_ARG_ADDR ls w 0"
  obtain m where m: "store_words (mem e1) ?p (vals r 13) = Some m"
    using store_words_ok [of "mem e1" ?p "vals r 13"] assms(5) by auto
  have d: "dom m = dom (mem e1)" using store_words_outside [OF m] by blast
  have "mapped (mem (e1\<lparr>mem := m\<rparr>)) ?q 16" using assms(6) mapped_dom [OF d] by simp
  from put_rc_ok [OF this, of 0] obtain e' where e': "put_rc ls w (0, e1\<lparr>mem := m\<rparr>) = Some (0, e')"
    "result_quad (mem e') ?q [0, 0, 0, errno e1]" "same_outside m (mem e') {?q..<?q + 16}" by auto
  have "default_posix1_handler_stat K ls w e = Some (0, e')"
    using assms(1-4) m e'(1) by (simp add: default_posix1_handler_stat_def copy_stat_def)
  moreover have "load32 (mem e') (?p + 4 * i) = Some (of_int (nth_val r i))" if i: "i < 13" for i
  proof -
    have "load32 (mem e') (?p + 4 * i) = load32 m (?p + 4 * i)"
      by (rule load32_same_outside [OF e'(3)]) (use assms(7) i in auto)
    then show ?thesis using load_store_words [OF m, of i] i by simp
  qed
  ultimately show ?thesis using e'(2) by blast
qed

lemma stat_result_copied_witness:
  "\<exists>e'. default_posix1_handler_stat (const_kernel ((reply_ok 0)\<lparr>rvals := [2049, 5 + 2 ^ 32]\<rparr>))
       0x100000 0x100 (sample_call ((\<lambda>i. 0)(0x40 := 0x200, 0x44 := 0x300))) = Some (0, e') \<and>
     load32 (mem e') 0x100304 = Some 5"
proof -
  let ?e = "sample_call ((\<lambda>i. 0)(0x40 := 0x200, 0x44 := 0x300))"
  let ?r = "(reply_ok 0)\<lparr>rvals := [2049, 5 + 2 ^ 32]\<rparr>"
  let ?e1 = "?e\<lparr>trace := [(LibCall ''stat'' [0x100200], 0)]\<rparr>"
  have q: "LS_ARG_ADDR 0x100000 0x100 0 = 0x100100" by (simp add: LS_ARG_ADDR_def)
  have p: "GET_LS_PTR 0x100000 0x300 = 0x100300" "GET_LS_PTR 0x100000 0x200 = 0x100200"
    by (simp_all add: GET_LS_PTR_def)
  have a: "slot 0x100000 0x100 0 0 ?e = Some 0x200" "slot 0x100000 0x100 1 0 ?e1 = Some 0x300"
    by (simp_all add: sample_call_eval)
  have k: "sys (const_kernel ?r) (LibCall ''stat'' [int (GET_LS_PTR 0x100000 0x200)]) ?e = (?r, ?e1)"
    by (simp add: sys_def const_kernel_def reply_ok_def sample_call_def start_env_def p)
  have m: "mapped (mem ?e1) (GET_LS_PTR 0x100000 0x300) 52" "mapped (mem ?e1) (LS_ARG_ADDR 0x100000 0x100 0) 16"
    by (simp_all add: p q mapped_sample)
  have dis: "GET_LS_PTR 0x100000 0x300 + 52 \<le> LS_ARG_ADDR 0x100000 0x100 0 \<or>
      LS_ARG_ADDR 0x100000 0x100 0 + 16 \<le> GET_LS_PTR 0x100000 0x300"
    by (simp add: p q)
  have z: "rv ?r = 0" by (simp add: reply_ok_def)
  obtain e' where e': "default_posix1_handler_stat (const_kernel ?r) 0x100000 0x100 ?e = Some (0, e')"
    "\<forall>i < 13. load32 (mem e') (GET_LS_PTR 0x100000 0x300 + 4 * i) = Some (of_int (nth_val ?r i))"
    using stat_result_copied [OF a(1) k z a(2) m dis] by blast
  have "load32 (mem e') 0x100304 = Some (of_int (5 + 2 ^ 32))"
    using e'(2) [rule_format, of 1] by (simp add: p nth_val_def reply_ok_def)
  then show ?thesis using e'(1) by auto
qed

text \<open>
  \<open>getcwd\<close> tests the size where it means to test the buffer: a null buffer is passed on as the
  address of the local store, so the directory's name is written over the start of the local store,
  and the program is told that the call failed.
\<close>

theorem getcwd_null_buffer:
  assumes "slot ls w 0 0 e = Some 0" and "slot ls w 1 0 e = Some n" and "n \<noteq> 0"
    and "libcall K ''getcwd'' [int ls, uint n] e = (int ls, e1)"
    and "slot ls w 0 0 e1 = Some 0" and "mapped (mem e1) (LS_ARG_ADDR ls w 0) 16"
  shows "\<exists>e'. default_posix1_handler_getcwd K ls w e = Some (0, e') \<and>
    trace e' = trace e @ [(LibCall ''getcwd'' [int ls, uint n], int ls)] \<and>
    result_quad (mem e') (LS_ARG_ADDR ls w 0) [0, 0, 0, errno e1]"
proof -
  obtain e' where e': "put_rc ls w (0, e1) = Some (0, e')" "trace e' = trace e1"
    "result_quad (mem e') (LS_ARG_ADDR ls w 0) [0, 0, 0, errno e1]"
    using put_rc_ok [OF assms(6), of 0] by blast
  have "GET_LS_PTR ls 0 = ls" by (simp add: GET_LS_PTR_def)
  then have "default_posix1_handler_getcwd K ls w e = Some (0, e')"
    using assms(1-5) e'(1) by (simp add: default_posix1_handler_getcwd_def)
  moreover have "trace e1 = trace e @ [(LibCall ''getcwd'' [int ls, uint n], int ls)]"
    using assms(4) unfolding libcall_def by (rule sys_rv_trace)
  ultimately show ?thesis using e' by auto
qed

lemma getcwd_null_buffer_witness:
  "\<exists>e'. default_posix1_handler_getcwd (const_kernel (reply_ok 0x100000)) 0x100000 0x100
      (sample_call ((\<lambda>i. 0)(0x44 := 64))) = Some (0, e') \<and>
    trace e' = [(LibCall ''getcwd'' [0x100000, 64], 0x100000)] \<and> result_quad (mem e') 0x100100 [0, 0, 0, 0]"
proof -
  let ?e = "sample_call ((\<lambda>i. 0)(0x44 := 64))"
  let ?e1 = "?e\<lparr>trace := [(LibCall ''getcwd'' [0x100000, 64], 0x100000)]\<rparr>"
  have a: "slot 0x100000 0x100 0 0 ?e = Some 0" "slot 0x100000 0x100 1 0 ?e = Some 64"
    "slot 0x100000 0x100 0 0 ?e1 = Some 0"
    by (simp_all add: sample_call_eval)
  have k: "libcall (const_kernel (reply_ok 0x100000)) ''getcwd'' [int 0x100000, uint (64 :: u32)] ?e = (int 0x100000, ?e1)"
    by (simp add: libcall_def sys_rv_def sys_def const_kernel_def reply_ok_def sample_call_def start_env_def)
  have q: "LS_ARG_ADDR 0x100000 0x100 0 = 0x100100" by (simp add: LS_ARG_ADDR_def)
  have m: "mapped (mem ?e1) (LS_ARG_ADDR 0x100000 0x100 0) 16" by (simp add: q mapped_sample)
  have nz: "(64 :: u32) \<noteq> 0" by simp
  show ?thesis using getcwd_null_buffer [OF a(1,2) nz k a(3) m] q by simp
qed

end
