(* ===== verification/Handler_Libea.thy ===== *)
theory Handler_Libea
  imports Handler_Utils
begin

unbundle bit_operations_syntax

text \<open>
  The default handler of the library calls on effective addresses
  (\<open>spebase/default_libea_handler.c\<close>): memory of the process, allocated for the SPE program.
  \<open>junk\<close> is the value of a local variable that the code reads without having set it.
\<close>

section \<open>The handlers\<close>

definition arg64_to_size_t :: "addr \<Rightarrow> u32 \<Rightarrow> nat \<Rightarrow> 'w env \<Rightarrow> int option" where
  "arg64_to_size_t ls opdata i e = map_option uint (slot64 ls opdata i e)"

definition default_libea_handler_calloc :: "'w kernel \<Rightarrow> 'w env lib_handler" where
  "default_libea_handler_calloc K ls opdata e =
     do { nmemb \<leftarrow> arg64_to_size_t ls opdata 0 e; n \<leftarrow> arg64_to_size_t ls opdata 1 e;
          h0 \<leftarrow> slot ls opdata 0 0 e; h1 \<leftarrow> slot ls opdata 1 0 e;
          let (calloc_addr, e1) =
            (if (h0 = 0 \<and> h1 = 0) \<or> sizeof_size_t = 8 then libcall K ''calloc'' [nmemb, n] e
             else (0, set_errno ENOMEM e));
          put_rc64 ls opdata (of_int calloc_addr, e1) }"

definition default_libea_handler_free :: "'w kernel \<Rightarrow> 'w env lib_handler" where
  "default_libea_handler_free K ls opdata e =
     do { ptr \<leftarrow> slot64 ls opdata 0 e; Some (0, snd (libcall K ''free'' [uint ptr] e)) }"

definition default_libea_handler_malloc :: "'w kernel \<Rightarrow> 'w env lib_handler" where
  "default_libea_handler_malloc K ls opdata e =
     do { n \<leftarrow> arg64_to_size_t ls opdata 0 e; h0 \<leftarrow> slot ls opdata 0 0 e;
          let (malloc_addr, e1) =
            (if h0 = 0 \<or> sizeof_size_t = 8 then libcall K ''malloc'' [n] e else (0, set_errno ENOMEM e));
          put_rc64 ls opdata (of_int malloc_addr, e1) }"

text \<open>
  \<open>realloc\<close> stores both halves of the pointer in \<open>by32[0]\<close>: the low half is what \<open>by32[1]\<close> held. In
  the branch without a call the result is a variable that was never set.
\<close>

definition default_libea_handler_realloc :: "u32 \<Rightarrow> 'w kernel \<Rightarrow> 'w env lib_handler" where
  "default_libea_handler_realloc junk K ls opdata e =
     do { p1 \<leftarrow> slot ls opdata 0 1 e; n \<leftarrow> arg64_to_size_t ls opdata 1 e; h1 \<leftarrow> slot ls opdata 1 0 e;
          let ptr = all64 p1 junk;
          let (realloc_addr, e1) =
            (if h1 = 0 \<or> sizeof_size_t = 8 then libcall K ''realloc'' [uint ptr, n] e
             else (uint junk, set_errno ENOMEM e));
          put_rc64 ls opdata (of_int realloc_addr, e1) }"

definition default_libea_handler_posix_memalign :: "'w kernel \<Rightarrow> 'w env lib_handler" where
  "default_libea_handler_posix_memalign K ls opdata e =
     do { a0 \<leftarrow> slot ls opdata 0 0 e;
          alignment \<leftarrow> arg64_to_size_t ls opdata 1 e; n \<leftarrow> arg64_to_size_t ls opdata 2 e;
          h2 \<leftarrow> slot ls opdata 2 0 e;
          let (rc, e1) =
            (if h2 = 0 \<or> sizeof_size_t = 8
             then libcall K ''posix_memalign'' [int (GET_LS_PTR ls a0), alignment, n] e else (ENOMEM, e));
          e2 \<leftarrow> PUT_LS_RC ls opdata rc 0 0 0 e1;
          Some (0, e2) }"

definition default_libea_funcs :: "u32 \<Rightarrow> 'w kernel \<Rightarrow> 'w env lib_handler option list" where
  "default_libea_funcs junk K =
     [None,
      Some (default_libea_handler_calloc K),
      Some (default_libea_handler_free K),
      Some (default_libea_handler_malloc K),
      Some (default_libea_handler_realloc junk K),
      Some (default_libea_handler_posix_memalign K)]"

definition base_spe_default_libea_handler ::
  "u32 \<Rightarrow> 'w kernel \<Rightarrow> addr \<Rightarrow> u32 \<Rightarrow> 'w env \<Rightarrow> (int \<times> 'w env) option" where
  "base_spe_default_libea_handler junk K base offset e =
     dispatch (default_libea_funcs junk K) (mem e) base offset e"

interpretation libea: handler_class "default_libea_funcs junk K" 5 for junk K
proof
  show "length (default_libea_funcs junk K) = Suc 5" by (simp add: default_libea_funcs_def)
  fix op :: nat
  assume "0 < op" "op \<le> 5"
  then have "op \<in> {1, 2, 3, 4, 5}" by auto
  then show "default_libea_funcs junk K ! op \<noteq> None" by (auto simp: default_libea_funcs_def)
qed

section \<open>Effective addresses in the frame\<close>

lemma of_int_uint_slot: "(of_int (uint (x :: u32)) :: u32) = x"
  by simp

lemma put_rc64_ok:
  assumes "mapped (mem e) (LS_ARG_ADDR ls w 0) 16"
  shows "\<exists>e'. put_rc64 ls w (x, e) = Some (0, e') \<and> trace e' = trace e \<and> errno e' = errno e \<and>
     slot64 ls w 0 e' = Some x \<and> slot ls w 0 3 e' = Some (of_int (errno e)) \<and>
     same_outside (mem e) (mem e') {LS_ARG_ADDR ls w 0..<LS_ARG_ADDR ls w 0 + 16}"
proof -
  let ?q = "LS_ARG_ADDR ls w 0"
  obtain m where m: "PUT_LS_RC ls w (uint (by32_0 x)) (uint (by32_1 x)) 0 (errno e) e = Some (e\<lparr>mem := m\<rparr>)"
    "result_quad m ?q [uint (by32_0 x), uint (by32_1 x), 0, errno e]"
    "same_outside (mem e) m {?q..<?q + 16}"
    using PUT_LS_RC_ok [OF assms] by blast
  have "load32 m ?q = Some (by32_0 x)" "load32 m (?q + 4) = Some (by32_1 x)"
    "load32 m (?q + 12) = Some (of_int (errno e))"
    using m(2) [unfolded result_quad_def, rule_format, of 0] m(2) [unfolded result_quad_def, rule_format, of 1]
      m(2) [unfolded result_quad_def, rule_format, of 3] by simp_all
  then have "slot64 ls w 0 (e\<lparr>mem := m\<rparr>) = Some x"
    "slot ls w 0 3 (e\<lparr>mem := m\<rparr>) = Some (of_int (errno e))" by (simp_all add: slot64_def slot_def)
  then show ?thesis using m by (auto simp: put_rc64_def)
qed

text \<open>
  \<open>malloc\<close> for the SPE program: the process allocates as many bytes as the 64-bit argument
  says, and the two halves of the result in the frame are the address of the block, null if there
  is none.
\<close>

theorem libea_malloc_served:
  assumes "base \<noteq> NULL"
    and "load32 (mem e) (base + unat ((off AND LS_ADDR_MASK) AND NOT 1)) = Some w" and "opcode w = 3"
    and "slot64 base w 0 e = Some n"
    and "libcall K ''malloc'' [uint n] e = (p, e1)"
    and "mapped (mem e1) (LS_ARG_ADDR base w 0) 16"
  shows "\<exists>e'. base_spe_default_libea_handler junk K base off e = Some (0, e') \<and>
    trace e' = trace e @ [(LibCall ''malloc'' [uint n], p)] \<and>
    slot64 base w 0 e' = Some (of_int p) \<and> slot base w 0 3 e' = Some (of_int (errno e1))"
proof -
  obtain e' where e': "put_rc64 base w (of_int p, e1) = Some (0, e')" "trace e' = trace e1"
    "slot64 base w 0 e' = Some (of_int p)" "slot base w 0 3 e' = Some (of_int (errno e1))"
    using put_rc64_ok [OF assms(6)] by blast
  obtain h0 where "slot base w 0 0 e = Some h0"
    using assms(4) by (auto simp: slot64_def split: Option.bind_splits)
  then have "default_libea_handler_malloc K base w e = Some (0, e')"
    using assms(4,5) e'(1) by (simp add: default_libea_handler_malloc_def arg64_to_size_t_def)
  then have "base_spe_default_libea_handler junk K base off e = Some (0, e')"
    unfolding base_spe_default_libea_handler_def
    by (intro dispatch_calls [OF assms(1,2), where h = "default_libea_handler_malloc K"])
      (simp_all add: assms(3) default_libea_funcs_def)
  moreover have "trace e1 = trace e @ [(LibCall ''malloc'' [uint n], p)]"
    using assms(5) unfolding libcall_def by (rule sys_rv_trace)
  ultimately show ?thesis using e' by auto
qed

lemma libea_malloc_served_witness:
  "\<exists>e'. base_spe_default_libea_handler 0 (const_kernel (reply_ok 0x7FFF12345678)) 0x100000 0x80
      (sample_call ((\<lambda>i. 0)(0x20 := 0x03000100, 0x41 := 4096))) = Some (0, e') \<and>
    trace e' = [(LibCall ''malloc'' [4096], 0x7FFF12345678)] \<and>
    slot64 0x100000 0x03000100 0 e' = Some 0x7FFF12345678"
proof -
  let ?e = "sample_call ((\<lambda>i. 0)(0x20 := 0x03000100, 0x41 := 4096))"
  let ?e1 = "?e\<lparr>trace := [(LibCall ''malloc'' [4096], 0x7FFF12345678)]\<rparr>"
  have b: "(0x100000 :: addr) \<noteq> NULL" by simp
  have w: "load32 (mem ?e) (0x100000 + unat ((0x80 AND LS_ADDR_MASK) AND NOT (1 :: u32))) = Some 0x03000100"
    by (simp add: load32_sample)
  have o: "opcode 0x03000100 = 3" by (simp add: opcode_def)
  have s: "slot64 0x100000 0x03000100 0 ?e = Some 4096"
    by (simp add: sample_call_eval all64_def)
  have k: "libcall (const_kernel (reply_ok 0x7FFF12345678)) ''malloc'' [uint (4096 :: u64)] ?e = (0x7FFF12345678, ?e1)"
    by (simp add: libcall_def sys_rv_def sys_def const_kernel_def reply_ok_def sample_call_def start_env_def)
  have q: "LS_ARG_ADDR 0x100000 0x03000100 0 = 0x100100" by (simp add: LS_ARG_ADDR_def)
  have m: "mapped (mem ?e1) (LS_ARG_ADDR 0x100000 0x03000100 0) 16" by (simp add: q mapped_sample)
  show ?thesis using libea_malloc_served [OF b w o s k m, of 0] by simp blast
qed

text \<open>
  \<open>realloc\<close> passes a wrong pointer on: its high half is the low half of the program's pointer
  and its low half is whatever the local variable held, so the block the program means is passed
  only if all three words happen to be equal.
\<close>

theorem libea_realloc_pointer_lost:
  assumes "slot ls w 0 0 e = Some hi" and "slot ls w 0 1 e = Some lo" and "slot64 ls w 1 e = Some n"
    and "libcall K ''realloc'' [uint (all64 lo junk), uint n] e = (p, e1)"
    and "mapped (mem e1) (LS_ARG_ADDR ls w 0) 16"
  shows "(\<exists>e'. default_libea_handler_realloc junk K ls w e = Some (0, e') \<and>
      trace e' = trace e @ [(LibCall ''realloc'' [uint (all64 lo junk), uint n], p)]) \<and>
    (all64 lo junk = all64 hi lo \<longleftrightarrow> hi = lo \<and> lo = junk)"
proof -
  obtain e' where e': "put_rc64 ls w (of_int p, e1) = Some (0, e')" "trace e' = trace e1"
    using put_rc64_ok [OF assms(5)] by blast
  obtain h1 where "slot ls w 1 0 e = Some h1"
    using assms(3) by (auto simp: slot64_def split: Option.bind_splits)
  then have "default_libea_handler_realloc junk K ls w e = Some (0, e')"
    using assms(1-4) e'(1) by (simp add: default_libea_handler_realloc_def arg64_to_size_t_def)
  moreover have "trace e1 = trace e @ [(LibCall ''realloc'' [uint (all64 lo junk), uint n], p)]"
    using assms(4) unfolding libcall_def by (rule sys_rv_trace)
  moreover have "all64 lo junk = all64 hi lo \<longleftrightarrow> hi = lo \<and> lo = junk"
    by (metis by32_all64)
  ultimately show ?thesis using e' by auto
qed

lemma libea_realloc_pointer_lost_witness:
  "\<exists>e'. default_libea_handler_realloc 0 (const_kernel (reply_ok 0)) 0x100000 0x100
      (sample_call ((\<lambda>i. 0)(0x40 := 1, 0x41 := 16, 0x45 := 64))) = Some (0, e') \<and>
    trace e' = [(LibCall ''realloc'' [16 * 2 ^ 32, 64], 0)]"
proof -
  let ?e = "sample_call ((\<lambda>i. 0)(0x40 := 1, 0x41 := 16, 0x45 := 64))"
  let ?e1 = "?e\<lparr>trace := [(LibCall ''realloc'' [16 * 2 ^ 32, 64], 0)]\<rparr>"
  have s: "slot 0x100000 0x100 0 0 ?e = Some 1" "slot 0x100000 0x100 0 1 ?e = Some 16"
    "slot64 0x100000 0x100 1 ?e = Some 64"
    by (simp_all add: sample_call_eval all64_def)
  have a: "uint (all64 16 0) = 16 * 2 ^ 32" by (simp add: all64_def)
  have k: "libcall (const_kernel (reply_ok 0)) ''realloc'' [uint (all64 16 0), uint (64 :: u64)] ?e = (0, ?e1)"
    by (simp add: a libcall_def sys_rv_def sys_def const_kernel_def reply_ok_def sample_call_def start_env_def)
  have q: "LS_ARG_ADDR 0x100000 0x100 0 = 0x100100" by (simp add: LS_ARG_ADDR_def)
  have m: "mapped (mem ?e1) (LS_ARG_ADDR 0x100000 0x100 0) 16" by (simp add: q mapped_sample)
  show ?thesis using libea_realloc_pointer_lost [OF s k m] a by simp
qed

end
