(* ===== verification/Handler_C99_Format.thy ===== *)
theory Handler_C99_Format
  imports Handler_Utils
begin

unbundle bit_operations_syntax

text \<open>
  The format strings of the C99 handlers (\<open>spebase/default_c99_handler.c\<close>, first part). The
  \<open>printf\<close> and \<open>scanf\<close> families take the arguments of the SPE program, which has 32-bit pointers and
  numbers in quadwords of its own argument list, and build the argument list of a 64-bit process:
  the format is scanned for conversions, and each conversion takes arguments and puts elements.
  A scan that leaves mapped memory, or never ends, has no result.
\<close>

section \<open>Scanning\<close>

abbreviation (input) PERCENT :: u8 where "PERCENT \<equiv> 37"

partial_function (option) skip_while :: "(u8 \<Rightarrow> bool) \<Rightarrow> memory \<Rightarrow> addr \<Rightarrow> addr option" where
  [code]: "skip_while P m p = do { c \<leftarrow> m p; if P c then skip_while P m (Suc p) else Some p }"

definition isdigit :: "u8 \<Rightarrow> bool" where
  "isdigit c \<longleftrightarrow> 48 \<le> c \<and> c \<le> 57"

definition strchr :: "memory \<Rightarrow> addr \<Rightarrow> u8 \<Rightarrow> addr option option" where
  "strchr m p x =
     do { q \<leftarrow> skip_while (\<lambda>c. c \<noteq> 0 \<and> c \<noteq> x) m p; c \<leftarrow> m q; Some (if c = x then Some q else None) }"

text \<open>The number of conversions, times three: each may have a width and a precision argument.\<close>

partial_function (option) nr_format_loop :: "memory \<Rightarrow> addr \<Rightarrow> nat \<Rightarrow> nat option" where
  [code]: "nr_format_loop m p nr =
     do { c \<leftarrow> m p;
          if c = 0 then Some nr
          else do { s \<leftarrow> strchr m p PERCENT;
                    case s of None \<Rightarrow> Some nr | Some q \<Rightarrow> nr_format_loop m (Suc q) (Suc nr) } }"

definition nr_format_args :: "memory \<Rightarrow> addr \<Rightarrow> nat option" where
  "nr_format_args m format = map_option (\<lambda>nr. nr * 3) (nr_format_loop m format 0)"

section \<open>The argument lists\<close>

text \<open>
  An element of the 64-bit argument list: a 32-bit number in the lower half, a 64-bit value, a
  pointer, or the address of one of the temporaries in which a \<open>long\<close> is received.
\<close>

datatype va_elem = VaInt u32 | VaLong u64 | VaPtr addr | VaTemp nat

text \<open>
  The SPE's list: the next argument, and where its caller's frame begins (the arguments in
  registers end there, and those on the stack begin 32 bytes further on). \<open>vlist\<close> is what has
  been put, \<open>vtemps\<close> the local store addresses the temporaries are copied to.
\<close>

record va_state =
  next_arg :: u32
  caller_stack :: u32
  vlist :: "va_elem list"
  vtemps :: "addr list"

definition bump_arg :: "va_state \<Rightarrow> va_state" where
  "bump_arg v =
     (let n = next_arg v + 16 in
      v\<lparr>next_arg := (if n AND LS_ADDR_MASK = caller_stack v AND LS_ADDR_MASK then n + 32 else n)\<rparr>)"

definition get_varg32 :: "addr \<Rightarrow> memory \<Rightarrow> va_state \<Rightarrow> (u32 \<times> va_state) option" where
  "get_varg32 ls m v = do { x \<leftarrow> load32 m (GET_LS_PTR ls (next_arg v)); Some (x, bump_arg v) }"

definition get_varg64 :: "addr \<Rightarrow> memory \<Rightarrow> va_state \<Rightarrow> (u64 \<times> va_state) option" where
  "get_varg64 ls m v =
     do { x \<leftarrow> load32 m (GET_LS_PTR ls (next_arg v)); y \<leftarrow> load32 m (GET_LS_PTR ls (next_arg v) + 4);
          Some (all64 x y, bump_arg v) }"

definition va_put :: "va_elem \<Rightarrow> va_state \<Rightarrow> va_state" where
  "va_put x v = v\<lparr>vlist := vlist v @ [x]\<rparr>"

definition put_int :: "addr \<Rightarrow> memory \<Rightarrow> va_state \<Rightarrow> va_state option" where
  "put_int ls m v = do { (x, v1) \<leftarrow> get_varg32 ls m v; Some (va_put (VaInt x) v1) }"

definition put_ptr :: "addr \<Rightarrow> memory \<Rightarrow> va_state \<Rightarrow> va_state option" where
  "put_ptr ls m v = do { (x, v1) \<leftarrow> get_varg32 ls m v; Some (va_put (VaPtr (GET_LS_PTR ls x)) v1) }"

definition put_temp :: "addr \<Rightarrow> memory \<Rightarrow> va_state \<Rightarrow> va_state option" where
  "put_temp ls m v =
     do { (x, v1) \<leftarrow> get_varg32 ls m v;
          let v2 = va_put (VaTemp (length (vtemps v1))) v1;
          Some (v2\<lparr>vtemps := vtemps v2 @ [GET_LS_PTR ls x]\<rparr>) }"

section \<open>The parts of a conversion\<close>

abbreviation (input) char_star :: u8 where "char_star \<equiv> 42"
abbreviation (input) char_dot :: u8 where "char_dot \<equiv> 46"

definition skip_precision :: "addr \<Rightarrow> memory \<Rightarrow> addr \<Rightarrow> va_state \<Rightarrow> (addr \<times> va_state) option" where
  "skip_precision ls m p v =
     do { c \<leftarrow> m p;
          if c \<noteq> char_dot then Some (p, v)
          else do {
            d \<leftarrow> m (Suc p);
            if isdigit d then do { q \<leftarrow> skip_while isdigit m (Suc p); Some (q, v) }
            else if d = char_star then do { v1 \<leftarrow> put_int ls m v; Some (Suc (Suc p), v1) }
            else Some (Suc p, v) } }"

definition skip_field_width ::
  "addr \<Rightarrow> memory \<Rightarrow> addr \<Rightarrow> bool \<Rightarrow> va_state \<Rightarrow> (addr \<times> va_state) option" where
  "skip_field_width ls m p output v =
     do { c \<leftarrow> m p;
          if isdigit c then do { q \<leftarrow> skip_while isdigit m p; Some (q, v) }
          else if c = char_star then do { v1 \<leftarrow> (if output then put_int ls m v else Some v); Some (Suc p, v1) }
          else Some (p, v) }"

text \<open>The flags of \<open>printf\<close>: one of \<open>#0-+\<close> or a space.\<close>

definition printf_flag :: "u8 \<Rightarrow> bool" where
  "printf_flag c \<longleftrightarrow> c \<in> {35, 48, 45, 43, 32}"

text \<open>The length modifiers \<open>h\<close>, \<open>l\<close>, \<open>j\<close>, \<open>z\<close> and \<open>t\<close>; the result is the value of \<open>format_long\<close>.\<close>

partial_function (option) skip_length_modifiers :: "memory \<Rightarrow> addr \<Rightarrow> nat \<Rightarrow> (addr \<times> nat) option" where
  [code]: "skip_length_modifiers m p l =
     do { c \<leftarrow> m p;
          if c = 104 then skip_length_modifiers m (Suc p) l
          else if c = 108 then skip_length_modifiers m (Suc p) (Suc l)
          else if c = 106 then skip_length_modifiers m (Suc p) 2
          else if c = 122 \<or> c = 116 then skip_length_modifiers m (Suc p) 1
          else Some (p, l) }"

text \<open>\<open>SKIP_CHAR_SET\<close>: the position of the closing bracket, if there is one.\<close>

definition skip_char_set :: "memory \<Rightarrow> addr \<Rightarrow> addr option option" where
  "skip_char_set m p =
     do { c \<leftarrow> m (Suc p);
          let p1 = (if c = 94 then Suc (Suc p) else Suc p);
          d \<leftarrow> m p1;
          strchr m (if d = 93 then Suc p1 else p1) 93 }"

section \<open>The \<open>printf\<close> formats\<close>

text \<open>
  The conversion characters: \<open>d i\<close>; \<open>o u x X\<close>; \<open>c\<close>; \<open>a A e E f F g G\<close>; \<open>p\<close>; \<open>s\<close>; \<open>n\<close>.
\<close>

definition is_signed_conv :: "u8 \<Rightarrow> bool" where
  "is_signed_conv c \<longleftrightarrow> c \<in> {100, 105}"

definition is_int_conv :: "u8 \<Rightarrow> bool" where
  "is_int_conv c \<longleftrightarrow> c \<in> {100, 105, 111, 117, 120, 88}"

definition is_float_conv :: "u8 \<Rightarrow> bool" where
  "is_float_conv c \<longleftrightarrow> c \<in> {97, 65, 101, 69, 102, 70, 103, 71}"

definition printf_conversion :: "addr \<Rightarrow> memory \<Rightarrow> u8 \<Rightarrow> nat \<Rightarrow> va_state \<Rightarrow> va_state option" where
  "printf_conversion ls m c format_long v =
     (if is_int_conv c \<and> format_long = 2 then
        do { (x, v1) \<leftarrow> get_varg64 ls m v; Some (va_put (VaLong x) v1) }
      else if is_int_conv c \<and> format_long \<noteq> 0 then
        do { (x, v1) \<leftarrow> get_varg32 ls m v;
             Some (va_put (VaLong (if is_signed_conv c then scast x else ucast x)) v1) }
      else if is_int_conv c \<or> c = 99 then put_int ls m v
      else if is_float_conv c then
        do { (x, v1) \<leftarrow> get_varg64 ls m v; Some (va_put (VaLong x) v1) }
      else if c = 112 then do { (x, v1) \<leftarrow> get_varg32 ls m v; Some (va_put (VaLong (ucast x)) v1) }
      else if c = 115 then put_ptr ls m v
      else if c = 110 then (if format_long = 1 then put_temp ls m v else put_ptr ls m v)
      else Some v)"

definition printf_directive :: "addr \<Rightarrow> memory \<Rightarrow> addr \<Rightarrow> va_state \<Rightarrow> (addr \<times> va_state) option" where
  "printf_directive ls m p v =
     do { p1 \<leftarrow> skip_while printf_flag m p;
          (p2, v2) \<leftarrow> skip_field_width ls m p1 True v;
          (p3, v3) \<leftarrow> skip_precision ls m p2 v2;
          (p4, format_long) \<leftarrow> skip_length_modifiers m p3 0;
          c \<leftarrow> m p4;
          v4 \<leftarrow> printf_conversion ls m c format_long v3;
          Some (p4, v4) }"

fun parse_printf_format :: "addr \<Rightarrow> memory \<Rightarrow> addr \<Rightarrow> va_state \<Rightarrow> nat \<Rightarrow> va_state option" where
  "parse_printf_format ls m p v 0 = Some v"
| "parse_printf_format ls m p v (Suc nr_vargs) =
     do { c \<leftarrow> m p;
          if c = 0 then Some v
          else do { s \<leftarrow> strchr m p PERCENT;
                    case s of
                      None \<Rightarrow> Some v
                    | Some q \<Rightarrow> do { (p1, v1) \<leftarrow> printf_directive ls m (Suc q) v;
                                  parse_printf_format ls m (Suc p1) v1 nr_vargs } } }"

section \<open>The \<open>scanf\<close> formats\<close>

text \<open>
  The result is \<open>None\<close> inside for a set without closing bracket: the parser returns 1.
\<close>

definition scanf_conversion ::
  "addr \<Rightarrow> memory \<Rightarrow> addr \<Rightarrow> nat \<Rightarrow> bool \<Rightarrow> va_state \<Rightarrow> ((addr \<times> va_state) option) option" where
  "scanf_conversion ls m p format_long suppress v =
     do { c \<leftarrow> m p;
          if (is_int_conv c \<or> c = 110) \<and> format_long = 1 then
            do { v1 \<leftarrow> (if suppress then Some v else put_temp ls m v); Some (Some (p, v1)) }
          else if is_int_conv c \<or> c = 110 \<or> is_float_conv c \<or> c = 99 \<or> c = 115 then
            do { v1 \<leftarrow> (if suppress then Some v else put_ptr ls m v); Some (Some (p, v1)) }
          else if c = 112 then
            do { v1 \<leftarrow> (if suppress then Some v else put_temp ls m v); Some (Some (p, v1)) }
          else if c = 91 then
            do { s \<leftarrow> skip_char_set m p;
                 case s of
                   None \<Rightarrow> Some None
                 | Some q \<Rightarrow> do { v1 \<leftarrow> (if suppress then Some v else put_ptr ls m v); Some (Some (q, v1)) } }
          else Some (Some (p, v)) }"

definition scanf_directive ::
  "addr \<Rightarrow> memory \<Rightarrow> addr \<Rightarrow> va_state \<Rightarrow> ((addr \<times> va_state) option) option" where
  "scanf_directive ls m p v =
     do { p1 \<leftarrow> skip_while (\<lambda>c. c = char_star) m p;
          let suppress = (p1 \<noteq> p);
          (p2, v2) \<leftarrow> skip_field_width ls m p1 False v;
          (p3, format_long) \<leftarrow> skip_length_modifiers m p2 0;
          scanf_conversion ls m p3 format_long suppress v2 }"

fun parse_scanf_format :: "addr \<Rightarrow> memory \<Rightarrow> addr \<Rightarrow> va_state \<Rightarrow> nat \<Rightarrow> (int \<times> va_state) option" where
  "parse_scanf_format ls m p v 0 = Some (0, v)"
| "parse_scanf_format ls m p v (Suc nr_vargs) =
     do { c \<leftarrow> m p;
          if c = 0 then Some (0, v)
          else do { s \<leftarrow> strchr m p PERCENT;
                    case s of
                      None \<Rightarrow> Some (0, v)
                    | Some q \<Rightarrow> do { d \<leftarrow> scanf_directive ls m (Suc q) v;
                                  case d of
                                    None \<Rightarrow> Some (1, v)
                                  | Some (p1, v1) \<Rightarrow> parse_scanf_format ls m (Suc p1) v1 nr_vargs } } }"

section \<open>Scanning a string\<close>

text \<open>\<open>cstring m p s\<close>: at \<open>p\<close> there are the characters \<open>s\<close> and a terminating zero.\<close>

fun cstring :: "memory \<Rightarrow> addr \<Rightarrow> u8 list \<Rightarrow> bool" where
  "cstring m p [] \<longleftrightarrow> m p = Some 0"
| "cstring m p (c # s) \<longleftrightarrow> m p = Some c \<and> c \<noteq> 0 \<and> cstring m (Suc p) s"

lemma skip_while_cstring:
  "cstring m p s \<Longrightarrow> \<not> P 0 \<Longrightarrow> \<exists>q. skip_while P m p = Some q \<and> cstring m q (dropWhile P s)"
  by (induction s arbitrary: p) (auto simp: skip_while.simps [of _ _ p for p])

lemma strchr_cstring:
  assumes "cstring m p s" "x \<noteq> 0"
  shows "\<exists>q. strchr m p x = Some q \<and>
     (case dropWhile (\<lambda>c. c \<noteq> x) s of [] \<Rightarrow> q = None | y # r \<Rightarrow> \<exists>a. q = Some a \<and> cstring m (Suc a) r)"
proof -
  let ?P = "\<lambda>c. c \<noteq> 0 \<and> c \<noteq> x"
  obtain q where q: "skip_while ?P m p = Some q" "cstring m q (dropWhile ?P s)"
    using skip_while_cstring [OF assms(1), of ?P] by auto
  have "0 \<notin> set s" using assms(1) by (induction s arbitrary: p) auto
  then have d: "dropWhile ?P s = dropWhile (\<lambda>c. c \<noteq> x) s" by (intro dropWhile_cong) auto
  show ?thesis
  proof (cases "dropWhile (\<lambda>c. c \<noteq> x) s")
    case Nil
    then have "m q = Some 0" using q(2) d by (simp del: dropWhile_eq_Nil_conv)
    then have "strchr m p x = Some None" using q(1) assms(2) by (simp add: strchr_def)
    then show ?thesis unfolding Nil by simp
  next
    case (Cons y r)
    moreover have "y = x" using Cons by (metis (full_types) hd_dropWhile list.discI list.sel(1))
    ultimately show ?thesis using q d by (simp add: strchr_def)
  qed
qed

lemma count_list_dropWhile: "\<not> P x \<Longrightarrow> count_list (dropWhile P s) x = count_list s x"
  by (induction s) auto

lemma count_list_dropWhile_le: "count_list (dropWhile P s) x \<le> count_list s x"
  by (induction s) auto

lemma count_percent:
  "dropWhile (\<lambda>c. c \<noteq> x) s = y # r \<Longrightarrow> y = x \<and> count_list s x = Suc (count_list r x) \<and> length r < length s"
proof (induction s)
  case (Cons a s)
  then show ?case by (cases "a = x") auto
qed simp

lemma nr_format_loop_cstring:
  "cstring m p s \<Longrightarrow> nr_format_loop m p nr = Some (nr + count_list s PERCENT)"
proof (induction "length s" arbitrary: s p nr rule: less_induct)
  case less
  show ?case
  proof (cases s)
    case Nil
    then show ?thesis using less.prems by (simp add: nr_format_loop.simps [of m p])
  next
    case (Cons c t)
    from strchr_cstring [OF less.prems, of PERCENT] obtain q where q: "strchr m p PERCENT = Some q"
      "case dropWhile (\<lambda>c. c \<noteq> PERCENT) s of [] \<Rightarrow> q = None | y # r \<Rightarrow> \<exists>a. q = Some a \<and> cstring m (Suc a) r"
      by auto
    show ?thesis
    proof (cases "dropWhile (\<lambda>c. c \<noteq> PERCENT) s")
      case Nil
      then have "PERCENT \<notin> set s" by (auto simp: dropWhile_eq_Nil_conv)
      then have "count_list s PERCENT = 0" by simp
      then show ?thesis using q Nil less.prems \<open>s = c # t\<close> by (simp add: nr_format_loop.simps [of m p])
    next
      case (Cons y r)
      then obtain a where a: "q = Some a" "cstring m (Suc a) r" using q(2) by auto
      note cp = count_percent [OF Cons]
      then have "nr_format_loop m (Suc a) (Suc nr) = Some (Suc nr + count_list r PERCENT)"
        using less.hyps a(2) by blast
      then show ?thesis using q(1) a(1) less.prems \<open>s = c # t\<close> cp by (simp add: nr_format_loop.simps [of m p])
    qed
  qed
qed

lemma nr_format_args_cstring: "cstring m p s \<Longrightarrow> nr_format_args m p = Some (3 * count_list s PERCENT)"
  by (simp add: nr_format_args_def nr_format_loop_cstring)

section \<open>What a directive takes\<close>

text \<open>
  The rest of a format after the flags, width, precision and length modifiers of a conversion: it
  begins with the conversion character. A format is \<open>complete\<close> if there is one for every \<open>%\<close>.
\<close>

fun after_width :: "u8 list \<Rightarrow> u8 list" where
  "after_width [] = []"
| "after_width (c # t) =
     (if isdigit c then dropWhile isdigit (c # t) else if c = char_star then t else c # t)"

fun after_precision :: "u8 list \<Rightarrow> u8 list" where
  "after_precision [] = []"
| "after_precision [c] = (if c = char_dot then [] else [c])"
| "after_precision (c # d # u) =
     (if c \<noteq> char_dot then c # d # u
      else if isdigit d then dropWhile isdigit (d # u) else if d = char_star then u else d # u)"

definition length_modifier :: "u8 \<Rightarrow> bool" where
  "length_modifier c \<longleftrightarrow> c \<in> {104, 108, 106, 122, 116}"

definition printf_rest :: "u8 list \<Rightarrow> u8 list" where
  "printf_rest s = dropWhile length_modifier (after_precision (after_width (dropWhile printf_flag s)))"

lemma dropWhile_le: "length (dropWhile P s) \<le> length s"
  by (induction s) auto

lemma after_width_le: "length (after_width s) \<le> length s \<and> count_list (after_width s) x \<le> count_list s x"
proof (cases s)
  case (Cons c t)
  then show ?thesis using dropWhile_le [of isdigit s] count_list_dropWhile_le [of isdigit s x] by auto
qed simp

lemma after_precision_le:
  "length (after_precision s) \<le> length s \<and> count_list (after_precision s) x \<le> count_list s x"
proof (cases s rule: after_precision.cases)
  case (3 c d u)
  then show ?thesis
    using dropWhile_le [of isdigit "d # u"] count_list_dropWhile_le [of isdigit "d # u" x] by auto
qed auto

lemma printf_rest_le: "length (printf_rest s) \<le> length s" "count_list (printf_rest s) x \<le> count_list s x"
  unfolding printf_rest_def
  by (meson after_width_le after_precision_le dropWhile_le count_list_dropWhile_le order_trans)+

function complete :: "u8 list \<Rightarrow> bool" where
  "complete s =
     (case dropWhile (\<lambda>c. c \<noteq> PERCENT) s of
        [] \<Rightarrow> True
      | _ # r \<Rightarrow> (case printf_rest r of [] \<Rightarrow> False | _ # t \<Rightarrow> complete t))"
  by pat_completeness auto
termination
proof (relation "measure length")
  fix s r t :: "u8 list" and y c :: u8
  assume "dropWhile (\<lambda>c. c \<noteq> PERCENT) s = y # r" "printf_rest r = c # t"
  then show "(t, s) \<in> measure length"
    using count_percent [of PERCENT s y r] printf_rest_le(1) [of r] by simp
qed simp

declare complete.simps [simp del]

text \<open>The arguments can be read: the local store is mapped and they are quadwords.\<close>

definition args_ok :: "addr \<Rightarrow> memory \<Rightarrow> va_state \<Rightarrow> bool" where
  "args_ok ls m v \<longleftrightarrow> mapped m ls LS_SIZE \<and> 16 dvd unat (next_arg v)"

text \<open>How many elements and temporaries a step adds at most.\<close>

definition puts :: "nat \<Rightarrow> nat \<Rightarrow> va_state \<Rightarrow> va_state \<Rightarrow> bool" where
  "puts a b v v' \<longleftrightarrow> length (vlist v') \<le> length (vlist v) + a \<and> length (vtemps v') \<le> length (vtemps v) + b"

lemma puts_0 [simp]: "puts a b v v"
  by (simp add: puts_def)

lemma puts_trans: "puts a b v v' \<Longrightarrow> puts c d v' v'' \<Longrightarrow> puts (a + c) (b + d) v v''"
  by (simp add: puts_def)

lemma puts_mono: "puts a b v v' \<Longrightarrow> a \<le> c \<Longrightarrow> b \<le> d \<Longrightarrow> puts c d v v'"
  by (simp add: puts_def)

lemma bump_arg_facts [simp]: "vlist (bump_arg v) = vlist v" "vtemps (bump_arg v) = vtemps v"
  by (simp_all add: bump_arg_def Let_def)

lemma bump_arg_ok: "args_ok ls m v \<Longrightarrow> args_ok ls m (bump_arg v)"
proof -
  assume a: "args_ok ls m v"
  have n: "16 dvd unat (next_arg v + k)" if "16 dvd unat k" for k
  proof -
    have "unat (next_arg v + k) mod 16 = (unat (next_arg v) + unat k) mod 16"
      by (simp add: unat_word_ariths mod_mod_cancel)
    moreover have "16 dvd unat (next_arg v) + unat k" using a that by (simp add: args_ok_def dvd_add)
    ultimately show ?thesis by (simp add: dvd_eq_mod_eq_0)
  qed
  have "16 dvd unat (next_arg v + 16)" by (rule n) simp
  moreover have "16 dvd unat (next_arg v + 16 + 32)" using n [of 48] by (simp add: add.assoc)
  ultimately show ?thesis using a unfolding args_ok_def bump_arg_def Let_def by simp
qed

lemma va_put_ok: "args_ok ls m (va_put x v) = args_ok ls m v" "puts a b v (va_put x v') = (puts a b v v' \<and> length (vlist v') < length (vlist v) + a)"
  by (auto simp: args_ok_def va_put_def puts_def)

lemma arg_in_ls:
  assumes "16 dvd unat (w :: u32)"
  shows "GET_LS_PTR ls w + 16 \<le> ls + LS_SIZE"
proof -
  have "w AND LS_ADDR_MASK = take_bit 18 w" by (simp add: take_bit_eq_mask mask_eq_exp_minus_1)
  then have g: "GET_LS_PTR ls w = ls + unat w mod 262144"
    by (simp add: GET_LS_PTR_def unsigned_take_bit_eq) (simp add: take_bit_eq_mod)
  have "16 dvd unat w mod 262144" using assms by (simp add: dvd_mod)
  moreover have "unat w mod 262144 < 262144" by simp
  ultimately show ?thesis using g by (auto elim!: dvdE)
qed

lemma get_varg_ok:
  assumes "args_ok ls m v"
  shows "\<exists>x. get_varg32 ls m v = Some (x, bump_arg v)" "\<exists>y. get_varg64 ls m v = Some (y, bump_arg v)"
proof -
  have "mapped m (GET_LS_PTR ls (next_arg v)) 8"
  proof (rule mapped_sub)
    show "mapped m ls LS_SIZE" using assms by (simp add: args_ok_def)
    have "16 dvd unat (next_arg v)" using assms by (simp add: args_ok_def)
    from arg_in_ls [OF this, of ls] show "GET_LS_PTR ls (next_arg v) + 8 \<le> ls + LS_SIZE" by simp
  qed (rule GET_LS_PTR_bounds)
  then have "mapped m (GET_LS_PTR ls (next_arg v)) 4" "mapped m (GET_LS_PTR ls (next_arg v) + 4) 4"
    by (rule mapped_sub; simp)+
  then obtain x y where "load32 m (GET_LS_PTR ls (next_arg v)) = Some x"
    "load32 m (GET_LS_PTR ls (next_arg v) + 4) = Some y" using load32_mapped by blast
  then show "\<exists>x. get_varg32 ls m v = Some (x, bump_arg v)" "\<exists>y. get_varg64 ls m v = Some (y, bump_arg v)"
    by (simp_all add: get_varg32_def get_varg64_def)
qed

text \<open>A step that has a result, keeps the arguments readable and adds a bounded number of elements.\<close>

definition steps :: "nat \<Rightarrow> nat \<Rightarrow> addr \<Rightarrow> memory \<Rightarrow> va_state \<Rightarrow> va_state option \<Rightarrow> bool" where
  "steps a b ls m v r \<longleftrightarrow> (\<exists>v'. r = Some v' \<and> args_ok ls m v' \<and> puts a b v v')"

lemma put_ok:
  assumes "args_ok ls m v"
  shows "steps 1 0 ls m v (put_int ls m v)" "steps 1 0 ls m v (put_ptr ls m v)" "steps 1 1 ls m v (put_temp ls m v)"
  using get_varg_ok(1) [OF assms] bump_arg_ok [OF assms]
  by (auto simp: steps_def put_int_def put_ptr_def put_temp_def va_put_def args_ok_def puts_def)

lemma cstring_nth0: "cstring m p s \<Longrightarrow> m p = Some (case s of [] \<Rightarrow> 0 | c # _ \<Rightarrow> c)"
  by (cases s) auto

lemma not_digit_0 [simp]: "\<not> isdigit 0" "\<not> isdigit 42" "\<not> isdigit 46"
  by (simp_all add: isdigit_def word_le_nat_alt)

lemma skip_field_width_ok:
  assumes "cstring m p s" "args_ok ls m v"
  shows "\<exists>q v'. skip_field_width ls m p b v = Some (q, v') \<and> cstring m q (after_width s) \<and>
     args_ok ls m v' \<and> puts (of_bool b) 0 v v'"
proof (cases s)
  case Nil
  then show ?thesis using assms by (auto simp: skip_field_width_def)
next
  case (Cons c t)
  consider "isdigit c" | "\<not> isdigit c" "c = char_star" | "\<not> isdigit c" "c \<noteq> char_star" by blast
  then show ?thesis
  proof cases
    case 1
    then show ?thesis using assms Cons skip_while_cstring [OF assms(1), of isdigit]
      by (auto simp: skip_field_width_def)
  next
    case 2
    obtain v1 where "put_int ls m v = Some v1" "args_ok ls m v1" "puts 1 0 v v1"
      using put_ok(1) [OF assms(2)] by (auto simp: steps_def)
    then show ?thesis using assms Cons 2 by (cases b) (auto simp: skip_field_width_def)
  next
    case 3
    then show ?thesis using assms Cons by (auto simp: skip_field_width_def)
  qed
qed

lemma skip_precision_ok:
  assumes "cstring m p s" "args_ok ls m v"
  shows "\<exists>q v'. skip_precision ls m p v = Some (q, v') \<and> cstring m q (after_precision s) \<and>
     args_ok ls m v' \<and> puts 1 0 v v'"
proof (cases s rule: after_precision.cases)
  case 1
  then show ?thesis using assms by (auto simp: skip_precision_def)
next
  case (2 c)
  then show ?thesis using assms by (auto simp: skip_precision_def)
next
  case (3 c d u)
  obtain v1 where v1: "put_int ls m v = Some v1" "args_ok ls m v1" "puts 1 0 v v1"
    using put_ok(1) [OF assms(2)] by (auto simp: steps_def)
  have "cstring m (Suc p) (d # u)" using assms(1) 3 by simp
  from skip_while_cstring [OF this, of isdigit]
  show ?thesis using assms 3 v1 by (auto simp: skip_precision_def)
qed

lemma skip_length_modifiers_ok:
  "cstring m p s \<Longrightarrow> \<exists>q l'. skip_length_modifiers m p l = Some (q, l') \<and> cstring m q (dropWhile length_modifier s)"
proof (induction s arbitrary: p l)
  case Nil
  then show ?case by (simp add: skip_length_modifiers.simps [of m p])
next
  case (Cons c t)
  then have c: "m p = Some c" "cstring m (Suc p) t" "c \<noteq> 0" by simp_all
  have "length_modifier c \<longleftrightarrow> c = 104 \<or> c = 108 \<or> c = 106 \<or> c = 122 \<or> c = 116"
    by (simp add: length_modifier_def)
  then show ?case using Cons.IH [OF c(2)] Cons.prems c(1)
    by (subst skip_length_modifiers.simps) auto
qed

lemma printf_conversion_ok:
  assumes "args_ok ls m v"
  shows "steps 1 1 ls m v (printf_conversion ls m c l v)"
proof -
  obtain x y where g: "get_varg32 ls m v = Some (x, bump_arg v)" "get_varg64 ls m v = Some (y, bump_arg v)"
    using get_varg_ok [OF assms] by blast
  have p: "steps 1 1 ls m v (Some (va_put z (bump_arg v)))" for z
    using bump_arg_ok [OF assms] by (simp add: steps_def va_put_def args_ok_def puts_def)
  have w: "steps 1 0 ls m v r \<Longrightarrow> steps 1 1 ls m v r" for r
    by (auto simp: steps_def puts_def)
  have "steps 1 1 ls m v (Some v)" using assms by (simp add: steps_def)
  then show ?thesis
    using w [OF put_ok(1) [OF assms]] w [OF put_ok(2) [OF assms]] put_ok(3) [OF assms] p
    by (simp add: printf_conversion_def g)
qed

lemma printf_directive_ok:
  assumes "cstring m p s" "args_ok ls m v"
  shows "\<exists>q v'. printf_directive ls m p v = Some (q, v') \<and> cstring m q (printf_rest s) \<and>
     args_ok ls m v' \<and> puts 3 1 v v'"
proof -
  have "\<not> printf_flag 0" by (simp add: printf_flag_def)
  from skip_while_cstring [where P = printf_flag, OF assms(1) this] obtain p1 where 1: "skip_while printf_flag m p = Some p1"
    "cstring m p1 (dropWhile printf_flag s)" by blast
  from skip_field_width_ok [OF 1(2) assms(2), of True] obtain p2 v2 where 2:
    "skip_field_width ls m p1 True v = Some (p2, v2)" "cstring m p2 (after_width (dropWhile printf_flag s))"
    "args_ok ls m v2" "puts 1 0 v v2" by auto
  from skip_precision_ok [OF 2(2,3)] obtain p3 v3 where 3: "skip_precision ls m p2 v2 = Some (p3, v3)"
    "cstring m p3 (after_precision (after_width (dropWhile printf_flag s)))" "args_ok ls m v3" "puts 1 0 v2 v3"
    by blast
  from skip_length_modifiers_ok [OF 3(2), of 0] obtain p4 l where 4: "skip_length_modifiers m p3 0 = Some (p4, l)"
    "cstring m p4 (printf_rest s)" unfolding printf_rest_def by blast
  obtain c where c: "m p4 = Some c" using cstring_nth0 [OF 4(2)] by simp
  from printf_conversion_ok [OF 3(3), of c l] obtain v4 where 5: "printf_conversion ls m c l v3 = Some v4"
    "args_ok ls m v4" "puts 1 1 v3 v4" by (auto simp: steps_def)
  have "puts 3 1 v v4" using puts_trans [OF puts_trans [OF 2(4) 3(4)] 5(3)] by (simp add: numeral_3_eq_3)
  then show ?thesis using 1 2 3 4 5 c by (auto simp: printf_directive_def)
qed

lemma parse_printf_format_ok:
  assumes "cstring m p s" "args_ok ls m v" "complete s"
  shows "\<exists>v'. parse_printf_format ls m p v n = Some v' \<and>
     puts (3 * count_list s PERCENT) (count_list s PERCENT) v v'"
  using assms
proof (induction n arbitrary: p s v)
  case (Suc n)
  show ?case
  proof (cases s)
    case Nil
    then show ?thesis using Suc.prems by simp
  next
    case (Cons c t)
    then have c: "m p = Some c" "c \<noteq> 0" using Suc.prems(1) by simp_all
    from strchr_cstring [OF Suc.prems(1), of PERCENT] obtain q where q: "strchr m p PERCENT = Some q"
      "case dropWhile (\<lambda>c. c \<noteq> PERCENT) s of [] \<Rightarrow> q = None | y # r \<Rightarrow> \<exists>a. q = Some a \<and> cstring m (Suc a) r"
      by auto
    show ?thesis
    proof (cases "dropWhile (\<lambda>c. c \<noteq> PERCENT) s")
      case Nil
      then have "q = None" using q(2) by (simp del: dropWhile_eq_Nil_conv)
      then show ?thesis using c q(1) by simp
    next
      case (Cons y r)
      then obtain a where a: "q = Some a" "cstring m (Suc a) r" using q(2) by auto
      from printf_directive_ok [OF a(2) Suc.prems(2)] obtain p1 v1 where
        d: "printf_directive ls m (Suc a) v = Some (p1, v1)" "cstring m p1 (printf_rest r)"
          "args_ok ls m v1" "puts 3 1 v v1" by blast
      obtain x u where u: "printf_rest r = x # u" "complete u"
        using Suc.prems(3) Cons by (subst (asm) complete.simps) (auto split: list.splits)
      then have "cstring m (Suc p1) u" using d(2) by simp
      from Suc.IH [OF this d(3) u(2)] obtain v' where v': "parse_printf_format ls m (Suc p1) v1 n = Some v'"
        "puts (3 * count_list u PERCENT) (count_list u PERCENT) v1 v'" by blast
      have "count_list u PERCENT \<le> count_list r PERCENT"
        using printf_rest_le(2) [of r PERCENT] u(1) by (simp split: if_splits)
      then have "puts (3 * count_list s PERCENT) (count_list s PERCENT) v v'"
        using count_percent [OF Cons] by (intro puts_mono [OF puts_trans [OF d(4) v'(2)]]) auto
      moreover have "parse_printf_format ls m p v (Suc n) = Some v'" using c q(1) a(1) d(1) v'(1) by simp
      ultimately show ?thesis by blast
    qed
  qed
qed simp

section \<open>Which arguments a format takes\<close>

text \<open>
  The reference for the argument list: what a format asks for, read off its characters alone. A
  \<open>*\<close> as width or precision takes an \<open>int\<close>; a conversion takes a number of 32 bits, one that is
  extended to 64 bits with or without its sign, a value of 64 bits, a pointer, or, for \<open>%ln\<close>, the
  address of a number that is received as a \<open>long\<close>.
\<close>

datatype va_kind = Kint | Ksigned | Kunsigned | Kquad | Kptr | Ktemp

definition width_kinds :: "u8 list \<Rightarrow> va_kind list" where
  "width_kinds s = (case s of c # _ \<Rightarrow> if c = char_star then [Kint] else [] | [] \<Rightarrow> [])"

definition precision_kinds :: "u8 list \<Rightarrow> va_kind list" where
  "precision_kinds s = (case s of c # d # _ \<Rightarrow> if c = char_dot \<and> d = char_star then [Kint] else [] | _ \<Rightarrow> [])"

definition modifier_length :: "u8 \<Rightarrow> nat \<Rightarrow> nat" where
  "modifier_length c l = (if c = 104 then l else if c = 108 then Suc l else if c = 106 then 2 else 1)"

definition conversion_kinds :: "u8 \<Rightarrow> nat \<Rightarrow> va_kind list" where
  "conversion_kinds c l =
     (if is_int_conv c then [if l = 2 then Kquad else if l = 0 then Kint else if is_signed_conv c then Ksigned else Kunsigned]
      else if c = 99 then [Kint]
      else if is_float_conv c then [Kquad]
      else if c = 112 then [Kunsigned]
      else if c = 115 then [Kptr]
      else if c = 110 then [if l = 1 then Ktemp else Kptr]
      else [])"

definition directive_kinds :: "u8 list \<Rightarrow> va_kind list" where
  "directive_kinds r =
     (let w = dropWhile printf_flag r; q = after_width w; l = after_precision q in
      width_kinds w @ precision_kinds q @
      conversion_kinds (hd (printf_rest r)) (fold modifier_length (takeWhile length_modifier l) 0))"

function format_kinds :: "u8 list \<Rightarrow> va_kind list" where
  "format_kinds s =
     (case dropWhile (\<lambda>c. c \<noteq> PERCENT) s of
        [] \<Rightarrow> []
      | _ # r \<Rightarrow> (case printf_rest r of [] \<Rightarrow> [] | _ # t \<Rightarrow> directive_kinds r @ format_kinds t))"
  by pat_completeness auto
termination
proof (relation "measure length")
  fix s r t :: "u8 list" and y c :: u8
  assume "dropWhile (\<lambda>c. c \<noteq> PERCENT) s = y # r" "printf_rest r = c # t"
  then show "(t, s) \<in> measure length"
    using count_percent [of PERCENT s y r] printf_rest_le(1) [of r] by simp
qed simp

declare format_kinds.simps [simp del]

text \<open>
  Taking one argument: its one or two words are at the place \<open>next_arg\<close> points to in the local store, and the
  next argument follows.
\<close>

definition va_value :: "addr \<Rightarrow> va_kind \<Rightarrow> nat \<Rightarrow> u32 \<Rightarrow> u32 \<Rightarrow> va_elem" where
  "va_value ls k t x y =
     (case k of
        Kint \<Rightarrow> VaInt x
      | Ksigned \<Rightarrow> VaLong (scast x)
      | Kunsigned \<Rightarrow> VaLong (ucast x)
      | Kquad \<Rightarrow> VaLong (all64 x y)
      | Kptr \<Rightarrow> VaPtr (GET_LS_PTR ls x)
      | Ktemp \<Rightarrow> VaTemp t)"

definition take_arg :: "addr \<Rightarrow> memory \<Rightarrow> va_kind \<Rightarrow> va_state \<Rightarrow> va_state option" where
  "take_arg ls m k v =
     do { x \<leftarrow> load32 m (GET_LS_PTR ls (next_arg v));
          y \<leftarrow> (if k = Kquad then load32 m (GET_LS_PTR ls (next_arg v) + 4) else Some 0);
          let v1 = va_put (va_value ls k (length (vtemps v)) x y) (bump_arg v);
          Some (if k = Ktemp then v1\<lparr>vtemps := vtemps v1 @ [GET_LS_PTR ls x]\<rparr> else v1) }"

fun take_args :: "addr \<Rightarrow> memory \<Rightarrow> va_kind list \<Rightarrow> va_state \<Rightarrow> va_state option" where
  "take_args ls m [] v = Some v"
| "take_args ls m (k # ks) v = take_arg ls m k v \<bind> take_args ls m ks"

lemma take_args_Nil: "take_args ls m [] = Some"
  by (rule ext) simp

lemma take_args_one: "take_args ls m [k] v = take_arg ls m k v"
  by (simp add: take_args_Nil)

lemma take_args_append: "take_args ls m (ks @ js) v = take_args ls m ks v \<bind> take_args ls m js"
proof (induction ks arbitrary: v)
  case (Cons k ks)
  then show ?case by (cases "take_arg ls m k v") simp_all
qed simp

lemma take_args_length: "take_args ls m ks v = Some v' \<Longrightarrow> length (vlist v') = length (vlist v) + length ks"
  by (induction ks arbitrary: v) (fastforce simp: take_arg_def va_put_def Let_def split: Option.bind_splits if_splits)+

lemma put_takes:
  "put_int ls m v = take_arg ls m Kint v" "put_ptr ls m v = take_arg ls m Kptr v"
  "put_temp ls m v = take_arg ls m Ktemp v"
  by (cases "load32 m (GET_LS_PTR ls (next_arg v))";
      simp add: put_int_def put_ptr_def put_temp_def take_arg_def get_varg32_def va_value_def Let_def va_put_def)+

lemma skip_field_width_takes:
  "cstring m p s \<Longrightarrow> skip_field_width ls m p True v = Some (q, v') \<Longrightarrow> take_args ls m (width_kinds s) v = Some v'"
  by (cases s) (auto simp: skip_field_width_def width_kinds_def put_takes take_args_Nil split: Option.bind_splits if_splits)

lemma skip_precision_takes:
  "cstring m p s \<Longrightarrow> skip_precision ls m p v = Some (q, v') \<Longrightarrow> take_args ls m (precision_kinds s) v = Some v'"
  by (cases s rule: after_precision.cases)
    (auto simp: skip_precision_def precision_kinds_def put_takes take_args_Nil split: Option.bind_splits if_splits)

lemma skip_length_modifiers_takes:
  "cstring m p s \<Longrightarrow> skip_length_modifiers m p l = Some (q, l') \<Longrightarrow>
   l' = fold modifier_length (takeWhile length_modifier s) l"
proof (induction s arbitrary: p l)
  case Nil
  then show ?case by (simp add: skip_length_modifiers.simps [of m p])
next
  case (Cons c t)
  then have c: "m p = Some c" "cstring m (Suc p) t" by simp_all
  have "skip_length_modifiers m p l =
      (if length_modifier c then skip_length_modifiers m (Suc p) (modifier_length c l) else Some (p, l))"
    by (subst skip_length_modifiers.simps) (simp add: c(1) length_modifier_def modifier_length_def)
  then show ?case using Cons.IH [OF c(2)] Cons.prems(2) by (auto split: if_splits)
qed

lemma get_takes:
  "do { (x, v1) \<leftarrow> get_varg64 ls m v; Some (va_put (VaLong x) v1) } = take_arg ls m Kquad v"
  "do { (x, v1) \<leftarrow> get_varg32 ls m v; Some (va_put (VaLong (scast x)) v1) } = take_arg ls m Ksigned v"
  "do { (x, v1) \<leftarrow> get_varg32 ls m v; Some (va_put (VaLong (ucast x)) v1) } = take_arg ls m Kunsigned v"
  by (cases "load32 m (GET_LS_PTR ls (next_arg v))"; cases "load32 m (GET_LS_PTR ls (next_arg v) + 4)";
      simp add: take_arg_def get_varg32_def get_varg64_def va_value_def Let_def)+

lemma printf_conversion_takes: "printf_conversion ls m c l v = take_args ls m (conversion_kinds c l) v"
proof -
  consider "is_int_conv c" | "\<not> is_int_conv c" "c = 99" | "\<not> is_int_conv c" "c \<noteq> 99" by blast
  then show ?thesis
  proof cases
    case 1
    then show ?thesis
      by (cases "l = 2"; cases "l = 0"; cases "is_signed_conv c")
        (simp_all add: printf_conversion_def conversion_kinds_def take_args_Nil put_takes get_takes)
  qed (simp_all add: printf_conversion_def conversion_kinds_def take_args_Nil put_takes get_takes)
qed

lemma printf_directive_takes:
  assumes "cstring m p s" "args_ok ls m v" "printf_directive ls m p v = Some (q, v')" "printf_rest s = c # t"
  shows "take_args ls m (directive_kinds s) v = Some v'"
proof -
  have "\<not> printf_flag 0" by (simp add: printf_flag_def)
  from skip_while_cstring [where P = printf_flag, OF assms(1) this] obtain p1 where 1: "skip_while printf_flag m p = Some p1"
    "cstring m p1 (dropWhile printf_flag s)" by blast
  from skip_field_width_ok [OF 1(2) assms(2), of True] obtain p2 v2 where 2:
    "skip_field_width ls m p1 True v = Some (p2, v2)" "cstring m p2 (after_width (dropWhile printf_flag s))"
    "args_ok ls m v2" by auto
  from skip_precision_ok [OF 2(2,3)] obtain p3 v3 where 3: "skip_precision ls m p2 v2 = Some (p3, v3)"
    "cstring m p3 (after_precision (after_width (dropWhile printf_flag s)))" "args_ok ls m v3" by blast
  from skip_length_modifiers_ok [OF 3(2), of 0] obtain p4 l where 4: "skip_length_modifiers m p3 0 = Some (p4, l)"
    "cstring m p4 (printf_rest s)" unfolding printf_rest_def by blast
  have "m p4 = Some c" using 4(2) assms(4) by simp
  then have "printf_conversion ls m c l v3 = Some v'"
    using assms(3) 1 2 3 4 by (auto simp: printf_directive_def split: Option.bind_splits)
  then show ?thesis
    using skip_field_width_takes [OF 1(2) 2(1)] skip_precision_takes [OF 2(2) 3(1)] skip_length_modifiers_takes [OF 3(2) 4(1)]
    by (simp add: directive_kinds_def Let_def take_args_append assms(4) printf_conversion_takes)
qed

text \<open>The parser takes exactly these arguments, as long as its count of arguments lasts.\<close>

lemma parse_printf_format_takes:
  assumes "cstring m p s" "args_ok ls m v" "complete s" "count_list s PERCENT \<le> n"
    and "parse_printf_format ls m p v n = Some v'"
  shows "take_args ls m (format_kinds s) v = Some v'"
  using assms
proof (induction n arbitrary: p s v)
  case 0
  then have "PERCENT \<notin> set s" by (simp add: count_list_0_iff)
  then have "dropWhile (\<lambda>c. c \<noteq> PERCENT) s = []" by (auto simp: dropWhile_eq_Nil_conv)
  then show ?case using 0 by (simp add: format_kinds.simps [of s] del: dropWhile_eq_Nil_conv)
next
  case (Suc n)
  show ?case
  proof (cases "dropWhile (\<lambda>c. c \<noteq> PERCENT) s")
    case Nil
    from strchr_cstring [OF Suc.prems(1), of PERCENT] Nil have "strchr m p PERCENT = Some None"
      by (auto simp del: dropWhile_eq_Nil_conv)
    then have "v' = v" using Suc.prems(5) by (auto split: Option.bind_splits if_splits)
    then show ?thesis using Nil by (simp add: format_kinds.simps [of s] del: dropWhile_eq_Nil_conv)
  next
    case (Cons y r)
    from strchr_cstring [OF Suc.prems(1), of PERCENT] Cons obtain a where
      a: "strchr m p PERCENT = Some (Some a)" "cstring m (Suc a) r" by auto
    have c: "\<exists>c. m p = Some c \<and> c \<noteq> 0" using Suc.prems(1) Cons by (cases s) auto
    from printf_directive_ok [OF a(2) Suc.prems(2)] obtain p1 v1 where
      d: "printf_directive ls m (Suc a) v = Some (p1, v1)" "cstring m p1 (printf_rest r)" "args_ok ls m v1" by blast
    obtain x u where u: "printf_rest r = x # u" "complete u"
      using Suc.prems(3) Cons by (subst (asm) complete.simps) (auto split: list.splits)
    have "cstring m (Suc p1) u" using d(2) u(1) by simp
    moreover have "count_list u PERCENT \<le> n"
      using printf_rest_le(2) [of r PERCENT] u(1) count_percent [OF Cons] Suc.prems(4) by (simp split: if_splits)
    moreover have "parse_printf_format ls m (Suc p1) v1 n = Some v'"
      using Suc.prems(5) a(1) c d(1) by auto
    ultimately have "take_args ls m (format_kinds u) v1 = Some v'" using Suc.IH d(3) u(2) by blast
    then show ?thesis using printf_directive_takes [OF a(2) Suc.prems(2) d(1) u(1)] Cons u(1)
      by (simp add: format_kinds.simps [of s] take_args_append)
  qed
qed

section \<open>The argument list fits\<close>

text \<open>
  C20: For a format in which every \<open>%\<close> is followed by a conversion, building the argument list of a
  \<open>printf\<close> function ends without a fault, and neither the array of elements, which has room for
  one more than \<open>__nr_format_args\<close> counts, nor that of the temporaries with its terminating entry
  is overrun, whatever widths, precisions, flags and modifiers the format has.
\<close>

theorem printf_arguments_fit:
  assumes "cstring m format s" and "complete s" and "args_ok ls m v"
    and "vlist v = []" and "vtemps v = []"
  shows "\<exists>nr v'. nr_format_args m format = Some nr \<and> parse_printf_format ls m format v nr = Some v' \<and>
    length (vlist v') \<le> nr \<and> length (vtemps v') + 1 \<le> nr + 1"
  using nr_format_args_cstring [OF assms(1)]
    parse_printf_format_ok [OF assms(1,3,2), of "3 * count_list s PERCENT"] assms(4,5)
  by (auto simp: puts_def)

text \<open>The format \<open>n = %-5.*ld\<close> at offset \<open>0x300\<close>.\<close>

lemma sample_byte:
  assumes "0x100000 \<le> x" "x < 0x140000"
  shows "sample_ls W x = Some (bytes_of_word (W ((x - 0x100000) div 4)) ! ((x - 0x100000) mod 4))"
  using assms by (simp add: sample_ls_def word_memory_def)

lemma printf_arguments_fit_witness:
  "\<exists>nr v'. nr_format_args (sample_ls ((\<lambda>i. 0)(0xC0 := 0x6E203D20, 0xC1 := 0x252D352E, 0xC2 := 0x2A6C6400))) 0x100300 = Some nr \<and>
     parse_printf_format 0x100000 (sample_ls ((\<lambda>i. 0)(0xC0 := 0x6E203D20, 0xC1 := 0x252D352E, 0xC2 := 0x2A6C6400)))
       0x100300 \<lparr>next_arg = 0x400, caller_stack = 0x1000, vlist = [], vtemps = []\<rparr> nr = Some v' \<and>
     length (vlist v') \<le> nr"
proof -
  let ?m = "sample_ls ((\<lambda>i. 0)(0xC0 := 0x6E203D20, 0xC1 := 0x252D352E, 0xC2 := 0x2A6C6400))"
  let ?v = "\<lparr>next_arg = 0x400, caller_stack = 0x1000, vlist = [], vtemps = []\<rparr>"
  let ?s = "[0x6E, 0x20, 0x3D, 0x20, 0x25, 0x2D, 0x35, 0x2E, 0x2A, 0x6C, 0x64] :: u8 list"
  have "cstring ?m 0x100300 ?s"
    by (simp add: sample_byte bytes_of_word_def)
  moreover have "complete ?s"
    by (simp add: complete.simps printf_rest_def printf_flag_def isdigit_def length_modifier_def word_le_nat_alt)
  moreover have "args_ok 0x100000 ?m ?v"
    by (simp add: args_ok_def mapped_sample)
  ultimately show ?thesis
    using printf_arguments_fit [of ?m "0x100300" ?s "0x100000" ?v] by auto
qed

lemma skip_while_stop: "m p = Some c \<Longrightarrow> \<not> P c \<Longrightarrow> skip_while P m p = Some p"
  by (simp add: skip_while.simps [of P m p])

lemma skip_while_go: "m p = Some c \<Longrightarrow> P c \<Longrightarrow> skip_while P m p = skip_while P m (Suc p)"
  by (simp add: skip_while.simps [of P m p])

lemma star_directive:
  assumes "m p = Some 42" "m (Suc p) = Some 46" "m (Suc (Suc p)) = Some 42" "m (Suc (Suc (Suc p))) = Some c"
    and "\<not> length_modifier c"
  shows "printf_directive ls m p v =
    do { v1 \<leftarrow> put_int ls m v; v2 \<leftarrow> put_int ls m v1; v3 \<leftarrow> printf_conversion ls m c 0 v2;
         Some (Suc (Suc (Suc p)), v3) }"
proof -
  have "skip_while printf_flag m p = Some p"
    by (rule skip_while_stop [of m p 42, OF assms(1)]) (simp add: printf_flag_def)
  moreover have "skip_length_modifiers m (Suc (Suc (Suc p))) 0 = Some (Suc (Suc (Suc p)), 0)"
    using assms(4,5) by (subst skip_length_modifiers.simps) (simp add: length_modifier_def)
  ultimately show ?thesis
    using assms by (simp add: printf_directive_def skip_field_width_def skip_precision_def)
qed

text \<open>
  A format that ends within a conversion is scanned past its end: for the format \<open>%*.*\<close> followed
  in memory by the characters of another string, room for four elements (48 bytes with the slack of
  the alignment, six elements) is set aside on the stack and eight elements are stored.
\<close>

theorem incomplete_format_overruns:
  "\<exists>v'. nr_format_args (sample_ls ((\<lambda>i. 0)(0xC0 := 0x252A2E2A, 0xC1 := 0x00252A2E, 0xC2 := 0x2A64252A, 0xC3 := 0x2E2A6400))) 0x100300 = Some 3 \<and>
     parse_printf_format 0x100000 (sample_ls ((\<lambda>i. 0)(0xC0 := 0x252A2E2A, 0xC1 := 0x00252A2E, 0xC2 := 0x2A64252A, 0xC3 := 0x2E2A6400)))
       0x100300 \<lparr>next_arg = 0x400, caller_stack = 0x1000, vlist = [], vtemps = []\<rparr> 3 = Some v' \<and>
     length (vlist v') = 8"
proof -
  define m where "m = sample_ls ((\<lambda>i. 0)(0xC0 := 0x252A2E2A, 0xC1 := 0x00252A2E, 0xC2 := 0x2A64252A, 0xC3 := 0x2E2A6400))"
  have b: "m 0x100300 = Some 0x25" "m 0x100301 = Some 0x2A" "m 0x100302 = Some 0x2E" "m 0x100303 = Some 0x2A"
    "m 0x100304 = Some 0" "m 0x100305 = Some 0x25" "m 0x100306 = Some 0x2A" "m 0x100307 = Some 0x2E"
    "m 0x100308 = Some 0x2A" "m 0x100309 = Some 0x64" "m 0x10030A = Some 0x25" "m 0x10030B = Some 0x2A"
    "m 0x10030C = Some 0x2E" "m 0x10030D = Some 0x2A" "m 0x10030E = Some 0x64" "m 0x10030F = Some 0"
    by (simp_all add: m_def sample_byte bytes_of_word_def)
  have g: "get_varg32 0x100000 m v = Some (0, bump_arg v)" if "next_arg v \<in> {0x400, 0x410, 0x420, 0x430, 0x440, 0x450, 0x460, 0x470}" for v
    using that by (auto simp: get_varg32_def GET_LS_PTR_def m_def load32_sample)
  let ?v = "\<lambda>n xs. \<lparr>next_arg = n, caller_stack = 0x1000, vlist = xs, vtemps = []\<rparr>"
  have i: "put_int 0x100000 m (?v n xs) = Some (?v (n + 16) (xs @ [VaInt 0]))"
    if "n \<in> {0x400, 0x410, 0x420, 0x430, 0x440, 0x450, 0x460, 0x470}" for n xs
    using that by (auto simp: put_int_def g bump_arg_def va_put_def)
  have c: "printf_conversion 0x100000 m 0x64 0 v = put_int 0x100000 m v"
    "printf_conversion 0x100000 m 0 0 v = Some v" for v
    by (simp_all add: printf_conversion_def is_int_conv_def is_float_conv_def)
  have d1: "printf_directive 0x100000 m 0x100301 (?v 0x400 []) = Some (0x100304, ?v 0x420 [VaInt 0, VaInt 0])"
    using star_directive [of m "0x100301" 0 "0x100000" "?v 0x400 []"] by (simp add: b c i length_modifier_def)
  have d2: "printf_directive 0x100000 m 0x100306 (?v 0x420 xs) = Some (0x100309, ?v 0x450 (xs @ replicate 3 (VaInt 0)))" for xs
    using star_directive [of m "0x100306" "0x64" "0x100000" "?v 0x420 xs"] by (simp add: b c i length_modifier_def numeral_3_eq_3)
  have d3: "printf_directive 0x100000 m 0x10030B (?v 0x450 xs) = Some (0x10030E, ?v 0x480 (xs @ replicate 3 (VaInt 0)))" for xs
    using star_directive [of m "0x10030B" "0x64" "0x100000" "?v 0x450 xs"] by (simp add: b c i length_modifier_def numeral_3_eq_3)
  have s: "strchr m 0x100305 37 = Some (Some 0x100305)" "strchr m 0x10030A 37 = Some (Some 0x10030A)"
    "strchr m 0x100300 37 = Some (Some 0x100300)"
    by (simp_all add: strchr_def skip_while_stop b)
  have "strchr m 0x100301 37 = Some None"
    by (simp add: strchr_def skip_while_stop skip_while_go b)
  then have "nr_format_args m 0x100300 = Some 3"
    by (simp add: nr_format_args_def nr_format_loop.simps [of m "0x100300"] nr_format_loop.simps [of m "0x100301"] b s)
  moreover have "parse_printf_format 0x100000 m 0x100300 (?v 0x400 []) 3 =
      Some (?v 0x480 (replicate 8 (VaInt 0)))"
    by (simp add: numeral_3_eq_3 b s d1 d2 d3) (simp add: numeral_eq_Suc)
  ultimately show ?thesis unfolding m_def by simp
qed

section \<open>The order of the arguments\<close>

lemma masked_step:
  assumes "i < 16384" "j < 16384"
  shows "(a + 16 * of_nat i) AND LS_ADDR_MASK = (a + 16 * of_nat j) AND LS_ADDR_MASK \<longleftrightarrow> i = j"
proof
  assume e: "(a + 16 * of_nat i) AND LS_ADDR_MASK = (a + 16 * of_nat j) AND LS_ADDR_MASK"
  have u: "unat ((a + 16 * of_nat n) AND LS_ADDR_MASK) = (unat a + 16 * n) mod 262144" if "n < 16384" for n
  proof -
    have "(a + 16 * of_nat n) AND LS_ADDR_MASK = take_bit 18 (a + 16 * of_nat n)"
      by (simp add: take_bit_eq_mask mask_eq_exp_minus_1)
    moreover have "unat (16 * of_nat n :: u32) = 16 * n" using that by (simp add: unat_word_ariths unat_of_nat)
    ultimately show ?thesis
      by (simp add: unsigned_take_bit_eq unat_word_ariths) (simp add: take_bit_eq_mod mod_mod_cancel)
  qed
  from e have "(unat a + 16 * i) mod 262144 = (unat a + 16 * j) mod 262144"
    using u [OF assms(1)] u [OF assms(2)] by metis
  then have "(int (unat a) + 16 * int i) mod 262144 = (int (unat a) + 16 * int j) mod 262144"
    by (metis (mono_tags) of_nat_add of_nat_mod of_nat_mult of_nat_numeral)
  then have "262144 dvd 16 * int i - 16 * int j" by (simp add: mod_eq_dvd_iff)
  then show "i = j" using assms zdvd_imp_le [of 262144 "16 * int i - 16 * int j"]
      zdvd_imp_le [of 262144 "16 * int j - 16 * int i"] by (cases i j rule: linorder_cases) (auto simp: dvd_diff_commute)
qed simp

text \<open>
  The arguments of a call are taken in order: the first \<open>k\<close> quadwords from where the list
  begins up to the caller's frame, the following ones from 32 bytes beyond that, whatever the
  position in the local store (addresses wrap at its end).
\<close>

theorem varargs_in_order:
  assumes "0 < k" "k < 16384" "caller_stack v = next_arg v + 16 * of_nat k" "n < 16380"
  shows "next_arg ((bump_arg ^^ n) v) =
    (if n < k then next_arg v + 16 * of_nat n else caller_stack v + 32 + 16 * of_nat (n - k))"
proof -
  have c: "caller_stack ((bump_arg ^^ i) v) = caller_stack v" for i
    by (induction i) (simp_all add: bump_arg_def Let_def)
  show ?thesis using assms(4)
  proof (induction n)
    case (Suc n)
    then have IH: "next_arg ((bump_arg ^^ n) v) =
      (if n < k then next_arg v + 16 * of_nat n else caller_stack v + 32 + 16 * of_nat (n - k))" by simp
    define x where "x = next_arg ((bump_arg ^^ n) v) + 16"
    have s: "next_arg ((bump_arg ^^ Suc n) v) =
        (if x AND LS_ADDR_MASK = caller_stack v AND LS_ADDR_MASK then x + 32 else x)"
      using c [of n] by (simp add: bump_arg_def Let_def x_def)
    show ?case
    proof (cases "n < k")
      case True
      then have x: "x = next_arg v + 16 * of_nat (Suc n)" using IH by (simp add: x_def)
      have "x AND LS_ADDR_MASK = caller_stack v AND LS_ADDR_MASK \<longleftrightarrow> Suc n = k"
        unfolding x assms(3) using Suc.prems assms(2) by (intro masked_step) auto
      then show ?thesis using s x True assms(3) by auto
    next
      case False
      then have x: "x = caller_stack v + 16 * of_nat (n - k + 3)" using IH by (simp add: x_def algebra_simps)
      have "x AND LS_ADDR_MASK = (caller_stack v + 16 * of_nat 0) AND LS_ADDR_MASK \<longleftrightarrow> n - k + 3 = 0"
        unfolding x using Suc.prems assms(1) by (intro masked_step) auto
      then have "next_arg ((bump_arg ^^ Suc n) v) = x" using s by simp
      then show ?thesis using False x by (simp add: Suc_diff_le algebra_simps)
    qed
  qed (use assms(1) in simp)
qed

lemma varargs_in_order_witness:
  "next_arg ((bump_arg ^^ 3) \<lparr>next_arg = 0x3ffe0, caller_stack = 0x40000, vlist = [], vtemps = []\<rparr>) = 0x40030"
  using varargs_in_order [of 2 "\<lparr>next_arg = 0x3ffe0, caller_stack = 0x40000, vlist = [], vtemps = []\<rparr>" 3] by simp

end
