(* ===== verification/Handler_C99.thy ===== *)
theory Handler_C99
  imports Handler_C99_Format
begin

unbundle bit_operations_syntax

text \<open>
  The default handler of the C99 library calls (\<open>spebase/default_c99_handler.c\<close>, second part): the
  table of the files the SPE program has open, one definition per handler in the order of the
  file, and the dispatch function. A file is a small number for the SPE program: 1 to 3 are the
  standard streams of the process (their \<open>FILE\<close> pointers belong to the C library and are part
  of the state), the others are entries of the table. The arguments of a variable argument list
  follow the fixed ones in the request; a temporary is passed as a negative number.
\<close>

section \<open>The open files\<close>

abbreviation (input) SPE_STDIN :: int where "SPE_STDIN \<equiv> 1"
abbreviation (input) SPE_STDOUT :: int where "SPE_STDOUT \<equiv> 2"
abbreviation (input) SPE_STDERR :: int where "SPE_STDERR \<equiv> 3"
abbreviation (input) SPE_FOPEN_MAX :: int where "SPE_FOPEN_MAX \<equiv> 17"
abbreviation (input) SPE_FOPEN_MIN :: nat where "SPE_FOPEN_MIN \<equiv> 4"
abbreviation (input) SPE_STDIO_BUFSIZ :: int where "SPE_STDIO_BUFSIZ \<equiv> 1024"
abbreviation (input) IOFBF :: int where "IOFBF \<equiv> 0"
abbreviation (input) IONBF :: int where "IONBF \<equiv> 2"
abbreviation (input) EOF :: int where "EOF \<equiv> -1"

record c99_files =
  nr_spe_FILE_ptrs :: int
  spe_FILE_ptrs :: "addr list"
  c_stdin :: addr
  c_stdout :: addr
  c_stderr :: addr

type_synonym 'w c99 = "c99_files \<times> 'w env"

definition initial_files :: "addr \<Rightarrow> addr \<Rightarrow> addr \<Rightarrow> c99_files" where
  "initial_files i u r =
     \<lparr>nr_spe_FILE_ptrs = 3, spe_FILE_ptrs = replicate 17 NULL, c_stdin = i, c_stdout = u, c_stderr = r\<rparr>"

definition get_FILE_nolock :: "int \<Rightarrow> c99_files \<Rightarrow> addr" where
  "get_FILE_nolock nr f =
     (if nr \<le> 0 then NULL
      else if nr \<ge> SPE_FOPEN_MAX then NULL
      else let p = spe_FILE_ptrs f ! nat nr in
        if nr = SPE_STDIN then (if p \<noteq> NULL then p else c_stdin f)
        else if nr = SPE_STDOUT then (if p \<noteq> NULL then p else c_stdout f)
        else if nr = SPE_STDERR then (if p \<noteq> NULL then p else c_stderr f)
        else p)"

definition get_FILE :: "c99_files \<Rightarrow> int \<Rightarrow> 'w env \<Rightarrow> addr \<times> 'w env" where
  "get_FILE f nr e = (get_FILE_nolock nr f, emit (Unlock FileTableLock) (emit (Lock FileTableLock) e))"

text \<open>The first free entry, a store to an entry (which must be one), and an entry taken.\<close>

definition free_entry :: "c99_files \<Rightarrow> nat option" where
  "free_entry f = List.find (\<lambda>i. spe_FILE_ptrs f ! i = NULL) [SPE_FOPEN_MIN..<17]"

definition set_FILE :: "nat \<Rightarrow> addr \<Rightarrow> c99_files \<Rightarrow> c99_files option" where
  "set_FILE i p f =
     (if i < length (spe_FILE_ptrs f) then Some (f\<lparr>spe_FILE_ptrs := (spe_FILE_ptrs f)[i := p]\<rparr>) else None)"

definition add_FILE :: "nat \<Rightarrow> addr \<Rightarrow> c99_files \<Rightarrow> c99_files" where
  "add_FILE i p f =
     f\<lparr>spe_FILE_ptrs := (spe_FILE_ptrs f)[i := p], nr_spe_FILE_ptrs := nr_spe_FILE_ptrs f + 1\<rparr>"

definition put_file_rc :: "addr \<Rightarrow> u32 \<Rightarrow> c99_files \<Rightarrow> int \<times> 'w env \<Rightarrow> (int \<times> 'w c99) option" where
  "put_file_rc ls opdata f p = do { (n, e) \<leftarrow> put_rc ls opdata p; Some (n, f, e) }"

definition put_file_words ::
  "addr \<Rightarrow> u32 \<Rightarrow> c99_files \<Rightarrow> int \<Rightarrow> int \<Rightarrow> 'w env \<Rightarrow> (int \<times> 'w c99) option" where
  "put_file_words ls opdata f a d e = do { e1 \<leftarrow> PUT_LS_RC ls opdata a 0 0 d e; Some (0, f, e1) }"

section \<open>Formatted input and output\<close>

fun va_arg :: "va_elem \<Rightarrow> int" where
  "va_arg (VaInt w) = uint w"
| "va_arg (VaLong x) = uint x"
| "va_arg (VaPtr a) = int a"
| "va_arg (VaTemp i) = - int i - 1"

definition load_va_list :: "addr \<Rightarrow> u32 \<Rightarrow> nat \<Rightarrow> 'w env \<Rightarrow> va_state option" where
  "load_va_list ls opdata i e =
     do { n \<leftarrow> slot ls opdata i 0 e; c \<leftarrow> slot ls opdata (i + 1) 0 e;
          Some \<lparr>next_arg = n, caller_stack = c, vlist = [], vtemps = []\<rparr> }"

text \<open>\<open>__copy_va_temp\<close>: the temporaries, received as \<open>long\<close>, are stored as 32-bit numbers.\<close>

fun copy_va_temp :: "memory \<Rightarrow> addr list \<Rightarrow> int list \<Rightarrow> memory option" where
  "copy_va_temp m [] xs = Some m"
| "copy_va_temp m (p # ps) [] = do { m1 \<leftarrow> store32 m p 0; copy_va_temp m1 ps [] }"
| "copy_va_temp m (p # ps) (x # xs) = do { m1 \<leftarrow> store32 m p (of_int x); copy_va_temp m1 ps xs }"

text \<open>
  What the handlers of a family do with the fixed arguments \<open>xs\<close>, the format and the argument list
  in the frame at position \<open>i\<close>. The parser of \<open>printf\<close> formats always returns 0.
\<close>

definition call_printf ::
  "'w kernel \<Rightarrow> addr \<Rightarrow> u32 \<Rightarrow> string \<Rightarrow> int list \<Rightarrow> addr \<Rightarrow> nat \<Rightarrow> c99_files \<Rightarrow> 'w env
   \<Rightarrow> (int \<times> 'w c99) option" where
  "call_printf K ls opdata g xs format i f e =
     do { spe_vlist \<leftarrow> load_va_list ls opdata i e;
          nr_vargs \<leftarrow> nr_format_args (mem e) format;
          v \<leftarrow> parse_printf_format ls (mem e) format spe_vlist nr_vargs;
          let (r, e1) = sys K (LibCall g (xs @ [int format] @ map va_arg (vlist v))) e;
          m \<leftarrow> copy_va_temp (mem e1) (vtemps v) (rvals r);
          put_file_rc ls opdata f (rv r, e1\<lparr>mem := m\<rparr>) }"

definition call_scanf ::
  "'w kernel \<Rightarrow> addr \<Rightarrow> u32 \<Rightarrow> string \<Rightarrow> int list \<Rightarrow> addr \<Rightarrow> nat \<Rightarrow> c99_files \<Rightarrow> 'w env
   \<Rightarrow> (int \<times> 'w c99) option" where
  "call_scanf K ls opdata g xs format i f e =
     do { spe_vlist \<leftarrow> load_va_list ls opdata i e;
          nr_vargs \<leftarrow> nr_format_args (mem e) format;
          (rc, v) \<leftarrow> parse_scanf_format ls (mem e) format spe_vlist nr_vargs;
          if rc = 0 then do {
            let (r, e1) = sys K (LibCall g (xs @ [int format] @ map va_arg (vlist v))) e;
            m \<leftarrow> copy_va_temp (mem e1) (vtemps v) (rvals r);
            put_file_rc ls opdata f (rv r, e1\<lparr>mem := m\<rparr>) }
          else put_file_rc ls opdata f (EOF, e) }"

text \<open>A trailing newline of the line \<open>gets\<close> read is removed.\<close>

definition trim_newline :: "memory \<Rightarrow> addr \<Rightarrow> memory option" where
  "trim_newline m s =
     do { p \<leftarrow> skip_while (\<lambda>c. c \<noteq> 0) m s;
          if p > s then do { c \<leftarrow> m (p - 1); if c = 10 then store_bytes m (p - 1) [0] else Some m }
          else Some m }"

section \<open>The handlers\<close>

definition default_c99_handler_remove :: "'w kernel \<Rightarrow> 'w c99 lib_handler" where
  "default_c99_handler_remove K ls opdata = (\<lambda>(f, e).
     do { path \<leftarrow> slot ls opdata 0 0 e;
          put_file_rc ls opdata f (libcall K ''remove'' [int (GET_LS_PTR ls path)] e) })"

definition default_c99_handler_rename :: "'w kernel \<Rightarrow> 'w c99 lib_handler" where
  "default_c99_handler_rename K ls opdata = (\<lambda>(f, e).
     do { oldname \<leftarrow> slot ls opdata 0 0 e; newname \<leftarrow> slot ls opdata 1 0 e;
          put_file_rc ls opdata f (libcall K ''rename'' [int (GET_LS_PTR ls oldname), int (GET_LS_PTR ls newname)] e) })"

definition default_c99_handler_tmpfile :: "'w kernel \<Rightarrow> 'w c99 lib_handler" where
  "default_c99_handler_tmpfile K ls opdata = (\<lambda>(f, e).
     if nr_spe_FILE_ptrs f \<ge> SPE_FOPEN_MAX then put_file_words ls opdata f 0 EMFILE e
     else case free_entry f of
       None \<Rightarrow> put_file_words ls opdata f 0 EMFILE e
     | Some i \<Rightarrow>
         (let (p, e1) = libcall K ''tmpfile'' [] e in
          if nat p \<noteq> NULL then put_file_words ls opdata (add_FILE i (nat p) f) (int i) (errno e1) e1
          else put_file_words ls opdata f 0 (errno e1) e1))"

definition default_c99_handler_tmpnam :: "'w kernel \<Rightarrow> 'w c99 lib_handler" where
  "default_c99_handler_tmpnam K ls opdata = (\<lambda>(f, e).
     put_file_words ls opdata f 0 0 e)"

definition default_c99_handler_fclose :: "'w kernel \<Rightarrow> 'w c99 lib_handler" where
  "default_c99_handler_fclose K ls opdata = (\<lambda>(f, e).
     do { a0 \<leftarrow> slot ls opdata 0 0 e; let (stream, e1) = get_FILE f (sint a0) e;
          let (rc, e2) = libcall K ''fclose'' [int stream] (emit (Lock FileTableLock) e1);
          f1 \<leftarrow> (if rc = 0 then do {
                 b0 \<leftarrow> slot ls opdata 0 0 e2;
                 f0 \<leftarrow> set_FILE (unat b0) NULL f;
                 Some (f0\<lparr>nr_spe_FILE_ptrs := nr_spe_FILE_ptrs f - 1\<rparr>) }
               else Some f);
          put_file_rc ls opdata f1 (rc, emit (Unlock FileTableLock) e2) })"

definition default_c99_handler_fflush :: "'w kernel \<Rightarrow> 'w c99 lib_handler" where
  "default_c99_handler_fflush K ls opdata = (\<lambda>(f, e).
     do { a0 \<leftarrow> slot ls opdata 0 0 e; let (stream, e1) = get_FILE f (sint a0) e;
          put_file_rc ls opdata f (libcall K ''fflush'' [int stream] e1) })"

definition default_c99_handler_fopen :: "'w kernel \<Rightarrow> 'w c99 lib_handler" where
  "default_c99_handler_fopen K ls opdata = (\<lambda>(f, e).
     do { a0 \<leftarrow> slot ls opdata 0 0 e; a1 \<leftarrow> slot ls opdata 1 0 e;
          let path = GET_LS_PTR_NULL ls a0; let mode = GET_LS_PTR_NULL ls a1;
          let e1 = emit (Lock FileTableLock) e;
          case (if nr_spe_FILE_ptrs f < SPE_FOPEN_MAX then free_entry f else None) of
            None \<Rightarrow> put_file_words ls opdata f 0 EMFILE (emit (Unlock FileTableLock) e1)
          | Some i \<Rightarrow>
              (let (p, e2) = libcall K ''fopen'' [int path, int mode] e1 in
               put_file_words ls opdata (if nat p \<noteq> NULL then add_FILE i (nat p) f else f)
                 (if nat p \<noteq> NULL then int i else 0) (errno e2) (emit (Unlock FileTableLock) e2)) })"

definition default_c99_handler_freopen :: "'w kernel \<Rightarrow> 'w c99 lib_handler" where
  "default_c99_handler_freopen K ls opdata = (\<lambda>(f, e).
     do { a2 \<leftarrow> slot ls opdata 2 0 e;
          let i = sint a2;
          if i \<le> 0 \<or> i \<ge> SPE_FOPEN_MAX then put_file_words ls opdata f 1 EBADF e
          else do {
            a0 \<leftarrow> slot ls opdata 0 0 e; a1 \<leftarrow> slot ls opdata 1 0 e;
            let path = GET_LS_PTR_NULL ls a0; let mode = GET_LS_PTR_NULL ls a1;
            let (p, e1) = libcall K ''freopen'' [int path, int mode, int (get_FILE_nolock i f)]
              (emit (Lock FileTableLock) e);
            f1 \<leftarrow> set_FILE (nat i) (nat p) f;
            (n, f2, e2) \<leftarrow> (if nat p \<noteq> NULL then put_file_words ls opdata f1 i 0 e1
               else put_file_words ls opdata f1 0 (errno e1) e1);
            Some (n, f2, emit (Unlock FileTableLock) e2) } })"

definition default_c99_handler_setbuf :: "'w kernel \<Rightarrow> 'w c99 lib_handler" where
  "default_c99_handler_setbuf K ls opdata = (\<lambda>(f, e).
     do { a0 \<leftarrow> slot ls opdata 0 0 e; let (stream, e1) = get_FILE f (sint a0) e;
          a1 \<leftarrow> slot ls opdata 1 0 e1;
          let buf = GET_LS_PTR_NULL ls a1;
          Some (0, f, snd (libcall K ''setvbuf''
            [int stream, int buf, if buf \<noteq> NULL then IOFBF else IONBF, SPE_STDIO_BUFSIZ] e1)) })"

definition default_c99_handler_setvbuf :: "'w kernel \<Rightarrow> 'w c99 lib_handler" where
  "default_c99_handler_setvbuf K ls opdata = (\<lambda>(f, e).
     do { a0 \<leftarrow> slot ls opdata 0 0 e; let (stream, e1) = get_FILE f (sint a0) e;
          buf \<leftarrow> slot ls opdata 1 0 e1; mode \<leftarrow> slot ls opdata 2 0 e1;
          n \<leftarrow> slot ls opdata 3 0 e1;
          put_file_rc ls opdata f (libcall K ''setvbuf'' [int stream, int (GET_LS_PTR_NULL ls buf), sint mode, uint n] e1) })"

definition default_c99_handler_vfprintf :: "'w kernel \<Rightarrow> 'w c99 lib_handler" where
  "default_c99_handler_vfprintf K ls opdata = (\<lambda>(f, e).
     do { a0 \<leftarrow> slot ls opdata 0 0 e; let (stream, e1) = get_FILE f (sint a0) e;
          format \<leftarrow> slot ls opdata 1 0 e1;
          call_printf K ls opdata ''vfprintf'' [int stream] (GET_LS_PTR ls format) 2 f e1 })"

definition default_c99_handler_vfscanf :: "'w kernel \<Rightarrow> 'w c99 lib_handler" where
  "default_c99_handler_vfscanf K ls opdata = (\<lambda>(f, e).
     do { a0 \<leftarrow> slot ls opdata 0 0 e; let (stream, e1) = get_FILE f (sint a0) e;
          format \<leftarrow> slot ls opdata 1 0 e1;
          call_scanf K ls opdata ''vfscanf'' [int stream] (GET_LS_PTR ls format) 2 f e1 })"

definition default_c99_handler_vprintf :: "'w kernel \<Rightarrow> 'w c99 lib_handler" where
  "default_c99_handler_vprintf K ls opdata = (\<lambda>(f, e).
     do { let (stream, e1) = get_FILE f SPE_STDOUT e;
          format \<leftarrow> slot ls opdata 0 0 e1;
          call_printf K ls opdata ''vfprintf'' [int stream] (GET_LS_PTR ls format) 1 f e1 })"

definition default_c99_handler_vscanf :: "'w kernel \<Rightarrow> 'w c99 lib_handler" where
  "default_c99_handler_vscanf K ls opdata = (\<lambda>(f, e).
     do { let (stream, e1) = get_FILE f SPE_STDIN e;
          format \<leftarrow> slot ls opdata 0 0 e1;
          call_scanf K ls opdata ''vfscanf'' [int stream] (GET_LS_PTR ls format) 1 f e1 })"

definition default_c99_handler_vsnprintf :: "'w kernel \<Rightarrow> 'w c99 lib_handler" where
  "default_c99_handler_vsnprintf K ls opdata = (\<lambda>(f, e).
     do { str \<leftarrow> slot ls opdata 0 0 e; n \<leftarrow> slot ls opdata 1 0 e;
          format \<leftarrow> slot ls opdata 2 0 e;
          call_printf K ls opdata ''vsnprintf'' [int (GET_LS_PTR ls str), uint n] (GET_LS_PTR ls format) 3 f e })"

definition default_c99_handler_vsprintf :: "'w kernel \<Rightarrow> 'w c99 lib_handler" where
  "default_c99_handler_vsprintf K ls opdata = (\<lambda>(f, e).
     do { str \<leftarrow> slot ls opdata 0 0 e; format \<leftarrow> slot ls opdata 1 0 e;
          call_printf K ls opdata ''vsprintf'' [int (GET_LS_PTR ls str)] (GET_LS_PTR ls format) 2 f e })"

definition default_c99_handler_vsscanf :: "'w kernel \<Rightarrow> 'w c99 lib_handler" where
  "default_c99_handler_vsscanf K ls opdata = (\<lambda>(f, e).
     do { str \<leftarrow> slot ls opdata 0 0 e; format \<leftarrow> slot ls opdata 1 0 e;
          call_scanf K ls opdata ''vsscanf'' [int (GET_LS_PTR ls str)] (GET_LS_PTR ls format) 2 f e })"

definition default_c99_handler_fgetc :: "'w kernel \<Rightarrow> 'w c99 lib_handler" where
  "default_c99_handler_fgetc K ls opdata = (\<lambda>(f, e).
     do { a0 \<leftarrow> slot ls opdata 0 0 e; let (stream, e1) = get_FILE f (sint a0) e;
          put_file_rc ls opdata f (libcall K ''fgetc'' [int stream] e1) })"

definition default_c99_handler_fgets :: "'w kernel \<Rightarrow> 'w c99 lib_handler" where
  "default_c99_handler_fgets K ls opdata = (\<lambda>(f, e).
     do { a0 \<leftarrow> slot ls opdata 0 0 e; n \<leftarrow> slot ls opdata 1 0 e;
          a2 \<leftarrow> slot ls opdata 2 0 e; let (stream, e1) = get_FILE f (sint a2) e;
          let s = GET_LS_PTR ls a0; let (r, e2) = libcall K ''fgets'' [int s, sint n, int stream] e1;
          rc \<leftarrow> (if r = int s then map_option sint (slot ls opdata 0 0 e2) else Some 0);
          put_file_rc ls opdata f (rc, e2) })"

definition default_c99_handler_fileno :: "'w kernel \<Rightarrow> 'w c99 lib_handler" where
  "default_c99_handler_fileno K ls opdata = (\<lambda>(f, e).
     do { a0 \<leftarrow> slot ls opdata 0 0 e; let (stream, e1) = get_FILE f (sint a0) e;
          put_file_rc ls opdata f (libcall K ''fileno'' [int stream] e1) })"

definition default_c99_handler_fputc :: "'w kernel \<Rightarrow> 'w c99 lib_handler" where
  "default_c99_handler_fputc K ls opdata = (\<lambda>(f, e).
     do { c \<leftarrow> slot ls opdata 0 0 e; a1 \<leftarrow> slot ls opdata 1 0 e;
          let (stream, e1) = get_FILE f (sint a1) e;
          put_file_rc ls opdata f (libcall K ''fputc'' [sint c, int stream] e1) })"

definition default_c99_handler_fputs :: "'w kernel \<Rightarrow> 'w c99 lib_handler" where
  "default_c99_handler_fputs K ls opdata = (\<lambda>(f, e).
     do { s \<leftarrow> slot ls opdata 0 0 e; a1 \<leftarrow> slot ls opdata 1 0 e;
          let (stream, e1) = get_FILE f (sint a1) e;
          put_file_rc ls opdata f (libcall K ''fputs'' [int (GET_LS_PTR ls s), int stream] e1) })"

definition default_c99_handler_getc :: "'w kernel \<Rightarrow> 'w c99 lib_handler" where
  "default_c99_handler_getc K ls opdata = (\<lambda>(f, e).
     do { a0 \<leftarrow> slot ls opdata 0 0 e; let (stream, e1) = get_FILE f (sint a0) e;
          put_file_rc ls opdata f (libcall K ''getc'' [int stream] e1) })"

definition default_c99_handler_getchar :: "'w kernel \<Rightarrow> 'w c99 lib_handler" where
  "default_c99_handler_getchar K ls opdata = (\<lambda>(f, e).
     let (stream, e1) = get_FILE f SPE_STDIN e in
     put_file_rc ls opdata f (libcall K ''getc'' [int stream] e1))"

definition default_c99_handler_gets :: "'w kernel \<Rightarrow> 'w c99 lib_handler" where
  "default_c99_handler_gets K ls opdata = (\<lambda>(f, e).
     do { let (stream, e1) = get_FILE f SPE_STDIN e;
          a0 \<leftarrow> slot ls opdata 0 0 e1;
          let s = GET_LS_PTR ls a0; let n = (0x40000 - a0);
          let (r, e2) = libcall K ''fgets'' [int s, sint n, int stream] e1;
          rc \<leftarrow> (if r = int s then map_option sint (slot ls opdata 0 0 e2) else Some 0);
          m \<leftarrow> (if r = int s then trim_newline (mem e2) s else Some (mem e2));
          put_file_rc ls opdata f (rc, e2\<lparr>mem := m\<rparr>) })"

definition default_c99_handler_putc :: "'w kernel \<Rightarrow> 'w c99 lib_handler" where
  "default_c99_handler_putc K ls opdata = (\<lambda>(f, e).
     do { a1 \<leftarrow> slot ls opdata 1 0 e; let (stream, e1) = get_FILE f (sint a1) e;
          c \<leftarrow> slot ls opdata 0 0 e1;
          put_file_rc ls opdata f (libcall K ''putc'' [sint c, int stream] e1) })"

definition default_c99_handler_putchar :: "'w kernel \<Rightarrow> 'w c99 lib_handler" where
  "default_c99_handler_putchar K ls opdata = (\<lambda>(f, e).
     do { let (stream, e1) = get_FILE f SPE_STDOUT e;
          c \<leftarrow> slot ls opdata 0 0 e1;
          put_file_rc ls opdata f (libcall K ''putc'' [sint c, int stream] e1) })"

definition default_c99_handler_puts :: "'w kernel \<Rightarrow> 'w c99 lib_handler" where
  "default_c99_handler_puts K ls opdata = (\<lambda>(f, e).
     do { s \<leftarrow> slot ls opdata 0 0 e;
          put_file_rc ls opdata f (libcall K ''puts'' [int (GET_LS_PTR ls s)] e) })"

definition default_c99_handler_ungetc :: "'w kernel \<Rightarrow> 'w c99 lib_handler" where
  "default_c99_handler_ungetc K ls opdata = (\<lambda>(f, e).
     do { c \<leftarrow> slot ls opdata 0 0 e; a1 \<leftarrow> slot ls opdata 1 0 e;
          let (stream, e1) = get_FILE f (sint a1) e; let (rc, e2) = libcall K ''ungetc'' [sint c, int stream] e1;
          put_file_words ls opdata f rc 0 e2 })"

definition default_c99_handler_fread :: "'w kernel \<Rightarrow> 'w c99 lib_handler" where
  "default_c99_handler_fread K ls opdata = (\<lambda>(f, e).
     do { ptr \<leftarrow> slot ls opdata 0 0 e; n \<leftarrow> slot ls opdata 1 0 e;
          nmemb \<leftarrow> slot ls opdata 2 0 e; a3 \<leftarrow> slot ls opdata 3 0 e;
          let (stream, e1) = get_FILE f (sint a3) e;
          put_file_rc ls opdata f (libcall K ''fread'' [int (GET_LS_PTR ls ptr), uint n, uint nmemb, int stream] e1) })"

definition default_c99_handler_fwrite :: "'w kernel \<Rightarrow> 'w c99 lib_handler" where
  "default_c99_handler_fwrite K ls opdata = (\<lambda>(f, e).
     do { ptr \<leftarrow> slot ls opdata 0 0 e; n \<leftarrow> slot ls opdata 1 0 e;
          nmemb \<leftarrow> slot ls opdata 2 0 e; a3 \<leftarrow> slot ls opdata 3 0 e;
          let (stream, e1) = get_FILE f (sint a3) e;
          put_file_rc ls opdata f (libcall K ''fwrite'' [int (GET_LS_PTR ls ptr), uint n, uint nmemb, int stream] e1) })"

definition default_c99_handler_fgetpos :: "'w kernel \<Rightarrow> 'w c99 lib_handler" where
  "default_c99_handler_fgetpos K ls opdata = (\<lambda>(f, e).
     do { a0 \<leftarrow> slot ls opdata 0 0 e; let (stream, e1) = get_FILE f (sint a0) e;
          pos \<leftarrow> slot ls opdata 1 0 e1;
          put_file_rc ls opdata f (libcall K ''fgetpos'' [int stream, int (GET_LS_PTR ls pos)] e1) })"

definition default_c99_handler_fseek :: "'w kernel \<Rightarrow> 'w c99 lib_handler" where
  "default_c99_handler_fseek K ls opdata = (\<lambda>(f, e).
     do { a0 \<leftarrow> slot ls opdata 0 0 e; let (stream, e1) = get_FILE f (sint a0) e;
          offset \<leftarrow> slot ls opdata 1 0 e1; whence \<leftarrow> slot ls opdata 2 0 e1;
          put_file_rc ls opdata f (libcall K ''fseek'' [int stream, uint offset, sint whence] e1) })"

definition default_c99_handler_fsetpos :: "'w kernel \<Rightarrow> 'w c99 lib_handler" where
  "default_c99_handler_fsetpos K ls opdata = (\<lambda>(f, e).
     do { a0 \<leftarrow> slot ls opdata 0 0 e; let (stream, e1) = get_FILE f (sint a0) e;
          pos \<leftarrow> slot ls opdata 1 0 e1;
          put_file_rc ls opdata f (libcall K ''fsetpos'' [int stream, int (GET_LS_PTR ls pos)] e1) })"

definition default_c99_handler_ftell :: "'w kernel \<Rightarrow> 'w c99 lib_handler" where
  "default_c99_handler_ftell K ls opdata = (\<lambda>(f, e).
     do { a0 \<leftarrow> slot ls opdata 0 0 e; let (stream, e1) = get_FILE f (sint a0) e;
          put_file_rc ls opdata f (libcall K ''ftell'' [int stream] e1) })"

definition default_c99_handler_rewind :: "'w kernel \<Rightarrow> 'w c99 lib_handler" where
  "default_c99_handler_rewind K ls opdata = (\<lambda>(f, e).
     do { a0 \<leftarrow> slot ls opdata 0 0 e; let (stream, e1) = get_FILE f (sint a0) e;
          Some (0, f, snd (libcall K ''rewind'' [int stream] e1)) })"

definition default_c99_handler_clearerr :: "'w kernel \<Rightarrow> 'w c99 lib_handler" where
  "default_c99_handler_clearerr K ls opdata = (\<lambda>(f, e).
     do { a0 \<leftarrow> slot ls opdata 0 0 e; let (stream, e1) = get_FILE f (sint a0) e;
          Some (0, f, snd (libcall K ''clearerr'' [int stream] e1)) })"

definition default_c99_handler_feof :: "'w kernel \<Rightarrow> 'w c99 lib_handler" where
  "default_c99_handler_feof K ls opdata = (\<lambda>(f, e).
     do { a0 \<leftarrow> slot ls opdata 0 0 e; let (stream, e1) = get_FILE f (sint a0) e;
          put_file_rc ls opdata f (libcall K ''feof'' [int stream] e1) })"

definition default_c99_handler_ferror :: "'w kernel \<Rightarrow> 'w c99 lib_handler" where
  "default_c99_handler_ferror K ls opdata = (\<lambda>(f, e).
     do { a0 \<leftarrow> slot ls opdata 0 0 e; let (stream, e1) = get_FILE f (sint a0) e;
          put_file_rc ls opdata f (libcall K ''ferror'' [int stream] e1) })"

definition default_c99_handler_perror :: "'w kernel \<Rightarrow> 'w c99 lib_handler" where
  "default_c99_handler_perror K ls opdata = (\<lambda>(f, e).
     do { a0 \<leftarrow> slot ls opdata 0 0 e; a1 \<leftarrow> slot ls opdata 1 0 e;
          Some (0, f, snd (libcall K ''perror'' [int (GET_LS_PTR_NULL ls a0)] (set_errno (sint a1) e))) })"

definition default_c99_handler_system :: "'w kernel \<Rightarrow> 'w c99 lib_handler" where
  "default_c99_handler_system K ls opdata = (\<lambda>(f, e).
     do { string \<leftarrow> slot ls opdata 0 0 e;
          put_file_rc ls opdata f (libcall K ''system'' [int (GET_LS_PTR ls string)] e) })"

section \<open>Dispatch\<close>

definition default_c99_funcs :: "'w kernel \<Rightarrow> 'w c99 lib_handler option list" where
  "default_c99_funcs K =
     [None,
      Some (default_c99_handler_clearerr K),
      Some (default_c99_handler_fclose K),
      Some (default_c99_handler_feof K),
      Some (default_c99_handler_ferror K),
      Some (default_c99_handler_fflush K),
      Some (default_c99_handler_fgetc K),
      Some (default_c99_handler_fgetpos K),
      Some (default_c99_handler_fgets K),
      Some (default_c99_handler_fileno K),
      Some (default_c99_handler_fopen K),
      Some (default_c99_handler_fputc K),
      Some (default_c99_handler_fputs K),
      Some (default_c99_handler_fread K),
      Some (default_c99_handler_freopen K),
      Some (default_c99_handler_fseek K),
      Some (default_c99_handler_fsetpos K),
      Some (default_c99_handler_ftell K),
      Some (default_c99_handler_fwrite K),
      Some (default_c99_handler_getc K),
      Some (default_c99_handler_getchar K),
      Some (default_c99_handler_gets K),
      Some (default_c99_handler_perror K),
      Some (default_c99_handler_putc K),
      Some (default_c99_handler_putchar K),
      Some (default_c99_handler_puts K),
      Some (default_c99_handler_remove K),
      Some (default_c99_handler_rename K),
      Some (default_c99_handler_rewind K),
      Some (default_c99_handler_setbuf K),
      Some (default_c99_handler_setvbuf K),
      Some (default_c99_handler_system K),
      Some (default_c99_handler_tmpfile K),
      Some (default_c99_handler_tmpnam K),
      Some (default_c99_handler_ungetc K),
      Some (default_c99_handler_vfprintf K),
      Some (default_c99_handler_vfscanf K),
      Some (default_c99_handler_vprintf K),
      Some (default_c99_handler_vscanf K),
      Some (default_c99_handler_vsnprintf K),
      Some (default_c99_handler_vsprintf K),
      Some (default_c99_handler_vsscanf K)]"

definition base_spe_default_c99_handler ::
  "'w kernel \<Rightarrow> addr \<Rightarrow> u32 \<Rightarrow> 'w c99 \<Rightarrow> (int \<times> 'w c99) option" where
  "base_spe_default_c99_handler K base offset s =
     dispatch (default_c99_funcs K) (mem (snd s)) base offset s"

section \<open>The table of the files\<close>

definition open_entries :: "c99_files \<Rightarrow> nat set" where
  "open_entries f = {i. 4 \<le> i \<and> i < 17 \<and> spe_FILE_ptrs f ! i \<noteq> NULL}"

definition files_ok :: "c99_files \<Rightarrow> bool" where
  "files_ok f \<longleftrightarrow> length (spe_FILE_ptrs f) = 17 \<and> nr_spe_FILE_ptrs f = 3 + int (card (open_entries f))"

lemma finite_open_entries [simp]: "finite (open_entries f)"
  unfolding open_entries_def by (rule finite_subset [of _ "{..<17}"]) auto

lemma initial_files_ok: "files_ok (initial_files i u r)"
proof -
  have "open_entries (initial_files i u r) = {}" by (auto simp: open_entries_def initial_files_def)
  then show ?thesis by (simp add: files_ok_def initial_files_def)
qed

lemma find_range: "List.find P [a..<b] = Some i \<Longrightarrow> a \<le> i \<and> i < b \<and> P i \<and> (\<forall>j. a \<le> j \<and> j < i \<longrightarrow> \<not> P j)"
  unfolding find_Some_iff by (auto simp: nth_upt less_diff_conv add.commute) (metis le_add_diff_inverse less_diff_conv2 add.commute)

lemma free_entry_Some:
  assumes "free_entry f = Some i"
  shows "4 \<le> i \<and> i < 17 \<and> spe_FILE_ptrs f ! i = NULL \<and> i \<notin> open_entries f"
  using find_range [OF assms [unfolded free_entry_def]] by (simp add: open_entries_def)

lemma free_entry_None:
  assumes "free_entry f = None"
  shows "open_entries f = {4..<17}"
proof -
  have "\<not> (\<exists>i. i \<in> {4..<17} \<and> spe_FILE_ptrs f ! i = NULL)"
    using assms by (simp only: free_entry_def find_None_iff set_upt not_False_eq_True)
  then show ?thesis unfolding open_entries_def
    by (intro set_eqI) (metis (mono_tags) atLeastLessThan_iff mem_Collect_eq)
qed

lemma add_FILE_ok:
  assumes "files_ok f" "free_entry f = Some i" "p \<noteq> NULL"
  shows "files_ok (add_FILE i p f)" "get_FILE_nolock (int i) (add_FILE i p f) = p"
    "open_entries (add_FILE i p f) = insert i (open_entries f)"
proof -
  note i = free_entry_Some [OF assms(2)]
  have l: "length (spe_FILE_ptrs f) = 17" using assms(1) by (simp add: files_ok_def)
  show o: "open_entries (add_FILE i p f) = insert i (open_entries f)"
    using i l assms(3) by (auto simp: open_entries_def add_FILE_def nth_list_update)
  show "files_ok (add_FILE i p f)"
    using assms(1) i o by (auto simp: files_ok_def) (simp_all add: add_FILE_def)
  show "get_FILE_nolock (int i) (add_FILE i p f) = p"
    using i l by (simp add: get_FILE_nolock_def add_FILE_def)
qed

lemma close_entry_ok:
  assumes "files_ok f" "i \<in> open_entries f"
  shows "files_ok (f\<lparr>spe_FILE_ptrs := (spe_FILE_ptrs f)[i := NULL], nr_spe_FILE_ptrs := nr_spe_FILE_ptrs f - 1\<rparr>)"
proof -
  let ?g = "f\<lparr>spe_FILE_ptrs := (spe_FILE_ptrs f)[i := NULL], nr_spe_FILE_ptrs := nr_spe_FILE_ptrs f - 1\<rparr>"
  have l: "length (spe_FILE_ptrs f) = 17" using assms(1) by (simp add: files_ok_def)
  have "j \<in> open_entries ?g \<longleftrightarrow> j \<in> open_entries f - {i}" for j
    using l by (cases "j = i") (auto simp: open_entries_def)
  then have "open_entries ?g = open_entries f - {i}" by blast
  moreover have "card (open_entries f) = Suc (card (open_entries f - {i}))"
    using card_Suc_Diff1 [OF finite_open_entries assms(2)] by simp
  ultimately show ?thesis using assms(1) by (simp add: files_ok_def)
qed

text \<open>Most handlers leave the table as it is.\<close>

definition keeps_files :: "'w c99 lib_handler \<Rightarrow> bool" where
  "keeps_files h \<longleftrightarrow> (\<forall>ls w f e n f' e'. h ls w (f, e) = Some (n, f', e') \<longrightarrow> f' = f)"

lemma put_file_keeps:
  "put_file_rc ls w f p = Some (n, f', e') \<Longrightarrow> f' = f"
  "put_file_words ls w f a d e = Some (n, f', e') \<Longrightarrow> f' = f"
  by (auto simp: put_file_rc_def put_file_words_def split: Option.bind_splits prod.splits)

lemma call_format_keeps:
  "call_printf K ls w g xs format i f e = Some (n, f', e') \<Longrightarrow> f' = f"
  "call_scanf K ls w g xs format i f e = Some (n, f', e') \<Longrightarrow> f' = f"
  by (auto simp: call_printf_def call_scanf_def split: Option.bind_splits prod.splits if_splits
      dest: put_file_keeps)

lemma keeps_filesI:
  "(\<And>ls w f e n f' e'. h ls w (f, e) = Some (n, f', e') \<Longrightarrow> f' = f) \<Longrightarrow> keeps_files h"
  by (auto simp: keeps_files_def)

lemma c99_keeps_files:
  "keeps_files (default_c99_handler_clearerr K)"
  "keeps_files (default_c99_handler_feof K)"
  "keeps_files (default_c99_handler_ferror K)"
  "keeps_files (default_c99_handler_fflush K)"
  "keeps_files (default_c99_handler_fgetc K)"
  "keeps_files (default_c99_handler_fgetpos K)"
  "keeps_files (default_c99_handler_fgets K)"
  "keeps_files (default_c99_handler_fileno K)"
  "keeps_files (default_c99_handler_fputc K)"
  "keeps_files (default_c99_handler_fputs K)"
  "keeps_files (default_c99_handler_fread K)"
  "keeps_files (default_c99_handler_fseek K)"
  "keeps_files (default_c99_handler_fsetpos K)"
  "keeps_files (default_c99_handler_ftell K)"
  "keeps_files (default_c99_handler_fwrite K)"
  "keeps_files (default_c99_handler_getc K)"
  "keeps_files (default_c99_handler_getchar K)"
  "keeps_files (default_c99_handler_gets K)"
  "keeps_files (default_c99_handler_perror K)"
  "keeps_files (default_c99_handler_putc K)"
  "keeps_files (default_c99_handler_putchar K)"
  "keeps_files (default_c99_handler_puts K)"
  "keeps_files (default_c99_handler_remove K)"
  "keeps_files (default_c99_handler_rename K)"
  "keeps_files (default_c99_handler_rewind K)"
  "keeps_files (default_c99_handler_setbuf K)"
  "keeps_files (default_c99_handler_setvbuf K)"
  "keeps_files (default_c99_handler_system K)"
  "keeps_files (default_c99_handler_tmpnam K)"
  "keeps_files (default_c99_handler_ungetc K)"
  "keeps_files (default_c99_handler_vfprintf K)"
  "keeps_files (default_c99_handler_vfscanf K)"
  "keeps_files (default_c99_handler_vprintf K)"
  "keeps_files (default_c99_handler_vscanf K)"
  "keeps_files (default_c99_handler_vsnprintf K)"
  "keeps_files (default_c99_handler_vsprintf K)"
  "keeps_files (default_c99_handler_vsscanf K)"
  by (rule keeps_filesI, auto simp: Let_def
      default_c99_handler_clearerr_def
      default_c99_handler_feof_def
      default_c99_handler_ferror_def
      default_c99_handler_fflush_def
      default_c99_handler_fgetc_def
      default_c99_handler_fgetpos_def
      default_c99_handler_fgets_def
      default_c99_handler_fileno_def
      default_c99_handler_fputc_def
      default_c99_handler_fputs_def
      default_c99_handler_fread_def
      default_c99_handler_fseek_def
      default_c99_handler_fsetpos_def
      default_c99_handler_ftell_def
      default_c99_handler_fwrite_def
      default_c99_handler_getc_def
      default_c99_handler_getchar_def
      default_c99_handler_gets_def
      default_c99_handler_perror_def
      default_c99_handler_putc_def
      default_c99_handler_putchar_def
      default_c99_handler_puts_def
      default_c99_handler_remove_def
      default_c99_handler_rename_def
      default_c99_handler_rewind_def
      default_c99_handler_setbuf_def
      default_c99_handler_setvbuf_def
      default_c99_handler_system_def
      default_c99_handler_tmpnam_def
      default_c99_handler_ungetc_def
      default_c99_handler_vfprintf_def
      default_c99_handler_vfscanf_def
      default_c99_handler_vprintf_def
      default_c99_handler_vscanf_def
      default_c99_handler_vsnprintf_def
      default_c99_handler_vsprintf_def
      default_c99_handler_vsscanf_def
      split: Option.bind_splits prod.splits if_splits dest: put_file_keeps call_format_keeps)+

lemma c99_funcs_length [simp]: "length (default_c99_funcs K) = 42"
  by (simp add: default_c99_funcs_def)

interpretation c99: handler_class "default_c99_funcs K" 41 for K
proof
  fix op :: nat
  assume o: "0 < op" "op \<le> 41"
  have "None \<notin> set (tl (default_c99_funcs K))" by (simp add: default_c99_funcs_def)
  moreover have "op - 1 < length (tl (default_c99_funcs K))" using o by simp
  ultimately have "tl (default_c99_funcs K) ! (op - 1) \<noteq> None" by (metis nth_mem)
  then show "default_c99_funcs K ! op \<noteq> None" using o by (cases op) (simp_all add: nth_tl)
qed simp

lemma c99_table_keeps:
  assumes "default_c99_funcs K ! op = Some h" "op < 42" "op \<notin> {2, 10, 14, 32}"
  shows "keeps_files h"
proof -
  have "list_all (\<lambda>(i, x). i \<in> {2, 10, 14, 32} \<or> (case x of None \<Rightarrow> True | Some h \<Rightarrow> keeps_files h))
          (enumerate 0 (default_c99_funcs K))"
    by (simp add: default_c99_funcs_def c99_keeps_files)
  moreover have "(op, Some h) \<in> set (enumerate 0 (default_c99_funcs K))"
    using assms(1,2) by (simp add: in_set_enumerate_eq)
  ultimately show ?thesis using assms(3) by (auto simp: list_all_iff)
qed

lemma c99_funcs_nth:
  "default_c99_funcs K ! 2 = Some (default_c99_handler_fclose K)"
  "default_c99_funcs K ! 10 = Some (default_c99_handler_fopen K)"
  "default_c99_funcs K ! 14 = Some (default_c99_handler_freopen K)"
  "default_c99_funcs K ! 32 = Some (default_c99_handler_tmpfile K)"
  by (simp_all add: default_c99_funcs_def)

lemma get_FILE_mem [simp]: "mem (snd (get_FILE f nr e)) = mem e"
  by (simp add: get_FILE_def)

lemma tmpfile_ok:
  assumes "files_ok f" "default_c99_handler_tmpfile K ls w (f, e) = Some (n, f', e')"
  shows "files_ok f'"
proof -
  have "f' = f \<or> (\<exists>i p. free_entry f = Some i \<and> \<not> p \<le> 0 \<and> f' = add_FILE i (nat p) f)"
    using assms(2) by (auto simp: default_c99_handler_tmpfile_def split: if_splits option.splits prod.splits
        dest!: put_file_keeps)
  then show ?thesis using assms(1) add_FILE_ok(1) [OF assms(1)] by fastforce
qed

lemma fopen_ok:
  assumes "files_ok f" "default_c99_handler_fopen K ls w (f, e) = Some (n, f', e')"
  shows "files_ok f'"
proof -
  have "f' = f \<or> (\<exists>i p. free_entry f = Some i \<and> \<not> p \<le> 0 \<and> f' = add_FILE i (nat p) f)"
    using assms(2) by (auto simp: default_c99_handler_fopen_def Let_def
        split: if_splits option.splits prod.splits Option.bind_splits dest!: put_file_keeps)
  then show ?thesis using assms(1) add_FILE_ok(1) [OF assms(1)] by fastforce
qed

lemma fclose_ok:
  assumes "files_ok f" "default_c99_handler_fclose K ls w (f, e) = Some (n, f', e')"
    and "slot ls w 0 0 e = Some a" "unat a \<in> open_entries f"
    and "quiet A K" "{LS_ARG_ADDR ls w 0..<LS_ARG_ADDR ls w 0 + 4} \<inter> A = {}"
  shows "files_ok f'"
proof -
  obtain stream e1 where g: "get_FILE f (sint a) e = (stream, e1)" by fastforce
  obtain rc e2 where l: "libcall K ''fclose'' [int stream] (emit (Lock FileTableLock) e1) = (rc, e2)" by fastforce
  let ?f1 = "if rc = 0 then do { b0 \<leftarrow> slot ls w 0 0 e2; f0 \<leftarrow> set_FILE (unat b0) NULL f;
        Some (f0\<lparr>nr_spe_FILE_ptrs := nr_spe_FILE_ptrs f - 1\<rparr>) } else Some f"
  have "do { f1 \<leftarrow> ?f1; put_file_rc ls w f1 (rc, emit (Unlock FileTableLock) e2) } = Some (n, f', e')"
    using assms(2,3) g l by (simp add: default_c99_handler_fclose_def)
  then have f1: "?f1 = Some f'" by (cases ?f1) (auto dest: put_file_keeps)
  have "mem (emit (Lock FileTableLock) e1) = mem e" using g by (auto simp: get_FILE_def)
  then have "same_outside (mem e) (mem e2) A"
    using assms(5) l unfolding libcall_def sys_rv_def sys_def quiet_def
    by (auto split: prod.splits) (metis fst_conv snd_conv)
  then have "slot ls w 0 0 e2 = Some a"
    using load32_same_outside [OF _ assms(6)] assms(3) by (simp add: slot_def)
  then have "f' = (if rc = 0 then f\<lparr>spe_FILE_ptrs := (spe_FILE_ptrs f)[unat a := NULL], nr_spe_FILE_ptrs := nr_spe_FILE_ptrs f - 1\<rparr> else f)"
    using f1 by (auto simp: set_FILE_def split: if_splits)
  then show ?thesis using close_entry_ok [OF assms(1,4)] assms(1) by simp
qed

text \<open>
  C11: the count of open files and the table stay consistent under every C99 call whatever its
  arguments are, with two exceptions: \<open>freopen\<close>, and an \<open>fclose\<close> of anything but a file the program
  has open, that is an open entry of the table, whose numbers begin at 4. So closing
  a standard stream or a closed file is excluded, and for the \<open>fclose\<close> of an open entry the C library must
  have left the argument alone. As long as only such calls are made, \<open>fopen\<close> and \<open>tmpfile\<close> never use
  more entries than there are. What the two exceptions do is in \<open>closing_stdout_breaks_table\<close> and the
  theorems on \<open>freopen\<close>.
\<close>

theorem c99_file_table_kept:
  assumes "files_ok f"
    and "base_spe_default_c99_handler K base off (f, e) = Some (n, f', e')"
    and "load32 (mem e) (base + unat ((off AND LS_ADDR_MASK) AND NOT 1)) = Some w"
    and "opcode w \<noteq> 14"
    and "opcode w = 2 \<Longrightarrow> slot base w 0 0 e = Some a \<and> unat a \<in> open_entries f \<and> quiet A K \<and>
      {LS_ARG_ADDR base w 0..<LS_ARG_ADDR base w 0 + 4} \<inter> A = {}"
  shows "files_ok f' \<and> nr_spe_FILE_ptrs f' \<le> 16"
proof -
  have "files_ok f'"
  proof (cases "base = NULL \<or> opcode w = 0 \<or> 41 < opcode w")
    case True
    then have "dispatch (default_c99_funcs K) (mem e) base off (f, e) = Some (1, f, e)"
      by (rule c99.refused [OF assms(3)])
    then show ?thesis using assms(1,2) by (simp add: base_spe_default_c99_handler_def)
  next
    case False
    then have "base \<noteq> NULL" "0 < opcode w" "opcode w \<le> 41" by auto
    moreover have d: "dispatch (default_c99_funcs K) (mem e) base off (f, e) = Some (n, f', e')"
      using assms(2) by (simp add: base_spe_default_c99_handler_def)
    ultimately obtain h k where
      h: "default_c99_funcs K ! opcode w = Some h" "h base w (f, e) = Some (k, f', e')"
      using c99.ran [OF d _ assms(3)] by blast
    show ?thesis
    proof (cases "opcode w \<in> {2, 10, 14, 32}")
      case True
      then consider "opcode w = 2" | "opcode w = 10" | "opcode w = 32" using assms(4) by blast
      then show ?thesis
      proof cases
        case 1
        then show ?thesis using h c99_funcs_nth(1) [of K] assms(5) fclose_ok [OF assms(1)] by fastforce
      next
        case 2
        then show ?thesis using h c99_funcs_nth(2) [of K] fopen_ok [OF assms(1)] by fastforce
      next
        case 3
        then show ?thesis using h c99_funcs_nth(4) [of K] tmpfile_ok [OF assms(1)] by fastforce
      qed
    next
      case n: False
      then have "keeps_files h" using False by (intro c99_table_keeps [OF h(1)]) auto
      then have "f' = f" using h(2) unfolding keeps_files_def by blast
      then show ?thesis using assms(1) by simp
    qed
  qed
  moreover have "card (open_entries f') \<le> card {4..<17 :: nat}"
    by (rule card_mono) (auto simp: open_entries_def)
  ultimately show ?thesis by (simp add: files_ok_def)
qed

lemma put_file_rc_ok:
  assumes "mapped (mem e) (LS_ARG_ADDR ls w 0) 16"
  shows "\<exists>e'. put_file_rc ls w f (rc, e) = Some (0, f, e') \<and> trace e' = trace e \<and>
     result_quad (mem e') (LS_ARG_ADDR ls w 0) [rc, 0, 0, errno e]"
  using put_rc_ok [OF assms, of rc] by (auto simp: put_file_rc_def)

lemma put_file_words_ok:
  assumes "mapped (mem e) (LS_ARG_ADDR ls w 0) 16"
  shows "\<exists>e'. put_file_words ls w f a d e = Some (0, f, e') \<and> trace e' = trace e \<and>
     result_quad (mem e') (LS_ARG_ADDR ls w 0) [a, 0, 0, d]"
  using PUT_LS_RC_ok [OF assms, of a 0 0 d] by (auto simp: put_file_words_def)

lemma mapped_emit [simp]: "mem (emit q e) = mem e"
  by simp

text \<open>The sample call \<open>fopen\<close> with path at \<open>0x200\<close> and mode at \<open>0x300\<close>.\<close>

definition sample_fopen :: "nat \<Rightarrow> u32" where
  "sample_fopen = (\<lambda>i. 0)(0x20 := 0x0A000100, 0x40 := 0x200, 0x44 := 0x300)"

text \<open>
  A file the SPE program opens gets the first free number from 4 on, and that number denotes
  the new stream until it is closed; no other number changes its meaning. The library is asked
  under the lock of the table. Without a free entry the call fails with \<open>EMFILE\<close> and the library
  is not asked.
\<close>

theorem fopen_gives_free_number:
  assumes "files_ok f" and "slot ls w 0 0 e = Some a0" and "slot ls w 1 0 e = Some a1"
    and "libcall K ''fopen'' [int (GET_LS_PTR_NULL ls a0), int (GET_LS_PTR_NULL ls a1)]
       (emit (Lock FileTableLock) e) = (p, e1)" and "0 < p"
    and "mapped (mem e) (LS_ARG_ADDR ls w 0) 16" and "mapped (mem e1) (LS_ARG_ADDR ls w 0) 16"
  shows "\<exists>f' e'. default_c99_handler_fopen K ls w (f, e) = Some (0, f', e') \<and>
    (if open_entries f = {4..<17} then
       f' = f \<and> trace e' = trace e @ [(Lock FileTableLock, 0), (Unlock FileTableLock, 0)] \<and>
       result_quad (mem e') (LS_ARG_ADDR ls w 0) [0, 0, 0, EMFILE]
     else \<exists>i. 4 \<le> i \<and> i < 17 \<and> i \<notin> open_entries f \<and> (\<forall>j. 4 \<le> j \<and> j < i \<longrightarrow> j \<in> open_entries f) \<and>
       get_FILE_nolock (int i) f' = nat p \<and>
       (\<forall>j. j \<noteq> int i \<longrightarrow> get_FILE_nolock j f' = get_FILE_nolock j f) \<and>
       result_quad (mem e') (LS_ARG_ADDR ls w 0) [int i, 0, 0, errno e1])"
proof (cases "free_entry f")
  case None
  have "mapped (mem (emit (Unlock FileTableLock) (emit (Lock FileTableLock) e))) (LS_ARG_ADDR ls w 0) 16"
    using assms(6) by simp
  from put_file_words_ok [OF this, of f 0 EMFILE] show ?thesis
    using None free_entry_None [OF None] assms(2,3) by (auto simp: default_c99_handler_fopen_def Let_def)
next
  case (Some i)
  note i = free_entry_Some [OF Some]
  have "open_entries f \<noteq> {4..<17}" using i by force
  moreover have "nr_spe_FILE_ptrs f < SPE_FOPEN_MAX"
  proof -
    have "card (open_entries f) \<le> card {4..<17 :: nat}" by (rule card_mono) (auto simp: open_entries_def)
    then show ?thesis using assms(1) by (simp add: files_ok_def)
  qed
  moreover have "mapped (mem (emit (Unlock FileTableLock) e1)) (LS_ARG_ADDR ls w 0) 16" using assms(7) by simp
  from put_file_words_ok [OF this, of "add_FILE i (nat p) f" "int i" "errno e1"]
  obtain e' where "put_file_words ls w (add_FILE i (nat p) f) (int i) (errno e1) (emit (Unlock FileTableLock) e1)
      = Some (0, add_FILE i (nat p) f, e')" "result_quad (mem e') (LS_ARG_ADDR ls w 0) [int i, 0, 0, errno e1]" by blast
  moreover have "get_FILE_nolock (int i) (add_FILE i (nat p) f) = nat p"
    using add_FILE_ok(2) [OF assms(1) Some] assms(5) by simp
  moreover have "get_FILE_nolock j (add_FILE i (nat p) f) = get_FILE_nolock j f" if "j \<noteq> int i" for j
  proof -
    have "nat j \<noteq> i" if "0 < j" using that \<open>j \<noteq> int i\<close> by auto
    then show ?thesis by (auto simp: get_FILE_nolock_def add_FILE_def Let_def)
  qed
  moreover have "\<forall>j. 4 \<le> j \<and> j < i \<longrightarrow> j \<in> open_entries f"
    using find_range [OF Some [unfolded free_entry_def]] i by (simp add: open_entries_def)
  ultimately show ?thesis
    using Some i assms(2-5) by (auto simp: default_c99_handler_fopen_def Let_def intro!: exI [of _ i])
qed

lemma fopen_gives_free_number_witness:
  "\<exists>f' e'. default_c99_handler_fopen (const_kernel (reply_ok 0x5000)) 0x100000 0x0A000100
      (initial_files 7 8 9, sample_call sample_fopen) = Some (0, f', e') \<and>
    get_FILE_nolock 4 f' = 0x5000 \<and> get_FILE_nolock 2 f' = 8 \<and>
    result_quad (mem e') 0x100100 [4, 0, 0, 0]"
proof -
  let ?e = "sample_call sample_fopen" and ?f = "initial_files 7 8 9"
  let ?e1 = "(emit (Lock FileTableLock) ?e)\<lparr>trace := [(Lock FileTableLock, 0), (LibCall ''fopen'' [0x100200, 0x100300], 0x5000)]\<rparr>"
  have q: "LS_ARG_ADDR 0x100000 0x0A000100 0 = 0x100100" by (simp add: LS_ARG_ADDR_def)
  have s: "slot 0x100000 0x0A000100 0 0 ?e = Some 0x200" "slot 0x100000 0x0A000100 1 0 ?e = Some 0x300"
    by (simp_all add: sample_call_eval sample_fopen_def)
  have k: "libcall (const_kernel (reply_ok 0x5000)) ''fopen'' [int (GET_LS_PTR_NULL 0x100000 0x200),
      int (GET_LS_PTR_NULL 0x100000 0x300)] (emit (Lock FileTableLock) ?e) = (0x5000, ?e1)"
    by (simp add: libcall_def sys_rv_def sys_def const_kernel_def reply_ok_def sample_call_def start_env_def
        emit_def GET_LS_PTR_NULL_def GET_LS_PTR_def)
  have m: "mapped (mem ?e) (LS_ARG_ADDR 0x100000 0x0A000100 0) 16"
    "mapped (mem ?e1) (LS_ARG_ADDR 0x100000 0x0A000100 0) 16" by (simp_all add: q mapped_sample)
  have p: "(0 :: int) < 0x5000" by simp
  have o: "open_entries ?f = {}" by (auto simp: open_entries_def initial_files_def)
  have n: "(open_entries ?f = {4..<17}) = False" by (simp add: o)
  obtain f' e' i where r: "default_c99_handler_fopen (const_kernel (reply_ok 0x5000)) 0x100000 0x0A000100 (?f, ?e) = Some (0, f', e')"
    "4 \<le> i" "\<forall>j. 4 \<le> j \<and> j < i \<longrightarrow> j \<in> open_entries ?f" "get_FILE_nolock (int i) f' = nat 0x5000"
    "\<forall>j. j \<noteq> int i \<longrightarrow> get_FILE_nolock j f' = get_FILE_nolock j ?f"
    "result_quad (mem e') (LS_ARG_ADDR 0x100000 0x0A000100 0) [int i, 0, 0, errno ?e1]"
    using fopen_gives_free_number [OF initial_files_ok [of 7 8 9] s k p m] n by (simp only: if_False) blast
  have i: "i = 4" using r(2,3) o by (cases "i = 4") auto
  have "get_FILE_nolock 2 f' = get_FILE_nolock 2 ?f" using r(5) i by simp
  then have "get_FILE_nolock 2 f' = 8" by (simp add: get_FILE_nolock_def initial_files_def)
  then show ?thesis using r(1,4,6) i q by simp
qed

text \<open>The C99 table with the stream \<open>0x5000\<close> open as number 4, and the call that closes it.\<close>

lemma c99_file_table_kept_witness:
  "\<exists>f' e'. base_spe_default_c99_handler (const_kernel (reply_ok 0)) 0x100000 0x80
      (add_FILE 4 0x5000 (initial_files 7 8 9), sample_call ((\<lambda>i. 0)(0x20 := 0x02000100, 0x40 := 4))) = Some (0, f', e') \<and>
    files_ok f' \<and> nr_spe_FILE_ptrs f' = 3"
proof -
  let ?e = "sample_call ((\<lambda>i. 0)(0x20 := 0x02000100, 0x40 := 4))" and ?f = "add_FILE 4 0x5000 (initial_files 7 8 9)"
  let ?K = "const_kernel (reply_ok 0) :: unit kernel"
  have q: "LS_ARG_ADDR 0x100000 0x02000100 0 = 0x100100" by (simp add: LS_ARG_ADDR_def)
  have fe: "free_entry (initial_files 7 8 9) = Some 4"
    by (simp add: free_entry_def initial_files_def upt_conv_Cons)
  have fo: "files_ok ?f" "open_entries ?f = insert 4 (open_entries (initial_files 7 8 9))"
    using add_FILE_ok [OF initial_files_ok fe, of "0x5000"] by simp_all
  have w: "load32 (mem ?e) (0x100000 + unat ((0x80 AND LS_ADDR_MASK) AND NOT (1 :: u32))) = Some 0x02000100"
    by (simp add: load32_sample)
  have o: "opcode 0x02000100 = 2" by (simp add: opcode_def)
  have s: "slot 0x100000 0x02000100 0 0 e = Some 4" if "mem e = mem ?e" for e :: "unit env"
    using that by (simp add: slot_def q load32_sample)
  let ?f' = "?f\<lparr>spe_FILE_ptrs := (spe_FILE_ptrs ?f)[4 := NULL], nr_spe_FILE_ptrs := 3\<rparr>"
  obtain stream e1 where g: "get_FILE ?f (sint (4 :: u32)) ?e = (stream, e1)" by fastforce
  obtain rc e2 where l: "libcall ?K ''fclose'' [int stream] (emit (Lock FileTableLock) e1) = (rc, e2)" by fastforce
  have r: "rc = 0" "mem e2 = mem ?e"
    using g l by (auto simp: libcall_def sys_rv_def sys_def const_kernel_def reply_ok_def get_FILE_def)
  have "mapped (mem (emit (Unlock FileTableLock) e2)) (LS_ARG_ADDR 0x100000 0x02000100 0) 16"
    by (simp add: r q mapped_sample)
  from put_file_rc_ok [OF this, of ?f' 0] obtain e' where
    p: "put_file_rc 0x100000 0x02000100 ?f' (0, emit (Unlock FileTableLock) e2) = Some (0, ?f', e')" by blast
  have "default_c99_handler_fclose ?K 0x100000 0x02000100 (?f, ?e) = Some (0, ?f', e')"
    using g l p s [OF refl] s [OF r(2)] r(1)
    by (simp add: default_c99_handler_fclose_def set_FILE_def) (simp add: add_FILE_def initial_files_def)
  then have d: "base_spe_default_c99_handler ?K 0x100000 0x80 (?f, ?e) = Some (0, ?f', e')"
    unfolding base_spe_default_c99_handler_def
    by (intro dispatch_calls [where w = "0x02000100" and h = "default_c99_handler_fclose ?K" and n = 0])
      (use w o c99_funcs_nth(1) [of ?K] in simp_all)
  have "files_ok ?f' \<and> nr_spe_FILE_ptrs ?f' \<le> 16"
    by (rule c99_file_table_kept [OF fo(1) d w, where a = 4 and A = "{}"])
      (use fo(2) o s [OF refl] in \<open>simp_all add: quiet_def const_kernel_def\<close>)
  then show ?thesis using d by auto
qed

text \<open>
  Closing a standard stream breaks the table: the count goes down although the stream was
  never counted as an entry of its own, and its number still denotes the closed stream of the
  process.
\<close>

theorem closing_stdout_breaks_table:
  assumes "files_ok f" and "spe_FILE_ptrs f ! 2 = NULL" and "slot ls w 0 0 e = Some 2"
    and "libcall K ''fclose'' [int (c_stdout f)]
      (emit (Lock FileTableLock) (emit (Unlock FileTableLock) (emit (Lock FileTableLock) e))) = (0, e1)"
    and "slot ls w 0 0 e1 = Some 2" and "mapped (mem e1) (LS_ARG_ADDR ls w 0) 16"
  shows "\<exists>f' e'. default_c99_handler_fclose K ls w (f, e) = Some (0, f', e') \<and>
    nr_spe_FILE_ptrs f' = nr_spe_FILE_ptrs f - 1 \<and> \<not> files_ok f' \<and>
    get_FILE_nolock SPE_STDOUT f' = c_stdout f"
proof -
  let ?f' = "f\<lparr>spe_FILE_ptrs := (spe_FILE_ptrs f)[2 := NULL], nr_spe_FILE_ptrs := nr_spe_FILE_ptrs f - 1\<rparr>"
  have l: "length (spe_FILE_ptrs f) = 17" using assms(1) by (simp add: files_ok_def)
  have "mapped (mem (emit (Unlock FileTableLock) e1)) (LS_ARG_ADDR ls w 0) 16" using assms(6) by simp
  from put_file_rc_ok [OF this, of ?f' 0] obtain e' where
    p: "put_file_rc ls w ?f' (0, emit (Unlock FileTableLock) e1) = Some (0, ?f', e')" by blast
  have "default_c99_handler_fclose K ls w (f, e) = Some (0, ?f', e')"
    using assms p l by (simp add: default_c99_handler_fclose_def get_FILE_def get_FILE_nolock_def set_FILE_def)
  moreover have "open_entries ?f' = open_entries f" using l by (auto simp: open_entries_def nth_list_update)
  then have "\<not> files_ok ?f'" using assms(1) by (simp add: files_ok_def)
  moreover have "get_FILE_nolock SPE_STDOUT ?f' = c_stdout f" using l by (simp add: get_FILE_nolock_def)
  ultimately show ?thesis by (auto intro!: exI [of _ ?f'])
qed

lemma closing_stdout_breaks_table_witness:
  "\<exists>f' e'. default_c99_handler_fclose (const_kernel (reply_ok 0)) 0x100000 0x100
      (initial_files 7 8 9, sample_call ((\<lambda>i. 0)(0x40 := 2))) = Some (0, f', e') \<and>
    nr_spe_FILE_ptrs f' = 2 \<and> \<not> files_ok f' \<and> get_FILE_nolock 2 f' = 8"
proof -
  let ?e = "sample_call ((\<lambda>i. 0)(0x40 := 2))" and ?f = "initial_files 7 8 9"
  let ?K = "const_kernel (reply_ok 0) :: unit kernel"
  let ?lk = "emit (Lock FileTableLock) (emit (Unlock FileTableLock) (emit (Lock FileTableLock) ?e))"
  have q: "LS_ARG_ADDR 0x100000 0x100 0 = 0x100100" by (simp add: LS_ARG_ADDR_def)
  have s: "slot 0x100000 0x100 0 0 e = Some 2" if "mem e = mem ?e" for e :: "unit env"
    using that by (simp add: slot_def q load32_sample)
  obtain e1 where l: "libcall ?K ''fclose'' [int (c_stdout ?f)] ?lk = (0, e1)" "mem e1 = mem ?e"
    by (simp add: libcall_def sys_rv_def sys_def const_kernel_def reply_ok_def)
  have m: "mapped (mem e1) (LS_ARG_ADDR 0x100000 0x100 0) 16" by (simp add: l(2) q mapped_sample)
  have s0: "slot 0x100000 0x100 0 0 ?e = Some 2" by (rule s) simp
  have n: "spe_FILE_ptrs ?f ! 2 = NULL" by (simp add: initial_files_def)
  show ?thesis
    using closing_stdout_breaks_table [OF initial_files_ok [of 7 8 9] n s0 l(1) s [OF l(2)] m]
    by (simp add: initial_files_def)
qed

end
