(* ===== verification/Default_Handlers.thy ===== *)
theory Default_Handlers
  imports Handler_Posix1 Handler_Libea Handler_C99
begin

unbundle bit_operations_syntax

text \<open>
  The three default handlers together: as the code behind the table of library call handlers
  (\<open>spebase/lib_builtin.c\<close>), and where they differ.
\<close>

section \<open>Offsets of \<open>fseek\<close> and \<open>lseek\<close>\<close>

lemma uint_of_negative: "sint (w :: u32) < 0 \<Longrightarrow> uint w = sint w + 2 ^ 32"
proof -
  assume n: "sint w < 0"
  have u: "0 \<le> uint w" "uint w < 4294967296" using unsigned_less [where w = w and 'a = int] by simp_all
  have i: "sint w = (uint w + 2147483648) mod 4294967296 - 2147483648"
    by (simp add: sint_uint signed_take_bit_eq_take_bit_shift take_bit_eq_mod)
  show ?thesis
  proof (cases "uint w < 2147483648")
    case True
    then have "(uint w + 2147483648) mod 4294967296 = uint w + 2147483648"
      using u by (intro mod_pos_pos_trivial) simp_all
    then show ?thesis using i n u by linarith
  next
    case False
    have "(uint w + 2147483648) mod 4294967296 = (uint w - 2147483648) mod 4294967296"
      using minus_mod_self2 [of "uint w + 2147483648" 4294967296] by simp
    also have "\<dots> = uint w - 2147483648" using False u by (intro mod_pos_pos_trivial) simp_all
    finally show ?thesis using i by simp
  qed
qed

text \<open>
  \<open>fseek\<close> loses the sign of the offset in a 64-bit process: a seek by \<open>-1\<close> is passed on as a
  seek by 4294967295, while \<open>lseek\<close> of the POSIX class passes \<open>-1\<close>.
\<close>

theorem fseek_loses_sign:
  assumes "slot ls w 0 0 e = Some a" and "slot ls w 1 0 e = Some off" and "slot ls w 2 0 e = Some whence"
    and "sint off < 0" and "default_c99_handler_fseek K ls w (f, e) = Some (n, f', e')"
    and "default_posix1_handler_lseek K ls w e = Some (k, e'')"
  shows "(\<exists>rc. trace e' = trace e @ [(Lock FileTableLock, 0), (Unlock FileTableLock, 0),
      (LibCall ''fseek'' [int (get_FILE_nolock (sint a) f), sint off + 2 ^ 32, sint whence], rc)]) \<and>
    (\<exists>rc. trace e'' = trace e @ [(LibCall ''lseek'' [sint a, sint off, sint whence], rc)])"
proof -
  note u = uint_of_negative [OF assms(4)]
  obtain stream e1 where g: "get_FILE f (sint a) e = (stream, e1)" by fastforce
  have t: "trace e1 = trace e @ [(Lock FileTableLock, 0), (Unlock FileTableLock, 0)]"
    "stream = get_FILE_nolock (sint a) f" "slot ls w 1 0 e1 = Some off" "slot ls w 2 0 e1 = Some whence"
    using g assms(2,3) by (auto simp: get_FILE_def slot_def)
  obtain rc e2 where c: "libcall K ''fseek'' [int stream, uint off, sint whence] e1 = (rc, e2)" by fastforce
  have "put_file_rc ls w f (rc, e2) = Some (n, f', e')"
    using assms(1,5) g t(3,4) c by (simp add: default_c99_handler_fseek_def)
  then have "trace e' = trace e2"
    by (auto simp: put_file_rc_def put_rc_def split: Option.bind_splits dest: PUT_LS_RC_outside)
  moreover obtain rc' e3 where l: "libcall K ''lseek'' [sint a, sint off, sint whence] e = (rc', e3)" by fastforce
  then have "put_rc ls w (rc', e3) = Some (k, e'')"
    using assms(1-3,6) by (simp add: default_posix1_handler_lseek_def)
  then have "trace e'' = trace e3"
    by (auto simp: put_rc_def split: Option.bind_splits dest: PUT_LS_RC_outside)
  moreover note sys_rv_trace [OF c [unfolded libcall_def]] sys_rv_trace [OF l [unfolded libcall_def]]
  ultimately show ?thesis using t(1,2) u by simp
qed


lemma fseek_loses_sign_witness:
  "\<exists>f' e' e'' rc rc'. default_c99_handler_fseek (const_kernel (reply_ok 0)) 0x100000 0x100
       (initial_files 7 8 9, sample_call ((\<lambda>i. 0)(0x40 := 1, 0x44 := 0xFFFFFFFF, 0x48 := 1))) = Some (0, f', e') \<and>
     trace e' = [(Lock FileTableLock, 0), (Unlock FileTableLock, 0), (LibCall ''fseek'' [7, 4294967295, 1], rc)] \<and>
     default_posix1_handler_lseek (const_kernel (reply_ok 0)) 0x100000 0x100
       (sample_call ((\<lambda>i. 0)(0x40 := 1, 0x44 := 0xFFFFFFFF, 0x48 := 1))) = Some (0, e'') \<and>
     trace e'' = [(LibCall ''lseek'' [1, -1, 1], rc')]"
proof -
  let ?e = "sample_call ((\<lambda>i. 0)(0x40 := 1, 0x44 := 0xFFFFFFFF, 0x48 := 1))" and ?f = "initial_files 7 8 9"
  let ?K = "const_kernel (reply_ok 0) :: unit kernel"
  have q: "LS_ARG_ADDR 0x100000 0x100 0 = 0x100100" by (simp add: LS_ARG_ADDR_def)
  have s: "slot 0x100000 0x100 0 0 e = Some 1" "slot 0x100000 0x100 1 0 e = Some 0xFFFFFFFF"
    "slot 0x100000 0x100 2 0 e = Some 1" if "mem e = mem ?e" for e :: "unit env"
    using that by (simp_all add: slot_def LS_ARG_ADDR_def load32_sample)
  have lc: "\<exists>e1. libcall ?K g xs e = (0, e1) \<and> mem e1 = mem e" for g xs e
    by (simp add: libcall_def sys_rv_def sys_def const_kernel_def reply_ok_def)
  obtain stream e1 where g: "get_FILE ?f (sint (1 :: u32)) ?e = (stream, e1)" by fastforce
  then have m1: "mem e1 = mem ?e" by (auto simp: get_FILE_def)
  obtain e2 where c: "libcall ?K ''fseek'' [int stream, uint (0xFFFFFFFF :: u32), sint (1 :: u32)] e1 = (0, e2)"
    "mem e2 = mem ?e" using lc [of "''fseek''" _ e1] m1 by metis
  have "mapped (mem e2) (LS_ARG_ADDR 0x100000 0x100 0) 16" by (simp add: c(2) q mapped_sample)
  from put_file_rc_ok [OF this, of ?f 0] obtain e' where p: "put_file_rc 0x100000 0x100 ?f (0, e2) = Some (0, ?f, e')"
    by blast
  have h: "default_c99_handler_fseek ?K 0x100000 0x100 (?f, ?e) = Some (0, ?f, e')"
    using s(1) [OF refl] g s(2,3) [OF m1] c(1) p by (simp add: default_c99_handler_fseek_def)
  obtain e3 where l: "libcall ?K ''lseek'' [sint (1 :: u32), sint (0xFFFFFFFF :: u32), sint (1 :: u32)] ?e = (0, e3)"
    "mem e3 = mem ?e" using lc [of "''lseek''" _ ?e] by metis
  have "mapped (mem e3) (LS_ARG_ADDR 0x100000 0x100 0) 16" by (simp add: l(2) q mapped_sample)
  from put_rc_ok [OF this, of 0] obtain e'' where p2: "put_rc 0x100000 0x100 (0, e3) = Some (0, e'')" by blast
  have h2: "default_posix1_handler_lseek ?K 0x100000 0x100 ?e = Some (0, e'')"
    using s [OF refl] l(1) p2 by (simp add: default_posix1_handler_lseek_def)
  have n: "sint (0xFFFFFFFF :: u32) < 0" by simp
  have "get_FILE_nolock 1 ?f = 7" by (simp add: get_FILE_nolock_def initial_files_def)
  then obtain rc rc' where "trace e' = [(Lock FileTableLock, 0), (Unlock FileTableLock, 0),
      (LibCall ''fseek'' [7, 4294967295, 1], rc)]" "trace e'' = [(LibCall ''lseek'' [1, -1, 1], rc')]"
    using fseek_loses_sign [OF s [OF refl] n h h2] by auto
  then show ?thesis using h h2 by blast
qed

section \<open>The default handlers behind the table\<close>

text \<open>
  The files of the C99 class are static variables of the process: here they are a component of the
  uninterpreted state, next to the one the kernel sees. \<open>U\<close> is the code of the application's handlers.
\<close>

fun behind_files :: "'w kernel \<Rightarrow> (c99_files \<times> 'w) kernel" where
  "behind_files K q (m, f, w) = (case K q (m, w) of (r, m', w') \<Rightarrow> (r, m', f, w'))"

fun default_code ::
  "u32 \<Rightarrow> 'w kernel \<Rightarrow> (addr \<Rightarrow> addr \<Rightarrow> u32 \<Rightarrow> (c99_files \<times> 'w) env \<Rightarrow> (int \<times> (c99_files \<times> 'w) env) option)
   \<Rightarrow> (c99_files \<times> 'w) handler_code" where
  "default_code junk K U Default_c99 base npc e =
     do { (n, f, e1) \<leftarrow> base_spe_default_c99_handler (behind_files K) base npc (fst (world e), e);
          Some (n, e1\<lparr>world := (f, snd (world e1))\<rparr>) }"
| "default_code junk K U Default_posix1 base npc e = base_spe_default_posix1_handler (behind_files K) base npc e"
| "default_code junk K U Default_libea base npc e = base_spe_default_libea_handler junk (behind_files K) base npc e"
| "default_code junk K U (User a) base npc e = U a base npc e"

text \<open>The number of operations of a class, by the call number of the class.\<close>

definition operations :: "nat \<Rightarrow> nat" where
  "operations callnum = (if callnum = 0 then 41 else if callnum = 1 then 68 else 5)"

text \<open>
  C24: With the default handlers in place, a library call of one of the three classes is either
  served, exactly if its class has the operation, or refused with \<open>ENOSYS\<close>, the memory, the files and
  everything else left as they were.
\<close>

theorem default_call_served_or_enosys:
  assumes "callnum \<in> {0, 1, 5}" and "mem_mmap_base c \<noteq> NULL" and "\<not> has_flag (flags c) SPE_ISOLATE_EMULATE"
    and "load32 (mem e) (mem_mmap_base c + unat ((npc AND LS_ADDR_MASK) AND NOT 1)) = Some w"
    and "base_spe_handle_library_callback (default_code junk K U) initial_handlers c callnum npc e = Some (n, e')"
  shows "(if 0 < opcode w \<and> opcode w \<le> operations callnum then n = 0
          else n = 1 \<and> e' = set_errno ENOSYS e)"
proof -
  let ?b = "mem_mmap_base c" and ?e = "set_errno 0 e"
  let ?h = "if callnum = 0 then Default_c99 else if callnum = 1 then Default_posix1 else Default_libea"
  have "initial_handlers callnum = Some ?h"
    using assms(1) by (auto simp: initial_handlers_def handler_idx_def)
  then obtain rc e1 where r: "default_code junk K U ?h ?b npc ?e = Some (rc, e1)"
    and n: "(n, e') = (if rc \<noteq> 0 then (rc, set_errno ENOSYS e1) else (0, e1))"
    using assms(3,5) by (auto simp: base_spe_handle_library_callback_def split: Option.bind_splits prod.splits if_splits)
  have w: "load32 (mem ?e) (?b + unat ((npc AND LS_ADDR_MASK) AND NOT 1)) = Some w" using assms(4) by simp
  have "(rc = 0 \<and> 0 < opcode w \<and> opcode w \<le> operations callnum) \<or>
      (rc = 1 \<and> e1 = ?e \<and> (opcode w = 0 \<or> operations callnum < opcode w))"
    using assms(1)
  proof (elim insertE)
    assume "callnum = 0"
    then obtain f e2 where d: "dispatch (default_c99_funcs (behind_files K)) (mem ?e) ?b npc (fst (world ?e), ?e) = Some (rc, f, e2)"
      "e1 = e2\<lparr>world := (f, snd (world e2))\<rparr>"
      using r by (auto simp: base_spe_default_c99_handler_def split: Option.bind_splits prod.splits)
    from c99.outcome [OF d(1) assms(2) w] d(2) \<open>callnum = 0\<close> show ?thesis
      by (auto simp: operations_def)
  next
    assume "callnum = 1"
    with r have d: "dispatch (default_posix1_funcs (behind_files K)) (mem ?e) ?b npc ?e = Some (rc, e1)"
      by (simp add: base_spe_default_posix1_handler_def)
    from posix1.outcome [OF d assms(2) w] \<open>callnum = 1\<close> show ?thesis by (auto simp: operations_def)
  next
    assume "callnum = 5"
    with r have d: "dispatch (default_libea_funcs junk (behind_files K)) (mem ?e) ?b npc ?e = Some (rc, e1)"
      by (simp add: base_spe_default_libea_handler_def)
    from libea.outcome [OF d assms(2) w] \<open>callnum = 5\<close> show ?thesis
      by (auto simp: operations_def default_libea_funcs_def)
  qed simp
  then show ?thesis using n by (auto simp: set_errno_def)
qed


text \<open>A context whose local store is the sample's, and a call word without operation.\<close>

definition sample_ctx :: spe_context where
  "sample_ctx = \<lparr>spe_ptr = 1, priv_ptr = 2, fd_spe_dir = 3, flags = 0, spe_fds_array = (\<lambda>_. -1),
     spe_fds_refcount = (\<lambda>_. 0), ev_pipe = (-1, -1), psmap_mmap_base = MAP_FAILED, mem_mmap_base = 0x100000,
     mfc_mmap_base = 0, mssync_mmap_base = 0, cntl_mmap_base = 0, signal1_mmap_base = 0, signal2_mmap_base = 0,
     entry = 0, loaded_program = None, emulated_entry = 0, active_tagmask = 0\<rparr>"

lemma default_call_served_or_enosys_witness:
  "base_spe_handle_library_callback
      (default_code 0 (const_kernel (reply_ok 0)) (\<lambda>a b n e. None)) initial_handlers sample_ctx 1 0x80
      (start_env (sample_ls ((\<lambda>i. 0)(0x20 := 0x45000100))) (initial_files 7 8 9, ())) =
    Some (1, set_errno ENOSYS (start_env (sample_ls ((\<lambda>i. 0)(0x20 := 0x45000100))) (initial_files 7 8 9, ())))"
proof -
  let ?e = "start_env (sample_ls ((\<lambda>i. 0)(0x20 := 0x45000100))) (initial_files 7 8 9, ())"
  let ?H = "default_code 0 (const_kernel (reply_ok 0)) (\<lambda>a b n e. None)"
  have m: "mem ?e = sample_ls ((\<lambda>i. 0)(0x20 := 0x45000100))" by (simp add: start_env_def)
  have w: "load32 (mem ?e) (0x100000 + unat ((0x80 AND LS_ADDR_MASK) AND NOT (1 :: u32))) = Some 0x45000100"
    by (simp add: m load32_sample)
  then have w': "load32 (mem ?e) (mem_mmap_base sample_ctx + unat ((0x80 AND LS_ADDR_MASK) AND NOT (1 :: u32))) = Some 0x45000100"
    by (simp add: sample_ctx_def)
  have o: "opcode 0x45000100 = 69" by (simp add: opcode_def)
  have b: "mem_mmap_base sample_ctx \<noteq> NULL" "\<not> has_flag (flags sample_ctx) SPE_ISOLATE_EMULATE" "1 \<in> {0, 1, 5 :: nat}"
    by (simp_all add: sample_ctx_def)
  have "dispatch (default_posix1_funcs K) (mem (set_errno 0 ?e)) 0x100000 0x80 (set_errno 0 ?e) = Some (1, set_errno 0 ?e)"
    for K :: "(c99_files \<times> unit) kernel"
    by (rule posix1.refused [of _ _ _ "0x45000100"]) (use w o in simp_all)
  then have r: "base_spe_handle_library_callback ?H initial_handlers sample_ctx 1 0x80 ?e
      = Some (1, set_errno ENOSYS (set_errno 0 ?e))"
    by (simp add: base_spe_handle_library_callback_def initial_handlers_def handler_idx_def
        base_spe_default_posix1_handler_def sample_ctx_def)
  have "\<not> (0 < opcode 0x45000100 \<and> opcode 0x45000100 \<le> operations 1)" by (simp add: o operations_def)
  with default_call_served_or_enosys [OF b(3,1,2) w' r] show ?thesis using r by simp
qed

section \<open>Formatted output\<close>

lemma copy_va_temp_ok:
  "(\<forall>p \<in> set ps. mapped m p 4) \<Longrightarrow> \<exists>m'. copy_va_temp m ps xs = Some m' \<and> dom m' = dom m"
proof (induction m ps xs rule: copy_va_temp.induct)
  case (2 m p ps)
  then obtain m1 where m1: "store32 m p 0 = Some m1" using store32_mapped [of m p 0] by auto
  note d = store32_dom [OF m1]
  have "\<forall>q \<in> set ps. mapped m1 q 4" using 2 mapped_dom [OF d] by simp
  with 2(1) [of m1] d show ?case by (simp add: m1)
next
  case (3 m p ps x xs)
  then obtain m1 where m1: "store32 m p (of_int x) = Some m1" using store32_mapped [of m p "of_int x"] by auto
  note d = store32_dom [OF m1]
  have "\<forall>q \<in> set ps. mapped m1 q 4" using 3 mapped_dom [OF d] by simp
  with 3(1) [of m1] d show ?case by (simp add: m1)
qed simp

text \<open>The temporaries of a format are addresses of the local store.\<close>

definition temps_in_ls :: "addr \<Rightarrow> va_state \<Rightarrow> bool" where
  "temps_in_ls ls v \<longleftrightarrow> (\<forall>p \<in> set (vtemps v). ls \<le> p \<and> p < ls + LS_SIZE)"

lemma puts_temps:
  "temps_in_ls ls v \<Longrightarrow> put_int ls m v = Some v' \<Longrightarrow> temps_in_ls ls v'"
  "temps_in_ls ls v \<Longrightarrow> put_ptr ls m v = Some v' \<Longrightarrow> temps_in_ls ls v'"
  "temps_in_ls ls v \<Longrightarrow> put_temp ls m v = Some v' \<Longrightarrow> temps_in_ls ls v'"
  using GET_LS_PTR_bounds(1) [of ls] GET_LS_PTR_bounds(2) [of ls]
  by (auto simp: temps_in_ls_def put_int_def put_ptr_def put_temp_def get_varg32_def va_put_def
      split: Option.bind_splits)

lemma printf_directive_temps:
  "temps_in_ls ls v \<Longrightarrow> printf_directive ls m p v = Some (q, v') \<Longrightarrow> temps_in_ls ls v'"
proof -
  assume t: "temps_in_ls ls v" and d: "printf_directive ls m p v = Some (q, v')"
  obtain p1 p2 v2 p3 v3 p4 l c where s: "skip_field_width ls m p1 True v = Some (p2, v2)"
    "skip_precision ls m p2 v2 = Some (p3, v3)" "printf_conversion ls m c l v3 = Some v'"
    using d by (auto simp: printf_directive_def split: Option.bind_splits prod.splits)
  have "temps_in_ls ls v2" using s(1) t
    by (auto simp: skip_field_width_def split: Option.bind_splits if_splits dest: puts_temps)
  then have "temps_in_ls ls v3" using s(2)
    by (auto simp: skip_precision_def split: Option.bind_splits if_splits dest: puts_temps)
  then show ?thesis using s(3)
    by (auto simp: printf_conversion_def get_varg32_def get_varg64_def va_put_def temps_in_ls_def
        split: Option.bind_splits if_splits dest: puts_temps [unfolded temps_in_ls_def])
qed

lemma parse_printf_temps:
  "temps_in_ls ls v \<Longrightarrow> parse_printf_format ls m p v n = Some v' \<Longrightarrow> temps_in_ls ls v'"
proof (induction n arbitrary: p v)
  case (Suc n)
  from Suc.prems(2) consider "v' = v"
    | q p1 v1 where "printf_directive ls m (Suc q) v = Some (p1, v1)" "parse_printf_format ls m (Suc p1) v1 n = Some v'"
    by (auto split: Option.bind_splits if_splits option.splits)
  then show ?case
  proof cases
    case 2
    then show ?thesis using Suc.IH printf_directive_temps [OF Suc.prems(1)] by blast
  qed (use Suc.prems in simp)
qed simp


text \<open>
  The format \<open>%ld%ln\<close> with an argument list at \<open>0x400\<close>: the number -5 and the address \<open>0x500\<close>; the library
  counts 9 characters.
\<close>

definition counting_kernel :: "unit kernel" where
  "counting_kernel q s = ((reply_ok 5)\<lparr>rvals := [9]\<rparr>, s)"

definition sample_print :: "nat \<Rightarrow> u32" where
  "sample_print = (\<lambda>i. 0)(0x44 := 0x400, 0x48 := 0x1000, 0xC0 := 0x256C6425, 0xC1 := 0x6C6E0000, 0x100 := 0xFFFFFFFB, 0x104 := 0x500)"

lemma sample_format:
  "cstring (sample_ls sample_print) 0x100300 [0x25, 0x6C, 0x64, 0x25, 0x6C, 0x6E]"
  "complete [0x25, 0x6C, 0x64, 0x25, 0x6C, 0x6E]"
  "format_kinds [0x25, 0x6C, 0x64, 0x25, 0x6C, 0x6E] = [Ksigned, Ktemp]"
  by (simp_all add: sample_byte bytes_of_word_def sample_print_def complete.simps format_kinds.simps directive_kinds_def
      printf_rest_def printf_flag_def isdigit_def length_modifier_def word_le_nat_alt width_kinds_def precision_kinds_def
      conversion_kinds_def modifier_length_def is_int_conv_def is_signed_conv_def is_float_conv_def)


end
