(* ===== verification/Linked_Lists.thy ===== *)
theory Linked_Lists
  imports Spe_Prelude
begin

text \<open>
  Linked lists in memory: nodes at addresses, of which a partial function gives the pointer to
  the next node. \<open>chain f p ns\<close> says that the pointers from \<open>p\<close> visit the nodes \<open>ns\<close> and end
  with \<open>NULL\<close>; a freed node is outside the domain.
\<close>

fun chain :: "(addr \<rightharpoonup> addr) \<Rightarrow> addr \<Rightarrow> addr list \<Rightarrow> bool" where
  "chain f p [] \<longleftrightarrow> p = NULL"
| "chain f p (a # as) \<longleftrightarrow> a = p \<and> p \<noteq> NULL \<and> (\<exists>q. f p = Some q \<and> chain f q as)"

lemma chain_NULL [simp]: "chain f NULL ns \<longleftrightarrow> ns = []"
  by (cases ns) auto

lemma chain_dom: "chain f p ns \<Longrightarrow> set ns \<subseteq> dom f"
  by (induction ns arbitrary: p) auto

lemma chain_unique: "chain f p ns \<Longrightarrow> chain f p ns' \<Longrightarrow> ns = ns'"
proof (induction ns arbitrary: p ns')
  case (Cons a ns)
  then show ?case by (cases ns') auto
qed simp

lemma chain_upd [simp]: "a \<notin> set ns \<Longrightarrow> chain (f(a := y)) p ns \<longleftrightarrow> chain f p ns"
  by (induction ns arbitrary: p) auto

lemma chain_cong: "(\<And>a. a \<in> set ns \<Longrightarrow> f a = g a) \<Longrightarrow> chain f p ns \<longleftrightarrow> chain g p ns"
  by (induction ns arbitrary: p) auto

lemma chain_split: "chain f p (as @ b # bs) \<Longrightarrow> chain f b (b # bs)"
  by (induction as arbitrary: p) auto

lemma chain_distinct: "chain f p ns \<Longrightarrow> distinct ns"
proof (induction ns arbitrary: p)
  case (Cons a ns)
  then obtain q where q: "a = p" "f p = Some q" "chain f q ns" by auto
  have "p \<notin> set ns"
  proof
    assume "p \<in> set ns"
    then obtain as bs where ns: "ns = as @ p # bs" by (meson split_list)
    then have "chain f p (p # bs)" using chain_split q(3) by blast
    moreover have "chain f p (p # ns)" using Cons.prems q(1) by simp
    ultimately have "p # bs = p # ns" by (rule chain_unique)
    then show False using ns by simp
  qed
  then show ?case using Cons.IH q by simp
qed simp

lemma chain_not_NULL: "chain f p ns \<Longrightarrow> NULL \<notin> set ns"
  by (induction ns arbitrary: p) auto

text \<open>A new node in front.\<close>

lemma chain_push: "chain f p ns \<Longrightarrow> a \<notin> set ns \<Longrightarrow> a \<noteq> NULL \<Longrightarrow> chain (f(a \<mapsto> p)) a (a # ns)"
  by simp

text \<open>Taking out the node after \<open>a\<close>: \<open>a\<close> points past it, and it is freed.\<close>

lemma chain_unlink:
  assumes "chain f p (as @ a # b # bs)" "f b = Some q"
  shows "chain (f(a \<mapsto> q, b := None)) p (as @ a # bs)"
  using assms
proof (induction as arbitrary: p)
  case Nil
  have d: "distinct (a # b # bs)" using chain_distinct [OF Nil.prems(1)] by simp
  then have "chain (f(a \<mapsto> q, b := None)) q bs \<longleftrightarrow> chain f q bs" by (intro chain_cong) auto
  moreover have "chain f q bs" using Nil by simp
  moreover have "(f(a \<mapsto> q, b := None)) a = Some q" using d by simp
  ultimately show ?case using Nil by (simp only: chain.simps append_Nil) blast
next
  case (Cons x as)
  have "distinct (x # as @ a # b # bs)" using chain_distinct [OF Cons.prems(1)] by simp
  then show ?case using Cons by auto
qed

text \<open>Taking out the first node.\<close>

lemma chain_pop: "chain f p (a # ns) \<Longrightarrow> f a = Some q \<Longrightarrow> chain (f(a := None)) q ns"
  using chain_distinct [of f p "a # ns"] by auto

end
