(* ===== verification/Thread_Groups.thy ===== *)
theory Thread_Groups
  imports Libspe2 Linked_Lists
begin

unbundle bit_operations_syntax

text \<open>
  The data of the libspe 1.2 layer (\<open>libspe12/spe.h\<close>) and the first part of
  \<open>libspe12/spethreads.c\<close>: groups of SPE threads. The groups form a linked list, and every group
  holds a linked list of its members; both are kept in an explicit store, one partial function
  from addresses per type of block, so that a freed block is one outside the domain. A pointer is
  followed only after its look-up: a \<open>NULL\<close> pointer or a freed block has no result (\<open>None\<close>), nor
  has a walk over a list that does not end.
\<close>

section \<open>Data\<close>

text \<open>
  \<open>struct thread_store\<close>. The fields \<open>policy\<close>, \<open>priority\<close>, \<open>affinity_mask\<close>, \<open>spe_flags\<close> and \<open>ev_pipe\<close>, which
  no code uses, are left out; the mutex and the condition variable are named by the thread in the
  requests. The flags the code tests for zero are \<open>bool\<close>. The context \<open>*spectx\<close> belongs to the
  thread alone and is kept in its place.
\<close>

record thread_store =
  ts_handle :: "spe_program_handle option"
  ts_pthread :: int
  ts_npc :: u32
  ret_status :: int
  ts_event :: u32
  group_id :: addr
  ts_mask :: u64
  ts_flags :: u32
  ts_ev_data :: u64
  event_pending :: bool
  killed :: bool
  ts_stop :: bool
  thread_status :: int
  spectx :: "spe_context option"
  ts_argp :: addr
  ts_envp :: addr
  app_data :: addr

text \<open>A block from \<open>calloc\<close>.\<close>

definition zero_thread :: thread_store where
  "zero_thread = \<lparr>ts_handle = None, ts_pthread = 0, ts_npc = 0, ret_status = 0, ts_event = 0,
     group_id = NULL, ts_mask = 0, ts_flags = 0, ts_ev_data = 0, event_pending = False,
     killed = False, ts_stop = False, thread_status = 0, spectx = None, ts_argp = NULL,
     ts_envp = NULL, app_data = NULL\<rparr>"

record grpListElem =
  el_next :: addr
  el_thread :: addr

record group_store =
  policy :: int
  priority :: int
  use_events :: bool
  grp_members :: addr
  numListSize :: int
  deleteMe :: bool

record grpsElem =
  gp_next :: addr
  gp_group :: addr

text \<open>
  The blocks of the layer with its global variables: \<open>grp_list\<close>, the defaults for new groups, the
  values \<open>env_check\<close> reads from the environment; and the globals of \<open>spebase\<close> it passes on.
\<close>

record libspe12 =
  list_start :: addr
  list_count :: int
  grps :: "addr \<rightharpoonup> grpsElem"
  elems :: "addr \<rightharpoonup> grpListElem"
  groups :: "addr \<rightharpoonup> group_store"
  threads :: "addr \<rightharpoonup> thread_store"
  default_policy :: int
  default_priority :: int
  default_eventmask :: bool
  check_env :: bool
  env_spu_debug_start :: int
  env_spu_info :: int
  isolated_loader :: loader_cache
  callback_table :: handlers

abbreviation (input) SCHED_OTHER :: int where "SCHED_OTHER \<equiv> 0"
abbreviation (input) SCHED_FIFO :: int where "SCHED_FIFO \<equiv> 1"
abbreviation (input) SCHED_RR :: int where "SCHED_RR \<equiv> 2"
abbreviation (input) MAX_THREADS_PER_GROUP :: int where "MAX_THREADS_PER_GROUP \<equiv> 16"
abbreviation (input) SPE_DEF_GRP :: addr where "SPE_DEF_GRP \<equiv> NULL"

text \<open>Sizes of the blocks in a 64-bit process.\<close>

abbreviation (input) SIZEOF_LIST_ELEM :: nat where "SIZEOF_LIST_ELEM \<equiv> 16"
abbreviation (input) SIZEOF_GROUP_STORE :: nat where "SIZEOF_GROUP_STORE \<equiv> 32"
abbreviation (input) SIZEOF_THREAD_STORE :: nat where "SIZEOF_THREAD_STORE \<equiv> 240"

text \<open>The initial values of the globals.\<close>

definition libspe12_start :: libspe12 where
  "libspe12_start = \<lparr>list_start = NULL, list_count = 0, grps = Map.empty, elems = Map.empty,
     groups = Map.empty, threads = Map.empty, default_policy = SCHED_OTHER, default_priority = 0,
     default_eventmask = False, check_env = True, env_spu_debug_start = 0, env_spu_info = 0,
     isolated_loader = None, callback_table = initial_handlers\<rparr>"

definition lock_groups :: "'w env \<Rightarrow> 'w env" where
  "lock_groups e = emit (Lock GroupLock) e"

definition unlock_groups :: "'w env \<Rightarrow> 'w env" where
  "unlock_groups e = emit (Unlock GroupLock) e"

text \<open>Stores through a pointer whose block has been looked up.\<close>

definition upd_group :: "addr \<Rightarrow> (group_store \<Rightarrow> group_store) \<Rightarrow> libspe12 \<Rightarrow> libspe12 option" where
  "upd_group g f s = do { x \<leftarrow> groups s g; Some (s\<lparr>groups := (groups s)(g \<mapsto> f x)\<rparr>) }"

definition upd_thread :: "addr \<Rightarrow> (thread_store \<Rightarrow> thread_store) \<Rightarrow> libspe12 \<Rightarrow> libspe12 option" where
  "upd_thread t f s = do { x \<leftarrow> threads s t; Some (s\<lparr>threads := (threads s)(t \<mapsto> f x)\<rparr>) }"

section \<open>The lists\<close>

definition add_group_to_groups ::
  "'w kernel \<Rightarrow> addr \<Rightarrow> libspe12 \<Rightarrow> 'w env \<Rightarrow> int \<times> libspe12 \<times> 'w env" where
  "add_group_to_groups K gid s e =
     (let (p, e1) = sys_rv K (Malloc SIZEOF_LIST_ELEM) e in
      if p \<le> 0 then (- ENOMEM, s, set_errno ENOMEM e1)
      else
        let e2 = lock_groups e1;
            s1 = s\<lparr>grps := (grps s)(nat p \<mapsto> \<lparr>gp_next = list_start s, gp_group = gid\<rparr>),
                   list_start := nat p, list_count := list_count s + 1\<rparr>
        in (0, s1, unlock_groups e2))"

definition add_thread_to_group ::
  "'w kernel \<Rightarrow> addr \<Rightarrow> addr \<Rightarrow> libspe12 \<Rightarrow> 'w env \<Rightarrow> (int \<times> libspe12 \<times> 'w env) option" where
  "add_thread_to_group K gid thread s e =
     (case sys_rv K (Malloc SIZEOF_LIST_ELEM) e of (p, e1) \<Rightarrow>
        if p \<le> 0 then Some (- ENOMEM, s, set_errno ENOMEM e1)
        else do {
          g \<leftarrow> groups s gid;
          let s1 = s\<lparr>elems := (elems s)(nat p \<mapsto> \<lparr>el_next = grp_members g, el_thread = thread\<rparr>)\<rparr>;
          s2 \<leftarrow> upd_group gid (\<lambda>g. g\<lparr>grp_members := nat p, numListSize := numListSize g + 1\<rparr>) s1;
          Some (0, s2, unlock_groups (lock_groups e1)) })"

text \<open>The loop of \<open>remove_group_from_groups\<close>, under the lock: \<open>gp\<close> is the element, \<open>lgp\<close> the one before.\<close>

partial_function (option) remove_group_loop ::
  "'w kernel \<Rightarrow> addr \<Rightarrow> addr \<Rightarrow> addr \<Rightarrow> libspe12 \<Rightarrow> 'w env \<Rightarrow> (int \<times> libspe12 \<times> 'w env) option"
where
  [code]: "remove_group_loop K gid lgp gp s e =
     (if gp = NULL then Some (1, s, e)
      else do {
        x \<leftarrow> grps s gp;
        if gp_group x = gid then do {
          g \<leftarrow> groups s (gp_group x);
          if numListSize g = 0 then do {
            s1 \<leftarrow> (if lgp = NULL then Some (s\<lparr>list_start := gp_next x\<rparr>)
                   else do {
                     l \<leftarrow> grps s lgp;
                     Some (s\<lparr>grps := (grps s)(lgp \<mapsto> l\<lparr>gp_next := gp_next x\<rparr>)\<rparr>) });
            Some (0, s1\<lparr>grps := (grps s1)(gp := None)\<rparr>, snd (sys_rv K (Free gp) e)) }
          else Some (0, s, e) }
        else remove_group_loop K gid gp (gp_next x) s e })"

definition remove_group_from_groups ::
  "'w kernel \<Rightarrow> addr \<Rightarrow> libspe12 \<Rightarrow> 'w env \<Rightarrow> (int \<times> libspe12 \<times> 'w env) option" where
  "remove_group_from_groups K gid s e = do {
     (rc, s1, e1) \<leftarrow> remove_group_loop K gid NULL (list_start s) s (lock_groups e);
     Some (rc, s1, unlock_groups e1) }"

text \<open>
  The loop of \<open>remove_thread_from_group\<close>: it compares the element after \<open>p\<close>, so the first element
  of a longer list is never compared.
\<close>

partial_function (option) remove_thread_loop ::
  "'w kernel \<Rightarrow> addr \<Rightarrow> addr \<Rightarrow> addr \<Rightarrow> libspe12 \<Rightarrow> 'w env \<Rightarrow> (int \<times> libspe12 \<times> 'w env) option"
where
  [code]: "remove_thread_loop K gid thread p s e = do {
     x \<leftarrow> elems s p;
     if el_next x = NULL then Some (- ESRCH, s, set_errno ESRCH (unlock_groups e))
     else do {
       let np = el_next x;
       y \<leftarrow> elems s np;
       if el_thread y = thread then do {
         let s1 = s\<lparr>elems := (elems s)(p \<mapsto> x\<lparr>el_next := el_next y\<rparr>)\<rparr>;
         s2 \<leftarrow> upd_group gid (\<lambda>g. g\<lparr>numListSize := numListSize g - 1\<rparr>) s1;
         Some (0, s2\<lparr>elems := (elems s2)(np := None)\<rparr>, unlock_groups (snd (sys_rv K (Free np) e))) }
       else remove_thread_loop K gid thread np s e } }"

definition remove_thread_from_group ::
  "'w kernel \<Rightarrow> addr \<Rightarrow> addr \<Rightarrow> libspe12 \<Rightarrow> 'w env \<Rightarrow> (int \<times> libspe12 \<times> 'w env) option" where
  "remove_thread_from_group K gid thread s e = do {
     g \<leftarrow> groups s gid;
     let e1 = lock_groups e;
     if numListSize g = 1 then do {
       let p = grp_members g;
       s1 \<leftarrow> upd_group gid (\<lambda>g. g\<lparr>numListSize := numListSize g - 1\<rparr>) s;
       let e2 = snd (sys_rv K (Free p) e1);
       s2 \<leftarrow> upd_group gid (\<lambda>g. g\<lparr>grp_members := NULL\<rparr>) (s1\<lparr>elems := (elems s1)(p := None)\<rparr>);
       let e3 = unlock_groups e2;
       if deleteMe g then do {
         (_, s3, e4) \<leftarrow> remove_group_from_groups K gid s2 e3;
         Some (0, s3, e4) }
       else Some (0, s2, e3) }
     else remove_thread_loop K gid thread (grp_members g) s e1 }"

partial_function (option) find_member :: "libspe12 \<Rightarrow> addr \<Rightarrow> addr \<Rightarrow> bool option" where
  [code]: "find_member s thread p =
     (if p = NULL then Some False
      else do {
        x \<leftarrow> elems s p;
        if el_thread x = thread then Some True else find_member s thread (el_next x) })"

partial_function (option) find_thread :: "libspe12 \<Rightarrow> addr \<Rightarrow> addr \<Rightarrow> bool option" where
  [code]: "find_thread s thread gp =
     (if gp = NULL then Some False
      else do {
        x \<leftarrow> grps s gp;
        g \<leftarrow> groups s (gp_group x);
        found \<leftarrow> find_member s thread (grp_members g);
        if found then Some True else find_thread s thread (gp_next x) })"

partial_function (option) find_group :: "libspe12 \<Rightarrow> addr \<Rightarrow> addr \<Rightarrow> bool option" where
  [code]: "find_group s grp gp =
     (if gp = NULL then Some False
      else do {
        x \<leftarrow> grps s gp;
        if gp_group x = grp then Some True else find_group s grp (gp_next x) })"

text \<open>The two searches return the pointer they were given, or \<open>NULL\<close>: here, whether it was found.\<close>

definition srch_thread :: "addr \<Rightarrow> libspe12 \<Rightarrow> 'w env \<Rightarrow> (bool \<times> 'w env) option" where
  "srch_thread thread s e = do {
     found \<leftarrow> find_thread s thread (list_start s);
     let e1 = unlock_groups (lock_groups e);
     Some (found, if found then e1 else set_errno ESRCH e1) }"

definition srch_group :: "addr \<Rightarrow> libspe12 \<Rightarrow> 'w env \<Rightarrow> (bool \<times> 'w env) option" where
  "srch_group grp s e = do {
     found \<leftarrow> find_group s grp (list_start s);
     let e1 = unlock_groups (lock_groups e);
     Some (found, if found then e1 else set_errno ESRCH e1) }"

section \<open>Groups\<close>

definition spe_gid_setup ::
  "'w kernel \<Rightarrow> int \<Rightarrow> int \<Rightarrow> bool \<Rightarrow> libspe12 \<Rightarrow> 'w env \<Rightarrow> addr \<times> libspe12 \<times> 'w env" where
  "spe_gid_setup K pol prio use_ev s e =
     (let (p, e1) = sys_rv K (Malloc SIZEOF_GROUP_STORE) e in
      if p \<le> 0 then (NULL, s, set_errno ENOMEM e1)
      else
        let g = \<lparr>policy = pol, priority = prio, use_events = use_ev, grp_members = NULL,
                 numListSize = 0, deleteMe = False\<rparr>;
            (_, s1, e2) = add_group_to_groups K (nat p) (s\<lparr>groups := (groups s)(nat p \<mapsto> g)\<rparr>) e1
        in (nat p, s1, e2))"

definition check_priority :: "int \<Rightarrow> int \<Rightarrow> bool" where
  "check_priority pol prio =
     (if pol = SCHED_RR then \<not> (1 > prio \<or> prio > 99)
      else if pol = SCHED_FIFO then \<not> (1 > prio \<or> prio > 99)
      else if pol = SCHED_OTHER then \<not> (0 > prio \<or> prio > 40)
      else True)"

definition spe_create_group ::
  "'w kernel \<Rightarrow> int \<Rightarrow> int \<Rightarrow> bool \<Rightarrow> libspe12 \<Rightarrow> 'w env \<Rightarrow> addr \<times> libspe12 \<times> 'w env" where
  "spe_create_group K pol prio use_ev s e =
     (if \<not> check_priority pol prio then (NULL, s, set_errno EINVAL e)
      else spe_gid_setup K pol prio use_ev s e)"

text \<open>
  The check of a group most calls begin with: \<open>NULL\<close> is not looked up. Whether the call goes on, and
  the environment; a failed look-up has set \<open>errno\<close> already, and the calls set it again.
\<close>

definition group_known :: "addr \<Rightarrow> libspe12 \<Rightarrow> 'w env \<Rightarrow> (bool \<times> 'w env) option" where
  "group_known gid s e =
     (if gid \<noteq> NULL then do {
        (found, e1) \<leftarrow> srch_group gid s e;
        Some (found, if found then e1 else set_errno ESRCH e1) }
      else Some (True, e))"

definition spe_destroy_group ::
  "'w kernel \<Rightarrow> addr \<Rightarrow> libspe12 \<Rightarrow> 'w env \<Rightarrow> (int \<times> libspe12 \<times> 'w env) option" where
  "spe_destroy_group K gid s e = do {
     (known, e1) \<leftarrow> group_known gid s e;
     if \<not> known then Some (-1, s, e1)
     else do {
       s1 \<leftarrow> upd_group gid (\<lambda>g. g\<lparr>deleteMe := True\<rparr>) s;
       (_, s2, e2) \<leftarrow> remove_group_from_groups K gid s1 e1;
       Some (0, s2, e2) } }"

text \<open>The entries of the directory are counted from -2, for \<open>.\<close> and \<open>..\<close>.\<close>

definition spe_group_max :: "'w kernel \<Rightarrow> addr \<Rightarrow> libspe12 \<Rightarrow> 'w env \<Rightarrow> (int \<times> 'w env) option" where
  "spe_group_max K gid s e = do {
     (known, e1) \<leftarrow> group_known gid s e;
     if \<not> known then Some (-1, e1)
     else case sys_rv K (Opendir ''/sys/devices/system/spu'') e1 of (dirp, e2) \<Rightarrow>
       if dirp = 0 then Some (MAX_THREADS_PER_GROUP, e2)
       else do {
         (ret, e3) \<leftarrow> count_entries K (\<lambda>_. True) (-2) e2;
         Some (ret, snd (sys_rv K Closedir e3)) } }"

definition spe_count_physical_spes :: "'w kernel \<Rightarrow> 'w env \<Rightarrow> (int \<times> 'w env) option" where
  "spe_count_physical_spes K e = base_spe_cpu_info_get K SPE_COUNT_PHYSICAL_SPES (-1) e"

text \<open>\<open>elem\<close> walks the members while the array is filled, \<open>n\<close> elements.\<close>

fun member_array :: "libspe12 \<Rightarrow> addr \<Rightarrow> nat \<Rightarrow> addr list option" where
  "member_array s p 0 = Some []"
| "member_array s p (Suc n) = do {
     x \<leftarrow> elems s p;
     ids \<leftarrow> member_array s (el_next x) n;
     Some (el_thread x # ids) }"

text \<open>\<open>spe_ids\<close>: the array is not \<open>NULL\<close>; what is stored in it is the second result.\<close>

definition spe_get_threads ::
  "addr \<Rightarrow> bool \<Rightarrow> libspe12 \<Rightarrow> 'w env \<Rightarrow> (int \<times> addr list \<times> 'w env) option" where
  "spe_get_threads gid spe_ids s e = do {
     (known, e1) \<leftarrow> group_known gid s e;
     if \<not> known then Some (-1, [], e1)
     else do {
       g \<leftarrow> groups s gid;
       if \<not> spe_ids then Some (numListSize g, [], e1)
       else do {
         ids \<leftarrow> member_array s (grp_members g) (nat (numListSize g));
         Some (int (length ids), ids, e1) } } }"

definition spe_get_priority :: "addr \<Rightarrow> libspe12 \<Rightarrow> 'w env \<Rightarrow> (int \<times> 'w env) option" where
  "spe_get_priority gid s e = do {
     (known, e1) \<leftarrow> group_known gid s e;
     if \<not> known then Some (-1, e1)
     else do { g \<leftarrow> groups s gid; Some (priority g, e1) } }"

text \<open>The policy of the group is read before the group is looked up.\<close>

definition spe_set_priority ::
  "addr \<Rightarrow> int \<Rightarrow> libspe12 \<Rightarrow> 'w env \<Rightarrow> (int \<times> libspe12 \<times> 'w env) option" where
  "spe_set_priority gid prio s e = do {
     g \<leftarrow> groups s gid;
     if \<not> check_priority (policy g) prio then Some (-1, s, set_errno EINVAL e)
     else do {
       (known, e1) \<leftarrow> group_known gid s e;
       if \<not> known then Some (-1, s, e1)
       else do {
         s1 \<leftarrow> upd_group gid (\<lambda>g. g\<lparr>priority := prio\<rparr>) s;
         Some (0, s1, e1) } } }"

definition spe_get_policy :: "addr \<Rightarrow> libspe12 \<Rightarrow> 'w env \<Rightarrow> (int \<times> 'w env) option" where
  "spe_get_policy gid s e = do {
     (known, e1) \<leftarrow> group_known gid s e;
     if \<not> known then Some (-1, e1)
     else do { g \<leftarrow> groups s gid; Some (policy g, e1) } }"

definition spe_group_defaults ::
  "int \<Rightarrow> int \<Rightarrow> bool \<Rightarrow> libspe12 \<Rightarrow> 'w env \<Rightarrow> int \<times> libspe12 \<times> 'w env" where
  "spe_group_defaults pol prio spe_events s e =
     (if \<not> check_priority pol prio then (-1, s, set_errno EINVAL e)
      else (0, s\<lparr>default_policy := pol, default_priority := prio, default_eventmask := spe_events\<rparr>, e))"

section \<open>Data of a thread\<close>

definition spe_get_group :: "addr \<Rightarrow> libspe12 \<Rightarrow> 'w env \<Rightarrow> (addr \<times> 'w env) option" where
  "spe_get_group speid s e = do {
     (found, e1) \<leftarrow> srch_thread speid s e;
     if \<not> found then Some (NULL, e1)
     else do { t \<leftarrow> threads s speid; Some (group_id t, e1) } }"

text \<open>The affinity calls only print that they are not implemented.\<close>

definition spe_get_affinity :: "addr \<Rightarrow> libspe12 \<Rightarrow> 'w env \<Rightarrow> (int \<times> 'w env) option" where
  "spe_get_affinity speid s e = do {
     (found, e1) \<leftarrow> srch_thread speid s e;
     Some (if \<not> found then -1 else 0, e1) }"

definition spe_set_affinity :: "addr \<Rightarrow> u64 \<Rightarrow> libspe12 \<Rightarrow> 'w env \<Rightarrow> (int \<times> 'w env) option" where
  "spe_set_affinity speid msk s e = do {
     (found, e1) \<leftarrow> srch_thread speid s e;
     Some (if \<not> found then -1 else 0, e1) }"

definition spe_set_app_data ::
  "addr \<Rightarrow> addr \<Rightarrow> libspe12 \<Rightarrow> 'w env \<Rightarrow> (int \<times> libspe12 \<times> 'w env) option" where
  "spe_set_app_data speid data s e = do {
     (found, e1) \<leftarrow> srch_thread speid s e;
     if \<not> found then Some (-1, s, e1)
     else do {
       s1 \<leftarrow> upd_thread speid (\<lambda>t. t\<lparr>app_data := data\<rparr>) s;
       Some (0, s1, e1) } }"

text \<open>The second result is what is stored through \<open>p_data\<close>.\<close>

definition spe_get_app_data ::
  "addr \<Rightarrow> libspe12 \<Rightarrow> 'w env \<Rightarrow> (int \<times> addr option \<times> 'w env) option" where
  "spe_get_app_data speid s e = do {
     (found, e1) \<leftarrow> srch_thread speid s e;
     if \<not> found then Some (-1, None, e1)
     else do { t \<leftarrow> threads s speid; Some (0, Some (app_data t), e1) } }"

end
