(* ===== verification/Spe_Threads.thy ===== *)
theory Spe_Threads
  imports Thread_Groups
begin

unbundle bit_operations_syntax

text \<open>
  SPE threads (\<open>libspe12/spe.c\<close>, \<open>libspe12/spethreads.c\<close>): creating one, waiting for it and sending it
  control signals, and \<open>do_spe_run\<close>, which the POSIX thread of every SPE thread executes. Since the
  two sides share the thread store, \<open>do_spe_run\<close> is a machine whose steps end where the code may wait
  or meet another thread; a critical section is within one step.
\<close>

section \<open>The environment variables\<close>

definition is_space :: "char \<Rightarrow> bool" where
  "is_space c \<longleftrightarrow> (of_char c :: nat) = 32 \<or> 9 \<le> (of_char c :: nat) \<and> (of_char c :: nat) \<le> 13"

definition strtol_digit :: "char \<Rightarrow> nat" where
  "strtol_digit c =
     (let n = of_char c in
      if 48 \<le> n \<and> n \<le> 57 then n - 48
      else if 97 \<le> n \<and> n \<le> 122 then n - 87
      else if 65 \<le> n \<and> n \<le> 90 then n - 55
      else 36)"

fun strtol_digits :: "nat \<Rightarrow> nat \<Rightarrow> string \<Rightarrow> nat" where
  "strtol_digits b acc [] = acc"
| "strtol_digits b acc (c # cs) =
     (if strtol_digit c < b then strtol_digits b (acc * b + strtol_digit c) cs else acc)"

text \<open>\<open>strtol (s, NULL, 0)\<close>: the base is told by the prefix, the result is kept within a \<open>long\<close>.\<close>

definition strtol_0 :: "string \<Rightarrow> int" where
  "strtol_0 str =
     (let s1 = dropWhile is_space str;
          neg = (s1 \<noteq> [] \<and> hd s1 = CHR ''-'');
          s2 = (if s1 \<noteq> [] \<and> (hd s1 = CHR ''-'' \<or> hd s1 = CHR ''+'') then tl s1 else s1);
          hex = (case s2 of z # x # d # _ \<Rightarrow>
                   z = CHR ''0'' \<and> (x = CHR ''x'' \<or> x = CHR ''X'') \<and> strtol_digit d < 16 | _ \<Rightarrow> False);
          n = (if hex then strtol_digits 16 0 (drop 2 s2)
               else if s2 \<noteq> [] \<and> hd s2 = CHR ''0'' then strtol_digits 8 0 s2
               else strtol_digits 10 0 s2);
          v = (if neg then - int n else int n)
      in max (- (2 ^ 63)) (min (2 ^ 63 - 1) v))"

text \<open>The \<open>long\<close> is stored in an \<open>int\<close>.\<close>

definition env_int :: "'w kernel \<Rightarrow> string \<Rightarrow> int \<Rightarrow> 'w env \<Rightarrow> int \<times> 'w env" where
  "env_int K name old e =
     (let (r, e1) = sys K (Getenv name) e in
      if rv r = 0 then (old, e1)
      else
        let (r2, e2) = sys K (Getenv name) e1
        in (sint (word_of_int (strtol_0 (rname r2)) :: u32), e2))"

definition env_check :: "'w kernel \<Rightarrow> libspe12 \<Rightarrow> 'w env \<Rightarrow> libspe12 \<times> 'w env" where
  "env_check K s e =
     (let (d, e1) = env_int K ''SPU_DEBUG_START'' (env_spu_debug_start s) e;
          (i, e2) = env_int K ''SPU_INFO'' (env_spu_info s) e1
      in (s\<lparr>env_spu_debug_start := d, env_spu_info := i, check_env := False\<rparr>, e2))"

section \<open>Creating a thread\<close>

abbreviation (input) SPE_USER_REGS :: u32 where "SPE_USER_REGS \<equiv> 2"

definition write_object_id :: "'w kernel \<Rightarrow> int \<Rightarrow> spe_program_handle \<Rightarrow> 'w env \<Rightarrow> 'w env" where
  "write_object_id K dir handle e =
     (let (sigfd, e1) = sys_rv K (Openat dir ''object-id'' (O_RDWR + 64)) e in
      if sigfd \<ge> 0 then
        let buf = (if elf_image handle = NULL then ''(nil)'' else ptr_string (elf_image handle));
            (_, e2) = sys_rv K (Write sigfd (c_bytes buf)) e1
        in snd (sys_rv K (Close sigfd) e2)
      else e1)"

text \<open>The part of \<open>spe_setup\<close> from the new context \<open>c\<close> on; \<open>t\<close> is the thread store, \<open>T\<close> its contents.\<close>

definition setup_program ::
  "'w kernel \<Rightarrow> nat \<Rightarrow> u64 \<Rightarrow> u32 \<Rightarrow> addr \<Rightarrow> thread_store \<Rightarrow> spe_context \<Rightarrow> spe_program_handle \<Rightarrow>
   libspe12 \<Rightarrow> 'w env \<Rightarrow> (addr \<times> libspe12 \<times> 'w env) option"
where
  "setup_program K ptr_bytes ps junk t T c handle s e = do {
     (rc, c1, cache, e1) \<leftarrow> base_spe_program_load K ptr_bytes ps junk c handle (isolated_loader s) e;
     let s1 = s\<lparr>threads := (threads s)(t \<mapsto> T\<lparr>spectx := Some c1\<rparr>), isolated_loader := cache\<rparr>;
     if rc \<noteq> 0 then Some (NULL, s1, e1)
     else do {
       let (r, e2) = sys K Pipe e1;
       let c2 = c1\<lparr>ev_pipe := (if rv r \<noteq> 0 then (-1, -1) else pipe_fds r)\<rparr>;
       let s2 = s1\<lparr>threads := (threads s1)(t \<mapsto> T\<lparr>spectx := Some c2\<rparr>)\<rparr>;
       (_, s3, e3) \<leftarrow> add_thread_to_group K (group_id T) t s2 e2;
       let e4 = write_object_id K (base_spe_spe_dir_get c2) handle e3;
       s4 \<leftarrow> upd_thread t (\<lambda>T. T\<lparr>ts_stop := False\<rparr>) s3;
       Some (t, s4, e4) } }"

text \<open>
  \<open>junkc\<close> and \<open>junk\<close> are the uninitialised contents of the context's block and of the loader's local
  variable. A failure leaves the thread store and the context allocated.
\<close>

definition spe_setup ::
  "'w kernel \<Rightarrow> nat \<Rightarrow> u64 \<Rightarrow> spe_context \<Rightarrow> u32 \<Rightarrow> addr \<Rightarrow> spe_program_handle \<Rightarrow> addr \<Rightarrow> addr \<Rightarrow> u32 \<Rightarrow>
   libspe12 \<Rightarrow> 'w env \<Rightarrow> (addr \<times> libspe12 \<times> 'w env) option"
where
  "spe_setup K ptr_bytes ps junkc junk gid handle argp envp fl s e = do {
     (full, gid1, s1, e1) \<leftarrow>
       (if gid = NULL then
          (case spe_gid_setup K (default_policy s) (default_priority s) (default_eventmask s) s e of
             (g, s1, e1) \<Rightarrow> Some (False, g, s1, e1))
        else do {
          g \<leftarrow> groups s gid;
          Some (numListSize g = MAX_THREADS_PER_GROUP, gid, s, e) });
     if full then Some (NULL, s1, set_errno ENOMEM e1)
     else case sys_rv K (Malloc SIZEOF_THREAD_STORE) e1 of (t, e2) \<Rightarrow>
       if t \<le> 0 then Some (NULL, s1, set_errno ENOMEM e2)
       else do {
         let fl1 = SPE_EVENTS_ENABLE OR fl;
         let T = zero_thread\<lparr>group_id := gid1, ts_flags := fl1, ts_argp := argp, ts_envp := envp\<rparr>;
         (c, cache, e3) \<leftarrow>
           base_spe_context_create K ptr_bytes ps junkc fl1 None None (isolated_loader s1) e2;
         let s2 = s1\<lparr>threads := (threads s1)(nat t \<mapsto> T\<lparr>spectx := c\<rparr>), isolated_loader := cache\<rparr>;
         (case c of
            None \<Rightarrow> Some (NULL, s2, e3)
          | Some c1 \<Rightarrow> setup_program K ptr_bytes ps junk (nat t) T c1 handle s2 e3) } }"

text \<open>
  The affinity mask is checked against the number of SPEs; the shift is undefined for a count that
  does not fit an \<open>int\<close>. A thread the system refuses to start stays in its group.
\<close>

definition mask_refused :: "u64 \<Rightarrow> int \<Rightarrow> bool option" where
  "mask_refused msk n =
     (if n < 0 \<or> 31 \<le> n then None else Some (msk AND (2 ^ nat n - 1) = 0))"

definition start_thread :: "'w kernel \<Rightarrow> addr \<Rightarrow> u64 \<Rightarrow> libspe12 \<Rightarrow> 'w env \<Rightarrow> (addr \<times> libspe12 \<times> 'w env) option" where
  "start_thread K t msk s e = do {
     s1 \<leftarrow> upd_thread t (\<lambda>T. T\<lparr>ts_mask := msk\<rparr>) s;
     let (r, e1) = sys K (PthreadCreate t) e;
     s2 \<leftarrow> upd_thread t (\<lambda>T. T\<lparr>ts_pthread := (case rvals r of [] \<Rightarrow> 0 | i # _ \<Rightarrow> i)\<rparr>) s1;
     Some (if rv r \<noteq> 0 then NULL else t, s2, e1) }"

definition spe_create_thread ::
  "'w kernel \<Rightarrow> nat \<Rightarrow> u64 \<Rightarrow> spe_context \<Rightarrow> u32 \<Rightarrow> addr \<Rightarrow> spe_program_handle option \<Rightarrow> addr \<Rightarrow> addr \<Rightarrow>
   u64 \<Rightarrow> u32 \<Rightarrow> libspe12 \<Rightarrow> 'w env \<Rightarrow> (addr \<times> libspe12 \<times> 'w env) option"
where
  "spe_create_thread K ptr_bytes ps junkc junk gid handle argp envp msk fl s e =
     (case handle of
        None \<Rightarrow> Some (NULL, s, set_errno EINVAL e)
      | Some h \<Rightarrow>
        if has_flag fl SPE_USER_REGS \<and> argp = NULL then Some (NULL, s, set_errno EINVAL e)
        else do {
          (found, e1) \<leftarrow> (if gid \<noteq> NULL then srch_group gid s e else Some (True, e));
          if \<not> found then Some (NULL, s, e1)
          else if msk = 0 then Some (NULL, s, set_errno EINVAL e1)
          else do {
            (n, e2) \<leftarrow> spe_group_max K NULL s e1;
            refused \<leftarrow> mask_refused msk n;
            if refused then Some (NULL, s, set_errno EINVAL e2)
            else do {
              let (s1, e3) = (if check_env s then env_check K s e2 else (s, e2));
              (t, s2, e4) \<leftarrow> spe_setup K ptr_bytes ps junkc junk gid h argp envp fl s1 e3;
              if t = NULL then Some (NULL, s2, set_errno EINVAL e4)
              else start_thread K t msk s2 e4 } } })"

section \<open>Waiting for a thread\<close>

abbreviation (input) SIGILL :: u32 where "SIGILL \<equiv> 4"
abbreviation (input) SIGABRT :: u32 where "SIGABRT \<equiv> 6"
abbreviation (input) SIGKILL :: int where "SIGKILL \<equiv> 9"
abbreviation (input) SIGCONT :: int where "SIGCONT \<equiv> 18"
abbreviation (input) SIGSTOP :: int where "SIGSTOP \<equiv> 19"
abbreviation (input) WNOHANG :: u32 where "WNOHANG \<equiv> 1"
abbreviation (input) WUNTRACED :: u32 where "WUNTRACED \<equiv> 2"

definition spe_cleanup :: "'w kernel \<Rightarrow> addr \<Rightarrow> libspe12 \<Rightarrow> 'w env \<Rightarrow> (libspe12 \<times> 'w env) option" where
  "spe_cleanup K t s e = do {
     T \<leftarrow> threads s t;
     c \<leftarrow> spectx T;
     let (_, e1) = base_spe_context_destroy K c e;
     (_, s1, e2) \<leftarrow> remove_thread_from_group K (group_id T) t s e1;
     Some (s1\<lparr>threads := (threads s1)(t := None)\<rparr>, snd (sys_rv K (Free t) e2)) }"

definition spe_wait_status :: "u32 \<Rightarrow> u32" where
  "spe_wait_status st =
     (let rc = drop_bit 16 (st AND 0xffff0000);
          trm = (if has_flag st 0x4 then SIGABRT
                 else if has_flag st 0x20 then SIGILL
                 else if has_flag st 0x40 then SIGILL
                 else if rc < SPE_PROGRAM_NORMAL_END \<or> rc > 0x20ff then SIGILL
                 else if has_flag st 0x1 then 9
                 else 0)
      in push_bit 8 (rc AND 0xff) OR (trm AND 0x7f))"

text \<open>
  \<open>status\<close>: the pointer is not \<open>NULL\<close>; the second result is what was last stored there. The thread
  store is read after the join.
\<close>

definition spe_wait ::
  "'w kernel \<Rightarrow> addr \<Rightarrow> bool \<Rightarrow> u32 \<Rightarrow> libspe12 \<Rightarrow> 'w env \<Rightarrow> (int \<times> u32 option \<times> libspe12 \<times> 'w env) option"
where
  "spe_wait K speid status options s e = do {
     (found, e1) \<leftarrow> srch_thread speid s e;
     if \<not> found then Some (-1, None, s, e1)
     else do {
       T \<leftarrow> threads s speid;
       if has_flag options WNOHANG \<and> thread_status T \<noteq> 99 then
         (if status then Some (0, Some 0, s, e1) else None)
       else do {
         st \<leftarrow> (if has_flag options WUNTRACED \<and> (thread_status T = 10 \<or> thread_status T = 20)
                then (if status then Some (Some 4) else None) else Some None);
         let (rc, e2) = sys_rv K (PthreadJoin (ts_pthread T)) e1;
         if rc \<noteq> 0 then Some (-1, st, s, e2)
         else do {
           let st1 = (if status then Some (spe_wait_status (of_int (ret_status T))) else st);
           (s1, e3) \<leftarrow> spe_cleanup K speid s e2;
           Some (rc, st1, s1, e3) } } } }"

section \<open>Control signals\<close>

definition lock_thread :: "addr \<Rightarrow> 'w env \<Rightarrow> 'w env" where
  "lock_thread t e = emit (Lock (ThreadLock t)) e"

definition unlock_thread :: "addr \<Rightarrow> 'w env \<Rightarrow> 'w env" where
  "unlock_thread t e = emit (Unlock (ThreadLock t)) e"

definition spe_kill :: "'w kernel \<Rightarrow> addr \<Rightarrow> int \<Rightarrow> libspe12 \<Rightarrow> 'w env \<Rightarrow> (int \<times> libspe12 \<times> 'w env) option" where
  "spe_kill K speid sig s e = do {
     (found, e1) \<leftarrow> srch_thread speid s e;
     if \<not> found then Some (-1, s, e1)
     else do {
       T \<leftarrow> threads s speid;
       if sig = SIGCONT then
         (let e2 = lock_thread speid e1;
              e3 = (if ts_stop T \<or> event_pending T then emit (CondSignal speid) e2 else e2)
          in Some (0, s, unlock_thread speid e3))
       else if sig = SIGKILL then do {
         let e2 = lock_thread speid e1;
         s1 \<leftarrow> upd_thread speid (\<lambda>T. T\<lparr>killed := True\<rparr>) s;
         let (ret, e3) = (if event_pending T then (0, emit (CondSignal speid) e2)
                          else sys_rv K (PthreadCancel (ts_pthread T)) e2);
         Some (ret, s1, unlock_thread speid e3) }
       else if sig = SIGSTOP then do {
         s1 \<leftarrow> upd_thread speid (\<lambda>T. T\<lparr>ts_stop := True\<rparr>) s;
         Some (0, s1, e1) }
       else Some (-1, s, set_errno EINVAL e1) } }"

section \<open>The thread\<close>

abbreviation (input) EVENT_STOP :: u32 where "EVENT_STOP \<equiv> 0x2"
abbreviation (input) EVENT_SPE_ERROR :: u32 where "EVENT_SPE_ERROR \<equiv> 0x10"
abbreviation (input) EVENT_SPE_TRAPPED :: u32 where "EVENT_SPE_TRAPPED \<equiv> 0x80"
abbreviation (input) EVENT_THREAD_EXIT :: u32 where "EVENT_THREAD_EXIT \<equiv> 0x100"

text \<open>
  Where \<open>do_spe_run\<close> is, and its local variables: \<open>npc\<close>, \<open>ret\<close>, the \<open>errno\<close> of the thread and
  \<open>stop_info\<close>. \<open>rn_woken\<close>: the condition variable it waits for has been signalled; \<open>rn_cancel\<close>: its
  cancellation was requested.
\<close>

datatype run_pc =
  Thread_started | Run_begun | Round_begun | Round_run | Round_done | Pausing | Resumed
| Event_waiting | Loop_left | Thread_returned int | Thread_cancelled

record spe_runner =
  rn_pc :: run_pc
  rn_npc :: u32
  rn_ret :: int
  rn_errno :: int
  rn_info :: spe_stop_info
  rn_woken :: bool
  rn_cancel :: bool

definition new_runner :: "spe_stop_info \<Rightarrow> spe_runner" where
  "new_runner junk = \<lparr>rn_pc = Thread_started, rn_npc = SPE_DEFAULT_ENTRY, rn_ret = 0, rn_errno = 0,
     rn_info = junk, rn_woken = False, rn_cancel = False\<rparr>"

text \<open>\<open>spe_thread\<close> before it calls \<open>do_spe_run\<close>: the message and the wait for a debugger.\<close>

definition spe_thread_intro :: "'w kernel \<Rightarrow> libspe12 \<Rightarrow> 'w env \<Rightarrow> 'w env" where
  "spe_thread_intro K s e =
     (if env_spu_debug_start s \<noteq> 0 \<or> env_spu_info s \<noteq> 0 then
        let (_, e1) = sys_rv K Gettid e
        in if env_spu_debug_start s \<noteq> 0 then snd (sys_rv K SigWait e1) else e1
      else e)"

definition begin_wait :: "addr \<Rightarrow> 'w env \<Rightarrow> 'w env" where
  "begin_wait t e = emit (CondInit t) (lock_thread t e)"

text \<open>The event of a run that failed, by \<open>errno\<close>, and its data; other values of \<open>errno\<close> have none.\<close>

definition failure_event :: "int \<Rightarrow> spe_stop_info \<Rightarrow> u32 option" where
  "failure_event err info =
     (if err = EIO then Some (of_int (stop_result info))
      else if err = EFAULT then
        Some (if stop_result info = 4 then EVENT_SPE_TRAPPED
              else if stop_result info = 32 then EVENT_SPE_ERROR
              else of_int (stop_result info))
      else None)"

definition post_event :: "'w kernel \<Rightarrow> addr \<Rightarrow> u32 \<Rightarrow> u64 \<Rightarrow> libspe12 \<Rightarrow> 'w env \<Rightarrow> (libspe12 \<times> 'w env) option" where
  "post_event K t ev data s e = do {
     T \<leftarrow> threads s t;
     c \<leftarrow> spectx T;
     s1 \<leftarrow> upd_thread t (\<lambda>T. T\<lparr>ts_event := ev, ts_ev_data := data\<rparr>) s;
     Some (s1, snd (sys_rv K (Write (snd (ev_pipe c)) (bytes_of_word ev)) e)) }"

definition set_status :: "addr \<Rightarrow> int \<Rightarrow> libspe12 \<Rightarrow> libspe12 option" where
  "set_status t n s = upd_thread t (\<lambda>T. T\<lparr>thread_status := n\<rparr>) s"

text \<open>The call of \<open>_base_spe_context_run\<close>; the thread runs no other context.\<close>

definition run_round ::
  "'w kernel \<Rightarrow> 'w handler_code \<Rightarrow> u32 \<Rightarrow> addr \<Rightarrow> spe_runner \<Rightarrow> libspe12 \<Rightarrow> 'w env \<Rightarrow>
   (spe_runner \<times> libspe12 \<times> 'w env) option"
where
  "run_round K H junk t r s e = do {
     T \<leftarrow> threads s t;
     c \<leftarrow> spectx T;
     (ret, st) \<leftarrow> base_spe_context_run K H (callback_table s) c (rn_npc r) 0 (ts_argp T) (ts_envp T)
                    (rn_info r) junk [] e;
     s1 \<leftarrow> upd_thread t (\<lambda>T. T\<lparr>spectx := Some (run_c st)\<rparr>) s;
     Some (r\<lparr>rn_pc := Round_done, rn_npc := run_entry st, rn_ret := ret,
             rn_errno := errno (run_env st), rn_info := run_info st\<rparr>, s1, run_env st) }"

text \<open>A thread that was told to stop waits for the signal to go on.\<close>

definition after_round ::
  "'w kernel \<Rightarrow> addr \<Rightarrow> spe_runner \<Rightarrow> libspe12 \<Rightarrow> 'w env \<Rightarrow> (spe_runner \<times> libspe12 \<times> 'w env) option" where
  "after_round K t r s e = do {
     s1 \<leftarrow> set_status t 10 s;
     T \<leftarrow> threads s1 t;
     if ts_stop T then do {
       let e1 = begin_wait t e;
       s2 \<leftarrow> set_status t 20 s1;
       Some (r\<lparr>rn_pc := Pausing, rn_woken := False\<rparr>, s2, emit (CondWait t) e1) }
     else Some (r\<lparr>rn_pc := Resumed\<rparr>, s1, e) }"

definition end_pause :: "addr \<Rightarrow> spe_runner \<Rightarrow> libspe12 \<Rightarrow> 'w env \<Rightarrow> (spe_runner \<times> libspe12 \<times> 'w env) option" where
  "end_pause t r s e = do {
     s1 \<leftarrow> upd_thread t (\<lambda>T. T\<lparr>ts_stop := False\<rparr>) s;
     s2 \<leftarrow> set_status t 10 s1;
     Some (r\<lparr>rn_pc := Resumed\<rparr>, s2, unlock_thread t e) }"

definition failed_round ::
  "'w kernel \<Rightarrow> addr \<Rightarrow> spe_runner \<Rightarrow> libspe12 \<Rightarrow> 'w env \<Rightarrow> (spe_runner \<times> libspe12 \<times> 'w env) option" where
  "failed_round K t r s e = do {
     let e1 = begin_wait t e;
     (s1, e2) \<leftarrow> (case failure_event (rn_errno r) (rn_info r) of
        None \<Rightarrow> Some (s, e1)
      | Some ev \<Rightarrow> post_event K t ev (of_int (stop_result (rn_info r))) s e1);
     s2 \<leftarrow> upd_thread t (\<lambda>T. T\<lparr>ts_stop := True\<rparr>) s1;
     s3 \<leftarrow> set_status t 99 s2;
     Some (r\<lparr>rn_pc := Thread_returned (spu_status (rn_info r))\<rparr>, s3, unlock_thread t e2) }"

definition stopped_round ::
  "'w kernel \<Rightarrow> addr \<Rightarrow> spe_runner \<Rightarrow> libspe12 \<Rightarrow> 'w env \<Rightarrow> (spe_runner \<times> libspe12 \<times> 'w env) option" where
  "stopped_round K t r s e = do {
     T \<leftarrow> threads s t;
     g \<leftarrow> groups s (group_id T);
     let e1 = begin_wait t e;
     if use_events g then do {
       (s1, e2) \<leftarrow> post_event K t EVENT_STOP (of_int (rn_ret r)) s e1;
       s2 \<leftarrow> upd_thread t (\<lambda>T. T\<lparr>event_pending := True\<rparr>) s1;
       Some (r\<lparr>rn_pc := Event_waiting, rn_woken := False\<rparr>, s2, emit (CondWait t) e2) }
     else do {
       s1 \<leftarrow> set_status t 99 s;
       Some (r\<lparr>rn_pc := Thread_returned (- ENOSYS)\<rparr>, s1, unlock_thread t e1) } }"

definition end_event_wait ::
  "addr \<Rightarrow> spe_runner \<Rightarrow> libspe12 \<Rightarrow> 'w env \<Rightarrow> (spe_runner \<times> libspe12 \<times> 'w env) option" where
  "end_event_wait t r s e = do {
     s1 \<leftarrow> upd_thread t (\<lambda>T. T\<lparr>event_pending := False\<rparr>) s;
     T \<leftarrow> threads s1 t;
     Some (r\<lparr>rn_pc := (if killed T then Loop_left else Round_begun)\<rparr>, s1, unlock_thread t e) }"

definition finish_run ::
  "'w kernel \<Rightarrow> addr \<Rightarrow> spe_runner \<Rightarrow> libspe12 \<Rightarrow> 'w env \<Rightarrow> (spe_runner \<times> libspe12 \<times> 'w env) option" where
  "finish_run K t r s e = do {
     s1 \<leftarrow> upd_thread t (\<lambda>T. T\<lparr>ts_npc := rn_npc r, ret_status := spu_status (rn_info r)\<rparr>) s;
     T \<leftarrow> threads s1 t;
     g \<leftarrow> groups s1 (group_id T);
     (s2, e1) \<leftarrow> (if use_events g
        then post_event K t EVENT_THREAD_EXIT (ucast (stop_reason_code (stop_reason (rn_info r)))) s1 e
        else Some (s1, e));
     s3 \<leftarrow> set_status t 99 s2;
     Some (r\<lparr>rn_pc := Thread_returned (spu_status (rn_info r))\<rparr>, s3, e1) }"

text \<open>
  One step of the thread. A thread that waits goes on after the signal (or a spurious wakeup, see
  \<open>Thread_System\<close>); the loop ends when the program has ended, goes on for a program that stopped, and
  \<open>killed\<close> is looked at after every stop.
\<close>

definition do_spe_run_step ::
  "'w kernel \<Rightarrow> 'w handler_code \<Rightarrow> u32 \<Rightarrow> addr \<Rightarrow> spe_runner \<Rightarrow> libspe12 \<Rightarrow> 'w env \<Rightarrow>
   (spe_runner \<times> libspe12 \<times> 'w env) option"
where
  "do_spe_run_step K H junk t r s e =
     (case rn_pc r of
        Thread_started \<Rightarrow> Some (r\<lparr>rn_pc := Run_begun\<rparr>, s, spe_thread_intro K s e)
      | Run_begun \<Rightarrow> do { s1 \<leftarrow> set_status t 1 s; Some (r\<lparr>rn_pc := Round_begun\<rparr>, s1, emit SetCancelType e) }
      | Round_begun \<Rightarrow> do { s1 \<leftarrow> set_status t 2 s; Some (r\<lparr>rn_pc := Round_run\<rparr>, s1, e) }
      | Round_run \<Rightarrow> run_round K H junk t r s e
      | Round_done \<Rightarrow> after_round K t r s e
      | Pausing \<Rightarrow> end_pause t r s e
      | Resumed \<Rightarrow>
          if rn_ret r < 0 then failed_round K t r s e
          else if rn_ret r > 0 then stopped_round K t r s e
          else Some (r\<lparr>rn_pc := Loop_left\<rparr>, s, e)
      | Event_waiting \<Rightarrow> end_event_wait t r s e
      | Loop_left \<Rightarrow> finish_run K t r s e
      | Thread_returned n \<Rightarrow> None
      | Thread_cancelled \<Rightarrow> None)"

text \<open>The run of a thread that is left alone: no step waits.\<close>

definition is_waiting :: "spe_runner \<Rightarrow> bool" where
  "is_waiting r \<longleftrightarrow> (rn_pc r = Pausing \<or> rn_pc r = Event_waiting)"

definition has_ended :: "spe_runner \<Rightarrow> bool" where
  "has_ended r \<longleftrightarrow> (case rn_pc r of Thread_returned _ \<Rightarrow> True | Thread_cancelled \<Rightarrow> True | _ \<Rightarrow> False)"

partial_function (option) do_spe_run ::
  "'w kernel \<Rightarrow> 'w handler_code \<Rightarrow> u32 \<Rightarrow> addr \<Rightarrow> spe_runner \<Rightarrow> libspe12 \<Rightarrow> 'w env \<Rightarrow>
   (spe_runner \<times> libspe12 \<times> 'w env) option"
where
  [code]: "do_spe_run K H junk t r s e =
     (if has_ended r \<or> is_waiting r then Some (r, s, e)
      else do {
        (r1, s1, e1) \<leftarrow> do_spe_run_step K H junk t r s e;
        do_spe_run K H junk t r1 s1 e1 })"

end
