(* ===== verification/Group_Lists.thy ===== *)
theory Group_Lists
  imports Thread_Groups
begin

text \<open>
  What the linked lists of \<open>Thread_Groups\<close> stand for: a list of groups and, for every group, a list
  of threads. Every list operation refines an operation on these, the counts agree with the
  lengths, and an invariant of all histories says that no operation meets a bad pointer.
\<close>

section \<open>The lists in the store\<close>

definition enext :: "libspe12 \<Rightarrow> addr \<rightharpoonup> addr" where
  "enext s = (\<lambda>a. map_option el_next (elems s a))"

definition gnext :: "libspe12 \<Rightarrow> addr \<rightharpoonup> addr" where
  "gnext s = (\<lambda>a. map_option gp_next (grps s a))"

definition thread_at :: "libspe12 \<Rightarrow> addr \<Rightarrow> addr" where
  "thread_at s n = el_thread (the (elems s n))"

definition group_at :: "libspe12 \<Rightarrow> addr \<Rightarrow> addr" where
  "group_at s n = gp_group (the (grps s n))"

text \<open>
  \<open>layout s gns N\<close>: the nodes of the list of groups are \<open>gns\<close>, those of the group \<open>g\<close> are \<open>N g\<close>;
  different groups share no node, and a destroyed group keeps its block and its members.
\<close>

definition layout :: "libspe12 \<Rightarrow> addr list \<Rightarrow> (addr \<Rightarrow> addr list) \<Rightarrow> bool" where
  "layout s gns N \<longleftrightarrow>
     chain (gnext s) (list_start s) gns \<and> group_at s ` set gns \<subseteq> dom (groups s) \<and>
     distinct (map (group_at s) gns) \<and>
     (\<forall>g G. groups s g = Some G \<longrightarrow>
        chain (enext s) (grp_members G) (N g) \<and> numListSize G = int (length (N g))) \<and>
     elems s NULL = None \<and> (\<forall>g. groups s g = None \<longrightarrow> N g = []) \<and>
     (\<forall>g g'. g \<noteq> g' \<longrightarrow> set (N g) \<inter> set (N g') = {})"

definition listed :: "libspe12 \<Rightarrow> addr list \<Rightarrow> addr list" where
  "listed s gns = map (group_at s) gns"

definition members :: "libspe12 \<Rightarrow> (addr \<Rightarrow> addr list) \<Rightarrow> addr \<Rightarrow> addr list" where
  "members s N g = map (thread_at s) (N g)"

lemma next_upd [simp]:
  "enext (s\<lparr>elems := (elems s)(p \<mapsto> x)\<rparr>) = (enext s)(p \<mapsto> el_next x)"
  "enext (s\<lparr>elems := (elems s)(p := None)\<rparr>) = (enext s)(p := None)"
  "gnext (s\<lparr>grps := (grps s)(q \<mapsto> y)\<rparr>) = (gnext s)(q \<mapsto> gp_next y)"
  "gnext (s\<lparr>grps := (grps s)(q := None)\<rparr>) = (gnext s)(q := None)"
  by (auto simp: enext_def gnext_def)

lemma next_frame [simp]:
  "enext (s\<lparr>groups := gs\<rparr>) = enext s" "enext (s\<lparr>threads := ts\<rparr>) = enext s"
  "enext (s\<lparr>grps := gp\<rparr>) = enext s" "enext (s\<lparr>list_start := a\<rparr>) = enext s"
  "enext (s\<lparr>list_count := n\<rparr>) = enext s"
  "gnext (s\<lparr>groups := gs\<rparr>) = gnext s" "gnext (s\<lparr>threads := ts\<rparr>) = gnext s"
  "gnext (s\<lparr>elems := es\<rparr>) = gnext s" "gnext (s\<lparr>list_start := a\<rparr>) = gnext s"
  "gnext (s\<lparr>list_count := n\<rparr>) = gnext s"
  by (simp_all add: enext_def gnext_def)

lemma at_frame [simp]:
  "thread_at (s\<lparr>groups := gs\<rparr>) = thread_at s" "thread_at (s\<lparr>threads := ts\<rparr>) = thread_at s"
  "thread_at (s\<lparr>grps := gp\<rparr>) = thread_at s" "thread_at (s\<lparr>list_start := a\<rparr>) = thread_at s"
  "thread_at (s\<lparr>list_count := n\<rparr>) = thread_at s"
  "group_at (s\<lparr>groups := gs\<rparr>) = group_at s" "group_at (s\<lparr>threads := ts\<rparr>) = group_at s"
  "group_at (s\<lparr>elems := es\<rparr>) = group_at s" "group_at (s\<lparr>list_start := a\<rparr>) = group_at s"
  "group_at (s\<lparr>list_count := n\<rparr>) = group_at s"
  by (auto simp: thread_at_def group_at_def fun_eq_iff)

lemma dom_next [simp]: "dom (enext s) = dom (elems s)" "dom (gnext s) = dom (grps s)"
  by (auto simp: enext_def gnext_def)

lemma next_Some: "enext s a = Some q \<longleftrightarrow> (\<exists>x. elems s a = Some x \<and> q = el_next x)"
  "gnext s a = Some q \<longleftrightarrow> (\<exists>y. grps s a = Some y \<and> q = gp_next y)"
  by (auto simp: enext_def gnext_def)

lemma layoutD:
  assumes "layout s gns N"
  shows "chain (gnext s) (list_start s) gns" "distinct (map (group_at s) gns)"
    "n \<in> set gns \<Longrightarrow> \<exists>G. groups s (group_at s n) = Some G"
    "groups s g = Some G \<Longrightarrow> chain (enext s) (grp_members G) (N g)"
    "groups s g = Some G \<Longrightarrow> numListSize G = int (length (N g))"
    "g \<noteq> g' \<Longrightarrow> set (N g) \<inter> set (N g') = {}"
    "set gns \<subseteq> dom (grps s)" "set (N g) \<subseteq> dom (elems s)" "elems s NULL = None"
proof -
  have "set (N g) \<subseteq> dom (elems s)"
    using assms chain_dom [of "enext s" "grp_members (the (groups s g))" "N g"]
    by (cases "groups s g") (simp_all add: layout_def)
  then show "set (N g) \<subseteq> dom (elems s)" .
qed (use assms chain_dom [of "gnext s" "list_start s" gns] in \<open>auto simp: layout_def image_subset_iff\<close>)

section \<open>Searching\<close>

lemma find_member_list:
  "chain (enext s) p ns \<Longrightarrow> find_member s t p = Some (t \<in> set (map (thread_at s) ns))"
proof (induction ns arbitrary: p)
  case Nil
  then show ?case by (subst find_member.simps) simp
next
  case (Cons n ns)
  then obtain x where x: "n = p" "p \<noteq> NULL" "elems s p = Some x" "chain (enext s) (el_next x) ns"
    by (auto simp: next_Some)
  show ?case
    by (subst find_member.simps) (use x Cons.IH [OF x(4)] in \<open>auto simp: thread_at_def\<close>)
qed

lemma find_thread_list:
  assumes "layout s gns N" "chain (gnext s) p ns" "set ns \<subseteq> set gns"
  shows "find_thread s t p = Some (\<exists>g \<in> set (listed s ns). t \<in> set (members s N g))"
  using assms(2,3)
proof (induction ns arbitrary: p)
  case Nil
  then show ?case by (subst find_thread.simps) (simp add: listed_def)
next
  case (Cons n ns)
  then obtain y where y: "n = p" "p \<noteq> NULL" "grps s p = Some y" "chain (gnext s) (gp_next y) ns"
    by (auto simp: next_Some)
  have g: "group_at s n = gp_group y" using y by (simp add: group_at_def)
  obtain G where G: "groups s (gp_group y) = Some G"
    using layoutD(3) [OF assms(1), of n] Cons.prems(2) g by auto
  have "find_member s t (grp_members G) = Some (t \<in> set (members s N (gp_group y)))"
    unfolding members_def by (rule find_member_list [OF layoutD(4) [OF assms(1) G]])
  moreover have "find_thread s t (gp_next y) = Some (\<exists>g \<in> set (listed s ns). t \<in> set (members s N g))"
    using Cons.IH [OF y(4)] Cons.prems(2) by simp
  ultimately show ?case
    by (subst find_thread.simps) (use y G g in \<open>auto simp: listed_def\<close>)
qed

lemma find_group_list:
  "chain (gnext s) p ns \<Longrightarrow> find_group s g p = Some (g \<in> set (listed s ns))"
proof (induction ns arbitrary: p)
  case Nil
  then show ?case by (subst find_group.simps) (simp add: listed_def)
next
  case (Cons n ns)
  then obtain y where y: "n = p" "p \<noteq> NULL" "grps s p = Some y" "chain (gnext s) (gp_next y) ns"
    by (auto simp: next_Some)
  show ?case
    by (subst find_group.simps) (use y Cons.IH [OF y(4)] in \<open>auto simp: listed_def group_at_def\<close>)
qed

lemma srch_thread_list:
  assumes "layout s gns N"
  shows "\<exists>e'. srch_thread t s e = Some ((\<exists>g \<in> set (listed s gns). t \<in> set (members s N g)), e') \<and>
    world e' = world e \<and> mem e' = mem e"
  using find_thread_list [OF assms layoutD(1) [OF assms]]
  by (simp add: srch_thread_def unlock_groups_def lock_groups_def Let_def)

lemma srch_group_list:
  assumes "layout s gns N"
  shows "\<exists>e'. srch_group g s e = Some (g \<in> set (listed s gns), e') \<and> world e' = world e \<and> mem e' = mem e"
  using find_group_list [OF layoutD(1) [OF assms]]
  by (simp add: srch_group_def unlock_groups_def lock_groups_def Let_def)

section \<open>The abstract view\<close>

text \<open>
  The store represents the list \<open>gl\<close> of the groups that calls accept and the members \<open>M g\<close> of every
  group, the youngest first.
\<close>

definition represents :: "libspe12 \<Rightarrow> addr list \<Rightarrow> (addr \<Rightarrow> addr list) \<Rightarrow> bool" where
  "represents s gl M \<longleftrightarrow> (\<exists>gns N. layout s gns N \<and> gl = listed s gns \<and> M = members s N)"

lemma representsE:
  assumes "represents s gl M"
  obtains gns N where "layout s gns N" "gl = listed s gns" "M = members s N"
  using assms by (auto simp: represents_def)

lemma representsI: "layout s gns N \<Longrightarrow> listed s gns = gl \<Longrightarrow> members s N = M \<Longrightarrow> represents s gl M"
  unfolding represents_def by blast

lemma representsD:
  assumes "represents s gl M"
  shows "distinct gl" "g \<in> set gl \<Longrightarrow> groups s g \<noteq> None" "groups s g = None \<Longrightarrow> M g = []"
    "groups s g = Some G \<Longrightarrow> numListSize G = int (length (M g))"
proof -
  obtain gns N where L: "layout s gns N" "gl = listed s gns" "M = members s N"
    using assms by (rule representsE)
  show "distinct gl" "groups s g = None \<Longrightarrow> M g = []"
    "groups s g = Some G \<Longrightarrow> numListSize G = int (length (M g))"
    using L by (auto simp: layout_def listed_def members_def)
  show "g \<in> set gl \<Longrightarrow> groups s g \<noteq> None"
    using L layoutD(3) [OF L(1)] by (fastforce simp: listed_def)
qed

text \<open>Changes that do not touch the lists.\<close>

definition same_lists :: "group_store \<Rightarrow> group_store \<Rightarrow> bool" where
  "same_lists G G' \<longleftrightarrow> grp_members G' = grp_members G \<and> numListSize G' = numListSize G"

lemma represents_upd_group:
  assumes "represents s gl M" "upd_group g f s = Some s'" "\<And>G. same_lists G (f G)"
  shows "represents s' gl M"
proof -
  obtain gns N where L: "layout s gns N" "gl = listed s gns" "M = members s N"
    using assms(1) by (rule representsE)
  obtain G where G: "groups s g = Some G" "s' = s\<lparr>groups := (groups s)(g \<mapsto> f G)\<rparr>"
    using assms(2) by (auto simp: upd_group_def split: Option.bind_splits)
  have "layout s' gns N" using L(1) G assms(3) [of G]
    by (auto simp: layout_def same_lists_def)
  moreover have "listed s' gns = gl" "members s' N = M"
    using L(2,3) G(2) by (simp_all add: listed_def members_def fun_eq_iff)
  ultimately show ?thesis by (rule representsI)
qed

lemma represents_frame [simp]:
  "represents (s\<lparr>threads := ts\<rparr>) gl M = represents s gl M"
proof -
  have "layout (s\<lparr>threads := ts\<rparr>) = layout s" by (simp add: layout_def fun_eq_iff)
  moreover have "listed (s\<lparr>threads := ts\<rparr>) = listed s" "members (s\<lparr>threads := ts\<rparr>) = members s"
    by (simp_all add: listed_def members_def fun_eq_iff)
  ultimately show ?thesis by (simp add: represents_def)
qed

section \<open>Adding\<close>

definition malloc_misses :: "'w kernel \<Rightarrow> 'w env \<Rightarrow> nat \<Rightarrow> addr set \<Rightarrow> bool" where
  "malloc_misses K e n A \<longleftrightarrow> (0 < fst (sys_rv K (Malloc n) e) \<longrightarrow> nat (fst (sys_rv K (Malloc n) e)) \<notin> A)"

lemma add_thread_layout:
  assumes "layout s gns N" "groups s gid = Some g" "elems s p = None" "p \<noteq> NULL"
    and "s' = s\<lparr>elems := (elems s)(p \<mapsto> \<lparr>el_next = grp_members g, el_thread = t\<rparr>),
                groups := (groups s)(gid \<mapsto> g\<lparr>grp_members := p, numListSize := numListSize g + 1\<rparr>)\<rparr>"
  shows "layout s' gns (N(gid := p # N gid))"
    and "members s' (N(gid := p # N gid)) = (members s N)(gid := t # members s N gid)"
proof -
  have p: "p \<notin> set (N h)" for h using layoutD(8) [OF assms(1), of h] assms(3) by auto
  have n: "enext s' = (enext s)(p \<mapsto> grp_members g)" "gnext s' = gnext s" "group_at s' = group_at s"
    by (simp_all add: assms(5))
  show "layout s' gns (N(gid := p # N gid))"
    using assms(1,2,4) p n by (auto simp: layout_def assms(5))
  show "members s' (N(gid := p # N gid)) = (members s N)(gid := t # members s N gid)"
    using p unfolding members_def assms(5) by (auto simp: thread_at_def fun_eq_iff)
qed

lemma add_thread_represents:
  assumes "represents s gl M" "groups s gid \<noteq> None" "malloc_misses K e SIZEOF_LIST_ELEM (dom (elems s))"
  shows "\<exists>rc s' e'. add_thread_to_group K gid t s e = Some (rc, s', e') \<and>
    (rc = 0 \<and> represents s' gl (M(gid := t # M gid)) \<or> rc = - ENOMEM \<and> s' = s)"
proof -
  obtain gns N where L: "layout s gns N" "gl = listed s gns" "M = members s N"
    using assms(1) by (rule representsE)
  obtain g where g: "groups s gid = Some g" using assms(2) by auto
  obtain p e1 where m: "sys_rv K (Malloc SIZEOF_LIST_ELEM) e = (p, e1)" by fastforce
  show ?thesis
  proof (cases "p \<le> 0")
    case True
    then show ?thesis using m by (simp add: add_thread_to_group_def)
  next
    case False
    let ?s = "s\<lparr>elems := (elems s)(nat p \<mapsto> \<lparr>el_next = grp_members g, el_thread = t\<rparr>),
                groups := (groups s)(gid \<mapsto> g\<lparr>grp_members := nat p, numListSize := numListSize g + 1\<rparr>)\<rparr>"
    have n: "elems s (nat p) = None" "nat p \<noteq> NULL"
      using assms(3) m False by (auto simp: malloc_misses_def)
    note A = add_thread_layout [OF L(1) g n, of ?s t]
    have "listed ?s gns = gl" using L(2) by (simp add: listed_def)
    then have "represents ?s gl (M(gid := t # M gid))" using A L(3) by (blast intro: representsI)
    then show ?thesis using m False g by (simp add: add_thread_to_group_def upd_group_def Let_def)
  qed
qed

section \<open>Removing a thread\<close>

definition unlink :: "addr \<Rightarrow> addr \<Rightarrow> addr \<Rightarrow> libspe12 \<Rightarrow> libspe12" where
  "unlink gid a b s =
     s\<lparr>elems := (elems s)(a \<mapsto> (the (elems s a))\<lparr>el_next := el_next (the (elems s b))\<rparr>, b := None),
       groups := (groups s)(gid \<mapsto> (the (groups s gid))\<lparr>numListSize := numListSize (the (groups s gid)) - 1\<rparr>)\<rparr>"

lemma remove_thread_loop_list:
  assumes "chain (enext s) p (p # ns)" "groups s gid \<noteq> None"
  shows "if t \<in> thread_at s ` set ns
    then \<exists>as a b bs. p # ns = as @ a # b # bs \<and> thread_at s b = t \<and> t \<notin> thread_at s ` set (tl (as @ [a])) \<and>
      remove_thread_loop K gid t p s e = Some (0, unlink gid a b s, unlock_groups (snd (sys_rv K (Free b) e)))
    else remove_thread_loop K gid t p s e = Some (- ESRCH, s, set_errno ESRCH (unlock_groups e))"
  using assms(1)
proof (induction ns arbitrary: p)
  case Nil
  then obtain x where "elems s p = Some x" "el_next x = NULL" by (auto simp: next_Some)
  then show ?case by (subst remove_thread_loop.simps) simp
next
  case (Cons n ns)
  then obtain x y where x: "elems s p = Some x" "el_next x = n" "n \<noteq> NULL"
    and c: "chain (enext s) n (n # ns)" and y: "elems s n = Some y" by (auto simp: next_Some)
  show ?case
  proof (cases "thread_at s n = t")
    case True
    have "remove_thread_loop K gid t p s e = Some (0, unlink gid p n s, unlock_groups (snd (sys_rv K (Free n) e)))"
      by (subst remove_thread_loop.simps)
        (use x y True assms(2) in \<open>auto simp: thread_at_def upd_group_def unlink_def Let_def\<close>)
    then have "p # n # ns = [] @ p # n # ns \<and> thread_at s n = t \<and>
        t \<notin> thread_at s ` set (tl ([] @ [p])) \<and> remove_thread_loop K gid t p s e =
          Some (0, unlink gid p n s, unlock_groups (snd (sys_rv K (Free n) e)))"
      using True by simp
    moreover have "t \<in> thread_at s ` set (n # ns)" using True by simp
    ultimately show ?thesis by (simp only: if_True) blast
  next
    case False
    then have step: "remove_thread_loop K gid t p s e = remove_thread_loop K gid t n s e"
      by (subst remove_thread_loop.simps) (use x y in \<open>auto simp: thread_at_def Let_def\<close>)
    show ?thesis
    proof (cases "t \<in> thread_at s ` set ns")
      case True
      then obtain as a b bs where s: "n # ns = as @ a # b # bs" "thread_at s b = t"
        "t \<notin> thread_at s ` set (tl (as @ [a]))"
        "remove_thread_loop K gid t n s e = Some (0, unlink gid a b s, unlock_groups (snd (sys_rv K (Free b) e)))"
        using Cons.IH [OF c] by auto
      have "n = hd (as @ [a])" using s(1) by (cases as) auto
      then have "t \<notin> thread_at s ` set (as @ [a])"
        using s(3) False by (cases as) auto
      then have "p # n # ns = (p # as) @ a # b # bs \<and> thread_at s b = t \<and>
          t \<notin> thread_at s ` set (tl ((p # as) @ [a])) \<and> remove_thread_loop K gid t p s e =
            Some (0, unlink gid a b s, unlock_groups (snd (sys_rv K (Free b) e)))"
        using s step by simp
      moreover have "t \<in> thread_at s ` set (n # ns)" using True by simp
      ultimately show ?thesis by (simp only: if_True) blast
    next
      case no: False
      then show ?thesis using Cons.IH [OF c] False step by auto
    qed
  qed
qed

lemma unlink_layout:
  assumes "layout s gns N" "groups s gid = Some g" "N gid = as @ a # b # bs"
  shows "layout (unlink gid a b s) gns (N(gid := as @ a # bs))"
    and "members (unlink gid a b s) (N(gid := as @ a # bs)) =
      (members s N)(gid := map (thread_at s) (as @ a # bs))"
proof -
  let ?s = "unlink gid a b s"
  have c: "chain (enext s) (grp_members g) (as @ a # b # bs)"
    using layoutD(4) [OF assms(1,2)] assms(3) by simp
  have d: "distinct (as @ a # b # bs)" using chain_distinct [OF c] .
  obtain x y where x: "elems s a = Some x" and y: "elems s b = Some y"
    using layoutD(8) [OF assms(1), of gid] assms(3) by auto
  have n: "enext ?s = (enext s)(a \<mapsto> el_next y, b := None)" "gnext ?s = gnext s"
    "group_at ?s = group_at s" "list_start ?s = list_start s"
    using x y by (auto simp: unlink_def enext_def gnext_def group_at_def fun_eq_iff)
  have c': "chain (enext ?s) (grp_members g) (as @ a # bs)"
    unfolding n by (rule chain_unlink [OF c]) (simp add: next_Some y)
  have other: "a \<notin> set (N h)" "b \<notin> set (N h)" if "h \<noteq> gid" for h
    using layoutD(6) [OF assms(1) that] assms(3) by auto
  have keep: "chain (enext ?s) q (N h) \<longleftrightarrow> chain (enext s) q (N h)" if "h \<noteq> gid" for h q
    using other [OF that] by (simp add: n)
  have dis: "h \<noteq> gid \<Longrightarrow> set (N h) \<inter> set (as @ a # bs) = {}" for h
    using layoutD(6) [OF assms(1), of h gid] assms(3) by auto
  have len: "numListSize g = int (length (as @ a # b # bs))"
    using layoutD(5) [OF assms(1,2)] assms(3) by simp
  have gr: "groups ?s = (groups s)(gid \<mapsto> g\<lparr>numListSize := numListSize g - 1\<rparr>)"
    using assms(2) by (simp add: unlink_def)
  show "layout ?s gns (N(gid := as @ a # bs))"
    unfolding layout_def n
  proof (intro conjI)
    show "chain (gnext s) (list_start s) gns" "distinct (map (group_at s) gns)"
      using layoutD(1,2) [OF assms(1)] by auto
    show "group_at s ` set gns \<subseteq> dom (groups ?s)"
      using layoutD(3) [OF assms(1)] gr by (fastforce split: if_splits)
    show "\<forall>h G. groups ?s h = Some G \<longrightarrow>
        chain ((enext s)(a \<mapsto> el_next y, b := None)) (grp_members G) ((N(gid := as @ a # bs)) h) \<and>
        numListSize G = int (length ((N(gid := as @ a # bs)) h))"
    proof (intro allI impI)
      fix h G assume G: "groups ?s h = Some G"
      show "chain ((enext s)(a \<mapsto> el_next y, b := None)) (grp_members G) ((N(gid := as @ a # bs)) h) \<and>
          numListSize G = int (length ((N(gid := as @ a # bs)) h))"
      proof (cases "h = gid")
        case True
        then have "G = g\<lparr>numListSize := numListSize g - 1\<rparr>" using G gr by simp
        then show ?thesis using True c' len n(1) by simp
      next
        case False
        then show ?thesis using G gr layoutD(4,5) [OF assms(1), of h G] keep n(1) by simp
      qed
    qed
    show "elems ?s NULL = None"
      using layoutD(9) [OF assms(1)] x by (auto simp: unlink_def)
    show "\<forall>h. groups ?s h = None \<longrightarrow> (N(gid := as @ a # bs)) h = []"
      using assms(1) gr by (simp add: layout_def)
    show "\<forall>h k. h \<noteq> k \<longrightarrow> set ((N(gid := as @ a # bs)) h) \<inter> set ((N(gid := as @ a # bs)) k) = {}"
      using layoutD(6) [OF assms(1)] dis by (metis fun_upd_apply inf_commute)
  qed
  have t: "thread_at ?s m = thread_at s m" if "m \<noteq> b" for m
    using that x by (simp add: unlink_def thread_at_def)
  show "members ?s (N(gid := as @ a # bs)) = (members s N)(gid := map (thread_at s) (as @ a # bs))"
  proof
    fix h
    have "map (thread_at ?s) (N h) = map (thread_at s) (N h)" if "h \<noteq> gid"
      using other(2) [OF that] t by (intro map_cong refl) metis
    moreover have "b \<notin> set (as @ a # bs)" using d by auto
    then have "map (thread_at ?s) (as @ a # bs) = map (thread_at s) (as @ a # bs)"
      using t by (intro map_cong refl) metis
    ultimately show "members ?s (N(gid := as @ a # bs)) h =
        ((members s N)(gid := map (thread_at s) (as @ a # bs))) h"
      by (simp add: members_def)
  qed
qed

lemma remove1_after: "t \<notin> set us \<Longrightarrow> remove1 t (us @ t # vs) = us @ vs"
  by (induction us) auto

text \<open>The last member goes, whoever was asked for.\<close>

definition empty_group :: "addr \<Rightarrow> addr \<Rightarrow> libspe12 \<Rightarrow> libspe12" where
  "empty_group gid p s =
     s\<lparr>elems := (elems s)(p := None),
       groups := (groups s)(gid \<mapsto> (the (groups s gid))\<lparr>numListSize := 0, grp_members := NULL\<rparr>)\<rparr>"

lemma empty_group_layout:
  assumes "layout s gns N" "groups s gid = Some g" "N gid = [p]"
  shows "layout (empty_group gid p s) gns (N(gid := []))"
    and "members (empty_group gid p s) (N(gid := [])) = (members s N)(gid := [])"
proof -
  let ?s = "empty_group gid p s"
  have n: "enext ?s = (enext s)(p := None)" "gnext ?s = gnext s" "group_at ?s = group_at s"
    "list_start ?s = list_start s" "groups ?s = (groups s)(gid \<mapsto> g\<lparr>numListSize := 0, grp_members := NULL\<rparr>)"
    using assms(2) by (auto simp: empty_group_def enext_def gnext_def group_at_def fun_eq_iff)
  have other: "p \<notin> set (N h)" if "h \<noteq> gid" for h
    using layoutD(6) [OF assms(1) that] assms(3) by auto
  have "elems ?s NULL = None" using layoutD(9) [OF assms(1)] by (simp add: empty_group_def)
  then show "layout ?s gns (N(gid := []))"
    using assms(1) other unfolding layout_def n by (auto simp: dom_def image_subset_iff)
  show "members ?s (N(gid := [])) = (members s N)(gid := [])"
  proof
    fix h
    have "thread_at ?s m = thread_at s m" if "m \<noteq> p" for m
      using that by (simp add: empty_group_def thread_at_def)
    then have "map (thread_at ?s) (N h) = map (thread_at s) (N h)" if "h \<noteq> gid"
      using other [OF that] by (intro map_cong refl) metis
    then show "members ?s (N(gid := [])) h = ((members s N)(gid := [])) h" by (simp add: members_def)
  qed
qed

section \<open>Removing a group\<close>

definition unlink_group :: "addr \<Rightarrow> addr \<Rightarrow> libspe12 \<Rightarrow> libspe12" where
  "unlink_group l n s =
     (let q = gp_next (the (grps s n)) in
      if l = NULL then s\<lparr>list_start := q, grps := (grps s)(n := None)\<rparr>
      else s\<lparr>grps := (grps s)(l \<mapsto> (the (grps s l))\<lparr>gp_next := q\<rparr>, n := None)\<rparr>)"

lemma remove_group_loop_list:
  assumes "chain (gnext s) gp ns" "groups s gid = Some G" "lgp = NULL \<or> grps s lgp \<noteq> None"
  shows "if gid \<in> group_at s ` set ns
    then \<exists>as n bs. ns = as @ n # bs \<and> group_at s n = gid \<and>
      remove_group_loop K gid lgp gp s e =
        (if numListSize G = 0 then Some (0, unlink_group (last (lgp # as)) n s, snd (sys_rv K (Free n) e))
         else Some (0, s, e))
    else remove_group_loop K gid lgp gp s e = Some (1, s, e)"
  using assms(1,3)
proof (induction ns arbitrary: gp lgp)
  case Nil
  then show ?case by (subst remove_group_loop.simps) simp
next
  case (Cons n ns)
  then obtain y where y: "n = gp" "gp \<noteq> NULL" "grps s gp = Some y" "chain (gnext s) (gp_next y) ns"
    by (auto simp: next_Some)
  show ?case
  proof (cases "group_at s n = gid")
    case True
    then have "gp_group y = gid" using y by (simp add: group_at_def)
    then have "remove_group_loop K gid lgp gp s e =
        (if numListSize G = 0 then Some (0, unlink_group lgp n s, snd (sys_rv K (Free n) e)) else Some (0, s, e))"
      by (subst remove_group_loop.simps)
        (use y assms(2) Cons.prems(2) in \<open>auto simp: unlink_group_def Let_def\<close>)
    then have "n # ns = [] @ n # ns \<and> group_at s n = gid \<and> remove_group_loop K gid lgp gp s e =
        (if numListSize G = 0 then Some (0, unlink_group (last (lgp # [])) n s, snd (sys_rv K (Free n) e))
         else Some (0, s, e))" using True by simp
    moreover have "gid \<in> group_at s ` set (n # ns)" using True by auto
    ultimately show ?thesis by (simp only: if_True) blast
  next
    case False
    then have step: "remove_group_loop K gid lgp gp s e = remove_group_loop K gid n (gp_next y) s e"
      by (subst remove_group_loop.simps) (use y in \<open>auto simp: group_at_def\<close>)
    have n: "n = NULL \<or> grps s n \<noteq> None" using y by simp
    show ?thesis
    proof (cases "gid \<in> group_at s ` set ns")
      case True
      then obtain as m bs where m: "ns = as @ m # bs" "group_at s m = gid"
        "remove_group_loop K gid n (gp_next y) s e =
          (if numListSize G = 0 then Some (0, unlink_group (last (n # as)) m s, snd (sys_rv K (Free m) e))
           else Some (0, s, e))"
        using Cons.IH [OF y(4) n] by auto
      then have "n # ns = (n # as) @ m # bs \<and> group_at s m = gid \<and> remove_group_loop K gid lgp gp s e =
          (if numListSize G = 0 then Some (0, unlink_group (last (lgp # n # as)) m s, snd (sys_rv K (Free m) e))
           else Some (0, s, e))" using step by simp
      moreover have "gid \<in> group_at s ` set (n # ns)" using True by simp
      ultimately show ?thesis by (simp only: if_True) blast
    next
      case no: False
      then show ?thesis using Cons.IH [OF y(4) n] False step by auto
    qed
  qed
qed

lemma unlink_group_chain:
  assumes "chain (gnext s) (list_start s) (as @ n # bs)"
  shows "chain (gnext (unlink_group (last (NULL # as)) n s)) (list_start (unlink_group (last (NULL # as)) n s)) (as @ bs)"
proof -
  obtain y where y: "grps s n = Some y" using chain_dom [OF assms] by auto
  then have q: "gnext s n = Some (gp_next y)" by (simp add: next_Some)
  show ?thesis
  proof (cases as rule: rev_exhaust)
    case Nil
    then have "chain ((gnext s)(n := None)) (gp_next y) bs"
      using chain_pop [of "gnext s" n n bs] q assms by simp
    moreover have "gnext (unlink_group NULL n s) = (gnext s)(n := None)"
      by (auto simp: unlink_group_def gnext_def fun_eq_iff Let_def)
    moreover have "list_start (unlink_group NULL n s) = gp_next y"
      using y by (simp add: unlink_group_def Let_def)
    ultimately show ?thesis using Nil by simp
  next
    case (snoc us l)
    then have c: "chain (gnext s) (list_start s) (us @ l # n # bs)" using assms by simp
    have l: "l \<noteq> NULL" "grps s l \<noteq> None" using chain_dom [OF c] chain_not_NULL [OF c] by auto
    then have "gnext (unlink_group l n s) = (gnext s)(l \<mapsto> gp_next y, n := None)"
      using y by (auto simp: unlink_group_def gnext_def fun_eq_iff Let_def)
    moreover have "list_start (unlink_group l n s) = list_start s"
      using l by (simp add: unlink_group_def Let_def)
    ultimately show ?thesis using chain_unlink [OF c q] snoc by simp
  qed
qed

lemma unlink_group_represents:
  assumes "layout s (as @ n # bs) N"
  shows "represents (unlink_group (last (NULL # as)) n s) (listed s (as @ bs)) (members s N)"
proof -
  let ?l = "last (NULL # as)" let ?s = "unlink_group ?l n s"
  note c = layoutD(1) [OF assms]
  have d: "distinct (as @ n # bs)" using chain_distinct [OF c] .
  have fr: "enext ?s = enext s" "thread_at ?s = thread_at s" "groups ?s = groups s" "elems ?s = elems s"
    by (auto simp: unlink_group_def Let_def)
  have "as \<noteq> [] \<Longrightarrow> last as \<in> set (as @ n # bs)" by simp
  then have "as \<noteq> [] \<Longrightarrow> last as \<in> dom (grps s)"
    using layoutD(7) [OF assms] by blast
  then have l: "as \<noteq> [] \<Longrightarrow> grps s ?l \<noteq> None" by auto
  have g: "group_at ?s m = group_at s m" if "m \<noteq> n" for m
    using that l by (cases "as = []") (auto simp: unlink_group_def Let_def group_at_def)
  have eq: "map (group_at ?s) (as @ bs) = map (group_at s) (as @ bs)"
    using d g by (intro map_cong refl) (metis Un_iff disjoint_insert(2) distinct.simps(2) distinct_append list.set(2) set_append)
  have im: "group_at ?s ` set (as @ bs) = group_at s ` set (as @ bs)"
    using eq by (metis list.set_map)
  have "distinct (map (group_at ?s) (as @ bs))"
    unfolding eq using layoutD(2) [OF assms] by auto
  moreover have "group_at s ` set (as @ bs) \<subseteq> dom (groups s)" using assms by (auto simp: layout_def)
  ultimately have "layout ?s (as @ bs) N"
    using assms unlink_group_chain [OF c] unfolding layout_def fr im by blast
  moreover have "listed ?s (as @ bs) = listed s (as @ bs)" using eq by (simp add: listed_def)
  moreover have "members ?s N = members s N" by (simp only: fun_eq_iff members_def fr) simp
  ultimately show ?thesis by (rule representsI)
qed

lemma remove_group_represents:
  assumes "represents s gl M" "groups s gid = Some G"
  shows "\<exists>s' e'. remove_group_from_groups K gid s e = Some (if gid \<in> set gl then 0 else 1, s', e') \<and>
    represents s' (if M gid = [] then remove1 gid gl else gl) M \<and> groups s' = groups s \<and>
    threads s' = threads s \<and> elems s' = elems s \<and> dom (grps s') \<subseteq> dom (grps s)"
proof -
  obtain gns N where L: "layout s gns N" "gl = listed s gns" "M = members s N"
    using assms(1) by (rule representsE)
  have sz: "numListSize G = 0 \<longleftrightarrow> M gid = []" using representsD(4) [OF assms] by auto
  note R = remove_group_loop_list [OF layoutD(1) [OF L(1)] assms(2), of NULL K "lock_groups e"]
  show ?thesis
  proof (cases "gid \<in> set gl")
    case False
    then have "gid \<notin> group_at s ` set gns" using L(2) by (auto simp: listed_def)
    then show ?thesis using R False assms(1) by (auto simp: remove_group_from_groups_def remove1_idem)
  next
    case True
    then have "gid \<in> group_at s ` set gns" using L(2) by (auto simp: listed_def)
    then obtain as n bs where n: "gns = as @ n # bs" "group_at s n = gid"
      "remove_group_loop K gid NULL (list_start s) s (lock_groups e) =
        (if numListSize G = 0
         then Some (0, unlink_group (last (NULL # as)) n s, snd (sys_rv K (Free n) (lock_groups e)))
         else Some (0, s, lock_groups e))" using R by auto
    have "gid \<notin> set (listed s as)" using layoutD(2) [OF L(1)] n(1,2) by (auto simp: listed_def)
    then have "remove1 gid gl = listed s (as @ bs)"
      using L(2) n(1,2) remove1_after [of gid "listed s as" "listed s bs"] by (simp add: listed_def)
    moreover have "represents (unlink_group (last (NULL # as)) n s) (listed s (as @ bs)) M"
      using unlink_group_represents L(1,3) n(1) by simp
    moreover have "dom (grps (unlink_group (last (NULL # as)) n s)) \<subseteq> dom (grps s)"
    proof -
      have "as \<noteq> [] \<Longrightarrow> last as \<in> set (as @ n # bs)" by simp
      then have "as \<noteq> [] \<Longrightarrow> last as \<in> dom (grps s)"
        using layoutD(7) [OF L(1)] n(1) by blast
      then show ?thesis by (auto simp: unlink_group_def Let_def split: if_splits)
    qed
    ultimately show ?thesis using n(3) True assms(1) sz
      by (auto simp: remove_group_from_groups_def unlink_group_def Let_def)
  qed
qed

section \<open>What the calls do to the lists\<close>

fun drop_member :: "addr \<Rightarrow> addr list \<Rightarrow> addr list" where
  "drop_member t [] = []"
| "drop_member t [x] = []"
| "drop_member t (x # y # ys) = x # remove1 t (y # ys)"

lemma empty_group_represents:
  assumes "represents s gl M" "groups s gid = Some g" "numListSize g = 1"
  shows "represents (empty_group gid (grp_members g) s) gl (M(gid := []))"
proof -
  obtain gns N where L: "layout s gns N" "gl = listed s gns" "M = members s N"
    using assms(1) by (rule representsE)
  obtain p where p: "N gid = [p]" using layoutD(5) [OF L(1) assms(2)] assms(3) by (auto simp: length_Suc_conv)
  then have g: "grp_members g = p" using layoutD(4) [OF L(1) assms(2)] by simp
  have "listed (empty_group gid p s) gns = gl" using L(2) by (simp add: listed_def empty_group_def)
  then show ?thesis unfolding g using empty_group_layout [OF L(1) assms(2) p] L(3) by (blast intro: representsI)
qed

lemma remove_thread_list:
  assumes "represents s gl M" "groups s gid = Some g" "M gid \<noteq> []"
  shows "\<exists>rc s' e'. remove_thread_from_group K gid t s e = Some (rc, s', e') \<and>
    rc = (if length (M gid) = 1 \<or> t \<in> set (tl (M gid)) then 0 else - ESRCH) \<and>
    represents s' (if length (M gid) = 1 \<and> deleteMe g then remove1 gid gl else gl)
      (M(gid := drop_member t (M gid))) \<and>
    (rc \<noteq> 0 \<longrightarrow> s' = s \<and> errno e' = ESRCH) \<and> threads s' = threads s \<and> dom (groups s') = dom (groups s)"
proof -
  obtain gns N where L: "layout s gns N" "gl = listed s gns" "M = members s N"
    using assms(1) by (rule representsE)
  have sz: "numListSize g = int (length (M gid))" using representsD(4) [OF assms(1,2)] .
  show ?thesis
  proof (cases "length (M gid) = 1")
    case True
    then have one: "numListSize g = 1" and d: "drop_member t (M gid) = []"
      using sz by (auto simp: length_Suc_conv)
    let ?s = "empty_group gid (grp_members g) s"
    have R: "represents ?s gl (M(gid := []))" using empty_group_represents [OF assms(1,2) one] .
    have u: "upd_group gid (\<lambda>g. g\<lparr>numListSize := numListSize g - 1\<rparr>) s \<bind>
        (\<lambda>s1. upd_group gid (\<lambda>g. g\<lparr>grp_members := NULL\<rparr>)
           (s1\<lparr>elems := (elems s1)(grp_members g := None)\<rparr>)) = Some ?s"
      using assms(2) one by (simp add: upd_group_def empty_group_def)
    have gs: "groups ?s gid = Some (g\<lparr>numListSize := 0, grp_members := NULL\<rparr>)"
      "dom (groups ?s) = dom (groups s)" "threads ?s = threads s"
      using assms(2) by (auto simp: empty_group_def)
    let ?e = "unlock_groups (snd (sys_rv K (Free (grp_members g)) (lock_groups e)))"
    obtain s2 e2 where rem: "remove_group_from_groups K gid ?s ?e =
        Some (if gid \<in> set gl then 0 else 1, s2, e2)" "represents s2 (remove1 gid gl) (M(gid := []))"
      "groups s2 = groups ?s" "threads s2 = threads ?s"
      using remove_group_represents [OF R gs(1), of K ?e] by auto
    show ?thesis
      using u rem R gs assms(2) one True d
      by (cases "deleteMe g")
        (auto simp: remove_thread_from_group_def Let_def bind_eq_Some_conv split: Option.bind_splits)
  next
    case False
    then have no: "numListSize g \<noteq> 1" using sz by auto
    obtain p ns where N: "N gid = p # ns" using assms(3) L(3) by (cases "N gid") (auto simp: members_def)
    have c: "chain (enext s) (grp_members g) (p # ns)" using layoutD(4) [OF L(1) assms(2)] N by simp
    then have gp: "grp_members g = p" by simp
    have rm: "remove_thread_from_group K gid t s e = remove_thread_loop K gid t p s (lock_groups e)"
      using assms(2) no gp by (simp add: remove_thread_from_group_def Let_def)
    have M: "M gid = thread_at s p # map (thread_at s) ns" using L(3) N by (simp add: members_def)
    then obtain y ys where ys: "map (thread_at s) ns = y # ys" using False by (cases ns) auto
    note R = remove_thread_loop_list [OF c [unfolded gp], of gid t K "lock_groups e"]
    show ?thesis
    proof (cases "t \<in> thread_at s ` set ns")
      case t: True
      then obtain as a b bs where s: "p # ns = as @ a # b # bs" "thread_at s b = t"
        "t \<notin> thread_at s ` set (tl (as @ [a]))"
        "remove_thread_loop K gid t p s (lock_groups e) =
          Some (0, unlink gid a b s, unlock_groups (snd (sys_rv K (Free b) (lock_groups e))))"
        using R assms(2) by auto
      have N': "N gid = as @ a # b # bs" using N s(1) by simp
      have ns: "ns = tl (as @ [a]) @ b # bs" using s(1) by (cases as) auto
      have "remove1 t (map (thread_at s) ns) = map (thread_at s) (tl (as @ [a]) @ bs)"
        using s(2,3) remove1_after [of t "map (thread_at s) (tl (as @ [a]))"] ns by simp
      moreover have "thread_at s p # map (thread_at s) (tl (as @ [a]) @ bs) = map (thread_at s) (as @ a # bs)"
        using s(1) by (cases as) auto
      ultimately have d: "drop_member t (M gid) = map (thread_at s) (as @ a # bs)"
        using M ys by simp
      have "listed (unlink gid a b s) gns = gl" using L(2) by (simp add: listed_def unlink_def)
      then have "represents (unlink gid a b s) gl (M(gid := drop_member t (M gid)))"
        unfolding d using unlink_layout [OF L(1) assms(2) N'] L(3) by (blast intro: representsI)
      moreover have "t \<in> set (tl (M gid))" using t M by auto
      ultimately show ?thesis using rm s(4) False assms(2) by (auto simp: unlink_def)
    next
      case t: False
      then have "remove1 t (y # ys) = y # ys" using ys by (metis list.set_map remove1_idem)
      then have "drop_member t (M gid) = M gid" using M ys by simp
      moreover have "t \<notin> set (tl (M gid))" using t M by auto
      ultimately show ?thesis using rm R t False assms(1,2) by auto
    qed
  qed
qed

definition sample_lists :: libspe12 where
  "sample_lists = libspe12_start\<lparr>list_start := 8, list_count := 1,
     grps := [8 \<mapsto> \<lparr>gp_next = NULL, gp_group = 100\<rparr>],
     elems := [16 \<mapsto> \<lparr>el_next = NULL, el_thread = 200\<rparr>, 32 \<mapsto> \<lparr>el_next = 16, el_thread = 300\<rparr>],
     groups := [100 \<mapsto> \<lparr>policy = 0, priority = 0, use_events = True, grp_members = 32,
       numListSize = 2, deleteMe = False\<rparr>]\<rparr>"

lemma sample_lists_represents: "represents sample_lists [100] ((\<lambda>_. [])(100 := [300, 200]))"
proof (rule representsI [of _ "[8]" "(\<lambda>_. [])(100 := [32, 16])"])
  show "layout sample_lists [8] ((\<lambda>_. [])(100 := [32, 16]))"
    by (auto simp: layout_def sample_lists_def enext_def gnext_def group_at_def libspe12_start_def split: if_splits)
  show "listed sample_lists [8] = [100]" by (simp add: listed_def group_at_def sample_lists_def)
  show "members sample_lists ((\<lambda>_. [])(100 := [32, 16])) = (\<lambda>_. [])(100 := [300, 200])"
    by (simp add: fun_eq_iff members_def thread_at_def sample_lists_def)
qed

lemma sample_lists_group: "\<exists>g. groups sample_lists 100 = Some g \<and> \<not> deleteMe g"
  by (simp add: sample_lists_def)

text \<open>
  C15: \<open>remove_thread_from_group\<close> on the linked lists refines \<open>drop_member\<close> on lists of members: the only
  member of a group is dropped whoever was asked for, and a longer list loses the thread unless it
  is the first; a thread that is not found is \<open>ESRCH\<close> and changes nothing. Removing the last member of a
  group that was destroyed takes the group off the list of groups.
\<close>

theorem remove_thread_refines:
  assumes "represents s gl M" "groups s gid = Some g" "M gid \<noteq> []"
  shows "\<exists>rc s' e'. remove_thread_from_group K gid t s e = Some (rc, s', e') \<and>
    rc = (if length (M gid) = 1 \<or> t \<in> set (tl (M gid)) then 0 else - ESRCH) \<and>
    represents s' (if length (M gid) = 1 \<and> deleteMe g then remove1 gid gl else gl)
      (M(gid := drop_member t (M gid))) \<and>
    (rc \<noteq> 0 \<longrightarrow> s' = s \<and> errno e' = ESRCH) \<and> threads s' = threads s \<and> dom (groups s') = dom (groups s)"
  by (rule remove_thread_list [OF assms])

theorem remove_thread_refines_witness:
  "\<exists>s' e'. remove_thread_from_group (const_kernel (reply_ok 0)) 100 200 sample_lists (start_env Map.empty ()) =
     Some (0, s', e') \<and> represents s' [100] ((\<lambda>_. [])(100 := [300]))"
proof -
  obtain g where g: "groups sample_lists 100 = Some g" "\<not> deleteMe g" using sample_lists_group by blast
  show ?thesis
    using remove_thread_refines [OF sample_lists_represents g(1),
        of "const_kernel (reply_ok 0)" 200 "start_env Map.empty ()"] g(2) by auto
qed

text \<open>
  the youngest member of a group with several threads is never taken out: the call reports \<open>ESRCH\<close>,
  leaves the lists as they are, and the searches go on finding the thread.
\<close>

theorem newest_thread_stays:
  assumes "represents s gl M" "gid \<in> set gl" "M gid = t # u # ts" "t \<notin> set (u # ts)"
  shows "\<exists>e' e''. remove_thread_from_group K gid t s e = Some (- ESRCH, s, e') \<and> errno e' = ESRCH \<and>
    srch_thread t s e' = Some (True, e'')"
proof -
  obtain g where g: "groups s gid = Some g" using representsD(2) [OF assms(1,2)] by auto
  have ne: "M gid \<noteq> []" using assms(3) by simp
  obtain gns N where L: "layout s gns N" "gl = listed s gns" "M = members s N"
    using assms(1) by (rule representsE)
  have "\<exists>g \<in> set (listed s gns). t \<in> set (members s N g)" using assms(2,3) L(2,3) by force
  moreover obtain rc s' e' where r: "remove_thread_from_group K gid t s e = Some (rc, s', e')"
    "rc = - ESRCH" "rc \<noteq> 0 \<longrightarrow> s' = s \<and> errno e' = ESRCH"
    using remove_thread_list [OF assms(1) g ne, of K t e] assms(3,4) by auto
  ultimately show ?thesis using srch_thread_list [OF L(1), of t e'] by auto
qed

theorem newest_thread_stays_witness:
  "\<exists>e' e''. remove_thread_from_group (const_kernel (reply_ok 0)) 100 300 sample_lists (start_env Map.empty ()) =
     Some (- ESRCH, sample_lists, e') \<and> srch_thread 300 sample_lists e' = Some (True, e'')"
  using newest_thread_stays [OF sample_lists_represents, of 100 300 200 "[]"
      "const_kernel (reply_ok 0)" "start_env Map.empty ()"] by auto

section \<open>New groups\<close>

lemma new_group_represents:
  assumes "represents s gl M" "groups s g = None" "grp_members G = NULL" "numListSize G = 0"
  shows "represents (s\<lparr>groups := (groups s)(g \<mapsto> G)\<rparr>) gl M"
proof -
  obtain gns N where L: "layout s gns N" "gl = listed s gns" "M = members s N"
    using assms(1) by (rule representsE)
  have "N g = []" using L(1) assms(2) by (simp add: layout_def)
  then have "layout (s\<lparr>groups := (groups s)(g \<mapsto> G)\<rparr>) gns N"
    using L(1) assms(2-4) by (auto simp: layout_def)
  moreover have "listed (s\<lparr>groups := (groups s)(g \<mapsto> G)\<rparr>) gns = gl"
    "members (s\<lparr>groups := (groups s)(g \<mapsto> G)\<rparr>) N = M"
    using L by (simp_all add: listed_def members_def fun_eq_iff)
  ultimately show ?thesis by (rule representsI)
qed

lemma list_group_represents:
  assumes "represents s gl M" "groups s g \<noteq> None" "g \<notin> set gl" "grps s p = None" "p \<noteq> NULL"
  shows "represents (s\<lparr>grps := (grps s)(p \<mapsto> \<lparr>gp_next = list_start s, gp_group = g\<rparr>), list_start := p,
     list_count := n\<rparr>) (g # gl) M"
proof -
  obtain gns N where L: "layout s gns N" "gl = listed s gns" "M = members s N"
    using assms(1) by (rule representsE)
  let ?s = "s\<lparr>grps := (grps s)(p \<mapsto> \<lparr>gp_next = list_start s, gp_group = g\<rparr>), list_start := p, list_count := n\<rparr>"
  have p: "p \<notin> set gns" using layoutD(7) [OF L(1)] assms(4) by auto
  have at: "group_at ?s m = (if m = p then g else group_at s m)" for m by (simp add: group_at_def)
  have eq: "map (group_at ?s) gns = map (group_at s) gns" using p at by (intro map_cong) auto
  then have "group_at ?s ` set gns = group_at s ` set gns" by (metis list.set_map)
  moreover have "distinct (map (group_at ?s) gns)" unfolding eq using layoutD(2) [OF L(1)] .
  ultimately have "layout ?s (p # gns) N"
    using L(1) assms(2,3,5) p eq at [of p] L(2) unfolding layout_def by (auto simp: listed_def)
  moreover have "listed ?s (p # gns) = g # gl" using eq at [of p] L(2) by (simp add: listed_def)
  moreover have "members ?s N = M" using L(3) by (simp add: members_def fun_eq_iff)
  ultimately show ?thesis by (rule representsI)
qed

lemma gid_setup_represents:
  assumes "represents s gl M" "spe_gid_setup K pol prio ev s e = (g, s', e')"
    and "malloc_misses K e SIZEOF_GROUP_STORE (dom (groups s))"
    and "malloc_misses K (snd (sys_rv K (Malloc SIZEOF_GROUP_STORE) e)) SIZEOF_LIST_ELEM (dom (grps s))"
  shows "g = NULL \<and> s' = s \<or> g \<noteq> NULL \<and> groups s g = None \<and> groups s' g \<noteq> None \<and>
    (represents s' (g # gl) M \<or> represents s' gl M)"
proof -
  obtain p e1 where m: "sys_rv K (Malloc SIZEOF_GROUP_STORE) e = (p, e1)" by fastforce
  obtain q e2 where n: "sys_rv K (Malloc SIZEOF_LIST_ELEM) e1 = (q, e2)" by fastforce
  show ?thesis
  proof (cases "p \<le> 0")
    case True
    then show ?thesis using assms(2) m by (simp add: spe_gid_setup_def)
  next
    case False
    let ?G = "\<lparr>policy = pol, priority = prio, use_events = ev, grp_members = NULL,
                 numListSize = 0, deleteMe = False\<rparr>"
    let ?s = "s\<lparr>groups := (groups s)(nat p \<mapsto> ?G)\<rparr>"
    have fresh: "groups s (nat p) = None" "nat p \<noteq> NULL"
      using False assms(3) m by (auto simp: malloc_misses_def)
    have R: "represents ?s gl M" by (rule new_group_represents [OF assms(1) fresh(1)]) simp_all
    have nl: "nat p \<notin> set gl" using representsD(2) [OF assms(1), of "nat p"] fresh(1) by blast
    show ?thesis
    proof (cases "q \<le> 0")
      case True
      then show ?thesis using assms(2) m n False fresh R by (auto simp: spe_gid_setup_def add_group_to_groups_def)
    next
      case q: False
      then have "grps ?s (nat q) = None" "nat q \<noteq> NULL" using assms(4) m n by (auto simp: malloc_misses_def)
      then show ?thesis using assms(2) m n False q fresh list_group_represents [OF R _ nl]
        by (auto simp: spe_gid_setup_def add_group_to_groups_def Let_def)
    qed
  qed
qed

section \<open>Histories\<close>

text \<open>
  The states the list operations reach, in whatever order the calls of the layer make them, with any
  other work of the process in between. \<open>malloc\<close> never hands out a block that is in use.
\<close>

inductive group_history :: "'w kernel \<Rightarrow> libspe12 \<Rightarrow> 'w env \<Rightarrow> bool" for K where
  start: "group_history K libspe12_start e"
| other: "group_history K s e \<Longrightarrow> group_history K s e'"
| create: "group_history K s e \<Longrightarrow> spe_create_group K pol prio ev s e = (g, s', e') \<Longrightarrow>
    malloc_misses K e SIZEOF_GROUP_STORE (dom (groups s)) \<Longrightarrow>
    malloc_misses K (snd (sys_rv K (Malloc SIZEOF_GROUP_STORE) e)) SIZEOF_LIST_ELEM (dom (grps s)) \<Longrightarrow>
    group_history K s' e'"
| destroy: "group_history K s e \<Longrightarrow> spe_destroy_group K gid s e = Some (rc, s', e') \<Longrightarrow> group_history K s' e'"
| set_priority: "group_history K s e \<Longrightarrow> spe_set_priority gid prio s e = Some (rc, s', e') \<Longrightarrow>
    group_history K s' e'"
| join: "group_history K s e \<Longrightarrow> add_thread_to_group K gid t s e = Some (rc, s', e') \<Longrightarrow>
    malloc_misses K e SIZEOF_LIST_ELEM (dom (elems s)) \<Longrightarrow> group_history K s' e'"
| leave: "group_history K s e \<Longrightarrow> remove_thread_from_group K gid t s e = Some (rc, s', e') \<Longrightarrow>
    group_history K s' e'"
| thread_data: "group_history K s e \<Longrightarrow> group_history K (s\<lparr>threads := ts\<rparr>) e"

lemma start_represents: "represents libspe12_start [] (\<lambda>_. [])"
  by (rule representsI [of _ "[]" "\<lambda>_. []"])
    (simp_all add: layout_def libspe12_start_def listed_def members_def fun_eq_iff)

lemma group_history_represents: "group_history K s e \<Longrightarrow> \<exists>gl M. represents s gl M"
proof (induction rule: group_history.induct)
  case (start e)
  then show ?case using start_represents by blast
next
  case (create s e pol prio ev g s' e')
  then obtain gl M where R: "represents s gl M" by blast
  show ?case
    using create gid_setup_represents [OF R] R
    by (auto simp: spe_create_group_def split: if_splits) blast+
next
  case (destroy s e gid rc s' e')
  then obtain gl M where R: "represents s gl M" by blast
  obtain s1 e1 G where "upd_group gid (\<lambda>g. g\<lparr>deleteMe := True\<rparr>) s = Some s1 \<and>
      (\<exists>rc. remove_group_from_groups K gid s1 e1 = Some (rc, s', e')) \<and> groups s1 gid = Some G \<or> s' = s"
    using destroy.hyps(2)
    by (fastforce simp: spe_destroy_group_def upd_group_def split: Option.bind_splits if_splits prod.splits)
  then show ?case
  proof
    assume u: "upd_group gid (\<lambda>g. g\<lparr>deleteMe := True\<rparr>) s = Some s1 \<and>
      (\<exists>rc. remove_group_from_groups K gid s1 e1 = Some (rc, s', e')) \<and> groups s1 gid = Some G"
    have "represents s1 gl M"
      by (rule represents_upd_group [OF R, where g = gid and f = "\<lambda>g. g\<lparr>deleteMe := True\<rparr>"])
        (use u in \<open>auto simp: same_lists_def\<close>)
    from remove_group_represents [OF this, of gid G K e1] u
    have "represents s' (if M gid = [] then remove1 gid gl else gl) M" by auto
    then show ?thesis by blast
  qed (use R in auto)
next
  case (set_priority s e gid prio rc s' e')
  then obtain gl M where R: "represents s gl M" by blast
  have "s' = s \<or> upd_group gid (\<lambda>g. g\<lparr>priority := prio\<rparr>) s = Some s'"
    using set_priority.hyps(2) by (auto simp: spe_set_priority_def split: Option.bind_splits if_splits)
  then show ?case
  proof
    assume u: "upd_group gid (\<lambda>g. g\<lparr>priority := prio\<rparr>) s = Some s'"
    have "represents s' gl M" by (rule represents_upd_group [OF R u]) (simp add: same_lists_def)
    then show ?thesis by blast
  qed (use R in auto)
next
  case (join s e gid t rc s' e')
  then obtain gl M where R: "represents s gl M" by blast
  show ?case
  proof (cases "groups s gid")
    case None
    then have "s' = s" using join.hyps(2)
      by (auto simp: add_thread_to_group_def Let_def split: prod.splits if_splits)
    then show ?thesis using R by blast
  next
    case (Some g)
    then show ?thesis using add_thread_represents [OF R _ join.hyps(3), of gid t] join.hyps(2) R by auto
  qed
next
  case (leave s e gid t rc s' e')
  then obtain gl M where R: "represents s gl M" by blast
  then obtain gns N where L: "layout s gns N" "M = members s N" by (auto elim: representsE)
  obtain g where g: "groups s gid = Some g"
    using leave.hyps(2) by (auto simp: remove_thread_from_group_def split: Option.bind_splits)
  show ?case
  proof (cases "M gid = []")
    case True
    then have "N gid = []" using L(2) by (simp add: members_def)
    then have "grp_members g = NULL" "numListSize g = 0" using layoutD(4,5) [OF L(1) g] by auto
    then have False using leave.hyps(2) g layoutD(9) [OF L(1)]
      by (simp add: remove_thread_from_group_def Let_def remove_thread_loop.simps)
    then show ?thesis ..
  next
    case False
    then show ?thesis using remove_thread_list [OF R g False, of K t e] leave.hyps(2) by auto
  qed
qed auto

text \<open>
  C21: In every reachable state the two levels of lists are well formed. The list of groups is a chain of distinct nodes and
  names no group twice; the members of a listed group are a chain of distinct nodes too, as many as the group's count says;
  no node belongs to two groups. Both searches end and find exactly what is listed, and \<open>spe_get_threads\<close> returns the
  members in the order of the chain. (The count of the list of groups itself is only ever incremented; nothing reads it.)
\<close>

theorem group_lists_well_formed:
  assumes "group_history K s e"
  shows "\<exists>gns N gl M. chain (gnext s) (list_start s) gns \<and> distinct gns \<and> gl = map (group_at s) gns \<and> distinct gl \<and>
    (\<forall>g \<in> set gl. \<exists>G. groups s g = Some G \<and> chain (enext s) (grp_members G) (N g) \<and> distinct (N g) \<and>
       numListSize G = int (length (N g)) \<and> M g = map (thread_at s) (N g)) \<and>
    (\<forall>g h. g \<noteq> h \<longrightarrow> set (N g) \<inter> set (N h) = {}) \<and>
    (\<forall>t. \<exists>e'. srch_thread t s e = Some ((\<exists>g \<in> set gl. t \<in> set (M g)), e')) \<and>
    (\<forall>g. \<exists>e'. srch_group g s e = Some (g \<in> set gl, e')) \<and>
    (\<forall>g \<in> set gl. g \<noteq> NULL \<longrightarrow> (\<exists>e'. spe_get_threads g True s e = Some (int (length (M g)), M g, e')))"
proof -
  obtain gl M where R: "represents s gl M" using group_history_represents [OF assms] by blast
  then obtain gns N where L: "layout s gns N" "gl = listed s gns" "M = members s N" by (rule representsE)
  have arr: "chain (enext s) p ns \<Longrightarrow> member_array s p (length ns) = Some (map (thread_at s) ns)" for p ns
    by (induction ns arbitrary: p) (auto simp: next_Some thread_at_def)
  have "\<exists>e'. spe_get_threads g True s e = Some (int (length (M g)), M g, e')"
    if g: "g \<in> set gl" "g \<noteq> NULL" for g
  proof -
    obtain G where G: "groups s g = Some G" using representsD(2) [OF R g(1)] by auto
    obtain e' where "srch_group g s e = Some (True, e')"
      using srch_group_list [OF L(1), of g e] g(1) L(2) by auto
    then show ?thesis
      using g(2) G arr [OF layoutD(4) [OF L(1) G]] layoutD(5) [OF L(1) G] L(3)
      by (simp add: spe_get_threads_def group_known_def members_def)
  qed
  moreover have "\<exists>G. groups s g = Some G \<and> chain (enext s) (grp_members G) (N g) \<and> distinct (N g) \<and>
      numListSize G = int (length (N g)) \<and> M g = map (thread_at s) (N g)" if "g \<in> set gl" for g
    using representsD(2) [OF R that] layoutD(4,5) [OF L(1), of g] chain_distinct L(3) by (fastforce simp: members_def)
  moreover have "distinct gl" "chain (gnext s) (list_start s) gns" "distinct gns"
    using layoutD(1,2) [OF L(1)] L(2) by (auto simp: listed_def distinct_map)
  ultimately show ?thesis
    using layoutD(6) [OF L(1)] srch_thread_list [OF L(1), of _ e] srch_group_list [OF L(1), of _ e] L(2,3)
    by - (rule exI [of _ gns], rule exI [of _ N], rule exI [of _ gl], rule exI [of _ M], auto simp: listed_def, metis+)
qed

theorem group_lists_well_formed_witness:
  "\<exists>s' e' gns N gl M. spe_create_group script_kernel SCHED_OTHER 0 True libspe12_start
      (start_env Map.empty [reply_ok 100, reply_ok 8]) = (100, s', e') \<and>
    chain (gnext s') (list_start s') gns \<and> distinct gns \<and> gl = map (group_at s') gns \<and> distinct gl \<and>
    (\<forall>g \<in> set gl. \<exists>G. groups s' g = Some G \<and> chain (enext s') (grp_members G) (N g) \<and> distinct (N g) \<and>
       numListSize G = int (length (N g)) \<and> M g = map (thread_at s') (N g)) \<and>
    (\<forall>g h. g \<noteq> h \<longrightarrow> set (N g) \<inter> set (N h) = {}) \<and>
    (\<forall>t. \<exists>e''. srch_thread t s' e' = Some ((\<exists>g \<in> set gl. t \<in> set (M g)), e'')) \<and>
    (\<forall>g. \<exists>e''. srch_group g s' e' = Some (g \<in> set gl, e''))"
proof -
  let ?e = "start_env Map.empty [reply_ok 100, reply_ok 8]"
  obtain s' e' where c: "spe_create_group script_kernel SCHED_OTHER 0 True libspe12_start ?e = (100, s', e')"
    by (simp add: spe_create_group_def check_priority_def spe_gid_setup_def add_group_to_groups_def
        sys_rv_def sys_def sample_simps Let_def)
  have "group_history script_kernel s' e'"
    by (rule group_history.create [OF group_history.start c])
      (simp_all add: malloc_misses_def sys_rv_def sys_def sample_simps libspe12_start_def)
  from group_lists_well_formed [OF this] c show ?thesis
    by (elim exE conjE, intro exI conjI) assumption+
qed

end
