(* ===== verification/Thread_Samples.thy ===== *)
theory Thread_Samples
  imports Spe_Threads Group_Lists
begin

unbundle bit_operations_syntax

text \<open>
  A concrete thread for the witnesses: a kernel that grants everything at one address, and the state of
  the layer after \<open>spe_create_thread\<close> has started the sample program of \<open>Elf_Correct\<close> on it.
\<close>

definition thread_reply :: "sysreq \<Rightarrow> reply" where
  "thread_reply q =
     (case q of
        Opendir _ \<Rightarrow> reply_ok 0
      | Getenv _ \<Rightarrow> reply_ok 0
      | Mmap _ _ \<Rightarrow> reply_ok 0x100000
      | PthreadCreate _ \<Rightarrow> (reply_ok 0)\<lparr>rvals := [7]\<rparr>
      | PthreadJoin _ \<Rightarrow> reply_ok 0
      | PthreadCancel _ \<Rightarrow> reply_ok 0
      | Pipe \<Rightarrow> reply_words 0 [3, 4]
      | SpuRun _ _ \<Rightarrow> stop_reply 0x2003 0
      | _ \<Rightarrow> reply_ok 5)"

definition thread_kernel :: "unit kernel" where
  "thread_kernel q x = (thread_reply q, x)"

definition sample_created :: "(addr \<times> libspe12 \<times> unit env) option" where
  "sample_created = spe_create_thread thread_kernel 8 4096 blank_context 7 NULL (Some sample_handle) 0 0 1 0
     libspe12_start (start_env sample_mem ())"

lemma thread_kernel_sys [simp]:
  "sys thread_kernel q e = (thread_reply q, e\<lparr>errno := (case rerr (thread_reply q) of None \<Rightarrow> errno e | Some x \<Rightarrow> x),
     trace := trace e @ [(q, rv (thread_reply q))]\<rparr>)"
  "sys_rv thread_kernel q e = (rv (thread_reply q),
     e\<lparr>errno := (case rerr (thread_reply q) of None \<Rightarrow> errno e | Some x \<Rightarrow> x),
       trace := trace e @ [(q, rv (thread_reply q))]\<rparr>)"
  by (simp_all add: sys_def sys_rv_def thread_kernel_def)

lemma sample_program_loads:
  assumes "mem e = sample_mem" "mem_mmap_base c = 0x100000"
    "\<not> has_flag (flags c) SPE_ISOLATE" "\<not> has_flag (flags c) SPE_ISOLATE_EMULATE"
  shows "\<exists>e'. base_spe_program_load thread_kernel 8 4096 7 c sample_handle cache e =
    Some (0, c\<lparr>loaded_program := Some sample_handle, entry := 0x80, emulated_entry := 0x80\<rparr>, cache, e')"
proof -
  have "plain_image (mem e) (elf_image sample_handle) (mem_mmap_base c)
      [sample_phdr] (\<lambda>_. [0xDE, 0xAD, 0xBE, 0xEF]) [sample_shdr]"
    using sample_plain assms(1,2) by (simp add: sample_handle_def)
  moreover have "mapped (mem e) (mem_mmap_base c) LS_SIZE"
    using assms(1,2) by (simp add: mapped_def sample_mem_def)
  moreover have "e_entry (mem e) (elf_image sample_handle) = Some 0x80"
    using assms(1) by (simp add: sample_handle_def sample_fields)
  ultimately obtain m where "base_spe_load_spe_elf sample_handle (mem_mmap_base c) e =
      Some (0, Some 0x80, e\<lparr>mem := m\<rparr>)"
    using load_spe_elf_ok by blast
  then show ?thesis using assms(3,4) by (simp add: base_spe_program_load_def set_entries_def Let_def)
qed

definition sample_context :: "spe_context" where
  "sample_context = (fresh_context blank_context 5 5)\<lparr>fd_spe_dir := 5, flags := SPE_EVENTS_ENABLE,
     mem_mmap_base := 0x100000\<rparr>"

definition sample_thread :: "spe_context option \<Rightarrow> thread_store" where
  "sample_thread c = zero_thread\<lparr>group_id := 5, ts_flags := SPE_EVENTS_ENABLE, spectx := c\<rparr>"

definition sample_store :: "thread_store \<Rightarrow> libspe12" where
  "sample_store T = libspe12_start\<lparr>list_start := 5, list_count := 1,
     grps := [5 \<mapsto> \<lparr>gp_next = NULL, gp_group = 5\<rparr>], elems := [5 \<mapsto> \<lparr>el_next = NULL, el_thread = 5\<rparr>],
     groups := [5 \<mapsto> \<lparr>policy = SCHED_OTHER, priority = 0, use_events = False, grp_members = 5,
       numListSize = 1, deleteMe = False\<rparr>],
     threads := [5 \<mapsto> T], check_env := False\<rparr>"

lemma sample_context_created:
  "mem e = sample_mem \<Longrightarrow> \<exists>e'. base_spe_context_create thread_kernel 8 4096 blank_context SPE_EVENTS_ENABLE None None
     cache e = Some (Some sample_context, cache, e') \<and> mem e' = sample_mem"
  by (simp add: base_spe_context_create_def create_dir_def create_areas_def create_signals_def spu_create_def
      mapfileat_def context_flags_def sample_context_def thread_reply_def reply_ok_def Let_def has_flag_def
      fresh_context_def ptr_of_def)

definition loaded_context :: "spe_context" where
  "loaded_context = sample_context\<lparr>loaded_program := Some sample_handle, entry := 0x80,
     emulated_entry := 0x80, ev_pipe := (3, 4)\<rparr>"

definition sample_group :: libspe12 where
  "sample_group = libspe12_start\<lparr>list_start := 5, list_count := 1,
     grps := [5 \<mapsto> \<lparr>gp_next = NULL, gp_group = 5\<rparr>],
     groups := [5 \<mapsto> \<lparr>policy = SCHED_OTHER, priority = 0, use_events = False, grp_members = NULL,
       numListSize = 0, deleteMe = False\<rparr>], check_env := False\<rparr>"

lemma sample_group_set_up: "mem e = sample_mem \<Longrightarrow> \<exists>e'. spe_gid_setup thread_kernel SCHED_OTHER 0 False
    (libspe12_start\<lparr>check_env := False\<rparr>) e = (5, sample_group, e') \<and> mem e' = sample_mem"
  by (simp add: spe_gid_setup_def add_group_to_groups_def thread_reply_def reply_ok_def Let_def
      libspe12_start_def lock_groups_def unlock_groups_def sample_group_def)

lemma sample_program_set_up:
  assumes "mem e = sample_mem"
  shows "\<exists>e'. setup_program thread_kernel 8 4096 7 5 (sample_thread None) sample_context sample_handle
    (sample_group\<lparr>threads := [5 \<mapsto> sample_thread (Some sample_context)]\<rparr>) e =
    Some (5, sample_store (sample_thread (Some loaded_context)), e')"
proof -
  have c: "mem_mmap_base sample_context = 0x100000" "\<not> has_flag (flags sample_context) SPE_ISOLATE"
    "\<not> has_flag (flags sample_context) SPE_ISOLATE_EMULATE"
    by (simp_all add: sample_context_def has_flag_def)
  obtain e1 where "base_spe_program_load thread_kernel 8 4096 7 sample_context sample_handle None e =
      Some (0, sample_context\<lparr>loaded_program := Some sample_handle, entry := 0x80, emulated_entry := 0x80\<rparr>, None, e1)"
    using sample_program_loads [OF assms c] by blast
  then show ?thesis
    by (simp add: setup_program_def sample_group_def libspe12_start_def add_thread_to_group_def thread_reply_def
        reply_ok_def reply_words_def Let_def upd_group_def upd_thread_def sample_thread_def zero_thread_def
        sample_store_def loaded_context_def pipe_fds_def lock_groups_def unlock_groups_def write_object_id_def
        base_spe_spe_dir_get_def)
qed

lemma sample_spe_setup:
  assumes "mem e = sample_mem"
  shows "\<exists>e'. spe_setup thread_kernel 8 4096 blank_context 7 NULL sample_handle 0 0 0
    (libspe12_start\<lparr>check_env := False\<rparr>) e =
    Some (5, sample_store (sample_thread (Some loaded_context)), e')"
proof -
  obtain e1 where g: "spe_gid_setup thread_kernel SCHED_OTHER 0 False
      (libspe12_start\<lparr>check_env := False\<rparr>) e = (5, sample_group, e1)" "mem e1 = sample_mem"
    using sample_group_set_up [OF assms] by blast
  obtain e2 where m: "sys_rv thread_kernel (Malloc SIZEOF_THREAD_STORE) e1 = (5, e2)" "mem e2 = sample_mem"
    using g(2) by (simp add: thread_reply_def reply_ok_def)
  obtain e3 where c: "base_spe_context_create thread_kernel 8 4096 blank_context SPE_EVENTS_ENABLE None None
      None e2 = Some (Some sample_context, None, e3)" "mem e3 = sample_mem"
    using sample_context_created [OF m(2), of None] by blast
  have "setup_program thread_kernel 8 4096 7 5 (sample_thread None) sample_context sample_handle
    (sample_group\<lparr>threads := [5 \<mapsto> sample_thread (Some sample_context)]\<rparr>) e3 = spe_setup thread_kernel 8 4096 blank_context 7 NULL sample_handle 0 0 0
    (libspe12_start\<lparr>check_env := False\<rparr>) e"
    using g(1) m(1) c(1)
    by (simp add: spe_setup_def libspe12_start_def sample_group_def sample_thread_def Let_def zero_thread_def
       del: thread_kernel_sys)
  then show ?thesis using sample_program_set_up [OF c(2)] by simp
qed

lemma sample_environment:
  "mem e = sample_mem \<Longrightarrow> \<exists>e'. env_check thread_kernel libspe12_start e =
    (libspe12_start\<lparr>check_env := False\<rparr>, e') \<and> mem e' = sample_mem"
  by (simp add: env_check_def env_int_def thread_reply_def reply_ok_def libspe12_start_def)

definition sample_started :: libspe12 where
  "sample_started = sample_store (sample_thread (Some loaded_context)\<lparr>ts_mask := 1, ts_pthread := 7\<rparr>)"

lemma sample_thread_created: "\<exists>e. sample_created = Some (5, sample_started, e)"
proof -
  obtain e1 where n: "spe_group_max thread_kernel NULL libspe12_start (start_env sample_mem ()) =
      Some (MAX_THREADS_PER_GROUP, e1)" "mem e1 = sample_mem"
    by (simp add: spe_group_max_def group_known_def thread_reply_def reply_ok_def start_env_def)
  obtain e2 where v: "env_check thread_kernel libspe12_start e1 = (libspe12_start\<lparr>check_env := False\<rparr>, e2)"
    "mem e2 = sample_mem" using sample_environment [OF n(2)] by blast
  obtain e3 where s: "spe_setup thread_kernel 8 4096 blank_context 7 NULL sample_handle 0 0 0
    (libspe12_start\<lparr>check_env := False\<rparr>) e2 =
    Some (5, sample_store (sample_thread (Some loaded_context)), e3)"
    using sample_spe_setup [OF v(2)] by blast
  have "mask_refused 1 MAX_THREADS_PER_GROUP = Some False" by (simp add: mask_refused_def)
  moreover have "check_env libspe12_start" by (simp add: libspe12_start_def)
  ultimately show ?thesis using n v s
    by (simp add: sample_created_def spe_create_thread_def has_flag_def Let_def start_thread_def upd_thread_def
        sample_store_def sample_started_def thread_reply_def reply_ok_def)
qed

lemma sample_store_simps [simp]:
  "(sample_store T)\<lparr>threads := [5 \<mapsto> T']\<rparr> = sample_store T'" "threads (sample_store T) = [5 \<mapsto> T]"
  by (simp_all add: sample_store_def)

lemma sample_found [simp]:
  "srch_thread 5 (sample_store T) e = Some (True, unlock_groups (lock_groups e))"
  by (simp add: srch_thread_def find_thread.simps find_member.simps sample_store_def)

lemma sample_killed:
  assumes "\<not> event_pending T"
  shows "\<exists>e'. spe_kill thread_kernel 5 SIGKILL (sample_store T) e = Some (0, sample_store (T\<lparr>killed := True\<rparr>), e') \<and>
    (PthreadCancel (ts_pthread T), 0) \<in> set (added e e')"
  using assms
  by (simp add: spe_kill_def upd_thread_def thread_reply_def reply_ok_def lock_thread_def
      unlock_thread_def lock_groups_def unlock_groups_def added_def Let_def)

lemma sample_store_represents: "represents (sample_store T) [5] ((\<lambda>_. [])(5 := [5]))"
proof (rule representsI [of _ "[5]" "(\<lambda>_. [])(5 := [5])"])
  show "layout (sample_store T) [5] ((\<lambda>_. [])(5 := [5]))"
    by (auto simp: layout_def sample_store_def enext_def gnext_def group_at_def libspe12_start_def)
  show "listed (sample_store T) [5] = [5]" by (simp add: listed_def group_at_def sample_store_def)
  show "members (sample_store T) ((\<lambda>_. [])(5 := [5])) = (\<lambda>_. [])(5 := [5])"
    by (simp add: fun_eq_iff members_def thread_at_def sample_store_def)
qed

lemma sample_group_there: "\<exists>G. groups (sample_store T) 5 = Some G \<and> \<not> use_events G"
  by (simp add: sample_store_def)

section \<open>Its run\<close>

lemma sample_run:
  assumes "mapped (mem e) 0x100000 LS_SIZE"
  shows "\<exists>st. base_spe_context_run thread_kernel H hs loaded_context SPE_DEFAULT_ENTRY 0 0 0 info junk [] e =
      Some (0, st) \<and> spu_status (run_info st) = uint (stop_rc (SPE_PROGRAM_NORMAL_END OR ucast (3 :: 8 word)))"
proof -
  let ?c = loaded_context and ?rc = "uint (stop_rc (SPE_PROGRAM_NORMAL_END OR ucast (3 :: 8 word)))"
  have c: "mem_mmap_base ?c = 0x100000" "flags ?c = SPE_EVENTS_ENABLE" "fd_spe_dir ?c = 5"
    by (simp_all add: loaded_context_def sample_context_def)
  have fl: "\<not> has_flag (flags ?c) (SPE_ISOLATE OR SPE_ISOLATE_EMULATE)"
    "\<not> has_flag (flags ?c) SPE_ISOLATE_EMULATE" "\<not> has_flag (flags ?c) SPE_ISOLATE"
    by (simp_all add: c has_flag_def)
  then have fe: "first_entry ?c SPE_DEFAULT_ENTRY = entry ?c" by (simp add: first_entry_def)
  obtain regs where r: "start_registers ?c 0 0 0 (entry ?c) (mem e) = Some regs" "quads regs"
    by (simp add: start_registers_def quads_def has_flag_def)
  obtain e1 te where "base_spe_setup_registers ?c regs e = Some (0, te, e1)"
    using setup_registers_ok [of e ?c regs] assms r(2) c(1) by auto
  then have st: "start_program ?c 0 0 0 (entry ?c) e = Some (0, te, e1)"
    using fl(1) r(1) by (simp add: start_program_def)
  let ?s = "\<lparr>run_c = ?c, run_entry = SPE_DEFAULT_ENTRY, run_tmp = te, run_status = junk, run_info = info,
    run_chain = [\<lparr>spe_id = fd_spe_dir ?c, info_npc = 0, info_status = 0\<rparr>], run_env = e1\<rparr>"
  have word: "word_of_int ?rc = (stop_rc (SPE_PROGRAM_NORMAL_END OR ucast (3 :: 8 word)) :: u32)" by simp
  have "\<exists>s. do_run_step thread_kernel H hs 0 ?s = Some (Some 0, s) \<and> spu_status (run_info s) = ?rc"
    using fl stop_code [of SPE_PROGRAM_NORMAL_END "3 :: 8 word"]
    stop_flags [of "SPE_PROGRAM_NORMAL_END OR ucast (3 :: 8 word)"]
    by (simp add: do_run_step_def spu_run_def thread_reply_def classify_def Let_def stop_reply_def
        reply_words_def stopped_by_stop_def with_status_def report_def)
  then show ?thesis using st fe by (auto simp: context_run_unfold do_run.simps cleanupspeinfo_def freespeinfo_def)
qed

end
