(* ===== verification/Thread_System.thy ===== *)
theory Thread_System
  imports Thread_Samples
begin

text \<open>
  The threads of a process together: the application calls the functions of the layer while every
  SPE thread executes \<open>do_spe_run\<close>. A state is the store, the environment and where each thread is; a
  step is one step of one thread or one call.
\<close>

section \<open>The system\<close>

record 'w thread_system =
  store :: libspe12
  senv :: "'w env"
  runners :: "addr \<rightharpoonup> spe_runner"

text \<open>
  What the requests of a call do to the threads: a signal wakes the thread if it waits and is lost
  otherwise, a cancellation that succeeds is recorded.
\<close>

definition wake :: "spe_runner \<Rightarrow> spe_runner" where
  "wake r = (if is_waiting r then r\<lparr>rn_woken := True\<rparr> else r)"

definition request_cancel :: "spe_runner \<Rightarrow> spe_runner" where
  "request_cancel r = (if has_ended r then r else r\<lparr>rn_cancel := True\<rparr>)"

definition deliver_to :: "addr \<Rightarrow> thread_store \<Rightarrow> (sysreq \<times> int) list \<Rightarrow> spe_runner \<Rightarrow> spe_runner" where
  "deliver_to t T q r =
     (let r1 = (if (CondSignal t, 0) \<in> set q then wake r else r)
      in if (PthreadCancel (ts_pthread T), 0) \<in> set q then request_cancel r1 else r1)"

definition deliver ::
  "libspe12 \<Rightarrow> (sysreq \<times> int) list \<Rightarrow> (addr \<rightharpoonup> spe_runner) \<Rightarrow> (addr \<rightharpoonup> spe_runner)" where
  "deliver s q rs = (\<lambda>t. case threads s t of None \<Rightarrow> rs t | Some T \<Rightarrow> map_option (deliver_to t T q) (rs t))"

text \<open>
  A call that leaves alone what \<open>do_spe_run\<close> and \<open>spe_wait\<close> communicate by: all calls but the ones
  with a rule of their own.
\<close>

definition same_progress :: "thread_store \<Rightarrow> thread_store \<Rightarrow> bool" where
  "same_progress T T' \<longleftrightarrow> thread_status T' = thread_status T \<and> event_pending T' = event_pending T \<and>
     ret_status T' = ret_status T"

definition leaves_progress :: "libspe12 \<Rightarrow> libspe12 \<Rightarrow> bool" where
  "leaves_progress s s' \<longleftrightarrow> dom (threads s') = dom (threads s) \<and>
     (\<forall>t T T'. threads s t = Some T \<longrightarrow> threads s' t = Some T' \<longrightarrow> same_progress T T')"

inductive system_step ::
  "'w kernel \<Rightarrow> 'w handler_code \<Rightarrow> 'w thread_system \<Rightarrow> 'w thread_system \<Rightarrow> bool" for K H where
  run: "runners S t = Some r \<Longrightarrow> \<not> is_waiting r \<Longrightarrow>
    do_spe_run_step K H junk t r (store S) (senv S) = Some (r', s', e') \<Longrightarrow>
    system_step K H S \<lparr>store = s', senv = e', runners = (runners S)(t \<mapsto> r')\<rparr>"
| woken: "runners S t = Some r \<Longrightarrow> is_waiting r \<Longrightarrow> rn_woken r \<Longrightarrow>
    do_spe_run_step K H junk t r (store S) (senv S) = Some (r', s', e') \<Longrightarrow>
    system_step K H S \<lparr>store = s', senv = e', runners = (runners S)(t \<mapsto> r')\<rparr>"
| spurious: "runners S t = Some r \<Longrightarrow> is_waiting r \<Longrightarrow>
    do_spe_run_step K H junk t r (store S) (senv S) = Some (r', s', e') \<Longrightarrow>
    system_step K H S \<lparr>store = s', senv = e', runners = (runners S)(t \<mapsto> r')\<rparr>"
| cancelled: "runners S t = Some r \<Longrightarrow> rn_cancel r \<Longrightarrow> \<not> has_ended r \<Longrightarrow>
    system_step K H S (S\<lparr>runners := (runners S)(t \<mapsto> r\<lparr>rn_pc := Thread_cancelled\<rparr>)\<rparr>)"
| create: "spe_create_thread K ptr_bytes ps junkc junk gid handle argp envp msk fl (store S) (senv S) =
      Some (t, s', e') \<Longrightarrow> t \<noteq> NULL \<Longrightarrow> threads (store S) t = None \<Longrightarrow>
    system_step K H S \<lparr>store = s', senv = e', runners = (runners S)(t \<mapsto> new_runner info)\<rparr>"
| create_failed: "spe_create_thread K ptr_bytes ps junkc junk gid handle argp envp msk fl (store S) (senv S) =
      Some (NULL, s', e') \<Longrightarrow> \<forall>x \<in> dom (threads (store S)). threads s' x = threads (store S) x \<Longrightarrow>
    system_step K H S (S\<lparr>store := s', senv := e'\<rparr>)"
| kill: "spe_kill K t sig (store S) (senv S) = Some (rc, s', e') \<Longrightarrow>
    system_step K H S \<lparr>store = s', senv = e', runners = deliver s' (added (senv S) e') (runners S)\<rparr>"
| wait: "spe_wait K t status options (store S) (senv S) = Some (rc, st, s', e') \<Longrightarrow>
    s' = store S \<or> (\<exists>r. runners S t = Some r \<and> has_ended r) \<Longrightarrow>
    system_step K H S \<lparr>store = s', senv = e',
      runners = (if threads s' t = None then (runners S)(t := None) else runners S)\<rparr>"
| other: "leaves_progress (store S) s' \<Longrightarrow> system_step K H S (S\<lparr>store := s', senv := e'\<rparr>)"

inductive reachable_system :: "'w kernel \<Rightarrow> 'w handler_code \<Rightarrow> 'w thread_system \<Rightarrow> bool" for K H where
  init: "reachable_system K H \<lparr>store = libspe12_start, senv = e, runners = Map.empty\<rparr>"
| step: "reachable_system K H S \<Longrightarrow> system_step K H S S' \<Longrightarrow> reachable_system K H S'"

section \<open>Calls that leave the progress alone\<close>

lemma leaves_progress_refl [simp]: "leaves_progress s s"
  by (simp add: leaves_progress_def same_progress_def)

lemma leaves_progress_trans: "leaves_progress s s1 \<Longrightarrow> leaves_progress s1 s2 \<Longrightarrow> leaves_progress s s2"
  unfolding leaves_progress_def same_progress_def by (metis domD domI)

lemma leaves_progress_threads: "threads s' = threads s \<Longrightarrow> leaves_progress s s'"
  by (simp add: leaves_progress_def same_progress_def)

lemma upd_threadD:
  "upd_thread t f s = Some s' \<Longrightarrow> \<exists>T. threads s t = Some T \<and> threads s' = (threads s)(t \<mapsto> f T) \<and>
     s' = s\<lparr>threads := (threads s)(t \<mapsto> f T)\<rparr>"
  by (auto simp: upd_thread_def split: Option.bind_splits)

lemma upd_thread_leaves:
  assumes "upd_thread t f s = Some s'" "\<And>T. same_progress T (f T)"
  shows "leaves_progress s s'"
proof -
  obtain T where "threads s t = Some T" "threads s' = (threads s)(t \<mapsto> f T)"
    using upd_threadD [OF assms(1)] by blast
  moreover have "same_progress U U" for U by (simp add: same_progress_def)
  ultimately show ?thesis using assms(2) by (auto simp: leaves_progress_def)
qed

lemma upd_group_threads: "upd_group g f s = Some s' \<Longrightarrow> threads s' = threads s"
  by (auto simp: upd_group_def split: Option.bind_splits)

lemma add_thread_threads: "add_thread_to_group K gid t s e = Some (rc, s', e') \<Longrightarrow> threads s' = threads s"
  by (cases "sys_rv K (Malloc SIZEOF_LIST_ELEM) e"; cases "groups s gid")
    (auto simp: add_thread_to_group_def upd_group_def split: if_splits)

lemma set_app_data_leaves:
  assumes "spe_set_app_data t d s e = Some (rc, s', e')"
  shows "leaves_progress s s'"
proof -
  have "s' = s \<or> upd_thread t (\<lambda>t. t\<lparr>app_data := d\<rparr>) s = Some s'"
    using assms by (auto simp: spe_set_app_data_def split: Option.bind_splits if_splits)
  then show ?thesis using upd_thread_leaves [of t "\<lambda>t. t\<lparr>app_data := d\<rparr>" s s']
    by (auto simp: same_progress_def)
qed

section \<open>One step of a thread\<close>

text \<open>What the thread store tells of where the thread is.\<close>

definition thread_inv :: "spe_runner \<Rightarrow> thread_store \<Rightarrow> bool" where
  "thread_inv r T \<longleftrightarrow>
     (case rn_pc r of
        Thread_started \<Rightarrow> thread_status T = 0
      | Run_begun \<Rightarrow> thread_status T = 0
      | Round_begun \<Rightarrow> thread_status T = 1 \<or> thread_status T = 10
      | Round_run \<Rightarrow> thread_status T = 2
      | Round_done \<Rightarrow> thread_status T = 2
      | Pausing \<Rightarrow> thread_status T = 20
      | Resumed \<Rightarrow> thread_status T = 10
      | Event_waiting \<Rightarrow> thread_status T = 10
      | Loop_left \<Rightarrow> thread_status T = 10
      | Thread_returned _ \<Rightarrow> thread_status T = 99
      | Thread_cancelled \<Rightarrow> thread_status T \<noteq> 99) \<and>
     (rn_pc r \<noteq> Thread_cancelled \<longrightarrow> (event_pending T \<longleftrightarrow> rn_pc r = Event_waiting)) \<and>
     (case rn_pc r of Thread_returned n \<Rightarrow> ret_status T = n \<or> ret_status T = 0 | _ \<Rightarrow> ret_status T = 0)"

definition step_ok :: "addr \<Rightarrow> libspe12 \<Rightarrow> spe_runner \<Rightarrow> libspe12 \<Rightarrow> bool" where
  "step_ok t s r' s' \<longleftrightarrow> (\<forall>x. x \<noteq> t \<longrightarrow> threads s' x = threads s x) \<and>
     (\<exists>T'. threads s' t = Some T' \<and> thread_inv r' T')"

lemma post_eventD:
  assumes "post_event K t ev data s e = Some (s', e')"
  shows "\<exists>T. threads s t = Some T \<and> threads s' = (threads s)(t \<mapsto> T\<lparr>ts_event := ev, ts_ev_data := data\<rparr>) \<and>
    groups s' = groups s"
  using assms by (auto simp: post_event_def upd_thread_def split: Option.bind_splits)

lemma do_spe_run_step_ok:
  assumes "do_spe_run_step K H junk t r s e = Some (r', s', e')" "threads s t = Some T" "thread_inv r T"
  shows "step_ok t s r' s'"
proof (cases "rn_pc r")
  case Round_run
  then show ?thesis using assms
    by (auto simp: do_spe_run_step_def run_round_def step_ok_def thread_inv_def upd_thread_def
        split: Option.bind_splits)
next
  case Round_done
  then show ?thesis using assms
    by (auto simp: do_spe_run_step_def after_round_def step_ok_def thread_inv_def upd_thread_def
        set_status_def Let_def split: Option.bind_splits if_splits)
next
  case Resumed
  then show ?thesis using assms
    by (auto simp: do_spe_run_step_def failed_round_def stopped_round_def step_ok_def thread_inv_def
        upd_thread_def set_status_def Let_def split: Option.bind_splits if_splits option.splits
        dest!: post_eventD)
next
  case Loop_left
  then show ?thesis using assms
    by (auto simp: do_spe_run_step_def finish_run_def step_ok_def thread_inv_def
        upd_thread_def set_status_def Let_def split: Option.bind_splits if_splits option.splits
        dest!: post_eventD)
qed (use assms in \<open>auto simp: do_spe_run_step_def end_pause_def end_event_wait_def step_ok_def
    thread_inv_def upd_thread_def set_status_def split: Option.bind_splits if_splits\<close>)

section \<open>The calls\<close>

lemma remove_group_loop_threads:
  assumes "remove_group_loop K gid l gp s e = Some y"
  shows "threads (fst (snd y)) = threads s"
proof (rule remove_group_loop.raw_induct
    [OF _ assms, of "\<lambda>K gid l gp s e y. threads (fst (snd y)) = threads s"], goal_cases)
  case (1 f K gid l gp s e y)
  then show ?case by (auto split: Option.bind_splits if_splits)
qed

lemma remove_thread_loop_threads:
  assumes "remove_thread_loop K gid t p s e = Some y"
  shows "threads (fst (snd y)) = threads s"
proof (rule remove_thread_loop.raw_induct
    [OF _ assms, of "\<lambda>K gid t p s e y. threads (fst (snd y)) = threads s"], goal_cases)
  case (1 f K gid t p s e y)
  then show ?case by (auto simp: upd_group_def Let_def split: Option.bind_splits if_splits)
qed

lemma remove_thread_threads:
  assumes "remove_thread_from_group K gid t s e = Some (rc, s', e')"
  shows "threads s' = threads s"
proof -
  obtain g where g: "groups s gid = Some g"
    using assms by (auto simp: remove_thread_from_group_def split: Option.bind_splits)
  show ?thesis
  proof (cases "numListSize g = 1")
    case False
    then show ?thesis using assms g remove_thread_loop_threads
      by (fastforce simp: remove_thread_from_group_def Let_def)
  next
    case True
    then show ?thesis using assms g
      by (auto simp: remove_thread_from_group_def upd_group_def remove_group_from_groups_def Let_def
          split: if_splits Option.bind_splits dest!: remove_group_loop_threads)
  qed
qed

lemma wait_threads:
  assumes "spe_wait K t status options s e = Some (rc, st, s', e')"
  shows "s' = s \<or> threads s' = (threads s)(t := None)"
  using assms
  by (auto simp: spe_wait_def spe_cleanup_def Let_def split: Option.bind_splits if_splits prod.splits
      dest!: remove_thread_threads)

lemma kill_leaves:
  assumes "spe_kill K t sig s e = Some (rc, s', e')"
  shows "leaves_progress s s'"
proof -
  have "s' = s \<or> upd_thread t (\<lambda>T. T\<lparr>killed := True\<rparr>) s = Some s' \<or>
      upd_thread t (\<lambda>T. T\<lparr>ts_stop := True\<rparr>) s = Some s'"
    using assms by (auto simp: spe_kill_def Let_def split: Option.bind_splits if_splits prod.splits)
  then show ?thesis
    using upd_thread_leaves [of t "\<lambda>T. T\<lparr>killed := True\<rparr>" s s']
      upd_thread_leaves [of t "\<lambda>T. T\<lparr>ts_stop := True\<rparr>" s s'] by (auto simp: same_progress_def)
qed

lemma setup_program_new:
  assumes "setup_program K pb ps junk t T c h s e = Some (t', s', e')" "t' \<noteq> NULL"
  shows "t' = t \<and> (\<forall>x. x \<noteq> t \<longrightarrow> threads s' x = threads s x) \<and>
    (\<exists>c. threads s' t = Some (T\<lparr>spectx := c, ts_stop := False\<rparr>))"
proof -
  obtain rc c1 cache e1 where l: "base_spe_program_load K pb ps junk c h (isolated_loader s) e = Some (rc, c1, cache, e1)"
    using assms(1) by (auto simp: setup_program_def split: Option.bind_splits)
  obtain r e2 where p: "sys K Pipe e1 = (r, e2)" by fastforce
  let ?c = "c1\<lparr>ev_pipe := (if rv r \<noteq> 0 then (-1, -1) else pipe_fds r)\<rparr>"
  let ?s = "s\<lparr>isolated_loader := cache, threads := (threads s)(t \<mapsto> T\<lparr>spectx := Some ?c\<rparr>)\<rparr>"
  have rc: "rc = 0" using assms l by (auto simp: setup_program_def Let_def split: if_splits)
  then obtain rc2 s3 e3 where a: "add_thread_to_group K (group_id T) t ?s e2 = Some (rc2, s3, e3)"
    using assms(1) l p by (auto simp: setup_program_def Let_def split: Option.bind_splits)
  then have "upd_thread t (\<lambda>T. T\<lparr>ts_stop := False\<rparr>) s3 = Some s'" "t' = t"
    using assms(1) l p rc by (auto simp: setup_program_def Let_def split: Option.bind_splits)
  then show ?thesis using add_thread_threads [OF a] by (auto simp: upd_thread_def)
qed

lemma gid_setup_threads: "spe_gid_setup K pol prio ev s e = (g, s', e') \<Longrightarrow> threads s' = threads s"
  by (auto simp: spe_gid_setup_def add_group_to_groups_def Let_def split: prod.splits if_splits)

lemma spe_setup_new:
  assumes "spe_setup K pb ps junkc junk gid h argp envp fl s e = Some (t, s', e')" "t \<noteq> NULL"
  shows "(\<forall>x. x \<noteq> t \<longrightarrow> threads s' x = threads s x) \<and>
    (\<exists>T. threads s' t = Some T \<and> thread_inv (new_runner info) T)"
proof -
  obtain full gid1 s1 e1 where f: "(if gid = NULL then
      (case spe_gid_setup K (default_policy s) (default_priority s) (default_eventmask s) s e of
         (g, s1, e1) \<Rightarrow> Some (False, g, s1, e1))
      else do { g \<leftarrow> groups s gid; Some (numListSize g = MAX_THREADS_PER_GROUP, gid, s, e) }) =
        Some (full, gid1, s1, e1)"
    using assms(1) by (auto simp: spe_setup_def split: Option.bind_splits)
  then have th: "threads s1 = threads s"
    by (auto split: if_splits prod.splits Option.bind_splits dest: gid_setup_threads)
  have full: "\<not> full" using assms f by (auto simp: spe_setup_def)
  obtain p e2 where m: "sys_rv K (Malloc SIZEOF_THREAD_STORE) e1 = (p, e2)" by fastforce
  have p: "\<not> p \<le> 0" using assms f full m by (auto simp: spe_setup_def)
  let ?T = "zero_thread\<lparr>group_id := gid1, ts_flags := SPE_EVENTS_ENABLE OR fl, ts_argp := argp, ts_envp := envp\<rparr>"
  obtain c cache e3 where c: "base_spe_context_create K pb ps junkc (SPE_EVENTS_ENABLE OR fl) None None
      (isolated_loader s1) e2 = Some (c, cache, e3)"
    using assms(1) f full m p by (auto simp: spe_setup_def Let_def split: Option.bind_splits)
  then obtain c1 where c1: "c = Some c1" using assms f full m p by (cases c) (auto simp: spe_setup_def)
  from assms(1) f full m p c c1
  have "setup_program K pb ps junk (nat p) ?T c1 h
      (s1\<lparr>threads := (threads s1)(nat p \<mapsto> ?T\<lparr>spectx := c\<rparr>), isolated_loader := cache\<rparr>) e3 = Some (t, s', e')"
    by (simp add: spe_setup_def Let_def)
  from setup_program_new [OF this assms(2)] th show ?thesis
    by (auto simp: thread_inv_def new_runner_def zero_thread_def)
qed

lemma thread_inv_frame [simp]:
  "thread_inv r (T\<lparr>ts_mask := a\<rparr>) = thread_inv r T" "thread_inv r (T\<lparr>ts_pthread := b\<rparr>) = thread_inv r T"
  by (cases "rn_pc r"; simp add: thread_inv_def)+

lemma thread_inv_cong: "thread_inv r T \<Longrightarrow> same_progress T T' \<Longrightarrow> rn_pc r' = rn_pc r \<Longrightarrow> thread_inv r' T'"
  by (cases "rn_pc r") (simp_all add: thread_inv_def same_progress_def)

lemma start_thread_new:
  assumes "start_thread K t1 msk s e = Some (t, s', e')" "t \<noteq> NULL" "threads s t1 = Some T" "thread_inv r T"
  shows "t1 = t \<and> (\<forall>x. x \<noteq> t \<longrightarrow> threads s' x = threads s x) \<and>
    (\<exists>T'. threads s' t = Some T' \<and> thread_inv r T')"
  using assms
  by (auto simp: start_thread_def upd_thread_def Let_def split: Option.bind_splits if_splits prod.splits)

lemma create_thread_new:
  assumes "spe_create_thread K pb ps junkc junk gid handle argp envp msk fl s e = Some (t, s', e')" "t \<noteq> NULL"
  shows "(\<forall>x. x \<noteq> t \<longrightarrow> threads s' x = threads s x) \<and>
    (\<exists>T. threads s' t = Some T \<and> thread_inv (new_runner info) T)"
proof -
  obtain h where h: "handle = Some h" using assms by (cases handle) (auto simp: spe_create_thread_def)
  have fl: "\<not> (has_flag fl SPE_USER_REGS \<and> argp = NULL)"
    using assms h by (auto simp: spe_create_thread_def split: if_splits)
  obtain found e1 where g: "(if gid \<noteq> NULL then srch_group gid s e else Some (True, e)) = Some (found, e1)"
    using assms h fl by (auto simp: spe_create_thread_def split: Option.bind_splits)
  have fo: "found" "msk \<noteq> 0" using assms h fl g by (auto simp: spe_create_thread_def split: if_splits)
  obtain n e2 where n: "spe_group_max K NULL s e1 = Some (n, e2)"
    using assms h fl g fo by (auto simp: spe_create_thread_def split: Option.bind_splits)
  have m: "mask_refused msk n = Some False"
    using assms h fl g fo n by (auto simp: spe_create_thread_def split: Option.bind_splits if_splits)
  obtain s1 e3 where c: "(if check_env s then env_check K s e2 else (s, e2)) = (s1, e3)" by fastforce
  then have th: "threads s1 = threads s"
    by (auto simp: env_check_def Let_def split: if_splits prod.splits)
  obtain t1 s2 e4 where st: "spe_setup K pb ps junkc junk gid h argp envp fl s1 e3 = Some (t1, s2, e4)"
    using assms h g fl n m fo c by (auto simp: spe_create_thread_def Let_def split: Option.bind_splits)
  have t1: "t1 \<noteq> NULL" "start_thread K t1 msk s2 e4 = Some (t, s', e')"
    using assms h g fl n m fo c st by (auto simp: spe_create_thread_def Let_def split: if_splits)
  obtain T where T: "threads s2 t1 = Some T" "thread_inv (new_runner info) T"
    "\<forall>x. x \<noteq> t1 \<longrightarrow> threads s2 x = threads s1 x"
    using spe_setup_new [OF st t1(1), of info] by blast
  show ?thesis using start_thread_new [OF t1(2) assms(2) T(1,2)] T(3) th by auto
qed

section \<open>The invariant of the system\<close>

definition system_inv :: "'w thread_system \<Rightarrow> bool" where
  "system_inv S \<longleftrightarrow> (\<forall>t r. runners S t = Some r \<longrightarrow> (\<exists>T. threads (store S) t = Some T \<and> thread_inv r T))"

lemma deliver_pc:
  "deliver s q rs t = Some r \<Longrightarrow> \<exists>r0. rs t = Some r0 \<and> rn_pc r = rn_pc r0"
  by (auto simp: deliver_def deliver_to_def wake_def request_cancel_def Let_def split: option.splits if_splits)

lemma leaves_progress_inv:
  assumes "leaves_progress s s'" "threads s t = Some T" "thread_inv r T" "rn_pc r' = rn_pc r"
  shows "\<exists>T'. threads s' t = Some T' \<and> thread_inv r' T'"
proof -
  obtain T' where "threads s' t = Some T'" using assms(1,2) unfolding leaves_progress_def by blast
  moreover from this have "same_progress T T'" using assms(1,2) by (simp add: leaves_progress_def)
  ultimately show ?thesis using thread_inv_cong [OF assms(3)] assms(4) by blast
qed

lemma thread_step_inv:
  assumes "system_inv S" "runners S t = Some r"
    and "do_spe_run_step K H junk t r (store S) (senv S) = Some (r', s', e')"
  shows "system_inv \<lparr>store = s', senv = e', runners = (runners S)(t \<mapsto> r')\<rparr>"
proof -
  obtain T where "threads (store S) t = Some T" "thread_inv r T"
    using assms(1,2) by (auto simp: system_inv_def)
  from do_spe_run_step_ok [OF assms(3) this] assms(1)
  show ?thesis by (auto simp: system_inv_def step_ok_def)
qed

lemma cancel_inv:
  "thread_inv r T \<Longrightarrow> \<not> has_ended r \<Longrightarrow> thread_inv (r\<lparr>rn_pc := Thread_cancelled\<rparr>) T"
  by (cases "rn_pc r") (auto simp: thread_inv_def has_ended_def)

lemma system_step_inv: "system_step K H S S' \<Longrightarrow> system_inv S \<Longrightarrow> system_inv S'"
proof (induction rule: system_step.induct)
  case (cancelled S t r)
  then obtain T where "threads (store S) t = Some T" "thread_inv r T" by (auto simp: system_inv_def)
  then show ?case using cancelled cancel_inv by (auto simp: system_inv_def)
next
  case (create ptr_bytes ps junkc junk gid handle argp envp msk fl S t s' e' info)
  from create_thread_new [OF create(1,2), of info] create show ?case
    by (fastforce simp: system_inv_def)
next
  case (create_failed ptr_bytes ps junkc junk gid handle argp envp msk fl S s' e')
  have "\<exists>T. threads s' t = Some T \<and> thread_inv r T" if "runners S t = Some r" for t r
  proof -
    obtain T where "threads (store S) t = Some T" "thread_inv r T"
      using create_failed.prems \<open>runners S t = Some r\<close> by (auto simp: system_inv_def)
    moreover from this have "threads s' t = threads (store S) t" using create_failed.hyps(2) by blast
    ultimately show ?thesis by simp
  qed
  then show ?case by (simp add: system_inv_def)
next
  case (kill t sig S rc s' e')
  note L = kill_leaves [OF kill.hyps]
  show ?case unfolding system_inv_def
  proof (intro allI impI)
    fix u r assume "runners \<lparr>store = s', senv = e', runners = deliver s' (added (senv S) e') (runners S)\<rparr> u = Some r"
    then obtain r0 where r0: "runners S u = Some r0" "rn_pc r = rn_pc r0" using deliver_pc by fastforce
    then obtain T where "threads (store S) u = Some T" "thread_inv r0 T"
      using kill.prems by (auto simp: system_inv_def)
    from leaves_progress_inv [OF L this r0(2)]
    show "\<exists>T. threads (store \<lparr>store = s', senv = e', runners = deliver s' (added (senv S) e') (runners S)\<rparr>) u =
        Some T \<and> thread_inv r T" by simp
  qed
next
  case (wait t status options S rc st s' e')
  from wait_threads [OF wait.hyps(1)] wait.prems show ?case by (auto simp: system_inv_def)
next
  case (other S s' e')
  then show ?case using leaves_progress_inv [OF other.hyps] by (fastforce simp: system_inv_def)
qed (auto intro: thread_step_inv)

lemma reachable_system_inv: "reachable_system K H S \<Longrightarrow> system_inv S"
proof (induction rule: reachable_system.induct)
  case (init e)
  then show ?case by (simp add: system_inv_def)
next
  case (step S S')
  then show ?case using system_step_inv by blast
qed

section \<open>What the status says\<close>

text \<open>
  C5: whatever the interleaving of threads and calls, the thread store tells where a thread is: the status
  is 99 exactly after \<open>do_spe_run\<close> has returned; as long as the thread was not cancelled the status is 20
  exactly while it pauses and \<open>event_pending\<close> is set exactly while it waits for its event to be handled.
  \<open>ret_status\<close> is 0 until \<open>do_spe_run\<close> returns and then 0 or the value returned, so that a value other
  than 0 in it is the thread's result. \<open>spe_wait\<close> with \<open>WNOHANG\<close> says that a thread of a group is still running
  as long as it has not returned: for ever, if it was cancelled. (A cancelled thread keeps the status and the
  pending event it had, so these two do not tell where it is.)
\<close>

theorem thread_status_tells:
  assumes "reachable_system K H S" "runners S t = Some r"
  shows "\<exists>T. threads (store S) t = Some T \<and>
    (thread_status T = 99 \<longleftrightarrow> (\<exists>n. rn_pc r = Thread_returned n)) \<and>
    (rn_pc r \<noteq> Thread_cancelled \<longrightarrow>
      (thread_status T = 20 \<longleftrightarrow> rn_pc r = Pausing) \<and> (event_pending T \<longleftrightarrow> rn_pc r = Event_waiting)) \<and>
    (ret_status T \<noteq> 0 \<longrightarrow> rn_pc r = Thread_returned (ret_status T)) \<and>
    (\<forall>e1. srch_thread t (store S) (senv S) = Some (True, e1) \<longrightarrow> (\<forall>n. rn_pc r \<noteq> Thread_returned n) \<longrightarrow>
      spe_wait K t True WNOHANG (store S) (senv S) = Some (0, Some 0, store S, e1))"
proof -
  obtain T where T: "threads (store S) t = Some T" "thread_inv r T"
    using reachable_system_inv [OF assms(1)] assms(2) by (auto simp: system_inv_def)
  have w: "spe_wait K t True WNOHANG (store S) (senv S) = Some (0, Some 0, store S, e1)"
    if "srch_thread t (store S) (senv S) = Some (True, e1)" "thread_status T \<noteq> 99" for e1
    using that T(1) by (simp add: spe_wait_def has_flag_def)
  show ?thesis
    using T w by (cases "rn_pc r") (auto simp: thread_inv_def)
qed

text \<open>The system after one thread has been created, and after it was killed.\<close>

definition no_info :: spe_stop_info where
  "no_info = \<lparr>stop_reason = None, stop_result = 0, spu_status = 0\<rparr>"

lemma sample_system_reachable:
  "\<exists>e. reachable_system thread_kernel H \<lparr>store = sample_started, senv = e, runners = [5 \<mapsto> new_runner no_info]\<rparr>"
proof -
  let ?S = "\<lparr>store = libspe12_start, senv = start_env sample_mem (), runners = Map.empty\<rparr>"
  obtain e where "spe_create_thread thread_kernel 8 4096 blank_context 7 NULL (Some sample_handle) 0 0 1 0
      (store ?S) (senv ?S) = Some (5, sample_started, e)"
    using sample_thread_created by (auto simp: sample_created_def)
  moreover have "threads (store ?S) 5 = None" by (simp add: libspe12_start_def)
  ultimately have "system_step thread_kernel H ?S
      \<lparr>store = sample_started, senv = e, runners = (runners ?S)(5 \<mapsto> new_runner no_info)\<rparr>"
    by (intro system_step.create) auto
  then show ?thesis using reachable_system.step [OF reachable_system.init] by fastforce
qed

theorem thread_status_tells_witness:
  "\<exists>S T e1. reachable_system thread_kernel (\<lambda>_ _ _ _. None) S \<and> threads (store S) 5 = Some T \<and>
     thread_status T \<noteq> 99 \<and>
     spe_wait thread_kernel 5 True WNOHANG (store S) (senv S) = Some (0, Some 0, store S, e1)"
proof -
  obtain e where R: "reachable_system thread_kernel (\<lambda>_ _ _ _. None)
      \<lparr>store = sample_started, senv = e, runners = [5 \<mapsto> new_runner no_info]\<rparr>"
    using sample_system_reachable by blast
  moreover obtain e1 where "srch_thread 5 sample_started e = Some (True, e1)"
    by (simp add: sample_started_def)
  moreover have "\<not> has_ended (new_runner no_info)" by (simp add: has_ended_def new_runner_def)
  ultimately show ?thesis
    using thread_status_tells [OF R, of 5 "new_runner no_info"] by (auto simp: new_runner_def)
qed

text \<open>
  A cancelled thread never gets the status 99: \<open>spe_wait\<close> with \<open>WNOHANG\<close> reports it as running in every
  state the system can reach.
\<close>

theorem cancelled_thread_seems_to_run:
  assumes "reachable_system K H S" "runners S t = Some r" "rn_pc r = Thread_cancelled"
    and "srch_thread t (store S) (senv S) = Some (True, e1)"
  shows "has_ended r \<and> spe_wait K t True WNOHANG (store S) (senv S) = Some (0, Some 0, store S, e1)"
proof -
  obtain T where T: "threads (store S) t = Some T" "thread_inv r T"
    using reachable_system_inv [OF assms(1)] assms(2) by (auto simp: system_inv_def)
  then show ?thesis using assms(3,4)
    by (auto simp: thread_inv_def has_ended_def spe_wait_def has_flag_def)
qed

theorem cancelled_thread_seems_to_run_witness:
  "\<exists>S e1. reachable_system thread_kernel (\<lambda>_ _ _ _. None) S \<and>
     spe_wait thread_kernel 5 True WNOHANG (store S) (senv S) = Some (0, Some 0, store S, e1)"
proof -
  let ?H = "\<lambda>_ _ _ _. None"
  obtain e where R: "reachable_system thread_kernel ?H
      \<lparr>store = sample_started, senv = e, runners = [5 \<mapsto> new_runner no_info]\<rparr>"
    using sample_system_reachable by blast
  obtain T where T: "sample_started = sample_store T" "ts_pthread T = 7" "\<not> event_pending T"
    by (simp add: sample_started_def sample_thread_def zero_thread_def)
  let ?s = "sample_store (T\<lparr>killed := True\<rparr>)"
  let ?r = "(new_runner no_info)\<lparr>rn_cancel := True\<rparr>" let ?q = "?r\<lparr>rn_pc := Thread_cancelled\<rparr>"
  obtain e2 where k: "spe_kill thread_kernel 5 SIGKILL sample_started e = Some (0, ?s, e2)"
    "(PthreadCancel 7, 0) \<in> set (added e e2)"
    using sample_killed [OF T(3), of e] unfolding T(1,2) by blast
  have "deliver ?s (added e e2) [5 \<mapsto> new_runner no_info] = [5 \<mapsto> ?r]"
    using k(2) T(2)
    by (auto simp: deliver_def fun_eq_iff deliver_to_def wake_def request_cancel_def new_runner_def
        has_ended_def is_waiting_def)
  with system_step.kill [of thread_kernel 5 SIGKILL "\<lparr>store = sample_started, senv = e,
      runners = [5 \<mapsto> new_runner no_info]\<rparr>"] k(1)
  have "reachable_system thread_kernel ?H \<lparr>store = ?s, senv = e2, runners = [5 \<mapsto> ?r]\<rparr>"
    using reachable_system.step [OF R] by fastforce
  moreover have "system_step thread_kernel ?H \<lparr>store = ?s, senv = e2, runners = [5 \<mapsto> ?r]\<rparr>
      \<lparr>store = ?s, senv = e2, runners = [5 \<mapsto> ?q]\<rparr>"
    using system_step.cancelled [of "\<lparr>store = ?s, senv = e2, runners = [5 \<mapsto> ?r]\<rparr>" 5 ?r]
    by (simp add: has_ended_def new_runner_def)
  ultimately have R2: "reachable_system thread_kernel ?H \<lparr>store = ?s, senv = e2, runners = [5 \<mapsto> ?q]\<rparr>"
    by (rule reachable_system.step)
  then show ?thesis using cancelled_thread_seems_to_run [OF R2, of 5 ?q] by fastforce
qed

end
