(* ===== verification/Thread_Runs.thy ===== *)
theory Thread_Runs
  imports Thread_System
begin

unbundle bit_operations_syntax

text \<open>
  What happens to a program that an SPE thread runs: how its end reaches the caller of \<open>spe_wait\<close>, and
  what the control signals of \<open>spe_kill\<close> do to a thread that runs or waits.
\<close>

section \<open>The first round\<close>

lemma do_spe_run_next:
  "\<not> has_ended r \<Longrightarrow> \<not> is_waiting r \<Longrightarrow> do_spe_run_step K H junk t r s e = Some (r1, s1, e1) \<Longrightarrow>
   do_spe_run K H junk t r s e = do_spe_run K H junk t r1 s1 e1"
  by (subst do_spe_run.simps) simp

lemma do_spe_run_stop: "has_ended r \<or> is_waiting r \<Longrightarrow> do_spe_run K H junk t r s e = Some (r, s, e)"
  by (subst do_spe_run.simps) simp

definition start_env_of :: "'w kernel \<Rightarrow> libspe12 \<Rightarrow> 'w env \<Rightarrow> 'w env" where
  "start_env_of K s e = emit SetCancelType (spe_thread_intro K s e)"

lemma spe_thread_intro_status [simp]:
  "spe_thread_intro K (s\<lparr>threads := ts\<rparr>) e = spe_thread_intro K s e"
  by (simp add: spe_thread_intro_def)

lemma do_spe_run_first_round:
  assumes T: "threads s t = Some T" "spectx T = Some c" "\<not> ts_stop T"
    and run: "base_spe_context_run K H (callback_table s) c SPE_DEFAULT_ENTRY 0 (ts_argp T) (ts_envp T)
      info junk [] (start_env_of K s e) = Some (ret, st)"
  shows "do_spe_run K H junk t (new_runner info) s e =
    do_spe_run K H junk t
      \<lparr>rn_pc = Resumed, rn_npc = run_entry st, rn_ret = ret, rn_errno = errno (run_env st),
       rn_info = run_info st, rn_woken = False, rn_cancel = False\<rparr>
      (s\<lparr>threads := (threads s)(t \<mapsto> T\<lparr>spectx := Some (run_c st), thread_status := 10\<rparr>)\<rparr>) (run_env st)"
proof -
  let ?r = "new_runner info" let ?e = "start_env_of K s e"
  let ?s = "\<lambda>n. s\<lparr>threads := (threads s)(t \<mapsto> T\<lparr>thread_status := n\<rparr>)\<rparr>"
  let ?q = "\<lparr>rn_pc = Round_done, rn_npc = run_entry st, rn_ret = ret, rn_errno = errno (run_env st),
       rn_info = run_info st, rn_woken = False, rn_cancel = False\<rparr>"
  let ?t = "s\<lparr>threads := (threads s)(t \<mapsto> T\<lparr>thread_status := 2, spectx := Some (run_c st)\<rparr>)\<rparr>"
  note F = has_ended_def is_waiting_def do_spe_run_step_def new_runner_def set_status_def upd_thread_def
  have "do_spe_run K H junk t ?r s e = do_spe_run K H junk t (?r\<lparr>rn_pc := Run_begun\<rparr>) s (spe_thread_intro K s e)"
    by (rule do_spe_run_next) (simp_all add: F)
  also have "\<dots> = do_spe_run K H junk t (?r\<lparr>rn_pc := Round_begun\<rparr>) (?s 1) ?e"
    by (rule do_spe_run_next) (simp_all add: F T start_env_of_def)
  also have "\<dots> = do_spe_run K H junk t (?r\<lparr>rn_pc := Round_run\<rparr>) (?s 2) ?e"
    by (rule do_spe_run_next) (simp_all add: F T)
  also have "\<dots> = do_spe_run K H junk t ?q ?t (run_env st)"
    by (rule do_spe_run_next) (use T run in \<open>simp_all add: F run_round_def\<close>)
  also have "\<dots> = do_spe_run K H junk t (?q\<lparr>rn_pc := Resumed\<rparr>)
      (s\<lparr>threads := (threads s)(t \<mapsto> T\<lparr>spectx := Some (run_c st), thread_status := 10\<rparr>)\<rparr>) (run_env st)"
    by (rule do_spe_run_next) (use T in \<open>simp_all add: F after_round_def\<close>)
  finally show ?thesis by simp
qed

section \<open>Waiting for the end\<close>

definition join_succeeds :: "'w kernel \<Rightarrow> bool" where
  "join_succeeds K \<longleftrightarrow> (\<forall>i e. fst (sys_rv K (PthreadJoin i) e) = 0)"

lemma wait_reports:
  assumes "represents s gl M" "g \<in> set gl" "t \<in> set (M g)" "M (group_id T) \<noteq> []" "groups s (group_id T) \<noteq> None"
    and "threads s t = Some T" "spectx T = Some c" "thread_status T = 99" "join_succeeds K"
  shows "\<exists>s' e'. spe_wait K t True 0 s e = Some (0, Some (spe_wait_status (of_int (ret_status T))), s', e') \<and>
    threads s' = (threads s)(t := None)"
proof -
  obtain gns N where L: "layout s gns N" "gl = listed s gns" "M = members s N"
    using assms(1) by (rule representsE)
  have "\<exists>h \<in> set (listed s gns). t \<in> set (members s N h)" using assms(2,3) L(2,3) by blast
  then obtain e1 where f: "srch_thread t s e = Some (True, e1)"
    using srch_thread_list [OF L(1), of t e] by auto
  obtain e2 where j: "sys_rv K (PthreadJoin (ts_pthread T)) e1 = (0, e2)"
    using assms(9) by (metis join_succeeds_def prod.collapse)
  obtain rc e3 where d: "base_spe_context_destroy K c e2 = (rc, e3)" by fastforce
  obtain G where G: "groups s (group_id T) = Some G" using assms(5) by blast
  obtain rc' s1 e4 where r: "remove_thread_from_group K (group_id T) t s e3 = Some (rc', s1, e4)"
    "threads s1 = threads s" using remove_thread_list [OF assms(1) G assms(4), of K t e3] by auto
  show ?thesis using f j d r assms(6-8)
    by (simp add: spe_wait_def spe_cleanup_def has_flag_def Let_def)
qed

lemma exit_code_word:
  fixes n :: "8 word"
  shows "(0x2000 :: u32) OR ucast n = 0x2000 + ucast n" "\<not> 0x2000 + (ucast n :: u32) < 0x2000"
    "\<not> 0x20ff < 0x2000 + (ucast n :: u32)" "(0x2000 + (ucast n :: u32)) AND 0xff = ucast n"
proof -
  have "push_bit 13 x AND ucast n = 0" for x :: u32
    by (rule bit_word_eqI) (auto dest!: bit_imp_le_length [of n] simp: bit_simps)
  from this [of 1] have z: "(0x2000 :: u32) AND ucast n = 0" by simp
  then show o: "(0x2000 :: u32) OR ucast n = 0x2000 + ucast n"
    using word_plus_and_or [of "0x2000 :: u32" "ucast n"] by simp
  have b: "unat (ucast n :: u32) < 256" using unsigned_less [of n] by (simp add: unat_ucast8)
  then have u: "unat (0x2000 + (ucast n :: u32)) = 0x2000 + unat (ucast n :: u32)"
    by (subst unat_add_lem [THEN iffD1]) simp_all
  show "\<not> 0x2000 + (ucast n :: u32) < 0x2000" "\<not> 0x20ff < 0x2000 + (ucast n :: u32)"
    using u b by (simp_all add: word_less_nat_alt)
  show "(0x2000 + (ucast n :: u32)) AND 0xff = ucast n"
    unfolding o [symmetric] by (simp add: word_ao_dist ucast8_masks)
qed

lemma exit_wait_status:
  fixes n :: "8 word"
  shows "spe_wait_status (stop_rc (SPE_PROGRAM_NORMAL_END OR ucast n)) = push_bit 8 (ucast n)"
proof -
  let ?x = "SPE_PROGRAM_NORMAL_END OR ucast n :: u32"
  have halves: "drop_bit 16 (y AND push_bit 16 z) = drop_bit 16 y AND take_bit 16 z" for y z :: u32
    by (rule bit_word_eqI) (auto simp: bit_simps dest: bit_imp_le_length)
  have "drop_bit 16 (stop_rc ?x AND 0xffff0000) = drop_bit 16 (stop_rc ?x) AND 0xffff"
    using halves [where y = "stop_rc ?x" and z = "0xffff"] by simp
  then have rc: "drop_bit 16 (stop_rc ?x AND 0xffff0000) = 0x2000 + ucast n"
    unfolding exit_code_word(1) [symmetric]
    using stop_code [of SPE_PROGRAM_NORMAL_END n] by (simp add: word_ao_dist ucast8_masks)
  have low: "stop_rc x AND 0xffff = 2" for x
    unfolding stop_rc_def mask_numerals by (intro bit_word_eqI) (auto simp: bit_simps)
  have "(stop_rc ?x AND 0xffff) AND m = 2 AND m" for m by (simp only: low)
  from this [of 4] this [of "0x20"] this [of "0x40"] this [of 1]
  have "\<not> has_flag (stop_rc ?x) 4" "\<not> has_flag (stop_rc ?x) 0x20" "\<not> has_flag (stop_rc ?x) 0x40"
    "\<not> has_flag (stop_rc ?x) 1"
    by (simp_all add: has_flag_def and.assoc)
  then show ?thesis
    unfolding spe_wait_status_def Let_def rc using exit_code_word(2-4) [of n] by simp
qed

section \<open>The last round\<close>

lemma represents_threads [simp]: "represents (s\<lparr>threads := ts\<rparr>) gl M = represents s gl M"
proof -
  have "members (s\<lparr>threads := ts\<rparr>) = members s" by (simp add: fun_eq_iff members_def)
  then show ?thesis by (simp add: represents_def layout_def listed_def)
qed

lemma post_event_ok:
  assumes "threads s t = Some T" "spectx T = Some c"
  shows "\<exists>e'. post_event K t ev data s e =
    Some (s\<lparr>threads := (threads s)(t \<mapsto> T\<lparr>ts_event := ev, ts_ev_data := data\<rparr>)\<rparr>, e')"
  using assms by (simp add: post_event_def upd_thread_def)

text \<open>After the loop: the status of the program is in the thread store, and the status is 99.\<close>

lemma finish_run_ok:
  assumes "threads s t = Some T" "spectx T = Some c" "groups s (group_id T) = Some G"
  shows "\<exists>T' e'. finish_run K t r s e = Some (r\<lparr>rn_pc := Thread_returned (spu_status (rn_info r))\<rparr>,
      s\<lparr>threads := (threads s)(t \<mapsto> T')\<rparr>, e') \<and>
    thread_status T' = 99 \<and> ret_status T' = spu_status (rn_info r) \<and> spectx T' = Some c \<and>
    group_id T' = group_id T"
proof (cases "use_events G")
  case True
  let ?T = "T\<lparr>ts_npc := rn_npc r, ret_status := spu_status (rn_info r)\<rparr>"
  obtain e' where "post_event K t EVENT_THREAD_EXIT (ucast (stop_reason_code (stop_reason (rn_info r))))
      (s\<lparr>threads := (threads s)(t \<mapsto> ?T)\<rparr>) e =
      Some (s\<lparr>threads := (threads s)(t \<mapsto> ?T\<lparr>ts_event := EVENT_THREAD_EXIT,
        ts_ev_data := ucast (stop_reason_code (stop_reason (rn_info r)))\<rparr>)\<rparr>, e')"
    using post_event_ok [of "s\<lparr>threads := (threads s)(t \<mapsto> ?T)\<rparr>" t ?T c] assms(2) by fastforce
  then show ?thesis using assms True
    by (intro exI [of _ "?T\<lparr>ts_event := EVENT_THREAD_EXIT,
        ts_ev_data := ucast (stop_reason_code (stop_reason (rn_info r))), thread_status := 99\<rparr>"] exI [of _ e'])
      (simp add: finish_run_def upd_thread_def set_status_def)
next
  case False
  then show ?thesis using assms
    by (intro exI [of _ "T\<lparr>ts_npc := rn_npc r, ret_status := spu_status (rn_info r), thread_status := 99\<rparr>"]
        exI [of _ e])
      (simp add: finish_run_def upd_thread_def set_status_def)
qed

lemma do_spe_run_finish:
  assumes "rn_pc r = Loop_left" "threads s t = Some T" "spectx T = Some c" "groups s (group_id T) = Some G"
  shows "\<exists>r' T' e'. do_spe_run K H junk t r s e = Some (r', s\<lparr>threads := (threads s)(t \<mapsto> T')\<rparr>, e') \<and>
    rn_pc r' = Thread_returned (spu_status (rn_info r)) \<and>
    thread_status T' = 99 \<and> ret_status T' = spu_status (rn_info r) \<and> spectx T' = Some c \<and>
    group_id T' = group_id T"
proof -
  let ?r = "r\<lparr>rn_pc := Thread_returned (spu_status (rn_info r))\<rparr>"
  obtain T' e' where f: "finish_run K t r s e = Some (?r, s\<lparr>threads := (threads s)(t \<mapsto> T')\<rparr>, e')"
    and T': "thread_status T' = 99" "ret_status T' = spu_status (rn_info r)" "spectx T' = Some c"
      "group_id T' = group_id T"
    using finish_run_ok [OF assms(2-4), of K r e] by blast
  have "do_spe_run K H junk t r s e = do_spe_run K H junk t ?r (s\<lparr>threads := (threads s)(t \<mapsto> T')\<rparr>) e'"
    by (rule do_spe_run_next) (use assms f in \<open>simp_all add: has_ended_def is_waiting_def do_spe_run_step_def\<close>)
  also have "\<dots> = Some (?r, s\<lparr>threads := (threads s)(t \<mapsto> T')\<rparr>, e')"
    by (rule do_spe_run_stop) (simp add: has_ended_def)
  finally show ?thesis using T' by fastforce
qed

section \<open>What the caller of \<open>spe_wait\<close> learns\<close>

text \<open>
  C6: a program that ends with the exit code \<open>n\<close> is seen through to its caller: \<open>do_spe_run\<close> returns and leaves
  the status 99, and a later \<open>spe_wait\<close> returns 0, stores \<open>n\<close> where \<open>WEXITSTATUS\<close> reads it and gives the thread
  free.
\<close>

theorem exit_status_reported:
  fixes n :: "8 word"
  assumes lists: "represents s gl M" "g \<in> set gl" "t \<in> set (M g)" "M (group_id T) \<noteq> []"
    and T: "threads s t = Some T" "spectx T = Some c" "\<not> ts_stop T" "groups s (group_id T) = Some G"
    and run: "base_spe_context_run K H (callback_table s) c SPE_DEFAULT_ENTRY 0 (ts_argp T) (ts_envp T)
      info junk [] (start_env_of K s e) = Some (0, st)"
      "of_int (spu_status (run_info st)) = stop_rc (SPE_PROGRAM_NORMAL_END OR ucast n)"
    and join: "join_succeeds K"
  shows "\<exists>r s' e' T'. do_spe_run K H junk t (new_runner info) s e = Some (r, s', e') \<and>
    rn_pc r = Thread_returned (spu_status (run_info st)) \<and>
    threads s' t = Some T' \<and> thread_status T' = 99 \<and>
    (\<forall>e1. \<exists>s'' e''. spe_wait K t True 0 s' e1 = Some (0, Some (push_bit 8 (ucast n)), s'', e'') \<and>
       threads s'' = (threads s')(t := None))"
proof -
  let ?T = "T\<lparr>spectx := Some (run_c st), thread_status := 10\<rparr>"
  let ?s = "s\<lparr>threads := (threads s)(t \<mapsto> ?T)\<rparr>"
  let ?r = "\<lparr>rn_pc = Resumed, rn_npc = run_entry st, rn_ret = 0, rn_errno = errno (run_env st),
       rn_info = run_info st, rn_woken = False, rn_cancel = False\<rparr>"
  have "do_spe_run K H junk t (new_runner info) s e = do_spe_run K H junk t ?r ?s (run_env st)"
    by (rule do_spe_run_first_round [OF T(1-3) run(1)])
  also have "\<dots> = do_spe_run K H junk t (?r\<lparr>rn_pc := Loop_left\<rparr>) ?s (run_env st)"
    by (rule do_spe_run_next) (simp_all add: has_ended_def is_waiting_def do_spe_run_step_def)
  finally obtain r T' e' where d: "do_spe_run K H junk t (new_runner info) s e =
      Some (r, ?s\<lparr>threads := (threads ?s)(t \<mapsto> T')\<rparr>, e')"
    "rn_pc r = Thread_returned (spu_status (run_info st))"
    and T': "thread_status T' = 99" "ret_status T' = spu_status (run_info st)" "spectx T' = Some (run_c st)"
      "group_id T' = group_id T"
    using do_spe_run_finish [of "?r\<lparr>rn_pc := Loop_left\<rparr>" ?s t ?T "run_c st" G K H junk "run_env st"]
      T(4) by auto
  let ?u = "?s\<lparr>threads := (threads ?s)(t \<mapsto> T')\<rparr>"
  have "\<exists>s'' e''. spe_wait K t True 0 ?u e1 = Some (0, Some (push_bit 8 (ucast n)), s'', e'') \<and>
      threads s'' = (threads ?u)(t := None)" for e1
    using wait_reports [of ?u gl M g t T' "run_c st" K e1] lists T T' join
    unfolding T'(2) run(2) exit_wait_status by simp
  then show ?thesis using d T'(1) by fastforce
qed

lemma thread_kernel_joins: "join_succeeds thread_kernel"
  by (simp add: join_succeeds_def thread_reply_def reply_ok_def)

theorem exit_status_reported_witness:
  "\<exists>r s' e' s'' e''. do_spe_run thread_kernel (\<lambda>_ _ _ _. None) 0 5 (new_runner no_info) sample_started
      (start_env (\<lambda>_. Some 0) ()) = Some (r, s', e') \<and>
    spe_wait thread_kernel 5 True 0 s' e' = Some (0, Some 0x300, s'', e'')"
proof -
  let ?H = "\<lambda>_ _ _ _. None" and ?e = "start_env (\<lambda>_. Some 0) ()"
  obtain T where T: "sample_started = sample_store T" "spectx T = Some loaded_context" "group_id T = 5"
    "\<not> ts_stop T" "ts_argp T = 0" "ts_envp T = 0"
    by (simp add: sample_started_def sample_thread_def zero_thread_def)
  obtain G where G: "groups (sample_store T) (group_id T) = Some G" using sample_group_there T(3) by metis
  have "start_env_of thread_kernel (sample_store T) ?e = emit SetCancelType ?e"
    by (simp add: start_env_of_def spe_thread_intro_def sample_store_def libspe12_start_def)
  then have "mapped (mem (start_env_of thread_kernel (sample_store T) ?e)) 0x100000 LS_SIZE"
    by (simp add: mapped_def start_env_def)
  then obtain st where st: "base_spe_context_run thread_kernel ?H (callback_table (sample_store T)) loaded_context
      SPE_DEFAULT_ENTRY 0 (ts_argp T) (ts_envp T) no_info 0 [] (start_env_of thread_kernel (sample_store T) ?e) =
      Some (0, st)" "spu_status (run_info st) = uint (stop_rc (SPE_PROGRAM_NORMAL_END OR ucast (3 :: 8 word)))"
    using sample_run T(5,6) by metis
  have code: "of_int (spu_status (run_info st)) = stop_rc (SPE_PROGRAM_NORMAL_END OR ucast (3 :: 8 word))"
    unfolding st(2) by simp
  have l: "5 \<in> set [5 :: addr]" "5 \<in> set (((\<lambda>_. [])(5 := [5 :: addr])) 5)"
    "((\<lambda>_. [])(5 := [5 :: addr])) (group_id T) \<noteq> []" "threads (sample_store T) 5 = Some T"
    using T(3) by simp_all
  obtain r s' e' where d: "do_spe_run thread_kernel ?H 0 5 (new_runner no_info) (sample_store T) ?e = Some (r, s', e')"
    and w: "\<forall>e1. \<exists>s'' e''. spe_wait thread_kernel 5 True 0 s' e1 =
      Some (0, Some (push_bit 8 (ucast (3 :: 8 word))), s'', e'')"
    using exit_status_reported [OF sample_store_represents l T(2,4) G st(1) code thread_kernel_joins] by blast
  obtain s'' e'' where "spe_wait thread_kernel 5 True 0 s' e' = Some (0, Some 0x300, s'', e'')"
    using spec [OF w, of e'] by auto
  then show ?thesis using d unfolding T(1) by blast
qed

text \<open>
  C38: when the run fails, the status of the program is never saved: \<open>spe_wait\<close> reports \<open>SIGILL\<close> whatever
  happened, for a halted program too, for which \<open>spe_wait_status\<close> means to say \<open>SIGABRT\<close>.
\<close>

theorem failed_thread_reports_sigill:
  assumes lists: "represents s gl M" "g \<in> set gl" "t \<in> set (M g)" "M (group_id T) \<noteq> []"
    and T: "threads s t = Some T" "spectx T = Some c" "groups s (group_id T) = Some G" "ret_status T = 0"
    and r: "rn_pc r = Resumed" "rn_ret r < 0" and join: "join_succeeds K"
  shows "\<exists>r' s' e'. do_spe_run K H junk t r s e = Some (r', s', e') \<and>
    rn_pc r' = Thread_returned (spu_status (rn_info r)) \<and>
    (\<forall>e1. \<exists>s'' e''. spe_wait K t True 0 s' e1 = Some (0, Some SIGILL, s'', e'')) \<and>
    (has_flag (of_int (spu_status (rn_info r))) 0x4 \<longrightarrow>
      spe_wait_status (of_int (spu_status (rn_info r))) AND 0x7f = SIGABRT)"
proof -
  let ?r = "r\<lparr>rn_pc := Thread_returned (spu_status (rn_info r))\<rparr>"
  obtain T' e1 where f: "failed_round K t r s e = Some (?r, s\<lparr>threads := (threads s)(t \<mapsto> T')\<rparr>, e1)"
    and T': "thread_status T' = 99" "ret_status T' = 0" "spectx T' = Some c" "group_id T' = group_id T"
  proof (cases "failure_event (rn_errno r) (rn_info r)")
    case None
    then show ?thesis using that [of "T\<lparr>ts_stop := True, thread_status := 99\<rparr>"] T
      by (simp add: failed_round_def upd_thread_def set_status_def)
  next
    case (Some ev)
    let ?d = "of_int (stop_result (rn_info r)) :: u64"
    obtain e' where "post_event K t ev ?d s (begin_wait t e) =
        Some (s\<lparr>threads := (threads s)(t \<mapsto> T\<lparr>ts_event := ev, ts_ev_data := ?d\<rparr>)\<rparr>, e')"
      using post_event_ok [OF T(1,2)] by blast
    then show ?thesis
      using that [of "T\<lparr>ts_event := ev, ts_ev_data := ?d, ts_stop := True, thread_status := 99\<rparr>"] T Some
      by (simp add: failed_round_def upd_thread_def set_status_def)
  qed
  let ?u = "s\<lparr>threads := (threads s)(t \<mapsto> T')\<rparr>"
  have "do_spe_run K H junk t r s e = do_spe_run K H junk t ?r ?u e1"
    by (rule do_spe_run_next) (use r f in \<open>simp_all add: has_ended_def is_waiting_def do_spe_run_step_def\<close>)
  also have "\<dots> = Some (?r, ?u, e1)"
    by (rule do_spe_run_stop) (simp add: has_ended_def)
  finally have d: "do_spe_run K H junk t r s e = Some (?r, ?u, e1)" .
  have z: "spe_wait_status 0 = SIGILL" by (simp add: spe_wait_status_def has_flag_def)
  have "\<exists>s'' e''. spe_wait K t True 0 ?u e1 = Some (0, Some SIGILL, s'', e'')" for e1
    using wait_reports [of ?u gl M g t T' c K e1] lists T T' join z by auto
  moreover have "spe_wait_status x AND 0x7f = SIGABRT" if "has_flag x 0x4" for x
    using that by (simp add: spe_wait_status_def word_ao_dist Let_def and.assoc)
  ultimately show ?thesis using d by (intro exI [of _ ?r] exI [of _ ?u] exI [of _ e1]) simp
qed

theorem failed_thread_reports_sigill_witness:
  "\<exists>r' s' e' s'' e''. do_spe_run thread_kernel (\<lambda>_ _ _ _. None) 0 5
      ((new_runner (no_info\<lparr>spu_status := 4\<rparr>))\<lparr>rn_pc := Resumed, rn_ret := -1\<rparr>) sample_started
      (start_env (\<lambda>_. Some 0) ()) = Some (r', s', e') \<and>
    spe_wait thread_kernel 5 True 0 s' e' = Some (0, Some SIGILL, s'', e'') \<and>
    spe_wait_status 4 AND 0x7f = SIGABRT"
proof -
  let ?r = "(new_runner (no_info\<lparr>spu_status := 4\<rparr>))\<lparr>rn_pc := Resumed, rn_ret := -1\<rparr>"
  obtain T where T: "sample_started = sample_store T" "spectx T = Some loaded_context" "group_id T = 5"
    "ret_status T = 0"
    by (simp add: sample_started_def sample_thread_def zero_thread_def)
  obtain G where G: "groups (sample_store T) (group_id T) = Some G" using sample_group_there T(3) by metis
  have l: "5 \<in> set [5 :: addr]" "5 \<in> set (((\<lambda>_. [])(5 := [5 :: addr])) 5)"
    "((\<lambda>_. [])(5 := [5 :: addr])) (group_id T) \<noteq> []" "threads (sample_store T) 5 = Some T"
    using T(3) by simp_all
  have r: "rn_pc ?r = Resumed" "rn_ret ?r < 0" "has_flag (of_int (spu_status (rn_info ?r))) 0x4"
    by (simp_all add: new_runner_def has_flag_def)
  have "spu_status (rn_info ?r) = 4" by (simp add: new_runner_def)
  then show ?thesis
    using failed_thread_reports_sigill [OF sample_store_represents l T(2) G T(4) r(1,2) thread_kernel_joins,
        of "\<lambda>_ _ _ _. None" 0 "start_env (\<lambda>_. Some 0) ()"] r(3)
    unfolding T(1) by (metis of_int_numeral)
qed

section \<open>Control signals\<close>

lemma deliver_no_wait:
  assumes "rs t = Some r" "\<not> is_waiting r" "threads s t = Some T"
    "(PthreadCancel (ts_pthread T), 0) \<notin> set q"
  shows "deliver s q rs t = Some r"
  using assms by (simp add: deliver_def deliver_to_def wake_def)

lemma member_found:
  assumes "represents s gl M" "g \<in> set gl" "t \<in> set (M g)"
  shows "srch_thread t s e = Some (True, unlock_groups (lock_groups e))"
proof -
  obtain gns N where L: "layout s gns N" "gl = listed s gns" "M = members s N"
    using assms(1) by (rule representsE)
  then have "find_thread s t (list_start s) = Some True"
    using find_thread_list [OF L(1) layoutD(1) [OF L(1)]] assms(2,3) by auto
  then show ?thesis by (simp add: srch_thread_def)
qed

text \<open>
  a \<open>SIGCONT\<close> that arrives while the program of a stopped thread still runs is lost: nobody waits for the
  condition variable yet, \<open>stop\<close> stays set, and after the round the thread pauses although both signals
  were reported as delivered, the last of them \<open>SIGCONT\<close>.
\<close>

theorem early_continue_lost:
  assumes lists: "represents s gl M" "g \<in> set gl" "t \<in> set (M g)"
    and T: "threads s t = Some T" and r: "rs t = Some r" "rn_pc r = Round_run"
  shows "\<exists>s1 e1 e2. spe_kill K t SIGSTOP s e = Some (0, s1, e1) \<and> spe_kill K t SIGCONT s1 e1 = Some (0, s1, e2) \<and>
    (CondSignal t, 0) \<in> set (added e1 e2) \<and> deliver s1 (added e1 e2) rs t = Some r \<and>
    (\<forall>H junk r1 s2 e3. do_spe_run_step K H junk t r s1 e2 = Some (r1, s2, e3) \<longrightarrow>
      (\<exists>r2 s3 e4 T'. do_spe_run_step K H junk t r1 s2 e3 = Some (r2, s3, e4) \<and>
        rn_pc r2 = Pausing \<and> \<not> rn_woken r2 \<and> threads s3 t = Some T' \<and> thread_status T' = 20))"
proof -
  let ?s = "s\<lparr>threads := (threads s)(t \<mapsto> T\<lparr>ts_stop := True\<rparr>)\<rparr>"
  have f: "srch_thread t s e = Some (True, unlock_groups (lock_groups e))"
    "srch_thread t ?s e = Some (True, unlock_groups (lock_groups e))" for e :: "'a env"
    using member_found [OF lists] member_found [of ?s gl M g t] lists by simp_all
  let ?e1 = "unlock_groups (lock_groups e)"
  let ?e2 = "unlock_thread t (emit (CondSignal t) (lock_thread t (unlock_groups (lock_groups ?e1))))"
  have stop: "spe_kill K t SIGSTOP s e = Some (0, ?s, ?e1)"
    using f(1) T by (simp add: spe_kill_def upd_thread_def)
  have cont: "spe_kill K t SIGCONT ?s ?e1 = Some (0, ?s, ?e2)"
    using f(2) by (simp add: spe_kill_def Let_def)
  have a: "added ?e1 ?e2 = [(Lock GroupLock, 0), (Unlock GroupLock, 0), (Lock (ThreadLock t), 0), (CondSignal t, 0),
      (Unlock (ThreadLock t), 0)]"
    by (simp add: added_def lock_groups_def unlock_groups_def lock_thread_def unlock_thread_def)
  have d: "deliver ?s (added ?e1 ?e2) rs t = Some r"
    by (rule deliver_no_wait [where r = r and T = "T\<lparr>ts_stop := True\<rparr>"]) (simp_all add: a r is_waiting_def)
  have "\<exists>r2 s3 e4 T'. do_spe_run_step K H junk t r1 s2 e3 = Some (r2, s3, e4) \<and>
        rn_pc r2 = Pausing \<and> \<not> rn_woken r2 \<and> threads s3 t = Some T' \<and> thread_status T' = 20"
    if step: "do_spe_run_step K H junk t r ?s ?e2 = Some (r1, s2, e3)" for H junk r1 s2 e3
  proof -
    have "rn_pc r1 = Round_done" "\<exists>c. threads s2 t = Some (T\<lparr>ts_stop := True, spectx := c\<rparr>)"
      using step r(2) by (auto simp: do_spe_run_step_def run_round_def upd_thread_def split: Option.bind_splits)
    then show ?thesis
      by (auto simp: do_spe_run_step_def after_round_def set_status_def upd_thread_def)
  qed
  then show ?thesis using stop cont d a
    by (intro exI [of _ ?s] exI [of _ ?e1] exI [of _ ?e2]) (auto simp del: fun_upd_apply)
qed

theorem early_continue_lost_witness:
  "\<exists>s1 e1 e2. spe_kill thread_kernel 5 SIGSTOP sample_started (start_env Map.empty ()) = Some (0, s1, e1) \<and>
    spe_kill thread_kernel 5 SIGCONT s1 e1 = Some (0, s1, e2) \<and>
    deliver s1 (added e1 e2) [5 \<mapsto> (new_runner no_info)\<lparr>rn_pc := Round_run\<rparr>] 5 =
      Some ((new_runner no_info)\<lparr>rn_pc := Round_run\<rparr>)"
proof -
  let ?r = "(new_runner no_info)\<lparr>rn_pc := Round_run\<rparr>"
  obtain T where T: "sample_started = sample_store T" by (simp add: sample_started_def)
  have l: "5 \<in> set [5 :: addr]" "5 \<in> set (((\<lambda>_. [])(5 := [5 :: addr])) 5)" "threads (sample_store T) 5 = Some T"
    "[5 \<mapsto> ?r] (5 :: addr) = Some ?r" "rn_pc ?r = Round_run"
    by simp_all
  show ?thesis
    unfolding T
    using early_continue_lost [where rs = "[5 \<mapsto> ?r]" and r = ?r, OF sample_store_represents l,
        of thread_kernel "start_env Map.empty ()"]
    by (elim exE conjE) (intro exI conjI)
qed

text \<open>
  C27: \<open>SIGKILL\<close> ends a thread whose event waits to be handled: it is woken and not cancelled, leaves the loop
  at its next step, and returns with its status saved and 99 in the thread store.
\<close>

theorem killed_waiting_thread_ends:
  assumes lists: "represents s gl M" "g \<in> set gl" "t \<in> set (M g)"
    and T: "threads s t = Some T" "spectx T = Some c" "groups s (group_id T) = Some G" "event_pending T"
    and r: "rs t = Some r" "rn_pc r = Event_waiting"
  shows "\<exists>s1 e1. spe_kill K t SIGKILL s e = Some (0, s1, e1) \<and>
    deliver s1 (added e e1) rs t = Some (r\<lparr>rn_woken := True\<rparr>) \<and>
    (\<forall>H junk e2. \<exists>r2 s2 e3 r3 s3 e4 T'.
      do_spe_run_step K H junk t (r\<lparr>rn_woken := True\<rparr>) s1 e2 = Some (r2, s2, e3) \<and>
      do_spe_run K H junk t r2 s2 e3 = Some (r3, s3, e4) \<and>
      rn_pc r3 = Thread_returned (spu_status (rn_info r)) \<and> threads s3 t = Some T' \<and>
      thread_status T' = 99 \<and> ret_status T' = spu_status (rn_info r))"
proof -
  let ?T = "T\<lparr>killed := True\<rparr>" and ?r = "r\<lparr>rn_woken := True\<rparr>"
  let ?s = "s\<lparr>threads := (threads s)(t \<mapsto> ?T)\<rparr>"
  let ?e = "unlock_thread t (emit (CondSignal t) (lock_thread t (unlock_groups (lock_groups e))))"
  have k: "spe_kill K t SIGKILL s e = Some (0, ?s, ?e)"
    using member_found [OF lists, of e] T by (simp add: spe_kill_def upd_thread_def Let_def)
  have a: "added e ?e = [(Lock GroupLock, 0), (Unlock GroupLock, 0), (Lock (ThreadLock t), 0), (CondSignal t, 0),
      (Unlock (ThreadLock t), 0)]"
    by (simp add: added_def lock_groups_def unlock_groups_def lock_thread_def unlock_thread_def)
  have d: "deliver ?s (added e ?e) rs t = Some ?r"
    using r by (simp add: a deliver_def deliver_to_def wake_def is_waiting_def)
  have "\<exists>r2 s2 e3 r3 s3 e4 T'. do_spe_run_step K H junk t ?r ?s e2 = Some (r2, s2, e3) \<and>
      do_spe_run K H junk t r2 s2 e3 = Some (r3, s3, e4) \<and>
      rn_pc r3 = Thread_returned (spu_status (rn_info r)) \<and> threads s3 t = Some T' \<and>
      thread_status T' = 99 \<and> ret_status T' = spu_status (rn_info r)" for H junk e2
  proof -
    let ?U = "?T\<lparr>event_pending := False\<rparr>" and ?q = "?r\<lparr>rn_pc := Loop_left\<rparr>"
    let ?u = "?s\<lparr>threads := (threads ?s)(t \<mapsto> ?U)\<rparr>"
    have "do_spe_run_step K H junk t ?r ?s e2 = Some (?q, ?u, unlock_thread t e2)"
      using r(2) by (simp add: do_spe_run_step_def end_event_wait_def upd_thread_def)
    moreover obtain r' T' e' where "do_spe_run K H junk t ?q ?u (unlock_thread t e2) =
        Some (r', ?u\<lparr>threads := (threads ?u)(t \<mapsto> T')\<rparr>, e')"
      "rn_pc r' = Thread_returned (spu_status (rn_info ?q))" "thread_status T' = 99"
      "ret_status T' = spu_status (rn_info ?q)"
      using do_spe_run_finish [of ?q ?u t ?U c G K H junk "unlock_thread t e2"] T by auto
    moreover have "threads (?u\<lparr>threads := (threads ?u)(t \<mapsto> T')\<rparr>) t = Some T'" by simp
    ultimately show ?thesis by fastforce
  qed
  then show ?thesis using k d by blast
qed

theorem killed_waiting_thread_ends_witness:
  "\<exists>s1 e1 r1 s2 e2 r3 s3 e3 T'. spe_kill thread_kernel 5 SIGKILL
      (sample_store (sample_thread (Some loaded_context)\<lparr>event_pending := True\<rparr>)) (start_env Map.empty ()) =
      Some (0, s1, e1) \<and>
    do_spe_run thread_kernel (\<lambda>_ _ _ _. None) 0 5 r1 s2 e2 = Some (r3, s3, e3) \<and>
    threads s3 5 = Some T' \<and> thread_status T' = 99"
proof -
  let ?r = "(new_runner no_info)\<lparr>rn_pc := Event_waiting\<rparr>"
  let ?T = "sample_thread (Some loaded_context)\<lparr>event_pending := True\<rparr>"
  have l: "5 \<in> set [5 :: addr]" "5 \<in> set (((\<lambda>_. [])(5 := [5 :: addr])) 5)" "threads (sample_store ?T) 5 = Some ?T"
    "spectx ?T = Some loaded_context" by (simp_all add: sample_thread_def zero_thread_def)
  obtain G where G: "groups (sample_store ?T) (group_id ?T) = Some G"
    using sample_group_there [of ?T] by (auto simp: sample_thread_def zero_thread_def)
  have r: "event_pending ?T" "[5 \<mapsto> ?r] (5 :: addr) = Some ?r" "rn_pc ?r = Event_waiting" by simp_all
  show ?thesis
    using killed_waiting_thread_ends [where rs = "[5 \<mapsto> ?r]" and r = ?r, OF sample_store_represents l G r,
        of thread_kernel "start_env Map.empty ()"] by blast
qed

end
