(* ===== verification/Thread_Events.thy ===== *)
theory Thread_Events
  imports Thread_Samples
begin

unbundle bit_operations_syntax

text \<open>
  \<open>spe_get_event\<close> of \<open>libspe12/spethreads.c\<close>: it reports an event that a thread of the group has posted, or
  polls the mailbox, the event pipe and the tag status of every member.
\<close>

section \<open>The call\<close>

abbreviation (input) SPE_EVENT_MAILBOX :: u32 where "SPE_EVENT_MAILBOX \<equiv> 0x1"
abbreviation (input) SPE_EVENT_TAG_GROUP :: u32 where "SPE_EVENT_TAG_GROUP \<equiv> 0x4"
abbreviation (input) SPE_EVENT_DMA_ALIGNMENT :: u32 where "SPE_EVENT_DMA_ALIGNMENT \<equiv> 0x8"
abbreviation (input) SPE_EVENT_SPE_DATA_SEGMENT :: u32 where "SPE_EVENT_SPE_DATA_SEGMENT \<equiv> 0x20"
abbreviation (input) SPE_EVENT_SPE_DATA_STORAGE :: u32 where "SPE_EVENT_SPE_DATA_STORAGE \<equiv> 0x40"
abbreviation (input) SPE_EVENT_INVALID_DMA_CMD :: u32 where "SPE_EVENT_INVALID_DMA_CMD \<equiv> 0x800"

record spe_event12 =
  pe_gid :: addr
  pe_events :: u32
  pe_revents :: u32
  pe_speid :: addr
  pe_data :: u64

text \<open>
  An element of \<open>SPEfds\<close> with the element of \<open>phelper\<close> of the same index; since \<open>nevents\<close> is 1, the field
  \<open>event\<close> is always 0.
\<close>

record poll_helper =
  ph_fd :: int
  ph_thread :: addr
  ph_type :: nat
  ph_retfd :: int

text \<open>The masks of the events that come through the pipe, in the first loop and in the second.\<close>

definition pipe_events :: u32 where
  "pipe_events = EVENT_STOP OR SPE_EVENT_DMA_ALIGNMENT OR EVENT_SPE_ERROR OR SPE_EVENT_SPE_DATA_SEGMENT OR
     SPE_EVENT_SPE_DATA_STORAGE OR EVENT_SPE_TRAPPED OR EVENT_THREAD_EXIT"

definition polled_pipe_events :: u32 where
  "polled_pipe_events = pipe_events OR SPE_EVENT_INVALID_DMA_CMD"

definition fds_counted :: "u32 \<Rightarrow> nat" where
  "fds_counted ev =
     (if has_flag ev SPE_EVENT_MAILBOX then 1 else 0) + (if has_flag ev SPE_EVENT_TAG_GROUP then 1 else 0) +
     (if has_flag ev pipe_events then 1 else 0)"

text \<open>The first loop: a member with a requested event, or the number of descriptors to poll.\<close>

fun scan_members :: "libspe12 \<Rightarrow> u32 \<Rightarrow> addr \<Rightarrow> nat \<Rightarrow> nat \<Rightarrow> (addr + nat) option" where
  "scan_members s ev p 0 cnt = Some (Inr cnt)"
| "scan_members s ev p (Suc n) cnt = do {
     x \<leftarrow> elems s p;
     T \<leftarrow> threads s (el_thread x);
     if ts_event T \<noteq> 0 \<and> has_flag (ts_event T) ev then Some (Inl (el_thread x))
     else scan_members s ev (el_next x) n (cnt + fds_counted ev) }"

definition report_event :: "addr \<Rightarrow> u32 \<Rightarrow> u64 \<Rightarrow> spe_event12 \<Rightarrow> spe_event12" where
  "report_event t ev d pe = pe\<lparr>pe_revents := ev, pe_speid := t, pe_data := d\<rparr>"

definition forget_event :: "thread_store \<Rightarrow> thread_store" where
  "forget_event T = T\<lparr>ts_event := 0, ts_ev_data := 0\<rparr>"

definition deliver_pending ::
  "'w kernel \<Rightarrow> addr \<Rightarrow> spe_event12 \<Rightarrow> libspe12 \<Rightarrow> 'w env \<Rightarrow> (int \<times> spe_event12 \<times> libspe12 \<times> 'w env) option"
where
  "deliver_pending K t pe s e = do {
     T \<leftarrow> threads s t;
     c \<leftarrow> spectx T;
     let (_, e1) = sys_rv K (Read (fst (ev_pipe c)) 4) e;
     s1 \<leftarrow> upd_thread t forget_event s;
     Some (1, report_event t (ts_event T) (ts_ev_data T) pe, s1, unlock_groups e1) }"

text \<open>The arrays have \<open>room\<close> elements; a store behind them is undefined.\<close>

definition push_fd :: "nat \<Rightarrow> int \<Rightarrow> addr \<Rightarrow> nat \<Rightarrow> poll_helper list \<Rightarrow> poll_helper list option" where
  "push_fd room fd t ty ps =
     (if length ps < room then Some (ps @ [\<lparr>ph_fd = fd, ph_thread = t, ph_type = ty, ph_retfd = -1\<rparr>]) else None)"

definition setup_file ::
  "'w kernel \<Rightarrow> nat \<Rightarrow> fd_name \<Rightarrow> nat \<Rightarrow> addr \<Rightarrow> poll_helper list \<Rightarrow> libspe12 \<Rightarrow> 'w env \<Rightarrow>
   (poll_helper list \<times> libspe12 \<times> 'w env) option"
where
  "setup_file K room f ty t ps s e = do {
     T \<leftarrow> threads s t;
     c \<leftarrow> spectx T;
     let (fd, c1, e1) = base_spe_open_if_closed K c f False e;
     s1 \<leftarrow> upd_thread t (\<lambda>T. T\<lparr>spectx := Some c1\<rparr>) s;
     ps1 \<leftarrow> push_fd room fd t ty ps;
     Some (ps1, s1, e1) }"

definition setup_pipe ::
  "nat \<Rightarrow> addr \<Rightarrow> poll_helper list \<Rightarrow> libspe12 \<Rightarrow> poll_helper list option" where
  "setup_pipe room t ps s = do {
     T \<leftarrow> threads s t;
     c \<leftarrow> spectx T;
     push_fd room (fst (ev_pipe c)) t 2 ps }"

definition setup_thread ::
  "'w kernel \<Rightarrow> u32 \<Rightarrow> nat \<Rightarrow> addr \<Rightarrow> poll_helper list \<Rightarrow> libspe12 \<Rightarrow> 'w env \<Rightarrow>
   (poll_helper list \<times> libspe12 \<times> 'w env) option"
where
  "setup_thread K ev room t ps s e = do {
     (ps1, s1, e1) \<leftarrow> (if has_flag ev SPE_EVENT_MAILBOX then setup_file K room FD_IBOX 1 t ps s e
                        else Some (ps, s, e));
     ps2 \<leftarrow> (if has_flag ev polled_pipe_events then setup_pipe room t ps1 s1 else Some ps1);
     (if has_flag ev SPE_EVENT_TAG_GROUP then setup_file K room FD_MFC 3 t ps2 s1 e1
      else Some (ps2, s1, e1)) }"

fun setup_members ::
  "'w kernel \<Rightarrow> u32 \<Rightarrow> nat \<Rightarrow> addr \<Rightarrow> nat \<Rightarrow> poll_helper list \<Rightarrow> libspe12 \<Rightarrow> 'w env \<Rightarrow>
   (poll_helper list \<times> libspe12 \<times> 'w env) option"
where
  "setup_members K ev room p 0 ps s e = Some (ps, s, e)"
| "setup_members K ev room p (Suc n) ps s e = do {
     x \<leftarrow> elems s p;
     (ps1, s1, e1) \<leftarrow> setup_thread K ev room (el_thread x) ps s e;
     setup_members K ev room (el_next x) n ps1 s1 e1 }"

fun validatefd :: "poll_helper list \<Rightarrow> int \<Rightarrow> bool" where
  "validatefd [] fd = True"
| "validatefd (p # ps) fd = (if ph_retfd p = fd then False else validatefd ps fd)"

text \<open>
  One descriptor that is ready; \<open>data\<close> keeps its uninitialised contents \<open>junk\<close> when the pipe gives less than
  four bytes, and the word is extended with its sign where it becomes an \<open>unsigned long\<close>.
\<close>

definition poll_result ::
  "'w kernel \<Rightarrow> u32 \<Rightarrow> poll_helper \<Rightarrow> spe_event12 \<Rightarrow> libspe12 \<Rightarrow> 'w env \<Rightarrow>
   (int \<times> poll_helper \<times> spe_event12 \<times> libspe12 \<times> 'w env) option"
where
  "poll_result K junk p pe s e = do {
     let (r, e1) = sys K (Read (ph_fd p) 4) e;
     let data = (if rv r = 4 then word_of_bytes (rbytes r) else junk);
     let p1 = p\<lparr>ph_retfd := ph_fd p\<rparr>;
     if ph_type p = 2 then do {
       T \<leftarrow> threads s (ph_thread p);
       s1 \<leftarrow> upd_thread (ph_thread p) forget_event s;
       Some (1, p1, report_event (ph_thread p) data (ts_ev_data T) pe, s1, e1) }
     else if rv r = 4 then
       Some (1, p1, report_event (ph_thread p) (if ph_type p = 1 then SPE_EVENT_MAILBOX else SPE_EVENT_TAG_GROUP)
         (scast data) pe, s, e1)
     else Some (0, p, pe, s, e1) }"

text \<open>The loop over the results; \<open>before\<close> are the elements of \<open>phelper\<close> up to the current index.\<close>

fun poll_results ::
  "'w kernel \<Rightarrow> u32 \<Rightarrow> poll_helper list \<Rightarrow> (poll_helper \<times> int) list \<Rightarrow> int \<Rightarrow> spe_event12 \<Rightarrow> libspe12 \<Rightarrow>
   'w env \<Rightarrow> (int \<times> spe_event12 \<times> libspe12 \<times> 'w env) option"
where
  "poll_results K junk before [] n pe s e = Some (n, pe, s, e)"
| "poll_results K junk before ((p, rdy) # qs) n pe s e =
     (if rdy \<noteq> 0 \<and> pe_speid pe = NULL \<and> validatefd before (ph_fd p) then do {
        (k, p1, pe1, s1, e1) \<leftarrow> poll_result K junk p pe s e;
        poll_results K junk (before @ [p1]) qs (n + k) pe1 s1 e1 }
      else poll_results K junk (before @ [p]) qs n pe s e)"

definition free_arrays :: "'w kernel \<Rightarrow> int \<Rightarrow> int \<Rightarrow> 'w env \<Rightarrow> 'w env" where
  "free_arrays K a b e = snd (sys_rv K (Free (nat b)) (snd (sys_rv K (Free (nat a)) e)))"

text \<open>
  The reply to \<open>poll\<close> holds the fields \<open>revents\<close> as they are after the call, set by it or not: a failure of
  \<open>poll\<close> is not told from a success.
\<close>

definition poll_members ::
  "'w kernel \<Rightarrow> u32 \<Rightarrow> nat \<Rightarrow> group_store \<Rightarrow> int \<Rightarrow> spe_event12 \<Rightarrow> libspe12 \<Rightarrow> 'w env \<Rightarrow>
   (int \<times> spe_event12 \<times> libspe12 \<times> 'w env) option"
where
  "poll_members K junk room g timeout pe s e = do {
     let (a, e1) = sys_rv K (Malloc (room * 8)) e;
     let (b, e2) = sys_rv K (Malloc (room * 24)) e1;
     if a \<le> 0 \<or> b \<le> 0 then None
     else do {
       (ps, s1, e3) \<leftarrow>
         setup_members K (pe_events pe) room (grp_members g) (nat (numListSize g)) [] s e2;
       if length ps \<noteq> room then Some (-1, pe, s1, set_errno EFAULT (unlock_groups (free_arrays K a b e3)))
       else do {
         let (r, e4) = sys K (PollFds (map (\<lambda>p. (ph_fd p, POLLIN)) ps) timeout) (unlock_groups e3);
         if rv r = 0 then Some (0, pe, s1, free_arrays K a b e4)
         else do {
           let revs = rvals r @ replicate (length ps) 0;
           (n, pe1, s2, e5) \<leftarrow> poll_results K junk [] (zip ps revs) 0 pe s1 e4;
           Some (n, pe1, s2, free_arrays K a b e5) } } } }"

text \<open>\<open>nevents\<close> is overwritten with 1 at once: the call works on \<open>pevents[0]\<close> alone.\<close>

definition spe_get_event ::
  "'w kernel \<Rightarrow> u32 \<Rightarrow> spe_event12 \<Rightarrow> int \<Rightarrow> int \<Rightarrow> libspe12 \<Rightarrow> 'w env \<Rightarrow>
   (int \<times> spe_event12 \<times> libspe12 \<times> 'w env) option"
where
  "spe_get_event K junk pe nevents timeout s e = do {
     let e1 = lock_groups e;
     let pe1 = report_event NULL 0 0 pe;
     g \<leftarrow> groups s (pe_gid pe1);
     found \<leftarrow> scan_members s (pe_events pe1) (grp_members g) (nat (numListSize g)) 0;
     (case found of
        Inl t \<Rightarrow> deliver_pending K t pe1 s e1
      | Inr room \<Rightarrow>
          if room = 0 then Some (-1, pe1, s, set_errno EINVAL (unlock_groups e1))
          else poll_members K junk room g timeout pe1 s e1) }"

section \<open>The first loop\<close>

definition is_pending :: "libspe12 \<Rightarrow> u32 \<Rightarrow> addr \<Rightarrow> bool" where
  "is_pending s ev t \<longleftrightarrow> has_flag (ts_event (the (threads s t))) ev"

lemma scan_members_list:
  assumes "chain (enext s) p ns" "\<forall>n \<in> set ns. threads s (thread_at s n) \<noteq> None"
  shows "scan_members s ev p (length ns) cnt =
    Some (case find (is_pending s ev) (map (thread_at s) ns) of
      Some t \<Rightarrow> Inl t | None \<Rightarrow> Inr (cnt + length ns * fds_counted ev))"
  using assms
proof (induction ns arbitrary: p cnt)
  case (Cons n ns)
  then obtain x where x: "n = p" "elems s p = Some x" "chain (enext s) (el_next x) ns"
    by (auto simp: next_Some)
  then obtain T where T: "threads s (el_thread x) = Some T" "thread_at s p = el_thread x"
    using Cons.prems(2) by (auto simp: thread_at_def)
  have "has_flag (ts_event T) ev \<Longrightarrow> ts_event T \<noteq> 0" by auto
  then show ?case using x T Cons.IH [OF x(3), of "cnt + fds_counted ev"] Cons.prems(2)
    by (auto simp: add.assoc is_pending_def split: option.splits)
qed simp

text \<open>A group as the store represents it: \<open>scan_members\<close> sees its members, the youngest first.\<close>

lemma scan_group:
  assumes "represents s gl M" "groups s g = Some G" "\<forall>t \<in> set (M g). threads s t \<noteq> None"
  shows "scan_members s ev (grp_members G) (nat (numListSize G)) 0 =
    Some (case find (is_pending s ev) (M g) of
      Some t \<Rightarrow> Inl t | None \<Rightarrow> Inr (length (M g) * fds_counted ev))"
proof -
  obtain gns N where L: "layout s gns N" "gl = listed s gns" "M = members s N"
    using assms(1) by (rule representsE)
  have "\<forall>n \<in> set (N g). threads s (thread_at s n) \<noteq> None" using assms(3) L(3) by (simp add: members_def)
  moreover have "M g = map (thread_at s) (N g)" using L(3) by (simp add: members_def)
  ultimately show ?thesis
    using scan_members_list [OF layoutD(4) [OF L(1) assms(2)], of ev 0] layoutD(5) [OF L(1) assms(2)]
    by (simp cong: option.case_cong)
qed

section \<open>The second loop\<close>

definition fds_polled :: "u32 \<Rightarrow> nat" where
  "fds_polled ev =
     (if has_flag ev SPE_EVENT_MAILBOX then 1 else 0) + (if has_flag ev SPE_EVENT_TAG_GROUP then 1 else 0) +
     (if has_flag ev polled_pipe_events then 1 else 0)"

lemma push_fdD: "push_fd room fd t ty ps = Some ps' \<Longrightarrow> length ps' = Suc (length ps) \<and> length ps < room \<and> ps' \<noteq> []"
  by (auto simp: push_fd_def split: if_splits)

lemma setup_fileD:
  "setup_file K room f ty t ps s e = Some (ps', s', e') \<Longrightarrow>
   length ps' = Suc (length ps) \<and> length ps < room \<and> elems s' = elems s"
  by (auto simp: setup_file_def upd_thread_def split: Option.bind_splits prod.splits dest!: push_fdD)

lemma setup_pipeD: "setup_pipe room t ps s = Some ps' \<Longrightarrow> length ps' = Suc (length ps) \<and> length ps < room"
  by (auto simp: setup_pipe_def split: Option.bind_splits dest!: push_fdD)

lemma setup_threadD:
  "setup_thread K ev room t ps s e = Some (ps', s', e') \<Longrightarrow> length ps \<le> room \<Longrightarrow>
   length ps' = length ps + fds_polled ev \<and> length ps' \<le> room"
  by (auto simp: setup_thread_def fds_polled_def split: Option.bind_splits if_splits
      dest!: setup_fileD setup_pipeD)

lemma setup_members_length:
  "setup_members K ev room p n ps s e = Some (ps', s', e') \<Longrightarrow> length ps \<le> room \<Longrightarrow>
   length ps' = length ps + n * fds_polled ev \<and> length ps' \<le> room"
proof (induction n arbitrary: p ps s e)
  case (Suc n)
  then show ?case
    by (auto split: Option.bind_splits dest!: setup_threadD)
qed simp

lemma has_flag_or_mask: "has_flag ev (a OR b) \<longleftrightarrow> has_flag ev a \<or> has_flag ev b"
  using has_flag_or [of a b ev] by (simp add: has_flag_def and.commute)

lemma fds_polled: "fds_polled ev = fds_counted ev +
    (if has_flag ev SPE_EVENT_INVALID_DMA_CMD \<and> \<not> has_flag ev pipe_events then 1 else 0)"
  by (auto simp: fds_polled_def fds_counted_def polled_pipe_events_def has_flag_or_mask)

text \<open>The arrays are filled exactly, so that the branch for a mismatch is never taken.\<close>

lemma setup_members_exact:
  assumes "setup_members K ev (n * fds_counted ev) p n [] s e = Some (ps, s', e')"
  shows "length ps = n * fds_counted ev"
  using setup_members_length [OF assms] by (auto simp: fds_polled)

lemma setup_threads:
  "setup_file K room f ty t ps s e = Some (ps', s', e') \<Longrightarrow>
   (\<forall>p \<in> set ps'. p \<in> set ps \<or> ph_thread p = t) \<and> elems s' = elems s"
  "setup_pipe room t ps s = Some ps'' \<Longrightarrow> \<forall>p \<in> set ps''. p \<in> set ps \<or> ph_thread p = t"
  by (auto simp: setup_file_def setup_pipe_def push_fd_def upd_thread_def split: Option.bind_splits prod.splits
      if_splits)

lemma setup_members_threads:
  "setup_members K ev room p (length ns) ps s e = Some (ps', s', e') \<Longrightarrow> chain (enext s) p ns \<Longrightarrow>
   ph_thread ` set ps' \<subseteq> ph_thread ` set ps \<union> set (map (thread_at s) ns)"
proof (induction ns arbitrary: p ps s e)
  case (Cons n ns)
  then obtain x where x: "n = p" "elems s p = Some x" "chain (enext s) (el_next x) ns"
    by (auto simp: next_Some)
  then obtain ps1 s1 e1 where st: "setup_thread K ev room (el_thread x) ps s e = Some (ps1, s1, e1)"
    and r: "setup_members K ev room (el_next x) (length ns) ps1 s1 e1 = Some (ps', s', e')"
    using Cons.prems by (auto split: Option.bind_splits)
  have e: "elems s1 = elems s"
    and t: "\<forall>p \<in> set ps1. p \<in> set ps \<or> ph_thread p = el_thread x"
    using st by (fastforce simp: setup_thread_def split: Option.bind_splits if_splits dest!: setup_threads)+
  have "enext s1 = enext s" "thread_at s1 = thread_at s" using e by (auto simp: enext_def thread_at_def)
  then have "ph_thread ` set ps' \<subseteq> ph_thread ` set ps1 \<union> set (map (thread_at s) ns)"
    using Cons.IH [OF r] x(3) by simp
  moreover have "ph_thread ` set ps1 \<subseteq> insert (el_thread x) (ph_thread ` set ps)" using t by blast
  moreover have "thread_at s n = el_thread x" using x by (simp add: thread_at_def)
  ultimately show ?case by auto
qed simp

section \<open>The results\<close>

lemma poll_resultD:
  assumes "poll_result K junk p pe s e = Some (k, p1, pe1, s1, e1)"
  shows "(k = 0 \<and> pe1 = pe \<or> k = 1 \<and> pe_speid pe1 = ph_thread p)"
  using assms
  by (auto simp: poll_result_def report_event_def Let_def split: prod.splits Option.bind_splits if_splits)

lemma poll_results_full: "pe_speid pe \<noteq> NULL \<Longrightarrow> poll_results K junk before qs n pe s e = Some (n, pe, s, e)"
proof (induction qs arbitrary: before)
  case (Cons q qs)
  then show ?case by (cases q) simp
qed simp

lemma poll_results_one:
  assumes "poll_results K junk before qs n pe s e = Some (n', pe', s', e')" "NULL \<notin> (ph_thread \<circ> fst) ` set qs"
  shows "n' = n \<and> pe' = pe \<or> n' = n + 1 \<and> pe_speid pe = NULL \<and> pe_speid pe' \<in> (ph_thread \<circ> fst) ` set qs"
  using assms
proof (induction qs arbitrary: before n pe s e)
  case (Cons q qs)
  obtain p rdy where q: "q = (p, rdy)" by fastforce
  show ?case
  proof (cases "rdy \<noteq> 0 \<and> pe_speid pe = NULL \<and> validatefd before (ph_fd p)")
    case True
    then obtain k p1 pe1 s1 e1 where r: "poll_result K junk p pe s e = Some (k, p1, pe1, s1, e1)"
      and rest: "poll_results K junk (before @ [p1]) qs (n + k) pe1 s1 e1 = Some (n', pe', s', e')"
      using Cons.prems(1) q by (auto split: Option.bind_splits)
    from poll_resultD [OF r] show ?thesis
    proof
      assume "k = 0 \<and> pe1 = pe"
      then show ?thesis using Cons.IH [OF rest] Cons.prems(2) by auto
    next
      assume k: "k = 1 \<and> pe_speid pe1 = ph_thread p"
      then have "pe_speid pe1 \<noteq> NULL" using Cons.prems(2) q by auto
      then have "n' = n + 1" "pe' = pe1" 
        using rest k poll_results_full [of pe1 K junk "before @ [p1]" qs "n + k" s1 e1] by auto
      then show ?thesis using True k q by simp
    qed
  next
    case False
    then have "poll_results K junk (before @ [p]) qs n pe s e = Some (n', pe', s', e')"
      using Cons.prems(1) unfolding q by (auto simp only: poll_results.simps if_False)
    from Cons.IH [OF this] Cons.prems(2) show ?thesis by auto
  qed
qed simp

lemma poll_members_result:
  assumes call: "poll_members K junk (length ns * fds_counted (pe_events pe)) g timeout pe s e = Some (rc, pe', s', e')"
    and g: "numListSize g = int (length ns)" "chain (enext s) (grp_members g) ns" "NULL \<notin> thread_at s ` set ns"
    and pe: "pe_speid pe = NULL"
  shows "rc = 0 \<and> pe' = pe \<or> rc = 1 \<and> pe_speid pe' \<in> thread_at s ` set ns"
proof -
  let ?room = "length ns * fds_counted (pe_events pe)"
  obtain a e1 b e2 where m: "sys_rv K (Malloc (?room * 8)) e = (a, e1)" "sys_rv K (Malloc (?room * 24)) e1 = (b, e2)"
    by fastforce
  have ab: "\<not> (a \<le> 0 \<or> b \<le> 0)" using call m by (simp add: poll_members_def split: if_splits)
  obtain ps s1 e3 where su: "setup_members K (pe_events pe) ?room (grp_members g) (length ns) [] s e2 = Some (ps, s1, e3)"
    using call m ab g(1) by (simp add: poll_members_def split: Option.bind_splits prod.splits)
  have len: "length ps = ?room" using setup_members_exact [OF su] .
  have th: "ph_thread ` set ps \<subseteq> thread_at s ` set ns" using setup_members_threads [OF su g(2)] by simp
  obtain r e4 where p: "sys K (PollFds (map (\<lambda>p. (ph_fd p, POLLIN)) ps) timeout) (unlock_groups e3) = (r, e4)"
    by fastforce
  show ?thesis
  proof (cases "rv r = 0")
    case True
    then show ?thesis using call m ab g(1) su len p by (simp add: poll_members_def)
  next
    case False
    let ?qs = "zip ps (rvals r @ replicate ?room 0)"
    obtain n pe1 s2 e5 where res: "poll_results K junk [] ?qs 0 pe s1 e4 = Some (n, pe1, s2, e5)"
      and eq: "rc = n" "pe' = pe1"
      using call m ab g(1) su len p False
      by (auto simp: poll_members_def split: Option.bind_splits prod.splits)
    have sub: "(ph_thread \<circ> fst) ` set ?qs \<subseteq> ph_thread ` set ps" by (auto dest: set_zip_leftD)
    then have "NULL \<notin> (ph_thread \<circ> fst) ` set ?qs" using th g(3) by blast
    from poll_results_one [OF res this] sub th eq show ?thesis by auto
  qed
qed

section \<open>Properties\<close>

lemma find_first: "(\<forall>x \<in> set xs. \<not> P x) \<Longrightarrow> P y \<Longrightarrow> find P (xs @ y # zs) = Some y"
  by (induction xs) simp_all

text \<open>
  C16: when members of the group have posted events, \<open>spe_get_event\<close> delivers the event of the youngest of them
  (the member that joined the group last): the call returns 1 with the thread, the event and its data, empties
  the pipe with one read and nothing else, and the thread has no event any more. The order in which the events
  were posted plays no part: the older members \<open>ws\<close> keep theirs, also one that was posted before, although
  the comment on \<open>spe_create_group\<close> says that events are delivered in the order received.
\<close>

theorem pending_event_delivered:
  assumes "represents s gl M" "groups s (pe_gid pe) = Some G" "\<forall>u \<in> set (M (pe_gid pe)). threads s u \<noteq> None"
    and "M (pe_gid pe) = us @ t # ws" "\<forall>u \<in> set us. \<not> is_pending s (pe_events pe) u"
    and "is_pending s (pe_events pe) t" "threads s t = Some T" "spectx T = Some c"
  shows "\<exists>e' k. spe_get_event K junk pe nevents timeout s e =
      Some (1, pe\<lparr>pe_revents := ts_event T, pe_speid := t, pe_data := ts_ev_data T\<rparr>,
        s\<lparr>threads := (threads s)(t \<mapsto> T\<lparr>ts_event := 0, ts_ev_data := 0\<rparr>)\<rparr>, e') \<and>
    added e e' = [(Lock GroupLock, 0), (Read (fst (ev_pipe c)) 4, k), (Unlock GroupLock, 0)] \<and>
    \<not> is_pending (s\<lparr>threads := (threads s)(t \<mapsto> T\<lparr>ts_event := 0, ts_ev_data := 0\<rparr>)\<rparr>) m t \<and>
    (\<forall>w \<in> set ws. w \<noteq> t \<longrightarrow>
       is_pending (s\<lparr>threads := (threads s)(t \<mapsto> T\<lparr>ts_event := 0, ts_ev_data := 0\<rparr>)\<rparr>) m w = is_pending s m w)"
proof -
  have "find (is_pending s (pe_events pe)) (M (pe_gid pe)) = Some t"
    using find_first [of us "is_pending s (pe_events pe)" t ws] assms(4-6) by simp
  then have sc: "scan_members s (pe_events pe) (grp_members G) (nat (numListSize G)) 0 = Some (Inl t)"
    using scan_group [OF assms(1-3), of "pe_events pe"] by simp
  obtain k e1 where r: "sys_rv K (Read (fst (ev_pipe c)) 4) (lock_groups e) = (k, e1)" by fastforce
  from sys_rv_trace [OF r] have "trace e1 = trace e @ [(Lock GroupLock, 0), (Read (fst (ev_pipe c)) 4, k)]"
    by (simp add: lock_groups_def)
  then have "added e (unlock_groups e1) =
      [(Lock GroupLock, 0), (Read (fst (ev_pipe c)) 4, k), (Unlock GroupLock, 0)]"
    by (simp add: added_def unlock_groups_def)
  moreover have "spe_get_event K junk pe nevents timeout s e =
      Some (1, pe\<lparr>pe_revents := ts_event T, pe_speid := t, pe_data := ts_ev_data T\<rparr>,
        s\<lparr>threads := (threads s)(t \<mapsto> T\<lparr>ts_event := 0, ts_ev_data := 0\<rparr>)\<rparr>, unlock_groups e1)"
    using sc r assms(2,7,8)
    by (simp add: spe_get_event_def report_event_def deliver_pending_def upd_thread_def forget_event_def)
  ultimately show ?thesis by (auto simp: is_pending_def)
qed

text \<open>
  C22: whatever the kernel answers, the call returns -1, 0 or 1, and 1 exactly when it names a thread, which is
  a member of the group; otherwise no event is reported. It only fails with \<open>EINVAL\<close>, without a change: the
  check for a mismatch of the two loops never fires, and a failure of \<open>poll\<close> is not reported.
\<close>

theorem get_event_result:
  assumes "represents s gl M" "groups s (pe_gid pe) = Some G"
    and "\<forall>u \<in> set (M (pe_gid pe)). threads s u \<noteq> None \<and> u \<noteq> NULL"
    and call: "spe_get_event K junk pe nevents timeout s e = Some (rc, pe', s', e')"
  shows "rc \<in> {-1, 0, 1} \<and> (rc = 1 \<longleftrightarrow> pe_speid pe' \<noteq> NULL) \<and>
    (rc = 1 \<longrightarrow> pe_speid pe' \<in> set (M (pe_gid pe))) \<and>
    (rc \<noteq> 1 \<longrightarrow> pe' = pe\<lparr>pe_revents := 0, pe_speid := NULL, pe_data := 0\<rparr>) \<and>
    (rc = -1 \<longrightarrow> errno e' = EINVAL \<and> s' = s)"
proof -
  let ?g = "pe_gid pe" and ?ev = "pe_events pe" and ?pe = "report_event NULL 0 0 pe"
  have th: "\<forall>t \<in> set (M ?g). threads s t \<noteq> None" using assms(3) by blast
  note sc = scan_group [OF assms(1,2) th, of ?ev]
  have pe: "?pe = pe\<lparr>pe_revents := 0, pe_speid := NULL, pe_data := 0\<rparr>" "pe_events ?pe = ?ev" "pe_gid ?pe = ?g"
    "pe_speid ?pe = NULL" by (simp_all add: report_event_def)
  show ?thesis
  proof (cases "find (is_pending s ?ev) (M ?g)")
    case (Some t)
    then have "t \<in> set (M ?g)" by (metis find_Some_iff nth_mem)
    then show ?thesis using sc Some call assms(2,3) pe
      by (auto simp: spe_get_event_def deliver_pending_def report_event_def upd_thread_def
          split: Option.bind_splits prod.splits)
  next
    case None
    let ?room = "length (M ?g) * fds_counted ?ev"
    obtain gns N where L: "layout s gns N" "gl = listed s gns" "M = members s N"
      using assms(1) by (rule representsE)
    have len: "length (M ?g) = length (N ?g)" "map (thread_at s) (N ?g) = M ?g"
      "nat (numListSize G) = length (N ?g)"
      using L(3) layoutD(5) [OF L(1) assms(2)] by (simp_all add: members_def)
    have sc0: "scan_members s ?ev (grp_members G) (nat (numListSize G)) 0 = Some (Inr ?room)"
      using sc None by simp
    show ?thesis
    proof (cases "?room = 0")
      case True
      then show ?thesis using sc0 call assms(2) pe by (auto simp: spe_get_event_def)
    next
      case False
      then have pm: "poll_members K junk ?room G timeout ?pe s (lock_groups e) = Some (rc, pe', s', e')"
        using sc0 call assms(2) pe by (simp add: spe_get_event_def)
      moreover have "NULL \<notin> thread_at s ` set (N ?g)" using assms(3) len(2) by (metis list.set_map)
      moreover have "thread_at s ` set (N ?g) = set (M ?g)" using len(2) by (metis list.set_map)
      ultimately show ?thesis
        using poll_members_result [of K junk "N ?g" ?pe G timeout s "lock_groups e" rc pe' s' e'] pe len(1)
          layoutD(4,5) [OF L(1) assms(2)] assms(3) by auto
    qed
  qed
qed

text \<open>
  C39: the two loops count differently: with \<open>SPE_EVENT_INVALID_DMA_CMD\<close> as the only event of the pipe, the
  arrays for \<open>poll\<close> lack an element for every member and the second loop writes behind them; and
  when nothing else is requested the call refuses the event with \<open>EINVAL\<close>.
\<close>

theorem invalid_dma_request_overruns:
  assumes "represents s gl M" "groups s (pe_gid pe) = Some G" "M (pe_gid pe) \<noteq> []"
    and "\<forall>u \<in> set (M (pe_gid pe)). threads s u \<noteq> None \<and> \<not> is_pending s (pe_events pe) u"
    and ev: "has_flag (pe_events pe) SPE_EVENT_INVALID_DMA_CMD" "\<not> has_flag (pe_events pe) pipe_events"
  shows "if has_flag (pe_events pe) (SPE_EVENT_MAILBOX OR SPE_EVENT_TAG_GROUP)
    then (\<exists>room. 0 < room \<and> room < length (M (pe_gid pe)) * fds_polled (pe_events pe) \<and>
        scan_members s (pe_events pe) (grp_members G) (length (M (pe_gid pe))) 0 = Some (Inr room) \<and>
        setup_members K (pe_events pe) room (grp_members G) (length (M (pe_gid pe))) [] s e1 = None) \<and>
      spe_get_event K junk pe nevents timeout s e = None
    else \<exists>pe' e'. spe_get_event K junk pe nevents timeout s e = Some (-1, pe', s, e') \<and> errno e' = EINVAL"
proof -
  let ?g = "pe_gid pe" and ?ev = "pe_events pe" and ?pe = "report_event NULL 0 0 pe"
  let ?n = "length (M ?g)" let ?room = "?n * fds_counted ?ev"
  have th: "\<forall>t \<in> set (M ?g). threads s t \<noteq> None" using assms(4) by blast
  have "find (is_pending s ?ev) (M ?g) = None" using assms(4) by (simp add: find_None_iff)
  moreover have n: "nat (numListSize G) = ?n" using representsD(4) [OF assms(1,2)] by simp
  ultimately have sc: "scan_members s ?ev (grp_members G) ?n 0 = Some (Inr ?room)"
    using scan_group [OF assms(1,2) th, of ?ev] by simp
  have pe: "pe_events ?pe = ?ev" "pe_gid ?pe = ?g" by (simp_all add: report_event_def)
  have polled: "fds_polled ?ev = Suc (fds_counted ?ev)" using ev by (simp add: fds_polled)
  show ?thesis
  proof (cases "has_flag ?ev (SPE_EVENT_MAILBOX OR SPE_EVENT_TAG_GROUP)")
    case True
    then have c: "0 < fds_counted ?ev"
      using has_flag_or_mask [of ?ev SPE_EVENT_MAILBOX SPE_EVENT_TAG_GROUP] by (auto simp: fds_counted_def)
    have over: "?room < ?n * fds_polled ?ev" using assms(3) polled by simp
    have none: "setup_members K ?ev ?room (grp_members G) ?n [] s x = None" for x
    proof (rule ccontr)
      assume "setup_members K ?ev ?room (grp_members G) ?n [] s x \<noteq> None"
      then obtain ps s' e' where "setup_members K ?ev ?room (grp_members G) ?n [] s x = Some (ps, s', e')" by auto
      moreover have "length ([] :: poll_helper list) \<le> ?room" by simp
      ultimately have "length ps = length ([] :: poll_helper list) + ?n * fds_polled ?ev" "length ps \<le> ?room"
        using setup_members_length by blast+
      then show False using over by simp
    qed
    have "poll_members K junk ?room G timeout ?pe s (lock_groups e) = None"
      by (simp add: poll_members_def n pe none split: prod.splits)
    then have "spe_get_event K junk pe nevents timeout s e = None"
      using assms(2,3) sc n pe c by (simp add: spe_get_event_def)
    then show ?thesis using True c over none sc assms(3) by auto
  next
    case False
    then have "fds_counted ?ev = 0"
      using has_flag_or_mask [of ?ev SPE_EVENT_MAILBOX SPE_EVENT_TAG_GROUP] ev by (auto simp: fds_counted_def)
    then show ?thesis using False assms(2) sc n pe by (simp add: spe_get_event_def)
  qed
qed

section \<open>Samples\<close>

definition sample_request :: "u32 \<Rightarrow> spe_event12" where
  "sample_request ev = \<lparr>pe_gid = 5, pe_events = ev, pe_revents = 0, pe_speid = NULL, pe_data = 0\<rparr>"

theorem pending_event_delivered_witness:
  "\<exists>s' e'. spe_get_event thread_kernel 0 (sample_request EVENT_STOP) 4 0
      (sample_store (sample_thread (Some loaded_context)\<lparr>ts_event := EVENT_STOP, ts_ev_data := 7\<rparr>))
      (start_env Map.empty ()) =
    Some (1, (sample_request EVENT_STOP)\<lparr>pe_revents := EVENT_STOP, pe_speid := 5, pe_data := 7\<rparr>, s', e') \<and>
    \<not> is_pending s' EVENT_STOP 5"
proof -
  let ?T = "sample_thread (Some loaded_context)\<lparr>ts_event := EVENT_STOP, ts_ev_data := 7\<rparr>"
  let ?M = "(\<lambda>_. [])(5 := [5 :: addr])" and ?pe = "sample_request EVENT_STOP"
  obtain G where "groups (sample_store ?T) (pe_gid ?pe) = Some G"
    using sample_group_there by (auto simp: sample_request_def)
  moreover have "?M (pe_gid ?pe) = [] @ 5 # []" by (simp add: sample_request_def)
  moreover have "\<forall>u \<in> set (?M (pe_gid ?pe)). threads (sample_store ?T) u \<noteq> None"
    by (simp add: sample_request_def)
  moreover have "is_pending (sample_store ?T) (pe_events ?pe) 5"
    by (simp add: is_pending_def sample_request_def has_flag_def)
  moreover have "threads (sample_store ?T) 5 = Some ?T" "spectx ?T = Some loaded_context"
    by (simp_all add: sample_thread_def)
  ultimately show ?thesis
    using pending_event_delivered [OF sample_store_represents, of ?T ?pe G "[]" 5 "[]" ?T loaded_context
        thread_kernel 0 4 0 "start_env Map.empty ()"] by fastforce
qed

theorem get_event_result_witness:
  "\<exists>s' e'. spe_get_event thread_kernel 0 (sample_request 0) 1 0
      (sample_store (sample_thread (Some loaded_context))) (start_env Map.empty ()) =
    Some (-1, (sample_request 0)\<lparr>pe_revents := 0, pe_speid := NULL, pe_data := 0\<rparr>, s', e') \<and> errno e' = EINVAL"
proof -
  let ?s = "sample_store (sample_thread (Some loaded_context))" and ?M = "(\<lambda>_. [])(5 := [5 :: addr])"
  obtain pe' s' e' where c: "spe_get_event thread_kernel 0 (sample_request 0) 1 0 ?s (start_env Map.empty ()) =
      Some (-1, pe', s', e')"
    by (simp add: spe_get_event_def sample_request_def report_event_def sample_store_def has_flag_def
        fds_counted_def eval_nat_numeral)
  obtain G where "groups ?s (pe_gid (sample_request 0)) = Some G"
    using sample_group_there by (auto simp: sample_request_def)
  moreover have "\<forall>u \<in> set (?M (pe_gid (sample_request 0))). threads ?s u \<noteq> None \<and> u \<noteq> NULL"
    by (simp add: sample_request_def)
  ultimately show ?thesis using get_event_result [OF sample_store_represents _ _ c] c by fastforce
qed

theorem invalid_dma_request_overruns_witness:
  "spe_get_event thread_kernel 0 (sample_request (SPE_EVENT_MAILBOX OR SPE_EVENT_INVALID_DMA_CMD)) 1 0
     (sample_store (sample_thread (Some loaded_context))) (start_env Map.empty ()) = None"
proof -
  let ?s = "sample_store (sample_thread (Some loaded_context))" and ?M = "(\<lambda>_. [])(5 := [5 :: addr])"
  let ?pe = "sample_request (SPE_EVENT_MAILBOX OR SPE_EVENT_INVALID_DMA_CMD)"
  obtain G where "groups ?s (pe_gid ?pe) = Some G"
    using sample_group_there by (auto simp: sample_request_def)
  moreover have "?M (pe_gid ?pe) \<noteq> []"
    "\<forall>u \<in> set (?M (pe_gid ?pe)). threads ?s u \<noteq> None \<and> \<not> is_pending ?s (pe_events ?pe) u"
    by (simp_all add: sample_request_def is_pending_def sample_thread_def zero_thread_def)
  moreover have "has_flag (pe_events ?pe) SPE_EVENT_INVALID_DMA_CMD" "\<not> has_flag (pe_events ?pe) pipe_events"
    "has_flag (pe_events ?pe) (SPE_EVENT_MAILBOX OR SPE_EVENT_TAG_GROUP)"
    by (simp_all add: sample_request_def has_flag_def pipe_events_def)
  ultimately show ?thesis
    using invalid_dma_request_overruns [OF sample_store_represents, of _ ?pe G thread_kernel
        "start_env Map.empty ()" 0 1 0 "start_env Map.empty ()"] by simp
qed

end
