(* ===== verification/Thread_Access.thy ===== *)
theory Thread_Access
  imports Thread_Samples
begin

unbundle bit_operations_syntax

text \<open>
  The calls of libspe 1.2 that reach the context of a thread: images, handlers, local store, mailboxes and
  signals (\<open>libspe12/spe.c\<close>), proxy DMA and tag status (\<open>libspe12/dma.c\<close>), problem state (\<open>libspe12/ps.c\<close>).
\<close>

section \<open>Images and handlers\<close>

definition spe_open_image ::
  "'w kernel \<Rightarrow> nat \<Rightarrow> u64 \<Rightarrow> string \<Rightarrow> 'w env \<Rightarrow> ((addr \<times> image_handle) option \<times> 'w env) option" where
  "spe_open_image K ptr_bytes ps filename e = base_spe_image_open K ptr_bytes ps filename e"

definition spe_close_image :: "'w kernel \<Rightarrow> (addr \<times> image_handle) option \<Rightarrow> 'w env \<Rightarrow> int \<times> 'w env" where
  "spe_close_image K handle e = base_spe_image_close K handle e"

definition register_handler :: "handler option \<Rightarrow> u32 \<Rightarrow> libspe12 \<Rightarrow> 'w env \<Rightarrow> libspe12 \<times> 'w env" where
  "register_handler h callnum s e =
     (case base_spe_callback_handler_register h callnum SPE_CALLBACK_NEW (callback_table s) e of
        (_, hs, e1) \<Rightarrow> (s\<lparr>callback_table := hs\<rparr>, e1))"

section \<open>The context of a thread\<close>

text \<open>A call on the context behind \<open>speid\<close>; the pointer is not checked here.\<close>

definition on_context ::
  "addr \<Rightarrow> (spe_context \<Rightarrow> 'w env \<Rightarrow> ('r \<times> spe_context \<times> 'w env) option) \<Rightarrow> libspe12 \<Rightarrow> 'w env \<Rightarrow>
   ('r \<times> libspe12 \<times> 'w env) option"
where
  "on_context t f s e = do {
     T \<leftarrow> threads s t;
     c \<leftarrow> spectx T;
     (r, c1, e1) \<leftarrow> f c e;
     s1 \<leftarrow> upd_thread t (\<lambda>T. T\<lparr>spectx := Some c1\<rparr>) s;
     Some (r, s1, e1) }"

definition spe_get_ls :: "addr \<Rightarrow> libspe12 \<Rightarrow> 'w env \<Rightarrow> (addr \<times> 'w env) option" where
  "spe_get_ls speid s e = do {
     (found, e1) \<leftarrow> srch_thread speid s e;
     if \<not> found then Some (NULL, e1)
     else do { T \<leftarrow> threads s speid; c \<leftarrow> spectx T; Some (base_spe_ls_area_get c, e1) } }"

text \<open>Not implemented: they print a message.\<close>

definition spe_get_context :: "addr \<Rightarrow> 'w env \<Rightarrow> int \<times> 'w env" where
  "spe_get_context speid e = (-1, set_errno ENOSYS e)"

definition spe_set_context :: "addr \<Rightarrow> 'w env \<Rightarrow> int \<times> 'w env" where
  "spe_set_context speid e = (-1, set_errno ENOSYS e)"

definition spe_get_context_fd :: "addr \<Rightarrow> libspe12 \<Rightarrow> 'w env \<Rightarrow> (int \<times> 'w env) option" where
  "spe_get_context_fd speid s e = do {
     (found, e1) \<leftarrow> srch_thread speid s e;
     if \<not> found then Some (-1, e1)
     else do { T \<leftarrow> threads s speid; c \<leftarrow> spectx T; Some (base_spe_spe_dir_get c, e1) } }"

section \<open>Mailboxes and signals\<close>

definition spe_write_in_mbox ::
  "'w kernel \<Rightarrow> addr \<Rightarrow> u32 \<Rightarrow> libspe12 \<Rightarrow> 'w env \<Rightarrow> (int \<times> libspe12 \<times> 'w env) option" where
  "spe_write_in_mbox K speid data s e = do {
     (found, e1) \<leftarrow> srch_thread speid s e;
     if \<not> found then Some (-1, s, e1)
     else do {
       T \<leftarrow> threads s speid;
       if thread_status T = 99 then Some (-1, s, e1)
       else do {
         (rc, s1, e2) \<leftarrow> on_context speid
           (\<lambda>c. base_spe_in_mbox_write K c (Some [data]) SPE_MBOX_ALL_BLOCKING) s e1;
         Some (if rc = 1 then 0 else rc, s1, e2) } } }"

definition checked_call ::
  "addr \<Rightarrow> (spe_context \<Rightarrow> 'w env \<Rightarrow> (int \<times> spe_context \<times> 'w env) option) \<Rightarrow> libspe12 \<Rightarrow> 'w env \<Rightarrow>
   (int \<times> libspe12 \<times> 'w env) option"
where
  "checked_call speid f s e = do {
     (found, e1) \<leftarrow> srch_thread speid s e;
     if \<not> found then Some (-1, s, e1) else on_context speid f s e1 }"

definition spe_stat_in_mbox where
  "spe_stat_in_mbox K speid s e = checked_call speid (base_spe_in_mbox_status K) s e"

definition spe_read_out_mbox ::
  "'w kernel \<Rightarrow> addr \<Rightarrow> libspe12 \<Rightarrow> 'w env \<Rightarrow> (u32 \<times> libspe12 \<times> 'w env) option" where
  "spe_read_out_mbox K speid s e = do {
     (found, e1) \<leftarrow> srch_thread speid s e;
     if \<not> found then Some (-1, s, e1)
     else on_context speid (\<lambda>c e. do {
       (rc, bs, c1, e1) \<leftarrow> base_spe_out_mbox_read K c True 1 e;
       Some (if rc \<noteq> 1 then -1 else word_of_bytes bs, c1, e1) }) s e1 }"

definition spe_stat_out_mbox where
  "spe_stat_out_mbox K speid s e = checked_call speid (base_spe_out_mbox_status K) s e"

definition spe_stat_out_intr_mbox where
  "spe_stat_out_intr_mbox K speid s e = checked_call speid (base_spe_out_intr_mbox_status K) s e"

definition spe_write_signal ::
  "'w kernel \<Rightarrow> addr \<Rightarrow> u32 \<Rightarrow> u32 \<Rightarrow> libspe12 \<Rightarrow> 'w env \<Rightarrow> (int \<times> libspe12 \<times> 'w env) option" where
  "spe_write_signal K speid signal_reg data s e = do {
     (found, e1) \<leftarrow> srch_thread speid s e;
     if \<not> found then Some (-1, s, e1)
     else do {
       T \<leftarrow> threads s speid;
       if thread_status T = 99 then Some (-1, s, e1)
       else on_context speid (\<lambda>c. base_spe_signal_write K c signal_reg data) s e1 } }"

section \<open>Problem state\<close>

definition spe_get_ps_area :: "addr \<Rightarrow> ps_area \<Rightarrow> libspe12 \<Rightarrow> 'w env \<Rightarrow> (addr \<times> 'w env) option" where
  "spe_get_ps_area speid area s e = do {
     (found, e1) \<leftarrow> srch_thread speid s e;
     if \<not> found then Some (NULL, set_errno ESRCH e1)
     else do {
       T \<leftarrow> threads s speid;
       if \<not> has_flag (ts_flags T) SPE_MAP_PS then Some (NULL, set_errno EACCES e1)
       else if area \<in> {SPE_MSSYNC_AREA, SPE_MFC_COMMAND_AREA, SPE_CONTROL_AREA, SPE_SIG_NOTIFY_1_AREA,
           SPE_SIG_NOTIFY_2_AREA} then do {
         c \<leftarrow> spectx T;
         let (base_addr, e2) = base_spe_ps_area_get c area e1;
         Some (if base_addr = NULL then (NULL, set_errno EIO e2) else (base_addr, e2)) }
       else Some (NULL, set_errno EINVAL e1) } }"

section \<open>Proxy DMA\<close>

text \<open>The tags are \<open>unsigned short\<close>, the class ids \<open>unsigned char\<close>; these calls do not look the thread up.\<close>

type_synonym u16 = "16 word"

definition spe_mfc_put where
  "spe_mfc_put K spe src dst sz (tag :: u16) (tid :: u8) (rid :: u8) s e =
     on_context spe (\<lambda>c. base_spe_mfcio_put K c src dst sz (ucast tag) (ucast tid) (ucast rid)) s e"

definition spe_mfc_putf where
  "spe_mfc_putf K spe src dst sz (tag :: u16) (tid :: u8) (rid :: u8) s e =
     on_context spe (\<lambda>c. base_spe_mfcio_putf K c src dst sz (ucast tag) (ucast tid) (ucast rid)) s e"

definition spe_mfc_putb where
  "spe_mfc_putb K spe src dst sz (tag :: u16) (tid :: u8) (rid :: u8) s e =
     on_context spe (\<lambda>c. base_spe_mfcio_putb K c src dst sz (ucast tag) (ucast tid) (ucast rid)) s e"

definition spe_mfc_get where
  "spe_mfc_get K spe dst src sz (tag :: u16) (tid :: u8) (rid :: u8) s e =
     on_context spe (\<lambda>c. base_spe_mfcio_get K c dst src sz (ucast tag) (ucast tid) (ucast rid)) s e"

definition spe_mfc_getf where
  "spe_mfc_getf K spe dst src sz (tag :: u16) (tid :: u8) (rid :: u8) s e =
     on_context spe (\<lambda>c. base_spe_mfcio_getf K c dst src sz (ucast tag) (ucast tid) (ucast rid)) s e"

definition spe_mfc_getb where
  "spe_mfc_getb K spe dst src sz (tag :: u16) (tid :: u8) (rid :: u8) s e =
     on_context spe (\<lambda>c. base_spe_mfcio_getb K c dst src sz (ucast tag) (ucast tid) (ucast rid)) s e"

section \<open>Tag status\<close>

text \<open>The word read from the MFC's file, or -1, as a word: the two are not told apart.\<close>

definition read_status12 :: "'w kernel \<Rightarrow> int \<Rightarrow> spe_context \<Rightarrow> 'w env \<Rightarrow> (u32 \<times> spe_context \<times> 'w env) option" where
  "read_status12 K mfcfd c e =
     (case sys K (Read mfcfd 4) e of (r, e1) \<Rightarrow>
        Some (if rv r = 4 then word_of_bytes (rbytes r) else -1, c, e1))"

definition read_tag_status_noblock ::
  "'w kernel \<Rightarrow> addr \<Rightarrow> libspe12 \<Rightarrow> 'w env \<Rightarrow> (u32 \<times> libspe12 \<times> 'w env) option" where
  "read_tag_status_noblock K speid s e =
     on_context speid (\<lambda>c e.
       case base_spe_open_if_closed K c FD_MFC False e of (mfcfd, c1, e1) \<Rightarrow> read_status12 K mfcfd c1 e1) s e"

text \<open>
  The result of \<open>poll\<close> is kept in an unsigned variable and \<open>revents | POLLIN\<close> is never 0: neither half of the
  test can be true.
\<close>

definition read_tag_status_async ::
  "'w kernel \<Rightarrow> addr \<Rightarrow> libspe12 \<Rightarrow> 'w env \<Rightarrow> (u32 \<times> libspe12 \<times> 'w env) option" where
  "read_tag_status_async K speid s e =
     on_context speid (\<lambda>c e.
       case base_spe_open_if_closed K c FD_MFC False e of (mfcfd, c1, e1) \<Rightarrow>
         (case sys K (Poll mfcfd POLLIN (-1)) e1 of (r, e2) \<Rightarrow>
            if (word_of_int (rv r) :: u32) < 0 \<or> first_word r OR POLLIN = 0 then Some (-1, c1, e2)
            else read_status12 K mfcfd c1 e2)) s e"

partial_function (option) wait_tag_status ::
  "'w kernel \<Rightarrow> addr \<Rightarrow> (u32 \<Rightarrow> bool) \<Rightarrow> u32 \<Rightarrow> u32 \<Rightarrow> libspe12 \<Rightarrow> 'w env \<Rightarrow> (int \<times> libspe12 \<times> 'w env) option"
where
  [code]: "wait_tag_status K speid finished msk status s e =
     (if finished status then Some (sint (status AND msk), s, e)
      else do {
        (status1, s1, e1) \<leftarrow> read_tag_status_async K speid s e;
        if status1 = -1 then Some (-1, s1, e1)
        else wait_tag_status K speid finished msk status1 s1 e1 })"

definition read_tag_status_until ::
  "'w kernel \<Rightarrow> addr \<Rightarrow> (u32 \<Rightarrow> bool) \<Rightarrow> u32 \<Rightarrow> libspe12 \<Rightarrow> 'w env \<Rightarrow> (int \<times> libspe12 \<times> 'w env) option" where
  "read_tag_status_until K speid finished msk s e = do {
     (status, s1, e1) \<leftarrow> read_tag_status_noblock K speid s e;
     if status = -1 then Some (-1, s1, e1)
     else wait_tag_status K speid finished msk status s1 e1 }"

definition spe_mfc_read_tag_status_all where
  "spe_mfc_read_tag_status_all K speid msk s e =
     read_tag_status_until K speid (\<lambda>status. status AND msk = msk) msk s e"

definition spe_mfc_read_tag_status_any where
  "spe_mfc_read_tag_status_any K speid msk s e =
     read_tag_status_until K speid (\<lambda>status. status AND msk \<noteq> 0) msk s e"

definition spe_mfc_read_tag_status_immediate ::
  "'w kernel \<Rightarrow> addr \<Rightarrow> u32 \<Rightarrow> libspe12 \<Rightarrow> 'w env \<Rightarrow> (int \<times> libspe12 \<times> 'w env) option" where
  "spe_mfc_read_tag_status_immediate K speid msk s e = do {
     (status, s1, e1) \<leftarrow> read_tag_status_noblock K speid s e;
     Some (if status = -1 then -1 else sint (status AND msk), s1, e1) }"

section \<open>Waiting for tags\<close>

text \<open>A thread whose MFC file is open, on a kernel that answers from a script.\<close>

definition mfc_open :: "libspe12 \<Rightarrow> addr \<Rightarrow> bool" where
  "mfc_open s t \<longleftrightarrow> (\<exists>T c. threads s t = Some T \<and> spectx T = Some c \<and> spe_fds_array c FD_MFC \<noteq> -1)"

definition status_reply :: "u32 \<Rightarrow> reply" where
  "status_reply w = (reply_ok 4)\<lparr>rbytes := bytes_of_word w\<rparr>"

text \<open>What the two functions make of the answer to \<open>read\<close>: the status, or -1.\<close>

definition status_of :: "reply \<Rightarrow> u32" where
  "status_of r = (if rv r = 4 then word_of_bytes (rbytes r) else -1)"

lemma status_of_reply [simp]: "status_of (status_reply w) = w"
  by (simp add: status_of_def status_reply_def reply_ok_def)

lemma open_mfc:
  assumes "spe_fds_array c FD_MFC \<noteq> -1"
  shows "\<exists>fd c1 e1. base_spe_open_if_closed K c FD_MFC False e = (fd, c1, e1) \<and> world e1 = world e \<and>
    spe_fds_array c1 FD_MFC \<noteq> -1"
  using assms
  by (simp add: base_spe_open_if_closed_def base_spe_context_lock_def base_spe_context_unlock_def bump_refcount_def)

lemma on_context_open:
  assumes "mfc_open s t"
    and "\<And>c. spe_fds_array c FD_MFC \<noteq> -1 \<Longrightarrow>
      \<exists>c1 e1. f c e = Some (w, c1, e1) \<and> spe_fds_array c1 FD_MFC \<noteq> -1 \<and> world e1 = x"
  shows "\<exists>s1 e1. on_context t f s e = Some (w, s1, e1) \<and> mfc_open s1 t \<and> world e1 = x"
proof -
  obtain T c where T: "threads s t = Some T" "spectx T = Some c" "spe_fds_array c FD_MFC \<noteq> -1"
    using assms(1) by (auto simp: mfc_open_def)
  from assms(2) [OF T(3)] show ?thesis using T by (auto simp: on_context_def upd_thread_def mfc_open_def)
qed

lemma read_status12_reply:
  "world e = r # rs \<Longrightarrow>
   \<exists>e1. read_status12 script_kernel fd c e = Some (status_of r, c, e1) \<and> world e1 = rs"
  by (simp add: read_status12_def sys_def status_of_def)

lemma read_noblock_reply:
  assumes "mfc_open s t" "world e = r # rs"
  shows "\<exists>s1 e1. read_tag_status_noblock script_kernel t s e = Some (status_of r, s1, e1) \<and> mfc_open s1 t \<and> world e1 = rs"
  unfolding read_tag_status_noblock_def
proof (rule on_context_open [OF assms(1)])
  fix c :: spe_context assume "spe_fds_array c FD_MFC \<noteq> -1"
  from open_mfc [OF this, of script_kernel e] obtain fd c1 e1 where
    "base_spe_open_if_closed script_kernel c FD_MFC False e = (fd, c1, e1)" "world e1 = world e"
    "spe_fds_array c1 FD_MFC \<noteq> -1" by blast
  then show "\<exists>c1 e1. (case base_spe_open_if_closed script_kernel c FD_MFC False e of (mfcfd, c1, e1) \<Rightarrow>
      read_status12 script_kernel mfcfd c1 e1) = Some (status_of r, c1, e1) \<and> spe_fds_array c1 FD_MFC \<noteq> -1 \<and> world e1 = rs"
    using read_status12_reply [of e1 r rs fd c1] assms(2) by auto
qed

lemma read_async_reply:
  assumes "mfc_open s t" "world e = p # r # rs"
  shows "\<exists>s1 e1. read_tag_status_async script_kernel t s e = Some (status_of r, s1, e1) \<and> mfc_open s1 t \<and> world e1 = rs"
  unfolding read_tag_status_async_def
proof (rule on_context_open [OF assms(1)])
  fix c :: spe_context assume "spe_fds_array c FD_MFC \<noteq> -1"
  from open_mfc [OF this, of script_kernel e] obtain fd c1 e1 where
    o: "base_spe_open_if_closed script_kernel c FD_MFC False e = (fd, c1, e1)" "world e1 = world e"
    "spe_fds_array c1 FD_MFC \<noteq> -1" by blast
  obtain e2 where q: "sys script_kernel (Poll fd POLLIN (-1)) e1 = (p, e2)" "world e2 = r # rs"
    using o(2) assms(2) by (simp add: sys_def)
  have "bit (x OR 1) 0" for x :: u32 by (simp add: bit_simps)
  then have "first_word p OR POLLIN \<noteq> 0" by (metis bit_0_eq bot_apply bot_bool_def)
  then show "\<exists>c1 e1. (case base_spe_open_if_closed script_kernel c FD_MFC False e of (mfcfd, c1, e1) \<Rightarrow>
      (case sys script_kernel (Poll mfcfd POLLIN (-1)) e1 of (x, e2) \<Rightarrow>
        if (word_of_int (rv x) :: u32) < 0 \<or> first_word x OR POLLIN = 0 then Some (-1, c1, e2)
        else read_status12 script_kernel mfcfd c1 e2)) = Some (status_of r, c1, e1) \<and>
      spe_fds_array c1 FD_MFC \<noteq> -1 \<and> world e1 = rs"
    using read_status12_reply [OF q(2), of fd c1] o q(1) by auto
qed

text \<open>The answers to pairs of \<open>poll\<close> and \<open>read\<close>.\<close>

fun tag_script :: "(reply \<times> reply) list \<Rightarrow> reply list" where
  "tag_script [] = []"
| "tag_script ((p, r) # xs) = p # r # tag_script xs"

lemma wait_tag_status_script:
  "mfc_open s t \<Longrightarrow> world e = tag_script xs \<Longrightarrow> ws = map (status_of \<circ> snd) xs \<Longrightarrow> w0 \<noteq> -1 \<Longrightarrow>
   \<forall>w \<in> set (butlast (w0 # ws)). w \<noteq> -1 \<and> \<not> finished w \<Longrightarrow>
   last (w0 # ws) = -1 \<or> finished (last (w0 # ws)) \<Longrightarrow>
   \<exists>s' e'. wait_tag_status script_kernel t finished msk w0 s e =
     Some (if last (w0 # ws) = -1 then -1 else sint (last (w0 # ws) AND msk), s', e') \<and> world e' = []"
proof (induction xs arbitrary: w0 ws s e)
  case Nil
  then show ?case by (subst wait_tag_status.simps) simp
next
  case (Cons x xs)
  obtain p r where x: "x = (p, r)" by fastforce
  let ?ws = "map (status_of \<circ> snd) xs"
  have ws: "ws = status_of r # ?ws" using Cons.prems(3) x by simp
  obtain s1 e1 where r: "read_tag_status_async script_kernel t s e = Some (status_of r, s1, e1)" "mfc_open s1 t"
    "world e1 = tag_script xs"
    using read_async_reply [OF Cons.prems(1)] Cons.prems(2) x by (metis tag_script.simps(2))
  have "\<not> finished w0" using Cons.prems(5) ws by auto
  then have step: "wait_tag_status script_kernel t finished msk w0 s e =
      (if status_of r = -1 then Some (-1, s1, e1) else wait_tag_status script_kernel t finished msk (status_of r) s1 e1)"
    using r(1) by (subst wait_tag_status.simps) simp
  show ?case
  proof (cases "status_of r = -1")
    case True
    then have "?ws = []" using Cons.prems(5) ws by (cases ?ws) auto
    then show ?thesis using step True r(3) ws by simp
  next
    case False
    have "\<forall>w \<in> set (butlast (status_of r # ?ws)). w \<noteq> -1 \<and> \<not> finished w"
      using Cons.prems(5) ws by simp
    moreover have "last (status_of r # ?ws) = -1 \<or> finished (last (status_of r # ?ws))" using Cons.prems(6) ws by simp
    moreover have "last (w0 # ws) = last (status_of r # ?ws)" by (simp add: ws)
    moreover have "wait_tag_status script_kernel t finished msk w0 s e =
        wait_tag_status script_kernel t finished msk (status_of r) s1 e1" using step False by simp
    ultimately show ?thesis using Cons.IH [OF r(2,3) refl False] by presburger
  qed
qed

text \<open>
  C28: \<open>spe_mfc_read_tag_status_all\<close> reads the status again and again until one holds all the tags of the
  mask, whatever \<open>poll\<close> answers meanwhile, failures included, and then returns the mask; the first read that
  fails ends it with -1. A status of all ones counts as a failure, since it is not told apart from one: so with the
  mask of all tags the call returns -1 in either case.
\<close>

theorem tag_status_all_returns:
  fixes r0 :: reply and xs :: "(reply \<times> reply) list"
  defines "ws \<equiv> status_of r0 # map (status_of \<circ> snd) xs"
  assumes "mfc_open s t" "world e = r0 # tag_script xs"
    and "\<forall>w \<in> set (butlast ws). w \<noteq> -1 \<and> w AND msk \<noteq> msk" "last ws = -1 \<or> last ws AND msk = msk"
  shows "\<exists>s' e'. spe_mfc_read_tag_status_all script_kernel t msk s e =
    Some (if last ws = -1 then -1 else sint msk, s', e') \<and> world e' = []"
proof -
  obtain s1 e1 where r: "read_tag_status_noblock script_kernel t s e = Some (status_of r0, s1, e1)" "mfc_open s1 t"
    "world e1 = tag_script xs"
    using read_noblock_reply [OF assms(2,3)] by blast
  show ?thesis
  proof (cases "status_of r0 = -1")
    case True
    then have "xs = []" using assms(4) by (cases xs) (auto simp: ws_def)
    then show ?thesis using r True
      by (simp add: spe_mfc_read_tag_status_all_def read_tag_status_until_def ws_def)
  next
    case False
    from wait_tag_status_script [OF r(2,3) refl False, of "\<lambda>status. status AND msk = msk" msk] assms(4,5) r(1) False
    show ?thesis by (auto simp: spe_mfc_read_tag_status_all_def read_tag_status_until_def ws_def)
  qed
qed

definition mfc_store :: libspe12 where
  "mfc_store = sample_store (sample_thread (Some (loaded_context\<lparr>spe_fds_array := (\<lambda>_. 9)\<rparr>)))"

lemma mfc_store_open: "mfc_open mfc_store 5"
  by (simp add: mfc_open_def mfc_store_def sample_thread_def)

theorem tag_status_all_returns_witness:
  "\<exists>s' e'. spe_mfc_read_tag_status_all script_kernel 5 6 mfc_store
      (start_env Map.empty (status_reply 2 # tag_script [(reply_error EIO, status_reply 4), (reply_ok 1, status_reply 7)])) =
    Some (6, s', e')"
proof -
  let ?xs = "[(reply_error EIO, status_reply 4), (reply_ok 1, status_reply 7)]"
  have "\<exists>s' e'. spe_mfc_read_tag_status_all script_kernel 5 6 mfc_store (start_env Map.empty (status_reply 2 # tag_script ?xs)) =
      Some (if last (status_of (status_reply 2) # map (status_of \<circ> snd) ?xs) = -1 then -1 else sint (6 :: u32), s', e') \<and>
      world e' = []"
    by (rule tag_status_all_returns [OF mfc_store_open]) (auto simp: start_env_def)
  then show ?thesis by auto
qed

lemma wait_for_nothing:
  assumes "wait_tag_status K t (\<lambda>_. False) msk w s e = Some y"
  shows "fst y = -1"
proof -
  have "(\<lambda>_ :: u32. False) = (\<lambda>_. False) \<longrightarrow> fst y = -1"
  proof (rule wait_tag_status.raw_induct
      [OF _ assms, of "\<lambda>K t f m w s e y. f = (\<lambda>_. False) \<longrightarrow> fst y = -1"], goal_cases)
    case (1 g K t f m w s e y)
    then show ?case by (cases y) (fastforce split: Option.bind_splits if_splits)
  qed
  then show ?thesis by simp
qed

text \<open>
  with an empty mask \<open>spe_mfc_read_tag_status_any\<close> never succeeds: it can only fail or wait for ever, while
  \<open>spe_mfc_read_tag_status_all\<close> with the same mask returns 0 after one read.
\<close>

theorem empty_mask_never_any:
  "(\<forall>rc s' e'. spe_mfc_read_tag_status_any K t 0 s e = Some (rc, s', e') \<longrightarrow> rc = -1) \<and>
   (\<forall>w s1 e1. read_tag_status_noblock K t s e = Some (w, s1, e1) \<longrightarrow> w \<noteq> -1 \<longrightarrow>
      spe_mfc_read_tag_status_all K t 0 s e = Some (0, s1, e1))"
proof -
  have "rc = -1" if "spe_mfc_read_tag_status_any K t 0 s e = Some (rc, s', e')" for rc s' e'
    using that
    by (auto simp: spe_mfc_read_tag_status_any_def read_tag_status_until_def
        split: Option.bind_splits if_splits dest!: wait_for_nothing [of K t 0])
  moreover have "spe_mfc_read_tag_status_all K t 0 s e = Some (0, s1, e1)"
    if "read_tag_status_noblock K t s e = Some (w, s1, e1)" "w \<noteq> -1" for w s1 e1
    using that by (simp add: spe_mfc_read_tag_status_all_def read_tag_status_until_def)
      (subst wait_tag_status.simps, simp)
  ultimately show ?thesis by blast
qed

theorem empty_mask_never_any_witness:
  "\<exists>s' e'. spe_mfc_read_tag_status_all script_kernel 5 0 mfc_store (start_env Map.empty [status_reply 1]) =
     Some (0, s', e')"
proof -
  have "world (start_env Map.empty [status_reply 1]) = [status_reply 1]" by (simp add: start_env_def)
  from read_noblock_reply [OF mfc_store_open this] obtain s1 e1 where
    r: "read_tag_status_noblock script_kernel 5 mfc_store (start_env Map.empty [status_reply 1]) = Some (1, s1, e1)"
    by auto
  have "(1 :: u32) \<noteq> -1" by simp
  with r show ?thesis using empty_mask_never_any [of script_kernel 5 mfc_store] by blast
qed

end
