(* ===== verification/Thread_Calls.thy ===== *)
theory Thread_Calls
  imports Thread_Runs Thread_Events Thread_Access
begin

unbundle bit_operations_syntax

text \<open>
  The calls of libspe 1.2 together: they all refuse a thread that is in no group; a thread that was waited
  for may stay in its group; and what becomes of events that are posted one after the other.
\<close>

section \<open>Unknown threads\<close>

text \<open>
  The contract the calls on a thread share: when the search fails, the call has failed, with nothing done
  but the search.
\<close>

locale thread_call =
  fixes call :: "addr \<Rightarrow> libspe12 \<Rightarrow> 'w env \<Rightarrow> 'x option"
    and failed :: "libspe12 \<Rightarrow> 'w env \<Rightarrow> 'x"
  assumes refuses: "srch_thread t s e = Some (False, e1) \<Longrightarrow> call t s e = Some (failed s e1)"
begin

lemma unknown:
  assumes "represents s gl M" "\<forall>g \<in> set gl. t \<notin> set (M g)"
  shows "call t s e = Some (failed s (set_errno ESRCH (unlock_groups (lock_groups e))))"
proof -
  obtain gns N where L: "layout s gns N" "gl = listed s gns" "M = members s N"
    using assms(1) by (rule representsE)
  then have "find_thread s t (list_start s) = Some False"
    using find_thread_list [OF L(1) layoutD(1) [OF L(1)]] assms(2) by auto
  then show ?thesis by (intro refuses) (simp add: srch_thread_def)
qed

end

interpretation wait_call: thread_call "\<lambda>t. spe_wait K t st opt" "\<lambda>s e. (-1, None, s, e)" for K st opt
  by unfold_locales (simp add: spe_wait_def)

interpretation kill_call: thread_call "\<lambda>t. spe_kill K t sig" "\<lambda>s e. (-1, s, e)" for K sig
  by unfold_locales (simp add: spe_kill_def)

interpretation group_call: thread_call "spe_get_group" "\<lambda>s e. (NULL, e)"
  by unfold_locales (simp add: spe_get_group_def)

interpretation set_data_call: thread_call "\<lambda>t. spe_set_app_data t d" "\<lambda>s e. (-1, s, e)" for d
  by unfold_locales (simp add: spe_set_app_data_def)

interpretation get_data_call: thread_call "spe_get_app_data" "\<lambda>s e. (-1, None, e)"
  by unfold_locales (simp add: spe_get_app_data_def)

interpretation ls_call: thread_call "spe_get_ls" "\<lambda>s e. (NULL, e)"
  by unfold_locales (simp add: spe_get_ls_def)

interpretation fd_call: thread_call "spe_get_context_fd" "\<lambda>s e. (-1, e)"
  by unfold_locales (simp add: spe_get_context_fd_def)

interpretation in_mbox_call: thread_call "\<lambda>t. spe_write_in_mbox K t d" "\<lambda>s e. (-1, s, e)" for K d
  by unfold_locales (simp add: spe_write_in_mbox_def)

interpretation out_mbox_call: thread_call "spe_read_out_mbox K" "\<lambda>s e. (-1, s, e)" for K
  by unfold_locales (simp add: spe_read_out_mbox_def)

interpretation stat_call: thread_call "\<lambda>t. checked_call t f" "\<lambda>s e. (-1, s, e)" for f
  by unfold_locales (simp add: checked_call_def)

interpretation signal_call: thread_call "\<lambda>t. spe_write_signal K t reg d" "\<lambda>s e. (-1, s, e)" for K reg d
  by unfold_locales (simp add: spe_write_signal_def)

interpretation ps_call: thread_call "\<lambda>t. spe_get_ps_area t area" "\<lambda>s e. (NULL, set_errno ESRCH e)" for area
  by unfold_locales (simp add: spe_get_ps_area_def)

interpretation get_affinity_call: thread_call spe_get_affinity "\<lambda>s e. (-1, e)"
  by unfold_locales (simp add: spe_get_affinity_def)

interpretation set_affinity_call: thread_call "\<lambda>t. spe_set_affinity t msk" "\<lambda>s e. (-1, e)" for msk
  by unfold_locales (simp add: spe_set_affinity_def)

definition not_found :: "'w env \<Rightarrow> 'w env" where
  "not_found e = set_errno ESRCH (unlock_groups (lock_groups e))"

text \<open>
  C23: a thread that is in no group of the list is refused by each of the sixteen calls that look a thread up
  (with \<open>srch_thread\<close>): the result is the error value with \<open>ESRCH\<close>, nothing but the lock of the lists is
  asked for and nothing changes. (The proxy DMA calls do not look.)
\<close>

theorem unknown_thread_refused:
  assumes "represents s gl M" "\<forall>g \<in> set gl. t \<notin> set (M g)"
  shows "spe_wait K t st opt s e = Some (-1, None, s, not_found e) \<and>
    spe_kill K t sig s e = Some (-1, s, not_found e) \<and>
    spe_get_group t s e = Some (NULL, not_found e) \<and>
    spe_get_ls t s e = Some (NULL, not_found e) \<and>
    spe_get_context_fd t s e = Some (-1, not_found e) \<and>
    spe_set_app_data t d s e = Some (-1, s, not_found e) \<and>
    spe_get_app_data t s e = Some (-1, None, not_found e) \<and>
    spe_write_in_mbox K t w s e = Some (-1, s, not_found e) \<and>
    spe_stat_in_mbox K t s e = Some (-1, s, not_found e) \<and>
    spe_read_out_mbox K t s e = Some (-1, s, not_found e) \<and>
    spe_stat_out_mbox K t s e = Some (-1, s, not_found e) \<and>
    spe_stat_out_intr_mbox K t s e = Some (-1, s, not_found e) \<and>
    spe_write_signal K t reg w s e = Some (-1, s, not_found e) \<and>
    spe_get_ps_area t area s e = Some (NULL, not_found e) \<and>
    spe_get_affinity t s e = Some (-1, not_found e) \<and>
    spe_set_affinity t msk s e = Some (-1, not_found e)"
  by (simp add: not_found_def spe_stat_in_mbox_def spe_stat_out_mbox_def spe_stat_out_intr_mbox_def
      wait_call.unknown [OF assms] kill_call.unknown [OF assms] group_call.unknown [OF assms]
      ls_call.unknown [OF assms] fd_call.unknown [OF assms] set_data_call.unknown [OF assms]
      get_data_call.unknown [OF assms] in_mbox_call.unknown [OF assms] stat_call.unknown [OF assms]
      out_mbox_call.unknown [OF assms] signal_call.unknown [OF assms] ps_call.unknown [OF assms]
      get_affinity_call.unknown [OF assms] set_affinity_call.unknown [OF assms])

theorem unknown_thread_refused_witness:
  "spe_kill thread_kernel 6 SIGKILL sample_started (start_env Map.empty ()) =
     Some (-1, sample_started, not_found (start_env Map.empty ()))"
proof -
  have "represents sample_started [5] ((\<lambda>_. [])(5 := [5]))"
    using sample_store_represents by (simp add: sample_started_def)
  moreover have "\<forall>g \<in> set [5]. (6 :: addr) \<notin> set (((\<lambda>_. [])(5 := [5])) (g :: addr))" by simp
  ultimately show ?thesis using unknown_thread_refused by blast
qed

section \<open>A thread after it was waited for\<close>

text \<open>
  C37: the youngest member of a group with several threads stays listed after a successful \<open>spe_wait\<close> has freed
  it: the searches still find it, and a second \<open>spe_wait\<close>, \<open>spe_kill\<close>, \<open>spe_get_ls\<close> and \<open>spe_get_event\<close>
  for its group use the freed block.
\<close>

theorem waited_thread_dangles:
  fixes K :: "'w kernel"
  assumes lists: "represents s gl M" "g \<in> set gl" "M g = t # u # us" "t \<notin> set (u # us)"
    and T: "threads s t = Some T" "spectx T = Some c" "group_id T = g" and join: "join_succeeds K"
  shows "\<exists>st s' e'. spe_wait K t True 0 s e = Some (0, Some st, s', e') \<and> threads s' t = None \<and>
    represents s' gl M \<and>
    (\<forall>e1 sig ev. srch_thread t s' e1 = Some (True, unlock_groups (lock_groups e1)) \<and>
      spe_wait K t True 0 s' e1 = None \<and> spe_kill K t sig s' e1 = None \<and> spe_get_ls t s' e1 = None \<and>
      spe_get_event K junk \<lparr>pe_gid = g, pe_events = ev, pe_revents = 0, pe_speid = NULL, pe_data = 0\<rparr> 1 0 s' e1 = None)"
proof -
  have t: "t \<in> set (M g)" using lists(3) by simp
  let ?s = "s\<lparr>threads := (threads s)(t := None)\<rparr>"
  note f = member_found [OF lists(1,2) t, of e]
  have R: "represents ?s gl M" using lists(1) by simp
  have f': "srch_thread t ?s e1 = Some (True, unlock_groups (lock_groups e1))" for e1 :: "'w env"
    by (rule member_found [OF R lists(2) t])
  obtain G where G: "groups s g = Some G" using representsD(2) [OF lists(1,2)] by auto
  obtain gns N where L: "layout s gns N" "gl = listed s gns" "M = members s N"
    using lists(1) by (rule representsE)
  obtain e2 where j: "sys_rv K (PthreadJoin (ts_pthread T)) (unlock_groups (lock_groups e)) = (0, e2)"
    using join by (metis join_succeeds_def prod.collapse)
  obtain rc e3 where d: "base_spe_context_destroy K c e2 = (rc, e3)" by fastforce
  obtain e4 where r: "remove_thread_from_group K (group_id T) t s e3 = Some (- ESRCH, s, e4)"
    using remove_thread_list [OF lists(1) G, of K t e3] lists(3,4) T(3) by auto
  have w: "\<exists>e'. spe_wait K t True 0 s e = Some (0, Some (spe_wait_status (of_int (ret_status T))), ?s, e')"
    using f j d r T by (simp add: spe_wait_def spe_cleanup_def has_flag_def Let_def)
  have none: "threads ?s t = None" by simp
  have len: "numListSize G = int (Suc (Suc (length us)))" using representsD(4) [OF lists(1) G] lists(3) by simp
  obtain n ns where N: "N g = n # ns" "thread_at s n = t"
    using lists(3) L(3) by (cases "N g") (auto simp: members_def)
  obtain x where x: "elems s (grp_members G) = Some x" "el_thread x = t"
    using layoutD(4) [OF L(1) G] N by (auto simp: next_Some thread_at_def)
  have "scan_members ?s ev (grp_members G) (nat (numListSize G)) 0 = None" for ev
    using x by (simp add: len nat_add_distrib)
  then have get: "spe_get_event K junk \<lparr>pe_gid = g, pe_events = ev, pe_revents = 0, pe_speid = NULL, pe_data = 0\<rparr> 1 0 ?s e1 = None"
    for ev and e1 :: "'w env" using G by (simp add: spe_get_event_def report_event_def)
  have use: "spe_wait K t True 0 ?s e1 = None" "spe_kill K t sig ?s e1 = None" "spe_get_ls t ?s e1 = None"
    for sig and e1 :: "'w env"
    using f' by (auto simp: spe_wait_def spe_kill_def spe_get_ls_def upd_thread_def Let_def)
  from w obtain e' where
    "spe_wait K t True 0 s e = Some (0, Some (spe_wait_status (of_int (ret_status T))), ?s, e')" ..
  then show ?thesis
    by (intro exI [of _ "spe_wait_status (of_int (ret_status T))"] exI [of _ ?s] exI [of _ e'])
      (simp only: none R f' use get simp_thms)
qed

theorem waited_thread_dangles_witness:
  "\<exists>st s' e'. spe_wait thread_kernel 300 True 0
      (sample_lists\<lparr>threads := [300 \<mapsto> sample_thread (Some loaded_context)\<lparr>group_id := 100\<rparr>]\<rparr>)
      (start_env Map.empty ()) = Some (0, Some st, s', e') \<and>
    spe_kill thread_kernel 300 SIGKILL s' e' = None"
proof -
  let ?T = "sample_thread (Some loaded_context)\<lparr>group_id := 100\<rparr>"
  let ?s = "sample_lists\<lparr>threads := [300 \<mapsto> ?T]\<rparr>" and ?M = "(\<lambda>_. [])(100 := [300, 200 :: addr])"
  have R: "represents ?s [100] ?M" using sample_lists_represents by simp
  have l: "100 \<in> set [100 :: addr]" "?M 100 = 300 # 200 # []" "300 \<notin> set [200 :: addr]"
    "threads ?s 300 = Some ?T" "spectx ?T = Some loaded_context" "group_id ?T = 100"
    by (simp_all add: sample_thread_def)
  from waited_thread_dangles [OF R l thread_kernel_joins, of "start_env Map.empty ()" 0]
  show ?thesis by (elim exE conjE) (intro exI conjI, assumption, blast)
qed

section \<open>Events one after the other\<close>

text \<open>
  A kernel whose event pipe is a queue: a write appends a word, a read of four bytes takes the first one, \<open>poll\<close>
  finds it readable when it holds one, and the heap does not run out.
\<close>

definition event_pipe :: "'w kernel \<Rightarrow> int \<times> int \<Rightarrow> ('w \<Rightarrow> u32 list) \<Rightarrow> bool" where
  "event_pipe K p q \<longleftrightarrow>
     (\<forall>e w r e'. sys K (Write (snd p) (bytes_of_word w)) e = (r, e') \<longrightarrow> q (world e') = q (world e) @ [w]) \<and>
     (\<forall>e w ws r e'. sys K (Read (fst p) 4) e = (r, e') \<longrightarrow> q (world e) = w # ws \<longrightarrow>
        rv r = 4 \<and> rbytes r = bytes_of_word w \<and> q (world e') = ws) \<and>
     (\<forall>e t r e'. sys K (PollFds [(fst p, POLLIN)] t) e = (r, e') \<longrightarrow> q (world e) \<noteq> [] \<longrightarrow>
        rv r = 1 \<and> rvals r = [1] \<and> q (world e') = q (world e)) \<and>
     (\<forall>e n r e'. sys K (Malloc n) e = (r, e') \<longrightarrow> rv r > 0 \<and> q (world e') = q (world e)) \<and>
     (\<forall>e a r e'. sys K (Free a) e = (r, e') \<longrightarrow> q (world e') = q (world e))"

lemma event_pipeD:
  assumes "event_pipe K p q"
  shows "sys K (Write (snd p) (bytes_of_word w)) e = (r, e') \<Longrightarrow> q (world e') = q (world e) @ [w]"
    "sys K (Read (fst p) 4) e = (r, e') \<Longrightarrow> q (world e) = w # ws \<Longrightarrow>
      rv r = 4 \<and> rbytes r = bytes_of_word w \<and> q (world e') = ws"
    "sys K (PollFds [(fst p, POLLIN)] t) e = (r, e') \<Longrightarrow> q (world e) \<noteq> [] \<Longrightarrow>
      rv r = 1 \<and> rvals r = [1] \<and> q (world e') = q (world e)"
    "sys K (Malloc k) e = (r, e') \<Longrightarrow> rv r > 0 \<and> q (world e') = q (world e)"
    "sys K (Free a) e = (r, e') \<Longrightarrow> q (world e') = q (world e)"
proof -
  note P = assms [unfolded event_pipe_def]
  note c = P [THEN conjunct1] P [THEN conjunct2, THEN conjunct1] P [THEN conjunct2, THEN conjunct2, THEN conjunct1]
    P [THEN conjunct2, THEN conjunct2, THEN conjunct2, THEN conjunct1]
    P [THEN conjunct2, THEN conjunct2, THEN conjunct2, THEN conjunct2]
  show "sys K (Write (snd p) (bytes_of_word w)) e = (r, e') \<Longrightarrow> q (world e') = q (world e) @ [w]"
    using c(1) by blast
  show "sys K (Read (fst p) 4) e = (r, e') \<Longrightarrow> q (world e) = w # ws \<Longrightarrow>
      rv r = 4 \<and> rbytes r = bytes_of_word w \<and> q (world e') = ws" using c(2) by blast
  show "sys K (PollFds [(fst p, POLLIN)] t) e = (r, e') \<Longrightarrow> q (world e) \<noteq> [] \<Longrightarrow>
      rv r = 1 \<and> rvals r = [1] \<and> q (world e') = q (world e)" using c(3) by blast
  show "sys K (Malloc k) e = (r, e') \<Longrightarrow> rv r > 0 \<and> q (world e') = q (world e)" using c(4) by blast
  show "sys K (Free a) e = (r, e') \<Longrightarrow> q (world e') = q (world e)" using c(5) by blast
qed

lemma post_event_fifo:
  assumes "event_pipe K (ev_pipe c) q" "threads s t = Some T" "spectx T = Some c"
  shows "\<exists>e'. post_event K t ev d s e = Some (s\<lparr>threads := (threads s)(t \<mapsto> T\<lparr>ts_event := ev, ts_ev_data := d\<rparr>)\<rparr>, e') \<and>
    q (world e') = q (world e) @ [ev]"
proof -
  obtain r e' where w: "sys K (Write (snd (ev_pipe c)) (bytes_of_word ev)) e = (r, e')" by fastforce
  then show ?thesis using event_pipeD(1) [OF assms(1) w] assms(2,3)
    by (simp add: post_event_def upd_thread_def sys_rv_def)
qed

text \<open>The mask asks for events of the pipe alone.\<close>

definition pipe_only :: "u32 \<Rightarrow> bool" where
  "pipe_only ev \<longleftrightarrow> has_flag ev pipe_events \<and> \<not> has_flag ev SPE_EVENT_MAILBOX \<and> \<not> has_flag ev SPE_EVENT_TAG_GROUP"

lemma pipe_only_counts: "pipe_only ev \<Longrightarrow> fds_counted ev = 1 \<and> has_flag ev polled_pipe_events"
  by (simp add: pipe_only_def fds_counted_def polled_pipe_events_def has_flag_or_mask)

text \<open>The event is read from the pipe when the thread has none; its data are gone.\<close>

lemma stale_event:
  assumes P: "event_pipe K (ev_pipe c) q" and s: "represents s gl M" "groups s (pe_gid pe) = Some G"
    "M (pe_gid pe) = [t]" "t \<noteq> NULL" "threads s t = Some T" "spectx T = Some c"
    and T: "ts_event T = 0" "ts_ev_data T = 0" and ev: "pipe_only (pe_events pe)" and w: "q (world e) = [w]"
  shows "\<exists>e'. spe_get_event K junk pe nevents timeout s e =
    Some (1, pe\<lparr>pe_revents := w, pe_speid := t, pe_data := 0\<rparr>, s\<lparr>threads := (threads s)(t \<mapsto> T)\<rparr>, e') \<and>
    q (world e') = []"
proof -
  let ?pe = "report_event NULL 0 0 pe"
  obtain gns N where L: "layout s gns N" "gl = listed s gns" "M = members s N" using s(1) by (rule representsE)
  obtain n where N: "N (pe_gid pe) = [n]" "thread_at s n = t" using s(3) L(3) by (auto simp: members_def)
  have g: "numListSize G = 1" "grp_members G = n" "n \<noteq> NULL" "\<exists>x. elems s n = Some x \<and> el_thread x = t"
    using layoutD(4,5) [OF L(1) s(2)] N by (auto simp: next_Some thread_at_def)
  then obtain x where x: "elems s n = Some x" "el_thread x = t" by blast
  have sc: "scan_members s (pe_events pe) n 1 0 = Some (Inr 1)"
    using x s(5) T pipe_only_counts [OF ev] by (simp add: numeral_eq_Suc)
  obtain r1 e1 where m1: "sys K (Malloc (1 * 8)) (lock_groups e) = (r1, e1)" by fastforce
  obtain r2 e2 where m2: "sys K (Malloc (1 * 24)) e1 = (r2, e2)" by fastforce
  let ?p = "\<lparr>ph_fd = fst (ev_pipe c), ph_thread = t, ph_type = 2, ph_retfd = -1\<rparr>"
  have su: "setup_members K (pe_events pe) 1 n 1 [] s e2 = Some ([?p], s, e2)"
    using x s(5,6) ev pipe_only_counts [OF ev]
    by (simp add: setup_thread_def setup_pipe_def push_fd_def pipe_only_def)
  obtain r3 e3 where p: "sys K (PollFds [(fst (ev_pipe c), POLLIN)] timeout) (unlock_groups e2) = (r3, e3)" by fastforce
  obtain r4 e4 where r: "sys K (Read (fst (ev_pipe c)) 4) e3 = (r4, e4)" by fastforce
  have q2: "q (world (unlock_groups e2)) = [w]" "rv r1 > 0" "rv r2 > 0"
    using event_pipeD(4) [OF P m1] event_pipeD(4) [OF P m2] w by (simp_all add: lock_groups_def unlock_groups_def)
  have q3: "q (world e3) = [w]" "rv r3 = 1" "rvals r3 = [1]" using event_pipeD(3) [OF P p] q2(1) by simp_all
  have q4: "q (world e4) = []" "rv r4 = 4" "rbytes r4 = bytes_of_word w" using event_pipeD(2) [OF P r q3(1)] by simp_all
  have id: "T\<lparr>ts_event := 0, ts_ev_data := 0\<rparr> = T" using T by (cases T) simp
  have "poll_results K junk [] (zip [?p] (rvals r3 @ replicate 1 0)) 0 ?pe s e3 =
      Some (1, report_event t w 0 ?pe, s\<lparr>threads := (threads s)(t \<mapsto> T)\<rparr>, e4)"
    using r q3(3) q4 s(5) T by (simp add: poll_result_def report_event_def upd_thread_def forget_event_def id)
  moreover obtain r5 e5 where f1: "sys K (Free (nat (rv r1))) e4 = (r5, e5)" by fastforce
  moreover obtain r6 e6 where f2: "sys K (Free (nat (rv r2))) e5 = (r6, e6)" by fastforce
  ultimately have "poll_members K junk 1 G timeout ?pe s (lock_groups e) =
      Some (1, report_event t w 0 ?pe, s\<lparr>threads := (threads s)(t \<mapsto> T)\<rparr>, e6)"
    using m1 m2 su p q2(2,3) q3(2) g(1,2)
    by (simp add: poll_members_def sys_rv_def report_event_def free_arrays_def
        del: setup_members.simps poll_results.simps)
  then have "spe_get_event K junk pe nevents timeout s e =
      Some (1, report_event t w 0 ?pe, s\<lparr>threads := (threads s)(t \<mapsto> T)\<rparr>, e6)"
    using sc s(2) g(1,2) by (simp add: spe_get_event_def report_event_def)
  moreover have "q (world e6) = []" using event_pipeD(5) [OF P f1] event_pipeD(5) [OF P f2] q4(1) by simp
  ultimately show ?thesis by (simp add: report_event_def)
qed

text \<open>
  a thread has room for one event only: when a second one is posted before the first is asked for, the
  first is lost and the second is delivered twice, the second time without its data. The
  documentation promises a queue of events with their data.
\<close>

theorem second_event_overwrites:
  fixes K :: "'w kernel"
  assumes P: "event_pipe K (ev_pipe c) q" "q (world e) = []"
    and s: "represents s gl M" "groups s (pe_gid pe) = Some G" "M (pe_gid pe) = [t]" "t \<noteq> NULL"
    and T: "threads s t = Some T" "spectx T = Some c"
    and ev: "pipe_only (pe_events pe)" "has_flag ev1 (pe_events pe)" "has_flag ev2 (pe_events pe)"
  shows "\<exists>s1 e1 s2 e2 s3 e3 s4 e4. post_event K t ev1 d1 s e = Some (s1, e1) \<and>
    post_event K t ev2 d2 s1 e1 = Some (s2, e2) \<and>
    spe_get_event K junk pe 1 timeout s2 e2 =
      Some (1, pe\<lparr>pe_revents := ev2, pe_speid := t, pe_data := d2\<rparr>, s3, e3) \<and>
    spe_get_event K junk pe 1 timeout s3 e3 =
      Some (1, pe\<lparr>pe_revents := ev2, pe_speid := t, pe_data := 0\<rparr>, s4, e4) \<and>
    q (world e4) = []"
proof -
  let ?T = "\<lambda>ev d. T\<lparr>ts_event := ev, ts_ev_data := d\<rparr>"
  let ?s = "\<lambda>ev d. s\<lparr>threads := (threads s)(t \<mapsto> ?T ev d)\<rparr>"
  obtain e1 where p1: "post_event K t ev1 d1 s e = Some (?s ev1 d1, e1)" "q (world e1) = [ev1]"
    using post_event_fifo [OF P(1) T, of ev1 d1 e] P(2) by auto
  have T1: "threads (?s ev1 d1) t = Some (?T ev1 d1)" "spectx (?T ev1 d1) = Some c" using T(2) by simp_all
  obtain e2 where p2: "post_event K t ev2 d2 (?s ev1 d1) e1 = Some (?s ev2 d2, e2)" "q (world e2) = [ev1, ev2]"
    using post_event_fifo [OF P(1) T1, of ev2 d2 e1] p1(2) by auto
  have R: "represents (?s ev d) gl M" "groups (?s ev d) (pe_gid pe) = Some G"
    "threads (?s ev d) t = Some (?T ev d)" for ev d using s(1,2) by simp_all
  have sc: "scan_members (?s ev2 d2) (pe_events pe) (grp_members G) (nat (numListSize G)) 0 = Some (Inl t)"
    using scan_group [OF R(1,2) [where ev = ev2 and d = d2], of "pe_events pe"] s(3) R(3) ev(3) by (simp add: is_pending_def)
  obtain r3 e3 where r: "sys K (Read (fst (ev_pipe c)) 4) (lock_groups e2) = (r3, e3)" by fastforce
  have q3: "q (world e3) = [ev2]" using event_pipeD(2) [OF P(1) r] p2(2) by (simp add: lock_groups_def)
  have g1: "spe_get_event K junk pe 1 timeout (?s ev2 d2) e2 =
      Some (1, pe\<lparr>pe_revents := ev2, pe_speid := t, pe_data := d2\<rparr>, ?s 0 0, unlock_groups e3)"
    using sc r R(2) T(2)
    by (simp add: spe_get_event_def deliver_pending_def report_event_def upd_thread_def forget_event_def sys_rv_def)
  have "q (world (unlock_groups e3)) = [ev2]" using q3 by (simp add: unlock_groups_def)
  from stale_event [OF P(1) R(1,2) [where ev = 0 and d = 0] s(3,4) R(3) [where ev = 0 and d = 0] _ _ _ ev(1) this, of junk 1 timeout] T(2)
  obtain e4 where g2: "spe_get_event K junk pe 1 timeout (?s 0 0) (unlock_groups e3) =
      Some (1, pe\<lparr>pe_revents := ev2, pe_speid := t, pe_data := 0\<rparr>,
        (?s 0 0)\<lparr>threads := (threads (?s 0 0))(t \<mapsto> ?T 0 0)\<rparr>, e4)" "q (world e4) = []"
    by auto
  show ?thesis using p1(1) p2(1) g1 g2 by (intro exI conjI)
qed


text \<open>A kernel with one pipe, whose state is the words in it.\<close>

definition pipe_kernel :: "u32 list kernel" where
  "pipe_kernel req x =
     (case x of (m, ws) \<Rightarrow>
        case req of
          Write _ bs \<Rightarrow> (reply_ok 4, m, ws @ [word_of_bytes bs])
        | Read _ _ \<Rightarrow>
            (case ws of
               [] \<Rightarrow> (reply_ok 0, m, ws)
             | w # ws' \<Rightarrow> ((reply_ok 4)\<lparr>rbytes := bytes_of_word w\<rparr>, m, ws'))
        | PollFds _ _ \<Rightarrow>
            ((reply_ok (if ws = [] then 0 else 1))\<lparr>rvals := [if ws = [] then 0 else 1]\<rparr>, m, ws)
        | _ \<Rightarrow> (reply_ok 5, m, ws))"

lemma pipe_kernel_queue: "event_pipe pipe_kernel (r, w) id"
  by (auto simp: event_pipe_def sys_def pipe_kernel_def reply_ok_def split: list.splits if_splits)

theorem second_event_overwrites_witness:
  "\<exists>s1 e1 s2 e2 s3 e3 s4 e4.
    post_event pipe_kernel 5 EVENT_STOP 1 (sample_store (sample_thread (Some loaded_context)))
      (start_env Map.empty []) = Some (s1, e1) \<and>
    post_event pipe_kernel 5 EVENT_THREAD_EXIT 2 s1 e1 = Some (s2, e2) \<and>
    spe_get_event pipe_kernel 0 (sample_request (EVENT_STOP OR EVENT_THREAD_EXIT)) 1 0 s2 e2 =
      Some (1, (sample_request (EVENT_STOP OR EVENT_THREAD_EXIT))
        \<lparr>pe_revents := EVENT_THREAD_EXIT, pe_speid := 5, pe_data := 2\<rparr>, s3, e3) \<and>
    spe_get_event pipe_kernel 0 (sample_request (EVENT_STOP OR EVENT_THREAD_EXIT)) 1 0 s3 e3 =
      Some (1, (sample_request (EVENT_STOP OR EVENT_THREAD_EXIT))
        \<lparr>pe_revents := EVENT_THREAD_EXIT, pe_speid := 5, pe_data := 0\<rparr>, s4, e4) \<and>
    id (world e4) = []"
proof -
  let ?c = loaded_context and ?ev = "EVENT_STOP OR EVENT_THREAD_EXIT :: u32"
  let ?T = "sample_thread (Some ?c)" and ?pe = "sample_request ?ev" and ?e = "start_env Map.empty [] :: u32 list env"
  obtain G where G: "groups (sample_store ?T) (pe_gid ?pe) = Some G"
    using sample_group_there by (auto simp: sample_request_def)
  have P: "event_pipe pipe_kernel (ev_pipe ?c) id" "id (world ?e) = []"
    by (simp_all add: loaded_context_def pipe_kernel_queue start_env_def)
  have M: "((\<lambda>_. [])(5 := [5])) (pe_gid ?pe) = [5 :: addr]" "5 \<noteq> (NULL :: addr)" by (simp_all add: sample_request_def)
  have T: "threads (sample_store ?T) 5 = Some ?T" "spectx ?T = Some ?c" by (simp_all add: sample_thread_def)
  have ev: "pipe_only (pe_events ?pe)" "has_flag EVENT_STOP (pe_events ?pe)" "has_flag EVENT_THREAD_EXIT (pe_events ?pe)"
    by (simp_all add: pipe_only_def pipe_events_def sample_request_def has_flag_def)
  show ?thesis
    using second_event_overwrites [where ?d1.0 = 1 and ?d2.0 = 2 and junk = 0 and timeout = 0,
        OF P sample_store_represents G M T ev] by blast
qed

end
