(* ===== verification/Run_Calls.thy ===== *)
theory Run_Calls
  imports Default_Handlers Spe_Run
begin

unbundle bit_operations_syntax

text \<open>
  A library call from end to end: the run loop (\<open>spebase/run.c\<close>), the table of handlers (\<open>spebase/lib_builtin.c\<close>)
  and the default handler of the POSIX.1 class (\<open>spebase/default_posix1_handler.c\<close>) together.
\<close>

text \<open>
  C8: a program run with the default handlers that stops for a POSIX.1 call gets what it asked for and goes on: the
  library function is called once, with the arguments of the frame at the address in the word after the stop
  instruction, its result and \<open>errno\<close> are in the frame when the program is restarted, four bytes behind
  the stop instruction, and nothing else was written after the call.
\<close>

theorem posix1_call_resumes:
  fixes K :: "'w kernel" and junk :: u32
    and U :: "addr \<Rightarrow> addr \<Rightarrow> u32 \<Rightarrow> (c99_files \<times> 'w) env \<Rightarrow> (int \<times> (c99_files \<times> 'w) env) option"
  defines "L \<equiv> behind_files K" and "H \<equiv> default_code junk K U"
  assumes "sys L (SpuRun (fd_spe_dir (run_c s)) (run_tmp s)) (run_env s) =
      (stop_reply (SPE_PROGRAM_LIBRARY_CALL OR 1) npc, e1)"
    and "mem_mmap_base (run_c s) = ls" "ls \<noteq> NULL"
    and "\<not> has_flag (flags (run_c s)) SPE_ISOLATE_EMULATE" "\<not> has_flag rf SPE_NO_CALLBACKS"
    and "load32 (mem e1) (ls + unat ((npc AND LS_ADDR_MASK) AND NOT 1)) = Some w"
    and "(opcode w, f, ks) \<in> set posix1_calls"
    and "marshal ls w 0 (set_errno 0 e1) ks = Some xs"
    and "libcall L f xs (set_errno 0 e1) = (rc, e2)"
    and "mapped (mem e2) (LS_ARG_ADDR ls w 0) 16"
  shows "\<exists>s'. do_run L H initial_handlers rf s = do_run L H initial_handlers rf s' \<and>
    run_tmp s' = npc + 4 \<and> run_c s' = run_c s \<and> list_all2 (arg_ok ls) ks xs \<and>
    trace (run_env s') = trace e1 @ [(LibCall f xs, rc)] \<and>
    result_quad (mem (run_env s')) (LS_ARG_ADDR ls w 0) [rc, 0, 0, errno e2] \<and>
    same_outside (mem e2) (mem (run_env s')) {LS_ARG_ADDR ls w 0..<LS_ARG_ADDR ls w 0 + 16}"
proof -
  have w: "load32 (mem (set_errno 0 e1)) (ls + unat ((npc AND LS_ADDR_MASK) AND NOT 1)) = Some w"
    using assms(8) by (simp add: set_errno_def)
  obtain e3 where e3: "base_spe_default_posix1_handler L ls npc (set_errno 0 e1) = Some (0, e3)"
    "trace e3 = trace (set_errno 0 e1) @ [(LibCall f xs, rc)]"
    "result_quad (mem e3) (LS_ARG_ADDR ls w 0) [rc, 0, 0, errno e2]"
    "same_outside (mem e2) (mem e3) {LS_ARG_ADDR ls w 0..<LS_ARG_ADDR ls w 0 + 16}"
    by (rule posix1_serve [OF assms(5) w assms(9-12)])
  have cb: "base_spe_handle_library_callback H initial_handlers (run_c s) (unat (1 :: 8 word)) npc e1 = Some (0, e3)"
    using e3(1) assms(4,6)
    by (simp add: base_spe_handle_library_callback_def initial_handlers_def handler_idx_def H_def L_def)
  have run: "sys L (SpuRun (fd_spe_dir (run_c s)) (run_tmp s)) (run_env s) =
      (stop_reply (SPE_PROGRAM_LIBRARY_CALL OR ucast (1 :: 8 word)) npc, e1)" using assms(3) by simp
  obtain s' where s': "do_run_step L H initial_handlers rf s = Some (None, s')" "run_tmp s' = npc + 4"
    "run_c s' = run_c s" "run_env s' = e3"
    by (rule library_call_round [OF run assms(6,7) cb])
  have "do_run L H initial_handlers rf s = do_run L H initial_handlers rf s'"
    by (subst do_run.simps) (simp add: s'(1))
  then show ?thesis using s'(2-4) e3(2-4) marshal_ok [OF assms(10)]
    by (intro exI [of _ s']) (simp add: set_errno_def)
qed

text \<open>The \<open>read\<close> of \<open>sample_read\<close>, made by a program that stops at \<open>0x80\<close> each time it runs.\<close>

definition stopping_kernel :: "unit kernel" where
  "stopping_kernel q s = (case q of SpuRun d pc \<Rightarrow> (stop_reply (SPE_PROGRAM_LIBRARY_CALL OR 1) 0x80, s) | _ \<Rightarrow> (reply_ok 16, s))"

definition calling_state :: "(c99_files \<times> unit) run_state" where
  "calling_state = \<lparr>run_c = sample_ctx, run_entry = 0, run_tmp = 0x40, run_status = 0,
     run_info = \<lparr>stop_reason = None, stop_result = 0, spu_status = 0\<rparr>, run_chain = [],
     run_env = start_env (sample_ls sample_read) (initial_files 7 8 9, ())\<rparr>"

theorem posix1_call_resumes_witness:
  "\<exists>s'. do_run (behind_files stopping_kernel) (default_code 0 stopping_kernel (\<lambda>_ _ _ _. None)) initial_handlers 0 calling_state =
      do_run (behind_files stopping_kernel) (default_code 0 stopping_kernel (\<lambda>_ _ _ _. None)) initial_handlers 0 s' \<and>
    run_tmp s' = 0x84 \<and> result_quad (mem (run_env s')) 0x100100 [16, 0, 0, 0]"
proof -
  let ?L = "behind_files stopping_kernel" and ?e = "run_env calling_state"
  let ?e1 = "?e\<lparr>trace := [(SpuRun 3 0x40, uint (stop_rc (SPE_PROGRAM_LIBRARY_CALL OR 1)))]\<rparr>"
  let ?e2 = "(set_errno 0 ?e1)\<lparr>trace := trace ?e1 @ [(LibCall ''read'' [5, 0x100200, 16], 16)]\<rparr>"
  have m: "mem ?e1 = mem (sample_call sample_read)" "errno ?e1 = 0" by (simp_all add: calling_state_def start_env_def)
  have r: "sys ?L (SpuRun (fd_spe_dir (run_c calling_state)) (run_tmp calling_state)) ?e =
      (stop_reply (SPE_PROGRAM_LIBRARY_CALL OR 1) 0x80, ?e1)"
    by (simp add: sys_def calling_state_def sample_ctx_def stopping_kernel_def start_env_def stop_reply_def reply_words_def)
  have l: "libcall ?L ''read'' [5, 0x100200, 16] (set_errno 0 ?e1) = (16, ?e2)"
    by (simp add: libcall_def sys_rv_def sys_def stopping_kernel_def reply_ok_def calling_state_def start_env_def set_errno_def)
  have c: "mem_mmap_base (run_c calling_state) = 0x100000" "(0x100000 :: addr) \<noteq> NULL"
    "\<not> has_flag (flags (run_c calling_state)) SPE_ISOLATE_EMULATE" "\<not> has_flag 0 SPE_NO_CALLBACKS"
    by (simp_all add: calling_state_def sample_ctx_def)
  have w: "load32 (mem ?e1) (0x100000 + unat ((0x80 AND LS_ADDR_MASK) AND NOT (1 :: u32))) = Some 0x10000100"
    using sample_read_facts(4) unfolding m(1) .
  have a: "marshal 0x100000 0x10000100 0 (set_errno 0 ?e1) [Signed, LsPtr, Unsigned] = Some [5, 0x100200, 16]"
    using m(1) by (simp add: set_errno_def slot_def sample_read_facts(1) load32_sample GET_LS_PTR_def sample_read_def)
  have "mem ?e2 = sample_ls sample_read" by (simp add: calling_state_def start_env_def set_errno_def)
  then have mp: "mapped (mem ?e2) (LS_ARG_ADDR 0x100000 0x10000100 0) 16"
    using sample_read_facts(6) sample_read_facts(1) [of 0] by simp
  have "errno ?e2 = 0" by (simp add: set_errno_def)
  with posix1_call_resumes [OF r c w sample_read_facts(2) a l mp] sample_read_facts(1) [of 0] show ?thesis by auto
qed

text \<open>
  C7: a program that makes any number of library calls, of any class and to any handlers, and then exits
  is run to its end. Each stop for a call is answered with 0 by the handler of its class, which
  gets the environment the stop left, and the program is restarted four bytes further in the
  environment the handler left; the run returns 0 with the exit code and the place of the exit,
  the context unchanged and the environment as the exit left it. The context is not isolated.
\<close>

theorem library_calls_served:
  assumes "program_run K H hs (run_c s) (run_tmp s) (run_env s) cs code npc e'"
    and "\<not> has_flag (flags (run_c s)) SPE_ISOLATE" "\<not> has_flag (flags (run_c s)) SPE_ISOLATE_EMULATE"
    and "\<not> has_flag rf SPE_NO_CALLBACKS"
  shows "\<exists>s'. do_run K H hs rf s = Some (0, s') \<and>
    stop_reason (run_info s') = Some SPE_EXIT \<and> stop_result (run_info s') = uint code \<and>
    run_entry s' = npc \<and> run_c s' = run_c s \<and> run_env s' = e'"
  by (rule program_run_ends [OF assms(1) refl refl refl assms(2-4)])

text \<open>
  A program that puts the frame of \<open>sample_read\<close> into the local store, stops at \<open>0x80\<close> to make that call and,
  started again behind it, exits with code 7; its local store is mapped at \<open>0x100000\<close>.
\<close>

definition exiting_kernel :: "unit kernel" where
  "exiting_kernel q s = (case q of
     SpuRun d pc \<Rightarrow>
       (if pc = 0x84 then (stop_reply (SPE_PROGRAM_NORMAL_END OR 7) 0x300, s)
        else (stop_reply (SPE_PROGRAM_LIBRARY_CALL OR 1) 0x80, fst s ++ sample_ls sample_read, snd s))
   | LibCall f xs \<Rightarrow> (reply_ok 16, s)
   | Mmap l f \<Rightarrow> (reply_ok 0x100000, s)
   | _ \<Rightarrow> (reply_ok 5, s))"

lemma load32_add_sample:
  assumes "0x100000 \<le> x" "x < 0x140000" "(x - 0x100000) mod 4 = 0"
  shows "load32 (m ++ sample_ls W) x = Some (W ((x - 0x100000) div 4))"
proof -
  have "x + 4 \<le> 0x140000" using assms by presburger
  then have "\<exists>b. sample_ls W y = Some b" if "x \<le> y" "y < x + 4" for y
    using mapped_sample [of x 4 W] assms(1) that by (auto simp: mapped_def)
  then have "load_bytes (m ++ sample_ls W) x 4 = load_bytes (sample_ls W) x 4"
    by (intro load_bytes_cong) (fastforce simp: map_add_Some_iff)
  then show ?thesis using load32_sample [OF assms] by (simp add: load32_def)
qed

lemma sample_program_run:
  fixes e :: "(c99_files \<times> unit) env"
  assumes "mem_mmap_base c = 0x100000" "pc \<noteq> 0x84" "\<not> has_flag (flags c) SPE_ISOLATE_EMULATE"
  obtains e' where "program_run (behind_files exiting_kernel) (default_code 0 exiting_kernel (\<lambda>_ _ _ _. None)) initial_handlers
      c pc e [(1, 0x80)] 7 0x300 e'" "result_quad (mem e') 0x100100 [16, 0, 0, 0]"
    "trace e' = trace e @ [(SpuRun (fd_spe_dir c) pc, uint (stop_rc (SPE_PROGRAM_LIBRARY_CALL OR 1))),
       (LibCall ''read'' [5, 0x100200, 16], 16), (SpuRun (fd_spe_dir c) 0x84, uint (stop_rc (SPE_PROGRAM_NORMAL_END OR 7)))]"
proof -
  let ?L = "behind_files exiting_kernel" and ?H = "default_code 0 exiting_kernel (\<lambda>_ _ _ _. None)"
  let ?m = "mem e ++ sample_ls sample_read"
  let ?e1 = "e\<lparr>mem := ?m, trace := trace e @ [(SpuRun (fd_spe_dir c) pc, uint (stop_rc (SPE_PROGRAM_LIBRARY_CALL OR 1)))]\<rparr>"
  let ?e2 = "(set_errno 0 ?e1)\<lparr>trace := trace ?e1 @ [(LibCall ''read'' [5, 0x100200, 16], 16)]\<rparr>"
  have r: "sys ?L (SpuRun (fd_spe_dir c) pc) e = (stop_reply (SPE_PROGRAM_LIBRARY_CALL OR ucast (1 :: 8 word)) 0x80, ?e1)"
    using assms(2) by (cases "world e") (simp add: sys_def exiting_kernel_def stop_reply_def reply_words_def)
  have l: "libcall ?L ''read'' [5, 0x100200, 16] (set_errno 0 ?e1) = (16, ?e2)"
    by (cases "world e") (simp add: libcall_def sys_rv_def sys_def exiting_kernel_def reply_ok_def set_errno_def)
  have w: "load32 (mem (set_errno 0 ?e1)) (0x100000 + unat ((0x80 AND LS_ADDR_MASK) AND NOT (1 :: u32))) = Some 0x10000100"
    by (simp add: load32_add_sample sample_read_def set_errno_def)
  have a: "marshal 0x100000 0x10000100 0 (set_errno 0 ?e1) [Signed, LsPtr, Unsigned] = Some [5, 0x100200, 16]"
    by (simp add: slot_def sample_read_facts(1) load32_add_sample GET_LS_PTR_def sample_read_def set_errno_def)
  have mp: "mapped (mem ?e2) (LS_ARG_ADDR 0x100000 0x10000100 0) 16"
    using sample_read_facts(6) by (auto simp: sample_read_facts(1) mapped_def set_errno_def map_add_None)
  have b: "(0x100000 :: addr) \<noteq> NULL" by simp
  obtain e3 where e3: "base_spe_default_posix1_handler ?L 0x100000 0x80 (set_errno 0 ?e1) = Some (0, e3)"
    "trace e3 = trace (set_errno 0 ?e1) @ [(LibCall ''read'' [5, 0x100200, 16], 16)]"
    "result_quad (mem e3) (LS_ARG_ADDR 0x100000 0x10000100 0) [16, 0, 0, errno ?e2]"
    by (rule posix1_serve [OF b w sample_read_facts(2) a l mp])
  let ?e' = "e3\<lparr>trace := trace e3 @ [(SpuRun (fd_spe_dir c) 0x84, uint (stop_rc (SPE_PROGRAM_NORMAL_END OR 7)))]\<rparr>"
  have cb: "base_spe_handle_library_callback ?H initial_handlers c (unat (1 :: 8 word)) 0x80 ?e1 = Some (0, e3)"
    using e3(1) assms(1,3) by (simp add: base_spe_handle_library_callback_def initial_handlers_def handler_idx_def)
  have r2: "sys ?L (SpuRun (fd_spe_dir c) (0x80 + 4)) e3 = (stop_reply (SPE_PROGRAM_NORMAL_END OR ucast (7 :: 8 word)) 0x300, ?e')"
    by (cases "world e3") (simp add: sys_def exiting_kernel_def stop_reply_def reply_words_def)
  show thesis
  proof (rule that)
    show "program_run ?L ?H initial_handlers c pc e [(1, 0x80)] 7 0x300 ?e'"
      by (rule program_calls [OF r cb program_ends [OF r2]])
    show "result_quad (mem ?e') 0x100100 [16, 0, 0, 0]" using e3(3) sample_read_facts(1) [of 0] by (simp add: set_errno_def)
  qed (simp add: e3(2) set_errno_def)
qed

theorem library_calls_served_witness:
  "\<exists>s'. do_run (behind_files exiting_kernel) (default_code 0 exiting_kernel (\<lambda>_ _ _ _. None)) initial_handlers 0 calling_state =
      Some (0, s') \<and> stop_result (run_info s') = 7 \<and> result_quad (mem (run_env s')) 0x100100 [16, 0, 0, 0] \<and>
    map fst (trace (run_env s')) = [SpuRun 3 0x40, LibCall ''read'' [5, 0x100200, 16], SpuRun 3 0x84]"
proof -
  have c: "mem_mmap_base (run_c calling_state) = 0x100000" "run_tmp calling_state \<noteq> 0x84" "fd_spe_dir (run_c calling_state) = 3"
    "\<not> has_flag (flags (run_c calling_state)) SPE_ISOLATE_EMULATE" "\<not> has_flag (flags (run_c calling_state)) SPE_ISOLATE"
    "\<not> has_flag 0 SPE_NO_CALLBACKS" "trace (run_env calling_state) = []" "run_tmp calling_state = 0x40"
    by (simp_all add: calling_state_def sample_ctx_def start_env_def)
  obtain e' where e': "program_run (behind_files exiting_kernel) (default_code 0 exiting_kernel (\<lambda>_ _ _ _. None)) initial_handlers
      (run_c calling_state) (run_tmp calling_state) (run_env calling_state) [(1, 0x80)] 7 0x300 e'"
    "result_quad (mem e') 0x100100 [16, 0, 0, 0]"
    "trace e' = trace (run_env calling_state) @ [(SpuRun (fd_spe_dir (run_c calling_state)) (run_tmp calling_state),
       uint (stop_rc (SPE_PROGRAM_LIBRARY_CALL OR 1))), (LibCall ''read'' [5, 0x100200, 16], 16),
       (SpuRun (fd_spe_dir (run_c calling_state)) 0x84, uint (stop_rc (SPE_PROGRAM_NORMAL_END OR 7)))]"
    by (rule sample_program_run [OF c(1,2,4)])
  from library_calls_served [OF e'(1) c(5,4,6)] e'(2,3) show ?thesis by (auto simp: c(3,7,8))
qed

end
