(* ===== verification/Elfspe.thy ===== *)
theory Elfspe
  imports Thread_Samples Run_Calls
begin

unbundle bit_operations_syntax

text \<open>
  The launcher \<open>elfspe/elfspe.c\<close>: \<open>main\<close> opens the image of an SPE program, builds a block with the program's
  arguments for it (\<open>spe_copy_argv\<close>), creates a context, loads and runs it and returns its exit code.
\<close>

section \<open>The arguments\<close>

text \<open>\<open>SPE_ARG_MAX\<close> may lower the limit; it is rounded down to a multiple of 16.\<close>

definition spe_arg_max :: "'w kernel \<Rightarrow> 'w env \<Rightarrow> int \<times> 'w env" where
  "spe_arg_max K e =
     (let (r, e1) = sys K (Getenv ''SPE_ARG_MAX'') e in
      if rv r = 0 then (4096, e1)
      else
        let (r2, e2) = sys K (Getenv ''SPE_ARG_MAX'') e1;
            v = sint (word_of_int (strtol_0 (rname r2)) :: u32)
        in (if 0 \<le> v \<and> v \<le> 4096 then v AND NOT 15 else 4096, e2))"

text \<open>The sum is kept in an \<open>int\<close>.\<close>

fun args_size :: "string list \<Rightarrow> u32 \<Rightarrow> u32" where
  "args_size [] n = n"
| "args_size (a # as) n = args_size as (n + (of_nat (length a) + 1))"

definition argv_size :: "string list \<Rightarrow> u32" where
  "argv_size argv = (args_size argv 0 + of_nat (4 * (length argv + 1)) + 15) AND NOT 15"

text \<open>
  The loop that copies the strings; \<open>offs\<close> is the address of \<open>argv_offsets[i]\<close>. The strings are not in the
  block, so they are given by their contents.
\<close>

fun copy_args :: "addr \<Rightarrow> addr \<Rightarrow> int \<Rightarrow> string list \<Rightarrow> memory \<Rightarrow> memory option" where
  "copy_args offs ptr end_ptr [] m = Some m"
| "copy_args offs ptr end_ptr (a # as) m = do {
     m1 \<leftarrow> store32 m offs ((of_nat LS_SIZE - word_of_int (end_ptr - int ptr)) AND (of_nat LS_SIZE - 1));
     m2 \<leftarrow> store_bytes m1 ptr (c_bytes a);
     copy_args (offs + 4) (ptr + length (c_bytes a)) end_ptr as m2 }"

text \<open>
  \<open>ret\<close> is the address of the \<open>struct spe_regs\<close>, three quadwords. \<open>posix_memalign\<close> hands the block back through
  \<open>start\<close>, which stays \<open>NULL\<close> when it fails; the size is extended with its sign.
\<close>

definition store_regs :: "memory \<Rightarrow> addr \<Rightarrow> nat \<Rightarrow> addr \<Rightarrow> u32 \<Rightarrow> memory option" where
  "store_regs m ret argc start nbytes = do {
     m1 \<leftarrow> store32 m ret (of_nat argc);
     m2 \<leftarrow> store32 m1 (ret + 16) (of_nat LS_SIZE - nbytes);
     m3 \<leftarrow> store32 m2 (ret + 20) (word_hi start);
     m4 \<leftarrow> store32 m3 (ret + 24) (word_lo start);
     store32 m4 (ret + 28) nbytes }"

definition build_block :: "string list \<Rightarrow> addr \<Rightarrow> u32 \<Rightarrow> addr \<Rightarrow> memory \<Rightarrow> memory option" where
  "build_block argv start nbytes ret m = do {
     m1 \<leftarrow> memset m start 0 (unat (scast nbytes :: u64));
     m2 \<leftarrow> copy_args start (start + 4 * (length argv + 1)) (int start + sint nbytes) argv m1;
     m3 \<leftarrow> store32 m2 (start + 4 * length argv) 0;
     store_regs m3 ret (length argv) start nbytes }"

definition spe_copy_argv :: "'w kernel \<Rightarrow> string list \<Rightarrow> addr \<Rightarrow> 'w env \<Rightarrow> (int \<times> 'w env) option" where
  "spe_copy_argv K argv ret e = do {
     m0 \<leftarrow> memset (mem e) ret 0 48;
     let e0 = e\<lparr>mem := m0\<rparr>;
     let (no_args, e1) = (if argv = [] then (1, e0) else sys_rv K (Getenv ''SPE_NO_ARGS'') e0);
     if no_args \<noteq> 0 then Some (0, e1)
     else do {
       let (limit, e2) = spe_arg_max K e1;
       let nbytes = argv_size argv;
       if sint nbytes > limit then Some (2, e2)
       else do {
         let (r, e3) = sys K (LibCall ''posix_memalign'' [16, sint nbytes]) e2;
         let start = (case rptrs r of [] \<Rightarrow> NULL | p # _ \<Rightarrow> p);
         if start = NULL then Some (3, e3)
         else do {
           m \<leftarrow> build_block argv start nbytes ret (mem e3);
           Some (0, e3\<lparr>mem := m\<rparr>) } } } }"

section \<open>The program\<close>

text \<open>\<open>signal (n, handler)\<close> for seven signals: the handler destroys the context, if there is one, and exits.\<close>

definition set_signals :: "'w kernel \<Rightarrow> 'w env \<Rightarrow> 'w env" where
  "set_signals K e = fold (\<lambda>n e. snd (sys_rv K (LibCall ''signal'' [n]) e)) [11, 7, 4, 8, 15, 1, 2] e"

definition elfspe_handler :: "'w kernel \<Rightarrow> int \<Rightarrow> spe_object option \<Rightarrow> 'w env \<Rightarrow> (int \<times> 'w env) option" where
  "elfspe_handler K signr ctx e =
     (case ctx of
        None \<Rightarrow> Some (128 + signr, e)
      | Some s \<Rightarrow> do { (_, e1) \<leftarrow> spe_context_destroy K (Some s) e; Some (128 + signr, e1) })"

text \<open>
  \<open>launch\<close> is the part from the creation of the context on. The result is the exit status; \<open>argv\<close> has
  \<open>argc\<close> elements, \<open>params\<close> is the address of the local variable, the parameters \<open>junk...\<close> and \<open>info\<close> are
  uninitialised contents.
\<close>

definition run_and_destroy ::
  "'w kernel \<Rightarrow> 'w handler_code \<Rightarrow> u32 \<Rightarrow> spe_stop_info \<Rightarrow> addr \<Rightarrow> spe_object option \<Rightarrow> 'w env \<Rightarrow>
   (int \<times> 'w env) option"
where
  "run_and_destroy K H junk info params ctx e = do {
     (rc, left) \<leftarrow> spe_context_run K H initial_handlers ctx SPE_DEFAULT_ENTRY SPE_RUN_USER_REGS params NULL
                     info junk [] e;
     (case left of
        Inl e1 \<Rightarrow> do { (_, e2) \<leftarrow> spe_context_destroy K ctx e1; Some (stop_result info, e2) }
      | Inr (s, st) \<Rightarrow> do {
          (_, e2) \<leftarrow> spe_context_destroy K (Some s) (run_env st);
          Some (stop_result (run_info st), e2) }) }"

definition launch ::
  "'w kernel \<Rightarrow> 'w handler_code \<Rightarrow> nat \<Rightarrow> u64 \<Rightarrow> spe_context \<Rightarrow> u32 \<Rightarrow> spe_stop_info \<Rightarrow> addr \<Rightarrow>
   spe_program_handle \<Rightarrow> 'w env \<Rightarrow> (int \<times> 'w env) option"
where
  "launch K H ptr_bytes ps junkc junk info params handle e = do {
     (ctx, cache, e1) \<leftarrow> spe_context_create K ptr_bytes ps junkc 0 None None e;
     if ctx = None then Some (1, e1)
     else do {
       (rc, ctx1, cache1, e2) \<leftarrow> spe_program_load K ptr_bytes ps junk ctx (Some handle) cache e1;
       if rc \<noteq> 0 then Some (1, e2) else run_and_destroy K H junk info params ctx1 e2 } }"

definition elfspe_main ::
  "'w kernel \<Rightarrow> 'w handler_code \<Rightarrow> nat \<Rightarrow> u64 \<Rightarrow> spe_context \<Rightarrow> u32 \<Rightarrow> spe_stop_info \<Rightarrow> addr \<Rightarrow> string list \<Rightarrow>
   'w env \<Rightarrow> (int \<times> 'w env) option"
where
  "elfspe_main K H ptr_bytes ps junkc junk info params argv e =
     (let e1 = set_signals K e in
      if length argv < 2 then Some (1, e1)
      else do {
        (img, e2) \<leftarrow> spe_image_open K ptr_bytes ps (argv ! 1) e1;
        (case img of
           None \<Rightarrow> Some (1, e2)
         | Some (_, handle) \<Rightarrow> do {
             (bad, e3) \<leftarrow> spe_copy_argv K (tl argv) params e2;
             if bad \<noteq> 0 then Some (1, e3)
             else launch K H ptr_bytes ps junkc junk info params (spe_program_handle.truncate handle) e3 }) })"

section \<open>Sizes\<close>

definition args_len :: "string list \<Rightarrow> nat" where
  "args_len argv = sum_list (map (\<lambda>a. Suc (length a)) argv)"

definition block_len :: "string list \<Rightarrow> nat" where
  "block_len argv = (args_len argv + 4 * (length argv + 1) + 15) div 16 * 16"

lemma args_len_simps [simp]: "args_len [] = 0" "args_len (a # as) = Suc (length a) + args_len as"
  by (simp_all add: args_len_def)

lemma args_size_sum: "args_size argv n = n + of_nat (args_len argv)"
  by (induction argv arbitrary: n) simp_all

lemma and_not_15: "w AND NOT 15 = push_bit 4 (drop_bit 4 w)" for w :: u32
proof -
  have m: "(15 :: u32) = mask 4" by (simp add: mask_eq_decr_exp)
  show ?thesis unfolding m by (rule bit_word_eqI) (auto simp: bit_simps)
qed

lemma unat_of_nat32: "k < 2 ^ 32 \<Longrightarrow> unat (of_nat k :: u32) = k"
  by (simp add: unat_of_nat take_bit_nat_eq_self)

lemma block_len_room: "args_len argv + 4 * (length argv + 1) \<le> block_len argv"
  by (simp add: block_len_def)

lemma argv_size_block:
  assumes "block_len argv < 2 ^ 31"
  shows "argv_size argv = of_nat (block_len argv)"
proof -
  let ?k = "args_len argv + 4 * (length argv + 1) + 15"
  have k: "?k < 2 ^ 32" using assms by (simp add: block_len_def)
  have "argv_size argv = (of_nat ?k :: u32) AND NOT 15" by (simp add: argv_size_def args_size_sum)
  also have "\<dots> = push_bit 4 (drop_bit 4 (of_nat ?k))" by (rule and_not_15)
  also have "\<dots> = of_nat (?k div 16 * 16)"
  proof -
    have "drop_bit 4 (of_nat ?k :: u32) = of_nat (?k div 16)"
    proof (rule unsigned_word_eqI)
      have "unat (drop_bit 4 w) = unat w div 16" for w :: u32
        by (simp only: unat_drop_bit_eq) (simp add: drop_bit_eq_div)
      then have "unat (drop_bit 4 (of_nat ?k :: u32)) = ?k div 16" by (simp only: unat_of_nat32 [OF k])
      moreover have "unat (of_nat (?k div 16) :: u32) = ?k div 16"
        by (rule unat_of_nat32) (use k in linarith)
      ultimately show "unat (drop_bit 4 (of_nat ?k :: u32)) = unat (of_nat (?k div 16) :: u32)" by simp
    qed
    then show ?thesis by (simp add: push_bit_eq_mult)
  qed
  finally show ?thesis by (simp add: block_len_def)
qed

section \<open>The block\<close>

text \<open>An offset within the local store.\<close>

lemma ls_offset:
  assumes "p < q" "q \<le> p + LS_SIZE"
  shows "(of_nat LS_SIZE - word_of_int (int q - int p)) AND (of_nat LS_SIZE - 1) = (of_nat (LS_SIZE - (q - p)) :: u32)"
proof -
  let ?x = "LS_SIZE - (q - p)"
  have d: "(word_of_int (int q - int p) :: u32) = of_nat (q - p)" using assms by (simp flip: of_nat_diff)
  have "(of_nat LS_SIZE - of_nat (q - p) :: u32) = of_nat ?x" using assms by (subst of_nat_diff) simp_all
  moreover have "(of_nat LS_SIZE - 1 :: u32) = mask 18" by (simp add: mask_eq_decr_exp)
  moreover have "(of_nat ?x :: u32) AND mask 18 = of_nat (take_bit 18 ?x)"
    by (simp only: take_bit_of_nat flip: take_bit_eq_mask)
  moreover have "take_bit 18 ?x = ?x" using assms by (intro take_bit_nat_eq_self) simp
  ultimately show ?thesis by (simp only: d)
qed

definition arg_at :: "addr \<Rightarrow> string list \<Rightarrow> nat \<Rightarrow> addr" where
  "arg_at p argv i = p + args_len (take i argv)"

lemma arg_at_simps [simp]: "arg_at p (a # as) 0 = p" "arg_at p (a # as) (Suc i) = arg_at (p + Suc (length a)) as i"
  by (simp_all add: arg_at_def)

lemma arg_at_end: "i < length as \<Longrightarrow> arg_at p as i + Suc (length (as ! i)) \<le> p + args_len as"
proof (induction as arbitrary: p i)
  case (Cons a as)
  show ?case
  proof (cases i)
    case (Suc j)
    then show ?thesis using Cons.IH [of j "p + Suc (length a)"] Cons.prems by simp
  qed simp
qed simp

lemma copy_args_ok:
  assumes "mapped m offs (4 * length as)" "mapped m p (args_len as)" "offs + 4 * length as \<le> p"
    and "p + args_len as \<le> q" "q \<le> p + LS_SIZE"
  shows "\<exists>m'. copy_args offs p (int q) as m = Some m' \<and> dom m' = dom m \<and>
    same_outside m m' ({offs..<offs + 4 * length as} \<union> {p..<p + args_len as}) \<and>
    (\<forall>i < length as. load32 m' (offs + 4 * i) = Some (of_nat (LS_SIZE - (q - arg_at p as i))) \<and>
      load_bytes m' (arg_at p as i) (Suc (length (as ! i))) = Some (c_bytes (as ! i)))"
  using assms
proof (induction as arbitrary: m offs p)
  case (Cons a as)
  let ?w = "of_nat (LS_SIZE - (q - p)) :: u32" and ?l = "Suc (length a)"
  have w: "(of_nat LS_SIZE - word_of_int (int q - int p)) AND (of_nat LS_SIZE - 1) = ?w"
    by (rule ls_offset) (use Cons.prems(4,5) in simp_all)
  obtain m1 where m1: "store32 m offs ?w = Some m1" "dom m1 = dom m"
    using Cons.prems(1) store32_mapped [of m offs ?w] store32_dom [of m offs ?w] mapped_sub [of m offs _ offs 4]
    by auto
  then have mp: "mapped m1 = mapped m" by (intro ext) (rule mapped_dom)
  obtain m2 where m2: "store_bytes m1 p (c_bytes a) = Some m2" "dom m2 = dom m"
    using Cons.prems(2) store_bytes_mapped [of m1 p "c_bytes a"] store_bytes_dom [of m1 p "c_bytes a"] m1(2)
      mapped_sub [of m p _ p ?l] by (auto simp: mp)
  then have mp2: "mapped m2 = mapped m" by (intro ext) (rule mapped_dom)
  obtain m' where m': "copy_args (offs + 4) (p + ?l) (int q) as m2 = Some m'" "dom m' = dom m2"
    and out: "same_outside m2 m' ({offs + 4..<offs + 4 + 4 * length as} \<union> {p + ?l..<p + ?l + args_len as})"
    and args: "\<forall>i < length as. load32 m' (offs + 4 + 4 * i) = Some (of_nat (LS_SIZE - (q - arg_at (p + ?l) as i))) \<and>
      load_bytes m' (arg_at (p + ?l) as i) (Suc (length (as ! i))) = Some (c_bytes (as ! i))"
    using Cons.IH [of m2 "offs + 4" "p + ?l"] Cons.prems mapped_sub [of m offs _ "offs + 4" "4 * length as"]
      mapped_sub [of m p _ "p + ?l" "args_len as"] by (auto simp: mp2)
  have "load32 m2 offs = Some ?w"
    using load32_store32 [OF m1(1)] load_store_bytes_other [OF m2(1), of offs 4] Cons.prems(3) by (simp add: load32_def)
  then have o: "load32 m' offs = Some ?w"
    using load32_same_outside [OF out, of offs] Cons.prems(3) by (simp add: Int_Un_distrib)
  have "load_bytes m2 p ?l = Some (c_bytes a)" using load_store_bytes [OF m2(1)] by simp
  then have str: "load_bytes m' p ?l = Some (c_bytes a)"
    using load_bytes_same_outside [OF out, of p ?l] Cons.prems(3) by (simp add: Int_Un_distrib)
  have "same_outside m m' (({offs..<offs + 4} \<union> {p..<p + ?l}) \<union>
      ({offs + 4..<offs + 4 + 4 * length as} \<union> {p + ?l..<p + ?l + args_len as}))"
    using same_outside_trans [OF same_outside_trans [OF store32_same_outside [OF m1(1)]
          store_bytes_same_outside [OF m2(1)]] out] by simp
  then have "same_outside m m' ({offs..<offs + 4 * length (a # as)} \<union> {p..<p + args_len (a # as)})"
    by (rule same_outside_mono) auto
  moreover have "copy_args offs p (int q) (a # as) m = Some m'" using m1(1) m2(1) m'(1) by (simp only: copy_args.simps w) simp
  ultimately show ?case using m'(2) m2(2) o str args
    by (intro exI [of _ m']) (auto simp: nth_Cons less_Suc_eq_0_disj add.assoc)
qed simp

lemma store_regs_ok:
  assumes "mapped m ret 48" "\<forall>i < 12. load32 m (ret + 4 * i) = Some 0"
  shows "\<exists>m'. store_regs m ret argc start n = Some m' \<and> dom m' = dom m \<and> same_outside m m' {ret..<ret + 48} \<and>
    load_quad m' ret = Some [of_nat argc, 0, 0, 0] \<and>
    load_quad m' (ret + 16) = Some [of_nat LS_SIZE - n, word_hi start, word_lo start, n] \<and>
    load_quad m' (ret + 32) = Some [0, 0, 0, 0]"
proof -
  have st: "\<exists>m'. store32 m1 (ret + k) w = Some m' \<and> dom m' = dom m1"
    if "dom m1 = dom m" "k + 4 \<le> 48" for m1 k w
    using store32_mapped [of m1 "ret + k" w] store32_dom [of m1 "ret + k" w] that(2)
      mapped_sub [OF assms(1), of "ret + k" 4] mapped_dom [OF that(1), of "ret + k" 4] by auto
  obtain m1 where m1: "store32 m ret (of_nat argc) = Some m1" "dom m1 = dom m"
    using st [of m 0 "of_nat argc"] by auto
  obtain m2 where m2: "store32 m1 (ret + 16) (of_nat LS_SIZE - n) = Some m2" "dom m2 = dom m"
    using st [of m1 16] m1(2) by fastforce
  obtain m3 where m3: "store32 m2 (ret + 20) (word_hi start) = Some m3" "dom m3 = dom m"
    using st [of m2 20] m2(2) by fastforce
  obtain m4 where m4: "store32 m3 (ret + 24) (word_lo start) = Some m4" "dom m4 = dom m"
    using st [of m3 24] m3(2) by fastforce
  obtain m5 where m5: "store32 m4 (ret + 28) n = Some m5" "dom m5 = dom m"
    using st [of m4 28] m4(2) by fastforce
  note w = m1(1) m2(1) m3(1) m4(1) m5(1)
  have z: "load32 m5 (ret + 4 * i) = Some 0" if i: "i \<in> {1, 2, 3, 8, 9, 10, 11}" for i
  proof -
    have "i < 12" using i by auto
    then have "load32 m (ret + 4 * i) = Some 0" using assms(2) by blast
    then show ?thesis using w [THEN load32_store32_other, of "ret + 4 * i"] i by auto
  qed
  have v: "load32 m5 ret = Some (of_nat argc)" "load32 m5 (ret + 16) = Some (of_nat LS_SIZE - n)"
    "load32 m5 (ret + 20) = Some (word_hi start)" "load32 m5 (ret + 24) = Some (word_lo start)"
    "load32 m5 (ret + 28) = Some n"
    using w [THEN load32_store32] w [THEN load32_store32_other, of ret] w [THEN load32_store32_other, of "ret + 16"]
      w [THEN load32_store32_other, of "ret + 20"] w [THEN load32_store32_other, of "ret + 24"] by simp_all
  have "same_outside m m5 (((({ret..<ret + 4} \<union> {ret + 16..<ret + 16 + 4}) \<union> {ret + 20..<ret + 20 + 4}) \<union>
      {ret + 24..<ret + 24 + 4}) \<union> {ret + 28..<ret + 28 + 4})"
    by (intro same_outside_trans) (rule w [THEN store32_same_outside])+
  then have "same_outside m m5 {ret..<ret + 48}" by (rule same_outside_mono) auto
  moreover have "store_regs m ret argc start n = Some m5" using w by (simp add: store_regs_def)
  moreover have "load32 m5 (ret + 4) = Some 0" "load32 m5 (ret + 8) = Some 0" "load32 m5 (ret + 12) = Some 0"
    "load32 m5 (ret + 32) = Some 0" "load32 m5 (ret + 36) = Some 0" "load32 m5 (ret + 40) = Some 0"
    "load32 m5 (ret + 44) = Some 0"
    using z [of 1] z [of 2] z [of 3] z [of 8] z [of 9] z [of 10] z [of 11] by simp_all
  moreover have "ret + 16 + 4 = ret + 20" "ret + 16 + 8 = ret + 24" "ret + 16 + 12 = ret + 28"
    "ret + 32 + 4 = ret + 36" "ret + 32 + 8 = ret + 40" "ret + 32 + 12 = ret + 44" by simp_all
  ultimately show ?thesis using m5(2) v by (intro exI [of _ m5]) (simp only: load_quad_def bind.bind_lunit simp_thms)
qed

text \<open>What a program sees that finds the block at the address \<open>a\<close> of its local store, which is at \<open>ls\<close>.\<close>

definition sees_arguments :: "memory \<Rightarrow> addr \<Rightarrow> nat \<Rightarrow> string list \<Rightarrow> bool" where
  "sees_arguments m ls a argv \<longleftrightarrow> load32 m (ls + a + 4 * length argv) = Some 0 \<and>
     (\<forall>i < length argv. \<exists>p. load32 m (ls + a + 4 * i) = Some p \<and>
       load_bytes m (ls + unat p) (Suc (length (argv ! i))) = Some (c_bytes (argv ! i)))"

lemma memcpy_part:
  assumes "memcpy m dst src n = Some m'" "j + k \<le> n"
  shows "load_bytes m' (dst + j) k = load_bytes m (src + j) k"
proof -
  obtain bs where bs: "load_bytes m src n = Some bs" "store_bytes m dst bs = Some m'"
    using assms(1) by (auto simp: memcpy_def split: Option.bind_splits)
  then have d: "load_bytes m' dst n = Some bs"
    using load_store_bytes [OF bs(2)] load_bytes_length [OF bs(1)] by simp
  have n: "n = j + (k + (n - j - k))" using assms(2) by simp
  have part: "load_bytes x (a + j) k = Some (take k (drop j bs))" if l: "load_bytes x a n = Some bs" for x a
  proof -
    have "load_bytes x a (j + (k + (n - j - k))) = Some bs" using l n by simp
    then obtain xs ys zs where "load_bytes x a j = Some xs" "load_bytes x (a + j) k = Some ys" "bs = xs @ ys @ zs"
      by (auto simp: load_bytes_add split: Option.bind_splits)
    then show ?thesis using load_bytes_length by auto
  qed
  show ?thesis using part [OF bs(1)] part [OF d] by simp
qed

lemma build_block_ok:
  fixes argv :: "string list"
  defines "n \<equiv> block_len argv"
  assumes "mapped m start n" "mapped m ret 48" "{ret..<ret + 48} \<inter> {start..<start + n} = {}"
    and "\<forall>i < 12. load32 m (ret + 4 * i) = Some 0" "n \<le> 4096"
  shows "\<exists>m'. build_block argv start (of_nat n) ret m = Some m' \<and>
    load_quad m' ret = Some [of_nat (length argv), 0, 0, 0] \<and>
    load_quad m' (ret + 16) = Some [of_nat (LS_SIZE - n), word_hi start, word_lo start, of_nat n] \<and>
    load_quad m' (ret + 32) = Some [0, 0, 0, 0] \<and>
    (\<forall>ls m''. memcpy m' (ls + (LS_SIZE - n)) start n = Some m'' \<longrightarrow> sees_arguments m'' ls (LS_SIZE - n) argv)"
proof -
  let ?k = "length argv" and ?p = "start + 4 * (length argv + 1)"
  have n: "args_len argv + 4 * (?k + 1) \<le> n" using block_len_room by (simp add: n_def)
  have u: "unat (of_nat n :: u32) = n" using assms(6) by (intro unat_of_nat32) simp
  have sz: "unat (scast (of_nat n :: u32) :: u64) = n" "sint (of_nat n :: u32) = int n"
  proof -
    show s: "sint (of_nat n :: u32) = int n"
      using assms(6) by (simp add: signed_of_nat signed_take_bit_int_eq_self)
    have "(scast (of_nat n :: u32) :: u64) = of_nat n" by (simp add: scast_eq s)
    then show "unat (scast (of_nat n :: u32) :: u64) = n"
      using assms(6) by (simp add: unat_of_nat take_bit_nat_eq_self)
  qed
  obtain m1 where m1: "memset m start 0 n = Some m1" "same_outside m m1 {start..<start + n}" "dom m1 = dom m"
    using memset_ok [OF assms(2), of 0] by blast
  have mp: "mapped m1 start n" using mapped_dom [OF m1(3)] assms(2) by simp
  obtain m2 where m2: "copy_args start ?p (int (start + n)) argv m1 = Some m2" "dom m2 = dom m1"
    "same_outside m1 m2 ({start..<start + 4 * ?k} \<union> {?p..<?p + args_len argv})"
    and args: "\<forall>i < ?k. load32 m2 (start + 4 * i) = Some (of_nat (LS_SIZE - (start + n - arg_at ?p argv i))) \<and>
      load_bytes m2 (arg_at ?p argv i) (Suc (length (argv ! i))) = Some (c_bytes (argv ! i))"
    using copy_args_ok [of m1 start argv ?p "start + n"] mapped_sub [OF mp, of start "4 * ?k"]
      mapped_sub [OF mp, of ?p "args_len argv"] n assms(6) by fastforce
  obtain m3 where m3: "store32 m2 (start + 4 * ?k) 0 = Some m3" "dom m3 = dom m"
    using store32_mapped [of m2 "start + 4 * ?k" 0] store32_dom [of m2 "start + 4 * ?k" 0] m2(2) m1(3)
      mapped_sub [OF mp, of "start + 4 * ?k" 4] mapped_dom [OF m2(2)] n by auto
  have out: "same_outside m m3 {start..<start + n}"
    using same_outside_trans [OF same_outside_trans [OF m1(2) m2(3)] store32_same_outside [OF m3(1)]] n
    by (elim same_outside_mono) auto
  have z: "load32 m3 (ret + 4 * i) = Some 0" if "i < 12" for i
    using load32_same_outside [OF out, of "ret + 4 * i"] assms(4,5) that
      range_disjoint_sub [OF assms(4), of "ret + 4 * i" 4] by simp
  have "mapped m3 ret 48" using mapped_dom [OF m3(2)] assms(3) by simp
  with z obtain m' where m': "store_regs m3 ret ?k start (of_nat n) = Some m'" "same_outside m3 m' {ret..<ret + 48}"
    "load_quad m' ret = Some [of_nat ?k, 0, 0, 0]"
    "load_quad m' (ret + 16) = Some [of_nat LS_SIZE - of_nat n, word_hi start, word_lo start, of_nat n]"
    "load_quad m' (ret + 32) = Some [0, 0, 0, 0]" using store_regs_ok [of m3 ret ?k start "of_nat n"] by blast
  have b: "build_block argv start (of_nat n) ret m = Some m'"
    using m1(1) m2(1) m3(1) m'(1) by (simp add: build_block_def sz)
  have keep: "load_bytes m' a k = load_bytes m3 a k" if "start \<le> a" "a + k \<le> start + n" for a k
    using load_bytes_same_outside [OF m'(2), of a k] assms(4) that by (force simp: disjoint_iff)
  have "sees_arguments m'' ls (LS_SIZE - n) argv" if c: "memcpy m' (ls + (LS_SIZE - n)) start n = Some m''" for ls m''
  proof -
    have cp: "load_bytes m'' (ls + (LS_SIZE - n) + j) k = load_bytes m3 (start + j) k" if "j + k \<le> n" for j k
      using memcpy_part [OF c that] keep [of "start + j" k] that by simp
    have "load32 m'' (ls + (LS_SIZE - n) + 4 * ?k) = Some 0"
      using cp [of "4 * ?k" 4] n load32_store32 [OF m3(1)] by (simp add: load32_def)
    moreover have "\<exists>p. load32 m'' (ls + (LS_SIZE - n) + 4 * i) = Some p \<and>
        load_bytes m'' (ls + unat p) (Suc (length (argv ! i))) = Some (c_bytes (argv ! i))" if i: "i < ?k" for i
    proof -
      let ?a = "arg_at ?p argv i" and ?l = "Suc (length (argv ! i))"
      have a: "?p \<le> ?a" "?a + ?l \<le> start + n" using arg_at_end [OF i, of ?p] n by (simp_all add: arg_at_def)
      have "load32 m3 (start + 4 * i) = load32 m2 (start + 4 * i)" "load_bytes m3 ?a ?l = load_bytes m2 ?a ?l"
        using load32_store32_other [OF m3(1), of "start + 4 * i"] i a(1)
          load_store_bytes_other [OF m3(1) [unfolded store32_def], of ?a ?l] by simp_all
      moreover have "load32 m'' (ls + (LS_SIZE - n) + 4 * i) = load32 m3 (start + 4 * i)"
        using cp [of "4 * i" 4] i n by (simp add: load32_def)
      moreover have "load_bytes m'' (ls + (LS_SIZE - n) + (?a - start)) ?l = load_bytes m3 ?a ?l"
        using cp [of "?a - start" ?l] a by (simp add: algebra_simps)
      ultimately have "load32 m'' (ls + (LS_SIZE - n) + 4 * i) = Some (of_nat (LS_SIZE - (start + n - ?a)))"
        "load_bytes m'' (ls + (LS_SIZE - n) + (?a - start)) ?l = Some (c_bytes (argv ! i))"
        using args i by simp_all
      moreover have "unat (of_nat (LS_SIZE - (start + n - ?a)) :: u32) = LS_SIZE - n + (?a - start)"
        using a assms(6) by (subst unat_of_nat32) simp_all
      ultimately show ?thesis by (metis add.assoc)
    qed
    ultimately show ?thesis by (simp add: sees_arguments_def)
  qed
  moreover have "(of_nat LS_SIZE - of_nat n :: u32) = of_nat (LS_SIZE - n)"
    using assms(6) by (subst of_nat_diff) simp_all
  ultimately show ?thesis using b m'(3,4,5) by (intro exI [of _ m']) simp
qed

section \<open>Arguments of the program\<close>

text \<open>
  An environment in which arguments are wanted and \<open>limit\<close> bytes are allowed for them; and a \<open>posix_memalign\<close>
  that finds a block outside the memory \<open>A\<close> that is in use.
\<close>

definition wants_arguments :: "'w kernel \<Rightarrow> int \<Rightarrow> bool" where
  "wants_arguments K limit \<longleftrightarrow>
     (\<forall>name e. mem (snd (sys K (Getenv name) e)) = mem e) \<and>
     (\<forall>e. fst (sys_rv K (Getenv ''SPE_NO_ARGS'') e) = 0) \<and> (\<forall>e. fst (spe_arg_max K e) = limit)"

definition gives_block :: "'w kernel \<Rightarrow> addr set \<Rightarrow> nat \<Rightarrow> addr \<Rightarrow> bool" where
  "gives_block K A n start \<longleftrightarrow> start \<noteq> NULL \<and> A \<inter> {start..<start + n} = {} \<and>
     (\<forall>e r e'. sys K (LibCall ''posix_memalign'' [16, int n]) e = (r, e') \<longrightarrow> dom (mem e) = A \<longrightarrow>
       rptrs r = [start] \<and> mapped (mem e') start n \<and> (\<forall>x \<in> A. mem e' x = mem e x))"

lemma arg_max_bound: "fst (spe_arg_max K e) \<le> 4096"
proof -
  have "v AND NOT 15 \<le> 4096" if "0 \<le> v" "v \<le> 4096" for v :: int
    using AND_upper1 [OF that(1), of "NOT 15"] that(2) by linarith
  then show ?thesis by (auto simp: spe_arg_max_def Let_def split: prod.splits)
qed

lemma arg_max_memory:
  assumes "\<forall>name e. mem (snd (sys K (Getenv name) e)) = mem e"
  shows "mem (snd (spe_arg_max K e)) = mem e"
proof -
  obtain r1 e1 where r1: "sys K (Getenv ''SPE_ARG_MAX'') e = (r1, e1)" by fastforce
  obtain r2 e2 where r2: "sys K (Getenv ''SPE_ARG_MAX'') e1 = (r2, e2)" by fastforce
  show ?thesis using assms [rule_format, of "''SPE_ARG_MAX''" e] assms [rule_format, of "''SPE_ARG_MAX''" e1]
    by (simp add: spe_arg_max_def Let_def r1 r2)
qed

lemma words_bytes_zero: "words_bytes (replicate n 0) = replicate (4 * n) 0"
  by (induction n) (simp_all add: bytes_of_word_def eval_nat_numeral)

text \<open>
  C18: \<open>spe_copy_argv\<close> prepares the arguments of an SPE program: a run with its registers as user registers starts
  with \<open>argc\<close> in register 3 and, in register 4, the offset in the local store, the address and the
  size of the block; once the program has copied the block to that offset, it finds there \<open>argv\<close> as a
  null-terminated array of offsets of its strings. The block has at most 4096 bytes, a multiple of 16.
\<close>

theorem arguments_reach_program:
  fixes argv :: "string list"
  defines "n \<equiv> block_len argv"
  assumes "wants_arguments K limit" "gives_block K (dom (mem e)) n start"
    and "argv \<noteq> []" "int n \<le> limit" "mapped (mem e) ret 48"
  shows "\<exists>e'. spe_copy_argv K argv ret e = Some (0, e') \<and>
    (\<forall>c ent. \<exists>regs. start_registers c SPE_RUN_USER_REGS ret NULL ent (mem e') = Some regs \<and>
      reg_r3 regs = [of_nat (length argv), 0, 0, 0] \<and>
      reg_r4 regs = [of_nat (LS_SIZE - n), word_hi start, word_lo start, of_nat n] \<and> reg_r5 regs = [0, 0, 0, 0]) \<and>
    (\<forall>ls m. memcpy (mem e') (ls + (LS_SIZE - n)) start n = Some m \<longrightarrow> sees_arguments m ls (LS_SIZE - n) argv) \<and>
    n \<le> 4096 \<and> 16 dvd n"
proof -
  note K = assms(2) [unfolded wants_arguments_def] and B = assms(3) [unfolded gives_block_def]
  have n: "n \<le> 4096" "16 dvd n" using assms(5) arg_max_bound [of K e] K by (auto simp: n_def block_len_def)
  have size: "argv_size argv = of_nat n" "sint (of_nat n :: u32) = int n"
    using argv_size_block [of argv] n(1) by (simp_all add: n_def signed_of_nat signed_take_bit_int_eq_self)
  obtain m0 where m0: "memset (mem e) ret 0 48 = Some m0" "load_bytes m0 ret 48 = Some (replicate 48 0)" "dom m0 = dom (mem e)"
    using memset_ok [OF assms(6), of 0] by blast
  have mp: "mapped m0 ret 48" using mapped_dom [OF m0(3)] assms(6) by simp
  have z: "load32 m0 (ret + 4 * i) = Some 0" if "i < 12" for i
    using load32_word_list [of m0 ret "replicate 12 0" i] m0(2) that words_bytes_zero [of 12] by simp
  obtain e1 where e1: "sys_rv K (Getenv ''SPE_NO_ARGS'') (e\<lparr>mem := m0\<rparr>) = (0, e1)" "mem e1 = m0"
    using K [THEN conjunct1, rule_format, of "''SPE_NO_ARGS''" "e\<lparr>mem := m0\<rparr>"]
      K [THEN conjunct2, THEN conjunct1, rule_format, of "e\<lparr>mem := m0\<rparr>"]
    by (auto simp: sys_rv_def split: prod.splits)
  obtain e2 where e2: "spe_arg_max K e1 = (limit, e2)" "mem e2 = m0"
    using K [THEN conjunct2, THEN conjunct2, rule_format, of e1] arg_max_memory [of K e1] K e1(2) by (metis prod.collapse)
  obtain r e3 where r: "sys K (LibCall ''posix_memalign'' [16, int n]) e2 = (r, e3)" by fastforce
  have d: "dom (mem e2) = dom (mem e)" using e2(2) m0(3) by simp
  then have b: "rptrs r = [start]" "mapped (mem e3) start n" "start \<noteq> NULL"
    and keep: "\<forall>x \<in> dom m0. mem e3 x = m0 x" using B r e2(2) by auto
  have at: "x \<notin> {start..<start + n} \<and> mem e3 x = m0 x" if "ret \<le> x" "x < ret + 48" for x
  proof -
    have "x \<in> dom m0" using mp that by (auto simp: mapped_def)
    then show ?thesis using keep B m0(3) by blast
  qed
  have "mapped (mem e3) ret 48" using mp at by (auto simp: mapped_def)
  moreover have "{ret..<ret + 48} \<inter> {start..<start + n} = {}" using at unfolding disjoint_iff by simp
  moreover have "load32 (mem e3) (ret + 4 * i) = Some 0" if "i < 12" for i
    using z [OF that] load_bytes_cong [of "ret + 4 * i" 4 "mem e3" m0] at that by (simp add: load32_def)
  ultimately obtain m where m: "build_block argv start (of_nat n) ret (mem e3) = Some m"
    "load_quad m ret = Some [of_nat (length argv), 0, 0, 0]"
    "load_quad m (ret + 16) = Some [of_nat (LS_SIZE - n), word_hi start, word_lo start, of_nat n]"
    "load_quad m (ret + 32) = Some [0, 0, 0, 0]"
    "\<forall>ls m''. memcpy m (ls + (LS_SIZE - n)) start n = Some m'' \<longrightarrow> sees_arguments m'' ls (LS_SIZE - n) argv"
    using build_block_ok [of "mem e3" start argv ret] b(2) n(1) by (auto simp: n_def)
  have "spe_copy_argv K argv ret e = Some (0, e3\<lparr>mem := m\<rparr>)"
    using m0(1) e1(1) e2(1) r b(1,3) m(1) assms(4,5) size by (simp add: spe_copy_argv_def)
  then show ?thesis using m(2-5) n
    by (intro exI [of _ "e3\<lparr>mem := m\<rparr>"]) (simp add: start_registers_def has_flag_def)
qed

text \<open>A kernel that gives one block of 32 bytes.\<close>

definition launch_kernel :: "unit kernel" where
  "launch_kernel req x =
     (case req of
        LibCall name _ \<Rightarrow>
          ((reply_ok 0)\<lparr>rptrs := [0x1000]\<rparr>,
           (\<lambda>a. if 0x1000 \<le> a \<and> a < 0x1020 then Some 0 else fst x a), snd x)
      | _ \<Rightarrow> (reply_ok 0, x))"

theorem arguments_reach_program_witness:
  "\<exists>e' regs. spe_copy_argv launch_kernel [''prog'', ''-v''] 0x100
      (start_env (\<lambda>a. if 0x100 \<le> a \<and> a < 0x130 then Some 7 else None) ()) = Some (0, e') \<and>
    start_registers loaded_context SPE_RUN_USER_REGS 0x100 NULL 0x80 (mem e') = Some regs \<and>
    reg_r3 regs = [2, 0, 0, 0] \<and> reg_r4 regs = [0x3FFE0, 0, 0x1000, 32]"
proof -
  let ?argv = "[''prog'', ''-v'']" and ?m = "\<lambda>a :: addr. if 0x100 \<le> a \<and> a < 0x130 then Some (7 :: u8) else None"
  let ?e = "start_env ?m () :: unit env"
  have n: "block_len ?argv = 32" by (simp add: block_len_def)
  have d: "dom (mem ?e) = {0x100..<0x130}" by (auto simp: start_env_def split: if_splits)
  have 1: "wants_arguments launch_kernel 4096"
    by (simp add: wants_arguments_def sys_def sys_rv_def launch_kernel_def spe_arg_max_def reply_ok_def)
  have 2: "gives_block launch_kernel (dom (mem ?e)) (block_len ?argv) 0x1000"
    unfolding gives_block_def n d by (auto simp: sys_def launch_kernel_def mapped_def)
  have 3: "?argv \<noteq> []" "int (block_len ?argv) \<le> 4096" by (simp_all add: n)
  have 4: "mapped (mem ?e) 0x100 48" by (simp add: start_env_def mapped_def)
  obtain e' where e': "spe_copy_argv launch_kernel ?argv 0x100 ?e = Some (0, e')"
    "\<forall>c ent. \<exists>regs. start_registers c SPE_RUN_USER_REGS 0x100 NULL ent (mem e') = Some regs \<and>
      reg_r3 regs = [of_nat (length ?argv), 0, 0, 0] \<and>
      reg_r4 regs = [of_nat (LS_SIZE - 32), word_hi 0x1000, word_lo 0x1000, of_nat 32] \<and> reg_r5 regs = [0, 0, 0, 0]"
    using arguments_reach_program [OF 1 2 3 4] unfolding n by blast
  then obtain regs where "start_registers loaded_context SPE_RUN_USER_REGS 0x100 NULL 0x80 (mem e') = Some regs"
    "reg_r3 regs = [of_nat (length ?argv), 0, 0, 0]"
    "reg_r4 regs = [of_nat (LS_SIZE - 32), word_hi 0x1000, word_lo 0x1000, of_nat 32]" by blast
  with e'(1) show ?thesis by (intro exI conjI) (simp_all add: word_hi_def word_lo_def)
qed

section \<open>A launched program\<close>

lemma load_quad_mapped:
  assumes "mapped m a 16"
  shows "\<exists>q. load_quad m a = Some q \<and> length q = 4"
proof -
  have "\<exists>w. load32 m (a + k) = Some w" if "k + 4 \<le> 16" for k
    using load32_mapped [of m "a + k"] mapped_sub [OF assms, of "a + k" 4] that by simp
  from this [of 0] this [of 4] this [of 8] this [of 12] show ?thesis
    by (auto simp: load_quad_def)
qed

lemma start_registers_mapped:
  assumes "mapped m params 48"
  shows "\<exists>regs. start_registers c SPE_RUN_USER_REGS params envp te m = Some regs \<and> quads regs"
proof -
  have "\<exists>q. load_quad m (params + k) = Some q \<and> length q = 4" if "k + 16 \<le> 48" for k
    using load_quad_mapped [of m "params + k"] mapped_sub [OF assms, of "params + k" 16] that by simp
  from this [of 0] this [of 16] this [of 32] show ?thesis
    by (auto simp: start_registers_def quads_def has_flag_def)
qed

text \<open>Loading a program into a context that is not isolated takes and keeps nothing.\<close>

lemma load_complete_ledgers: "ledgers (base_spe_program_load_complete K c e) = ledgers e"
proof -
  obtain F M H where L: "ledgers e = (F, M, H)" by (cases "ledgers e")
  obtain fd e1 where o: "sys_rv K (Openat (fd_spe_dir c) ''object-id'' O_RDWR) e = (fd, e1)" by fastforce
  note L1 = ledgers_sys_rv [OF o L]
  show ?thesis
    using o L L1 by (auto simp: base_spe_program_load_complete_def Let_def spe_context_update_event_def
        dest!: ledgers_sys_rv split: option.splits prod.splits)
qed


lemma load_spe_elf_ledgers:
  "base_spe_load_spe_elf p ls e = Some (rc, ent, e') \<Longrightarrow> ledgers e' = ledgers e"
  by (auto simp: base_spe_load_spe_elf_def check_spe_elf_def Let_def split: Option.bind_splits if_splits)

lemma program_load_ledgers:
  assumes "base_spe_program_load K pb ps junk c p cache e = Some (0, c', cache', e')"
    and "\<not> has_flag (flags c) SPE_ISOLATE" "\<not> has_flag (flags c) SPE_ISOLATE_EMULATE"
  shows "ledgers e' = ledgers e" "\<exists>w. c' = set_entries w (c\<lparr>loaded_program := Some p\<rparr>)"
  using assms by (auto simp: base_spe_program_load_def Let_def load_complete_ledgers load_spe_elf_ledgers
      split: Option.bind_splits if_splits)

lemma loaded_context_holds:
  assumes "c' = set_entries w (c\<lparr>loaded_program := p\<rparr>)"
  shows "context_fds c' = context_fds c" "context_maps c' = context_maps c" "context_heap c' = context_heap c"
    "flags c' = flags c"
  by (simp_all add: assms set_entries_def context_fds_def context_maps_def context_heap_def held_fds_def)

lemma created_flags:
  assumes "base_spe_context_create K pb ps junk fl gang None cache e = Some (Some c, cache', e1)"
  shows "flags c = context_flags fl"
  using assms context_areas_mapped
  by (fastforce simp: base_spe_context_create_def Let_def split: Option.bind_splits if_splits prod.splits)

text \<open>
  The start of a run: the three quadwords at \<open>params\<close> reach registers 3 to 5 of the program, which begins at its
  entry point.
\<close>

definition starts_at :: "memory \<Rightarrow> addr \<Rightarrow> u32 \<Rightarrow> u32 \<Rightarrow> (nat \<Rightarrow> u32 list option) \<Rightarrow> bool" where
  "starts_at m ls te ent rs \<longleftrightarrow> (\<forall>q. spu_pc q = unat te \<longrightarrow>
     (\<exists>q'. spu_steps m ls 8 q = Some q' \<and> spu_pc q' = unat (ent AND 0x3FFFC) \<and>
       (\<forall>i \<in> {0, 1, 2}. rs i = Some (spu_reg q' (3 + i)))))"

lemma user_start:
  assumes "\<not> has_flag (flags c) SPE_ISOLATE" "\<not> has_flag (flags c) SPE_ISOLATE_EMULATE"
    and "mapped (mem e) (mem_mmap_base c) LS_SIZE" "mapped (mem e) params 48"
  obtains m where
    "start_program c SPE_RUN_USER_REGS params NULL (first_entry c SPE_DEFAULT_ENTRY) e = Some (0, 0x3FFD0, e\<lparr>mem := m\<rparr>)"
    "same_outside (mem e) m {mem_mmap_base c + TRAMPOLINE_BASE..<mem_mmap_base c + LS_SIZE}"
    "starts_at m (mem_mmap_base c) 0x3FFD0 (entry c) (\<lambda>i. load_quad (mem e) (params + 16 * i))"
proof -
  obtain regs where r: "start_registers c SPE_RUN_USER_REGS params NULL (entry c) (mem e) = Some regs" "quads regs"
    using start_registers_mapped [OF assms(4)] by blast
  obtain m where s: "base_spe_setup_registers c regs e = Some (0, 0x3FFD0, e\<lparr>mem := m\<rparr>)"
    "same_outside (mem e) m {mem_mmap_base c + TRAMPOLINE_BASE..<mem_mmap_base c + LS_SIZE}"
    using setup_registers_memory [OF assms(3) r(2)] by blast
  have "has_flag (flags c) (SPE_ISOLATE OR SPE_ISOLATE_EMULATE) \<longleftrightarrow>
      has_flag (flags c) SPE_ISOLATE \<or> has_flag (flags c) SPE_ISOLATE_EMULATE"
    using has_flag_or [of SPE_ISOLATE SPE_ISOLATE_EMULATE "flags c"]
    by (simp add: has_flag_def and.commute)
  then have "start_program c SPE_RUN_USER_REGS params NULL (first_entry c SPE_DEFAULT_ENTRY) e =
      Some (0, 0x3FFD0, e\<lparr>mem := m\<rparr>)"
    using assms(1,2) r(1) s(1) by (simp add: start_program_def first_entry_def)
  moreover have "starts_at m (mem_mmap_base c) 0x3FFD0 (entry c) (\<lambda>i. load_quad (mem e) (params + 16 * i))"
    using setup_registers_ok [OF assms(3) r(2)] s(1) r(1)
    by (fastforce simp: starts_at_def start_registers_def has_flag_def split: Option.bind_splits)
  ultimately show thesis using that s(2) by blast
qed

text \<open>The run of a program that makes calls and exits, and the end of its context.\<close>

lemma run_and_destroy_ok:
  assumes "start_program c SPE_RUN_USER_REGS params NULL (first_entry c SPE_DEFAULT_ENTRY) e = Some (0, te, e1)"
    and "program_run K H initial_handlers c te e1 cs code npc e2"
    and "\<not> has_flag (flags c) SPE_ISOLATE" "\<not> has_flag (flags c) SPE_ISOLATE_EMULATE"
  shows "\<exists>e'. run_and_destroy K H junk info params (Some \<lparr>base = c, event_private = None\<rparr>) e = Some (uint code, e') \<and>
    (\<forall>F M H'. ledgers e2 = (F + context_fds c, M + context_maps c, H' + context_heap c) \<longrightarrow> ledgers e' = (F, M, H'))"
proof -
  let ?s = "\<lparr>run_c = c, run_entry = SPE_DEFAULT_ENTRY, run_tmp = te, run_status = junk, run_info = info,
    run_chain = [\<lparr>spe_id = fd_spe_dir c, info_npc = 0, info_status = 0\<rparr>], run_env = e1\<rparr>"
  obtain s1 where s1: "do_run K H initial_handlers SPE_RUN_USER_REGS ?s = Some (0, s1)"
    "stop_result (run_info s1) = uint code" "run_c s1 = c" "run_env s1 = e2"
    using program_run_ends [OF assms(2), of ?s SPE_RUN_USER_REGS] assms(3,4) by (auto simp: has_flag_def)
  obtain rc e' where d: "free_spe_context K c e2 = (rc, e')" by fastforce
  have "\<forall>F M H'. ledgers e2 = (F + context_fds c, M + context_maps c, H' + context_heap c) \<longrightarrow> ledgers e' = (F, M, H')"
    using free_spe_context_ledgers [of e2 _ c _ _ K] d by (metis snd_conv)
  with d s1 assms(1) show ?thesis
    by (auto simp: run_and_destroy_def spe_context_run_def context_run_unfold cleanupspeinfo_def freespeinfo_def
        spe_context_destroy_def base_spe_context_destroy_def spe_context_update_event_def split: prod.splits)
qed

lemma loaded_mapped:
  assumes "\<forall>ph \<in> A. load_bytes m' (b + unat (p_vaddr ph)) (unat (p_memsz ph)) = Some (f ph)"
    and "same_outside m m' (\<Union>ph \<in> A. seg_range b ph)" "mapped m a n"
  shows "mapped m' a n"
proof -
  have "m' x \<noteq> None" if x: "m x \<noteq> None" for x
  proof (cases "x \<in> (\<Union>ph \<in> A. seg_range b ph)")
    case True
    then obtain ph where ph: "ph \<in> A" "x \<in> seg_range b ph" by blast
    have "mapped m' (b + unat (p_vaddr ph)) (unat (p_memsz ph))"
      using assms(1) ph(1) load_bytes_mapped by blast
    then show ?thesis using ph(2) by (auto simp: mapped_def)
  next
    case False
    then show ?thesis using assms(2) x by (simp add: same_outside_def)
  qed
  then show ?thesis using assms(3) by (simp add: mapped_def)
qed

text \<open>
  C19: \<open>elfspe\<close> runs a program to its end. Once the context is created, a well formed image is loaded, whatever
  becomes of the file \<open>object-id\<close>, and the SPU starts in an environment \<open>e3\<close> in which its first instructions
  bring it to the entry point with the three quadwords at \<open>params\<close> in registers 3 to 5, and every segment
  below the register save area is in the local store. If the program, from there, makes library calls that
  the handlers serve and exits, the launcher returns its exit code; and if the calls kept no
  file, mapping or memory, everything the context held has been given back.
\<close>

theorem elfspe_returns_exit_code:
  assumes create: "spe_context_create K pb ps junkc 0 None None e = Some (Some s, cache, e1)"
    and image: "plain_image (mem e1) (elf_image handle) (mem_mmap_base (base s)) phs src shs"
      "e_entry (mem e1) (elf_image handle) = Some ent"
    and K: "file_calls_keep_memory K"
    and map: "mapped (mem e1) (mem_mmap_base (base s)) LS_SIZE" "mapped (mem e1) params 48"
    and apart: "{params..<params + 48} \<inter> {mem_mmap_base (base s)..<mem_mmap_base (base s) + LS_SIZE} = {}"
  shows "\<exists>e3. starts_at (mem e3) (mem_mmap_base (base s)) 0x3FFD0 ent (\<lambda>i. load_quad (mem e1) (params + 16 * i)) \<and>
    (\<forall>ph \<in> set (loadable phs). unat (p_vaddr ph) + unat (p_memsz ph) \<le> TRAMPOLINE_BASE \<longrightarrow>
       load_bytes (mem e3) (mem_mmap_base (base s) + unat (p_vaddr ph)) (unat (p_memsz ph)) = Some (segment_bytes ph (src ph))) \<and>
    (\<forall>H cs code npc e4. program_run K H initial_handlers
         ((base s)\<lparr>loaded_program := Some handle, entry := ent, emulated_entry := ent\<rparr>) 0x3FFD0 e3 cs code npc e4 \<longrightarrow>
       (\<exists>e'. launch K H pb ps junkc junk info params handle e = Some (uint code, e') \<and>
         (ledgers e4 = ledgers e3 \<longrightarrow> ledgers e' = ledgers e)))"
proof -
  obtain F M H' where L: "ledgers e = (F, M, H')" by (cases "ledgers e")
  obtain c where c: "base_spe_context_create K pb ps junkc 0 None None None e = Some (Some c, cache, e1)"
    and s: "s = \<lparr>base = c, event_private = None\<rparr>"
    using create by (auto simp: spe_context_create_def attach_events_def has_flag_def split: Option.bind_splits option.splits)
  let ?ls = "mem_mmap_base c" and ?c1 = "c\<lparr>loaded_program := Some handle\<rparr>"
  let ?c2 = "c\<lparr>loaded_program := Some handle, entry := ent, emulated_entry := ent\<rparr>"
  have fl: "\<not> has_flag (flags c) SPE_ISOLATE" "\<not> has_flag (flags c) SPE_ISOLATE_EMULATE"
    using created_flags [OF c] by (simp_all add: context_flags_def has_flag_def)
  have L1: "ledgers e1 = (F + context_fds c, M + context_maps c, H' + context_heap c)"
    using context_created(2) [OF c _ L] by (simp add: has_flag_def)
  obtain m where m: "base_spe_load_spe_elf handle ?ls e1 = Some (0, Some ent, e1\<lparr>mem := m\<rparr>)"
    and seg: "\<forall>ph \<in> set (loadable phs). load_bytes m (?ls + unat (p_vaddr ph)) (unat (p_memsz ph)) = Some (segment_bytes ph (src ph))"
    and so: "same_outside (mem e1) m (\<Union>ph \<in> set (loadable phs). seg_range ?ls ph)"
    using load_spe_elf_ok [OF image(1) map(1) image(2)] s by fastforce
  have mp: "mapped m ?ls LS_SIZE" "mapped m params 48" using loaded_mapped [OF seg so] map s by simp_all
  define e2 where "e2 = base_spe_program_load_complete K ?c1 (e1\<lparr>mem := m\<rparr>)"
  have e2: "mem e2 = m" "ledgers e2 = ledgers e1" by (simp_all add: e2_def load_complete_ledgers load_complete_mem [OF K])
  have load: "spe_program_load K pb ps junk (Some s) (Some handle) cache e1 =
      Some (0, Some \<lparr>base = ?c2, event_private = None\<rparr>, cache, e2)"
    using m fl by (simp add: spe_program_load_def base_spe_program_load_def set_entries_def Let_def s e2_def)
  obtain m3 where st: "start_program ?c2 SPE_RUN_USER_REGS params NULL (first_entry ?c2 SPE_DEFAULT_ENTRY) e2 =
      Some (0, 0x3FFD0, e2\<lparr>mem := m3\<rparr>)"
    and so3: "same_outside m m3 {?ls + TRAMPOLINE_BASE..<?ls + LS_SIZE}"
    and sa: "starts_at m3 ?ls 0x3FFD0 ent (\<lambda>i. load_quad m (params + 16 * i))"
    using user_start [of ?c2 e2 params] fl mp e2(1) by auto
  have low: "load_bytes m3 (?ls + unat (p_vaddr ph)) (unat (p_memsz ph)) = Some (segment_bytes ph (src ph))"
    if "ph \<in> set (loadable phs)" "unat (p_vaddr ph) + unat (p_memsz ph) \<le> TRAMPOLINE_BASE" for ph
    using seg that(1) load_bytes_cong [of "?ls + unat (p_vaddr ph)" "unat (p_memsz ph)" m3 m] so3 that(2)
    by (auto simp: same_outside_def)
  have "(\<Union>ph \<in> set (loadable phs). seg_range ?ls ph) \<subseteq> {?ls..<?ls + LS_SIZE}"
    using image(1) by (auto simp: plain_image_def seg_fits_def)
  with so have "same_outside (mem e1) m {?ls..<?ls + LS_SIZE}" by (rule same_outside_mono)
  moreover have "x \<notin> {?ls..<?ls + LS_SIZE}" if "params \<le> x" "x < params + 48" for x
    using apart that unfolding s by (auto simp only: disjoint_iff atLeastLessThan_iff spe_object.simps)
  ultimately have keep: "m x = mem e1 x" if "params \<le> x" "x < params + 48" for x
    using that by (simp add: same_outside_def)
  have quad: "load_quad m (params + 16 * i) = load_quad (mem e1) (params + 16 * i)" if "i \<in> {0, 1, 2}" for i
  proof -
    have "load32 m (params + 16 * i + k) = load32 (mem e1) (params + 16 * i + k)" if "k + 4 \<le> 16" for k
      using load_bytes_cong [of "params + 16 * i + k" 4 m "mem e1"] keep that \<open>i \<in> {0, 1, 2}\<close>
      by (auto simp: load32_def)
    from this [of 0] this [of 4] this [of 8] this [of 12] show ?thesis by (simp add: load_quad_def)
  qed
  let ?e3 = "e2\<lparr>mem := m3\<rparr>"
  have "\<exists>e'. launch K H pb ps junkc junk info params handle e = Some (uint code, e') \<and>
      (ledgers e4 = ledgers ?e3 \<longrightarrow> ledgers e' = ledgers e)"
    if pr: "program_run K H initial_handlers ?c2 0x3FFD0 ?e3 cs code npc e4" for H cs code npc e4
  proof -
    have holds: "context_fds ?c2 = context_fds c" "context_maps ?c2 = context_maps c" "context_heap ?c2 = context_heap c"
      by (simp_all add: context_fds_def context_maps_def context_heap_def held_fds_def)
    have fl2: "\<not> has_flag (flags ?c2) SPE_ISOLATE" "\<not> has_flag (flags ?c2) SPE_ISOLATE_EMULATE" using fl by simp_all
    have "ledgers ?e3 = ledgers e1" using e2(2) by (simp add: ledgers_def)
    moreover obtain e' where "run_and_destroy K H junk info params (Some \<lparr>base = ?c2, event_private = None\<rparr>) e2 = Some (uint code, e')"
      "\<forall>F M H'. ledgers e4 = (F + context_fds ?c2, M + context_maps ?c2, H' + context_heap ?c2) \<longrightarrow> ledgers e' = (F, M, H')"
      using run_and_destroy_ok [OF st pr fl2, of junk info] by blast
    ultimately show ?thesis using create load L L1 by (auto simp: launch_def holds)
  qed
  then show ?thesis using low sa quad s
    by (intro exI [of _ ?e3]) (simp add: starts_at_def)
qed

theorem elfspe_returns_exit_code_witness:
  "\<exists>e'. launch (behind_files exiting_kernel) (default_code 0 exiting_kernel (\<lambda>_ _ _ _. None)) 8 4096 blank_context 0
      \<lparr>stop_reason = None, stop_result = 0, spu_status = 0\<rparr> 4176 sample_handle
      (start_env sample_mem (initial_files 7 8 9, ())) = Some (7, e') \<and> ledgers e' = ({#}, {#}, {#})"
proof -
  let ?K = "behind_files exiting_kernel" and ?H = "default_code 0 exiting_kernel (\<lambda>_ _ _ _. None)"
  let ?e = "start_env sample_mem (initial_files 7 8 9, ())"
  obtain s e1 where c: "spe_context_create ?K 8 4096 blank_context 0 None None ?e = Some (Some s, None, e1)"
    "mem_mmap_base (base s) = 0x100000" "mem e1 = sample_mem" "flags (base s) = 0"
    by (simp add: spe_context_create_def attach_events_def base_spe_context_create_def create_dir_def create_areas_def
        create_signals_def mapfileat_def sys_rv_def sys_def sample_simps spu_create_def ptr_of_def start_env_def
        context_flags_def has_flag_def Let_def exiting_kernel_def)
  have image: "plain_image (mem e1) (elf_image sample_handle) (mem_mmap_base (base s)) [sample_phdr]
      (\<lambda>_. [0xDE, 0xAD, 0xBE, 0xEF]) [sample_shdr]" "e_entry (mem e1) (elf_image sample_handle) = Some 0x80"
    using sample_plain by (simp_all add: c sample_handle_def sample_fields)
  have K: "file_calls_keep_memory ?K"
    by (simp add: file_calls_keep_memory_def keeps_memory_def exiting_kernel_def)
  have map: "mapped (mem e1) (mem_mmap_base (base s)) LS_SIZE" "mapped (mem e1) 4176 48"
    by (simp_all add: c mapped_def sample_mem_def)
  have "{4176..<4176 + 48} \<inter> {mem_mmap_base (base s)..<mem_mmap_base (base s) + LS_SIZE} = {}" by (auto simp: c)
  from elfspe_returns_exit_code [OF c(1) image K map this]
  obtain e3 where e3: "\<And>H cs code npc e4. program_run ?K H initial_handlers
       ((base s)\<lparr>loaded_program := Some sample_handle, entry := 0x80, emulated_entry := 0x80\<rparr>) 0x3FFD0 e3 cs code npc e4 \<Longrightarrow>
     \<exists>e'. launch ?K H 8 4096 blank_context 0 \<lparr>stop_reason = None, stop_result = 0, spu_status = 0\<rparr> 4176 sample_handle ?e =
         Some (uint code, e') \<and> (ledgers e4 = ledgers e3 \<longrightarrow> ledgers e' = ledgers ?e)" by blast
  let ?c = "(base s)\<lparr>loaded_program := Some sample_handle, entry := 0x80, emulated_entry := 0x80\<rparr>"
  have c2: "mem_mmap_base ?c = 0x100000" "(0x3FFD0 :: u32) \<noteq> 0x84" "\<not> has_flag (flags ?c) SPE_ISOLATE_EMULATE"
    by (simp_all add: c has_flag_def)
  obtain e4 where "program_run ?K ?H initial_handlers ?c 0x3FFD0 e3 [(1, 0x80)] 7 0x300 e4" "ledgers e4 = ledgers e3"
    by (rule sample_program_run [OF c2, of e3]) (simp add: ledgers_def resource_simps that)
  with e3 have "\<exists>e'. launch ?K ?H 8 4096 blank_context 0 \<lparr>stop_reason = None, stop_result = 0, spu_status = 0\<rparr> 4176 sample_handle ?e =
         Some (uint (7 :: 8 word), e') \<and> ledgers e' = ledgers ?e" by blast
  then show ?thesis by (simp add: ledgers_def start_env_def open_fds_def live_maps_def live_heap_def)
qed

end
