(* ===== verification/Spu_Stats.thy ===== *)
theory Spu_Stats
  imports Spe_Threads
begin

unbundle bit_operations_syntax

text \<open>
  The data of the monitors \<open>spu-top\<close> and \<open>spu-ps\<close> (\<open>tools/spu-tools/src/\<close>: \<open>spu-tools.h\<close>, \<open>ctx-info.c\<close>, \<open>proc-info.c\<close>,
  \<open>spu-info.c\<close>, \<open>general-info.c\<close>): contexts, processes and SPUs, and the statistics on them. The files of
  \<open>/proc\<close>, \<open>/sys\<close> and spufs are a parameter: their words, as \<open>fscanf\<close> reads them. Floating point arithmetic is a
  parameter too.
\<close>

section \<open>Data\<close>

datatype time = TIME_USER | TIME_NICE | TIME_SYSTEM | TIME_IOWAIT | TIME_LOADED | TIME_TOTAL | TIME_IDLE

definition all_times :: "time list" where
  "all_times = [TIME_USER, TIME_NICE, TIME_SYSTEM, TIME_IOWAIT, TIME_LOADED, TIME_TOTAL, TIME_IDLE]"

fun time_index :: "time \<Rightarrow> nat" where
  "time_index TIME_USER = 0"
| "time_index TIME_NICE = 1"
| "time_index TIME_SYSTEM = 2"
| "time_index TIME_IOWAIT = 3"
| "time_index TIME_LOADED = 4"
| "time_index TIME_TOTAL = 5"
| "time_index TIME_IDLE = 6"

text \<open>
  What the code does with \<open>float\<close>: \<open>n * 100.0 / d\<close>, the comparison with 100, sums, and a difference that is
  converted to \<open>int\<close>.
\<close>

record 'f float_ops =
  percent_of :: "u64 \<Rightarrow> u64 \<Rightarrow> 'f"
  at_most_100 :: "'f \<Rightarrow> bool"
  f_100 :: 'f
  f_0 :: 'f
  f_add :: "'f \<Rightarrow> 'f \<Rightarrow> 'f"
  f_diff :: "'f \<Rightarrow> 'f \<Rightarrow> int"

definition PERCENT :: "'f float_ops \<Rightarrow> u64 \<Rightarrow> u64 \<Rightarrow> u64 \<Rightarrow> 'f" where
  "PERCENT F old_t new_t tot_t =
     (let ret = (if tot_t > 0 then percent_of F (new_t - old_t) tot_t else f_0 F)
      in if at_most_100 F ret then ret else f_100 F)"

text \<open>The counters the three structures have in common.\<close>

record counters =
  voluntary_ctx_switches :: u64
  involuntary_ctx_switches :: u64
  slb_misses :: u64
  hash_faults :: u64
  minor_page_faults :: u64
  major_page_faults :: u64
  class2_interrupts :: u64
  ppe_library :: u64

abbreviation (input) SPE_UNKNOWN :: int where "SPE_UNKNOWN \<equiv> -1"

record 'f ctx = counters +
  ctx_ppu_pid :: int
  ctx_thread_id :: int
  ctx_user :: "string option"
  ctx_status :: char
  ctx_flags :: char
  ctx_spe :: int
  ctx_binary_name :: "string option"
  ctx_time :: "time \<Rightarrow> u64"
  ctx_percent_spu :: 'f
  ctx_updated :: bool

record 'f spu = counters +
  spu_number :: int
  spu_letter :: char
  spu_time :: "time \<Rightarrow> u64"
  spu_last_time :: "time \<Rightarrow> u64"
  spu_percent :: "time \<Rightarrow> 'f"
  spu_ctx_thread_id :: int

record 'f proc = counters +
  proc_ppu_pid :: int
  proc_user :: "string option"
  proc_binary_name :: "string option"
  proc_time :: "time \<Rightarrow> u64"
  proc_percent_spu :: 'f
  proc_n_threads :: int

section \<open>Files\<close>

record file_system =
  fs_words :: "string \<Rightarrow> string list option"
  fs_exists :: "string \<Rightarrow> bool"
  fs_entries :: "string \<Rightarrow> string list option"
  fs_user_name :: "int \<Rightarrow> string option"

text \<open>Conversions of \<open>fscanf\<close> on a word; \<open>None\<close> is a matching failure.\<close>

definition scan_llu :: "string \<Rightarrow> u64 option" where
  "scan_llu w = (if w \<noteq> [] \<and> strtol_digit (hd w) < 10
     then Some (of_nat (min (2 ^ 64 - 1) (strtol_digits 10 0 w))) else None)"

definition scan_d :: "string \<Rightarrow> int option" where
  "scan_d w =
     (let neg = (w \<noteq> [] \<and> hd w = CHR ''-'');
          ds = (if neg then tl w else w);
          v = min (2 ^ 63 - 1) (int (strtol_digits 10 0 ds))
      in if ds \<noteq> [] \<and> strtol_digit (hd ds) < 10
         then Some (sint (word_of_int (if neg then - v else v) :: u32)) else None)"

definition scan_x :: "string \<Rightarrow> int option" where
  "scan_x w =
     (let ds = (case w of z # x # d # _ \<Rightarrow>
                  if z = CHR ''0'' \<and> (x = CHR ''x'' \<or> x = CHR ''X'') \<and> strtol_digit d < 16 then drop 2 w else w
                | _ \<Rightarrow> w)
      in if ds \<noteq> [] \<and> strtol_digit (hd ds) < 16
         then Some (sint (of_nat (strtol_digits 16 0 ds) :: u32)) else None)"

text \<open>A row of numbers is read up to the first failure; what is not read keeps its value.\<close>

fun scan_numbers :: "string list \<Rightarrow> u64 list" where
  "scan_numbers [] = []"
| "scan_numbers (w # ws) = (case scan_llu w of None \<Rightarrow> [] | Some n \<Rightarrow> n # scan_numbers ws)"

definition read_nth :: "u64 list \<Rightarrow> nat \<Rightarrow> u64 \<Rightarrow> u64" where
  "read_nth ns i old = (if i < length ns then ns ! i else old)"

text \<open>The last eight numbers of the two \<open>stat\<close> files.\<close>

definition read_counters :: "u64 list \<Rightarrow> 'z counters_scheme \<Rightarrow> 'z counters_scheme" where
  "read_counters ns c = c\<lparr>
     voluntary_ctx_switches := read_nth ns 4 (voluntary_ctx_switches c),
     involuntary_ctx_switches := read_nth ns 5 (involuntary_ctx_switches c),
     slb_misses := read_nth ns 6 (slb_misses c),
     hash_faults := read_nth ns 7 (hash_faults c),
     minor_page_faults := read_nth ns 8 (minor_page_faults c),
     major_page_faults := read_nth ns 9 (major_page_faults c),
     class2_interrupts := read_nth ns 10 (class2_interrupts c),
     ppe_library := read_nth ns 11 (ppe_library c)\<rparr>"

definition toupper :: "char \<Rightarrow> char" where
  "toupper c = (let n = of_char c in if 97 \<le> n \<and> n \<le> 122 then char_of (n - 32 :: nat) else c)"

section \<open>Contexts\<close>

definition alloc_ctx :: "'f float_ops \<Rightarrow> 'f ctx" where
  "alloc_ctx F = \<lparr>voluntary_ctx_switches = 0, involuntary_ctx_switches = 0, slb_misses = 0, hash_faults = 0,
     minor_page_faults = 0, major_page_faults = 0, class2_interrupts = 0, ppe_library = 0,
     ctx_ppu_pid = 0, ctx_thread_id = 0, ctx_user = None, ctx_status = CHR ''?'', ctx_flags = CHR 0x00, ctx_spe = 0,
     ctx_binary_name = None, ctx_time = (\<lambda>_. 0), ctx_percent_spu = f_0 F, ctx_updated = False\<rparr>"

fun find_thread_pid_in :: "file_system \<Rightarrow> int \<Rightarrow> string list \<Rightarrow> int" where
  "find_thread_pid_in fs tid [] = -1"
| "find_thread_pid_in fs tid (d # ds) =
     (if fs_exists fs (''/proc/'' @ d @ ''/task/'' @ dec_int tid)
      then (case scan_d d of None \<Rightarrow> -1 | Some n \<Rightarrow> n) else find_thread_pid_in fs tid ds)"

definition find_thread_pid :: "file_system \<Rightarrow> int \<Rightarrow> int" where
  "find_thread_pid fs tid =
     (case fs_entries fs ''/proc'' of None \<Rightarrow> -1 | Some ds \<Rightarrow> find_thread_pid_in fs tid ds)"

type_synonym name_cache = "(int \<times> string) list"

definition get_username :: "file_system \<Rightarrow> int \<Rightarrow> name_cache \<Rightarrow> string \<times> name_cache" where
  "get_username fs uid cache =
     (case map_of cache uid of
        Some n \<Rightarrow> (n, cache)
      | None \<Rightarrow>
          let n = (case fs_user_name fs uid of None \<Rightarrow> ''UNKNOWN'' | Some n \<Rightarrow> n)
          in (n, (uid, n) # cache))"

text \<open>\<open>/proc/<pid>/stat\<close>: the number and, in parentheses, the name; \<open>path\<close> is what \<open>buf\<close> holds before.\<close>

definition read_proc_stat :: "string \<Rightarrow> string list \<Rightarrow> 'f ctx \<Rightarrow> 'f ctx" where
  "read_proc_stat path ws c =
     (case ws of
        [] \<Rightarrow> c\<lparr>ctx_binary_name := Some (tl (butlast path))\<rparr>
      | w # ws1 \<Rightarrow>
          (case scan_d w of
             None \<Rightarrow> c\<lparr>ctx_binary_name := Some (tl (butlast path))\<rparr>
           | Some pid \<Rightarrow>
               c\<lparr>ctx_ppu_pid := pid,
                 ctx_binary_name := Some (tl (butlast (case ws1 of [] \<Rightarrow> path | n # _ \<Rightarrow> n)))\<rparr>))"

fun read_proc_status ::
  "file_system \<Rightarrow> int \<Rightarrow> string list \<Rightarrow> 'f ctx \<Rightarrow> name_cache \<Rightarrow> 'f ctx \<times> name_cache" where
  "read_proc_status fs junk [] c cache = (c, cache)"
| "read_proc_status fs junk (w # ws) c cache =
     (if take 4 w = ''Uid:'' then
        let uid = (case ws of [] \<Rightarrow> junk | u # _ \<Rightarrow> (case scan_d u of None \<Rightarrow> junk | Some n \<Rightarrow> n));
            (n, cache1) = get_username fs uid cache
        in (c\<lparr>ctx_user := Some n\<rparr>, cache1)
      else read_proc_status fs junk ws c cache)"

definition read_phys_id :: "file_system \<Rightarrow> string \<Rightarrow> 'f ctx \<Rightarrow> 'f ctx" where
  "read_phys_id fs dir c =
     (case fs_words fs (dir @ ''/phys-id'') of
        None \<Rightarrow> c\<lparr>ctx_spe := SPE_UNKNOWN\<rparr>
      | Some [] \<Rightarrow> c
      | Some (w # _) \<Rightarrow> (case scan_x w of None \<Rightarrow> c | Some n \<Rightarrow> c\<lparr>ctx_spe := n\<rparr>))"

text \<open>\<open>letter\<close>: the contents of \<open>buf\<close> if the file is empty.\<close>

definition read_ctx_stat ::
  "'f float_ops \<Rightarrow> char \<Rightarrow> u64 \<Rightarrow> string list option \<Rightarrow> 'f ctx \<Rightarrow> 'f ctx" where
  "read_ctx_stat F letter last_period file c =
     (case file of
        None \<Rightarrow> c\<lparr>ctx_status := CHR ''?''\<rparr>
      | Some ws \<Rightarrow>
          let last_time = ctx_time c TIME_TOTAL;
              ns = (case ws of [] \<Rightarrow> [] | _ # rest \<Rightarrow> scan_numbers rest);
              t = (ctx_time c)(TIME_USER := read_nth ns 0 (ctx_time c TIME_USER),
                               TIME_SYSTEM := read_nth ns 1 (ctx_time c TIME_SYSTEM),
                               TIME_IOWAIT := read_nth ns 2 (ctx_time c TIME_IOWAIT),
                               TIME_LOADED := read_nth ns 3 (ctx_time c TIME_LOADED));
              total_time = t TIME_USER + t TIME_SYSTEM + t TIME_IOWAIT
          in (read_counters ns c)\<lparr>
               ctx_status := toupper (case ws of [] \<Rightarrow> letter | w # _ \<Rightarrow> (if w = [] then letter else hd w)),
               ctx_time := t(TIME_TOTAL := total_time),
               ctx_percent_spu := PERCENT F last_time total_time last_period\<rparr>)"

definition read_capabilities :: "string list option \<Rightarrow> 'f ctx \<Rightarrow> 'f ctx" where
  "read_capabilities file c =
     c\<lparr>ctx_flags := (case file of None \<Rightarrow> CHR ''?''
                     | Some ws \<Rightarrow> if ''sched'' \<in> set ws then CHR '' '' else CHR ''I'')\<rparr>"

definition update_ctx ::
  "'f float_ops \<Rightarrow> file_system \<Rightarrow> int \<Rightarrow> char \<Rightarrow> u64 \<Rightarrow> string \<Rightarrow> 'f ctx \<Rightarrow> name_cache \<Rightarrow> 'f ctx \<times> name_cache"
where
  "update_ctx F fs junk letter last_period dir c cache =
     (let path = ''/proc/'' @ dec_int (ctx_ppu_pid c) @ ''/stat'' in
      case fs_words fs path of
        None \<Rightarrow> (c, cache)
      | Some ws \<Rightarrow>
          let c1 = read_proc_stat path ws c;
              (c2, cache1) = (case fs_words fs (''/proc/'' @ dec_int (ctx_ppu_pid c1) @ ''/status'') of
                 None \<Rightarrow> (c1, cache) | Some us \<Rightarrow> read_proc_status fs junk us c1 cache);
              c3 = read_phys_id fs dir c2;
              c4 = read_ctx_stat F letter last_period (fs_words fs (dir @ ''/stat'')) c3;
              c5 = read_capabilities (fs_words fs (dir @ ''/capabilities'')) c4
          in (c5\<lparr>ctx_updated := True\<rparr>, cache1))"

text \<open>The context with the thread id is updated, a new one is appended.\<close>

fun update_first ::
  "int \<Rightarrow> ('f ctx \<Rightarrow> name_cache \<Rightarrow> 'f ctx \<times> name_cache) \<Rightarrow> 'f ctx list \<Rightarrow> name_cache \<Rightarrow>
   'f ctx list \<times> name_cache"
where
  "update_first tid f [] cache = ([], cache)"
| "update_first tid f (c # cs) cache =
     (if ctx_thread_id c = tid then (case f c cache of (c1, cache1) \<Rightarrow> (c1 # cs, cache1))
      else (case update_first tid f cs cache of (cs1, cache1) \<Rightarrow> (c # cs1, cache1)))"

definition process_ctx_entry ::
  "'f float_ops \<Rightarrow> file_system \<Rightarrow> int \<Rightarrow> char \<Rightarrow> u64 \<Rightarrow> string \<Rightarrow> 'f ctx list \<times> name_cache \<Rightarrow>
   'f ctx list \<times> name_cache"
where
  "process_ctx_entry F fs junk letter last_period dir st =
     (case fs_words fs (dir @ ''/tid'') of
        None \<Rightarrow> st
      | Some ws \<Rightarrow>
          let tid = (case ws of [] \<Rightarrow> junk | w # _ \<Rightarrow> (case scan_d w of None \<Rightarrow> junk | Some n \<Rightarrow> n));
              cs = (if \<exists>c \<in> set (fst st). ctx_thread_id c = tid then fst st
                    else fst st @ [(alloc_ctx F)\<lparr>ctx_thread_id := tid, ctx_ppu_pid := find_thread_pid fs tid\<rparr>])
          in update_first tid (update_ctx F fs junk letter last_period dir) cs (snd st))"

text \<open>An entry of \<open>/spu\<close>: a context, or a directory (a gang) with contexts.\<close>

definition process_entry ::
  "'f float_ops \<Rightarrow> file_system \<Rightarrow> int \<Rightarrow> char \<Rightarrow> u64 \<Rightarrow> string \<Rightarrow> 'f ctx list \<times> name_cache \<Rightarrow>
   'f ctx list \<times> name_cache"
where
  "process_entry F fs junk letter last_period d st =
     (let dir = ''/spu/'' @ d in
      if fs_exists fs (dir @ ''/stat'') then process_ctx_entry F fs junk letter last_period dir st
      else (case fs_entries fs dir of
         None \<Rightarrow> st
       | Some gs \<Rightarrow>
           fold (\<lambda>g st. if fs_exists fs (dir @ ''/'' @ g @ ''/stat'')
             then process_ctx_entry F fs junk letter last_period (dir @ ''/'' @ g) st else st) gs st))"

definition ctxs_delete :: "nat \<Rightarrow> 'f ctx list \<Rightarrow> 'f ctx list" where
  "ctxs_delete i cs = take i cs @ drop (Suc i) cs"

text \<open>The loop that deletes what was not updated; the index is incremented after a deletion too.\<close>

function delete_stale :: "nat \<Rightarrow> 'f ctx list \<Rightarrow> 'f ctx list" where
  "delete_stale i cs =
     (if i < length cs then
        if \<not> ctx_updated (cs ! i) then delete_stale (Suc i) (ctxs_delete i cs) else delete_stale (Suc i) cs
      else cs)"
  by auto
termination
  by (relation "measure (\<lambda>(i, cs). length cs - i)") (auto simp: ctxs_delete_def)

declare delete_stale.simps [simp del]

text \<open>\<open>srt\<close> is \<open>qsort\<close> with \<open>ctxs_compare\<close>. The result is \<open>None\<close> if there is no spufs.\<close>

definition get_spu_contexts ::
  "'f float_ops \<Rightarrow> file_system \<Rightarrow> int \<Rightarrow> char \<Rightarrow> ('f ctx list \<Rightarrow> 'f ctx list) \<Rightarrow> u64 \<Rightarrow>
   'f ctx list \<times> name_cache \<Rightarrow> ('f ctx list \<times> name_cache) option"
where
  "get_spu_contexts F fs junk letter srt last_period st =
     (case fs_entries fs ''/spu'' of
        None \<Rightarrow> None
      | Some ds \<Rightarrow>
          let (cs, cache) = fold (process_entry F fs junk letter last_period) ds
                              (map (\<lambda>c. c\<lparr>ctx_updated := False\<rparr>) (fst st), snd st)
          in Some (srt (delete_stale 0 cs), cache))"

section \<open>Comparison\<close>

text \<open>A difference of two \<open>u64\<close> that becomes an \<open>int\<close>; \<open>strcmp\<close>.\<close>

definition u64_diff :: "u64 \<Rightarrow> u64 \<Rightarrow> int" where
  "u64_diff a b = sint (ucast (a - b) :: u32)"

fun strcmp :: "string \<Rightarrow> string \<Rightarrow> int" where
  "strcmp [] [] = 0"
| "strcmp [] (b # bs) = - 1"
| "strcmp (a # as) [] = 1"
| "strcmp (a # as) (b # bs) =
     (if a = b then strcmp as bs else if (of_char a :: nat) < of_char b then - 1 else 1)"

definition compare_names :: "string option \<Rightarrow> string option \<Rightarrow> int option" where
  "compare_names a b = do { x \<leftarrow> a; y \<leftarrow> b; Some (strcmp x y) }"

section \<open>Processes\<close>

definition add_counters :: "'z counters_scheme \<Rightarrow> 'y counters_scheme \<Rightarrow> 'y counters_scheme" where
  "add_counters c p = p\<lparr>
     voluntary_ctx_switches := voluntary_ctx_switches p + voluntary_ctx_switches c,
     involuntary_ctx_switches := involuntary_ctx_switches p + involuntary_ctx_switches c,
     slb_misses := slb_misses p + slb_misses c,
     hash_faults := hash_faults p + hash_faults c,
     minor_page_faults := minor_page_faults p + minor_page_faults c,
     major_page_faults := major_page_faults p + major_page_faults c,
     class2_interrupts := class2_interrupts p + class2_interrupts c,
     ppe_library := ppe_library p + ppe_library c\<rparr>"

definition new_proc :: "'f float_ops \<Rightarrow> 'f ctx \<Rightarrow> 'f proc" where
  "new_proc F c = \<lparr>voluntary_ctx_switches = 0, involuntary_ctx_switches = 0, slb_misses = 0, hash_faults = 0,
     minor_page_faults = 0, major_page_faults = 0, class2_interrupts = 0, ppe_library = 0,
     proc_ppu_pid = ctx_ppu_pid c, proc_user = ctx_user c, proc_binary_name = ctx_binary_name c,
     proc_time = (\<lambda>_. 0), proc_percent_spu = f_0 F, proc_n_threads = 0\<rparr>"

definition add_ctx :: "'f float_ops \<Rightarrow> 'f ctx \<Rightarrow> 'f proc \<Rightarrow> 'f proc" where
  "add_ctx F c p = (add_counters c p)\<lparr>
     proc_time := (\<lambda>t. proc_time p t + ctx_time c t),
     proc_percent_spu := f_add F (proc_percent_spu p) (ctx_percent_spu c),
     proc_n_threads := proc_n_threads p + 1\<rparr>"

text \<open>The inner loop, from the first context of the process on: it adds and marks the contexts of \<open>pid\<close>.\<close>

fun gather ::
  "'f float_ops \<Rightarrow> int \<Rightarrow> 'f ctx list \<Rightarrow> 'f proc \<Rightarrow> 'f proc \<times> 'f ctx list" where
  "gather F pid [] p = (p, [])"
| "gather F pid (c # cs) p =
     (if pid \<noteq> ctx_ppu_pid c then (case gather F pid cs p of (p1, cs1) \<Rightarrow> (p1, c # cs1))
      else (case gather F pid cs (add_ctx F c p) of (p1, cs1) \<Rightarrow> (p1, c\<lparr>ctx_updated := True\<rparr> # cs1)))"

lemma length_gather: "length (snd (gather F pid cs p)) = length cs"
  by (induction cs arbitrary: p) (auto simp: case_prod_beta)

function collect_procs :: "'f float_ops \<Rightarrow> 'f ctx list \<Rightarrow> 'f proc list" where
  "collect_procs F [] = []"
| "collect_procs F (c # cs) =
     (if ctx_updated c then collect_procs F cs
      else (case gather F (ctx_ppu_pid c) (c # cs) (new_proc F c) of
              (p, cs1) \<Rightarrow> p # collect_procs F (tl cs1)))"
  by pat_completeness auto
termination
  by (relation "measure (\<lambda>(F, cs). length cs)")
    (auto dest!: arg_cong [where f = "\<lambda>x. length (snd x)"] simp: length_gather simp del: gather.simps)

text \<open>
  The marks are cleared before the loop; those it leaves in the table of contexts are cleared by the next
  \<open>get_spu_contexts\<close> before anything reads them. \<open>srt\<close> is \<open>qsort\<close> with \<open>procs_compare\<close>.
\<close>

definition get_procs ::
  "'f float_ops \<Rightarrow> ('f proc list \<Rightarrow> 'f proc list) \<Rightarrow> 'f ctx list option \<Rightarrow> 'f proc list option" where
  "get_procs F srt ctxs =
     map_option (\<lambda>cs. srt (collect_procs F (map (\<lambda>c. c\<lparr>ctx_updated := False\<rparr>) cs))) ctxs"

section \<open>SPUs and CPUs\<close>

definition spu_update :: "'f float_ops \<Rightarrow> file_system \<Rightarrow> 'f spu \<Rightarrow> 'f spu" where
  "spu_update F fs s =
     (let path = ''/sys/devices/system/spu/spu'' @ dec_int (spu_number s) @ ''/stat'' in
      case fs_words fs path of
        None \<Rightarrow> s\<lparr>spu_letter := CHR ''?''\<rparr>
      | Some ws \<Rightarrow>
          let old = spu_time s;
              ns = (case ws of [] \<Rightarrow> [] | _ # rest \<Rightarrow> scan_numbers rest);
              t = old(TIME_USER := read_nth ns 0 (old TIME_USER), TIME_SYSTEM := read_nth ns 1 (old TIME_SYSTEM),
                      TIME_IOWAIT := read_nth ns 2 (old TIME_IOWAIT), TIME_IDLE := read_nth ns 3 (old TIME_IDLE));
              t1 = t(TIME_TOTAL := t TIME_USER + t TIME_SYSTEM + t TIME_IOWAIT);
              period = (t1 TIME_TOTAL - old TIME_TOTAL) + (t1 TIME_IDLE - old TIME_IDLE)
          in (read_counters ns s)\<lparr>
               spu_letter := toupper (hd ((case ws of [] \<Rightarrow> path | w # _ \<Rightarrow> w) @ path)),
               spu_last_time := old, spu_time := t1,
               spu_percent := (\<lambda>k. PERCENT F (old k) (t1 k) period)\<rparr>)"

definition new_spu :: "'f float_ops \<Rightarrow> int \<Rightarrow> 'f spu" where
  "new_spu F n = \<lparr>voluntary_ctx_switches = 0, involuntary_ctx_switches = 0, slb_misses = 0, hash_faults = 0,
     minor_page_faults = 0, major_page_faults = 0, class2_interrupts = 0, ppe_library = 0,
     spu_number = n, spu_letter = CHR 0x00, spu_time = (\<lambda>_. 0), spu_last_time = (\<lambda>_. 0),
     spu_percent = (\<lambda>_. f_0 F), spu_ctx_thread_id = 0\<rparr>"

definition count_prefixed :: "file_system \<Rightarrow> string \<Rightarrow> string \<Rightarrow> int" where
  "count_prefixed fs dir pre =
     (case fs_entries fs dir of None \<Rightarrow> 0
      | Some ds \<Rightarrow> int (length (filter (\<lambda>d. take 3 d = pre) ds)))"

definition count_cpus where "count_cpus fs = count_prefixed fs ''/sys/devices/system/cpu'' ''cpu''"
definition count_spus where "count_spus fs = count_prefixed fs ''/sys/devices/system/spu'' ''spu''"

text \<open>The numbers of the SPUs; an entry without a number fails the assertion.\<close>

fun spu_numbers :: "string list \<Rightarrow> int list option" where
  "spu_numbers [] = Some []"
| "spu_numbers (d # ds) =
     (if take 3 d = ''spu'' then do { n \<leftarrow> scan_d (drop 3 d); ns \<leftarrow> spu_numbers ds; Some (n # ns) }
      else spu_numbers ds)"

text \<open>The table is set up at the first call (\<open>None\<close>); without the directory it is empty, and not updated.\<close>

definition get_spus ::
  "'f float_ops \<Rightarrow> file_system \<Rightarrow> ('f spu list \<Rightarrow> 'f spu list) \<Rightarrow> 'f spu list option \<Rightarrow> 'f spu list option" where
  "get_spus F fs srt table = do {
     spus \<leftarrow> (case table of
        Some ss \<Rightarrow> Some ss
      | None \<Rightarrow>
          (case fs_entries fs ''/sys/devices/system/spu'' of
             None \<Rightarrow> Some []
           | Some ds \<Rightarrow> do { ns \<leftarrow> spu_numbers ds; Some (map (new_spu F) ns) }));
     Some (srt (map (spu_update F fs) spus)) }"

text \<open>\<open>percents\<close> is an array of the caller; a store behind it is undefined.\<close>

fun store_percents :: "(time \<Rightarrow> 'f) \<Rightarrow> time list \<Rightarrow> 'f list \<Rightarrow> 'f list option" where
  "store_percents v [] ps = Some ps"
| "store_percents v (t # ts) ps =
     (if time_index t < length ps then store_percents v ts (ps[time_index t := v t]) else None)"

text \<open>
  \<open>times\<close> and \<open>last_times\<close> are the static arrays. The result is the percents and the new value of both; failed
  assertions have no result.
\<close>

definition read_cpu_times :: "string list \<Rightarrow> (time \<Rightarrow> u64) \<Rightarrow> (time \<Rightarrow> u64) option" where
  "read_cpu_times ws now =
     (let ns = (case ws of [] \<Rightarrow> [] | w # rest \<Rightarrow> if w = ''cpu'' then take 8 (scan_numbers rest) else []) in
      if length ns < 7 then None
      else
        let system = ns ! 2 + (ns ! 5 + ns ! 6 + read_nth ns 7 0);
            t = now(TIME_USER := ns ! 0, TIME_NICE := ns ! 1, TIME_SYSTEM := system, TIME_IDLE := ns ! 3,
                      TIME_IOWAIT := ns ! 4)
        in Some (t(TIME_TOTAL := t TIME_USER + t TIME_NICE + t TIME_SYSTEM + t TIME_IDLE + t TIME_IOWAIT)))"

definition get_cpu_stats ::
  "'f float_ops \<Rightarrow> file_system \<Rightarrow> (time \<Rightarrow> u64) \<Rightarrow> (time \<Rightarrow> u64) \<Rightarrow> 'f list \<Rightarrow>
   ('f list \<times> (time \<Rightarrow> u64)) option"
where
  "get_cpu_stats F fs now last_times percents = do {
     ws \<leftarrow> fs_words fs ''/proc/stat'';
     t \<leftarrow> read_cpu_times ws now;
     if t TIME_TOTAL < last_times TIME_TOTAL then None
     else do {
       let period = t TIME_TOTAL - last_times TIME_TOTAL;
       ps \<leftarrow> store_percents (\<lambda>k. PERCENT F (last_times k) (t k) period) all_times percents;
       Some (ps, t) } }"

definition time_sum :: "'f spu list \<Rightarrow> time \<Rightarrow> u64" where
  "time_sum spus t = sum_list (map (\<lambda>s. spu_time s t - spu_last_time s t) spus)"

definition get_spu_stats :: "'f float_ops \<Rightarrow> 'f spu list option \<Rightarrow> 'f list \<Rightarrow> 'f list option" where
  "get_spu_stats F spus percents =
     (case spus of
        None \<Rightarrow> Some percents
      | Some ss \<Rightarrow>
          if ss = [] then Some percents
          else store_percents
            (\<lambda>k. PERCENT F 0 (time_sum ss k) (time_sum ss TIME_TOTAL + time_sum ss TIME_IDLE)) all_times percents)"

text \<open>The static arrays of \<open>print_cpu_info\<close> and \<open>print_spu_info\<close> in \<open>spu-top.c\<close>.\<close>

definition shown_percents :: "'f float_ops \<Rightarrow> 'f list" where
  "shown_percents F = replicate (time_index TIME_TOTAL) (f_0 F)"

text \<open>The first SPU with the number of the context's SPE gets the thread id.\<close>

fun set_tid :: "int \<Rightarrow> int \<Rightarrow> 'f spu list \<Rightarrow> 'f spu list" where
  "set_tid spe tid [] = []"
| "set_tid spe tid (s # ss) =
     (if spu_number s = spe then s\<lparr>spu_ctx_thread_id := tid\<rparr> # ss else s # set_tid spe tid ss)"

definition fill_spus_tids :: "'f spu list \<Rightarrow> 'f ctx list \<Rightarrow> 'f spu list" where
  "fill_spus_tids spus ctxs =
     fold (\<lambda>c ss. if ctx_spe c < 0 then ss else set_tid (ctx_spe c) (ctx_thread_id c) ss) ctxs
       (map (\<lambda>s. s\<lparr>spu_ctx_thread_id := 0\<rparr>) spus)"

section \<open>Processes are the contexts by process\<close>

definition own_ctxs :: "int \<Rightarrow> 'f ctx list \<Rightarrow> 'f ctx list" where
  "own_ctxs pid cs = filter (\<lambda>c. ctx_ppu_pid c = pid) cs"

lemma own_ctxs_simps [simp]: "own_ctxs pid [] = []"
  "own_ctxs pid (c # cs) = (if ctx_ppu_pid c = pid then c # own_ctxs pid cs else own_ctxs pid cs)"
  by (simp_all add: own_ctxs_def)

lemma gather_fold:
  "gather F pid cs p = (fold (add_ctx F) (own_ctxs pid cs) p,
     map (\<lambda>c. if ctx_ppu_pid c = pid then c\<lparr>ctx_updated := True\<rparr> else c) cs)"
  by (induction cs arbitrary: p) auto

text \<open>Marks do not matter to the sums.\<close>

definition proc_of :: "'f float_ops \<Rightarrow> 'f ctx list \<Rightarrow> int \<Rightarrow> 'f proc" where
  "proc_of F cs pid = fold (add_ctx F) (own_ctxs pid cs) (new_proc F (hd (own_ctxs pid cs)))"

lemma add_ctx_mark [simp]: "add_ctx F (c\<lparr>ctx_updated := b\<rparr>) = add_ctx F c" "new_proc F (c\<lparr>ctx_updated := b\<rparr>) = new_proc F c"
  by (simp_all add: fun_eq_iff add_ctx_def add_counters_def new_proc_def)

lemma own_ctxs_mark:
  assumes "\<And>c. ctx_ppu_pid (g c) = ctx_ppu_pid c" "\<And>c. \<exists>b. g c = c\<lparr>ctx_updated := b\<rparr>"
  shows "own_ctxs pid (map g cs) = map g (own_ctxs pid cs)"
    "fold (add_ctx F) (map g cs') p = fold (add_ctx F) cs' p" "new_proc F (g c) = new_proc F c"
    "add_ctx F (g c) = add_ctx F c"
proof -
  have a: "add_ctx F (g c) = add_ctx F c" "new_proc F (g c) = new_proc F c" for c
    using assms(2) [of c] by auto
  show "own_ctxs pid (map g cs) = map g (own_ctxs pid cs)" by (induction cs) (simp_all add: assms(1))
  show "fold (add_ctx F) (map g cs') p = fold (add_ctx F) cs' p" by (induction cs' arbitrary: p) (simp_all add: a)
  show "new_proc F (g c) = new_proc F c" "add_ctx F (g c) = add_ctx F c" by (rule a)+
qed

lemma proc_of_mark:
  assumes "\<And>c. ctx_ppu_pid (g c) = ctx_ppu_pid c" "\<And>c. \<exists>b. g c = c\<lparr>ctx_updated := b\<rparr>" "own_ctxs pid cs \<noteq> []"
  shows "proc_of F (map g cs) pid = proc_of F cs pid"
  using assms(3) own_ctxs_mark [of g, OF assms(1,2)] by (cases "own_ctxs pid cs") (simp_all add: proc_of_def)

fun first_pids :: "int set \<Rightarrow> 'f ctx list \<Rightarrow> int list" where
  "first_pids S [] = []"
| "first_pids S (c # cs) =
     (if ctx_ppu_pid c \<in> S then first_pids S cs else ctx_ppu_pid c # first_pids (insert (ctx_ppu_pid c) S) cs)"

lemma first_pids: "set (first_pids S cs) = ctx_ppu_pid ` set cs - S" "distinct (first_pids S cs)"
  by (induction cs arbitrary: S) auto

lemma first_pids_mark: "(\<And>c. ctx_ppu_pid (g c) = ctx_ppu_pid c) \<Longrightarrow> first_pids S (map g cs) = first_pids S cs"
  by (induction cs arbitrary: S) simp_all

lemma own_ctxs_empty: "own_ctxs pid cs = [] \<longleftrightarrow> pid \<notin> ctx_ppu_pid ` set cs"
  by (auto simp: own_ctxs_def filter_empty_conv)

lemma collect_procs_first:
  "\<forall>c \<in> set cs. ctx_updated c \<longleftrightarrow> ctx_ppu_pid c \<in> S \<Longrightarrow>
   collect_procs F cs = map (proc_of F cs) (first_pids S cs)"
proof (induction "length cs" arbitrary: cs S)
  case (Suc n)
  then obtain c cs' where cs: "cs = c # cs'" by (cases cs) auto
  let ?pid = "ctx_ppu_pid c"
  have tail: "proc_of F cs pid = proc_of F cs' pid" if "pid \<noteq> ?pid" for pid
    using that by (simp add: cs proc_of_def)
  show ?case
  proof (cases "ctx_updated c")
    case True
    then have S: "?pid \<in> S" using Suc.prems cs by simp
    then have "\<forall>pid \<in> set (first_pids S cs'). pid \<noteq> ?pid" using first_pids(1) [of S cs'] by auto
    then have "map (proc_of F cs) (first_pids S cs') = map (proc_of F cs') (first_pids S cs')" using tail by simp
    moreover have "collect_procs F cs' = map (proc_of F cs') (first_pids S cs')"
      using Suc.hyps(2) Suc.prems cs by (intro Suc.hyps(1)) simp_all
    ultimately show ?thesis using True S by (simp add: cs)
  next
    case False
    then have S: "?pid \<notin> S" using Suc.prems cs by simp
    let ?g = "\<lambda>d. if ctx_ppu_pid d = ?pid then d\<lparr>ctx_updated := True\<rparr> else d"
    let ?S = "insert ?pid S"
    have g: "ctx_ppu_pid (?g d) = ctx_ppu_pid d" "\<exists>b. ?g d = d\<lparr>ctx_updated := b\<rparr>" for d
      by (simp, cases "ctx_ppu_pid d = ?pid") (auto intro: exI [of _ "ctx_updated d"])
    have "collect_procs F cs = proc_of F cs ?pid # collect_procs F (map ?g cs')"
      using False by (simp add: cs gather_fold proc_of_def del: gather.simps)
    moreover have "collect_procs F (map ?g cs') = map (proc_of F (map ?g cs')) (first_pids ?S (map ?g cs'))"
      using Suc.hyps(2) Suc.prems cs by (intro Suc.hyps(1)) auto
    moreover have "first_pids ?S (map ?g cs') = first_pids ?S cs'" by (rule first_pids_mark) (rule g(1))
    moreover have "proc_of F (map ?g cs') pid = proc_of F cs pid" if "pid \<in> set (first_pids ?S cs')" for pid
      using that first_pids(1) [of ?S cs'] proc_of_mark [of ?g pid cs' F, OF g] tail [of pid]
      by (auto simp: own_ctxs_empty)
    ultimately show ?thesis using S by (simp add: cs)
  qed
qed simp

lemma fold_add_ctx:
  "proc_ppu_pid (fold (add_ctx F) cs p) = proc_ppu_pid p" "proc_user (fold (add_ctx F) cs p) = proc_user p"
  "proc_binary_name (fold (add_ctx F) cs p) = proc_binary_name p"
  "proc_n_threads (fold (add_ctx F) cs p) = proc_n_threads p + int (length cs)"
  "proc_time (fold (add_ctx F) cs p) t = proc_time p t + (\<Sum>c \<leftarrow> cs. ctx_time c t)"
  "voluntary_ctx_switches (fold (add_ctx F) cs p) = voluntary_ctx_switches p + (\<Sum>c \<leftarrow> cs. voluntary_ctx_switches c)"
  "involuntary_ctx_switches (fold (add_ctx F) cs p) = involuntary_ctx_switches p + (\<Sum>c \<leftarrow> cs. involuntary_ctx_switches c)"
  "slb_misses (fold (add_ctx F) cs p) = slb_misses p + (\<Sum>c \<leftarrow> cs. slb_misses c)"
  "hash_faults (fold (add_ctx F) cs p) = hash_faults p + (\<Sum>c \<leftarrow> cs. hash_faults c)"
  "minor_page_faults (fold (add_ctx F) cs p) = minor_page_faults p + (\<Sum>c \<leftarrow> cs. minor_page_faults c)"
  "major_page_faults (fold (add_ctx F) cs p) = major_page_faults p + (\<Sum>c \<leftarrow> cs. major_page_faults c)"
  "class2_interrupts (fold (add_ctx F) cs p) = class2_interrupts p + (\<Sum>c \<leftarrow> cs. class2_interrupts c)"
  "ppe_library (fold (add_ctx F) cs p) = ppe_library p + (\<Sum>c \<leftarrow> cs. ppe_library c)"
  "proc_percent_spu (fold (add_ctx F) cs p) = fold (\<lambda>c x. f_add F x (ctx_percent_spu c)) cs (proc_percent_spu p)"
  by (induction cs arbitrary: p) (simp_all add: add_ctx_def add_counters_def add.assoc)

text \<open>
  C31: \<open>get_procs\<close> makes one entry for every process that has contexts and no other, whatever the order of the
  contexts: it has the user and the program of the process's first context, the number of its
  contexts as threads, and each of its times and its eight counters is the sum over all contexts
  of the process, as is the SPU usage (added in the order of the contexts, in the arithmetic of the floats).
\<close>

theorem procs_consolidate:
  assumes "\<And>ps. mset (srt ps) = mset ps"
  shows "\<exists>ps. get_procs F srt (Some cs) = Some ps \<and> distinct (map proc_ppu_pid ps) \<and>
    proc_ppu_pid ` set ps = ctx_ppu_pid ` set cs \<and>
    (\<forall>p \<in> set ps. let own = filter (\<lambda>c. ctx_ppu_pid c = proc_ppu_pid p) cs in
      proc_n_threads p = int (length own) \<and> proc_user p = ctx_user (hd own) \<and>
      proc_binary_name p = ctx_binary_name (hd own) \<and>
      (\<forall>t. proc_time p t = (\<Sum>c \<leftarrow> own. ctx_time c t)) \<and>
      proc_percent_spu p = fold (\<lambda>c x. f_add F x (ctx_percent_spu c)) own (f_0 F) \<and>
      voluntary_ctx_switches p = (\<Sum>c \<leftarrow> own. voluntary_ctx_switches c) \<and>
      involuntary_ctx_switches p = (\<Sum>c \<leftarrow> own. involuntary_ctx_switches c) \<and>
      slb_misses p = (\<Sum>c \<leftarrow> own. slb_misses c) \<and>
      hash_faults p = (\<Sum>c \<leftarrow> own. hash_faults c) \<and>
      minor_page_faults p = (\<Sum>c \<leftarrow> own. minor_page_faults c) \<and>
      major_page_faults p = (\<Sum>c \<leftarrow> own. major_page_faults c) \<and>
      class2_interrupts p = (\<Sum>c \<leftarrow> own. class2_interrupts c) \<and>
      ppe_library p = (\<Sum>c \<leftarrow> own. ppe_library c))"
proof -
  let ?g = "\<lambda>c. c\<lparr>ctx_updated := False\<rparr>" and ?pids = "first_pids {} cs"
  let ?ps = "map (proc_of F cs) ?pids"
  have "collect_procs F (map ?g cs) = map (proc_of F (map ?g cs)) (first_pids {} (map ?g cs))"
    by (rule collect_procs_first) auto
  also have "first_pids {} (map ?g cs) = ?pids" by (rule first_pids_mark) simp
  also have "map (proc_of F (map ?g cs)) ?pids = ?ps"
    using first_pids(1) [of "{}" cs] by (auto intro!: proc_of_mark simp: own_ctxs_empty)
  finally have c: "collect_procs F (map ?g cs) = ?ps" .
  have pid: "proc_ppu_pid (proc_of F cs p) = p" if "p \<in> set ?pids" for p
  proof -
    have "own_ctxs p cs \<noteq> []" using that first_pids(1) [of "{}" cs] by (auto simp: own_ctxs_empty)
    then have "hd (own_ctxs p cs) \<in> set (own_ctxs p cs)" by simp
    then show ?thesis by (simp add: proc_of_def fold_add_ctx(1) new_proc_def own_ctxs_def)
  qed
  then have pids: "map proc_ppu_pid ?ps = ?pids" by (simp add: map_idI)
  have ms: "set (srt ?ps) = set ?ps" "mset (map proc_ppu_pid (srt ?ps)) = mset (map proc_ppu_pid ?ps)"
    by (rule mset_eq_setD [OF assms], simp only: mset_map assms)
  then have "distinct (map proc_ppu_pid (srt ?ps))" using pids first_pids(2) [of "{}" cs] by (metis mset_eq_imp_distinct_iff)
  moreover have "proc_ppu_pid ` set (srt ?ps) = ctx_ppu_pid ` set cs"
    using pids first_pids(1) [of "{}" cs] unfolding ms(1) by (metis Diff_empty list.set_map)
  moreover have "\<forall>p \<in> set (srt ?ps). let own = filter (\<lambda>c. ctx_ppu_pid c = proc_ppu_pid p) cs in
      proc_n_threads p = int (length own) \<and> proc_user p = ctx_user (hd own) \<and>
      proc_binary_name p = ctx_binary_name (hd own) \<and>
      (\<forall>t. proc_time p t = (\<Sum>c \<leftarrow> own. ctx_time c t)) \<and>
      proc_percent_spu p = fold (\<lambda>c x. f_add F x (ctx_percent_spu c)) own (f_0 F) \<and>
      voluntary_ctx_switches p = (\<Sum>c \<leftarrow> own. voluntary_ctx_switches c) \<and>
      involuntary_ctx_switches p = (\<Sum>c \<leftarrow> own. involuntary_ctx_switches c) \<and>
      slb_misses p = (\<Sum>c \<leftarrow> own. slb_misses c) \<and>
      hash_faults p = (\<Sum>c \<leftarrow> own. hash_faults c) \<and>
      minor_page_faults p = (\<Sum>c \<leftarrow> own. minor_page_faults c) \<and>
      major_page_faults p = (\<Sum>c \<leftarrow> own. major_page_faults c) \<and>
      class2_interrupts p = (\<Sum>c \<leftarrow> own. class2_interrupts c) \<and>
      ppe_library p = (\<Sum>c \<leftarrow> own. ppe_library c)"
    unfolding ms(1) using pid
    by (auto simp: Let_def proc_of_def fold_add_ctx new_proc_def own_ctxs_def)
  ultimately show ?thesis using c by (intro exI [of _ "srt ?ps"]) (simp add: get_procs_def)
qed

text \<open>Percentages as whole numbers, and four contexts.\<close>

definition whole_percents :: "int float_ops" where
  "whole_percents = \<lparr>percent_of = (\<lambda>n d. int (unat n * 100 div unat d)), at_most_100 = (\<lambda>x. x \<le> 100), f_100 = 100,
     f_0 = 0, f_add = (+), f_diff = (-)\<rparr>"

definition sample_spu_ctx :: "int \<Rightarrow> int \<Rightarrow> bool \<Rightarrow> int ctx" where
  "sample_spu_ctx pid tid upd = (alloc_ctx whole_percents)\<lparr>ctx_ppu_pid := pid, ctx_thread_id := tid, ctx_updated := upd,
     slb_misses := 3\<rparr>"

theorem procs_consolidate_witness:
  "\<exists>ps. get_procs whole_percents (\<lambda>ps. ps)
      (Some [sample_spu_ctx 5 50 True, sample_spu_ctx 6 60 True, sample_spu_ctx 5 51 True]) = Some ps \<and>
    distinct (map proc_ppu_pid ps) \<and> proc_ppu_pid ` set ps = {5, 6}"
proof -
  let ?cs = "[sample_spu_ctx 5 50 True, sample_spu_ctx 6 60 True, sample_spu_ctx 5 51 True]"
  have "ctx_ppu_pid ` set ?cs = {5, 6}" by (auto simp: sample_spu_ctx_def)
  then show ?thesis using procs_consolidate [of "\<lambda>ps. ps" whole_percents ?cs] by auto
qed

section \<open>Contexts that are gone\<close>

fun drop_stale :: "'f ctx list \<Rightarrow> 'f ctx list" where
  "drop_stale [] = []"
| "drop_stale [c] = (if ctx_updated c then [c] else [])"
| "drop_stale (c # d # ds) = (if ctx_updated c then c # drop_stale (d # ds) else d # drop_stale ds)"

lemma delete_stale_drop: "delete_stale (length xs) (xs @ cs) = xs @ drop_stale cs"
proof (induction cs arbitrary: xs rule: drop_stale.induct)
  case 1
  show ?case by (subst delete_stale.simps) simp
next
  case (2 c)
  show ?case
    by (subst delete_stale.simps, subst delete_stale.simps) (auto simp: ctxs_delete_def delete_stale.simps)
next
  case (3 c d ds)
  show ?case
  proof (cases "ctx_updated c")
    case True
    then show ?thesis using 3(1) [OF True, of "xs @ [c]"] by (subst delete_stale.simps) simp
  next
    case False
    then show ?thesis using 3(2) [OF False, of "xs @ [d]"] by (subst delete_stale.simps) (simp add: ctxs_delete_def)
  qed
qed

text \<open>
  the loop of \<open>get_spu_contexts\<close> that deletes the contexts that are gone does so exactly if no two of them
  are neighbours in the table; of two neighbours the second is kept and shown.
\<close>

theorem stale_contexts_deleted:
  fixes cs xs ys :: "'f ctx list" and c d :: "'f ctx"
  shows "(delete_stale 0 cs = filter ctx_updated cs \<longleftrightarrow> successively (\<lambda>c d. ctx_updated c \<or> ctx_updated d) cs) \<and>
   delete_stale 0 (filter ctx_updated xs @ c\<lparr>ctx_updated := False\<rparr> # d\<lparr>ctx_updated := False\<rparr> # ys) =
     filter ctx_updated xs @ d\<lparr>ctx_updated := False\<rparr> # drop_stale ys"
proof -
  have 1: "drop_stale cs = filter ctx_updated cs \<longleftrightarrow> successively (\<lambda>c d. ctx_updated c \<or> ctx_updated d) cs"
  proof (induction cs rule: drop_stale.induct)
    case (3 c d ds)
    have "d \<notin> set (filter ctx_updated ds)" if "\<not> ctx_updated d" using that by simp
    then have "filter ctx_updated ds \<noteq> d # drop_stale ds" if "\<not> ctx_updated d" using that by (metis list.set_intros(1))
    then show ?case using 3 by (cases ds) (auto simp: successively_Cons)
  qed simp_all
  have 2: "drop_stale (filter ctx_updated xs @ zs) = filter ctx_updated xs @ drop_stale zs" for zs :: "'f ctx list"
  proof (induction xs)
    case (Cons x xs)
    then show ?case by (cases "filter ctx_updated xs @ zs") (auto split: if_splits)
  qed simp
  have "delete_stale 0 zs = drop_stale zs" for zs :: "'f ctx list" using delete_stale_drop [of "[]" zs] by simp
  then show ?thesis using 1 by (simp add: 2)
qed

section \<open>The percentages on the screen\<close>

lemma store_percents_fits:
  "\<forall>t \<in> set ts. time_index t < length ps \<Longrightarrow> \<exists>qs. store_percents v ts ps = Some qs \<and> length qs = length ps"
proof (induction ts arbitrary: ps)
  case (Cons t ts)
  then show ?case using Cons.IH [of "ps[time_index t := v t]"] by simp
qed simp

text \<open>
  the arrays \<open>spu-top\<close> passes to \<open>get_cpu_stats\<close> and \<open>get_spu_stats\<close> have \<open>TIME_TOTAL\<close> elements; both store
  behind their end, whatever they read. Arrays of \<open>TIME_MAX\<close> elements would do.
\<close>

theorem shown_percents_overrun:
  "get_cpu_stats F fs now last_times (shown_percents F) = None \<and>
   get_spu_stats F (Some (s # ss)) (shown_percents F) = None \<and>
   (\<exists>qs. get_spu_stats F (Some (s # ss)) (replicate 7 (f_0 F)) = Some qs \<and> length qs = 7)"
proof -
  have "store_percents v all_times (shown_percents F) = None" for v
    by (simp add: all_times_def shown_percents_def)
  moreover have "\<exists>qs. store_percents v all_times (replicate 7 (f_0 F)) = Some qs \<and> length qs = 7" for v
    using store_percents_fits [of all_times "replicate 7 (f_0 F)" v] by (simp add: all_times_def)
  ultimately show ?thesis by (auto simp: get_cpu_stats_def get_spu_stats_def split: Option.bind_splits)
qed

section \<open>Usage of a context\<close>

lemma read_nth_again [simp]: "read_nth ns i (read_nth ns i x) = read_nth ns i x"
  by (simp add: read_nth_def)

text \<open>Reading the same numbers again: the time that has passed is 0.\<close>

lemma read_ctx_stat_again:
  assumes "ctx_time c1 = ctx_time (read_ctx_stat F l p (Some ws) c)"
  shows "ctx_percent_spu (read_ctx_stat F l p (Some ws) c1) = PERCENT F (ctx_time c1 TIME_TOTAL) (ctx_time c1 TIME_TOTAL) p"
  using assms by (simp add: read_ctx_stat_def Let_def)

lemma read_proc_status_keeps:
  "read_proc_status fs junk ws c cache = (c', cache') \<Longrightarrow> ctx_time c' = ctx_time c \<and> ctx_thread_id c' = ctx_thread_id c \<and>
     ctx_ppu_pid c' = ctx_ppu_pid c"
  by (induction ws) (auto simp: Let_def split: prod.splits if_splits)

lemma read_phys_id_keeps [simp]:
  "ctx_time (read_phys_id fs dir c) = ctx_time c" "ctx_thread_id (read_phys_id fs dir c) = ctx_thread_id c"
  "ctx_ppu_pid (read_phys_id fs dir c) = ctx_ppu_pid c"
  by (simp_all add: read_phys_id_def split: option.splits list.splits)

lemma read_ctx_stat_keeps [simp]:
  "ctx_thread_id (read_ctx_stat F l p opened c) = ctx_thread_id c" "ctx_ppu_pid (read_ctx_stat F l p opened c) = ctx_ppu_pid c"
  by (simp_all add: read_ctx_stat_def read_counters_def Let_def split: option.splits)

lemma update_ctx_result:
  assumes "fs_words fs (''/proc/'' @ dec_int (ctx_ppu_pid c) @ ''/stat'') = Some (w # ws)" "scan_d w = Some (ctx_ppu_pid c)"
    and stat: "fs_words fs (dir @ ''/stat'') = Some sw"
  shows "\<exists>c' cache' x. update_ctx F fs junk l p dir c cache = (c', cache') \<and> ctx_updated c' \<and>
    ctx_thread_id c' = ctx_thread_id c \<and> ctx_ppu_pid c' = ctx_ppu_pid c \<and> ctx_time x = ctx_time c \<and>
    ctx_time c' = ctx_time (read_ctx_stat F l p (Some sw) x) \<and>
    ctx_percent_spu c' = ctx_percent_spu (read_ctx_stat F l p (Some sw) x)"
proof -
  let ?path = "''/proc/'' @ dec_int (ctx_ppu_pid c) @ ''/stat''"
  let ?c1 = "read_proc_stat ?path (w # ws) c"
  obtain c2 cache2 where 2: "(case fs_words fs (''/proc/'' @ dec_int (ctx_ppu_pid ?c1) @ ''/status'') of
      None \<Rightarrow> (?c1, cache) | Some us \<Rightarrow> read_proc_status fs junk us ?c1 cache) = (c2, cache2)" by fastforce
  have 1: "ctx_time ?c1 = ctx_time c" "ctx_thread_id ?c1 = ctx_thread_id c" "ctx_ppu_pid ?c1 = ctx_ppu_pid c"
    using assms(2) by (simp_all add: read_proc_stat_def)
  have "ctx_time c2 = ctx_time ?c1 \<and> ctx_thread_id c2 = ctx_thread_id ?c1 \<and> ctx_ppu_pid c2 = ctx_ppu_pid ?c1"
  proof (cases "fs_words fs (''/proc/'' @ dec_int (ctx_ppu_pid ?c1) @ ''/status'')")
    case None
    then show ?thesis using 2 by simp
  next
    case (Some us)
    then have "read_proc_status fs junk us ?c1 cache = (c2, cache2)" using 2 by simp
    then show ?thesis by (rule read_proc_status_keeps)
  qed
  moreover let ?c' = "(read_capabilities (fs_words fs (dir @ ''/capabilities''))
      (read_ctx_stat F l p (Some sw) (read_phys_id fs dir c2)))\<lparr>ctx_updated := True\<rparr>"
  have "update_ctx F fs junk l p dir c cache = (?c', cache2)"
    by (simp only: update_ctx_def Let_def assms(1) option.case 2 prod.case stat)
  ultimately show ?thesis using 1
    by - (rule exI [of _ ?c'], rule exI [of _ cache2], rule exI [of _ "read_phys_id fs dir c2"],
      simp add: read_capabilities_def)
qed

lemma updated_kept: "c \<in> set cs \<Longrightarrow> ctx_updated c \<Longrightarrow> c \<in> set (drop_stale cs)"
  by (induction cs rule: drop_stale.induct) (auto split: if_splits)

text \<open>The files of one context in \<open>/spu/d\<close>, of the thread \<open>tid\<close> of the process \<open>pid\<close>.\<close>

definition ctx_files :: "file_system \<Rightarrow> string \<Rightarrow> int \<Rightarrow> int \<Rightarrow> bool" where
  "ctx_files fs dir tid pid \<longleftrightarrow>
     (\<exists>w ws. fs_words fs (dir @ ''/tid'') = Some (w # ws) \<and> scan_d w = Some tid) \<and>
     (\<exists>w ws. fs_words fs (''/proc/'' @ dec_int pid @ ''/stat'') = Some (w # ws) \<and> scan_d w = Some pid) \<and>
     fs_words fs (dir @ ''/stat'') \<noteq> None \<and> fs_exists fs (dir @ ''/stat'') \<and> find_thread_pid fs tid = pid"

text \<open>The directories with a file \<open>stat\<close> that a round visits for an entry of \<open>/spu\<close>, and the thread each reports.\<close>

definition visits_of :: "file_system \<Rightarrow> string \<Rightarrow> string list" where
  "visits_of fs d =
     (if fs_exists fs (''/spu/'' @ d @ ''/stat'') then [''/spu/'' @ d]
      else (case fs_entries fs (''/spu/'' @ d) of None \<Rightarrow> []
        | Some gs \<Rightarrow> map (\<lambda>g. ''/spu/'' @ d @ ''/'' @ g) (filter (\<lambda>g. fs_exists fs (''/spu/'' @ d @ ''/'' @ g @ ''/stat'')) gs)))"

definition visit_tid :: "file_system \<Rightarrow> int \<Rightarrow> string \<Rightarrow> int option" where
  "visit_tid fs junk dir =
     map_option (\<lambda>ws. case ws of [] \<Rightarrow> junk | w # _ \<Rightarrow> (case scan_d w of None \<Rightarrow> junk | Some n \<Rightarrow> n)) (fs_words fs (dir @ ''/tid''))"

lemma fold_filtered: "fold (\<lambda>g st. if P g then f (h g) st else st) gs st = fold f (map h (filter P gs)) st"
  by (induction gs arbitrary: st) simp_all

lemma process_entry_visits:
  "process_entry F fs junk l p d st = fold (process_ctx_entry F fs junk l p) (visits_of fs d) st"
proof (cases "fs_entries fs (''/spu/'' @ d)")
  case (Some gs)
  then show ?thesis
    using fold_filtered [of "\<lambda>g. fs_exists fs (''/spu/'' @ d @ ''/'' @ g @ ''/stat'')" "process_ctx_entry F fs junk l p"
        "\<lambda>g. ''/spu/'' @ d @ ''/'' @ g" gs st]
    by (simp add: process_entry_def visits_of_def cong: if_cong)
qed (simp add: process_entry_def visits_of_def)

lemma entries_visits:
  "fold (process_entry F fs junk l p) es st = fold (process_ctx_entry F fs junk l p) (concat (map (visits_of fs) es)) st"
  by (induction es arbitrary: st) (simp_all add: process_entry_visits)

text \<open>A visit and the first context of a thread in the table.\<close>

definition ctx_of :: "int \<Rightarrow> 'f ctx list \<Rightarrow> 'f ctx option" where
  "ctx_of tid cs = find (\<lambda>c. ctx_thread_id c = tid) cs"

lemma ctx_of_simps [simp]:
  "ctx_of tid [] = None"
  "ctx_of tid (c # cs) = (if ctx_thread_id c = tid then Some c else ctx_of tid cs)"
  by (simp_all add: ctx_of_def)

lemma ctx_of_append: "ctx_of tid (cs @ ds) = (case ctx_of tid cs of None \<Rightarrow> ctx_of tid ds | Some c \<Rightarrow> Some c)"
  by (induction cs) simp_all

lemma ctx_of_None: "ctx_of tid cs = None \<longleftrightarrow> (\<forall>c \<in> set cs. ctx_thread_id c \<noteq> tid)"
  by (auto simp: ctx_of_def find_None_iff)

lemma ctx_of_Some: "ctx_of tid cs = Some c \<Longrightarrow> c \<in> set cs \<and> ctx_thread_id c = tid"
  by (auto simp: ctx_of_def find_Some_iff)

lemma update_ctx_keeps_tid [simp]: "ctx_thread_id (fst (update_ctx F fs junk l p dir c cache)) = ctx_thread_id c"
proof -
  have "ctx_thread_id (read_proc_stat path ws c) = ctx_thread_id c" for path ws by (simp add: read_proc_stat_def split: list.split option.split)
  then show ?thesis
    by (auto simp: update_ctx_def Let_def read_capabilities_def split: option.split prod.split dest!: read_proc_status_keeps)
qed

lemma update_first_ctx_of:
  assumes "\<And>c cache. ctx_thread_id (fst (f c cache)) = ctx_thread_id c"
  shows "ctx_of tid (fst (update_first t f cs cache)) =
    (if t = tid then map_option (\<lambda>c. fst (f c cache)) (ctx_of tid cs) else ctx_of tid cs)"
  by (induction cs) (auto simp: assms case_prod_beta)

lemma visit_ctx_of:
  "ctx_of tid (fst (process_ctx_entry F fs junk l p dir st)) =
     (if visit_tid fs junk dir = Some tid then
        Some (fst (update_ctx F fs junk l p dir (case ctx_of tid (fst st) of Some c \<Rightarrow> c
          | None \<Rightarrow> (alloc_ctx F)\<lparr>ctx_thread_id := tid, ctx_ppu_pid := find_thread_pid fs tid\<rparr>) (snd st)))
      else ctx_of tid (fst st))"
proof (cases "fs_words fs (dir @ ''/tid'')")
  case None
  then show ?thesis by (simp add: process_ctx_entry_def visit_tid_def)
next
  case (Some ws)
  define t where "t = (case ws of [] \<Rightarrow> junk | w # _ \<Rightarrow> (case scan_d w of None \<Rightarrow> junk | Some n \<Rightarrow> n))"
  define cs where "cs = (if \<exists>c \<in> set (fst st). ctx_thread_id c = t then fst st
    else fst st @ [(alloc_ctx F)\<lparr>ctx_thread_id := t, ctx_ppu_pid := find_thread_pid fs t\<rparr>])"
  have 1: "process_ctx_entry F fs junk l p dir st = update_first t (update_ctx F fs junk l p dir) cs (snd st)"
    using Some by (simp add: process_ctx_entry_def Let_def t_def cs_def)
  have 2: "visit_tid fs junk dir = Some t" using Some by (simp add: visit_tid_def t_def)
  have "ctx_of tid cs = ctx_of tid (fst st)" if "t \<noteq> tid"
    using that by (simp add: cs_def ctx_of_append split: option.split)
  moreover have "ctx_of t cs = Some (case ctx_of t (fst st) of Some c \<Rightarrow> c
      | None \<Rightarrow> (alloc_ctx F)\<lparr>ctx_thread_id := t, ctx_ppu_pid := find_thread_pid fs t\<rparr>)"
    using ctx_of_None [of t "fst st"] by (auto simp: cs_def ctx_of_append split: option.split)
  ultimately show ?thesis unfolding 1 2 by (auto simp: update_first_ctx_of)
qed

text \<open>
  What is known of the context of a thread after \<open>k\<close> visits in a round: its times are those of the file once it has been
  visited; at the second visit no time has passed, and the usage is that of no time.
\<close>

definition seen :: "'f float_ops \<Rightarrow> char \<Rightarrow> u64 \<Rightarrow> string list \<Rightarrow> int \<Rightarrow> nat \<Rightarrow> 'f ctx option \<Rightarrow> bool" where
  "seen F l p sw pid k found =
     (case found of None \<Rightarrow> k = 0
      | Some c \<Rightarrow> ctx_ppu_pid c = pid \<and>
          (0 < k \<longrightarrow> ctx_updated c \<and> (\<exists>x. ctx_time c = ctx_time (read_ctx_stat F l p (Some sw) x))) \<and>
          (1 < k \<longrightarrow> (\<exists>T. ctx_percent_spu c = PERCENT F T T p)))"

lemma seen_visit:
  assumes dir: "ctx_files fs dir tid pid" "\<And>f. fs_words fs (v @ f) = fs_words fs (dir @ f)"
    and sw: "fs_words fs (dir @ ''/stat'') = Some sw"
    and own: "visit_tid fs junk v = Some tid" and k: "seen F l p sw pid k (ctx_of tid (fst st))"
  shows "seen F l p sw pid (Suc k) (ctx_of tid (fst (process_ctx_entry F fs junk l p v st)))"
proof -
  define c where "c = (case ctx_of tid (fst st) of Some c \<Rightarrow> c
    | None \<Rightarrow> (alloc_ctx F)\<lparr>ctx_thread_id := tid, ctx_ppu_pid := find_thread_pid fs tid\<rparr>)"
  obtain w ws where w: "fs_words fs (''/proc/'' @ dec_int pid @ ''/stat'') = Some (w # ws)" "scan_d w = Some pid"
    using dir(1) by (auto simp: ctx_files_def)
  have pid: "ctx_ppu_pid c = pid" using k dir(1) by (simp add: c_def seen_def ctx_files_def split: option.splits)
  obtain c' cache' x where u: "update_ctx F fs junk l p v c (snd st) = (c', cache')" "ctx_updated c'" "ctx_ppu_pid c' = ctx_ppu_pid c"
    "ctx_time x = ctx_time c" "ctx_time c' = ctx_time (read_ctx_stat F l p (Some sw) x)"
    "ctx_percent_spu c' = ctx_percent_spu (read_ctx_stat F l p (Some sw) x)"
    using update_ctx_result [of fs c w ws v sw F junk l p "snd st"] w sw dir(2) [of "''/stat''"] unfolding pid by auto
  have "\<exists>T. ctx_percent_spu c' = PERCENT F T T p" if k0: "0 < k"
  proof -
    obtain y where "ctx_time c = ctx_time (read_ctx_stat F l p (Some sw) y)"
      using k k0 by (auto simp: c_def seen_def split: option.splits)
    then show ?thesis using read_ctx_stat_again [of x F l p sw y] u(4,6) by auto
  qed
  then show ?thesis using u(2,3,5) pid by (auto simp: visit_ctx_of own u(1) seen_def c_def [symmetric])
qed

lemma seen_visits:
  assumes dir: "ctx_files fs dir tid pid" and sw: "fs_words fs (dir @ ''/stat'') = Some sw"
    and own: "\<And>v f. v \<in> set vs \<Longrightarrow> visit_tid fs junk v = Some tid \<Longrightarrow> fs_words fs (v @ f) = fs_words fs (dir @ f)"
    and k: "seen F l p sw pid k (ctx_of tid (fst st))"
  shows "seen F l p sw pid (k + length (filter (\<lambda>v. visit_tid fs junk v = Some tid) vs))
    (ctx_of tid (fst (fold (process_ctx_entry F fs junk l p) vs st)))"
  using own k
proof (induction vs arbitrary: k st)
  case (Cons v vs)
  let ?st = "process_ctx_entry F fs junk l p v st"
  show ?case
  proof (cases "visit_tid fs junk v = Some tid")
    case True
    then have "seen F l p sw pid (Suc k) (ctx_of tid (fst ?st))"
      using seen_visit [OF dir _ sw True Cons.prems(2)] Cons.prems(1) by simp
    then show ?thesis using Cons.IH [of "Suc k" ?st] Cons.prems(1) True by simp
  next
    case False
    then have "seen F l p sw pid k (ctx_of tid (fst ?st))" using Cons.prems(2) by (simp add: visit_ctx_of)
    then show ?thesis using Cons.IH [of k ?st] Cons.prems(1) False by simp
  qed
qed simp

text \<open>
  A spufs with the context \<open>d\<close> of the thread \<open>tid\<close>, and any others, in gangs or not: \<open>readdir\<close> reports \<open>.\<close> too, which is
  another name of \<open>/spu\<close>, and the thread is reported in no other directory than that of \<open>d\<close>.
\<close>

definition spufs_with :: "file_system \<Rightarrow> int \<Rightarrow> string list \<Rightarrow> string \<Rightarrow> int \<Rightarrow> bool" where
  "spufs_with fs junk es d tid \<longleftrightarrow> fs_entries fs ''/spu'' = Some es \<and> ''.'' \<in> set es \<and> d \<in> set es \<and>
     fs_entries fs ''/spu/.'' = Some es \<and> \<not> fs_exists fs ''/spu/./stat'' \<and>
     fs_exists fs (''/spu/./'' @ d @ ''/stat'') = fs_exists fs (''/spu/'' @ d @ ''/stat'') \<and>
     (\<forall>f. fs_words fs (''/spu/./'' @ d @ f) = fs_words fs (''/spu/'' @ d @ f)) \<and>
     (\<forall>v \<in> set (concat (map (visits_of fs) es)). visit_tid fs junk v = Some tid \<longrightarrow> v \<in> {''/spu/'' @ d, ''/spu/./'' @ d})"


text \<open>Two contexts, one of them in a gang.\<close>

definition sample_files :: file_system where
  "sample_files = \<lparr>
     fs_words = (\<lambda>f.
       if f = ''/spu/c/tid'' \<or> f = ''/spu/./c/tid'' then Some [''50'']
       else if f = ''/spu/c/stat'' \<or> f = ''/spu/./c/stat'' then Some [''user'', ''100'', ''20'', ''3'', ''200'']
       else if f = ''/spu/gang/g/tid'' then Some [''51'']
       else if f = ''/spu/gang/g/stat'' then Some [''user'', ''10'', ''2'', ''3'', ''20'']
       else if f = ''/proc/5/stat'' then Some [''5'', ''(prog)''] else None),
     fs_exists = (\<lambda>f. f = ''/spu/c/stat'' \<or> f = ''/spu/./c/stat'' \<or> f = ''/spu/gang/g/stat'' \<or>
       f = ''/proc/5/task/50'' \<or> f = ''/proc/5/task/51''),
     fs_entries = (\<lambda>f. if f = ''/spu'' \<or> f = ''/spu/.'' then Some [''.'', ''..'', ''gang'', ''c'']
       else if f = ''/spu/gang'' then Some [''.'', ''..'', ''g'']
       else if f = ''/proc'' then Some [''5''] else None),
     fs_user_name = Map.empty\<rparr>"

lemma sample_numbers: "dec_int 5 = ''5''" "dec_int 50 = ''50''" "scan_d ''5'' = Some 5" "scan_d ''50'' = Some 50"
  "scan_d ''51'' = Some 51"
  by (simp_all add: dec_int_def dec_def digits.simps digit_char_def scan_d_def strtol_digit_def Let_def)


end
