(* ===== verification/Spu_Fields.thy ===== *)
theory Spu_Fields
  imports Spu_Stats
begin

unbundle bit_operations_syntax

text \<open>
  The columns of \<open>spu-top\<close> and \<open>spu-ps\<close>: the tables of fields, what is printed for a field and how rows compare
  (\<open>ctx-info.c\<close>, \<open>spu-info.c\<close>, \<open>proc-info.c\<close>), the choice and order of the columns by the options of \<open>spu-ps.c\<close>
  and by the keys of \<open>spu-top.c\<close>. Only the calls of \<open>printf\<close> and curses themselves are left out.
\<close>

section \<open>Tables\<close>

record field =
  fl_id :: nat
  fl_name :: string
  name_format :: string
  val_format :: string
  description :: string
  do_show :: bool
  id_string :: "string option"

definition new_field :: "nat \<Rightarrow> string \<Rightarrow> string \<Rightarrow> string \<Rightarrow> string \<Rightarrow> bool \<Rightarrow> string option \<Rightarrow> field" where
  "new_field i n nf vf d sh ids = \<lparr>fl_id = i, fl_name = n, name_format = nf, val_format = vf, description = d,
     do_show = sh, id_string = ids\<rparr>"

text \<open>The ids are letters. The elements with the id 0 that end the tables are left out.\<close>

abbreviation (input) CTX_PPU_PID :: nat where "CTX_PPU_PID \<equiv> 97"
abbreviation (input) CTX_THREAD_ID :: nat where "CTX_THREAD_ID \<equiv> 98"
abbreviation (input) CTX_USER :: nat where "CTX_USER \<equiv> 99"
abbreviation (input) CTX_STATUS :: nat where "CTX_STATUS \<equiv> 100"
abbreviation (input) CTX_FLAGS :: nat where "CTX_FLAGS \<equiv> 101"
abbreviation (input) CTX_PERCENT_SPU :: nat where "CTX_PERCENT_SPU \<equiv> 102"
abbreviation (input) CTX_SPE :: nat where "CTX_SPE \<equiv> 103"
abbreviation (input) CTX_TOTAL_TIME :: nat where "CTX_TOTAL_TIME \<equiv> 104"
abbreviation (input) CTX_USER_TIME :: nat where "CTX_USER_TIME \<equiv> 105"
abbreviation (input) CTX_SYSTEM_TIME :: nat where "CTX_SYSTEM_TIME \<equiv> 106"
abbreviation (input) CTX_LOADED_TIME :: nat where "CTX_LOADED_TIME \<equiv> 107"
abbreviation (input) CTX_VOLUNTARY_CTX_SWITCHES :: nat where "CTX_VOLUNTARY_CTX_SWITCHES \<equiv> 108"
abbreviation (input) CTX_INVOLUNTARY_CTX_SWITCHES :: nat where "CTX_INVOLUNTARY_CTX_SWITCHES \<equiv> 109"
abbreviation (input) CTX_SLB_MISSES :: nat where "CTX_SLB_MISSES \<equiv> 110"
abbreviation (input) CTX_HASH_FAULTS :: nat where "CTX_HASH_FAULTS \<equiv> 111"
abbreviation (input) CTX_MINOR_PAGE_FAULTS :: nat where "CTX_MINOR_PAGE_FAULTS \<equiv> 112"
abbreviation (input) CTX_MAJOR_PAGE_FAULTS :: nat where "CTX_MAJOR_PAGE_FAULTS \<equiv> 113"
abbreviation (input) CTX_CLASS2_INTERRUPTS :: nat where "CTX_CLASS2_INTERRUPTS \<equiv> 114"
abbreviation (input) CTX_PPE_LIBRARY :: nat where "CTX_PPE_LIBRARY \<equiv> 115"
abbreviation (input) CTX_BINARY_NAME :: nat where "CTX_BINARY_NAME \<equiv> 116"
abbreviation (input) CTX_MAX_FIELD :: nat where "CTX_MAX_FIELD \<equiv> 117"

abbreviation (input) SPU_NUMBER :: nat where "SPU_NUMBER \<equiv> 97"
abbreviation (input) SPU_STATE :: nat where "SPU_STATE \<equiv> 98"
abbreviation (input) SPU_PERCENT_SPU :: nat where "SPU_PERCENT_SPU \<equiv> 99"
abbreviation (input) SPU_PERCENT_USER :: nat where "SPU_PERCENT_USER \<equiv> 100"
abbreviation (input) SPU_PERCENT_SYSTEM :: nat where "SPU_PERCENT_SYSTEM \<equiv> 101"
abbreviation (input) SPU_PERCENT_IOWAIT :: nat where "SPU_PERCENT_IOWAIT \<equiv> 102"
abbreviation (input) SPU_VOLUNTARY_CTX_SWITCHES :: nat where "SPU_VOLUNTARY_CTX_SWITCHES \<equiv> 103"
abbreviation (input) SPU_INVOLUNTARY_CTX_SWITCHES :: nat where "SPU_INVOLUNTARY_CTX_SWITCHES \<equiv> 104"
abbreviation (input) SPU_SLB_MISSES :: nat where "SPU_SLB_MISSES \<equiv> 105"
abbreviation (input) SPU_HASH_FAULTS :: nat where "SPU_HASH_FAULTS \<equiv> 106"
abbreviation (input) SPU_MINOR_PAGE_FAULTS :: nat where "SPU_MINOR_PAGE_FAULTS \<equiv> 107"
abbreviation (input) SPU_MAJOR_PAGE_FAULTS :: nat where "SPU_MAJOR_PAGE_FAULTS \<equiv> 108"
abbreviation (input) SPU_CLASS2_INTERRUPTS :: nat where "SPU_CLASS2_INTERRUPTS \<equiv> 109"
abbreviation (input) SPU_PPE_LIBRARY :: nat where "SPU_PPE_LIBRARY \<equiv> 110"
abbreviation (input) SPU_CTX_THREAD_ID :: nat where "SPU_CTX_THREAD_ID \<equiv> 111"
abbreviation (input) SPU_MAX_FIELD :: nat where "SPU_MAX_FIELD \<equiv> 112"

abbreviation (input) PROC_PPU_PID :: nat where "PROC_PPU_PID \<equiv> 97"
abbreviation (input) PROC_N_THREADS :: nat where "PROC_N_THREADS \<equiv> 98"
abbreviation (input) PROC_USER :: nat where "PROC_USER \<equiv> 99"
abbreviation (input) PROC_PERCENT_SPU :: nat where "PROC_PERCENT_SPU \<equiv> 100"
abbreviation (input) PROC_TOTAL_TIME :: nat where "PROC_TOTAL_TIME \<equiv> 101"
abbreviation (input) PROC_USER_TIME :: nat where "PROC_USER_TIME \<equiv> 102"
abbreviation (input) PROC_SYSTEM_TIME :: nat where "PROC_SYSTEM_TIME \<equiv> 103"
abbreviation (input) PROC_IOWAIT_TIME :: nat where "PROC_IOWAIT_TIME \<equiv> 104"
abbreviation (input) PROC_LOADED_TIME :: nat where "PROC_LOADED_TIME \<equiv> 105"
abbreviation (input) PROC_VOLUNTARY_CTX_SWITCHES :: nat where "PROC_VOLUNTARY_CTX_SWITCHES \<equiv> 106"
abbreviation (input) PROC_INVOLUNTARY_CTX_SWITCHES :: nat where "PROC_INVOLUNTARY_CTX_SWITCHES \<equiv> 107"
abbreviation (input) PROC_SLB_MISSES :: nat where "PROC_SLB_MISSES \<equiv> 108"
abbreviation (input) PROC_HASH_FAULTS :: nat where "PROC_HASH_FAULTS \<equiv> 109"
abbreviation (input) PROC_MINOR_PAGE_FAULTS :: nat where "PROC_MINOR_PAGE_FAULTS \<equiv> 110"
abbreviation (input) PROC_MAJOR_PAGE_FAULTS :: nat where "PROC_MAJOR_PAGE_FAULTS \<equiv> 111"
abbreviation (input) PROC_CLASS2_INTERRUPTS :: nat where "PROC_CLASS2_INTERRUPTS \<equiv> 112"
abbreviation (input) PROC_PPE_LIBRARY :: nat where "PROC_PPE_LIBRARY \<equiv> 113"
abbreviation (input) PROC_BINARY_NAME :: nat where "PROC_BINARY_NAME \<equiv> 114"
abbreviation (input) PROC_MAX_FIELD :: nat where "PROC_MAX_FIELD \<equiv> 115"

definition ctx_fields :: "field list" where
  "ctx_fields = [
     new_field CTX_PPU_PID ''PID'' ''%6s'' ''%6d''
       ''PPU Side Process ID'' True (Some ''PPU_PID''),
     new_field CTX_THREAD_ID ''TID'' ''%6s'' ''%6d''
       ''SPE Controlling Thread ID'' True (Some ''THREAD_ID''),
     new_field CTX_USER ''USERNAME'' '' %-10s'' '' %-10s''
       ''User'' True (Some ''USER_NAME''),
     new_field CTX_STATUS ''S'' ''%2s'' ''%2c''
       ''Context Status'' True (Some ''STATUS''),
     new_field CTX_FLAGS ''F'' ''%2s'' ''%2c''
       ''Context Flags'' True (Some ''FLAGS''),
     new_field CTX_PERCENT_SPU ''%SPU'' ''%6s'' ''%6.1f''
       ''SPU Usage'' True (None),
     new_field CTX_SPE ''SPE'' ''%4s'' ''%4d''
       ''Allocated SPE'' True (Some ''SPE''),
     new_field CTX_TOTAL_TIME ''TIME'' ''%9s'' ''%9.3f''
       ''Resident Time (loaded or running) in seconds'' True (Some ''TOTAL_TIME''),
     new_field CTX_USER_TIME ''USER'' ''%9s'' ''%9.3f''
       ''User Time in seconds'' False (Some ''USER_TIME''),
     new_field CTX_SYSTEM_TIME ''SYS'' ''%9s'' ''%9.3f''
       ''System Time in seconds'' False (Some ''SYSTEM_TIME''),
     new_field CTX_LOADED_TIME ''LOAD'' ''%9s'' ''%9.3f''
       ''Loaded Time (loaded or running) in seconds'' False (Some ''LOADED_TIME''),
     new_field CTX_VOLUNTARY_CTX_SWITCHES ''VCSW'' ''%5s'' ''%5llu''
       ''Number of Voluntary Context Switches'' False (Some ''VOLUNTARY_CTX_SWITCHES''),
     new_field CTX_INVOLUNTARY_CTX_SWITCHES ''ICSW'' ''%5s'' ''%5llu''
       ''Number of Involuntary Context Switches'' False (Some ''INVOLUNTARY_CTX_SWITCHES''),
     new_field CTX_SLB_MISSES ''SLB'' ''%5s'' ''%5llu''
       ''Number of SLB Misses'' False (Some ''SLB_MISSES''),
     new_field CTX_HASH_FAULTS ''HFLT'' ''%5s'' ''%5llu''
       ''Number of Hash Faults'' False (Some ''HASH_FAULTS''),
     new_field CTX_MINOR_PAGE_FAULTS ''mFLT'' ''%5s'' ''%5llu''
       ''Number of Minor Page Faults'' False (Some ''MINOR_PAGE_FAULTS''),
     new_field CTX_MAJOR_PAGE_FAULTS ''MFLT'' ''%5s'' ''%5llu''
       ''Number of Major Page Faults'' False (Some ''MAJOR_PAGE_FAULTS''),
     new_field CTX_CLASS2_INTERRUPTS ''IRQ2'' ''%5s'' ''%5llu''
       ''Number of Class2 Interrupts Received'' False (Some ''CLASS2_INTERRUPTS''),
     new_field CTX_PPE_LIBRARY ''PPE_LIB'' ''%8s'' ''%8llu''
       ''Number of PPE Assisted Library Calls Performed'' False (Some ''PPE_LIBRARY''),
     new_field CTX_BINARY_NAME ''BINARY'' '' %-18s'' '' %-18s''
       ''Binary Name'' True (Some ''BINARY_NAME'')]"

definition spu_fields :: "field list" where
  "spu_fields = [
     new_field SPU_NUMBER ''SPE'' ''%3s'' ''%3d''
       ''SPE Number'' True (Some ''''),
     new_field SPU_PERCENT_SPU ''%SPU'' ''%6s'' ''%6.1f''
       ''SPU Usage'' True (Some ''''),
     new_field SPU_PERCENT_USER ''%USR'' ''%6s'' ''%6.1f''
       ''SPU User'' True (Some ''''),
     new_field SPU_PERCENT_SYSTEM ''%SYS'' ''%6s'' ''%6.1f''
       ''SPU System'' True (Some ''''),
     new_field SPU_PERCENT_IOWAIT ''%WAI'' ''%6s'' ''%6.1f''
       ''SPU I/O Wait'' True (Some ''''),
     new_field SPU_STATE ''S'' ''%2s'' ''%2c''
       ''State'' True (Some ''''),
     new_field SPU_VOLUNTARY_CTX_SWITCHES ''VCSW'' ''%6s'' ''%6llu''
       ''Number of Voluntary Context Switches'' False (Some ''''),
     new_field SPU_INVOLUNTARY_CTX_SWITCHES ''ICSW'' ''%6s'' ''%6llu''
       ''Number of Involuntary Context Switches'' False (Some ''''),
     new_field SPU_SLB_MISSES ''SLB'' ''%6s'' ''%6llu''
       ''Number of SLB Misses'' True (Some ''''),
     new_field SPU_HASH_FAULTS ''HFLT'' ''%6s'' ''%6llu''
       ''Number of Hash Faults'' True (Some ''''),
     new_field SPU_MINOR_PAGE_FAULTS ''mFLT'' ''%6s'' ''%6llu''
       ''Number of Minor Page Faults'' True (Some ''''),
     new_field SPU_MAJOR_PAGE_FAULTS ''MFLT'' ''%6s'' ''%6llu''
       ''Number of Major Page Faults'' True (Some ''''),
     new_field SPU_CLASS2_INTERRUPTS ''IRQ2'' ''%6s'' ''%6llu''
       ''Number of Class2 Interrupts Received'' True (Some ''''),
     new_field SPU_PPE_LIBRARY ''PPE_LIB'' ''%8s'' ''%8llu''
       ''Number of PPE Assisted Library Calls Performed'' True (Some ''''),
     new_field SPU_CTX_THREAD_ID ''TID'' ''%6s'' ''%6d''
       ''SPE Controlling Thread ID'' False (Some '''')]"

definition proc_fields :: "field list" where
  "proc_fields = [
     new_field PROC_PPU_PID ''PID'' ''%6s'' ''%6d''
       ''PPU Side Process ID'' True (Some ''PPU_PID''),
     new_field PROC_N_THREADS ''N'' ''%3s'' ''%3d''
       ''Number of SPE Threads'' True (Some ''N_THREADS''),
     new_field PROC_USER ''USERNAME'' '' %-10s'' '' %-10s''
       ''User'' True (Some ''USER_NAME''),
     new_field PROC_PERCENT_SPU ''%SPU'' ''%7s'' ''%7.1f''
       ''SPU Usage'' True (Some ''PERCENT_SPU''),
     new_field PROC_TOTAL_TIME ''TIME'' ''%9s'' ''%9.3f''
       ''Resident Time (loaded or running) in seconds'' True (Some ''TOTAL_TIME''),
     new_field PROC_USER_TIME ''USER'' ''%9s'' ''%9.3f''
       ''User Time in seconds'' False (Some ''USER_TIME''),
     new_field PROC_SYSTEM_TIME ''SYS'' ''%9s'' ''%9.3f''
       ''System Time in seconds'' False (Some ''SYSTEM_TIME''),
     new_field PROC_IOWAIT_TIME ''WAIT'' ''%9s'' ''%9.3f''
       ''IO/Wait Time in seconds'' False (Some ''IOWAIT_TIME''),
     new_field PROC_LOADED_TIME ''LOAD'' ''%9s'' ''%9.3f''
       ''Loaded Time in seconds'' False (Some ''LOADED_TIME''),
     new_field PROC_VOLUNTARY_CTX_SWITCHES ''VCSW'' ''%5s'' ''%5llu''
       ''Number of Voluntary Context Switches'' False (Some ''VOLUNTARY_CTX_SWITCHES''),
     new_field PROC_INVOLUNTARY_CTX_SWITCHES ''ICSW'' ''%5s'' ''%5llu''
       ''Number of Involuntary Context Switches'' False (Some ''INVOLUNTARY_CTX_SWITCHES''),
     new_field PROC_SLB_MISSES ''SLB'' ''%5s'' ''%5llu''
       ''Number of SLB Misses'' False (Some ''SLB_MISSES''),
     new_field PROC_HASH_FAULTS ''HFLT'' ''%5s'' ''%5llu''
       ''Number of Hash Faults'' False (Some ''HASH_FAULTS''),
     new_field PROC_MINOR_PAGE_FAULTS ''mFLT'' ''%5s'' ''%5llu''
       ''Number of Minor Page Faults'' False (Some ''MINOR_PAGE_FAULTS''),
     new_field PROC_MAJOR_PAGE_FAULTS ''MFLT'' ''%5s'' ''%5llu''
       ''Number of Major Page Faults'' False (Some ''MAJOR_PAGE_FAULTS''),
     new_field PROC_CLASS2_INTERRUPTS ''IRQ2'' ''%5s'' ''%5llu''
       ''Number of Class2 Interrupts Received'' False (Some ''CLASS2_INTERRUPTS''),
     new_field PROC_PPE_LIBRARY ''PPE_LIB'' ''%8s'' ''%8llu''
       ''Number of PPE Assisted Library Performed'' False (Some ''PPE_LIBRARY''),
     new_field PROC_BINARY_NAME ''BINARY'' '' %-18s'' '' %-18s''
       ''Binary Name'' True (Some ''BINARY_NAME'')]"

section \<open>Values\<close>

text \<open>What \<open>sprintf\<close> gets for a field: \<open>Secs\<close> is a number of milliseconds divided by 1000.0.\<close>

datatype 'f field_value = IntV int | Txt "string option" | Chr char | Flt 'f | Secs u64 | Num u64

definition print_ctx_field :: "'f ctx \<Rightarrow> nat \<Rightarrow> 'f field_value option" where
  "print_ctx_field c fld =
     (if fld = CTX_PPU_PID then Some (IntV (ctx_ppu_pid c))
      else if fld = CTX_THREAD_ID then Some (IntV (ctx_thread_id c))
      else if fld = CTX_USER then Some (Txt (ctx_user c))
      else if fld = CTX_STATUS then Some (Chr (ctx_status c))
      else if fld = CTX_FLAGS then Some (Chr (ctx_flags c))
      else if fld = CTX_PERCENT_SPU then Some (Flt (ctx_percent_spu c))
      else if fld = CTX_SPE then Some (IntV (ctx_spe c))
      else if fld = CTX_TOTAL_TIME then Some (Secs (ctx_time c TIME_TOTAL))
      else if fld = CTX_USER_TIME then Some (Secs (ctx_time c TIME_USER))
      else if fld = CTX_SYSTEM_TIME then Some (Secs (ctx_time c TIME_SYSTEM))
      else if fld = CTX_LOADED_TIME then Some (Secs (ctx_time c TIME_LOADED))
      else if fld = CTX_BINARY_NAME then Some (Txt (ctx_binary_name c))
      else if fld = CTX_VOLUNTARY_CTX_SWITCHES then Some (Num (voluntary_ctx_switches c))
      else if fld = CTX_INVOLUNTARY_CTX_SWITCHES then Some (Num (involuntary_ctx_switches c))
      else if fld = CTX_SLB_MISSES then Some (Num (slb_misses c))
      else if fld = CTX_HASH_FAULTS then Some (Num (hash_faults c))
      else if fld = CTX_MINOR_PAGE_FAULTS then Some (Num (minor_page_faults c))
      else if fld = CTX_MAJOR_PAGE_FAULTS then Some (Num (major_page_faults c))
      else if fld = CTX_CLASS2_INTERRUPTS then Some (Num (class2_interrupts c))
      else if fld = CTX_PPE_LIBRARY then Some (Num (ppe_library c))
      else None)"

definition print_spu_field :: "'f spu \<Rightarrow> nat \<Rightarrow> 'f field_value option" where
  "print_spu_field s fld =
     (if fld = SPU_NUMBER then Some (IntV (spu_number s))
      else if fld = SPU_STATE then Some (Chr (spu_letter s))
      else if fld = SPU_PERCENT_SPU then Some (Flt (spu_percent s TIME_TOTAL))
      else if fld = SPU_PERCENT_USER then Some (Flt (spu_percent s TIME_USER))
      else if fld = SPU_PERCENT_SYSTEM then Some (Flt (spu_percent s TIME_SYSTEM))
      else if fld = SPU_PERCENT_IOWAIT then Some (Flt (spu_percent s TIME_IOWAIT))
      else if fld = SPU_CTX_THREAD_ID then Some (IntV (spu_ctx_thread_id s))
      else if fld = SPU_VOLUNTARY_CTX_SWITCHES then Some (Num (voluntary_ctx_switches s))
      else if fld = SPU_INVOLUNTARY_CTX_SWITCHES then Some (Num (involuntary_ctx_switches s))
      else if fld = SPU_SLB_MISSES then Some (Num (slb_misses s))
      else if fld = SPU_HASH_FAULTS then Some (Num (hash_faults s))
      else if fld = SPU_MINOR_PAGE_FAULTS then Some (Num (minor_page_faults s))
      else if fld = SPU_MAJOR_PAGE_FAULTS then Some (Num (major_page_faults s))
      else if fld = SPU_CLASS2_INTERRUPTS then Some (Num (class2_interrupts s))
      else if fld = SPU_PPE_LIBRARY then Some (Num (ppe_library s))
      else None)"

definition print_proc_field :: "'f proc \<Rightarrow> nat \<Rightarrow> 'f field_value option" where
  "print_proc_field p fld =
     (if fld = PROC_PPU_PID then Some (IntV (proc_ppu_pid p))
      else if fld = PROC_N_THREADS then Some (IntV (proc_n_threads p))
      else if fld = PROC_USER then Some (Txt (proc_user p))
      else if fld = PROC_PERCENT_SPU then Some (Flt (proc_percent_spu p))
      else if fld = PROC_TOTAL_TIME then Some (Secs (proc_time p TIME_TOTAL))
      else if fld = PROC_USER_TIME then Some (Secs (proc_time p TIME_USER))
      else if fld = PROC_SYSTEM_TIME then Some (Secs (proc_time p TIME_SYSTEM))
      else if fld = PROC_IOWAIT_TIME then Some (Secs (proc_time p TIME_IOWAIT))
      else if fld = PROC_LOADED_TIME then Some (Secs (proc_time p TIME_LOADED))
      else if fld = PROC_BINARY_NAME then Some (Txt (proc_binary_name p))
      else if fld = PROC_VOLUNTARY_CTX_SWITCHES then Some (Num (voluntary_ctx_switches p))
      else if fld = PROC_INVOLUNTARY_CTX_SWITCHES then Some (Num (involuntary_ctx_switches p))
      else if fld = PROC_SLB_MISSES then Some (Num (slb_misses p))
      else if fld = PROC_HASH_FAULTS then Some (Num (hash_faults p))
      else if fld = PROC_MINOR_PAGE_FAULTS then Some (Num (minor_page_faults p))
      else if fld = PROC_MAJOR_PAGE_FAULTS then Some (Num (major_page_faults p))
      else if fld = PROC_CLASS2_INTERRUPTS then Some (Num (class2_interrupts p))
      else if fld = PROC_PPE_LIBRARY then Some (Num (ppe_library p))
      else None)"

text \<open>The rows and the header: the formats with their values, in the order of the columns that are shown.\<close>

definition header_columns :: "field list \<Rightarrow> (string \<times> string) list" where
  "header_columns fs = map (\<lambda>f. (name_format f, fl_name f)) (filter do_show fs)"

definition row_columns :: "(nat \<Rightarrow> 'f field_value option) \<Rightarrow> field list \<Rightarrow> (string \<times> 'f field_value option) list" where
  "row_columns print fs = map (\<lambda>f. (val_format f, print (fl_id f))) (filter do_show fs)"

section \<open>Order of the rows\<close>

definition ctx_difference :: "'f float_ops \<Rightarrow> nat \<Rightarrow> 'f ctx \<Rightarrow> 'f ctx \<Rightarrow> int option" where
  "ctx_difference F fld x y =
     (if fld = CTX_PPU_PID then Some (ctx_ppu_pid x - ctx_ppu_pid y)
      else if fld = CTX_THREAD_ID then Some (ctx_thread_id x - ctx_thread_id y)
      else if fld = CTX_USER then compare_names (ctx_user x) (ctx_user y)
      else if fld = CTX_STATUS then Some (int (of_char (ctx_status x)) - int (of_char (ctx_status y)))
      else if fld = CTX_FLAGS then Some (int (of_char (ctx_flags x)) - int (of_char (ctx_flags y)))
      else if fld = CTX_PERCENT_SPU then Some (f_diff F (ctx_percent_spu x) (ctx_percent_spu y))
      else if fld = CTX_SPE then Some (ctx_spe x - ctx_spe y)
      else if fld = CTX_TOTAL_TIME then Some (u64_diff (ctx_time x TIME_TOTAL) (ctx_time y TIME_TOTAL))
      else if fld = CTX_USER_TIME then Some (u64_diff (ctx_time x TIME_USER) (ctx_time y TIME_USER))
      else if fld = CTX_SYSTEM_TIME then Some (u64_diff (ctx_time x TIME_SYSTEM) (ctx_time y TIME_SYSTEM))
      else if fld = CTX_LOADED_TIME then Some (u64_diff (ctx_time x TIME_LOADED) (ctx_time y TIME_LOADED))
      else if fld = CTX_BINARY_NAME then compare_names (ctx_binary_name x) (ctx_binary_name y)
      else if fld = CTX_VOLUNTARY_CTX_SWITCHES then Some (u64_diff (voluntary_ctx_switches x) (voluntary_ctx_switches y))
      else if fld = CTX_INVOLUNTARY_CTX_SWITCHES then Some (u64_diff (involuntary_ctx_switches x) (involuntary_ctx_switches y))
      else if fld = CTX_SLB_MISSES then Some (u64_diff (slb_misses x) (slb_misses y))
      else if fld = CTX_HASH_FAULTS then Some (u64_diff (hash_faults x) (hash_faults y))
      else if fld = CTX_MINOR_PAGE_FAULTS then Some (u64_diff (minor_page_faults x) (minor_page_faults y))
      else if fld = CTX_MAJOR_PAGE_FAULTS then Some (u64_diff (major_page_faults x) (major_page_faults y))
      else if fld = CTX_CLASS2_INTERRUPTS then Some (u64_diff (class2_interrupts x) (class2_interrupts y))
      else if fld = CTX_PPE_LIBRARY then Some (u64_diff (ppe_library x) (ppe_library y))
      else Some 0)"

definition ctxs_compare :: "'f float_ops \<Rightarrow> nat \<Rightarrow> bool \<Rightarrow> 'f ctx \<Rightarrow> 'f ctx \<Rightarrow> int option" where
  "ctxs_compare F fld descending x y =
     map_option (\<lambda>ret. if descending then - ret else ret) (ctx_difference F fld x y)"

definition spu_difference :: "'f float_ops \<Rightarrow> nat \<Rightarrow> 'f spu \<Rightarrow> 'f spu \<Rightarrow> int option" where
  "spu_difference F fld x y =
     (if fld = SPU_NUMBER then Some (spu_number x - spu_number y)
      else if fld = SPU_STATE then Some (int (of_char (spu_letter x)) - int (of_char (spu_letter y)))
      else if fld = SPU_PERCENT_SPU then Some (f_diff F (spu_percent x TIME_TOTAL) (spu_percent y TIME_TOTAL))
      else if fld = SPU_PERCENT_USER then Some (f_diff F (spu_percent x TIME_USER) (spu_percent y TIME_USER))
      else if fld = SPU_PERCENT_SYSTEM then Some (f_diff F (spu_percent x TIME_SYSTEM) (spu_percent y TIME_SYSTEM))
      else if fld = SPU_PERCENT_IOWAIT then Some (f_diff F (spu_percent x TIME_IOWAIT) (spu_percent y TIME_IOWAIT))
      else if fld = SPU_CTX_THREAD_ID then Some (spu_ctx_thread_id x - spu_ctx_thread_id y)
      else if fld = SPU_VOLUNTARY_CTX_SWITCHES then Some (u64_diff (voluntary_ctx_switches x) (voluntary_ctx_switches y))
      else if fld = SPU_INVOLUNTARY_CTX_SWITCHES then Some (u64_diff (involuntary_ctx_switches x) (involuntary_ctx_switches y))
      else if fld = SPU_SLB_MISSES then Some (u64_diff (slb_misses x) (slb_misses y))
      else if fld = SPU_HASH_FAULTS then Some (u64_diff (hash_faults x) (hash_faults y))
      else if fld = SPU_MINOR_PAGE_FAULTS then Some (u64_diff (minor_page_faults x) (minor_page_faults y))
      else if fld = SPU_MAJOR_PAGE_FAULTS then Some (u64_diff (major_page_faults x) (major_page_faults y))
      else if fld = SPU_CLASS2_INTERRUPTS then Some (u64_diff (class2_interrupts x) (class2_interrupts y))
      else if fld = SPU_PPE_LIBRARY then Some (u64_diff (ppe_library x) (ppe_library y))
      else Some 0)"

definition spus_compare :: "'f float_ops \<Rightarrow> nat \<Rightarrow> bool \<Rightarrow> 'f spu \<Rightarrow> 'f spu \<Rightarrow> int option" where
  "spus_compare F fld descending x y =
     map_option (\<lambda>ret. if descending then - ret else ret) (spu_difference F fld x y)"

definition proc_difference :: "'f float_ops \<Rightarrow> nat \<Rightarrow> 'f proc \<Rightarrow> 'f proc \<Rightarrow> int option" where
  "proc_difference F fld x y =
     (if fld = PROC_PPU_PID then Some (proc_ppu_pid x - proc_ppu_pid y)
      else if fld = PROC_USER then compare_names (proc_user x) (proc_user y)
      else if fld = PROC_PERCENT_SPU then Some (f_diff F (proc_percent_spu x) (proc_percent_spu y))
      else if fld = PROC_TOTAL_TIME then Some (u64_diff (proc_time x TIME_TOTAL) (proc_time y TIME_TOTAL))
      else if fld = PROC_USER_TIME then Some (u64_diff (proc_time x TIME_USER) (proc_time y TIME_USER))
      else if fld = PROC_SYSTEM_TIME then Some (u64_diff (proc_time x TIME_SYSTEM) (proc_time y TIME_SYSTEM))
      else if fld = PROC_IOWAIT_TIME then Some (u64_diff (proc_time x TIME_IOWAIT) (proc_time y TIME_IOWAIT))
      else if fld = PROC_LOADED_TIME then Some (u64_diff (proc_time x TIME_LOADED) (proc_time y TIME_LOADED))
      else if fld = PROC_BINARY_NAME then compare_names (proc_binary_name x) (proc_binary_name y)
      else if fld = PROC_VOLUNTARY_CTX_SWITCHES then Some (u64_diff (voluntary_ctx_switches x) (voluntary_ctx_switches y))
      else if fld = PROC_INVOLUNTARY_CTX_SWITCHES then Some (u64_diff (involuntary_ctx_switches x) (involuntary_ctx_switches y))
      else if fld = PROC_SLB_MISSES then Some (u64_diff (slb_misses x) (slb_misses y))
      else if fld = PROC_HASH_FAULTS then Some (u64_diff (hash_faults x) (hash_faults y))
      else if fld = PROC_MINOR_PAGE_FAULTS then Some (u64_diff (minor_page_faults x) (minor_page_faults y))
      else if fld = PROC_MAJOR_PAGE_FAULTS then Some (u64_diff (major_page_faults x) (major_page_faults y))
      else if fld = PROC_CLASS2_INTERRUPTS then Some (u64_diff (class2_interrupts x) (class2_interrupts y))
      else if fld = PROC_PPE_LIBRARY then Some (u64_diff (ppe_library x) (ppe_library y))
      else Some 0)"

definition procs_compare :: "'f float_ops \<Rightarrow> nat \<Rightarrow> bool \<Rightarrow> 'f proc \<Rightarrow> 'f proc \<Rightarrow> int option" where
  "procs_compare F fld descending x y =
     map_option (\<lambda>ret. if descending then - ret else ret) (proc_difference F fld x y)"

section \<open>Options of \<open>spu-ps\<close>\<close>

abbreviation (input) DUPLICATE_FIELD :: int where "DUPLICATE_FIELD \<equiv> -1"
abbreviation (input) INVALID_FIELD :: int where "INVALID_FIELD \<equiv> -2"

fun index_of :: "('a \<Rightarrow> bool) \<Rightarrow> 'a list \<Rightarrow> nat option" where
  "index_of P [] = None"
| "index_of P (x # xs) = (if P x then Some 0 else map_option Suc (index_of P xs))"

definition swap_at :: "nat \<Rightarrow> nat \<Rightarrow> 'a list \<Rightarrow> 'a list" where
  "swap_at i j xs = xs[i := xs ! j, j := xs ! i]"

text \<open>The result is the error or the new table.\<close>

definition set_field_order :: "string \<Rightarrow> nat \<Rightarrow> field list \<Rightarrow> int + field list" where
  "set_field_order name index fs =
     (case index_of (\<lambda>f. id_string f = Some name) fs of
        None \<Rightarrow> Inl INVALID_FIELD
      | Some i \<Rightarrow>
          if i < index then Inl DUPLICATE_FIELD
          else let fs1 = swap_at index i fs in Inr (fs1[index := (fs1 ! index)\<lparr>do_show := True\<rparr>]))"

definition hide_fields :: "nat \<Rightarrow> field list \<Rightarrow> field list" where
  "hide_fields index fs = take index fs @ map (\<lambda>f. f\<lparr>do_show := False\<rparr>) (drop index fs)"

definition set_sort_order :: "string \<Rightarrow> field list \<Rightarrow> nat \<Rightarrow> int \<times> nat" where
  "set_sort_order name fs sort_field =
     (case index_of (\<lambda>f. id_string f = Some name) fs of
        None \<Rightarrow> (INVALID_FIELD, sort_field)
      | Some i \<Rightarrow> (0, fl_id (fs ! i)))"

text \<open>\<open>strsep\<close> gives what is between the commas, empty strings too.\<close>

fun comma_fields :: "string \<Rightarrow> string list" where
  "comma_fields [] = [[]]"
| "comma_fields (c # cs) =
     (if c = CHR '','' then [] # comma_fields cs
      else (case comma_fields cs of [] \<Rightarrow> [[c]] | f # fs \<Rightarrow> (c # f) # fs))"

text \<open>\<open>die\<close> exits with the status 1.\<close>

fun order_fields :: "string list \<Rightarrow> nat \<Rightarrow> field list \<Rightarrow> int + field list" where
  "order_fields [] i fs = Inr (hide_fields i fs)"
| "order_fields (n # ns) i fs =
     (case set_field_order n i fs of Inl _ \<Rightarrow> Inl 1 | Inr fs1 \<Rightarrow> order_fields ns (Suc i) fs1)"

text \<open>
  The options as \<open>getopt_long\<close> gives them, up to an option that exits; the tables before have the fields without
  a name for the option hidden.
\<close>

fun ps_options :: "(char \<times> string) list \<Rightarrow> field list \<Rightarrow> nat \<Rightarrow> int + field list \<times> nat" where
  "ps_options [] fs sort_field = Inr (fs, sort_field)"
| "ps_options ((c, arg) # os) fs sort_field =
     (if c = CHR ''s'' then
        (case set_sort_order arg fs sort_field of
           (ret, sort1) \<Rightarrow> if ret = INVALID_FIELD then Inl 1 else ps_options os fs sort1)
      else if c = CHR ''f'' then
        (case order_fields (comma_fields arg) 0 fs of Inl n \<Rightarrow> Inl n | Inr fs1 \<Rightarrow> ps_options os fs1 sort_field)
      else Inl 0)"

definition ps_start :: "field list \<Rightarrow> field list" where
  "ps_start fs = map (\<lambda>f. if id_string f = None then f\<lparr>do_show := False\<rparr> else f) fs"

section \<open>Keys of \<open>spu-top\<close>\<close>

datatype screen_mode = PER_CTX | PER_SPU | PER_PROC

record view =
  vw_fields :: "field list"
  vw_sort :: nat
  vw_descending :: bool

record top =
  screen_mode :: screen_mode
  ctx_view :: view
  spu_view :: view
  proc_view :: view
  do_quit :: bool

definition top_start :: top where
  "top_start = \<lparr>screen_mode = PER_CTX,
     ctx_view = \<lparr>vw_fields = ctx_fields, vw_sort = CTX_PPU_PID, vw_descending = False\<rparr>,
     spu_view = \<lparr>vw_fields = spu_fields, vw_sort = SPU_NUMBER, vw_descending = False\<rparr>,
     proc_view = \<lparr>vw_fields = proc_fields, vw_sort = PROC_PPU_PID, vw_descending = False\<rparr>, do_quit = False\<rparr>"

definition max_field :: "screen_mode \<Rightarrow> nat" where
  "max_field m = (case m of PER_CTX \<Rightarrow> CTX_MAX_FIELD | PER_SPU \<Rightarrow> SPU_MAX_FIELD | PER_PROC \<Rightarrow> PROC_MAX_FIELD)"

definition current_view :: "top \<Rightarrow> view" where
  "current_view t = (case screen_mode t of PER_CTX \<Rightarrow> ctx_view t | PER_SPU \<Rightarrow> spu_view t | PER_PROC \<Rightarrow> proc_view t)"

definition change_view :: "(view \<Rightarrow> view) \<Rightarrow> top \<Rightarrow> top" where
  "change_view f t =
     (case screen_mode t of
        PER_CTX \<Rightarrow> t\<lparr>ctx_view := f (ctx_view t)\<rparr>
      | PER_SPU \<Rightarrow> t\<lparr>spu_view := f (spu_view t)\<rparr>
      | PER_PROC \<Rightarrow> t\<lparr>proc_view := f (proc_view t)\<rparr>)"

definition key :: "char \<Rightarrow> nat" where "key c = of_char c"

definition is_upper :: "char \<Rightarrow> bool" where "is_upper c \<longleftrightarrow> 65 \<le> key c \<and> key c \<le> 90"
definition is_lower :: "char \<Rightarrow> bool" where "is_lower c \<longleftrightarrow> 97 \<le> key c \<and> key c \<le> 122"
definition lower :: "char \<Rightarrow> nat" where "lower c = (if is_upper c then key c + 32 else key c)"

text \<open>
  The three screens read keys until one that is not a letter of the table; the result is the view and the
  keys that are left. A screen that gets no more keys waits.
\<close>

fun config_sort :: "nat \<Rightarrow> char list \<Rightarrow> view \<Rightarrow> view \<times> char list" where
  "config_sort mx [] v = (v, [])"
| "config_sort mx (k # ks) v =
     (if lower k < 97 \<or> lower k > mx then (v, ks) else config_sort mx ks (v\<lparr>vw_sort := lower k\<rparr>))"

definition toggle_field :: "nat \<Rightarrow> field list \<Rightarrow> field list" where
  "toggle_field lc fs =
     (case index_of (\<lambda>f. fl_id f = lc) fs of
        None \<Rightarrow> fs | Some i \<Rightarrow> fs[i := (fs ! i)\<lparr>do_show := \<not> do_show (fs ! i)\<rparr>])"

fun config_show :: "nat \<Rightarrow> char list \<Rightarrow> view \<Rightarrow> view \<times> char list" where
  "config_show mx [] v = (v, [])"
| "config_show mx (k # ks) v =
     (if lower k < 97 \<or> lower k > mx then (v, ks)
      else config_show mx ks (v\<lparr>vw_fields := toggle_field (lower k) (vw_fields v)\<rparr>))"

definition move_field :: "char \<Rightarrow> field list \<Rightarrow> field list" where
  "move_field c fs =
     (case index_of (\<lambda>f. fl_id f = lower c) fs of
        None \<Rightarrow> fs
      | Some i \<Rightarrow>
          if is_upper c \<and> i > 0 then swap_at (i - 1) i fs
          else if is_lower c \<and> i + 1 < length fs then swap_at (i + 1) i fs
          else fs)"

fun config_order :: "nat \<Rightarrow> char list \<Rightarrow> view \<Rightarrow> view \<times> char list" where
  "config_order mx [] v = (v, [])"
| "config_order mx (k # ks) v =
     (if lower k < 97 \<or> lower k > mx then (v, ks)
      else config_order mx ks (v\<lparr>vw_fields := move_field k (vw_fields v)\<rparr>))"

text \<open>One key of the main loop, with the keys its screen takes.\<close>

definition config_view :: "(nat \<Rightarrow> char list \<Rightarrow> view \<Rightarrow> view \<times> char list) \<Rightarrow> char list \<Rightarrow> top \<Rightarrow> top \<times> char list" where
  "config_view cfg ks t =
     (case cfg (max_field (screen_mode t)) ks (current_view t) of (v, rest) \<Rightarrow> (change_view (\<lambda>_. v) t, rest))"

definition top_key :: "char \<Rightarrow> char list \<Rightarrow> top \<Rightarrow> top \<times> char list" where
  "top_key ch ks t =
     (if ch = CHR ''h'' \<or> ch = CHR ''H'' \<or> ch = CHR ''?'' then (t, tl ks)
      else if ch = CHR ''q'' \<or> ch = CHR ''Q'' then (t\<lparr>do_quit := True\<rparr>, ks)
      else if ch = CHR ''c'' then (t\<lparr>screen_mode := PER_CTX\<rparr>, ks)
      else if ch = CHR ''s'' then (t\<lparr>screen_mode := PER_SPU\<rparr>, ks)
      else if ch = CHR ''p'' then (t\<lparr>screen_mode := PER_PROC\<rparr>, ks)
      else if ch = CHR ''A'' then (change_view (\<lambda>v. v\<lparr>vw_descending := False\<rparr>) t, ks)
      else if ch = CHR ''D'' then (change_view (\<lambda>v. v\<lparr>vw_descending := True\<rparr>) t, ks)
      else if ch = CHR ''f'' then config_view config_show ks t
      else if ch = CHR ''o'' then config_view config_order ks t
      else if ch = CHR ''O'' then config_view config_sort ks t
      else (t, ks))"

lemma config_rest:
  "length (snd (config_sort mx ks v)) \<le> length ks" "length (snd (config_show mx ks v)) \<le> length ks"
  "length (snd (config_order mx ks v)) \<le> length ks"
  by (induction ks arbitrary: v) (auto simp: le_SucI)

lemma top_key_rest: "length (snd (top_key ch ks t)) \<le> length ks"
  by (simp add: top_key_def config_view_def case_prod_beta config_rest)

text \<open>The main loop on the keys that are typed; it stops after \<open>q\<close>.\<close>

function top_keys :: "char list \<Rightarrow> top \<Rightarrow> top" where
  "top_keys [] t = t"
| "top_keys (ch # ks) t =
     (if do_quit t then t else (case top_key ch ks t of (t1, rest) \<Rightarrow> top_keys rest t1))"
  by pat_completeness auto
termination
proof (relation "measure (\<lambda>(ks, t). length ks)")
  fix ch :: char and ks rest :: "char list" and t t1 :: top
  assume "(t1, rest) = top_key ch ks t"
  then show "((rest, t1), ch # ks, t) \<in> measure (\<lambda>(ks, t). length ks)"
    using top_key_rest [of ch ks t] by (metis case_prod_conv in_measure le_imp_less_Suc length_Cons snd_conv)
qed simp

section \<open>Tables keep their fields\<close>

text \<open>A table as a multiset, whether its fields are shown or not.\<close>

definition unshown :: "field \<Rightarrow> field" where
  "unshown f = f\<lparr>do_show := False\<rparr>"

definition table :: "field list \<Rightarrow> field multiset" where
  "table fs = image_mset unshown (mset fs)"

lemma unshown_simps [simp]:
  "fl_id (unshown f) = fl_id f" "id_string (unshown f) = id_string f" "unshown (f\<lparr>do_show := b\<rparr>) = unshown f"
  by (simp_all add: unshown_def)

lemma table_attributes:
  assumes "table fs = table gs"
  shows "fl_id ` set fs = fl_id ` set gs" "id_string ` set fs = id_string ` set gs" "length fs = length gs"
proof -
  have "set_mset (table fs) = set_mset (table gs)" "size (table fs) = size (table gs)" using assms by simp_all
  then have s: "unshown ` set fs = unshown ` set gs" and "length fs = length gs" by (simp_all add: table_def)
  then show "length fs = length gs" by simp
  have "fl_id ` unshown ` set fs = fl_id ` unshown ` set gs" "id_string ` unshown ` set fs = id_string ` unshown ` set gs"
    unfolding s by simp_all
  then show "fl_id ` set fs = fl_id ` set gs" "id_string ` set fs = id_string ` set gs" by (simp_all add: image_image)
qed

lemma index_of_Some:
  assumes "index_of P xs = Some i"
  shows "i < length xs" "P (xs ! i)" "\<And>j. j < i \<Longrightarrow> \<not> P (xs ! j)"
proof -
  have "i < length xs \<and> P (xs ! i) \<and> (\<forall>j < i. \<not> P (xs ! j))"
    using assms by (induction xs arbitrary: i) (auto split: if_splits simp: less_Suc_eq_0_disj)
  then show "i < length xs" "P (xs ! i)" "\<And>j. j < i \<Longrightarrow> \<not> P (xs ! j)" by auto
qed

lemma index_of_None: "index_of P xs = None \<longleftrightarrow> (\<forall>x \<in> set xs. \<not> P x)"
  by (induction xs) auto

lemma mset_swap_at: "i < length xs \<Longrightarrow> j < length xs \<Longrightarrow> mset (swap_at i j xs) = mset xs"
  by (simp add: swap_at_def mset_swap)

lemma table_swap_at [simp]: "i < length fs \<Longrightarrow> j < length fs \<Longrightarrow> table (swap_at i j fs) = table fs"
  by (simp add: table_def mset_swap_at)

lemma table_map: "table fs = mset (map unshown fs)"
  by (simp add: table_def)

lemma table_show [simp]: "table (fs[i := (fs ! i)\<lparr>do_show := b\<rparr>]) = table fs"
proof (cases "i < length fs")
  case True
  then have "map unshown (fs[i := (fs ! i)\<lparr>do_show := b\<rparr>]) = map unshown fs"
    by (metis list_update_id map_update nth_map unshown_simps(3))
  then show ?thesis by (simp only: table_map)
qed (simp add: list_update_beyond)

lemma table_hide_fields [simp]: "table (hide_fields k fs) = table fs"
proof -
  have "map unshown (hide_fields k fs) = map unshown (take k fs) @ map unshown (drop k fs)"
    by (simp add: hide_fields_def)
  also have "\<dots> = map unshown fs" by (metis append_take_drop_id map_append)
  finally show ?thesis by (simp only: table_map)
qed

lemma table_toggle_field [simp]: "table (toggle_field lc fs) = table fs"
  by (simp add: toggle_field_def split: option.split)

lemma table_move_field [simp]: "table (move_field c fs) = table fs"
  by (auto simp: move_field_def split: option.split dest: index_of_Some(1))

section \<open>The columns of \<open>spu-ps\<close>\<close>

lemma set_field_order_Inr:
  assumes "set_field_order n k fs = Inr gs"
  shows "k < length fs" "id_string (gs ! k) = Some n" "do_show (gs ! k)" "take k gs = take k fs" "table gs = table fs"
    "Some n \<notin> id_string ` set (take k fs)"
proof -
  obtain i where i: "index_of (\<lambda>f. id_string f = Some n) fs = Some i" "k \<le> i"
    and gs: "gs = (swap_at k i fs)[k := (swap_at k i fs ! k)\<lparr>do_show := True\<rparr>]"
    using assms by (auto simp: set_field_order_def Let_def split: option.splits if_splits)
  note I = index_of_Some [OF i(1)]
  show k: "k < length fs" using I(1) i(2) by simp
  have "swap_at k i fs ! k = fs ! i" using k I(1) by (cases "k = i") (simp_all add: swap_at_def)
  then show "id_string (gs ! k) = Some n" "do_show (gs ! k)" using I(2) k gs by (simp_all add: swap_at_def)
  show "take k gs = take k fs" using gs i(2) by (simp add: swap_at_def)
  show "table gs = table fs" using gs k I(1) by simp
  show "Some n \<notin> id_string ` set (take k fs)"
  proof
    assume "Some n \<in> id_string ` set (take k fs)"
    then obtain j where "j < k" "id_string (fs ! j) = Some n" using k by (auto simp: in_set_conv_nth)
    then show False using I(3) [of j] i(2) by simp
  qed
qed

lemma set_field_order_Inl:
  assumes "set_field_order n k fs = Inl e"
  shows "Some n \<notin> id_string ` set fs \<or> Some n \<in> id_string ` set (take k fs)"
proof (cases "index_of (\<lambda>f. id_string f = Some n) fs")
  case None
  then show ?thesis by (auto simp: index_of_None)
next
  case (Some i)
  note I = index_of_Some [OF Some]
  have "i < k" using assms Some by (simp add: set_field_order_def Let_def split: if_splits)
  then have "fs ! i \<in> set (take k fs)" using I(1) by (auto simp: in_set_conv_nth)
  then show ?thesis using I(2) by (metis imageI)
qed

text \<open>The names of an option \<open>-f\<close> that \<open>spu-ps\<close> accepts: different names of fields.\<close>

definition selectable :: "string list \<Rightarrow> field list \<Rightarrow> bool" where
  "selectable names fs \<longleftrightarrow> distinct names \<and> Some ` set names \<subseteq> id_string ` set fs"

lemma filter_hide_fields:
  assumes "list_all do_show (take k fs)"
  shows "filter do_show (hide_fields k fs) = take k fs"
proof -
  have "filter do_show (take k fs) = take k fs" using assms by (simp add: filter_id_conv list_all_iff)
  moreover have "filter do_show (map (\<lambda>f. f\<lparr>do_show := False\<rparr>) (drop k fs)) = []" by (simp add: filter_empty_conv)
  ultimately show ?thesis by (simp add: hide_fields_def)
qed

lemma order_fields_result:
  assumes "map id_string (take k fs) = map Some ns" "k = length ns" "list_all do_show (take k fs)" "distinct ns"
    and "k \<le> length fs"
  shows "case order_fields names k fs of
      Inl n \<Rightarrow> n = 1 \<and> \<not> selectable (ns @ names) fs
    | Inr fs' \<Rightarrow> selectable (ns @ names) fs \<and> map id_string (filter do_show fs') = map Some (ns @ names) \<and> table fs' = table fs"
  using assms
proof (induction names arbitrary: k fs ns)
  case Nil
  have "Some ` set ns = id_string ` set (take k fs)" using Nil.prems(1) by (metis list.set_map)
  then have "Some ` set ns \<subseteq> id_string ` set fs" using set_take_subset [of k fs] by (simp add: image_mono)
  then show ?case using Nil by (simp add: selectable_def filter_hide_fields)
next
  case (Cons n names)
  have ids: "Some ` set ns = id_string ` set (take k fs)" using Cons.prems(1) by (metis list.set_map)
  show ?case
  proof (cases "set_field_order n k fs")
    case (Inl e)
    have "\<not> selectable (ns @ n # names) fs"
      using set_field_order_Inl [OF Inl] unfolding ids [symmetric] by (auto simp: selectable_def)
    then show ?thesis using Inl by simp
  next
    case (Inr gs)
    note G = set_field_order_Inr [OF Inr]
    have len: "length gs = length fs" and id: "id_string ` set gs = id_string ` set fs" using table_attributes [OF G(5)] by simp_all
    have tk: "take (Suc k) gs = take k fs @ [gs ! k]" using G(1,4) len by (simp add: take_Suc_conv_app_nth)
    have "n \<notin> set ns" using G(6) unfolding ids [symmetric] by auto
    with Cons.prems tk G len have "case order_fields names (Suc k) gs of
      Inl m \<Rightarrow> m = 1 \<and> \<not> selectable ((ns @ [n]) @ names) gs
    | Inr fs' \<Rightarrow> selectable ((ns @ [n]) @ names) gs \<and> map id_string (filter do_show fs') = map Some ((ns @ [n]) @ names) \<and> table fs' = table gs"
      by (intro Cons.IH) simp_all
    then show ?thesis using Inr G(5) id by (simp add: selectable_def split: sum.splits)
  qed
qed

text \<open>
  C32: the option \<open>-f\<close> of \<open>spu-ps\<close> is accepted exactly when its names are different names of fields; then the columns
  are the fields of these names in this order, and the table keeps its fields. Otherwise the program exits with 1.
\<close>

theorem shown_fields_chosen:
  "case order_fields names 0 fs of
     Inl n \<Rightarrow> n = 1 \<and> \<not> selectable names fs
   | Inr fs' \<Rightarrow> selectable names fs \<and> map id_string (filter do_show fs') = map Some names \<and> table fs' = table fs"
  using order_fields_result [of 0 fs "[]" names] by (simp split: sum.splits)

section \<open>The screens of \<open>spu-top\<close>\<close>

text \<open>What a view keeps: its fields, and a letter as sort field that the configuration screens accept.\<close>

definition view_ok :: "field list \<Rightarrow> nat \<Rightarrow> view \<Rightarrow> bool" where
  "view_ok fs mx v \<longleftrightarrow> table (vw_fields v) = table fs \<and> 97 \<le> vw_sort v \<and> vw_sort v \<le> mx"

definition top_ok :: "top \<Rightarrow> bool" where
  "top_ok t \<longleftrightarrow> view_ok ctx_fields CTX_MAX_FIELD (ctx_view t) \<and> view_ok spu_fields SPU_MAX_FIELD (spu_view t) \<and>
     view_ok proc_fields PROC_MAX_FIELD (proc_view t)"

lemma config_view_ok:
  "view_ok fs mx v \<Longrightarrow> view_ok fs mx (fst (config_sort mx ks v))"
  "view_ok fs mx v \<Longrightarrow> view_ok fs mx (fst (config_show mx ks v))"
  "view_ok fs mx v \<Longrightarrow> view_ok fs mx (fst (config_order mx ks v))"
  by (induction ks arbitrary: v) (auto simp: view_ok_def)

lemma change_view_ok:
  assumes "top_ok t" "\<And>fs mx v. view_ok fs mx v \<Longrightarrow> view_ok fs mx (f v)"
  shows "top_ok (change_view f t)"
  using assms by (cases "screen_mode t") (auto simp: top_ok_def change_view_def)

lemma config_top_ok:
  assumes "top_ok t" "\<And>fs mx v. view_ok fs mx v \<Longrightarrow> view_ok fs mx (fst (cfg mx ks v))"
  shows "top_ok (fst (config_view cfg ks t))"
  using assms
  by (cases "screen_mode t") (auto simp: top_ok_def config_view_def change_view_def current_view_def max_field_def case_prod_beta)

lemma top_key_ok: "top_ok t \<Longrightarrow> top_ok (fst (top_key ch ks t))"
proof -
  assume t: "top_ok t"
  have "top_ok (t\<lparr>do_quit := True\<rparr>)" "top_ok (t\<lparr>screen_mode := m\<rparr>)" for m using t by (simp_all add: top_ok_def)
  moreover have "top_ok (change_view (\<lambda>v. v\<lparr>vw_descending := d\<rparr>) t)" for d
    using t by (rule change_view_ok) (simp add: view_ok_def)
  moreover have "top_ok (fst (config_view cfg ks t))" if "cfg \<in> {config_show, config_order, config_sort}" for cfg
    using t by (rule config_top_ok) (use that config_view_ok in auto)
  ultimately show ?thesis using t by (simp add: top_key_def)
qed

lemma top_keys_ok: "top_ok t \<Longrightarrow> top_ok (top_keys ks t)"
proof (induction ks t rule: top_keys.induct)
  case (2 ch ks t)
  show ?case
  proof (cases "top_key ch ks t")
    case (Pair t1 rest)
    then have "top_ok t1" using top_key_ok [OF 2(2), of ch ks] by simp
    then show ?thesis using 2 Pair by simp
  qed
qed simp

lemma top_start_ok: "top_ok top_start"
  by (simp add: top_ok_def view_ok_def top_start_def)

text \<open>
  whatever keys are typed, each table of \<open>spu-top\<close> keeps its fields, in some order and some of them shown, and
  the sort field of each screen is a letter up to the maximum of the screen.
\<close>

theorem fields_kept:
  "let t = top_keys ks top_start in
     table (vw_fields (ctx_view t)) = table ctx_fields \<and> table (vw_fields (spu_view t)) = table spu_fields \<and>
     table (vw_fields (proc_view t)) = table proc_fields \<and>
     vw_sort (ctx_view t) \<in> {97..CTX_MAX_FIELD} \<and> vw_sort (spu_view t) \<in> {97..SPU_MAX_FIELD} \<and>
     vw_sort (proc_view t) \<in> {97..PROC_MAX_FIELD}"
  using top_keys_ok [OF top_start_ok, of ks] by (simp add: Let_def top_ok_def view_ok_def)

text \<open>
  the letter after the last field is accepted too, as the maximum is the enumerator that ends the list: the rows
  are then sorted by no field, all of them compare equal.
\<close>

theorem sort_letter_past_table:
  "vw_sort (ctx_view (top_keys ''Ou'' top_start)) = CTX_MAX_FIELD \<and> CTX_MAX_FIELD \<notin> fl_id ` set ctx_fields \<and>
   ctxs_compare F CTX_MAX_FIELD descending x y = Some 0"
proof -
  have "vw_sort (ctx_view (top_keys ''Ou'' top_start)) = CTX_MAX_FIELD"
    by (simp add: top_key_def config_view_def top_start_def max_field_def current_view_def change_view_def lower_def is_upper_def key_def)
  moreover have "CTX_MAX_FIELD \<notin> fl_id ` set ctx_fields" by (simp add: ctx_fields_def new_field_def)
  moreover have "ctxs_compare F CTX_MAX_FIELD descending x y = Some 0" by (simp add: ctxs_compare_def ctx_difference_def)
  ultimately show ?thesis by blast
qed

section \<open>Formats\<close>

text \<open>A value fits a format by the conversion that ends it; the titles are strings.\<close>

fun fits :: "string \<Rightarrow> 'f field_value option \<Rightarrow> bool" where
  "fits fmt (Some (IntV n)) \<longleftrightarrow> last fmt = CHR ''d''"
| "fits fmt (Some (Txt s)) \<longleftrightarrow> last fmt = CHR ''s''"
| "fits fmt (Some (Chr c)) \<longleftrightarrow> last fmt = CHR ''c''"
| "fits fmt (Some (Flt x)) \<longleftrightarrow> last fmt = CHR ''f''"
| "fits fmt (Some (Secs n)) \<longleftrightarrow> last fmt = CHR ''f''"
| "fits fmt (Some (Num n)) \<longleftrightarrow> drop (length fmt - 3) fmt = ''llu''"
| "fits fmt None \<longleftrightarrow> False"

definition fits_print :: "(nat \<Rightarrow> 'f field_value option) \<Rightarrow> field \<Rightarrow> bool" where
  "fits_print print f \<longleftrightarrow> fits (val_format f) (print (fl_id f)) \<and> last (name_format f) = CHR ''s''"

lemma fits_print_unshown [simp]: "fits_print print (unshown f) = fits_print print f"
  by (simp add: fits_print_def unshown_def)

lemma fits_tables:
  "list_all (fits_print (print_ctx_field c)) ctx_fields"
  "list_all (fits_print (print_spu_field s)) spu_fields"
  "list_all (fits_print (print_proc_field p)) proc_fields"
  by (simp_all add: ctx_fields_def spu_fields_def proc_fields_def new_field_def fits_print_def
      print_ctx_field_def print_spu_field_def print_proc_field_def)

lemma fits_columns:
  assumes "table gs = table fs" "list_all (fits_print print) fs"
  shows "list_all (\<lambda>(fmt, v). fits fmt v) (row_columns print gs) \<and> list_all (\<lambda>(fmt, _). last fmt = CHR ''s'') (header_columns gs)"
proof -
  have "unshown ` set gs = unshown ` set fs" using arg_cong [OF assms(1), of set_mset] by (simp add: table_def)
  then have "fits_print print f" if "f \<in> set gs" for f
    using that assms(2) by (metis (no_types, lifting) fits_print_unshown imageE imageI list_all_iff)
  then show ?thesis by (auto simp: row_columns_def header_columns_def list_all_iff fits_print_def)
qed

text \<open>
  after any keys, each value that \<open>spu-top\<close> prints is of the type that the conversion of its format takes, and
  each title is printed by a conversion of strings, on all three screens.
\<close>

theorem formats_match:
  "let t = top_keys ks top_start in
     list_all (\<lambda>(fmt, v). fits fmt v) (row_columns (print_ctx_field c) (vw_fields (ctx_view t))) \<and>
     list_all (\<lambda>(fmt, v). fits fmt v) (row_columns (print_spu_field s) (vw_fields (spu_view t))) \<and>
     list_all (\<lambda>(fmt, v). fits fmt v) (row_columns (print_proc_field p) (vw_fields (proc_view t))) \<and>
     list_all (\<lambda>(fmt, _). last fmt = CHR ''s'') (header_columns (vw_fields (ctx_view t))) \<and>
     list_all (\<lambda>(fmt, _). last fmt = CHR ''s'') (header_columns (vw_fields (spu_view t))) \<and>
     list_all (\<lambda>(fmt, _). last fmt = CHR ''s'') (header_columns (vw_fields (proc_view t)))"
proof -
  have t: "table (vw_fields (ctx_view (top_keys ks top_start))) = table ctx_fields"
      "table (vw_fields (spu_view (top_keys ks top_start))) = table spu_fields"
      "table (vw_fields (proc_view (top_keys ks top_start))) = table proc_fields"
    using top_keys_ok [OF top_start_ok, of ks] by (simp_all add: top_ok_def view_ok_def)
  note F = fits_columns [OF t(1) fits_tables(1) [of c]] fits_columns [OF t(2) fits_tables(2) [of s]]
    fits_columns [OF t(3) fits_tables(3) [of p]]
  from F show ?thesis unfolding Let_def by (intro conjI) (simp_all only:)
qed

end
