(* ===== verification/Spu_Screens.thy ===== *)
theory Spu_Screens
  imports Spu_Fields
begin

unbundle bit_operations_syntax

text \<open>
  What \<open>spu-top\<close> and \<open>spu-ps\<close> print (\<open>spu-top.c\<close>, \<open>spu-ps.c\<close>): the cells of a row as \<open>sprintf\<close> writes them, the buffer
  a row is collected in, the rows of a screen, the whole of \<open>spu-ps\<close> and the load averages. The calls of
  curses that place a line on the screen are left out; the line and its number are results.
\<close>

section \<open>Cells\<close>

text \<open>
  How \<open>%.nf\<close> prints a \<open>float\<close> and a number of milliseconds divided by 1000.0; \<open>%f\<close> reads a \<open>float\<close>.
\<close>

record 'f float_text =
  f_text :: "nat \<Rightarrow> 'f \<Rightarrow> string"
  secs_text :: "nat \<Rightarrow> u64 \<Rightarrow> string"
  scan_f :: "string \<Rightarrow> 'f option"

definition value_text :: "'f float_text \<Rightarrow> nat \<Rightarrow> 'f field_value \<Rightarrow> string" where
  "value_text T prec v =
     (case v of
        IntV n \<Rightarrow> dec_int n
      | Txt s \<Rightarrow> (case s of None \<Rightarrow> ''(null)'' | Some t \<Rightarrow> t)
      | Chr c \<Rightarrow> [c]
      | Flt x \<Rightarrow> f_text T prec x
      | Secs n \<Rightarrow> secs_text T prec n
      | Num n \<Rightarrow> dec (unat n))"

text \<open>What is between \<open>%\<close> and the letter: an optional \<open>-\<close>, the width, an optional precision.\<close>

definition conversion :: "string \<Rightarrow> bool \<times> nat \<times> nat" where
  "conversion w =
     (let left = (w \<noteq> [] \<and> hd w = CHR ''-'');
          w1 = (if left then tl w else w);
          w2 = dropWhile (\<lambda>c. strtol_digit c < 10) w1
      in (left, strtol_digits 10 0 w1, if w2 \<noteq> [] \<and> hd w2 = CHR ''.'' then strtol_digits 10 0 (tl w2) else 6))"

definition padded :: "bool \<Rightarrow> nat \<Rightarrow> string \<Rightarrow> string" where
  "padded left width s =
     (let fill = replicate (width - length s) CHR '' '' in if left then s @ fill else fill @ s)"

text \<open>One conversion with what is before it; a value of another type than the format takes is undefined.\<close>

definition sprintf_field :: "'f float_text \<Rightarrow> string \<Rightarrow> 'f field_value \<Rightarrow> string option" where
  "sprintf_field T fmt v =
     (if fits fmt (Some v)
      then let (left, width, prec) = conversion (tl (dropWhile (\<lambda>c. c \<noteq> CHR ''%'') fmt))
           in Some (takeWhile (\<lambda>c. c \<noteq> CHR ''%'') fmt @ padded left width (value_text T prec v))
      else None)"

section \<open>Rows\<close>

abbreviation (input) MAX_LINE_SIZE :: nat where "MAX_LINE_SIZE \<equiv> 1024"

text \<open>The buffer of a row; a write behind its end is undefined (the terminating NUL is written too).\<close>

definition add_cell :: "string \<Rightarrow> string \<Rightarrow> string option" where
  "add_cell buf t = (if length buf + length t < MAX_LINE_SIZE then Some (buf @ t) else None)"

text \<open>The functions \<open>print_..._field\<close> print nothing for an id they do not know.\<close>

definition cell :: "'f float_text \<Rightarrow> (nat \<Rightarrow> 'f field_value option) \<Rightarrow> field \<Rightarrow> string option" where
  "cell T print f = (case print (fl_id f) of None \<Rightarrow> Some [] | Some v \<Rightarrow> sprintf_field T (val_format f) v)"

fun print_row :: "'f float_text \<Rightarrow> (nat \<Rightarrow> 'f field_value option) \<Rightarrow> field list \<Rightarrow> string \<Rightarrow> string option" where
  "print_row T print [] buf = Some buf"
| "print_row T print (f # fs) buf =
     (if do_show f then do { t \<leftarrow> cell T print f; buf1 \<leftarrow> add_cell buf t; print_row T print fs buf1 }
      else print_row T print fs buf)"

text \<open>The header of \<open>spu-top\<close> is collected in a buffer too, that of \<open>spu-ps\<close> is printed piece by piece.\<close>

definition title :: "'f float_text \<Rightarrow> field \<Rightarrow> string option" where
  "title T f = sprintf_field T (name_format f) (Txt (Some (fl_name f)))"

fun header_row :: "'f float_text \<Rightarrow> field list \<Rightarrow> string \<Rightarrow> string option" where
  "header_row T [] buf = Some buf"
| "header_row T (f # fs) buf =
     (if do_show f then do { t \<leftarrow> title T f; buf1 \<leftarrow> add_cell buf t; header_row T fs buf1 }
      else header_row T fs buf)"

fun print_titles :: "'f float_text \<Rightarrow> field list \<Rightarrow> string option" where
  "print_titles T [] = Some [CHR 0x0A]"
| "print_titles T (f # fs) =
     (if do_show f then do { t \<leftarrow> title T f; rest \<leftarrow> print_titles T fs; Some (t @ rest) } else print_titles T fs)"

text \<open>
  \<open>dump_fields\<close>: as many rows as the screen has lines from the seventh on, each with its line; a row without
  characters is not written.
\<close>

fun dump_rows :: "(nat \<Rightarrow> string option) \<Rightarrow> nat \<Rightarrow> nat \<Rightarrow> nat \<Rightarrow> (nat \<times> string) list option" where
  "dump_rows row i 0 cnt = Some []"
| "dump_rows row i (Suc n) cnt = do {
     t \<leftarrow> row i;
     rest \<leftarrow> dump_rows row (Suc i) n (Suc cnt);
     Some (if t \<noteq> [] then (cnt, t) # rest else rest) }"

definition dump_fields ::
  "'f float_text \<Rightarrow> ('a \<Rightarrow> nat \<Rightarrow> 'f field_value option) \<Rightarrow> nat \<Rightarrow> 'a list option \<Rightarrow> field list \<Rightarrow> (nat \<times> string) list option" where
  "dump_fields T print rows tab fs =
     (case tab of
        None \<Rightarrow> Some []
      | Some xs \<Rightarrow> dump_rows (\<lambda>i. print_row T (print (xs ! i)) fs []) 0 (min (length xs) (rows - 7)) 7)"

text \<open>The lines of the screen mode: title, header and rows.\<close>

definition mode_name :: "screen_mode \<Rightarrow> string" where
  "mode_name m = (case m of PER_CTX \<Rightarrow> ''Context'' | PER_SPU \<Rightarrow> ''SPU'' | PER_PROC \<Rightarrow> ''Process'')"

definition print_header :: "'f float_text \<Rightarrow> screen_mode \<Rightarrow> field list \<Rightarrow> (nat \<times> string) list option" where
  "print_header T m fs = do {
     t \<leftarrow> header_row T fs [];
     Some ((0, ''spu-top: '' @ mode_name m @ '' View'') # (if t \<noteq> [] then [(6, t)] else [])) }"

definition top_screen ::
  "'f float_text \<Rightarrow> nat \<Rightarrow> top \<Rightarrow> 'f ctx list option \<Rightarrow> 'f spu list option \<Rightarrow> 'f proc list option \<Rightarrow> (nat \<times> string) list option"
where
  "top_screen T rows t ctxs spus procs = do {
     head \<leftarrow> print_header T (screen_mode t) (vw_fields (current_view t));
     body \<leftarrow> (case screen_mode t of
         PER_CTX \<Rightarrow> dump_fields T print_ctx_field rows ctxs (vw_fields (ctx_view t))
       | PER_SPU \<Rightarrow> dump_fields T print_spu_field rows spus (vw_fields (spu_view t))
       | PER_PROC \<Rightarrow> dump_fields T print_proc_field rows procs (vw_fields (proc_view t)));
     Some (head @ body) }"

section \<open>Load averages and usage\<close>

text \<open>\<open>fscanf\<close> with three \<open>%f\<close>: what is not read keeps its value; the second function asserts that all were read.\<close>

fun scan_floats :: "'f float_text \<Rightarrow> nat \<Rightarrow> string list \<Rightarrow> 'f list" where
  "scan_floats T 0 ws = []"
| "scan_floats T (Suc n) [] = []"
| "scan_floats T (Suc n) (w # ws) = (case scan_f T w of None \<Rightarrow> [] | Some x \<Rightarrow> x # scan_floats T n ws)"

definition get_cpus_loadavg :: "'f float_text \<Rightarrow> file_system \<Rightarrow> 'f list \<Rightarrow> 'f list" where
  "get_cpus_loadavg T fs avgs =
     (case fs_words fs ''/proc/loadavg'' of
        None \<Rightarrow> avgs | Some ws \<Rightarrow> (let xs = scan_floats T 3 ws in xs @ drop (length xs) avgs))"

definition get_spus_loadavg :: "'f float_text \<Rightarrow> file_system \<Rightarrow> 'f list \<Rightarrow> 'f list option" where
  "get_spus_loadavg T fs avgs =
     (case fs_words fs ''/proc/spu_loadavg'' of
        None \<Rightarrow> Some avgs
      | Some ws \<Rightarrow> (let xs = scan_floats T 3 ws in if length xs < 3 then None else Some xs))"

text \<open>
  The two lines on CPUs: the averages, and the percents for the given kinds of time. The static arrays
  \<open>percents\<close> are state; an element read behind the end is undefined.
\<close>

definition nth_percent :: "'f list \<Rightarrow> time \<Rightarrow> 'f option" where
  "nth_percent ps t = (if time_index t < length ps then Some (ps ! time_index t) else None)"

definition print_cpu_info ::
  "'f float_ops \<Rightarrow> 'f float_text \<Rightarrow> file_system \<Rightarrow> bool \<Rightarrow> (time \<Rightarrow> u64) \<times> (time \<Rightarrow> u64) \<Rightarrow> 'f list \<Rightarrow> 'f list \<Rightarrow>
   ('f list \<times> 'f list \<times> 'f list \<times> (time \<Rightarrow> u64)) option"
where
  "print_cpu_info F T fs min_time_has_passed tms avgs percents = do {
     let avgs1 = get_cpus_loadavg T fs avgs;
     (ps, t) \<leftarrow> (if min_time_has_passed then get_cpu_stats F fs (fst tms) (snd tms) percents else Some (percents, snd tms));
     shown \<leftarrow> those (map (nth_percent ps) [TIME_USER, TIME_SYSTEM, TIME_IOWAIT, TIME_NICE, TIME_IDLE]);
     Some (avgs1, shown, ps, t) }"

definition print_spu_info ::
  "'f float_ops \<Rightarrow> 'f float_text \<Rightarrow> file_system \<Rightarrow> bool \<Rightarrow> 'f spu list option \<Rightarrow> 'f list \<Rightarrow> 'f list \<Rightarrow>
   ('f list \<times> 'f list \<times> 'f list) option"
where
  "print_spu_info F T fs min_time_has_passed spus avgs percents = do {
     avgs1 \<leftarrow> get_spus_loadavg T fs avgs;
     ps \<leftarrow> (if min_time_has_passed then get_spu_stats F spus percents else Some percents);
     shown \<leftarrow> those (map (nth_percent ps) [TIME_USER, TIME_SYSTEM, TIME_IOWAIT, TIME_IDLE]);
     Some (avgs1, shown, ps) }"

section \<open>The main loop of \<open>spu-top\<close>\<close>

text \<open>
  The tables and the static variables. \<open>spus\<close> is \<open>None\<close> before the first call of \<open>get_spus\<close>; \<open>get_spu_contexts\<close> keeps
  its table when there is no \<open>/spu\<close> and returns \<open>NULL\<close>, which \<open>fill_spus_tids\<close> then reads from.
\<close>

record 'f monitor =
  mn_top :: top
  mn_spus :: "'f spu list option"
  mn_ctxs :: "'f ctx list \<times> name_cache"
  mn_shown :: "'f ctx list option"
  mn_procs :: "'f proc list option"
  mn_times :: "(time \<Rightarrow> u64) \<times> (time \<Rightarrow> u64)"
  mn_cpu_avgs :: "'f list"
  mn_spu_avgs :: "'f list"
  mn_cpu_percents :: "'f list"
  mn_spu_percents :: "'f list"

record 'f sorting =
  so_spus :: "nat \<Rightarrow> bool \<Rightarrow> 'f spu list \<Rightarrow> 'f spu list"
  so_ctxs :: "nat \<Rightarrow> bool \<Rightarrow> 'f ctx list \<Rightarrow> 'f ctx list"
  so_procs :: "nat \<Rightarrow> bool \<Rightarrow> 'f proc list \<Rightarrow> 'f proc list"

definition sorted_by :: "(nat \<Rightarrow> bool \<Rightarrow> 'a list \<Rightarrow> 'a list) \<Rightarrow> view \<Rightarrow> 'a list \<Rightarrow> 'a list" where
  "sorted_by srt v = srt (vw_sort v) (vw_descending v)"

definition get_tables ::
  "'f float_ops \<Rightarrow> file_system \<Rightarrow> int \<Rightarrow> char \<Rightarrow> 'f sorting \<Rightarrow> u64 \<Rightarrow> 'f monitor \<Rightarrow> 'f monitor option"
where
  "get_tables F fs junk letter S period m = do {
     spus \<leftarrow> get_spus F fs (sorted_by (so_spus S) (spu_view (mn_top m))) (mn_spus m);
     let r = get_spu_contexts F fs junk letter (sorted_by (so_ctxs S) (ctx_view (mn_top m))) period (mn_ctxs m);
     let shown = map_option fst r;
     Some (m\<lparr>mn_spus := Some spus, mn_ctxs := (case r of None \<Rightarrow> mn_ctxs m | Some cs \<Rightarrow> cs), mn_shown := shown,
       mn_procs := get_procs F (sorted_by (so_procs S) (proc_view (mn_top m))) shown\<rparr>) }"

definition refresh ::
  "'f float_ops \<Rightarrow> file_system \<Rightarrow> int \<Rightarrow> char \<Rightarrow> 'f sorting \<Rightarrow> u64 \<Rightarrow> 'f monitor \<Rightarrow> 'f monitor option"
where
  "refresh F fs junk letter S period m = do {
     m1 \<leftarrow> get_tables F fs junk letter S period m;
     spus \<leftarrow> mn_spus m1;
     ctxs \<leftarrow> mn_shown m1;
     Some (m1\<lparr>mn_spus := Some (fill_spus_tids spus ctxs)\<rparr>) }"

definition monitor_start ::
  "'f float_ops \<Rightarrow> file_system \<Rightarrow> int \<Rightarrow> char \<Rightarrow> 'f sorting \<Rightarrow> 'f monitor option" where
  "monitor_start F fs junk letter S =
     get_tables F fs junk letter S 30
       \<lparr>mn_top = top_start, mn_spus = None, mn_ctxs = ([], []), mn_shown = None, mn_procs = None,
        mn_times = (\<lambda>_. 0, \<lambda>_. 0), mn_cpu_avgs = replicate 3 (f_0 F), mn_spu_avgs = replicate 3 (f_0 F),
        mn_cpu_percents = shown_percents F, mn_spu_percents = shown_percents F\<rparr>"

text \<open>
  One round, up to the key: \<open>period\<close> is the time since the last refresh in milliseconds. The result has the percents
  of the two lines of usage and the lines of the table.
\<close>

definition top_round ::
  "'f float_ops \<Rightarrow> 'f float_text \<Rightarrow> file_system \<Rightarrow> int \<Rightarrow> char \<Rightarrow> 'f sorting \<Rightarrow> u64 \<Rightarrow> nat \<Rightarrow> 'f monitor \<Rightarrow>
   ('f monitor \<times> 'f list \<times> 'f list \<times> (nat \<times> string) list) option"
where
  "top_round F T fs junk letter S period rows m = do {
     let passed = (100 < period);
     m1 \<leftarrow> (if passed then refresh F fs junk letter S period m else Some m);
     (cavgs, cshown, cps, t) \<leftarrow> print_cpu_info F T fs passed (mn_times m1) (mn_cpu_avgs m1) (mn_cpu_percents m1);
     (savgs, sshown, sps) \<leftarrow> print_spu_info F T fs passed (mn_spus m1) (mn_spu_avgs m1) (mn_spu_percents m1);
     lines \<leftarrow> top_screen T rows (mn_top m1) (mn_shown m1) (mn_spus m1) (mn_procs m1);
     Some (m1\<lparr>mn_times := (t, t), mn_cpu_avgs := cavgs, mn_cpu_percents := cps,
       mn_spu_avgs := savgs, mn_spu_percents := sps\<rparr>, cshown, sshown, lines) }"

section \<open>\<open>spu-ps\<close>\<close>

text \<open>The row is the format of \<open>printf\<close>: undefined if it holds a \<open>%\<close>.\<close>

fun dump_ctxs :: "'f float_text \<Rightarrow> 'f ctx list \<Rightarrow> field list \<Rightarrow> string list option" where
  "dump_ctxs T [] fs = Some []"
| "dump_ctxs T (c # cs) fs = do {
     t \<leftarrow> print_row T (print_ctx_field c) fs [];
     if CHR ''%'' \<in> set t then None
     else do { rest \<leftarrow> dump_ctxs T cs fs; Some (t # rest) } }"

definition dump_ctxs_or_spus :: "'f float_text \<Rightarrow> 'f ctx list option \<Rightarrow> field list \<Rightarrow> string list option" where
  "dump_ctxs_or_spus T tab fs = (case tab of None \<Rightarrow> Some [] | Some cs \<Rightarrow> dump_ctxs T cs fs)"

text \<open>
  The program: \<open>opts\<close> as \<open>getopt_long\<close> gives them. The result is the exit status alone, or the header and the rows.
  \<open>srt\<close> is \<open>qsort\<close> with \<open>ctxs_compare\<close> for the sort field.
\<close>

definition spu_ps ::
  "'f float_ops \<Rightarrow> 'f float_text \<Rightarrow> file_system \<Rightarrow> int \<Rightarrow> char \<Rightarrow> (nat \<Rightarrow> 'f ctx list \<Rightarrow> 'f ctx list) \<Rightarrow>
   (char \<times> string) list \<Rightarrow> (int + string \<times> string list) option"
where
  "spu_ps F T fs junk letter srt opts =
     (case ps_options opts (ps_start ctx_fields) CTX_PPU_PID of
        Inl status \<Rightarrow> Some (Inl status)
      | Inr (flds, sort_field) \<Rightarrow> do {
          head \<leftarrow> print_titles T flds;
          body \<leftarrow> dump_ctxs_or_spus T
             (map_option fst (get_spu_contexts F fs junk letter (srt sort_field) 1 ([], []))) flds;
          Some (Inr (head, body)) })"

text \<open>The names that \<open>--help\<close> lists: the fields that can be chosen, one per line, and all of them with commas.\<close>

definition dump_field_names :: "field list \<Rightarrow> (string \<times> string) list" where
  "dump_field_names fs = map (\<lambda>f. (the (id_string f), description f)) (filter (\<lambda>f. id_string f \<noteq> None) fs)"

fun dump_default_fields :: "field list \<Rightarrow> bool \<Rightarrow> string" where
  "dump_default_fields [] first = [CHR 0x0A]"
| "dump_default_fields (f # fs) first =
     (case id_string f of
        None \<Rightarrow> dump_default_fields fs first
      | Some n \<Rightarrow> (if first then ''  '' else '','') @ n @ dump_default_fields fs False)"

section \<open>Rows fit\<close>

text \<open>
  Bounds on what is printed: an \<open>int\<close> has at most 11 characters, an \<open>unsigned long long\<close> 20. Names have at most 256
  (a limit of the system, not of the code). \<open>%.nf\<close> prints a sign, the digits of the integral part, the point and \<open>n\<close>
  decimals: the largest \<open>float\<close> has 39 digits, the seconds of a 64-bit number of milliseconds 17.
\<close>

definition texts_fit :: "'f float_text \<Rightarrow> bool" where
  "texts_fit T \<longleftrightarrow> (\<forall>n x. length (f_text T n x) \<le> 41 + n) \<and> (\<forall>n x. length (secs_text T n x) \<le> 18 + n)"

fun value_ok :: "'f field_value \<Rightarrow> bool" where
  "value_ok (IntV n) \<longleftrightarrow> \<bar>n\<bar> < 10 ^ 10"
| "value_ok (Txt (Some s)) \<longleftrightarrow> length s \<le> 256"
| "value_ok _ \<longleftrightarrow> True"

text \<open>The most a value can take, by the precision of its conversion.\<close>

fun value_bound :: "'f field_value \<Rightarrow> nat \<Rightarrow> nat" where
  "value_bound (IntV n) prec = 11"
| "value_bound (Txt s) prec = 256"
| "value_bound (Chr c) prec = 1"
| "value_bound (Flt x) prec = 41 + prec"
| "value_bound (Secs n) prec = 18 + prec"
| "value_bound (Num n) prec = 20"

lemma value_text_bound:
  assumes "texts_fit T" "value_ok v"
  shows "length (value_text T prec v) \<le> value_bound v prec"
proof (cases v)
  case (IntV n)
  then show ?thesis using assms(2) dec_int_length [of n 9] by (simp add: value_text_def)
next
  case (Txt s)
  then show ?thesis using assms(2) by (cases s) (simp_all add: value_text_def)
next
  case (Num n)
  have "unat n < 10 ^ Suc 19" using unsigned_less [of n, where 'a = nat] by simp
  then show ?thesis using dec_length [of "unat n" 19] Num by (simp add: value_text_def)
qed (use assms(1) in \<open>simp_all add: value_text_def texts_fit_def\<close>)

text \<open>The most a cell can take, by its format and the type of its value.\<close>

definition fmt_bound :: "string \<Rightarrow> (nat \<Rightarrow> nat) \<Rightarrow> nat" where
  "fmt_bound fmt n =
     (case conversion (tl (dropWhile (\<lambda>c. c \<noteq> CHR ''%'') fmt)) of (left, width, prec) \<Rightarrow>
        length (takeWhile (\<lambda>c. c \<noteq> CHR ''%'') fmt) + max width (n prec))"

lemma sprintf_field_length:
  assumes "fits fmt (Some v)" "\<And>prec. length (value_text T prec v) \<le> n prec"
  shows "\<exists>t. sprintf_field T fmt v = Some t \<and> length t \<le> fmt_bound fmt n"
proof -
  obtain left width prec where c: "conversion (tl (dropWhile (\<lambda>c. c \<noteq> CHR ''%'') fmt)) = (left, width, prec)"
    by (metis prod_cases3)
  then show ?thesis using assms(1) assms(2) [of prec]
    by (auto simp: sprintf_field_def fmt_bound_def padded_def Let_def)
qed

lemma sprintf_field_bound:
  assumes "texts_fit T" "value_ok v" "fits fmt (Some v)"
  shows "\<exists>t. sprintf_field T fmt v = Some t \<and> length t \<le> fmt_bound fmt (value_bound v)"
  using sprintf_field_length [OF assms(3)] value_text_bound [OF assms(1,2)] by blast

text \<open>A table fits if its cells have their types and the bounds of all its cells together stay below the buffer's size.\<close>

definition cell_bound :: "(nat \<Rightarrow> 'f field_value option) \<Rightarrow> field \<Rightarrow> nat" where
  "cell_bound print f = (case print (fl_id f) of None \<Rightarrow> 0 | Some v \<Rightarrow> fmt_bound (val_format f) (value_bound v))"

definition title_bound :: "field \<Rightarrow> nat" where
  "title_bound f = fmt_bound (name_format f) (\<lambda>_. length (fl_name f))"

definition values_ok :: "(nat \<Rightarrow> 'f field_value option) \<Rightarrow> field list \<Rightarrow> bool" where
  "values_ok print fs \<longleftrightarrow> list_all (\<lambda>f. case print (fl_id f) of None \<Rightarrow> True | Some v \<Rightarrow> value_ok v) fs"

lemma unshown_formats [simp]: "val_format (unshown f) = val_format f" "name_format (unshown f) = name_format f"
    "fl_name (unshown f) = fl_name f"
  by (simp_all add: unshown_def)

lemma table_sum:
  fixes g :: "field \<Rightarrow> nat"
  assumes "table gs = table fs" "\<And>f. g (unshown f) = g f"
  shows "sum_list (map g gs) = sum_list (map g fs)"
proof -
  have "sum_list (map g xs) = \<Sum>\<^sub># (image_mset g (table xs))" for xs
    using assms(2) by (simp add: table_def multiset.map_comp comp_def sum_mset_sum_list flip: mset_map)
  then show ?thesis using assms(1) by metis
qed

lemma table_all:
  assumes "table gs = table fs" "\<And>f. P (unshown f) = P f" "list_all P fs"
  shows "list_all P gs"
proof -
  have "unshown ` set gs = unshown ` set fs" using arg_cong [OF assms(1), of set_mset] by (simp add: table_def)
  then show ?thesis using assms(2,3) by (metis (no_types, lifting) imageE imageI list_all_iff)
qed

lemma print_row_fits:
  assumes "texts_fit T" "list_all (fits_print print) fs" "values_ok print fs"
    and "length buf + sum_list (map (cell_bound print) fs) < MAX_LINE_SIZE"
  shows "\<exists>row. print_row T print fs buf = Some row \<and> length row < MAX_LINE_SIZE"
  using assms(2-)
proof (induction fs arbitrary: buf)
  case (Cons f fs)
  show ?case
  proof (cases "do_show f")
    case True
    obtain v where v: "print (fl_id f) = Some v" "fits (val_format f) (Some v)" "value_ok v"
      using Cons.prems(1,2) by (cases "print (fl_id f)") (auto simp: fits_print_def values_ok_def)
    obtain t where t: "sprintf_field T (val_format f) v = Some t" "length t \<le> fmt_bound (val_format f) (value_bound v)"
      using sprintf_field_bound [OF assms(1) v(3,2)] by blast
    moreover have "cell_bound print f = fmt_bound (val_format f) (value_bound v)" using v(1) by (simp add: cell_bound_def)
    ultimately have "length (buf @ t) + sum_list (map (cell_bound print) fs) < MAX_LINE_SIZE"
      using Cons.prems(3) by simp
    with Cons.IH [of "buf @ t"] Cons.prems(1,2) v(1) t True show ?thesis
      by (simp add: cell_def add_cell_def values_ok_def)
  qed (use Cons.IH [of buf] Cons.prems in \<open>simp add: values_ok_def\<close>)
qed simp

lemma title_length:
  assumes "last (name_format f) = CHR ''s''"
  shows "\<exists>t. title T f = Some t \<and> length t \<le> title_bound f"
  using sprintf_field_length [of "name_format f" "Txt (Some (fl_name f))" T "\<lambda>_. length (fl_name f)"] assms
  by (simp add: title_def title_bound_def value_text_def)

lemma header_row_fits:
  assumes "list_all (\<lambda>f. last (name_format f) = CHR ''s'') fs"
    and "length buf + sum_list (map title_bound fs) < MAX_LINE_SIZE"
  shows "\<exists>row. header_row T fs buf = Some row \<and> length row < MAX_LINE_SIZE"
  using assms
proof (induction fs arbitrary: buf)
  case (Cons f fs)
  show ?case
  proof (cases "do_show f")
    case True
    obtain t where t: "title T f = Some t" "length t \<le> title_bound f"
      using title_length [of f T] Cons.prems(1) by auto
    then have "length (buf @ t) + sum_list (map title_bound fs) < MAX_LINE_SIZE" using Cons.prems(2) by simp
    with Cons.IH [of "buf @ t"] Cons.prems(1) t True show ?thesis by (simp add: add_cell_def)
  qed (use Cons.IH [of buf] Cons.prems in simp)
qed simp

lemmas conversion_eval = fmt_bound_def conversion_def strtol_digit_def Let_def

lemma bounds_add_up:
  "sum_list (map (cell_bound (print_ctx_field c)) ctx_fields) < MAX_LINE_SIZE"
  "sum_list (map (cell_bound (print_spu_field s)) spu_fields) < MAX_LINE_SIZE"
  "sum_list (map (cell_bound (print_proc_field p)) proc_fields) < MAX_LINE_SIZE"
  by (simp_all add: ctx_fields_def spu_fields_def proc_fields_def new_field_def cell_bound_def conversion_eval
      print_ctx_field_def print_spu_field_def print_proc_field_def)

lemma titles_add_up:
  "sum_list (map title_bound ctx_fields) < MAX_LINE_SIZE" "sum_list (map title_bound spu_fields) < MAX_LINE_SIZE"
  "sum_list (map title_bound proc_fields) < MAX_LINE_SIZE"
  by (simp_all add: ctx_fields_def spu_fields_def proc_fields_def new_field_def title_bound_def conversion_eval)

text \<open>One screen: a table that is an arrangement of one that fits, and rows with values in their bounds.\<close>

lemma row_fits:
  assumes "texts_fit T" "table gs = table fs" "list_all (fits_print print) fs" "values_ok print fs"
    and "sum_list (map (cell_bound print) fs) < MAX_LINE_SIZE"
  shows "\<exists>row. print_row T print gs [] = Some row \<and> length row < MAX_LINE_SIZE"
proof (rule print_row_fits [OF assms(1)])
  show "list_all (fits_print print) gs" by (rule table_all [OF assms(2)]) (simp_all add: assms(3))
  show "values_ok print gs" using table_all [OF assms(2)] assms(4) by (simp add: values_ok_def)
  have "sum_list (map (cell_bound print) gs) = sum_list (map (cell_bound print) fs)"
    by (rule table_sum [OF assms(2)]) (simp add: cell_bound_def split: option.split)
  then show "length [] + sum_list (map (cell_bound print) gs) < MAX_LINE_SIZE" using assms(5) by simp
qed

lemma header_fits:
  assumes "table gs = table fs" "list_all (\<lambda>f. last (name_format f) = CHR ''s'') fs"
    and "sum_list (map title_bound fs) < MAX_LINE_SIZE"
  shows "\<exists>row. header_row T gs [] = Some row \<and> length row < MAX_LINE_SIZE"
proof (rule header_row_fits)
  show "list_all (\<lambda>f. last (name_format f) = CHR ''s'') gs" by (rule table_all [OF assms(1)]) (simp_all add: assms(2))
  have "sum_list (map title_bound gs) = sum_list (map title_bound fs)"
    by (rule table_sum [OF assms(1)]) (simp add: title_bound_def)
  then show "length [] + sum_list (map title_bound gs) < MAX_LINE_SIZE" using assms(3) by simp
qed

definition lines_fit :: "nat \<Rightarrow> (nat \<times> string) list \<Rightarrow> bool" where
  "lines_fit rows ls \<longleftrightarrow> list_all (\<lambda>(n, t). n < max 7 rows \<and> length t < MAX_LINE_SIZE) ls"

lemma dump_rows_fit:
  assumes "\<And>j. j < i + n \<Longrightarrow> \<exists>t. row j = Some t \<and> length t < MAX_LINE_SIZE" "n = 0 \<or> cnt + n \<le> rows"
  shows "\<exists>ls. dump_rows row i n cnt = Some ls \<and> lines_fit rows ls"
  using assms
proof (induction n arbitrary: i cnt)
  case (Suc n)
  obtain t where t: "row i = Some t" "length t < MAX_LINE_SIZE" using Suc.prems(1) [of i] by auto
  have "\<exists>ls. dump_rows row (Suc i) n (Suc cnt) = Some ls \<and> lines_fit rows ls"
    by (rule Suc.IH) (use Suc.prems in auto)
  then show ?case using t Suc.prems(2) by (auto simp: lines_fit_def)
qed (simp add: lines_fit_def)

lemma dump_fields_fit:
  assumes "\<And>x. x \<in> set xs \<Longrightarrow> \<exists>t. print_row T (print x) fs [] = Some t \<and> length t < MAX_LINE_SIZE"
  shows "\<exists>ls. dump_fields T print rows (Some xs) fs = Some ls \<and> lines_fit rows ls"
proof -
  let ?n = "min (length xs) (rows - 7)"
  have "\<exists>ls. dump_rows (\<lambda>i. print_row T (print (xs ! i)) fs []) 0 ?n 7 = Some ls \<and> lines_fit rows ls"
    by (rule dump_rows_fit) (use assms in auto)
  then show ?thesis by (simp add: dump_fields_def)
qed

lemma print_header_fits:
  assumes "\<exists>row. header_row T fs [] = Some row \<and> length row < MAX_LINE_SIZE"
  shows "\<exists>ls. print_header T m fs = Some ls \<and> lines_fit rows ls"
  using assms by (cases m) (auto simp: print_header_def lines_fit_def mode_name_def)

lemma titles_are_strings:
  assumes "list_all (fits_print print) fs"
  shows "list_all (\<lambda>f. last (name_format f) = CHR ''s'') fs"
  using assms by (simp add: list_all_iff fits_print_def)

lemma screen_fits:
  assumes "texts_fit T" "table gs = table fs" "\<And>x. list_all (fits_print (print x)) fs"
    and "\<And>x. sum_list (map (cell_bound (print x)) fs) < MAX_LINE_SIZE" "sum_list (map title_bound fs) < MAX_LINE_SIZE"
    and "list_all (\<lambda>x. values_ok (print x) fs) xs"
  shows "\<exists>head. print_header T m gs = Some head \<and> lines_fit rows head"
    and "\<exists>body. dump_fields T print rows (Some xs) gs = Some body \<and> lines_fit rows body"
proof -
  have "\<exists>row. header_row T gs [] = Some row \<and> length row < MAX_LINE_SIZE"
    by (rule header_fits [OF assms(2) titles_are_strings [OF assms(3)] assms(5)])
  then show "\<exists>head. print_header T m gs = Some head \<and> lines_fit rows head" by (rule print_header_fits)
  show "\<exists>body. dump_fields T print rows (Some xs) gs = Some body \<and> lines_fit rows body"
  proof (rule dump_fields_fit)
    fix x assume "x \<in> set xs"
    then have "values_ok (print x) fs" using assms(6) by (simp add: list_all_iff)
    with row_fits [OF assms(1,2,3) _ assms(4)] show "\<exists>t. print_row T (print x) gs [] = Some t \<and> length t < MAX_LINE_SIZE"
      by blast
  qed
qed

text \<open>
  C33: whatever keys were typed, the table of \<open>spu-top\<close>'s screen (the line with the title, the header and the rows, which
  follow the lines on the usage) can be printed: each value has the type that the conversion of its format takes, the header
  and every row stay within their buffers of 1024 characters, whatever columns are shown, and the lines are on the screen
  (below the seventh, if it has so many) - as long as names have at most 256 characters.
\<close>

theorem rows_fit:
  assumes "texts_fit T" "list_all (\<lambda>c. values_ok (print_ctx_field c) ctx_fields) ctxs"
    and "list_all (\<lambda>s. values_ok (print_spu_field s) spu_fields) spus"
    and "list_all (\<lambda>p. values_ok (print_proc_field p) proc_fields) procs"
  shows "\<exists>ls. top_screen T rows (top_keys ks top_start) (Some ctxs) (Some spus) (Some procs) = Some ls \<and> lines_fit rows ls"
proof -
  let ?t = "top_keys ks top_start"
  have t: "table (vw_fields (ctx_view ?t)) = table ctx_fields" "table (vw_fields (spu_view ?t)) = table spu_fields"
    "table (vw_fields (proc_view ?t)) = table proc_fields"
    using top_keys_ok [OF top_start_ok, of ks] by (simp_all add: top_ok_def view_ok_def)
  note C = screen_fits [OF assms(1) t(1) fits_tables(1) bounds_add_up(1) titles_add_up(1) assms(2)]
  note S = screen_fits [OF assms(1) t(2) fits_tables(2) bounds_add_up(2) titles_add_up(2) assms(3)]
  note P = screen_fits [OF assms(1) t(3) fits_tables(3) bounds_add_up(3) titles_add_up(3) assms(4)]
  have join: "lines_fit rows (xs @ ys) = (lines_fit rows xs \<and> lines_fit rows ys)" for xs ys by (simp add: lines_fit_def)
  show ?thesis
  proof (cases "screen_mode ?t")
    case PER_CTX
    from C obtain h b where "print_header T PER_CTX (vw_fields (ctx_view ?t)) = Some h" "lines_fit rows h"
      "dump_fields T print_ctx_field rows (Some ctxs) (vw_fields (ctx_view ?t)) = Some b" "lines_fit rows b" by metis
    with PER_CTX show ?thesis by (simp add: top_screen_def current_view_def join)
  next
    case PER_SPU
    from S obtain h b where "print_header T PER_SPU (vw_fields (spu_view ?t)) = Some h" "lines_fit rows h"
      "dump_fields T print_spu_field rows (Some spus) (vw_fields (spu_view ?t)) = Some b" "lines_fit rows b" by metis
    with PER_SPU show ?thesis by (simp add: top_screen_def current_view_def join)
  next
    case PER_PROC
    from P obtain h b where "print_header T PER_PROC (vw_fields (proc_view ?t)) = Some h" "lines_fit rows h"
      "dump_fields T print_proc_field rows (Some procs) (vw_fields (proc_view ?t)) = Some b" "lines_fit rows b" by metis
    with PER_PROC show ?thesis by (simp add: top_screen_def current_view_def join)
  qed
qed

text \<open>
  A screen of 24 lines with one context; the table after the keys \<open>fi\<close> shows the user time too. Numbers are printed in
  full: whole percents, and the seconds rounded to the decimals asked for.
\<close>

definition fixed_text :: "nat \<Rightarrow> nat \<Rightarrow> string" where
  "fixed_text n m =
     dec (m div 10 ^ n) @
     (if n = 0 then [] else CHR ''.'' # (let d = dec (m mod 10 ^ n) in replicate (n - length d) CHR ''0'' @ d))"

lemma fixed_text_length: "m < 10 ^ Suc k * 10 ^ n \<Longrightarrow> length (fixed_text n m) \<le> Suc (Suc k) + n"
proof -
  assume "m < 10 ^ Suc k * 10 ^ n"
  then have "length (dec (m div 10 ^ n)) \<le> Suc k" by (intro dec_length) (simp add: less_mult_imp_div_less)
  moreover have "length (dec (m mod 10 ^ n)) \<le> n" if "n \<noteq> 0"
    using that dec_length [of "m mod 10 ^ n" "n - 1"] by simp
  ultimately show ?thesis by (auto simp: fixed_text_def Let_def)
qed

definition whole_text :: "u32 float_text" where
  "whole_text = \<lparr>f_text = (\<lambda>n x. fixed_text n (unat x * 10 ^ n)),
     secs_text = (\<lambda>n t. fixed_text n ((unat t * 10 ^ n + 500) div 1000)), scan_f = (\<lambda>_. None)\<rparr>"

lemma whole_text_fits: "texts_fit whole_text"
proof -
  have "length (fixed_text n (unat x * 10 ^ n)) \<le> 41 + n" for n and x :: u32
  proof -
    have "unat x < 10 ^ Suc 9" using unsigned_less [of x, where 'a = nat] by simp
    then show ?thesis using fixed_text_length [of "unat x * 10 ^ n" 9 n] by simp
  qed
  moreover have "length (fixed_text n ((unat t * 10 ^ n + 500) div 1000)) \<le> 18 + n" for n and t :: u64
  proof -
    have t: "unat t + 500 < 10 ^ 20" using unsigned_less [of t, where 'a = nat] by simp
    have "(unat t + 500) * 10 ^ n < 10 ^ 20 * 10 ^ n" using t by (rule mult_strict_right_mono) simp
    moreover have "unat t * 10 ^ n + 500 \<le> (unat t + 500) * 10 ^ n" by (simp add: add_mult_distrib)
    ultimately have "unat t * 10 ^ n + 500 < 10 ^ 20 * 10 ^ n" by (rule le_less_trans [rotated])
    then have "unat t * 10 ^ n + 500 < 10 ^ 17 * 10 ^ n * 1000" by simp
    then have "(unat t * 10 ^ n + 500) div 1000 < 10 ^ Suc 16 * 10 ^ n" by (simp add: less_mult_imp_div_less)
    then show ?thesis using fixed_text_length [of "(unat t * 10 ^ n + 500) div 1000" 16 n] by simp
  qed
  ultimately show ?thesis by (simp add: texts_fit_def whole_text_def)
qed

definition sample_row_ctx :: "u32 ctx" where
  "sample_row_ctx =
     (alloc_ctx \<lparr>percent_of = (\<lambda>n d. of_nat (unat n * 100 div unat d)), at_most_100 = (\<lambda>x. x \<le> 100), f_100 = 100,
        f_0 = 0, f_add = (+), f_diff = (\<lambda>x y. uint x - uint y)\<rparr>)
     \<lparr>ctx_ppu_pid := 5, ctx_thread_id := 50, ctx_user := Some ''root'', ctx_binary_name := Some ''prog'',
      ctx_percent_spu := 37, ctx_time := (\<lambda>_. 123456)\<rparr>"

theorem rows_fit_witness:
  "\<exists>ls. top_screen whole_text 24 (top_keys ''fi q'' top_start) (Some [sample_row_ctx]) (Some []) (Some []) = Some ls \<and>
    lines_fit 24 ls"
proof -
  have "list_all (\<lambda>c. values_ok (print_ctx_field c) ctx_fields) [sample_row_ctx]"
    by (simp add: values_ok_def ctx_fields_def new_field_def print_ctx_field_def sample_row_ctx_def alloc_ctx_def)
  then show ?thesis using rows_fit [OF whole_text_fits, of "[sample_row_ctx]" "[]" "[]" 24 "''fi q''"] by simp
qed

section \<open>Where the monitors go wrong\<close>

text \<open>
  The comparison of times does not order them: each of three contexts can come before the next, in a circle, as the
  difference of two 64-bit counters is cut to an \<open>int\<close>. \<open>qsort\<close> has no defined result then.
\<close>

theorem times_compare_in_a_circle:
  "\<exists>a b c. ctx_difference F CTX_TOTAL_TIME a b = Some (- 0x60000000) \<and>
     ctx_difference F CTX_TOTAL_TIME b c = Some (- 0x60000000) \<and>
     ctx_difference F CTX_TOTAL_TIME c a = Some (- 0x40000000) \<and>
     ctx_time a TIME_TOTAL < ctx_time b TIME_TOTAL \<and> ctx_time b TIME_TOTAL < ctx_time c TIME_TOTAL"
proof -
  let ?c = "\<lambda>t. (alloc_ctx F)\<lparr>ctx_time := (\<lambda>_. t)\<rparr>"
  have "ctx_difference F CTX_TOTAL_TIME (?c 0) (?c 0x60000000) = Some (- 0x60000000)"
    "ctx_difference F CTX_TOTAL_TIME (?c 0x60000000) (?c 0xC0000000) = Some (- 0x60000000)"
    "ctx_difference F CTX_TOTAL_TIME (?c 0xC0000000) (?c 0) = Some (- 0x40000000)"
    by (simp_all add: ctx_difference_def u64_diff_def)
  moreover have "ctx_time (?c 0) TIME_TOTAL < ctx_time (?c 0x60000000) TIME_TOTAL"
    "ctx_time (?c 0x60000000) TIME_TOTAL < ctx_time (?c 0xC0000000) TIME_TOTAL" by simp_all
  ultimately show ?thesis by blast
qed

text \<open>
  The line on the usage of CPUs reads behind its array of percents in every round, whether they are updated or not: no
  round of \<open>spu-top\<close> is defined. (With arrays of \<open>TIME_MAX\<close> elements it would be, see \<open>shown_percents_overrun\<close>.)
\<close>

theorem every_round_overruns:
  "top_round F T fs junk letter S period rows (m\<lparr>mn_cpu_percents := shown_percents F\<rparr>) = None"
proof -
  have lines: "print_cpu_info F T fs b tms avgs (shown_percents F) = None" for b tms avgs
  proof (cases b)
    case True
    have "store_percents v all_times (shown_percents F) = None" for v :: "time \<Rightarrow> 'a"
      by (simp add: all_times_def shown_percents_def)
    then show ?thesis using True by (auto simp: print_cpu_info_def get_cpu_stats_def Let_def split: Option.bind_splits)
  qed (simp add: print_cpu_info_def nth_percent_def shown_percents_def Let_def)
  have keep: "mn_cpu_percents m1 = mn_cpu_percents m" if "refresh F fs junk letter S period m = Some m1" for m m1
    using that by (auto simp: refresh_def get_tables_def Let_def split: Option.bind_splits)
  show ?thesis
  proof (cases "100 < period")
    case True
    then show ?thesis using keep [of "m\<lparr>mn_cpu_percents := shown_percents F\<rparr>"] lines
      by (cases "refresh F fs junk letter S period (m\<lparr>mn_cpu_percents := shown_percents F\<rparr>)") (simp_all add: top_round_def)
  qed (simp add: top_round_def lines)
qed

end
