(* ===== verification/Stop_Queue.thy ===== *)
theory Stop_Queue
  imports Spe_Event
begin

text \<open>
  Runs of a context with events and reads of its stop information in any order
  (\<open>speevent/spe_event.c\<close>): the composition of the two refinements of \<open>Spe_Event\<close> to the whole
  history of a context, whose outputs are those of a queue.
\<close>

section \<open>What a run does to the pipe\<close>

text \<open>
  Requests that are not on the pipe leave its content alone, and so do the handlers of library calls; a file
  that is opened while the pipe is open gets another descriptor.
\<close>

definition off_stream :: "'w kernel \<Rightarrow> 'w handler_code \<Rightarrow> int \<times> int \<Rightarrow> ('w \<Rightarrow> u8 list) \<Rightarrow> bool" where
  "off_stream K H p st \<longleftrightarrow>
     (\<forall>q m x. (\<forall>bs. q \<noteq> Write (snd p) bs) \<longrightarrow> (\<forall>n. q \<noteq> Read (fst p) n) \<longrightarrow> st (snd (snd (K q (m, x)))) = st x) \<and>
     (\<forall>d f fl mx. rv (fst (K (Openat d f fl) mx)) \<noteq> snd p) \<and>
     (\<forall>h base npc e n e'. H h base npc e = Some (n, e') \<longrightarrow> st (world e') = st (world e))"

lemma off_stream_sys:
  assumes "off_stream K H p st" "sys K q e = (r, e')" "\<And>bs. q \<noteq> Write (snd p) bs" "\<And>n. q \<noteq> Read (fst p) n"
  shows "st (world e') = st (world e)"
  using assms(1) [unfolded off_stream_def, THEN conjunct1, rule_format, of q "mem e" "world e"] assms(2-)
  by (auto simp: sys_def split: prod.splits)

lemma off_stream_sys_rv:
  assumes "off_stream K H p st" "sys_rv K q e = (n, e')" "\<And>bs. q \<noteq> Write (snd p) bs" "\<And>n. q \<noteq> Read (fst p) n"
  shows "st (world e') = st (world e)"
  using assms(2) off_stream_sys [OF assms(1) _ assms(3,4), of e] by (auto simp: sys_rv_def split: prod.splits)

lemma off_stream_handler:
  assumes "off_stream K H p st" "base_spe_handle_library_callback H hs c n npc e = Some (rc, e')"
  shows "st (world e') = st (world e)"
proof -
  have H: "st (world e2) = st (world e1)" if "H h b i e1 = Some (k, e2)" for h b i e1 k e2
    using assms(1) that unfolding off_stream_def by blast
  show ?thesis using assms(2)
    by (auto simp: base_spe_handle_library_callback_def Let_def split: option.splits Option.bind_splits if_splits dest!: H)
qed

lemma off_stream_load_complete:
  assumes "off_stream K H p st"
  shows "st (world (base_spe_program_load_complete K c e)) = st (world e)"
proof (cases "loaded_program c")
  case (Some prog)
  obtain fd e1 where o: "sys_rv K (Openat (fd_spe_dir c) ''object-id'' O_RDWR) e = (fd, e1)" by fastforce
  let ?bs = "c_bytes (ptr_string (elf_image prog))"
  obtain n2 e2 where w: "sys_rv K (Write fd ?bs) e1 = (n2, e2)" by fastforce
  obtain n3 e3 where c: "sys_rv K (Close fd) e2 = (n3, e3)" by fastforce
  have "rv (fst (K (Openat (fd_spe_dir c) ''object-id'' O_RDWR) (mem e, world e))) \<noteq> snd p"
    using assms unfolding off_stream_def by blast
  then have fd: "fd \<noteq> snd p" using o by (auto simp: sys_rv_def sys_def split: prod.splits)
  have "st (world e1) = st (world e)" by (rule off_stream_sys_rv [OF assms o]) simp_all
  moreover have "st (world e2) = st (world e1)" by (rule off_stream_sys_rv [OF assms w]) (use fd in simp_all)
  moreover have "st (world e3) = st (world e2)" by (rule off_stream_sys_rv [OF assms c]) simp_all
  ultimately show ?thesis using Some o w c
    by (simp add: base_spe_program_load_complete_def spe_context_update_event_def)
qed (simp add: base_spe_program_load_complete_def)

lemma off_stream_classify:
  assumes "off_stream K H p st" "classify K H hs rf rc s = Some (r, s')"
  shows "st (world (run_env s')) = st (world (run_env s))"
proof -
  have m: "st (world e2) = st (world e1)" if "mmio_write K b off v e1 = Some e2" for b off v e1 e2
    using that off_stream_sys [OF assms(1), of "MmioWrite (b + off) v" e1]
    by (cases "sys K (MmioWrite (b + off) v) e1") (auto simp: mmio_write_def split: if_splits)
  have i: "st (world e2) = st (world e1)" if "issue_isolated_exit K c e1 = Some (n, e2)" for c e1 n e2
    using that by (auto simp: issue_isolated_exit_def split: if_splits Option.bind_splits dest: m)
  have "st (world (run_env s')) = st (world (run_env s))" if "stopped_by_stop K H hs rf w s = Some (r, s')" for w
    using that off_stream_load_complete [OF assms(1)]
    by (auto simp: stopped_by_stop_def Let_def set_errno_def split: if_splits Option.bind_splits
        dest!: off_stream_handler [OF assms(1)] i)
  then show ?thesis using assms(2)
    by (auto simp: classify_def Let_def set_errno_def split: if_splits)
qed

lemma off_stream_round:
  assumes "off_stream K H p st" "do_run_step K H hs rf s = Some (r, s')"
  shows "st (world (run_env s')) = st (world (run_env s))"
proof -
  let ?s = "s\<lparr>run_chain := map_hd (\<lambda>i. i\<lparr>info_npc := run_tmp s\<rparr>) (run_chain s)\<rparr>"
  obtain rc s2 where 2: "spu_run K ?s = (rc, s2)" by fastforce
  obtain r' e' where sr: "sys K (SpuRun (fd_spe_dir (run_c s)) (run_tmp s)) (run_env s) = (r', e')" by fastforce
  have "st (world e') = st (world (run_env s))" by (rule off_stream_sys [OF assms(1) sr]) simp_all
  then have "st (world (run_env s2)) = st (world (run_env s))"
    using 2 sr by (auto simp: spu_run_def Let_def split: prod.splits)
  then show ?thesis using assms(2) 2
    by (auto simp: do_run_step_def Let_def dest!: off_stream_classify [OF assms(1)] split: if_splits)
qed

lemma off_stream_run:
  assumes "off_stream K H p st" "base_spe_context_run K H hs c ent rf argp envp info junk chain e = Some (rc, s)"
  shows "st (world (run_env s)) = st (world e)"
proof -
  have d: "st (world (run_env s2)) = st (world (run_env s1))" if "do_run K H hs rf s1 = Some (n, s2)" for s1 s2 n
    using that
  proof (induction rule: do_run_induct)
    case (stop s s')
    then show ?case by (rule off_stream_round [OF assms(1)])
  next
    case (again s s1 s')
    then show ?case using off_stream_round [OF assms(1)] by metis
  qed
  have p: "world e2 = world e1" if "start_program c rf argp envp te e1 = Some (bad, te1, e2)" for te e1 bad te1 e2
    using that by (auto simp: start_program_def base_spe_setup_registers_def Let_def split: if_splits Option.bind_splits)
  show ?thesis using assms(2)
    by (auto simp: context_run_unfold cleanupspeinfo_def freespeinfo_def split: Option.bind_splits dest!: d p)
qed

section \<open>Histories\<close>

text \<open>
  One operation of the application on a context with events: a run, with the arguments of
  \<open>spe_context_run\<close> and what its uninitialised variables hold, or a read into a buffer. A run reports
  its stop information to its caller, a read hands out one or fails.
\<close>

datatype queue_op =
    Run_op u32 u32 addr addr spe_stop_info u32
  | Read_op "u8 list"

datatype queue_out = Stopped spe_stop_info | Handed_out spe_stop_info | Nothing_there

fun queue_history ::
  "'w kernel \<Rightarrow> 'w handler_code \<Rightarrow> handlers \<Rightarrow> queue_op list \<Rightarrow> spe_context \<Rightarrow> event_priv \<Rightarrow> 'w env \<Rightarrow>
   queue_out list option"
where
  "queue_history K H hs [] c ev e = Some []"
| "queue_history K H hs (Run_op ent rf argp envp info junk # ops) c ev e = do {
     (rc, ev1, s1) \<leftarrow> event_spe_context_run K H hs \<lparr>base = c, event_private = Some ev\<rparr> ent rf argp envp info junk [] e;
     outs \<leftarrow> queue_history K H hs ops (run_c s1) ev1 (run_env s1);
     Some (Stopped (run_info s1) # outs) }"
| "queue_history K H hs (Read_op buf # ops) c ev e = do {
     (rc, buf1, ev1, e1) \<leftarrow> event_spe_stop_info_read K ev buf e;
     outs \<leftarrow> queue_history K H hs ops c ev1 e1;
     Some ((if rc = 0 then Handed_out (stop_info_of_bytes buf1) else Nothing_there) # outs) }"

text \<open>
  A read may be given any buffer of the size of the structure; the runs are those that end (nothing can be said of a
  program that does not stop).
\<close>

fun runs_end ::
  "'w kernel \<Rightarrow> 'w handler_code \<Rightarrow> handlers \<Rightarrow> queue_op list \<Rightarrow> spe_context \<Rightarrow> event_priv \<Rightarrow> 'w env \<Rightarrow> bool"
where
  "runs_end K H hs [] c ev e \<longleftrightarrow> True"
| "runs_end K H hs (Run_op ent rf argp envp info junk # ops) c ev e \<longleftrightarrow>
     base_spe_context_run K H hs c ent rf argp envp info junk [] e \<noteq> None \<and>
     (case event_spe_context_run K H hs \<lparr>base = c, event_private = Some ev\<rparr> ent rf argp envp info junk [] e of
        None \<Rightarrow> True | Some (rc, ev1, s1) \<Rightarrow> runs_end K H hs ops (run_c s1) ev1 (run_env s1))"
| "runs_end K H hs (Read_op buf # ops) c ev e \<longleftrightarrow>
     length buf = SIZEOF_STOP_INFO \<and>
     (case event_spe_stop_info_read K ev buf e of
        None \<Rightarrow> True | Some (rc, buf1, ev1, e1) \<Rightarrow> runs_end K H hs ops c ev1 e1)"

text \<open>
  The queue the outputs are compared with. While a handler is registered it is unbounded, otherwise it has room for
  one element, the last.
\<close>

fun queue_like :: "bool \<Rightarrow> spe_stop_info list \<Rightarrow> queue_out list \<Rightarrow> bool" where
  "queue_like piped is [] \<longleftrightarrow> True"
| "queue_like piped is (Stopped i # outs) \<longleftrightarrow> queue_like piped (if piped then is @ [i] else [i]) outs"
| "queue_like piped is (Handed_out j # outs) \<longleftrightarrow>
     (case is of [] \<Rightarrow> False | i # is' \<Rightarrow> (info_fits i \<longrightarrow> j = i) \<and> queue_like piped is' outs)"
| "queue_like piped is (Nothing_there # outs) \<longleftrightarrow> is = [] \<and> queue_like piped is outs"

lemma queue_history_like:
  assumes "stop_stream K p st" "off_stream K H p st"
    and "stop_event_pipe ev = p" "pipe_inv ev" "stop_event_buffer_count ev \<in> {0, 1}"
    and "stop_queue st ev e is" "runs_end K H hs ops c ev e"
  shows "\<exists>outs. queue_history K H hs ops c ev e = Some outs \<and> length outs = length ops \<and>
    queue_like (p \<noteq> (-1, -1)) is outs"
  using assms(3-)
proof (induction ops arbitrary: c ev e "is")
  case (Cons q ops)
  note p = Cons.prems(1)
  have strm: "stop_stream K (stop_event_pipe ev) st" using assms(1) p by simp
  show ?case
  proof (cases q)
    case (Run_op ent rf argp envp info junk)
    let ?s = "\<lparr>base = c, event_private = Some ev\<rparr>"
    obtain rc s1 where r: "base_spe_context_run K H hs (base ?s) ent rf argp envp info junk [] e = Some (rc, s1)"
      using Cons.prems(5) Run_op by auto
    have "st (world (run_env s1)) = st (world e)" by (rule off_stream_run [OF assms(2) r])
    then have "stop_queue st ev (run_env s1) is" using Cons.prems(4) by (simp add: stop_queue_def)
    from event_run_queue [OF strm Cons.prems(2) _ r this] obtain ev' s' where
      E: "event_spe_context_run K H hs ?s ent rf argp envp info junk [] e = Some (rc, ev', s')"
        "run_info s' = run_info s1" "pipe_inv ev'" "stop_event_pipe ev' = p"
        "stop_event_buffer_count ev' \<in> {stop_event_buffer_count ev, 1}"
        "stop_queue st ev' (run_env s') (if p = (-1, -1) then [run_info s1] else is @ [run_info s1])"
      using p by auto
    moreover have "runs_end K H hs ops (run_c s') ev' (run_env s')" using Cons.prems(5) Run_op E(1) by simp
    moreover have "stop_event_buffer_count ev' \<in> {0, 1}" using E(5) Cons.prems(3) by auto
    ultimately obtain outs where "queue_history K H hs ops (run_c s') ev' (run_env s') = Some outs"
      "length outs = length ops" "queue_like (p \<noteq> (-1, -1)) (if p = (-1, -1) then [run_info s1] else is @ [run_info s1]) outs"
      using Cons.IH by blast
    then show ?thesis using Run_op E(1,2) by (auto split: if_splits)
  next
    case (Read_op buf)
    then have b: "length buf = SIZEOF_STOP_INFO" using Cons.prems(5) by simp
    note R = stop_read_queue [OF strm Cons.prems(2,3,4) b]
    show ?thesis
    proof (cases "is")
      case Nil
      with R obtain e' where E: "event_spe_stop_info_read K ev buf e = Some (-1, buf, ev, e')" "stop_queue st ev e' []"
        by auto
      moreover have "runs_end K H hs ops c ev e'" using Cons.prems(5) Read_op E(1) by simp
      ultimately obtain outs where "queue_history K H hs ops c ev e' = Some outs" "length outs = length ops"
        "queue_like (p \<noteq> (-1, -1)) [] outs" using Cons.IH [OF p Cons.prems(2,3)] by blast
      then show ?thesis using Read_op E(1) Nil by simp
    next
      case (Cons i is')
      with R obtain ev' e' where E: "event_spe_stop_info_read K ev buf e = Some (0, stop_info_bytes i, ev', e')"
        "stop_queue st ev' e' is'" "stop_event_pipe ev' = p" "pipe_inv ev'" "stop_event_buffer_count ev' \<in> {0, 1}"
        using p by auto
      moreover have "runs_end K H hs ops c ev' e'" using Cons.prems(5) Read_op E(1) by simp
      ultimately obtain outs where "queue_history K H hs ops c ev' e' = Some outs" "length outs = length ops"
        "queue_like (p \<noteq> (-1, -1)) is' outs" using Cons.IH [OF E(3,4,5,2)] by blast
      then show ?thesis using Read_op E(1) Cons by (simp add: stop_info_roundtrip)
    qed
  qed
qed simp

text \<open>
  C14: whatever runs and reads an application makes on a context with events, one after the other, every read returns,
  and what the reads hand out is what the runs reported: each stop information once, in the order
  of the runs and unchanged by its way through the pipe, and nothing when all were handed out. Without a registered
  handler only the last one is kept.
\<close>

theorem stop_infos_in_order:
  assumes "stop_stream K (stop_event_pipe ev) st" "off_stream K H (stop_event_pipe ev) st" "pipe_inv ev"
    and "stop_event_buffer_count ev = 0" "stop_event_pipe ev \<noteq> (-1, -1) \<Longrightarrow> st (world e) = []"
    and "runs_end K H hs ops c ev e"
  shows "\<exists>outs. queue_history K H hs ops c ev e = Some outs \<and> length outs = length ops \<and>
    queue_like (stop_event_pipe ev \<noteq> (-1, -1)) [] outs"
  using assms by (intro queue_history_like) (auto simp: stop_queue_def)

text \<open>The pipe of \<open>sample_pipe\<close> behind its two descriptors; a run that fails, with a handler registered, and two reads.\<close>

definition pipe_5_6 :: "u8 list kernel" where
  "pipe_5_6 q s =
     (case q of
        Write fd bs \<Rightarrow> if fd = 6 then sample_pipe q s else (reply_error EBADF, s)
      | Read fd n \<Rightarrow> if fd = 5 then sample_pipe q s else (reply_error EBADF, s)
      | _ \<Rightarrow> sample_pipe q s)"

lemma pipe_5_6_stream: "stop_stream pipe_5_6 (5, 6) (\<lambda>x. x)"
  using sample_pipe_stream [of "(5, 6)"] by (simp add: stop_stream_def pipe_5_6_def)

lemma pipe_5_6_off: "off_stream pipe_5_6 (\<lambda>_ _ _ _. None) (5, 6) (\<lambda>x. x)"
proof -
  have "snd (snd (pipe_5_6 q (m, x))) = x" if "\<forall>bs. q \<noteq> Write 6 bs" "\<forall>n. q \<noteq> Read 5 n" for q m and x :: "u8 list"
    using that by (cases q) (auto simp: pipe_5_6_def sample_pipe_def)
  moreover have "rv (fst (pipe_5_6 (Openat d f fl) mx)) \<noteq> 6" for d f fl mx
    by (cases mx) (simp add: pipe_5_6_def sample_pipe_def reply_error_def)
  ultimately show ?thesis by (simp add: off_stream_def)
qed

lemma pipe_5_6_run:
  "base_spe_context_run pipe_5_6 (\<lambda>_ _ _ _. None) initial_handlers event_context 0x100 0 0 0 sample_info 0 []
     (start_env Map.empty []) \<noteq> None"
  by (simp add: context_run_unfold first_entry_def blank_context_def start_program_def has_flag_def)
    (subst do_run.simps, simp add: do_run_step_def spu_run_def sys_def pipe_5_6_def sample_pipe_def sample_simps
      classify_def Let_def has_flag_def)

lemma reads_end:
  "length b1 = SIZEOF_STOP_INFO \<Longrightarrow> length b2 = SIZEOF_STOP_INFO \<Longrightarrow> runs_end K H hs [Read_op b1, Read_op b2] c ev e"
  by (simp split: option.splits)

theorem stop_infos_in_order_witness:
  "\<exists>outs. queue_history pipe_5_6 (\<lambda>_ _ _ _. None) initial_handlers
      [Run_op 0x100 0 0 0 sample_info 0, Read_op (replicate 24 0), Read_op (replicate 24 0)] event_context
      (sample_event_priv\<lparr>stop_event_pipe := (5, 6), stop_event_handler_count := 1\<rparr>) (start_env Map.empty []) = Some outs \<and>
    length outs = 3 \<and> queue_like True [] outs"
proof -
  let ?ev = "sample_event_priv\<lparr>stop_event_pipe := (5, 6), stop_event_handler_count := 1\<rparr>"
  let ?ops = "[Run_op 0x100 0 0 0 sample_info 0, Read_op (replicate 24 0), Read_op (replicate 24 0)]"
  have "runs_end pipe_5_6 (\<lambda>_ _ _ _. None) initial_handlers ?ops event_context ?ev (start_env Map.empty [])"
    using pipe_5_6_run reads_end [of "replicate 24 0" "replicate 24 0" pipe_5_6 "\<lambda>_ _ _ _. None" initial_handlers]
    by (simp only: runs_end.simps) (simp split: option.splits)
  moreover have "pipe_inv ?ev" "stop_event_buffer_count ?ev = 0" by (simp_all add: pipe_inv_def sample_event_priv_def)
  moreover have p: "stop_event_pipe ?ev = (5, 6)" "world (start_env Map.empty [] :: u8 list env) = []" by (simp_all add: start_env_def)
  ultimately obtain outs where "queue_history pipe_5_6 (\<lambda>_ _ _ _. None) initial_handlers ?ops event_context ?ev (start_env Map.empty []) = Some outs"
    "length outs = length ?ops" "queue_like (stop_event_pipe ?ev \<noteq> (-1, -1)) [] outs"
    using stop_infos_in_order [of pipe_5_6 ?ev "\<lambda>x. x" "\<lambda>_ _ _ _. None" "start_env Map.empty []" initial_handlers ?ops event_context]
      pipe_5_6_stream pipe_5_6_off unfolding p by blast
  then show ?thesis by (intro exI [of _ outs]) (simp add: p)
qed

end
