(* ===== verification/Spec2Isabelle.thy ===== *)
theory Spec2Isabelle
  imports Elf_Correct Spe_Image Spe_Load Spe_Create Spe_Access Spe_Callbacks Spe_Run Spe_Dma Spe_Mbox
    Spe_Info Spe_Event Libspe2 Default_Handlers Thread_System Thread_Calls
    Elfspe Spu_Screens Stop_Queue Run_Calls
begin

text \<open>
  A verification library for libspe2, the SPE runtime management library of the Cell Broadband
  Engine (C, directory \<open>src/\<close>).

  \<^bold>\<open>The program.\<close> An application creates a context per SPE (\<open>spe_context_create\<close>), opens and loads a
  program into its local store (\<open>spe_image_open\<close>, \<open>spe_program_load\<close>), runs it on the calling thread
  (\<open>spe_context_run\<close>) and talks to it through mailboxes, signals, proxy DMA and events. The
  functions of \<open>libspe2.c\<close> check their arguments and pass them to \<open>spebase/\<close> (contexts, files,
  loader, run loop, mailboxes, DMA, library calls) and \<open>speevent/\<close> (events). All real work is done by
  the kernel: a context is a directory of the spufs file system with one file per facility, and the
  registers of the SPE can be mapped into the process (the problem state).

  \<^bold>\<open>Parts and theories.\<close>
    \<^item> \<open>Spe_Prelude\<close>: machine words, addresses, the byte memory of the process as a partial map, loads,
      stores, \<open>memcpy\<close>, \<open>memset\<close>, the predicate \<open>same_outside\<close> on what a step left alone.
    \<^item> \<open>Spe_Env\<close>: the environment of a call: \<open>errno\<close>, memory, the trace of the requests made, and the
      interface to the kernel and the C library.
    \<^item> \<open>Spe_Types\<close>: constants, enumerations and structures of \<open>libspe2-types.h\<close>, \<open>spebase/spebase.h\<close> and
      \<open>spebase/cbea_map.h\<close>: \<open>spe_context\<close> is \<open>struct spe_context_base_priv\<close> with the addresses of its blocks.
    \<^item> \<open>Spe_Fds\<close>: the reference counted descriptors of a context's files (\<open>spebase/create.c\<close>).
    \<^item> \<open>Elf_Loader\<close>, \<open>Elf_Correct\<close>: \<open>spebase/elf_loader.c\<close>, and the proof that loading leaves the segments.
    \<^item> \<open>Spe_Image\<close>: \<open>spebase/image.c\<close>.
    \<^item> \<open>Spe_Strings\<close>, \<open>Spe_Load\<close>: \<open>spebase/load.c\<close>, with the conversions of \<open>sprintf\<close> it needs.
    \<^item> \<open>Spe_Create\<close>: creation and destruction of contexts and gangs (\<open>spebase/create.c\<close>).
    \<^item> \<open>Spe_Access\<close>: \<open>spebase/accessors.c\<close> and the register trampoline of \<open>spebase/regs.c\<close>, with a model
      of the five SPU instructions it is made of.
    \<^item> \<open>Spe_Callbacks\<close>: the table of library call handlers (\<open>spebase/lib_builtin.c\<close>).
    \<^item> \<open>Spe_Run\<close>: \<open>spe_context_run\<close> (\<open>spebase/run.c\<close>): the classification of the reasons for which an
      SPE stops and the loop that serves library calls.
    \<^item> \<open>Spe_Dma\<close>, \<open>Spe_Mbox\<close>, \<open>Spe_Info\<close>: \<open>spebase/dma.c\<close>, \<open>spebase/mbox.c\<close>, \<open>spebase/info.c\<close>.
    \<^item> \<open>Spe_Event\<close>: \<open>speevent/spe_event.c\<close>: event handlers on \<open>epoll\<close>, the stop event and its pipe.
    \<^item> \<open>Libspe2\<close>: the public functions of \<open>libspe2.c\<close>, which join \<open>spebase\<close> and \<open>speevent\<close>.
    \<^item> \<open>Handler_Utils\<close>, \<open>Handler_Posix1\<close>, \<open>Handler_Libea\<close>, \<open>Handler_C99_Format\<close>, \<open>Handler_C99\<close>,
      \<open>Default_Handlers\<close>: the library calls the SPE program makes (\<open>spebase/handler_utils.h\<close> and
      \<open>spebase/default_*_handler.c\<close>): one definition per handler, the tables, the dispatch functions, the
      parsers of \<open>printf\<close> and \<open>scanf\<close> formats and the table of open files.
    \<^item> \<open>Linked_Lists\<close>, \<open>Thread_Groups\<close>, \<open>Group_Lists\<close>: the groups of the older interface libspe 1.2
      (\<open>libspe12/spethreads.c\<close>, \<open>libspe12/spe.h\<close>) as linked lists in a store, one map from addresses per type of
      block, and the lists of members they represent.
    \<^item> \<open>Spe_Threads\<close>, \<open>Thread_System\<close>, \<open>Thread_Runs\<close>: SPE threads (\<open>libspe12/spe.c\<close>, \<open>libspe12/spethreads.c\<close>):
      creation, waiting, control signals, and \<open>do_spe_run\<close>, which the POSIX thread of every SPE thread
      executes; all threads of a process together with the calls on them.
    \<^item> \<open>Thread_Events\<close>, \<open>Thread_Access\<close>, \<open>Thread_Calls\<close>: \<open>spe_get_event\<close>; the calls that reach the SPE of a
      thread (\<open>libspe12/spe.c\<close>, \<open>libspe12/dma.c\<close>, \<open>libspe12/ps.c\<close>); what the calls do one after the other.
      \<open>Thread_Samples\<close> has a concrete thread for the witnesses.
    \<^item> \<open>Elfspe\<close>: the launcher \<open>elfspe/elfspe.c\<close>, which runs an SPE program through the public API;
      its arguments reach the program, and a program that makes any library calls and exits has its exit code returned.
    \<^item> \<open>Spu_Stats\<close>, \<open>Spu_Fields\<close>, \<open>Spu_Screens\<close>: the monitors \<open>spu-top\<close> and \<open>spu-ps\<close> (\<open>tools/spu-tools/src/\<close>): how
      they collect contexts, SPUs and processes, the columns they can show, and the lines they print.
    \<^item> \<open>Stop_Queue\<close>, \<open>Run_Calls\<close>: components put together: the history of runs and reads of a context with events,
      and a library call from the stop instruction to the restart.

  \<^bold>\<open>How code becomes definitions.\<close> A C function \<open>_base_spe_x\<close> is the HOL function \<open>base_spe_x\<close> (other names
  are kept, less leading underscores). It takes the structures it reads and the environment and
  returns its result, the structures it changed and the environment. An access to an unmapped
  address, a store past an array, a call through a null pointer and a loop that does not end are
  \<open>None\<close>; errors the code reports are ordinary results with \<open>errno\<close>. Words of the hardware and of the
  SPE program are \<open>32 word\<close>, counts and descriptors \<open>int\<close>, addresses \<open>nat\<close>. The process is a 64-bit
  big-endian PowerPC process. Where the code reads a variable it has not set, its value is a
  parameter (\<open>junk\<close>).

  \<^bold>\<open>The kernel.\<close> Whatever is asked of the kernel, of the memory mapped registers or of the C library is
  a request of the type \<open>sysreq\<close>; the answer comes from the parameter \<open>K\<close>, which sees the memory and an
  uninterpreted state. Nothing is assumed of \<open>K\<close> unless a theorem says so, and then it is documented
  behaviour of the call concerned (a successful \<open>read\<close> returns at most what was asked for, \<open>spu_run\<close>
  reports a status of a given form, a library function leaves the frame of the caller
  alone and the local store mapped). Mutex
  calls are requests too, so lock protocols can be read off the trace. The ledgers of \<open>Spe_Env\<close> compute from a trace the descriptors, mappings and heap blocks
  that are held: the balance properties compare them before and after.

  \<^bold>\<open>The monitors\<close> only read: the files of \<open>/proc\<close>, \<open>/sys\<close> and spufs are a parameter (\<open>file_system\<close>: the words of
  a file as \<open>fscanf\<close> reads them, the entries of a directory), and so are the operations on \<open>float\<close>
  (\<open>float_ops\<close>, \<open>float_text\<close>), of which nothing is assumed but that \<open>0 * 100.0 / n\<close> is 0 and that \<open>%.nf\<close>
  prints at most 41 + n characters of a \<open>float\<close> and 18 + n of a number of seconds, and \<open>qsort\<close>, which permutes. The lines of a screen are values, and the configuration screens are functions of the keys that are typed.

  \<^bold>\<open>Threads.\<close> The threads of libspe 1.2 share the thread store with the calls on them. \<open>do_spe_run\<close> is cut
  into steps that end where the code may wait or meet another thread (\<open>do_spe_run_step\<close>, with the local
  variables in \<open>spe_runner\<close>), and \<open>system_step\<close> interleaves the steps of all threads with the calls. A critical
  section is within one step and a run of the program is one step. A thread that waits for its
  condition variable goes on when it was signalled or spuriously; a signal nobody waits for is lost; a
  thread whose cancellation was requested may end at any step.

  \<^bold>\<open>Loops and bounds.\<close> Loops over a given number of elements are structural recursion; loops over tables
  of an image have a measure; the loops that wait for the SPE (\<open>do_run\<close>, \<open>issue_mfc_command\<close>,
  \<open>poll_tags\<close>, \<open>write_all_file\<close>, \<open>epoll_wait_loop\<close>, \<open>do_spe_run\<close>, \<open>wait_tag_status\<close>), the walks over linked
  lists and the scans of C strings are
  \<open>partial_function (option)\<close>, and their properties state that they return. No definition uses fuel.

  \<^bold>\<open>What the properties show.\<close>
    \<^item> Loading: a well formed image leaves exactly its segments, zero padded, in the local store; the
      entry point reaches the context, and a run starts there with its arguments in registers 3 to 6.
    \<^item> Running: return value, stop reason and \<open>errno\<close> agree; a program that makes any number of library
      calls is restarted after each and run to its end; a POSIX.1 call gets its result from the library function
      and the program goes on behind the stop instruction.
    \<^item> Resources: creation and destruction of contexts, gangs, images and event data are balanced on
      every path; no history of uses of a context's files leaks a descriptor.
    \<^item> Events: an invariant of all histories of registrations, runs and reads; any sequence of
      runs and reads hands out the stop information as a queue would, whatever pieces the pipe is read in; waiting.
    \<^item> Mailboxes and DMA: words arrive in order and in full, commands are issued however often the
      queue is full, the two encodings of a command agree.
    \<^item> Library calls: a call is served exactly as the signature of its library function says or refused
      with \<open>ENOSYS\<close>; what may be written where; argument lists of formats fit their arrays and keep their
      order; the table of open files stays consistent.
    \<^item> Threads: every operation refines one on lists of members and keeps the lists well formed; in every
      reachable state the thread store tells where each thread is; exit codes reach \<open>spe_wait\<close>; a killed
      thread that waits ends; events that are pending are delivered once; unknown threads are refused.
    \<^item> Launcher and monitors: the arguments reach the SPE program where its registers say; processes are the
      consolidation of their contexts; the columns are those asked for, and every row is printed by formats of
      the types of its values and fits its buffer, whatever keys were typed.
    \<^item> Errors of the code: theorems that exhibit them on the model (a garbled \<open>realloc\<close> pointer, an
      overrun for incomplete formats, sources of events never released, a thread that is freed but stays in
      its group, lost signals and events, and others); the findings of
      the manifest point to the lines.
  The contracts between components are locales, interpreted on the definitions of the code:
  \<open>fd_source\<close> (shared files and their users), \<open>registry\<close> (the table of library call handlers),
  \<open>handler_class\<close> (a class of library calls behind its dispatch function, interpreted three times) and
  \<open>thread_call\<close> (a call on an SPE thread, interpreted for every call that looks the thread up).

  \<^bold>\<open>Not modelled.\<close> Debug output and the texts \<open>perror\<close> prints; the padding of structures; threads
  of the application that call libspe2 at the same time; the shared memory calls of the POSIX class, which
  the source disables; in the monitors the calls of curses that place a line
  on the screen, the growth of the arrays and the texts of help and version; the 32-bit variant of the C99 handlers. The Ada bindings
  (\<open>ada/\<close>, declarations only) and the tests (\<open>tests/\<close>) are not part of the library.
\<close>

end
